(* ===== verification/Prelude.thy ===== *)
theory Prelude
  imports
    Main
    "HOL-Library.Word"
    "HOL-Library.Multiset"
    "HOL-Library.List_Lexorder"
    "HOL-Library.Product_Lexorder"
    "HOL-Library.Option_ord"
begin

text \<open>
  The Rust vocabulary shared by every component: the integer types \<open>u8\<close>, \<open>u32\<close>,
  \<open>u64\<close> at their width with the checked and saturating operations the crates call,
  \<open>Result\<close> as a sum with the early return of the \<open>?\<close> operator, \<open>for\<close> loops
  that may return early, and \<open>String\<close>/\<open>&str\<close> with the methods the crates use.

  A Rust string is a sequence of Unicode scalar values, so it is a list of code points here,
  not of bytes: \<open>chars()\<close> is the list itself and \<open>chars().count()\<close> its length. Rust
  compares strings by their UTF-8 bytes; UTF-8 preserves the code point order, so the
  lexicographic order of the list library is that order. Static ASCII texts that only label
  an error (the \<open>&'static str\<close> field names) stay HOL strings.
\<close>

section \<open>Automation collections\<close>

named_theorems rust_std \<open>unfolding and rewriting rules for the modelled Rust standard library\<close>
named_theorems result_ok \<open>when a fallible computation returns Ok\<close>

section \<open>Integers\<close>

type_synonym u8 = "8 word"
type_synonym u32 = "32 word"
type_synonym u64 = "64 word"
type_synonym usize = nat

definition saturating_sub :: "'a::len word \<Rightarrow> 'a word \<Rightarrow> 'a word" where
  "saturating_sub a b = (if a < b then 0 else a - b)"

definition checked_add :: "'a::len word \<Rightarrow> 'a word \<Rightarrow> 'a word option" where
  "checked_add a b = (if unat a + unat b < 2 ^ LENGTH('a) then Some (a + b) else None)"

definition saturating_add :: "'a::len word \<Rightarrow> 'a word \<Rightarrow> 'a word" where
  "saturating_add a b = (case checked_add a b of Some c \<Rightarrow> c | None \<Rightarrow> - 1)"

definition abs_diff :: "'a::len word \<Rightarrow> 'a word \<Rightarrow> 'a word" where
  "abs_diff a b = (if a < b then b - a else a - b)"

text \<open>\<open>u32::try_from(n).unwrap_or(u32::MAX)\<close> on a \<open>usize\<close>.\<close>

definition saturating_u32 :: "usize \<Rightarrow> u32" where
  "saturating_u32 n = (if n < 2 ^ 32 then of_nat n else - 1)"

lemma unat_sub_le: "b \<le> a \<Longrightarrow> unat (a - b) = unat a - unat b" for a b :: "'a::len word"
  by (rule unat_sub)

lemma unat_saturating_sub [rust_std]: "unat (saturating_sub a b) = unat a - unat b"
  by (auto simp: saturating_sub_def word_less_nat_alt unat_sub word_le_nat_alt)

lemma checked_add_Some:
  "checked_add a b = Some c \<longleftrightarrow> c = a + b \<and> unat a + unat b < 2 ^ LENGTH('a)"
  for a b c :: "'a::len word"
  by (auto simp: checked_add_def)

lemma checked_add_unat:
  "checked_add a b = Some c \<Longrightarrow> unat c = unat a + unat b" for a b c :: "'a::len word"
  by (auto simp: checked_add_Some unat_word_ariths)

lemma unat_minus_one_max: "unat (- 1 :: 'a::len word) = 2 ^ LENGTH('a) - 1"
  by (simp add: unsigned_minus_1_eq_mask mask_eq_exp_minus_1)

lemma unat_saturating_add:
  "unat (saturating_add a b) = min (unat a + unat b) (2 ^ LENGTH('a) - 1)"
  for a b :: "'a::len word"
proof (cases "unat a + unat b < 2 ^ LENGTH('a)")
  case True
  then show ?thesis by (simp add: saturating_add_def checked_add_def unat_word_ariths)
next
  case False
  then show ?thesis by (simp add: saturating_add_def checked_add_def unat_minus_one_max)
qed

lemma saturating_add_ge: "a \<le> saturating_add a b" for a b :: "'a::len word"
proof -
  have "unat a < 2 ^ LENGTH('a)" by (rule unsigned_less)
  then have "unat a \<le> 2 ^ LENGTH('a) - 1" by linarith
  then show ?thesis by (simp add: word_le_nat_alt unat_saturating_add)
qed

lemma unat_abs_diff: "unat (abs_diff a b) = (if unat a < unat b then unat b - unat a else unat a - unat b)"
  by (auto simp: abs_diff_def word_less_nat_alt unat_sub word_le_nat_alt)

lemma unat_saturating_u32: "unat (saturating_u32 n) = min n (2 ^ 32 - 1)"
proof (cases "n < 2 ^ 32")
  case True
  then have "unat (of_nat n :: u32) = n" by (simp add: unat_of_nat take_bit_nat_eq_self)
  with True show ?thesis by (simp add: saturating_u32_def)
next
  case False
  then show ?thesis by (simp add: saturating_u32_def unat_minus_one_max)
qed


section \<open>Result, early return and loops\<close>

text \<open>
  \<open>Result<T, E>\<close> is \<open>'e + 'a\<close>: \<open>Inl\<close> is \<open>Err\<close>, \<open>Inr\<close> is \<open>Ok\<close>.
  \<open>and_then r f\<close> is \<open>let x = r?; f x\<close>, \<open>ok_or\<close> is \<open>Option::ok_or\<close> and
  \<open>reject_if b e\<close> is \<open>if b { return Err(e) }\<close>.
\<close>

abbreviation Err :: "'e \<Rightarrow> 'e + 'a" where "Err \<equiv> Inl"
abbreviation Ok :: "'a \<Rightarrow> 'e + 'a" where "Ok \<equiv> Inr"

definition and_then :: "'e + 'a \<Rightarrow> ('a \<Rightarrow> 'e + 'b) \<Rightarrow> 'e + 'b" where
  "and_then r f = (case r of Inl e \<Rightarrow> Inl e | Inr x \<Rightarrow> f x)"

definition ok_or :: "'a option \<Rightarrow> 'e \<Rightarrow> 'e + 'a" where
  "ok_or x e = (case x of None \<Rightarrow> Err e | Some v \<Rightarrow> Ok v)"

definition reject_if :: "bool \<Rightarrow> 'e \<Rightarrow> 'e + unit" where
  "reject_if b e = (if b then Err e else Ok ())"

lemma and_then_simps [simp]:
  "and_then (Inl e) f = Inl e" "and_then (Inr x) f = f x"
  by (simp_all add: and_then_def)

lemma ok_or_simps [simp]: "ok_or None e = Inl e" "ok_or (Some v) e = Inr v"
  by (simp_all add: ok_or_def)

lemma reject_if_simps [simp]: "reject_if True e = Inl e" "reject_if False e = Inr ()"
  by (simp_all add: reject_if_def)

lemma and_then_Ok [result_ok]: "and_then r f = Inr y \<longleftrightarrow> (\<exists>x. r = Inr x \<and> f x = Inr y)"
  by (cases r) auto

lemma and_then_Err: "and_then r f = Inl e \<longleftrightarrow> r = Inl e \<or> (\<exists>x. r = Inr x \<and> f x = Inl e)"
  by (cases r) auto

lemma ok_or_Ok [result_ok]: "ok_or x e = Inr v \<longleftrightarrow> x = Some v"
  by (cases x) auto

lemma ok_or_Err: "ok_or x e = Inl e' \<longleftrightarrow> x = None \<and> e' = e"
  by (cases x) auto

lemma reject_if_Ok [result_ok]: "reject_if b e = Inr u \<longleftrightarrow> \<not> b"
  by (cases b) auto

lemma reject_if_Err: "reject_if b e = Inl e' \<longleftrightarrow> b \<and> e' = e"
  by (cases b) auto

lemmas result_err = and_then_Err ok_or_Err reject_if_Err

lemma and_then_assoc: "and_then (and_then r f) g = and_then r (\<lambda>x. and_then (f x) g)"
  by (cases r) auto

text \<open>A \<open>for\<close> loop over a slice whose body updates the state or returns \<open>Err\<close>.\<close>

fun for_each :: "('a \<Rightarrow> 's \<Rightarrow> 'e + 's) \<Rightarrow> 'a list \<Rightarrow> 's \<Rightarrow> 'e + 's" where
  "for_each body [] s = Ok s"
| "for_each body (x # xs) s = and_then (body x s) (for_each body xs)"

text \<open>\<open>iter().map(f).collect::<Result<Vec<_>, _>>()\<close>: stops at the first error.\<close>

fun collect_results :: "('a \<Rightarrow> 'e + 'b) \<Rightarrow> 'a list \<Rightarrow> 'e + 'b list" where
  "collect_results f [] = Ok []"
| "collect_results f (x # xs) = and_then (f x) (\<lambda>y. and_then (collect_results f xs) (\<lambda>ys. Ok (y # ys)))"

text \<open>\<open>Option::map(f).transpose()\<close>.\<close>

definition map_transpose :: "('a \<Rightarrow> 'e + 'b) \<Rightarrow> 'a option \<Rightarrow> 'e + 'b option" where
  "map_transpose f x = (case x of None \<Rightarrow> Ok None | Some v \<Rightarrow> and_then (f v) (\<lambda>y. Ok (Some y)))"

lemma map_transpose_simps [simp]:
  "map_transpose f None = Inr None" "map_transpose f (Some v) = and_then (f v) (\<lambda>y. Inr (Some y))"
  by (simp_all add: map_transpose_def)

lemma map_transpose_Ok [result_ok]:
  "map_transpose f x = Inr y \<longleftrightarrow> (case x of None \<Rightarrow> y = None | Some v \<Rightarrow> (\<exists>w. f v = Inr w \<and> y = Some w))"
  by (cases x) (auto simp: and_then_Ok)

lemma map_transpose_None [dest]: "map_transpose f x = Inr y \<Longrightarrow> (y = None) = (x = None)"
  by (cases x) (auto simp: and_then_Ok)

lemma for_each_append:
  "for_each body (xs @ ys) s = and_then (for_each body xs s) (for_each body ys)"
  by (induction xs arbitrary: s) (auto simp: and_then_def split: sum.splits)

lemma for_each_invariant:
  assumes "for_each body xs s = Ok t" and "I s"
    and "\<And>x s s'. x \<in> set xs \<Longrightarrow> I s \<Longrightarrow> body x s = Ok s' \<Longrightarrow> I s'"
  shows "I t"
  using assms
proof (induction xs arbitrary: s)
  case Nil
  then show ?case by simp
next
  case (Cons x xs)
  then obtain s' where "body x s = Ok s'" and "for_each body xs s' = Ok t"
    by (auto simp: result_ok)
  with Cons show ?case by (metis list.set_intros)
qed

lemma for_each_unit_Ok:
  "for_each (\<lambda>x _. check x) xs () = Ok u \<longleftrightarrow> (\<forall>x \<in> set xs. check x = Ok ())"
  by (induction xs) (auto simp: result_ok)

lemma collect_results_Ok:
  "collect_results f xs = Ok ys \<longleftrightarrow> list_all2 (\<lambda>x y. f x = Ok y) xs ys"
  by (induction xs arbitrary: ys) (auto simp: result_ok list_all2_Cons1)

lemma collect_results_total: "\<forall>x \<in> set xs. \<exists>y. f x = Inr y \<Longrightarrow> \<exists>ys. collect_results f xs = Inr ys"
  by (induction xs) (auto simp: and_then_def)

section \<open>Strings\<close>

type_synonym codepoint = nat
type_synonym str = "codepoint list"

text \<open>An ASCII literal of the source.\<close>

definition lit :: "string \<Rightarrow> str" where
  "lit s = map of_char s"

lemma lit_simps [simp]: "lit [] = []" "lit (c # cs) = of_char c # lit cs"
  by (simp_all add: lit_def)

lemma lit_inject [simp]: "lit s = lit t \<longleftrightarrow> s = t"
  by (simp add: lit_def inj_map_eq_map [OF inj_of_char])

text \<open>\<open>char::is_whitespace\<close>: the Unicode \<open>White_Space\<close> property.\<close>

definition is_whitespace :: "codepoint \<Rightarrow> bool" where
  "is_whitespace c \<longleftrightarrow>
     9 \<le> c \<and> c \<le> 13 \<or> c = 32 \<or> c = 133 \<or> c = 160 \<or> c = 5760 \<or> 8192 \<le> c \<and> c \<le> 8202 \<or>
     c = 8232 \<or> c = 8233 \<or> c = 8239 \<or> c = 8287 \<or> c = 12288"

definition trim :: "str \<Rightarrow> str" where
  "trim s = rev (dropWhile is_whitespace (rev (dropWhile is_whitespace s)))"

definition is_blank :: "str \<Rightarrow> bool" where
  "is_blank s \<longleftrightarrow> trim s = []"

lemma ball_dropWhile: "(\<forall>x \<in> set (dropWhile P xs). P x) \<longleftrightarrow> (\<forall>x \<in> set xs. P x)"
  by (induction xs) auto

lemma is_blank_iff: "is_blank s \<longleftrightarrow> (\<forall>c \<in> set s. is_whitespace c)"
  by (simp add: is_blank_def trim_def ball_dropWhile)

lemma is_blank_Nil [simp]: "is_blank []"
  by (simp add: is_blank_iff)

definition is_ascii_graphic :: "codepoint \<Rightarrow> bool" where
  "is_ascii_graphic c \<longleftrightarrow> 33 \<le> c \<and> c \<le> 126"

definition is_ascii :: "str \<Rightarrow> bool" where
  "is_ascii s \<longleftrightarrow> (\<forall>c \<in> set s. c < 128)"

definition to_ascii_lowercase :: "codepoint \<Rightarrow> codepoint" where
  "to_ascii_lowercase c = (if 65 \<le> c \<and> c \<le> 90 then c + 32 else c)"

definition eq_ignore_ascii_case :: "str \<Rightarrow> str \<Rightarrow> bool" where
  "eq_ignore_ascii_case s t \<longleftrightarrow> map to_ascii_lowercase s = map to_ascii_lowercase t"

lemma ascii_graphic_not_whitespace: "is_ascii_graphic c \<Longrightarrow> \<not> is_whitespace c"
  by (auto simp: is_ascii_graphic_def is_whitespace_def)

lemma eq_ignore_ascii_case_refl [simp]: "eq_ignore_ascii_case s s"
  by (simp add: eq_ignore_ascii_case_def)

lemma eq_ignore_ascii_case_sym: "eq_ignore_ascii_case s t \<longleftrightarrow> eq_ignore_ascii_case t s"
  by (auto simp: eq_ignore_ascii_case_def)

section \<open>Comparisons\<close>

text \<open>\<open>Ordering\<close>, \<open>Ord::cmp\<close>, \<open>Ordering::then_with\<close> and the stable
  \<open>slice::sort_by\<close>. A comparator that reads a key sorts like \<open>sort_key\<close>.\<close>

datatype ordering = Less | Equal | Greater

definition ord_cmp :: "'a::linorder \<Rightarrow> 'a \<Rightarrow> ordering" where
  "ord_cmp a b = (if a < b then Less else if a = b then Equal else Greater)"

definition then_with :: "ordering \<Rightarrow> ordering \<Rightarrow> ordering" where
  "then_with c d = (if c = Equal then d else c)"

fun insert_by :: "('a \<Rightarrow> 'a \<Rightarrow> ordering) \<Rightarrow> 'a \<Rightarrow> 'a list \<Rightarrow> 'a list" where
  "insert_by cmp x [] = [x]"
| "insert_by cmp x (y # ys) = (if cmp x y \<noteq> Greater then x # y # ys else y # insert_by cmp x ys)"

definition sort_by :: "('a \<Rightarrow> 'a \<Rightarrow> ordering) \<Rightarrow> 'a list \<Rightarrow> 'a list" where
  "sort_by cmp xs = foldr (insert_by cmp) xs []"

lemma ord_cmp_simps [simp]:
  "ord_cmp a b = Less \<longleftrightarrow> a < b" "ord_cmp a b = Equal \<longleftrightarrow> a = b" "ord_cmp a b = Greater \<longleftrightarrow> b < a"
  by (auto simp: ord_cmp_def)

lemma then_with_ord_cmp:
  "then_with (ord_cmp a b) (ord_cmp c d) = ord_cmp (a, c) (b, d)"
  by (auto simp: then_with_def ord_cmp_def)

lemma insert_by_insort_key:
  assumes "\<And>x y. cmp x y = Greater \<longleftrightarrow> f y < f x"
  shows "insert_by cmp x ys = insort_key f x ys"
  by (induction ys) (auto simp: assms)

lemma sort_by_sort_key:
  assumes "\<And>x y. cmp x y = Greater \<longleftrightarrow> f y < f x"
  shows "sort_by cmp xs = sort_key f xs"
  by (simp add: sort_by_def sort_key_def insert_by_insort_key [OF assms, abs_def])

section \<open>Sorting and deduplication\<close>

text \<open>
  \<open>Vec::sort\<close>, \<open>sort_by\<close> and \<open>sort_unstable\<close> on a total order are the library's
  \<open>sort\<close> and \<open>sort_key\<close>; \<open>Vec::dedup\<close> removes equal neighbours and is
  \<open>remdups_adj\<close>. A derived \<open>Ord\<close> compares the variant first and then the fields in
  order; it is given by an injective key into a lexicographic order, so that the result of a
  sort depends on the multiset of the input only.
\<close>

lemma sort_key_perm_eq:
  assumes "inj_on f (set xs)" and "mset xs = mset ys"
  shows "sort_key f xs = sort_key f ys"
  using assms(2,1) by (intro sort_key_inj_key_eq) simp_all

lemma sort_perm_eq: "mset xs = mset ys \<Longrightarrow> sort xs = sort ys"
  by (rule sort_key_perm_eq) simp_all

definition sort_dedup :: "'a::linorder list \<Rightarrow> 'a list" where
  "sort_dedup xs = remdups_adj (sort xs)"

lemma set_sort_dedup [simp]: "set (sort_dedup xs) = set xs"
  by (simp add: sort_dedup_def)

lemma sort_dedup_Nil_iff [simp]: "sort_dedup xs = [] \<longleftrightarrow> xs = []"
  by (metis set_empty set_sort_dedup)

lemma distinct_remdups_adj_sorted: "sorted xs \<Longrightarrow> distinct (remdups_adj xs)"
  by (induction xs rule: remdups_adj.induct) (auto simp: order_le_less)

lemma strict_sorted_sort_dedup: "sorted_wrt (<) (sort_dedup xs)"
  by (simp add: sort_dedup_def strict_sorted_iff distinct_remdups_adj_sorted)

lemma sort_dedup_set_eq: "set xs = set ys \<Longrightarrow> sort_dedup xs = sort_dedup ys"
  by (rule sorted_distinct_set_unique)
     (simp_all add: sort_dedup_def distinct_remdups_adj_sorted)

text \<open>The least element of a list, \<open>iter().min()\<close>.\<close>

definition iter_min :: "'a::linorder list \<Rightarrow> 'a option" where
  "iter_min xs = (case sort xs of [] \<Rightarrow> None | x # _ \<Rightarrow> Some x)"

lemma iter_min_perm_eq: "mset xs = mset ys \<Longrightarrow> iter_min xs = iter_min ys"
  unfolding iter_min_def by (drule sort_perm_eq) (simp only:)

lemma iter_min_None [simp]: "iter_min xs = None \<longleftrightarrow> xs = []"
proof -
  have "sort xs = [] \<longleftrightarrow> xs = []" by (metis length_0_conv length_sort)
  then show ?thesis by (auto simp: iter_min_def split: list.splits)
qed

end
