(* ===== verification/Rust_Collections.thy ===== *)
theory Rust_Collections
  imports Prelude "HOL-Library.AList"
begin

text \<open>
  The two map types of the Rust standard library the crates keep their state in, and the
  interface their clients rely on.
  \<^item> \<open>HashMap\<close> (\<open>hm_\<close>): an association list with distinct keys; no order is promised,
    and every lemma of a client is about \<open>hm_get\<close> and \<open>hm_len\<close> only.
  \<^item> \<open>BTreeMap\<close> (\<open>bm_\<close>): an association list sorted strictly by key; iteration is in
    key order.
  The locale \<open>std_map\<close> states what both promise; \<open>std_btree\<close> extends it with ordered
  iteration. Both are interpreted on the two implementations below. \<open>BTreeSet\<close> is the
  strictly sorted list that \<open>bs_insert\<close> builds.
\<close>

section \<open>The interfaces\<close>

locale std_map =
  fixes empty :: "'m"
    and get :: "'m \<Rightarrow> 'k \<Rightarrow> 'v option"
    and insert :: "'k \<Rightarrow> 'v \<Rightarrow> 'm \<Rightarrow> 'm"
    and remove :: "'k \<Rightarrow> 'm \<Rightarrow> 'm"
    and len :: "'m \<Rightarrow> nat"
    and invar :: "'m \<Rightarrow> bool"
  assumes get_empty: "get empty k = None"
    and get_insert: "invar m \<Longrightarrow> get (insert k v m) = (get m)(k \<mapsto> v)"
    and get_remove: "invar m \<Longrightarrow> get (remove k m) = (get m)(k := None)"
    and len_card: "invar m \<Longrightarrow> len m = card (dom (get m))"
    and finite_dom: "invar m \<Longrightarrow> finite (dom (get m))"
    and invar_empty: "invar empty"
    and invar_insert: "invar m \<Longrightarrow> invar (insert k v m)"
    and invar_remove: "invar m \<Longrightarrow> invar (remove k m)"
begin

lemma len_insert_fresh:
  assumes "invar m" and "get m k = None"
  shows "len (insert k v m) = Suc (len m)"
proof -
  have "k \<notin> dom (get m)" using assms(2) by auto
  then show ?thesis
    using assms by (simp add: len_card invar_insert get_insert finite_dom)
qed

lemma len_insert_present:
  assumes "invar m" and "get m k = Some w"
  shows "len (insert k v m) = len m"
proof -
  have "Set.insert k (dom (get m)) = dom (get m)" using assms(2) by auto
  then show ?thesis
    using assms by (simp add: len_card invar_insert get_insert)
qed

lemma fold_insert_invar: "invar m \<Longrightarrow> invar (fold (\<lambda>(k, v). insert k v) kvs m)"
  by (induction kvs arbitrary: m) (auto simp: invar_insert)

lemma dom_fold_insert:
  "invar m \<Longrightarrow> dom (get (fold (\<lambda>(k, v). insert k v) kvs m)) = dom (get m) \<union> fst ` set kvs"
proof (induction kvs arbitrary: m)
  case Nil
  then show ?case by simp
next
  case (Cons kv kvs)
  then show ?case by (cases kv) (simp add: invar_insert get_insert insert_commute del: fun_upd_apply)
qed

end

locale std_btree = std_map empty get insert remove len invar
  for empty :: "'m"
    and get :: "'m \<Rightarrow> 'k::linorder \<Rightarrow> 'v option"
    and insert :: "'k \<Rightarrow> 'v \<Rightarrow> 'm \<Rightarrow> 'm"
    and remove :: "'k \<Rightarrow> 'm \<Rightarrow> 'm"
    and len :: "'m \<Rightarrow> nat"
    and invar :: "'m \<Rightarrow> bool" +
  fixes entries :: "'m \<Rightarrow> ('k \<times> 'v) list"
  assumes entries_sorted: "invar m \<Longrightarrow> sorted_wrt (<) (map fst (entries m))"
    and map_of_entries: "invar m \<Longrightarrow> map_of (entries m) = get m"
begin

lemma set_keys: "invar m \<Longrightarrow> set (map fst (entries m)) = dom (get m)"
  by (simp add: dom_map_of_conv_image_fst flip: map_of_entries)

text \<open>Two maps with the same content are iterated in the same way.\<close>

lemma entries_unique:
  assumes "invar m" and "invar n" and "get m = get n"
  shows "entries m = entries n"
proof (rule map_sorted_distinct_set_unique [where f = fst])
  have s: "sorted (map fst (entries x)) \<and> distinct (map fst (entries x))" if "invar x" for x
    using entries_sorted [OF that] by (simp add: strict_sorted_iff)
  then show sm: "sorted (map fst (entries m))" "distinct (map fst (entries m))"
    and sn: "sorted (map fst (entries n))" "distinct (map fst (entries n))"
    using assms by simp_all
  show eq: "set (entries m) = set (entries n)"
    using sm(2) sn(2) assms by (simp add: map_of_entries flip: map_of_inject_set)
  show "inj_on fst (set (entries m) \<union> set (entries n))"
    using sm(2) eq by (simp add: distinct_map)
qed

text \<open>What a loop of insertions leaves behind is iterated in an order that does not depend on
  the order of the insertions, as long as no key is inserted twice.\<close>

lemma get_fold_insert:
  "invar m \<Longrightarrow> get (fold (\<lambda>(k, v). insert k v) kvs m) = get m ++ map_of (rev kvs)"
proof (induction kvs arbitrary: m)
  case Nil
  then show ?case by simp
next
  case (Cons kv kvs)
  then show ?case
    by (cases kv) (simp add: invar_insert get_insert map_add_assoc del: fun_upd_apply)
qed

lemma entries_fold_insert_perm:
  assumes "distinct (map fst kvs)" and "mset kvs = mset kvs'"
  shows "entries (fold (\<lambda>(k, v). insert k v) kvs empty) =
         entries (fold (\<lambda>(k, v). insert k v) kvs' empty)"
proof (rule entries_unique)
  have "distinct (map fst kvs')"
    using assms by (metis mset_eq_imp_distinct_iff mset_map)
  moreover have "set kvs = set kvs'" using assms(2) by (rule mset_eq_setD)
  ultimately have "map_of (rev kvs) = map_of (rev kvs')"
    using assms(1) by (subst map_of_inject_set) (simp_all add: rev_map [symmetric])
  then show "get (fold (\<lambda>(k, v). insert k v) kvs empty) = get (fold (\<lambda>(k, v). insert k v) kvs' empty)"
    by (simp add: get_fold_insert invar_empty)
qed (simp_all add: fold_insert_invar invar_empty)

end

section \<open>HashMap\<close>

type_synonym ('k, 'v) hash_map = "('k \<times> 'v) list"

definition hm_get :: "('k, 'v) hash_map \<Rightarrow> 'k \<Rightarrow> 'v option" where
  "hm_get = map_of"

definition hm_insert :: "'k \<Rightarrow> 'v \<Rightarrow> ('k, 'v) hash_map \<Rightarrow> ('k, 'v) hash_map" where
  "hm_insert = AList.update"

definition hm_remove :: "'k \<Rightarrow> ('k, 'v) hash_map \<Rightarrow> ('k, 'v) hash_map" where
  "hm_remove = AList.delete"

definition hm_len :: "('k, 'v) hash_map \<Rightarrow> nat" where
  "hm_len = length"

definition hm_contains_key :: "('k, 'v) hash_map \<Rightarrow> 'k \<Rightarrow> bool" where
  "hm_contains_key m k \<longleftrightarrow> hm_get m k \<noteq> None"

text \<open>\<open>HashMap::retain\<close>: keep the entries the closure accepts.\<close>

definition hm_retain :: "('k \<Rightarrow> 'v \<Rightarrow> bool) \<Rightarrow> ('k, 'v) hash_map \<Rightarrow> ('k, 'v) hash_map" where
  "hm_retain keep m = filter (\<lambda>(k, v). keep k v) m"

definition hm_invar :: "('k, 'v) hash_map \<Rightarrow> bool" where
  "hm_invar m \<longleftrightarrow> distinct (map fst m)"

lemma hm_invar_insert: "hm_invar m \<Longrightarrow> hm_invar (hm_insert k v m)"
  by (simp add: hm_invar_def hm_insert_def distinct_update)

lemma hm_invar_remove: "hm_invar m \<Longrightarrow> hm_invar (hm_remove k m)"
  by (simp add: hm_invar_def hm_remove_def distinct_delete)

lemma hm_invar_retain: "hm_invar m \<Longrightarrow> hm_invar (hm_retain keep m)"
  by (simp add: hm_invar_def hm_retain_def distinct_map inj_on_def)

lemma hm_len_card: "hm_invar m \<Longrightarrow> hm_len m = card (dom (hm_get m))"
  using distinct_card [of "map fst m"]
  by (simp add: hm_invar_def hm_len_def hm_get_def dom_map_of_conv_image_fst)

interpretation hm: std_map "[]" hm_get hm_insert hm_remove hm_len hm_invar
proof unfold_locales
  show "hm_get (hm_remove k m) = (hm_get m)(k := None)" for k and m :: "('k, 'v) hash_map"
    by (simp add: hm_get_def hm_remove_def delete_conv')
  show "hm_get (hm_insert k v m) = (hm_get m)(k \<mapsto> v)" for k v and m :: "('k, 'v) hash_map"
    by (simp add: hm_get_def hm_insert_def update_conv')
qed (simp_all add: hm_invar_insert hm_invar_remove hm_len_card,
     simp_all add: hm_get_def hm_invar_def finite_dom_map_of)

lemma hm_get_retain:
  assumes "hm_invar m"
  shows "hm_get (hm_retain keep m) k =
    (case hm_get m k of None \<Rightarrow> None | Some v \<Rightarrow> if keep k v then Some v else None)"
  using assms
  by (induction m) (auto simp: hm_invar_def hm_get_def hm_retain_def split: option.splits
      dest: map_of_SomeD intro!: map_of_is_SomeI simp: map_of_eq_None_iff image_iff)

section \<open>BTreeMap\<close>

type_synonym ('k, 'v) btree_map = "('k \<times> 'v) list"

fun bm_insert :: "'k::linorder \<Rightarrow> 'v \<Rightarrow> ('k, 'v) btree_map \<Rightarrow> ('k, 'v) btree_map" where
  "bm_insert k v [] = [(k, v)]"
| "bm_insert k v (e # m) =
     (if k < fst e then (k, v) # e # m
      else if k = fst e then (k, v) # m
      else e # bm_insert k v m)"

definition bm_get :: "('k, 'v) btree_map \<Rightarrow> 'k \<Rightarrow> 'v option" where
  "bm_get = map_of"

definition bm_remove :: "'k \<Rightarrow> ('k, 'v) btree_map \<Rightarrow> ('k, 'v) btree_map" where
  "bm_remove k = filter (\<lambda>e. fst e \<noteq> k)"

definition bm_len :: "('k, 'v) btree_map \<Rightarrow> nat" where
  "bm_len = length"

definition bm_invar :: "('k::linorder, 'v) btree_map \<Rightarrow> bool" where
  "bm_invar m \<longleftrightarrow> sorted_wrt (<) (map fst m)"

definition bm_entries :: "('k, 'v) btree_map \<Rightarrow> ('k \<times> 'v) list" where
  "bm_entries m = m"

definition bm_keys :: "('k, 'v) btree_map \<Rightarrow> 'k list" where
  "bm_keys m = map fst m"

lemma set_bm_insert: "fst ` set (bm_insert k v m) = Set.insert k (fst ` set m)"
  by (induction m) auto

lemma bm_invar_insert: "bm_invar m \<Longrightarrow> bm_invar (bm_insert k v m)"
proof (induction m)
  case Nil
  then show ?case by (simp add: bm_invar_def)
next
  case (Cons e m)
  have "\<forall>x \<in> fst ` set (bm_insert k v m). fst e < x" if "fst e < k"
    using that Cons.prems by (auto simp: bm_invar_def set_bm_insert)
  with Cons show ?case by (auto simp: bm_invar_def)
qed

lemma bm_get_insert: "bm_invar m \<Longrightarrow> bm_get (bm_insert k v m) = (bm_get m)(k \<mapsto> v)"
  by (induction m) (auto simp: bm_invar_def bm_get_def fun_eq_iff)

lemma bm_invar_distinct: "bm_invar m \<Longrightarrow> distinct (map fst m)"
  by (simp add: bm_invar_def strict_sorted_iff)

interpretation bm: std_btree "[]" bm_get bm_insert bm_remove bm_len bm_invar bm_entries
proof unfold_locales
  show "bm_get (bm_remove k m) = (bm_get m)(k := None)" for k :: "'k::linorder" and m :: "('k, 'v) btree_map"
    by (induction m) (auto simp: bm_get_def bm_remove_def fun_eq_iff)
  show "bm_len m = card (dom (bm_get m))" if "bm_invar m" for m :: "('k::linorder, 'v) btree_map"
    using hm_len_card [of m] bm_invar_distinct [OF that]
    by (simp add: bm_len_def bm_get_def hm_len_def hm_get_def hm_invar_def)
  show "bm_invar (bm_remove k m)" if "bm_invar m" for k and m :: "('k::linorder, 'v) btree_map"
    using that by (simp add: bm_invar_def bm_remove_def sorted_wrt_map sorted_wrt_filter)
qed (simp_all add: bm_get_insert bm_invar_insert del: fun_upd_apply,
     simp_all add: bm_invar_def bm_get_def bm_entries_def finite_dom_map_of)

section \<open>BTreeSet\<close>

definition bs_insert :: "'a::linorder \<Rightarrow> 'a list \<Rightarrow> 'a list" where
  "bs_insert = insort_insert"

definition bs_invar :: "'a::linorder list \<Rightarrow> bool" where
  "bs_invar xs \<longleftrightarrow> sorted_wrt (<) xs"

text \<open>\<open>collect::<BTreeSet<_>>()\<close>.\<close>

definition bs_collect :: "'a::linorder list \<Rightarrow> 'a list" where
  "bs_collect xs = fold bs_insert xs []"

lemma set_bs_insert [simp]: "set (bs_insert x xs) = Set.insert x (set xs)"
  by (simp add: bs_insert_def set_insort_insert)

lemma bs_invar_insert: "bs_invar xs \<Longrightarrow> bs_invar (bs_insert x xs)"
  by (simp add: bs_invar_def bs_insert_def strict_sorted_iff sorted_insort_insert distinct_insort_insert)

lemma fold_bs_insert:
  "bs_invar acc \<Longrightarrow> bs_invar (fold bs_insert xs acc) \<and> set (fold bs_insert xs acc) = set acc \<union> set xs"
  by (induction xs arbitrary: acc) (auto simp: bs_invar_insert)

lemma bs_collect_sort_dedup: "bs_collect xs = sort_dedup xs"
proof (rule sorted_distinct_set_unique)
  have "bs_invar (bs_collect xs) \<and> set (bs_collect xs) = set xs"
    unfolding bs_collect_def using fold_bs_insert [of "[]" xs] by (simp add: bs_invar_def)
  then show "sorted (bs_collect xs)" "distinct (bs_collect xs)" "set (bs_collect xs) = set (sort_dedup xs)"
    by (simp_all add: bs_invar_def strict_sorted_iff)
qed (use strict_sorted_sort_dedup [of xs] in \<open>simp_all add: strict_sorted_iff\<close>)

section \<open>Counting with a BTreeMap\<close>

text \<open>\<open>*counts.entry(k).or_default() += 1\<close> over a list, and the first entry, in key order,
  whose count exceeds one.\<close>

definition count_entry :: "'k::linorder \<Rightarrow> ('k, usize) btree_map \<Rightarrow> ('k, usize) btree_map" where
  "count_entry k counts = bm_insert k ((case bm_get counts k of None \<Rightarrow> 0 | Some n \<Rightarrow> n) + 1) counts"

definition first_repeated :: "'k::linorder list \<Rightarrow> ('k \<times> usize) option" where
  "first_repeated ks = find (\<lambda>(_, n). n > 1) (bm_entries (fold count_entry ks []))"

lemma fold_count_entry:
  assumes "bm_invar m"
  shows "bm_invar (fold count_entry ids m) \<and>
    bm_get (fold count_entry ids m) i =
      (if i \<in> set ids then Some ((case bm_get m i of None \<Rightarrow> 0 | Some n \<Rightarrow> n) + count_list ids i)
       else bm_get m i)"
  using assms
proof (induction ids arbitrary: m)
  case Nil
  then show ?case by simp
next
  case (Cons k ids)
  have inv: "bm_invar (count_entry k m)"
    unfolding count_entry_def by (rule bm.invar_insert [OF Cons.prems])
  have get: "bm_get (count_entry k m) = (bm_get m)(k \<mapsto> (case bm_get m k of None \<Rightarrow> 0 | Some n \<Rightarrow> n) + 1)"
    unfolding count_entry_def by (rule bm.get_insert [OF Cons.prems])
  show ?case
    using Cons.IH [OF inv] by (auto simp: get count_notin)
qed

abbreviation counts_of :: "'k::linorder list \<Rightarrow> ('k, usize) btree_map" where
  "counts_of ids \<equiv> fold count_entry ids []"

lemma counts_of_props:
  "bm_invar (counts_of ids)"
  "bm_get (counts_of ids) i = (if i \<in> set ids then Some (count_list ids i) else None)"
  using fold_count_entry [OF bm.invar_empty, of ids i] by (auto simp: bm.get_empty)

lemma first_repeated_perm: "mset xs = mset ys \<Longrightarrow> first_repeated xs = first_repeated ys"
proof -
  assume eq: "mset xs = mset ys"
  then have "count_list xs i = count_list ys i" for i
    by (metis count_mset)
  then have "bm_get (counts_of xs) = bm_get (counts_of ys)"
    using mset_eq_setD [OF eq] by (auto simp: counts_of_props fun_eq_iff)
  then have "bm_entries (counts_of xs) = bm_entries (counts_of ys)"
    by (rule bm.entries_unique [OF counts_of_props(1) counts_of_props(1)])
  then show ?thesis by (simp add: first_repeated_def)
qed

lemma first_repeated_None: "first_repeated ids = None \<longleftrightarrow> distinct ids"
proof -
  have "find (\<lambda>(_, n). n > 1) (bm_entries (counts_of ids)) = None \<longleftrightarrow>
      (\<forall>i n. (i, n) \<in> set (bm_entries (counts_of ids)) \<longrightarrow> n \<le> 1)"
    by (auto simp: find_None_iff not_less)
  also have "\<dots> \<longleftrightarrow> (\<forall>i n. bm_get (counts_of ids) i = Some n \<longrightarrow> n \<le> 1)"
  proof -
    have "distinct (map fst (bm_entries (counts_of ids)))"
      using bm_invar_distinct [OF counts_of_props(1)] by (simp add: bm_entries_def)
    then show ?thesis
      by (metis bm.map_of_entries [OF counts_of_props(1)] map_of_eq_Some_iff)
  qed
  also have "\<dots> \<longleftrightarrow> (\<forall>i \<in> set ids. count_list ids i \<le> 1)"
    by (auto simp: counts_of_props)
  also have "\<dots> \<longleftrightarrow> distinct ids"
    by (induction ids) (auto simp: count_notin count_list_0_iff le_Suc_eq)
  finally show ?thesis by (simp add: first_repeated_def)
qed

end
