(* ===== verification/Sched_Model.thy ===== *)
theory Sched_Model
  imports Rust_Collections "HOL-Library.FSet"
begin

text \<open>
  The data of the scheduler kernels, \<open>crates/scheduler/src/model.rs\<close>: the fixed
  observations a decision is made from, the requirements of a job, the reasons a candidate
  is rejected for and the results. A field that may be unobserved is an \<open>option\<close>, as in
  the source, where \<open>None\<close> means "not observed" and never "no constraint".

  The enums derive \<open>Ord\<close>. Where an order is used (tiers compared against a minimum,
  reasons sorted into a report) the type is a \<open>linorder\<close> instance whose order is the
  derived one: the declaration index first, then the fields from left to right.
\<close>

section \<open>Enumerations\<close>

datatype node_state =
    NodeDiscovered | NodeEnrolling | NodeEnrollRejected | NodeApproved | NodeOnline
  | NodeSuspect | NodeUnreachable | NodeLost | NodeRecovering | NodeDraining | NodeOffline
  | NodeQuarantined | NodeRevoked | NodeTerminated

datatype risk_state = RiskNormal | RiskSuspect | RiskQuarantined | RiskRevoked

datatype security_tier = S0 | S1 | S2 | S3 | S4 | S5

datatype isolation_class = Restricted | Contained | Virtualized

datatype key_protection = K0 | K1 | K2

datatype workload_class = Training | Inference | Preprocessing | Evaluation | Rendering | OtherWorkload

datatype side_effect_class = Pure | Idempotent | SideEffecting

datatype sensitivity = Public | Internal | Sensitive

fun node_state_index :: "node_state \<Rightarrow> nat" where
  "node_state_index NodeDiscovered = 0" | "node_state_index NodeEnrolling = 1"
| "node_state_index NodeEnrollRejected = 2" | "node_state_index NodeApproved = 3"
| "node_state_index NodeOnline = 4" | "node_state_index NodeSuspect = 5"
| "node_state_index NodeUnreachable = 6" | "node_state_index NodeLost = 7"
| "node_state_index NodeRecovering = 8" | "node_state_index NodeDraining = 9"
| "node_state_index NodeOffline = 10" | "node_state_index NodeQuarantined = 11"
| "node_state_index NodeRevoked = 12" | "node_state_index NodeTerminated = 13"

fun risk_state_index :: "risk_state \<Rightarrow> nat" where
  "risk_state_index RiskNormal = 0" | "risk_state_index RiskSuspect = 1"
| "risk_state_index RiskQuarantined = 2" | "risk_state_index RiskRevoked = 3"

fun security_tier_index :: "security_tier \<Rightarrow> nat" where
  "security_tier_index S0 = 0" | "security_tier_index S1 = 1" | "security_tier_index S2 = 2"
| "security_tier_index S3 = 3" | "security_tier_index S4 = 4" | "security_tier_index S5 = 5"

fun isolation_class_index :: "isolation_class \<Rightarrow> nat" where
  "isolation_class_index Restricted = 0" | "isolation_class_index Contained = 1"
| "isolation_class_index Virtualized = 2"

fun key_protection_index :: "key_protection \<Rightarrow> nat" where
  "key_protection_index K0 = 0" | "key_protection_index K1 = 1" | "key_protection_index K2 = 2"

fun workload_class_index :: "workload_class \<Rightarrow> nat" where
  "workload_class_index Training = 0" | "workload_class_index Inference = 1"
| "workload_class_index Preprocessing = 2" | "workload_class_index Evaluation = 3"
| "workload_class_index Rendering = 4" | "workload_class_index OtherWorkload = 5"

fun side_effect_class_index :: "side_effect_class \<Rightarrow> nat" where
  "side_effect_class_index Pure = 0" | "side_effect_class_index Idempotent = 1"
| "side_effect_class_index SideEffecting = 2"

lemma node_state_index_inject [simp]: "node_state_index a = node_state_index b \<longleftrightarrow> a = b"
  by (cases a; cases b; simp)

lemma risk_state_index_inject [simp]: "risk_state_index a = risk_state_index b \<longleftrightarrow> a = b"
  by (cases a; cases b; simp)

lemma security_tier_index_inject [simp]: "security_tier_index a = security_tier_index b \<longleftrightarrow> a = b"
  by (cases a; cases b; simp)

lemma isolation_class_index_inject [simp]: "isolation_class_index a = isolation_class_index b \<longleftrightarrow> a = b"
  by (cases a; cases b; simp)

lemma key_protection_index_inject [simp]: "key_protection_index a = key_protection_index b \<longleftrightarrow> a = b"
  by (cases a; cases b; simp)

lemma workload_class_index_inject [simp]: "workload_class_index a = workload_class_index b \<longleftrightarrow> a = b"
  by (cases a; cases b; simp)

lemma side_effect_class_index_inject [simp]: "side_effect_class_index a = side_effect_class_index b \<longleftrightarrow> a = b"
  by (cases a; cases b; simp)

lemmas enum_index_inject =
  node_state_index_inject risk_state_index_inject security_tier_index_inject
  isolation_class_index_inject key_protection_index_inject workload_class_index_inject
  side_effect_class_index_inject

instantiation security_tier :: linorder
begin

definition less_eq_security_tier :: "security_tier \<Rightarrow> security_tier \<Rightarrow> bool" where
  "less_eq_security_tier a b \<longleftrightarrow> security_tier_index a \<le> security_tier_index b"

definition less_security_tier :: "security_tier \<Rightarrow> security_tier \<Rightarrow> bool" where
  "less_security_tier a b \<longleftrightarrow> security_tier_index a < security_tier_index b"

instance
  by standard (auto simp: less_eq_security_tier_def less_security_tier_def antisym
      simp flip: enum_index_inject)

end

instantiation isolation_class :: linorder
begin

definition less_eq_isolation_class :: "isolation_class \<Rightarrow> isolation_class \<Rightarrow> bool" where
  "less_eq_isolation_class a b \<longleftrightarrow> isolation_class_index a \<le> isolation_class_index b"

definition less_isolation_class :: "isolation_class \<Rightarrow> isolation_class \<Rightarrow> bool" where
  "less_isolation_class a b \<longleftrightarrow> isolation_class_index a < isolation_class_index b"

instance
  by standard (auto simp: less_eq_isolation_class_def less_isolation_class_def antisym
      simp flip: enum_index_inject)

end

instantiation key_protection :: linorder
begin

definition less_eq_key_protection :: "key_protection \<Rightarrow> key_protection \<Rightarrow> bool" where
  "less_eq_key_protection a b \<longleftrightarrow> key_protection_index a \<le> key_protection_index b"

definition less_key_protection :: "key_protection \<Rightarrow> key_protection \<Rightarrow> bool" where
  "less_key_protection a b \<longleftrightarrow> key_protection_index a < key_protection_index b"

instance
  by standard (auto simp: less_eq_key_protection_def less_key_protection_def antisym
      simp flip: enum_index_inject)

end

lemmas tier_order_defs =
  less_eq_security_tier_def less_security_tier_def
  less_eq_isolation_class_def less_isolation_class_def
  less_eq_key_protection_def less_key_protection_def

section \<open>Inputs\<close>

record gpu_snapshot =
  gs_gpu_id :: str
  gs_healthy :: "bool option"
  gs_available_vram_bytes :: "u64 option"
  gs_model :: "str option"

record candidate_reservation =
  res_attempt_id :: str
  res_expired_at_unix_ms :: "u64 option"

record candidate_snapshot =
  cs_node_id :: str
  cs_inventory_revision :: "u64 option"
  cs_owner_member_id :: "str option"
  cs_node_state :: "node_state option"
  cs_risk_state :: "risk_state option"
  cs_observed_at_unix_ms :: "u64 option"
  cs_security_tier :: "security_tier option"
  cs_isolation_class :: "isolation_class option"
  cs_key_protection :: "key_protection option"
  cs_gpus :: "gpu_snapshot list option"
  cs_available_cpu_cores :: "u32 option"
  cs_available_ram_bytes :: "u64 option"
  cs_available_workspace_bytes :: "u64 option"
  cs_allowed_workload_classes :: "workload_class fset option"
  cs_third_party_workloads_opt_in :: "bool option"
  cs_reservation :: "candidate_reservation option"
  cs_last_heartbeat_unix_ms :: "u64 option"
  cs_gpu_observation_mismatch_at_unix_ms :: "u64 option"

record job_requirements =
  jr_submitter_member_id :: "str option"
  jr_workload_class :: "workload_class option"
  jr_side_effect_class :: "side_effect_class option"
  jr_sensitivity :: "sensitivity option"
  jr_minimum_security_tier :: "security_tier option"
  jr_minimum_isolation_class :: "isolation_class option"
  jr_minimum_key_protection :: "key_protection option"
  jr_minimum_gpu_count :: "u32 option"
  jr_minimum_vram_bytes_per_gpu :: "u64 option"
  jr_allowed_gpu_models :: "str list"
  jr_cpu_cores :: "u32 option"
  jr_ram_bytes :: "u64 option"
  jr_workspace_bytes :: "u64 option"

record pool_snapshot =
  pool_evaluated_at_unix_ms :: u64
  pool_candidates :: "candidate_snapshot list"

record policy =
  maximum_snapshot_age_ms :: u64
  silent_after_ms :: "u64 option"

section \<open>Reasons and results\<close>

datatype missing_fact =
    MfNodeId | MfNodeState | MfRiskState | MfObservedAt | MfSecurityTier | MfIsolationClass
  | MfKeyProtection | MfOwnerMemberId | MfGpuInventory
  | MfGpuHealth str | MfGpuVram str | MfGpuModel str
  | MfAvailableCpu | MfAvailableRam | MfAvailableWorkspace | MfAllowedWorkloadClasses
  | MfThirdPartyOptIn | MfJobSubmitterMemberId | MfJobWorkloadClass | MfJobSideEffectClass
  | MfJobSensitivity | MfJobMinimumSecurityTier | MfJobMinimumIsolationClass
  | MfJobMinimumKeyProtection | MfJobMinimumGpuCount | MfJobMinimumVram | MfJobCpu | MfJobRam
  | MfJobWorkspace

datatype rejection_reason =
    MissingFact missing_fact
  | NotLiveEnough "u64 option" u64
  | AlreadyReserved str "u64 option"
  | NodeNotOnline node_state
  | RiskNotNormal risk_state
  | SnapshotNotFresh u64 u64 u64
  | GpuObservationMismatch u64
  | SecurityTierTooLow security_tier security_tier
  | IsolationClassTooLow isolation_class isolation_class
  | KeyProtectionTooLow key_protection key_protection
  | GpuCountInsufficient u32 u32
  | HealthyGpuCountInsufficient u32 u32
  | GpuModelMismatch u32 u32 "str list"
  | GpuVramInsufficient u32 u32 u64
  | CpuInsufficient u32 u32
  | RamInsufficient u64 u64
  | WorkspaceInsufficient u64 u64
  | WorkloadClassNotAllowed workload_class
  | ThirdPartyJobForbiddenOnS0
  | ThirdPartyOptInRequiredOnRestrictedIsolation
  | ThirdPartyJobMustBePureOnRestrictedIsolation side_effect_class
  | ThirdPartySensitiveDataForbiddenOnRestrictedIsolation

record eligible_candidate =
  ec_node_id :: str

record rejected_candidate =
  rc_node_id :: str
  rc_reasons :: "rejection_reason list"

datatype eligibility_resolution =
    NoEligibleCandidates | SingleEligible str | RankingRequired

record eligibility_report =
  er_eligible :: "eligible_candidate list"
  er_rejected :: "rejected_candidate list"
  er_resolution :: eligibility_resolution

datatype fit_axis = AxisVram | AxisGpuCount | AxisCpu | AxisRam | AxisWorkspace

text \<open>\<open>BestFitPolicy.axis_order: [FitAxis; 5]\<close>: the array is a list whose length the type
  fixes at five in the source.\<close>

record best_fit_policy =
  axis_order :: "fit_axis list"

record fit_key =
  vram_remaining_bytes :: u64
  gpu_count_remaining :: u32
  cpu_cores_remaining :: u32
  ram_remaining_bytes :: u64
  workspace_remaining_bytes :: u64

record resource_fit_result =
  rf_fit_key :: fit_key
  rf_selected_gpu_ids :: "str list"

record ranked_candidate =
  rk_node_id :: str
  rk_fit_key :: fit_key
  rk_selected_gpu_ids :: "str list"

record best_fit_ranking =
  winner :: ranked_candidate
  ranked :: "ranked_candidate list"

datatype ranking_error =
    InvalidPolicyAxisOrder
  | ResolutionNotRankingRequired
  | EligibleCandidateCountNotMultiple usize
  | EmptyNodeId
  | DuplicatePoolNodeId str
  | DuplicateReportNodeId str
  | ReportCandidateMissingFromPool str
  | PoolCandidateMissingFromReport str
  | EmptyGpuId str
  | DuplicateGpuId str str
  | MissingRankFact "str option" missing_fact
  | EligibleCandidateMismatch str fit_axis
  | SelectedGpuCountMismatch str u32 usize
  | FitOverflow str fit_axis

section \<open>The derived order of the reasons\<close>

fun missing_fact_key :: "missing_fact \<Rightarrow> nat list list" where
  "missing_fact_key MfNodeId = [[0]]"
| "missing_fact_key MfNodeState = [[1]]"
| "missing_fact_key MfRiskState = [[2]]"
| "missing_fact_key MfObservedAt = [[3]]"
| "missing_fact_key MfSecurityTier = [[4]]"
| "missing_fact_key MfIsolationClass = [[5]]"
| "missing_fact_key MfKeyProtection = [[6]]"
| "missing_fact_key MfOwnerMemberId = [[7]]"
| "missing_fact_key MfGpuInventory = [[8]]"
| "missing_fact_key (MfGpuHealth i) = [[9], i]"
| "missing_fact_key (MfGpuVram i) = [[10], i]"
| "missing_fact_key (MfGpuModel i) = [[11], i]"
| "missing_fact_key MfAvailableCpu = [[12]]"
| "missing_fact_key MfAvailableRam = [[13]]"
| "missing_fact_key MfAvailableWorkspace = [[14]]"
| "missing_fact_key MfAllowedWorkloadClasses = [[15]]"
| "missing_fact_key MfThirdPartyOptIn = [[16]]"
| "missing_fact_key MfJobSubmitterMemberId = [[17]]"
| "missing_fact_key MfJobWorkloadClass = [[18]]"
| "missing_fact_key MfJobSideEffectClass = [[19]]"
| "missing_fact_key MfJobSensitivity = [[20]]"
| "missing_fact_key MfJobMinimumSecurityTier = [[21]]"
| "missing_fact_key MfJobMinimumIsolationClass = [[22]]"
| "missing_fact_key MfJobMinimumKeyProtection = [[23]]"
| "missing_fact_key MfJobMinimumGpuCount = [[24]]"
| "missing_fact_key MfJobMinimumVram = [[25]]"
| "missing_fact_key MfJobCpu = [[26]]"
| "missing_fact_key MfJobRam = [[27]]"
| "missing_fact_key MfJobWorkspace = [[28]]"

fun opt_key :: "u64 option \<Rightarrow> nat list" where
  "opt_key None = [0]"
| "opt_key (Some n) = [1, unat n]"

fun reason_key :: "rejection_reason \<Rightarrow> nat list list" where
  "reason_key (MissingFact f) = [0] # missing_fact_key f"
| "reason_key (NotLiveEnough l s) = [[1], opt_key l, [unat s]]"
| "reason_key (AlreadyReserved a e) = [[2], a, opt_key e]"
| "reason_key (NodeNotOnline a) = [[3], [node_state_index a]]"
| "reason_key (RiskNotNormal a) = [[4], [risk_state_index a]]"
| "reason_key (SnapshotNotFresh ob ev m) = [[5], [unat ob], [unat ev], [unat m]]"
| "reason_key (GpuObservationMismatch t) = [[6], [unat t]]"
| "reason_key (SecurityTierTooLow a r) = [[7], [security_tier_index a], [security_tier_index r]]"
| "reason_key (IsolationClassTooLow a r) = [[8], [isolation_class_index a], [isolation_class_index r]]"
| "reason_key (KeyProtectionTooLow a r) = [[9], [key_protection_index a], [key_protection_index r]]"
| "reason_key (GpuCountInsufficient a r) = [[10], [unat a], [unat r]]"
| "reason_key (HealthyGpuCountInsufficient a r) = [[11], [unat a], [unat r]]"
| "reason_key (GpuModelMismatch m r al) = [12] # [unat m] # [unat r] # al"
| "reason_key (GpuVramInsufficient m r b) = [[13], [unat m], [unat r], [unat b]]"
| "reason_key (CpuInsufficient a r) = [[14], [unat a], [unat r]]"
| "reason_key (RamInsufficient a r) = [[15], [unat a], [unat r]]"
| "reason_key (WorkspaceInsufficient a r) = [[16], [unat a], [unat r]]"
| "reason_key (WorkloadClassNotAllowed c) = [[17], [workload_class_index c]]"
| "reason_key ThirdPartyJobForbiddenOnS0 = [[18]]"
| "reason_key ThirdPartyOptInRequiredOnRestrictedIsolation = [[19]]"
| "reason_key (ThirdPartyJobMustBePureOnRestrictedIsolation c) = [[20], [side_effect_class_index c]]"
| "reason_key ThirdPartySensitiveDataForbiddenOnRestrictedIsolation = [[21]]"

lemma missing_fact_key_inject [simp]: "missing_fact_key a = missing_fact_key b \<longleftrightarrow> a = b"
  by (cases a; cases b; simp)

lemma opt_key_inject [simp]: "opt_key a = opt_key b \<longleftrightarrow> a = b"
  by (cases a; cases b; simp add: word_unat_eq_iff)

lemma reason_key_inject [simp]: "reason_key a = reason_key b \<longleftrightarrow> a = b"
  by (cases a; cases b; simp add: word_unat_eq_iff)

instantiation rejection_reason :: linorder
begin

definition less_eq_rejection_reason :: "rejection_reason \<Rightarrow> rejection_reason \<Rightarrow> bool" where
  "less_eq_rejection_reason a b \<longleftrightarrow> reason_key a \<le> reason_key b"

definition less_rejection_reason :: "rejection_reason \<Rightarrow> rejection_reason \<Rightarrow> bool" where
  "less_rejection_reason a b \<longleftrightarrow> reason_key a < reason_key b"

instance
  by standard (auto simp: less_eq_rejection_reason_def less_rejection_reason_def
      simp flip: reason_key_inject)

end

lemmas reason_order_defs = less_eq_rejection_reason_def less_rejection_reason_def

end
