(* ===== verification/Sched_Filter.thy ===== *)
theory Sched_Filter
  imports Sched_Model
begin

text \<open>
  The hard gate of the scheduler, \<open>crates/scheduler/src/filter.rs\<close>. Every check pushes
  its reasons onto the candidate's vector; a check is a function here that returns what it
  pushes, and \<open>evaluate_candidate\<close> concatenates them in the order of the source. Inside
  the GPU check each \<open>return\<close> ends the list.

  The abstract specification is \<open>admissible\<close>, one conjunct per gate; the main lemma
  \<open>evaluate_candidate_Nil_iff\<close> says that the vector is empty for exactly the admissible
  candidates, and \<open>evaluate_eligibility_exact\<close> lifts it to the report.
\<close>

section \<open>The checks\<close>

definition compare_minimum ::
    "'a::linorder option \<Rightarrow> 'a option \<Rightarrow> missing_fact \<Rightarrow> missing_fact
      \<Rightarrow> ('a \<Rightarrow> 'a \<Rightarrow> rejection_reason) \<Rightarrow> rejection_reason list" where
  "compare_minimum available required missing_available missing_required rejection =
     (if available = None then [MissingFact missing_available] else []) @
     (if required = None then [MissingFact missing_required] else []) @
     (case (available, required) of
        (Some a, Some r) \<Rightarrow> if a < r then [rejection a r] else []
      | _ \<Rightarrow> [])"

definition compare_resource ::
    "'a::linorder option \<Rightarrow> 'a option \<Rightarrow> missing_fact \<Rightarrow> missing_fact
      \<Rightarrow> ('a \<Rightarrow> 'a \<Rightarrow> rejection_reason) \<Rightarrow> rejection_reason list" where
  "compare_resource = compare_minimum"

text \<open>The three filters of \<open>evaluate_gpus\<close>: each closure keeps the matching GPUs and pushes
  one reason per GPU whose fact is unknown.\<close>

definition gpu_model_allowed :: "str list \<Rightarrow> gpu_snapshot \<Rightarrow> bool" where
  "gpu_model_allowed allowed g = (case gs_model g of Some m \<Rightarrow> m \<in> set allowed | None \<Rightarrow> False)"

definition gpu_vram_enough :: "u64 \<Rightarrow> gpu_snapshot \<Rightarrow> bool" where
  "gpu_vram_enough required_vram g =
     (case gs_available_vram_bytes g of Some v \<Rightarrow> required_vram \<le> v | None \<Rightarrow> False)"

definition evaluate_gpu_vram ::
    "gpu_snapshot list \<Rightarrow> u32 \<Rightarrow> u64 \<Rightarrow> rejection_reason list" where
  "evaluate_gpu_vram model_matched required_count required_vram =
     (let unknown = filter (\<lambda>g. gs_available_vram_bytes g = None) model_matched;
          matching_vram = length (filter (gpu_vram_enough required_vram) model_matched)
      in map (\<lambda>g. MissingFact (MfGpuVram (gs_gpu_id g))) unknown @
         (if unknown = [] \<and> matching_vram < unat required_count
          then [GpuVramInsufficient (saturating_u32 matching_vram) required_count required_vram]
          else []))"

definition evaluate_gpu_models ::
    "gpu_snapshot list \<Rightarrow> str list \<Rightarrow> u32 \<Rightarrow> u64 \<Rightarrow> rejection_reason list" where
  "evaluate_gpu_models healthy allowed_models required_count required_vram =
     (if allowed_models = [] then evaluate_gpu_vram healthy required_count required_vram
      else
        let unknown = filter (\<lambda>g. gs_model g = None) healthy;
            matched = filter (gpu_model_allowed allowed_models) healthy
        in if unknown \<noteq> [] then map (\<lambda>g. MissingFact (MfGpuModel (gs_gpu_id g))) unknown
           else if length matched < unat required_count
           then [GpuModelMismatch (saturating_u32 (length matched)) required_count
                   (sort_dedup allowed_models)]
           else evaluate_gpu_vram matched required_count required_vram)"

definition evaluate_gpu_health ::
    "gpu_snapshot list \<Rightarrow> str list \<Rightarrow> u32 \<Rightarrow> u64 \<Rightarrow> rejection_reason list" where
  "evaluate_gpu_health gpus allowed_models required_count required_vram =
     (let unknown = filter (\<lambda>g. gs_healthy g = None) gpus;
          healthy = filter (\<lambda>g. gs_healthy g = Some True) gpus
      in if unknown \<noteq> [] then map (\<lambda>g. MissingFact (MfGpuHealth (gs_gpu_id g))) unknown
         else if length healthy < unat required_count
         then [HealthyGpuCountInsufficient (saturating_u32 (length healthy)) required_count]
         else evaluate_gpu_models healthy allowed_models required_count required_vram)"

definition evaluate_gpus :: "candidate_snapshot \<Rightarrow> job_requirements \<Rightarrow> rejection_reason list" where
  "evaluate_gpus candidate job =
     (case (jr_minimum_gpu_count job, jr_minimum_vram_bytes_per_gpu job) of
        (Some required_count, Some required_vram) \<Rightarrow>
          (case cs_gpus candidate of
             None \<Rightarrow> [MissingFact MfGpuInventory]
           | Some gpus \<Rightarrow>
               if length gpus < unat required_count
               then [GpuCountInsufficient (saturating_u32 (length gpus)) required_count]
               else evaluate_gpu_health gpus (jr_allowed_gpu_models job) required_count required_vram)
      | (required_count, required_vram) \<Rightarrow>
          (if required_count = None then [MissingFact MfJobMinimumGpuCount] else []) @
          (if required_vram = None then [MissingFact MfJobMinimumVram] else []))"

text \<open>\<open>Some(value) if !value.is_empty()\<close>: an identity that is present and not empty.\<close>

definition nonempty_identity :: "str option \<Rightarrow> str option" where
  "nonempty_identity x = (case x of Some v \<Rightarrow> if v = [] then None else Some v | None \<Rightarrow> None)"

definition evaluate_third_party :: "candidate_snapshot \<Rightarrow> job_requirements \<Rightarrow> rejection_reason list" where
  "evaluate_third_party candidate job =
     (if cs_security_tier candidate = Some S0 then [ThirdPartyJobForbiddenOnS0] else []) @
     (if cs_isolation_class candidate \<noteq> Some Restricted then []
      else
        (case cs_third_party_workloads_opt_in candidate of
           None \<Rightarrow> [MissingFact MfThirdPartyOptIn]
         | Some False \<Rightarrow> [ThirdPartyOptInRequiredOnRestrictedIsolation]
         | Some True \<Rightarrow> []) @
        (case jr_side_effect_class job of
           None \<Rightarrow> [MissingFact MfJobSideEffectClass]
         | Some Pure \<Rightarrow> []
         | Some actual \<Rightarrow> [ThirdPartyJobMustBePureOnRestrictedIsolation actual]) @
        (case jr_sensitivity job of
           None \<Rightarrow> [MissingFact MfJobSensitivity]
         | Some Sensitive \<Rightarrow> [ThirdPartySensitiveDataForbiddenOnRestrictedIsolation]
         | Some _ \<Rightarrow> []))"

definition evaluate_owner_policy ::
    "candidate_snapshot \<Rightarrow> job_requirements \<Rightarrow> rejection_reason list" where
  "evaluate_owner_policy candidate job =
     (let owner = nonempty_identity (cs_owner_member_id candidate);
          submitter = nonempty_identity (jr_submitter_member_id job)
      in (if jr_workload_class job = None then [MissingFact MfJobWorkloadClass] else []) @
         (case (cs_allowed_workload_classes candidate, jr_workload_class job) of
            (None, _) \<Rightarrow> [MissingFact MfAllowedWorkloadClasses]
          | (Some allowed, Some c) \<Rightarrow> if c |\<notin>| allowed then [WorkloadClassNotAllowed c] else []
          | _ \<Rightarrow> []) @
         (if owner = None then [MissingFact MfOwnerMemberId] else []) @
         (if submitter = None then [MissingFact MfJobSubmitterMemberId] else []) @
         (case (owner, submitter) of
            (Some o', Some s') \<Rightarrow> if o' \<noteq> s' then evaluate_third_party candidate job else []
          | _ \<Rightarrow> []))"

definition evaluate_liveness :: "candidate_snapshot \<Rightarrow> u64 \<Rightarrow> policy \<Rightarrow> rejection_reason list" where
  "evaluate_liveness candidate now policy =
     (case silent_after_ms policy of
        None \<Rightarrow> []
      | Some silent_after \<Rightarrow>
          let silent = (case cs_last_heartbeat_unix_ms candidate of
                          None \<Rightarrow> True
                        | Some seen \<Rightarrow> saturating_sub now seen > silent_after)
          in if silent then [NotLiveEnough (cs_last_heartbeat_unix_ms candidate) silent_after] else [])"

definition evaluate_states :: "candidate_snapshot \<Rightarrow> u64 \<Rightarrow> policy \<Rightarrow> rejection_reason list" where
  "evaluate_states candidate now policy =
     (case cs_reservation candidate of
        None \<Rightarrow> []
      | Some r \<Rightarrow> [AlreadyReserved (res_attempt_id r) (res_expired_at_unix_ms r)]) @
     (case cs_node_state candidate of
        None \<Rightarrow> [MissingFact MfNodeState]
      | Some NodeOnline \<Rightarrow> []
      | Some actual \<Rightarrow> [NodeNotOnline actual]) @
     (case cs_risk_state candidate of
        None \<Rightarrow> [MissingFact MfRiskState]
      | Some RiskNormal \<Rightarrow> []
      | Some actual \<Rightarrow> [RiskNotNormal actual]) @
     (case cs_observed_at_unix_ms candidate of
        None \<Rightarrow> [MissingFact MfObservedAt]
      | Some observed \<Rightarrow>
          if observed > now \<or> now - observed > maximum_snapshot_age_ms policy
          then [SnapshotNotFresh observed now (maximum_snapshot_age_ms policy)] else []) @
     (case cs_gpu_observation_mismatch_at_unix_ms candidate of
        None \<Rightarrow> []
      | Some t \<Rightarrow> [GpuObservationMismatch t])"

definition evaluate_candidate ::
    "candidate_snapshot \<Rightarrow> u64 \<Rightarrow> job_requirements \<Rightarrow> policy \<Rightarrow> rejection_reason list" where
  "evaluate_candidate candidate now job policy =
     (if cs_node_id candidate = [] then [MissingFact MfNodeId] else []) @
     evaluate_liveness candidate now policy @
     evaluate_states candidate now policy @
     compare_minimum (cs_security_tier candidate) (jr_minimum_security_tier job)
       MfSecurityTier MfJobMinimumSecurityTier SecurityTierTooLow @
     compare_minimum (cs_isolation_class candidate) (jr_minimum_isolation_class job)
       MfIsolationClass MfJobMinimumIsolationClass IsolationClassTooLow @
     compare_minimum (cs_key_protection candidate) (jr_minimum_key_protection job)
       MfKeyProtection MfJobMinimumKeyProtection KeyProtectionTooLow @
     evaluate_gpus candidate job @
     compare_resource (cs_available_cpu_cores candidate) (jr_cpu_cores job)
       MfAvailableCpu MfJobCpu CpuInsufficient @
     compare_resource (cs_available_ram_bytes candidate) (jr_ram_bytes job)
       MfAvailableRam MfJobRam RamInsufficient @
     compare_resource (cs_available_workspace_bytes candidate) (jr_workspace_bytes job)
       MfAvailableWorkspace MfJobWorkspace WorkspaceInsufficient @
     evaluate_owner_policy candidate job"

section \<open>The report\<close>

text \<open>One turn of the loop over the candidates: \<open>Inl\<close> is pushed onto \<open>eligible\<close>,
  \<open>Inr\<close> onto \<open>rejected\<close>.\<close>

definition classify_candidate ::
    "u64 \<Rightarrow> job_requirements \<Rightarrow> policy \<Rightarrow> candidate_snapshot
      \<Rightarrow> eligible_candidate + rejected_candidate" where
  "classify_candidate now job policy candidate =
     (let reasons = sort_dedup (evaluate_candidate candidate now job policy)
      in if reasons = [] then Inl \<lparr>ec_node_id = cs_node_id candidate\<rparr>
         else Inr \<lparr>rc_node_id = cs_node_id candidate, rc_reasons = reasons\<rparr>)"

definition evaluate_eligibility ::
    "pool_snapshot \<Rightarrow> job_requirements \<Rightarrow> policy \<Rightarrow> eligibility_report" where
  "evaluate_eligibility pool job policy =
     (let verdicts = map (classify_candidate (pool_evaluated_at_unix_ms pool) job policy)
                       (pool_candidates pool);
          eligible = sort_key ec_node_id [e. Inl e \<leftarrow> verdicts];
          rejected = sort_key (\<lambda>r. (rc_node_id r, rc_reasons r)) [r. Inr r \<leftarrow> verdicts]
      in \<lparr>er_eligible = eligible, er_rejected = rejected,
          er_resolution = (case eligible of
             [] \<Rightarrow> NoEligibleCandidates
           | [only] \<Rightarrow> SingleEligible (ec_node_id only)
           | _ \<Rightarrow> RankingRequired)\<rparr>)"


section \<open>The specification\<close>

definition meets :: "'a::linorder option \<Rightarrow> 'a option \<Rightarrow> bool" where
  "meets available required =
     (case (available, required) of (Some a, Some r) \<Rightarrow> r \<le> a | _ \<Rightarrow> False)"

text \<open>A GPU the job can use, and the facts the filter has to know before it can say so.\<close>

definition gpu_model_ok :: "str list \<Rightarrow> gpu_snapshot \<Rightarrow> bool" where
  "gpu_model_ok allowed g \<longleftrightarrow> allowed = [] \<or> gpu_model_allowed allowed g"

definition usable_gpu :: "str list \<Rightarrow> u64 \<Rightarrow> gpu_snapshot \<Rightarrow> bool" where
  "usable_gpu allowed required_vram g \<longleftrightarrow>
     gs_healthy g = Some True \<and> gpu_model_ok allowed g \<and> gpu_vram_enough required_vram g"

definition gpu_facts_known :: "str list \<Rightarrow> gpu_snapshot \<Rightarrow> bool" where
  "gpu_facts_known allowed g \<longleftrightarrow>
     gs_healthy g \<noteq> None \<and>
     (gs_healthy g = Some True \<longrightarrow>
        (allowed \<noteq> [] \<longrightarrow> gs_model g \<noteq> None) \<and>
        (gpu_model_ok allowed g \<longrightarrow> gs_available_vram_bytes g \<noteq> None))"

definition gpus_admissible :: "candidate_snapshot \<Rightarrow> job_requirements \<Rightarrow> bool" where
  "gpus_admissible c j =
     (case (cs_gpus c, jr_minimum_gpu_count j, jr_minimum_vram_bytes_per_gpu j) of
        (Some gpus, Some n, Some v) \<Rightarrow>
          list_all (gpu_facts_known (jr_allowed_gpu_models j)) gpus \<and>
          unat n \<le> length (filter (usable_gpu (jr_allowed_gpu_models j) v) gpus)
      | _ \<Rightarrow> False)"

definition owner_admissible :: "candidate_snapshot \<Rightarrow> job_requirements \<Rightarrow> bool" where
  "owner_admissible c j =
     (case (jr_workload_class j, cs_allowed_workload_classes c,
            nonempty_identity (cs_owner_member_id c), nonempty_identity (jr_submitter_member_id j)) of
        (Some w, Some allowed, Some owner, Some submitter) \<Rightarrow>
          w |\<in>| allowed \<and>
          (owner \<noteq> submitter \<longrightarrow>
             cs_security_tier c \<noteq> Some S0 \<and>
             (cs_isolation_class c = Some Restricted \<longrightarrow>
                cs_third_party_workloads_opt_in c = Some True \<and>
                jr_side_effect_class j = Some Pure \<and>
                (jr_sensitivity j = Some Public \<or> jr_sensitivity j = Some Internal)))
      | _ \<Rightarrow> False)"

definition live_enough :: "candidate_snapshot \<Rightarrow> u64 \<Rightarrow> policy \<Rightarrow> bool" where
  "live_enough c now p =
     (case (silent_after_ms p, cs_last_heartbeat_unix_ms c) of
        (None, _) \<Rightarrow> True
      | (Some limit, Some seen) \<Rightarrow> unat now \<le> unat seen + unat limit
      | (Some _, None) \<Rightarrow> False)"

definition fresh_snapshot :: "candidate_snapshot \<Rightarrow> u64 \<Rightarrow> policy \<Rightarrow> bool" where
  "fresh_snapshot c now p =
     (case cs_observed_at_unix_ms c of
        None \<Rightarrow> False
      | Some observed \<Rightarrow>
          unat observed \<le> unat now \<and> unat now \<le> unat observed + unat (maximum_snapshot_age_ms p))"

definition admissible :: "candidate_snapshot \<Rightarrow> u64 \<Rightarrow> job_requirements \<Rightarrow> policy \<Rightarrow> bool" where
  "admissible c now j p \<longleftrightarrow>
     cs_node_id c \<noteq> [] \<and> live_enough c now p \<and> cs_reservation c = None \<and>
     cs_node_state c = Some NodeOnline \<and> cs_risk_state c = Some RiskNormal \<and>
     fresh_snapshot c now p \<and> cs_gpu_observation_mismatch_at_unix_ms c = None \<and>
     meets (cs_security_tier c) (jr_minimum_security_tier j) \<and>
     meets (cs_isolation_class c) (jr_minimum_isolation_class j) \<and>
     meets (cs_key_protection c) (jr_minimum_key_protection j) \<and>
     gpus_admissible c j \<and>
     meets (cs_available_cpu_cores c) (jr_cpu_cores j) \<and>
     meets (cs_available_ram_bytes c) (jr_ram_bytes j) \<and>
     meets (cs_available_workspace_bytes c) (jr_workspace_bytes j) \<and>
     owner_admissible c j"

section \<open>The checks implement the specification\<close>

lemma compare_minimum_Nil: "compare_minimum a r ma mr f = [] \<longleftrightarrow> meets a r"
  by (auto simp: compare_minimum_def meets_def split: option.splits)

lemma filter_Nil_all: "filter P xs = [] \<longleftrightarrow> list_all (\<lambda>x. \<not> P x) xs"
  by (auto simp: filter_empty_conv list_all_iff)

lemma length_filter_mono: "(\<And>x. P x \<Longrightarrow> Q x) \<Longrightarrow> length (filter P xs) \<le> length (filter Q xs)"
  by (induction xs) (auto simp: le_Suc_eq)

lemma evaluate_gpu_vram_Nil:
  "evaluate_gpu_vram gs n v = [] \<longleftrightarrow>
     list_all (\<lambda>g. gs_available_vram_bytes g \<noteq> None) gs \<and>
     unat n \<le> length (filter (gpu_vram_enough v) gs)"
  by (auto simp: evaluate_gpu_vram_def Let_def filter_Nil_all)

lemma evaluate_gpu_models_Nil:
  "evaluate_gpu_models gs allowed n v = [] \<longleftrightarrow>
     list_all (\<lambda>g. (allowed \<noteq> [] \<longrightarrow> gs_model g \<noteq> None) \<and>
                   (gpu_model_ok allowed g \<longrightarrow> gs_available_vram_bytes g \<noteq> None)) gs \<and>
     unat n \<le> length (filter (\<lambda>g. gpu_model_ok allowed g \<and> gpu_vram_enough v g) gs)"
proof (cases "allowed = []")
  case True
  then show ?thesis
    by (simp add: evaluate_gpu_models_def evaluate_gpu_vram_Nil gpu_model_ok_def)
next
  case False
  have le: "length (filter (\<lambda>g. gpu_model_allowed allowed g \<and> gpu_vram_enough v g) gs)
      \<le> length (filter (gpu_model_allowed allowed) gs)" by (rule length_filter_mono) simp
  show ?thesis
    using False le
    by (auto simp: evaluate_gpu_models_def evaluate_gpu_vram_Nil gpu_model_ok_def Let_def
        filter_Nil_all list_all_iff conj_commute)
qed

lemma evaluate_gpu_health_Nil:
  "evaluate_gpu_health gs allowed n v = [] \<longleftrightarrow>
     list_all (gpu_facts_known allowed) gs \<and>
     unat n \<le> length (filter (usable_gpu allowed v) gs)"
proof -
  have eq: "filter (\<lambda>g. gpu_model_ok allowed g \<and> gpu_vram_enough v g) (filter (\<lambda>g. gs_healthy g = Some True) gs)
      = filter (usable_gpu allowed v) gs"
    by (rule trans [OF filter_filter]) (rule filter_cong, auto simp: usable_gpu_def)
  have le: "length (filter (usable_gpu allowed v) gs) \<le> length (filter (\<lambda>g. gs_healthy g = Some True) gs)"
    by (rule length_filter_mono) (simp add: usable_gpu_def)
  show ?thesis
    using le
    by (auto simp: evaluate_gpu_health_def evaluate_gpu_models_Nil Let_def eq
        filter_Nil_all list_all_iff gpu_facts_known_def simp del: filter_filter)
qed

lemma evaluate_gpus_Nil: "evaluate_gpus c j = [] \<longleftrightarrow> gpus_admissible c j"
proof -
  have "\<not> unat n \<le> length (filter P xs)" if "length xs < unat n" for n :: u32 and P and xs :: "gpu_snapshot list"
    using that length_filter_le [of P xs] by linarith
  then show ?thesis
    by (auto simp: evaluate_gpus_def gpus_admissible_def evaluate_gpu_health_Nil split: option.splits)
qed

lemma evaluate_third_party_Nil:
  "evaluate_third_party c j = [] \<longleftrightarrow>
     cs_security_tier c \<noteq> Some S0 \<and>
     (cs_isolation_class c = Some Restricted \<longrightarrow>
        cs_third_party_workloads_opt_in c = Some True \<and> jr_side_effect_class j = Some Pure \<and>
        (jr_sensitivity j = Some Public \<or> jr_sensitivity j = Some Internal))"
  by (auto simp: evaluate_third_party_def
      split: option.splits bool.splits side_effect_class.splits sensitivity.splits)

lemma evaluate_owner_policy_Nil: "evaluate_owner_policy c j = [] \<longleftrightarrow> owner_admissible c j"
  by (simp add: evaluate_owner_policy_def owner_admissible_def Let_def evaluate_third_party_Nil
      split: option.splits)

lemma evaluate_liveness_Nil: "evaluate_liveness c now p = [] \<longleftrightarrow> live_enough c now p"
proof -
  have "limit < saturating_sub now seen \<longleftrightarrow> \<not> unat now \<le> unat seen + unat limit" for seen limit :: u64
    by (auto simp: word_less_nat_alt unat_saturating_sub)
  then show ?thesis
    by (auto simp: evaluate_liveness_def live_enough_def Let_def split: option.splits)
qed

lemma evaluate_states_Nil:
  "evaluate_states c now p = [] \<longleftrightarrow>
     cs_reservation c = None \<and> cs_node_state c = Some NodeOnline \<and>
     cs_risk_state c = Some RiskNormal \<and> fresh_snapshot c now p \<and>
     cs_gpu_observation_mismatch_at_unix_ms c = None"
proof -
  have "(now < observed \<or> limit < now - observed) \<longleftrightarrow>
      \<not> (unat observed \<le> unat now \<and> unat now \<le> unat observed + unat limit)" for observed limit :: u64
    by (auto simp: word_less_nat_alt not_less unat_sub word_le_nat_alt)
  then show ?thesis
    by (auto simp: evaluate_states_def fresh_snapshot_def
        split: option.splits node_state.splits risk_state.splits)
qed

lemma evaluate_candidate_Nil_iff:
  "evaluate_candidate c now j p = [] \<longleftrightarrow> admissible c now j p"
  by (auto simp: evaluate_candidate_def admissible_def compare_resource_def compare_minimum_Nil
      evaluate_liveness_Nil evaluate_states_Nil evaluate_gpus_Nil evaluate_owner_policy_Nil)


section \<open>The report\<close>

lemma classify_candidate_simp:
  "classify_candidate now j p c =
     (if admissible c now j p then Inl \<lparr>ec_node_id = cs_node_id c\<rparr>
      else Inr \<lparr>rc_node_id = cs_node_id c, rc_reasons = sort_dedup (evaluate_candidate c now j p)\<rparr>)"
  by (simp add: classify_candidate_def Let_def evaluate_candidate_Nil_iff)

lemma er_eligible_eq:
  "er_eligible (evaluate_eligibility pool j p) =
     sort_key ec_node_id (map (\<lambda>c. \<lparr>ec_node_id = cs_node_id c\<rparr>)
       (filter (\<lambda>c. admissible c (pool_evaluated_at_unix_ms pool) j p) (pool_candidates pool)))"
proof -
  have "[e. Inl e \<leftarrow> map (classify_candidate now j p) cs] =
      map (\<lambda>c. \<lparr>ec_node_id = cs_node_id c\<rparr>) (filter (\<lambda>c. admissible c now j p) cs)" for now cs
    by (induction cs) (auto simp: classify_candidate_simp)
  then show ?thesis by (simp add: evaluate_eligibility_def Let_def)
qed

lemma er_rejected_eq:
  "er_rejected (evaluate_eligibility pool j p) =
     sort_key (\<lambda>r. (rc_node_id r, rc_reasons r))
       (map (\<lambda>c. \<lparr>rc_node_id = cs_node_id c,
                  rc_reasons = sort_dedup (evaluate_candidate c (pool_evaluated_at_unix_ms pool) j p)\<rparr>)
         (filter (\<lambda>c. \<not> admissible c (pool_evaluated_at_unix_ms pool) j p) (pool_candidates pool)))"
proof -
  have "[r. Inr r \<leftarrow> map (classify_candidate now j p) cs] =
      map (\<lambda>c. \<lparr>rc_node_id = cs_node_id c, rc_reasons = sort_dedup (evaluate_candidate c now j p)\<rparr>)
        (filter (\<lambda>c. \<not> admissible c now j p) cs)" for now cs
    by (induction cs) (auto simp: classify_candidate_simp)
  then show ?thesis by (simp add: evaluate_eligibility_def Let_def)
qed

lemma er_resolution_eq:
  "er_resolution (evaluate_eligibility pool j p) =
     (case er_eligible (evaluate_eligibility pool j p) of
        [] \<Rightarrow> NoEligibleCandidates | [only] \<Rightarrow> SingleEligible (ec_node_id only) | _ \<Rightarrow> RankingRequired)"
  by (simp add: evaluate_eligibility_def Let_def)

lemma set_er_eligible:
  "ec_node_id ` set (er_eligible (evaluate_eligibility pool j p)) =
     cs_node_id ` {c \<in> set (pool_candidates pool). admissible c (pool_evaluated_at_unix_ms pool) j p}"
  by (auto simp: er_eligible_eq image_image)

lemma ec_node_id_inj: "inj_on ec_node_id (A :: eligible_candidate set)"
  by (rule inj_onI) (rule eligible_candidate.equality; simp)

lemma rejected_key_inj: "inj_on (\<lambda>r. (rc_node_id r, rc_reasons r)) (A :: rejected_candidate set)"
  by (rule inj_onI) (rule rejected_candidate.equality; simp)

lemma evaluate_eligibility_perm:
  assumes "mset (pool_candidates p1) = mset (pool_candidates p2)"
    and "pool_evaluated_at_unix_ms p1 = pool_evaluated_at_unix_ms p2"
  shows "evaluate_eligibility p1 j p = evaluate_eligibility p2 j p"
proof -
  have "er_eligible (evaluate_eligibility p1 j p) = er_eligible (evaluate_eligibility p2 j p)"
    unfolding er_eligible_eq assms(2) by (rule sort_key_perm_eq [OF ec_node_id_inj]) (simp add: assms(1))
  moreover have "er_rejected (evaluate_eligibility p1 j p) = er_rejected (evaluate_eligibility p2 j p)"
    unfolding er_rejected_eq assms(2) by (rule sort_key_perm_eq [OF rejected_key_inj]) (simp add: assms(1))
  ultimately show ?thesis by (simp add: eligibility_report.equality er_resolution_eq)
qed

section \<open>A concrete pool\<close>

text \<open>Data for the witnesses: nodes that differ in their name, their VRAM and their number of
  cores only, each with two GPUs, and a one-GPU job of the nodes' owner.\<close>

definition example_node :: "str \<Rightarrow> u64 \<Rightarrow> u32 \<Rightarrow> candidate_snapshot" where
  "example_node name vram cores =
     \<lparr>cs_node_id = name, cs_inventory_revision = Some 1, cs_owner_member_id = Some (lit ''m''),
      cs_node_state = Some NodeOnline, cs_risk_state = Some RiskNormal,
      cs_observed_at_unix_ms = Some 90, cs_security_tier = Some S2,
      cs_isolation_class = Some Contained, cs_key_protection = Some K1,
      cs_gpus = Some [\<lparr>gs_gpu_id = lit ''g1'', gs_healthy = Some True,
                       gs_available_vram_bytes = Some vram, gs_model = None\<rparr>,
                      \<lparr>gs_gpu_id = lit ''g0'', gs_healthy = Some True,
                       gs_available_vram_bytes = Some (vram + 4), gs_model = None\<rparr>],
      cs_available_cpu_cores = Some cores, cs_available_ram_bytes = Some 64,
      cs_available_workspace_bytes = Some 100, cs_allowed_workload_classes = Some {|Training|},
      cs_third_party_workloads_opt_in = None, cs_reservation = None,
      cs_last_heartbeat_unix_ms = Some 95, cs_gpu_observation_mismatch_at_unix_ms = None\<rparr>"

definition example_job :: job_requirements where
  "example_job =
     \<lparr>jr_submitter_member_id = Some (lit ''m''), jr_workload_class = Some Training,
      jr_side_effect_class = Some Pure, jr_sensitivity = Some Public,
      jr_minimum_security_tier = Some S1, jr_minimum_isolation_class = Some Contained,
      jr_minimum_key_protection = Some K0, jr_minimum_gpu_count = Some 1,
      jr_minimum_vram_bytes_per_gpu = Some 16, jr_allowed_gpu_models = [],
      jr_cpu_cores = Some 2, jr_ram_bytes = Some 32, jr_workspace_bytes = Some 10\<rparr>"

definition example_policy :: policy where
  "example_policy = \<lparr>maximum_snapshot_age_ms = 20, silent_after_ms = Some 10\<rparr>"

definition example_pool :: "candidate_snapshot list \<Rightarrow> pool_snapshot" where
  "example_pool cs = \<lparr>pool_evaluated_at_unix_ms = 100, pool_candidates = cs\<rparr>"

lemmas example_defs = example_node_def example_job_def example_policy_def example_pool_def

lemma example_node_admissible:
  "name \<noteq> [] \<Longrightarrow> 16 \<le> unat vram \<Longrightarrow> 2 \<le> unat cores
    \<Longrightarrow> admissible (example_node name vram cores) 100 example_job example_policy"
  by (simp add: admissible_def example_defs live_enough_def fresh_snapshot_def meets_def
      tier_order_defs gpus_admissible_def gpu_facts_known_def usable_gpu_def gpu_model_ok_def
      gpu_vram_enough_def owner_admissible_def nonempty_identity_def word_le_nat_alt)

section \<open>Properties\<close>

text \<open>
  C2: the eligibility report is an exact partition of the pool. A candidate is listed as
  eligible exactly when it is admissible, that is when every hard gate holds on known facts
  (online, normal risk, fresh snapshot, live heartbeat when the policy asks for one, not
  reserved, no GPU mismatch, tiers and resources at least the required ones, enough healthy
  GPUs of an allowed model with enough VRAM, the owner's workload and third-party rules), and
  every other candidate is listed as rejected with its own non-empty, strictly increasing
  list of reasons; the resolution follows from the number of eligible candidates.
\<close>

theorem evaluate_eligibility_exact:
  "mset (map ec_node_id (er_eligible (evaluate_eligibility pool job pol))) =
     image_mset cs_node_id
       {# c \<in># mset (pool_candidates pool). admissible c (pool_evaluated_at_unix_ms pool) job pol #} \<and>
   mset (er_rejected (evaluate_eligibility pool job pol)) =
     image_mset (\<lambda>c. \<lparr>rc_node_id = cs_node_id c,
         rc_reasons = sort_dedup (evaluate_candidate c (pool_evaluated_at_unix_ms pool) job pol)\<rparr>)
       {# c \<in># mset (pool_candidates pool). \<not> admissible c (pool_evaluated_at_unix_ms pool) job pol #} \<and>
   list_all (\<lambda>r. rc_reasons r \<noteq> [] \<and> sorted_wrt (<) (rc_reasons r))
     (er_rejected (evaluate_eligibility pool job pol)) \<and>
   (er_resolution (evaluate_eligibility pool job pol) = NoEligibleCandidates \<longleftrightarrow>
      er_eligible (evaluate_eligibility pool job pol) = []) \<and>
   (er_resolution (evaluate_eligibility pool job pol) = RankingRequired \<longleftrightarrow>
      2 \<le> length (er_eligible (evaluate_eligibility pool job pol)))"
proof (intro conjI)
  show "list_all (\<lambda>r. rc_reasons r \<noteq> [] \<and> sorted_wrt (<) (rc_reasons r))
       (er_rejected (evaluate_eligibility pool job pol))"
    by (auto simp: er_rejected_eq list_all_iff strict_sorted_sort_dedup
        simp flip: evaluate_candidate_Nil_iff)
  show "er_resolution (evaluate_eligibility pool job pol) = NoEligibleCandidates \<longleftrightarrow>
        er_eligible (evaluate_eligibility pool job pol) = []"
    by (simp add: er_resolution_eq split: list.splits)
  show "er_resolution (evaluate_eligibility pool job pol) = RankingRequired \<longleftrightarrow>
        2 \<le> length (er_eligible (evaluate_eligibility pool job pol))"
    by (auto simp: er_resolution_eq split: list.splits)
qed (simp_all add: er_eligible_eq er_rejected_eq multiset.map_comp o_def flip: mset_filter)

text \<open>
  The report does not depend on the order in which the candidates are listed: two pools
  evaluated at the same time whose candidate lists are permutations of each other, duplicate
  node ids included, get the same report.
\<close>

theorem evaluate_eligibility_order_independent:
  assumes "mset (pool_candidates p1) = mset (pool_candidates p2)"
    and "pool_evaluated_at_unix_ms p1 = pool_evaluated_at_unix_ms p2"
  shows "evaluate_eligibility p1 job pol = evaluate_eligibility p2 job pol"
  using assms by (rule evaluate_eligibility_perm)

theorem evaluate_eligibility_order_independent_witness:
  "evaluate_eligibility (example_pool [example_node (lit ''b'') 16 2, example_node (lit ''a'') 16 1])
     example_job example_policy =
   evaluate_eligibility (example_pool [example_node (lit ''a'') 16 1, example_node (lit ''b'') 16 2])
     example_job example_policy"
  by (rule evaluate_eligibility_order_independent)
     (simp_all add: example_pool_def add_mset_commute)

end
