(* ===== verification/Sched_Rank.thy ===== *)
theory Sched_Rank
  imports Sched_Filter
begin

text \<open>
  The resource-tight ranking of the scheduler, \<open>crates/scheduler/src/rank.rs\<close>.
  \<open>resource_fit\<close> selects the GPUs of one candidate and computes what is left over;
  \<open>rank_best_fit\<close> validates that pool and report list the same nodes and sorts the
  eligible candidates by the policy's axes. The loops that may return early are
  \<open>for_each\<close>. \<open>usize::try_from(u32)\<close> cannot fail where \<open>usize\<close> has 64 bits, so
  its error branch has no counterpart.
\<close>

section \<open>Errors and requirements\<close>

definition missing_job :: "missing_fact \<Rightarrow> ranking_error" where
  "missing_job missing = MissingRankFact None missing"

definition missing_candidate :: "str \<Rightarrow> missing_fact \<Rightarrow> ranking_error" where
  "missing_candidate node_id missing = MissingRankFact (Some node_id) missing"

definition mismatch :: "str \<Rightarrow> fit_axis \<Rightarrow> ranking_error" where
  "mismatch node_id axis = EligibleCandidateMismatch node_id axis"

record rank_requirements =
  rr_gpu_count :: u32
  rr_vram_per_gpu :: u64
  rr_cpu_cores :: u32
  rr_ram_bytes :: u64
  rr_workspace_bytes :: u64

definition rank_requirements_from_job :: "job_requirements \<Rightarrow> ranking_error + rank_requirements" where
  "rank_requirements_from_job job =
     and_then (ok_or (jr_minimum_gpu_count job) (missing_job MfJobMinimumGpuCount)) (\<lambda>gpu_count.
     and_then (ok_or (jr_minimum_vram_bytes_per_gpu job) (missing_job MfJobMinimumVram)) (\<lambda>vram.
     and_then (ok_or (jr_cpu_cores job) (missing_job MfJobCpu)) (\<lambda>cpu.
     and_then (ok_or (jr_ram_bytes job) (missing_job MfJobRam)) (\<lambda>ram.
     and_then (ok_or (jr_workspace_bytes job) (missing_job MfJobWorkspace)) (\<lambda>workspace.
       Ok \<lparr>rr_gpu_count = gpu_count, rr_vram_per_gpu = vram, rr_cpu_cores = cpu,
           rr_ram_bytes = ram, rr_workspace_bytes = workspace\<rparr>)))))"

definition remaining ::
    "'a::len word option \<Rightarrow> 'a word \<Rightarrow> str \<Rightarrow> missing_fact \<Rightarrow> fit_axis \<Rightarrow> ranking_error + 'a word" where
  "remaining available required node_id missing axis =
     and_then (ok_or available (missing_candidate node_id missing)) (\<lambda>a.
     and_then (reject_if (a < required) (mismatch node_id axis)) (\<lambda>_.
       Ok (a - required)))"

section \<open>GPU selection\<close>

definition check_gpu_id :: "str \<Rightarrow> gpu_snapshot \<Rightarrow> str list \<Rightarrow> ranking_error + str list" where
  "check_gpu_id node_id gpu gpu_ids =
     (if is_blank (gs_gpu_id gpu) then Err (EmptyGpuId node_id)
      else if gs_gpu_id gpu \<in> set gpu_ids then Err (DuplicateGpuId node_id (gs_gpu_id gpu))
      else Ok (bs_insert (gs_gpu_id gpu) gpu_ids))"

text \<open>One turn of the loop that collects \<open>matching_gpus\<close>.\<close>

definition push_matching_gpu ::
    "str \<Rightarrow> str list \<Rightarrow> u64 \<Rightarrow> gpu_snapshot \<Rightarrow> (u64 \<times> str) list \<Rightarrow> ranking_error + (u64 \<times> str) list" where
  "push_matching_gpu node_id allowed required_vram gpu matching =
     (let vram = and_then (ok_or (gs_available_vram_bytes gpu)
                             (missing_candidate node_id (MfGpuVram (gs_gpu_id gpu)))) (\<lambda>available.
                   Ok (if required_vram \<le> available
                       then matching @ [(available, gs_gpu_id gpu)] else matching))
      in case gs_healthy gpu of
           None \<Rightarrow> Err (missing_candidate node_id (MfGpuHealth (gs_gpu_id gpu)))
         | Some False \<Rightarrow> Ok matching
         | Some True \<Rightarrow>
             if allowed \<noteq> [] then
               and_then (ok_or (gs_model gpu) (missing_candidate node_id (MfGpuModel (gs_gpu_id gpu)))) (\<lambda>model.
                 if model \<notin> set allowed then Ok matching else vram)
             else vram)"

text \<open>\<open>try_fold(0, |total, (available, _)| total.checked_add(available - required))\<close>.\<close>

fun sum_remaining :: "u64 \<Rightarrow> (u64 \<times> str) list \<Rightarrow> u64 \<Rightarrow> u64 option" where
  "sum_remaining required [] acc = Some acc"
| "sum_remaining required ((available, i) # rest) acc =
     (case checked_add acc (available - required) of
        None \<Rightarrow> None
      | Some t \<Rightarrow> sum_remaining required rest t)"

definition select_gpus ::
    "str \<Rightarrow> rank_requirements \<Rightarrow> (u64 \<times> str) list \<Rightarrow> ranking_error + u64 \<times> u32 \<times> str list" where
  "select_gpus node_id required matching =
     (let sorted_gpus = sort matching;
          count = unat (rr_gpu_count required);
          selected = take count sorted_gpus;
          ids = sort (map snd selected)
      in and_then (reject_if (length sorted_gpus < count) (mismatch node_id AxisGpuCount)) (\<lambda>_.
         and_then (ok_or (sum_remaining (rr_vram_per_gpu required) selected 0)
                     (FitOverflow node_id AxisVram)) (\<lambda>vram_remaining.
         and_then (reject_if (2 ^ 32 \<le> length sorted_gpus - count) (FitOverflow node_id AxisGpuCount)) (\<lambda>_.
         and_then (reject_if (length ids \<noteq> count)
                     (SelectedGpuCountMismatch node_id (rr_gpu_count required) (length ids))) (\<lambda>_.
           Ok (vram_remaining, of_nat (length sorted_gpus - count), ids))))))"

definition resource_fit :: "candidate_snapshot \<Rightarrow> job_requirements \<Rightarrow> ranking_error + resource_fit_result" where
  "resource_fit candidate job =
     and_then (rank_requirements_from_job job) (\<lambda>required.
     (let node_id = cs_node_id candidate in
     and_then (ok_or (cs_gpus candidate) (missing_candidate node_id MfGpuInventory)) (\<lambda>gpus.
     and_then (for_each (check_gpu_id node_id) gpus []) (\<lambda>_.
     and_then (for_each (push_matching_gpu node_id (jr_allowed_gpu_models job) (rr_vram_per_gpu required))
                 gpus []) (\<lambda>matching_gpus.
     and_then (select_gpus node_id required matching_gpus) (\<lambda>(vram, gpu_count, ids).
     and_then (remaining (cs_available_cpu_cores candidate) (rr_cpu_cores required) node_id
                 MfAvailableCpu AxisCpu) (\<lambda>cpu.
     and_then (remaining (cs_available_ram_bytes candidate) (rr_ram_bytes required) node_id
                 MfAvailableRam AxisRam) (\<lambda>ram.
     and_then (remaining (cs_available_workspace_bytes candidate) (rr_workspace_bytes required) node_id
                 MfAvailableWorkspace AxisWorkspace) (\<lambda>workspace.
       Ok \<lparr>rf_fit_key = \<lparr>vram_remaining_bytes = vram, gpu_count_remaining = gpu_count,
             cpu_cores_remaining = cpu, ram_remaining_bytes = ram,
             workspace_remaining_bytes = workspace\<rparr>,
           rf_selected_gpu_ids = ids\<rparr>)))))))))"

section \<open>Ranking\<close>

definition validate_policy :: "best_fit_policy \<Rightarrow> ranking_error + unit" where
  "validate_policy pol =
     reject_if (card (set (axis_order pol)) \<noteq> length (axis_order pol)) InvalidPolicyAxisOrder"

definition check_pool_candidate ::
    "candidate_snapshot \<Rightarrow> (str, candidate_snapshot) btree_map
      \<Rightarrow> ranking_error + (str, candidate_snapshot) btree_map" where
  "check_pool_candidate candidate pool_by_id =
     (if cs_node_id candidate = [] then Err EmptyNodeId
      else if bm_get pool_by_id (cs_node_id candidate) \<noteq> None
      then Err (DuplicatePoolNodeId (cs_node_id candidate))
      else Ok (bm_insert (cs_node_id candidate) candidate pool_by_id))"

definition check_report_id :: "str \<Rightarrow> str list \<Rightarrow> ranking_error + str list" where
  "check_report_id node_id report_ids =
     (if node_id = [] then Err EmptyNodeId
      else if node_id \<in> set report_ids then Err (DuplicateReportNodeId node_id)
      else Ok (bs_insert node_id report_ids))"

definition validate_candidate_sets ::
    "pool_snapshot \<Rightarrow> eligibility_report \<Rightarrow> ranking_error + (str, candidate_snapshot) btree_map" where
  "validate_candidate_sets pool report =
     and_then (for_each check_pool_candidate (pool_candidates pool) []) (\<lambda>pool_by_id.
     and_then (for_each check_report_id
                 (map ec_node_id (er_eligible report) @ map rc_node_id (er_rejected report)) []) (\<lambda>report_ids.
       case find (\<lambda>i. bm_get pool_by_id i = None) report_ids of
         Some i \<Rightarrow> Err (ReportCandidateMissingFromPool i)
       | None \<Rightarrow>
           (case find (\<lambda>i. i \<notin> set report_ids) (bm_keys pool_by_id) of
              Some i \<Rightarrow> Err (PoolCandidateMissingFromReport i)
            | None \<Rightarrow> Ok pool_by_id)))"

fun compare_axis :: "fit_axis \<Rightarrow> fit_key \<Rightarrow> fit_key \<Rightarrow> ordering" where
  "compare_axis AxisVram l r = ord_cmp (vram_remaining_bytes l) (vram_remaining_bytes r)"
| "compare_axis AxisGpuCount l r = ord_cmp (gpu_count_remaining l) (gpu_count_remaining r)"
| "compare_axis AxisCpu l r = ord_cmp (cpu_cores_remaining l) (cpu_cores_remaining r)"
| "compare_axis AxisRam l r = ord_cmp (ram_remaining_bytes l) (ram_remaining_bytes r)"
| "compare_axis AxisWorkspace l r = ord_cmp (workspace_remaining_bytes l) (workspace_remaining_bytes r)"

fun compare_ranked_axes :: "fit_axis list \<Rightarrow> ranked_candidate \<Rightarrow> ranked_candidate \<Rightarrow> ordering" where
  "compare_ranked_axes [] left right = ord_cmp (rk_node_id left) (rk_node_id right)"
| "compare_ranked_axes (axis # axes) left right =
     (let ordering = compare_axis axis (rk_fit_key left) (rk_fit_key right)
      in if ordering \<noteq> Equal then ordering else compare_ranked_axes axes left right)"

definition compare_ranked :: "best_fit_policy \<Rightarrow> ranked_candidate \<Rightarrow> ranked_candidate \<Rightarrow> ordering" where
  "compare_ranked pol = compare_ranked_axes (axis_order pol)"

text \<open>The closure of \<open>rank_best_fit\<close>. Indexing the map panics on a missing key; after
  \<open>validate_candidate_sets\<close> every eligible id is a key (\<open>validate_candidate_sets_Ok\<close>),
  so the \<open>None\<close> of the lookup does not occur.\<close>

definition rank_candidate ::
    "(str, candidate_snapshot) btree_map \<Rightarrow> job_requirements \<Rightarrow> eligible_candidate
      \<Rightarrow> ranking_error + ranked_candidate" where
  "rank_candidate pool_by_id job eligible =
     (let candidate = the (bm_get pool_by_id (ec_node_id eligible)) in
      and_then (resource_fit candidate job) (\<lambda>fit.
        Ok \<lparr>rk_node_id = ec_node_id eligible, rk_fit_key = rf_fit_key fit,
            rk_selected_gpu_ids = rf_selected_gpu_ids fit\<rparr>))"

definition rank_best_fit ::
    "pool_snapshot \<Rightarrow> job_requirements \<Rightarrow> eligibility_report \<Rightarrow> best_fit_policy
      \<Rightarrow> ranking_error + best_fit_ranking" where
  "rank_best_fit pool job report pol =
     and_then (validate_policy pol) (\<lambda>_.
     and_then (reject_if (er_resolution report \<noteq> RankingRequired) ResolutionNotRankingRequired) (\<lambda>_.
     and_then (reject_if (length (er_eligible report) < 2)
                 (EligibleCandidateCountNotMultiple (length (er_eligible report)))) (\<lambda>_.
     and_then (validate_candidate_sets pool report) (\<lambda>pool_by_id.
     and_then (collect_results (rank_candidate pool_by_id job) (er_eligible report)) (\<lambda>unsorted.
       let ranked_list = sort_by (compare_ranked pol) unsorted
       in Ok \<lparr>winner = hd ranked_list, ranked = ranked_list\<rparr>)))))"

section \<open>GPU selection: lemmas\<close>

text \<open>The reference: the usable GPUs of the filter, with their free VRAM.\<close>

definition usable_vram :: "str list \<Rightarrow> u64 \<Rightarrow> gpu_snapshot list \<Rightarrow> (u64 \<times> str) list" where
  "usable_vram allowed v gpus =
     map (\<lambda>g. (the (gs_available_vram_bytes g), gs_gpu_id g)) (filter (usable_gpu allowed v) gpus)"

definition valid_gpu_ids :: "gpu_snapshot list \<Rightarrow> bool" where
  "valid_gpu_ids gpus \<longleftrightarrow>
     list_all (\<lambda>g. \<not> is_blank (gs_gpu_id g)) gpus \<and> distinct (map gs_gpu_id gpus)"

lemma push_matching_gpu_Ok:
  "push_matching_gpu n allowed v g acc = Ok m \<longleftrightarrow>
     gpu_facts_known allowed g \<and> m = acc @ usable_vram allowed v [g]"
  by (auto simp: push_matching_gpu_def usable_vram_def usable_gpu_def gpu_facts_known_def
      gpu_model_ok_def gpu_model_allowed_def gpu_vram_enough_def result_ok Let_def
      split: option.splits bool.splits if_splits)

lemma push_loop_Ok:
  "for_each (push_matching_gpu n allowed v) gpus acc = Ok m \<longleftrightarrow>
     list_all (gpu_facts_known allowed) gpus \<and> m = acc @ usable_vram allowed v gpus"
  by (induction gpus arbitrary: acc) (auto simp: result_ok push_matching_gpu_Ok usable_vram_def)

lemma check_gpu_ids_Ok:
  "(\<exists>ids. for_each (check_gpu_id n) gpus acc = Ok ids) \<longleftrightarrow>
     valid_gpu_ids gpus \<and> set (map gs_gpu_id gpus) \<inter> set acc = {}"
proof (induction gpus arbitrary: acc)
  case Nil
  then show ?case by (simp add: valid_gpu_ids_def)
next
  case (Cons g gpus)
  then show ?case
    by (auto simp: check_gpu_id_def valid_gpu_ids_def)
qed

lemma check_gpu_ids_Err:
  "for_each (check_gpu_id n) gpus acc = Err e \<Longrightarrow> e = EmptyGpuId n \<or> (\<exists>i. e = DuplicateGpuId n i)"
  by (induction gpus arbitrary: acc) (auto simp: result_err check_gpu_id_def split: if_splits)

lemma sum_remaining_Some:
  "sum_remaining v gs t = Some s \<longleftrightarrow>
     unat s = unat t + (\<Sum>(a, i) \<leftarrow> gs. unat (a - v)) \<and>
     unat t + (\<Sum>(a, i) \<leftarrow> gs. unat (a - v)) < 2 ^ 64"
proof (induction v gs t rule: sum_remaining.induct)
  case (1 v t)
  then show ?case using unsigned_less [of t] by (auto simp: word_unat_eq_iff)
next
  case (2 v a i gs t)
  show ?case
  proof (cases "checked_add t (a - v)")
    case None
    then have "2 ^ 64 \<le> unat t + unat (a - v)" by (simp add: checked_add_def split: if_splits)
    with None show ?thesis by simp
  next
    case (Some u)
    with checked_add_unat [OF Some] show ?thesis by (simp add: "2.IH" [OF Some] add.assoc)
  qed
qed

text \<open>The sum of the \<open>k\<close> first elements of a sorted list is the least sum of any \<open>k\<close> of
  its elements.\<close>

lemma take_sorted_least:
  fixes f :: "'a::linorder \<Rightarrow> nat"
  assumes "sorted xs" and "\<And>x y. x \<le> y \<Longrightarrow> f x \<le> f y" and "ys \<subseteq># mset xs" and "size ys = k"
  shows "sum_list (map f (take k xs)) \<le> sum_mset (image_mset f ys)"
  using assms(1,3,4)
proof (induction xs arbitrary: ys k)
  case Nil
  then show ?case by simp
next
  case (Cons x xs)
  show ?case
  proof (cases k)
    case 0
    then show ?thesis by simp
  next
    case (Suc n)
    have "\<exists>y zs. ys = add_mset y zs \<and> zs \<subseteq># mset xs \<and> x \<le> y"
    proof (cases "x \<in># ys")
      case True
      then obtain zs where "ys = add_mset x zs" by (metis insert_DiffM)
      with Cons.prems show ?thesis by auto
    next
      case False
      then have sub: "ys \<subseteq># mset xs"
        using Cons.prems(2) by (metis diff_single_trivial mset.simps(2) subset_eq_diff_conv add_mset_add_single)
      obtain y where y: "y \<in># ys" using Cons.prems(3) Suc by (metis size_eq_Suc_imp_elem)
      then have "y \<in> set xs" using sub by (metis mset_subset_eqD set_mset_mset)
      then have "x \<le> y" using Cons.prems(1) by simp
      moreover have "ys - {#y#} \<subseteq># mset xs" using sub by (meson diff_subset_eq_self subset_mset.order_trans)
      ultimately show ?thesis using y by (metis insert_DiffM)
    qed
    then obtain y zs where zs: "ys = add_mset y zs" "zs \<subseteq># mset xs" "x \<le> y" by blast
    then have "sum_list (map f (take n xs)) \<le> sum_mset (image_mset f zs)"
      using Cons Suc by simp
    then show ?thesis using zs assms(2) [OF zs(3)] Suc by simp
  qed
qed

text \<open>What \<open>select_gpus\<close> returns.\<close>

definition selected_gpus :: "candidate_snapshot \<Rightarrow> job_requirements \<Rightarrow> (u64 \<times> str) list" where
  "selected_gpus c j =
     take (unat (the (jr_minimum_gpu_count j)))
       (sort (usable_vram (jr_allowed_gpu_models j) (the (jr_minimum_vram_bytes_per_gpu j)) (the (cs_gpus c))))"

lemma select_gpus_Ok:
  "select_gpus n req ms = Ok (vr, gr, ids) \<longleftrightarrow>
     (let sel = take (unat (rr_gpu_count req)) (sort ms) in
       unat (rr_gpu_count req) \<le> length ms \<and>
       sum_remaining (rr_vram_per_gpu req) sel 0 = Some vr \<and>
       length ms - unat (rr_gpu_count req) < 2 ^ 32 \<and>
       gr = of_nat (length ms - unat (rr_gpu_count req)) \<and>
       ids = sort (map snd sel))"
  by (auto simp: select_gpus_def result_ok Let_def not_less not_le min_def)

lemma remaining_Ok:
  "remaining av req n m ax = Ok r \<longleftrightarrow> (\<exists>a. av = Some a \<and> req \<le> a \<and> r = a - req)"
  by (auto simp: remaining_def result_ok not_less)

text \<open>The conditions under which a candidate fits, and the fit.\<close>

definition gpu_fit_possible :: "gpu_snapshot list \<Rightarrow> str list \<Rightarrow> u32 \<Rightarrow> u64 \<Rightarrow> bool" where
  "gpu_fit_possible gpus allowed n v \<longleftrightarrow>
     valid_gpu_ids gpus \<and>
     (\<Sum>(a, i) \<leftarrow> take (unat n) (sort (usable_vram allowed v gpus)). unat (a - v)) < 2 ^ 64 \<and>
     length (usable_vram allowed v gpus) - unat n < 2 ^ 32"

lemma resource_fit_Ok:
  "resource_fit c j = Ok rf \<longleftrightarrow>
     (\<exists>gpus n v cpu ram ws cpu' ram' ws' vr.
        cs_gpus c = Some gpus \<and> jr_minimum_gpu_count j = Some n \<and>
        jr_minimum_vram_bytes_per_gpu j = Some v \<and>
        jr_cpu_cores j = Some cpu \<and> jr_ram_bytes j = Some ram \<and> jr_workspace_bytes j = Some ws \<and>
        cs_available_cpu_cores c = Some cpu' \<and> cpu \<le> cpu' \<and>
        cs_available_ram_bytes c = Some ram' \<and> ram \<le> ram' \<and>
        cs_available_workspace_bytes c = Some ws' \<and> ws \<le> ws' \<and>
        list_all (gpu_facts_known (jr_allowed_gpu_models j)) gpus \<and>
        unat n \<le> length (usable_vram (jr_allowed_gpu_models j) v gpus) \<and>
        gpu_fit_possible gpus (jr_allowed_gpu_models j) n v \<and>
        unat vr = (\<Sum>(a, i) \<leftarrow> selected_gpus c j. unat (a - v)) \<and>
        rf = \<lparr>rf_fit_key = \<lparr>vram_remaining_bytes = vr,
                 gpu_count_remaining =
                   of_nat (length (usable_vram (jr_allowed_gpu_models j) v gpus) - unat n),
                 cpu_cores_remaining = cpu' - cpu, ram_remaining_bytes = ram' - ram,
                 workspace_remaining_bytes = ws' - ws\<rparr>,
              rf_selected_gpu_ids = sort (map snd (selected_gpus c j))\<rparr>)"
proof -
  have ids: "for_each (check_gpu_id n) gpus [] = Ok ids \<Longrightarrow> valid_gpu_ids gpus" for n gpus ids
    using check_gpu_ids_Ok [of n gpus "[]"] by auto
  have ids': "valid_gpu_ids gpus \<Longrightarrow> \<exists>ids. for_each (check_gpu_id n) gpus [] = Ok ids" for n gpus
    using check_gpu_ids_Ok [of n gpus "[]"] by auto
  show ?thesis
    by (auto simp: resource_fit_def rank_requirements_from_job_def result_ok Let_def
        push_loop_Ok select_gpus_Ok remaining_Ok selected_gpus_def gpu_fit_possible_def
        sum_remaining_Some split: prod.splits intro: ids ids')
qed

lemma usable_vram_props:
  assumes "(a, i) \<in> set (usable_vram allowed v gpus)"
  shows "v \<le> a" and "\<exists>g \<in> set gpus. usable_gpu allowed v g \<and> gs_gpu_id g = i \<and> gs_available_vram_bytes g = Some a"
  using assms by (auto simp: usable_vram_def usable_gpu_def gpu_vram_enough_def split: option.splits)

lemma distinct_usable_ids:
  "valid_gpu_ids gpus \<Longrightarrow> distinct (map snd (usable_vram allowed v gpus))"
  by (simp add: valid_gpu_ids_def usable_vram_def o_def distinct_map_filter)

lemma selected_subset: "mset (selected_gpus c j) \<subseteq>#
    mset (usable_vram (jr_allowed_gpu_models j) (the (jr_minimum_vram_bytes_per_gpu j)) (the (cs_gpus c)))"
  (is "_ \<subseteq># mset ?u")
proof -
  have "mset (take k (sort ?u)) \<subseteq># mset (sort ?u)" for k
    by (metis append_take_drop_id mset_append mset_subset_eq_add_left)
  then show ?thesis by (simp add: selected_gpus_def)
qed

section \<open>Ranking: lemmas\<close>

fun axis_value :: "fit_key \<Rightarrow> fit_axis \<Rightarrow> nat" where
  "axis_value k AxisVram = unat (vram_remaining_bytes k)"
| "axis_value k AxisGpuCount = unat (gpu_count_remaining k)"
| "axis_value k AxisCpu = unat (cpu_cores_remaining k)"
| "axis_value k AxisRam = unat (ram_remaining_bytes k)"
| "axis_value k AxisWorkspace = unat (workspace_remaining_bytes k)"

text \<open>The order of the ranking: the left-over amounts in the order of the policy's axes, then
  the node id.\<close>

definition rank_key :: "best_fit_policy \<Rightarrow> ranked_candidate \<Rightarrow> nat list \<times> str" where
  "rank_key pol r = (map (axis_value (rk_fit_key r)) (axis_order pol), rk_node_id r)"

lemma compare_axis_cmp: "compare_axis ax l r = ord_cmp (axis_value l ax) (axis_value r ax)"
  by (cases ax) (simp_all add: ord_cmp_def word_less_nat_alt word_unat_eq_iff)

lemma compare_ranked_axes_cmp:
  "compare_ranked_axes axes l r =
     ord_cmp (map (axis_value (rk_fit_key l)) axes, rk_node_id l)
             (map (axis_value (rk_fit_key r)) axes, rk_node_id r)"
  by (induction axes) (auto simp: compare_axis_cmp ord_cmp_def Let_def)

lemma sort_by_compare_ranked: "sort_by (compare_ranked pol) xs = sort_key (rank_key pol) xs"
  by (rule sort_by_sort_key) (simp add: compare_ranked_def compare_ranked_axes_cmp rank_key_def)

definition well_formed_pool :: "pool_snapshot \<Rightarrow> bool" where
  "well_formed_pool pool \<longleftrightarrow>
     distinct (map cs_node_id (pool_candidates pool)) \<and> [] \<notin> cs_node_id ` set (pool_candidates pool)"

lemma check_pool_candidate_Ok:
  "check_pool_candidate c acc = Ok m \<longleftrightarrow>
     cs_node_id c \<noteq> [] \<and> cs_node_id c \<notin> dom (bm_get acc) \<and> m = bm_insert (cs_node_id c) c acc"
  by (auto simp: check_pool_candidate_def)

lemma check_pool_loop_Ok:
  assumes "bm_invar acc"
  shows "for_each check_pool_candidate cs acc = Ok m \<longleftrightarrow>
     [] \<notin> cs_node_id ` set cs \<and> distinct (map cs_node_id cs) \<and>
     cs_node_id ` set cs \<inter> dom (bm_get acc) = {} \<and>
     m = fold (\<lambda>(k, v). bm_insert k v) (map (\<lambda>c. (cs_node_id c, c)) cs) acc"
  using assms
proof (induction cs arbitrary: acc)
  case Nil
  then show ?case by auto
next
  case (Cons c cs)
  have "for_each check_pool_candidate cs (bm_insert (cs_node_id c) c acc) = Ok m \<longleftrightarrow>
     [] \<notin> cs_node_id ` set cs \<and> distinct (map cs_node_id cs) \<and>
     cs_node_id ` set cs \<inter> dom (bm_get (bm_insert (cs_node_id c) c acc)) = {} \<and>
     m = fold (\<lambda>(k, v). bm_insert k v) (map (\<lambda>c. (cs_node_id c, c)) cs) (bm_insert (cs_node_id c) c acc)"
    by (rule Cons.IH) (rule bm.invar_insert [OF Cons.prems])
  then show ?case
    using Cons.prems
    by (auto simp: result_ok check_pool_candidate_Ok bm.get_insert image_iff simp del: fun_upd_apply)
qed

lemma check_report_loop_Ok:
  "for_each check_report_id ids acc = Ok m \<longleftrightarrow>
     [] \<notin> set ids \<and> distinct ids \<and> set ids \<inter> set acc = {} \<and> m = fold bs_insert ids acc"
  by (induction ids arbitrary: acc) (auto simp: check_report_id_def)

definition pool_index :: "candidate_snapshot list \<Rightarrow> (str, candidate_snapshot) btree_map" where
  "pool_index cs = fold (\<lambda>(k, v). bm_insert k v) (map (\<lambda>c. (cs_node_id c, c)) cs) []"

definition report_ids :: "eligibility_report \<Rightarrow> str list" where
  "report_ids r = map ec_node_id (er_eligible r) @ map rc_node_id (er_rejected r)"

lemma dom_pool_index: "dom (bm_get (pool_index cs)) = cs_node_id ` set cs"
  unfolding pool_index_def
  by (subst bm.dom_fold_insert [OF bm.invar_empty]) (auto simp: bm.get_empty image_image)

lemma set_keys_pool_index: "set (bm_keys (pool_index cs)) = cs_node_id ` set cs"
proof -
  have "bm_invar (pool_index cs)"
    unfolding pool_index_def by (rule bm.fold_insert_invar [OF bm.invar_empty])
  from bm.set_keys [OF this] show ?thesis by (simp add: bm_keys_def bm_entries_def dom_pool_index)
qed

lemma pool_index_get:
  assumes "distinct (map cs_node_id cs)" and "c \<in> set cs"
  shows "bm_get (pool_index cs) (cs_node_id c) = Some c"
proof -
  have "map_of (rev (map (\<lambda>c. (cs_node_id c, c)) cs)) (cs_node_id c) = Some c"
    using assms by (intro map_of_is_SomeI) (auto simp: rev_map o_def simp flip: rev_map)
  then show ?thesis
    by (simp add: pool_index_def bm.get_fold_insert [OF bm.invar_empty] map_add_Some_iff)
qed

lemma validate_candidate_sets_Ok:
  "validate_candidate_sets pool report = Ok m \<longleftrightarrow>
     well_formed_pool pool \<and> distinct (report_ids report) \<and>
     set (report_ids report) = cs_node_id ` set (pool_candidates pool) \<and>
     m = pool_index (pool_candidates pool)"
proof -
  have ids: "set (fold bs_insert xs []) = set xs" for xs :: "str list"
    using fold_bs_insert [of "[]" xs] by (simp add: bs_invar_def)
  have sub: "find (\<lambda>i. bm_get (pool_index cs) i = None) xs = None \<longleftrightarrow> set xs \<subseteq> cs_node_id ` set cs" for cs xs
    using dom_pool_index [of cs] by (auto simp: find_None_iff)
  have sup: "find (\<lambda>i. i \<notin> set xs) (bm_keys (pool_index cs)) = None \<longleftrightarrow> cs_node_id ` set cs \<subseteq> set xs" for cs xs
    by (auto simp: find_None_iff set_keys_pool_index)
  have tail: "(case find P xs of Some i \<Rightarrow> Err (e i)
       | None \<Rightarrow> (case find Q ys of Some i \<Rightarrow> Err (e' i) | None \<Rightarrow> Ok x)) = Ok m \<longleftrightarrow>
     find P xs = None \<and> find Q ys = None \<and> m = x" for P Q xs ys e e' x
    by (auto split: option.splits)
  have pool: "for_each check_pool_candidate cs [] = Ok x \<longleftrightarrow>
     [] \<notin> cs_node_id ` set cs \<and> distinct (map cs_node_id cs) \<and> x = pool_index cs" for cs x
    by (simp add: check_pool_loop_Ok [OF bm.invar_empty] pool_index_def bm.get_empty dom_def)
  show ?thesis
    unfolding validate_candidate_sets_def and_then_Ok pool check_report_loop_Ok tail
      report_ids_def [symmetric] well_formed_pool_def
    by (simp add: sub sup ids set_eq_subset) blast
qed

lemma rank_best_fit_Ok:
  "rank_best_fit pool job report pol = Ok r \<longleftrightarrow>
     distinct (axis_order pol) \<and> er_resolution report = RankingRequired \<and>
     2 \<le> length (er_eligible report) \<and>
     well_formed_pool pool \<and> distinct (report_ids report) \<and>
     set (report_ids report) = cs_node_id ` set (pool_candidates pool) \<and>
     (\<exists>us. list_all2 (\<lambda>e u. rank_candidate (pool_index (pool_candidates pool)) job e = Ok u)
              (er_eligible report) us \<and>
           r = \<lparr>winner = hd (sort_key (rank_key pol) us), ranked = sort_key (rank_key pol) us\<rparr>)"
proof -
  have "card (set (axis_order pol)) = length (axis_order pol) \<longleftrightarrow> distinct (axis_order pol)"
    using card_distinct distinct_card by blast
  then show ?thesis
    by (auto simp: rank_best_fit_def validate_policy_def result_ok validate_candidate_sets_Ok
        collect_results_Ok sort_by_compare_ranked Let_def not_less)
qed

lemma rank_candidate_Ok:
  "rank_candidate m job e = Ok u \<longleftrightarrow>
     rk_node_id u = ec_node_id e \<and>
     resource_fit (the (bm_get m (ec_node_id e))) job =
       Ok \<lparr>rf_fit_key = rk_fit_key u, rf_selected_gpu_ids = rk_selected_gpu_ids u\<rparr>"
  by (cases u; cases "resource_fit (the (bm_get m (ec_node_id e))) job")
     (auto simp: rank_candidate_def result_ok)

lemma list_all2_in_right: "list_all2 P xs ys \<Longrightarrow> y \<in> set ys \<Longrightarrow> \<exists>x \<in> set xs. P x y"
  by (induction rule: list_all2_induct) auto

lemma rank_candidates_ids:
  "list_all2 (\<lambda>e u. rank_candidate m job e = Ok u) es us \<Longrightarrow> map rk_node_id us = map ec_node_id es"
  by (induction rule: list_all2_induct) (simp_all add: rank_candidate_Ok)

lemma rank_key_strict:
  assumes "distinct (map rk_node_id us)"
  shows "sorted_wrt (\<lambda>a b. rank_key pol a < rank_key pol b) (sort_key (rank_key pol) us)"
proof -
  have "distinct (map (rank_key pol) us)"
    using assms by (auto simp: rank_key_def distinct_map inj_on_def)
  then have "distinct (map (rank_key pol) (sort_key (rank_key pol) us))"
    by (metis mset_eq_imp_distinct_iff mset_map mset_sort)
  then have "sorted_wrt (<) (map (rank_key pol) (sort_key (rank_key pol) us))"
    by (simp add: strict_sorted_iff)
  then show ?thesis by (simp add: sorted_wrt_map)
qed

lemma ranked_fit:
  assumes "list_all2 (\<lambda>e u. rank_candidate (pool_index (pool_candidates pool)) job e = Ok u) es us"
    and "well_formed_pool pool" and "ec_node_id ` set es \<subseteq> cs_node_id ` set (pool_candidates pool)"
    and "u \<in> set us"
  shows "\<exists>c \<in> set (pool_candidates pool). cs_node_id c = rk_node_id u \<and>
     resource_fit c job = Ok \<lparr>rf_fit_key = rk_fit_key u, rf_selected_gpu_ids = rk_selected_gpu_ids u\<rparr>"
proof -
  obtain e where e: "e \<in> set es" "rank_candidate (pool_index (pool_candidates pool)) job e = Ok u"
    using list_all2_in_right [OF assms(1,4)] by blast
  then obtain c where c: "c \<in> set (pool_candidates pool)" "cs_node_id c = ec_node_id e"
    using assms(3) by force
  then have "bm_get (pool_index (pool_candidates pool)) (ec_node_id e) = Some c"
    using assms(2) pool_index_get [of "pool_candidates pool" c] by (simp add: well_formed_pool_def)
  with c e(2) show ?thesis by (auto simp: rank_candidate_Ok)
qed

section \<open>The filter and the ranking agree\<close>

definition fit_possible :: "candidate_snapshot \<Rightarrow> job_requirements \<Rightarrow> bool" where
  "fit_possible c j \<longleftrightarrow>
     gpu_fit_possible (the (cs_gpus c)) (jr_allowed_gpu_models j)
       (the (jr_minimum_gpu_count j)) (the (jr_minimum_vram_bytes_per_gpu j))"

lemma admissible_resource_fit:
  assumes "admissible c now j p"
  shows "(\<exists>rf. resource_fit c j = Ok rf) \<longleftrightarrow> fit_possible c j"
proof -
  obtain gpus n v where gpus: "cs_gpus c = Some gpus" "jr_minimum_gpu_count j = Some n"
    "jr_minimum_vram_bytes_per_gpu j = Some v"
    and facts: "list_all (gpu_facts_known (jr_allowed_gpu_models j)) gpus"
    and count: "unat n \<le> length (usable_vram (jr_allowed_gpu_models j) v gpus)"
    using assms
    by (auto simp: admissible_def gpus_admissible_def usable_vram_def split: option.splits)
  have meets_Some: "meets a r \<longleftrightarrow> (\<exists>x y. a = Some x \<and> r = Some y \<and> y \<le> x)"
    for a r :: "'a::linorder option"
    by (auto simp: meets_def split: option.splits)
  have "\<exists>vr :: u64. unat vr = (\<Sum>(a, i) \<leftarrow> selected_gpus c j. unat (a - v))" if "fit_possible c j"
    using that gpus
    by (intro exI [of _ "of_nat (\<Sum>(a, i) \<leftarrow> selected_gpus c j. unat (a - v))"])
       (simp add: fit_possible_def gpu_fit_possible_def selected_gpus_def unat_of_nat take_bit_nat_eq_self)
  with assms gpus facts count show ?thesis
    by (auto simp: resource_fit_Ok admissible_def meets_Some fit_possible_def)
qed

lemma report_ids_evaluate:
  "mset (report_ids (evaluate_eligibility pool j p)) = image_mset cs_node_id (mset (pool_candidates pool))"
proof -
  have "image_mset f {#x \<in># M. P x#} + image_mset f {#x \<in># M. \<not> P x#} = image_mset f M" for f P M
    by (metis image_mset_union multiset_partition)
  then show ?thesis
    by (simp add: report_ids_def er_eligible_eq er_rejected_eq multiset.map_comp o_def)
qed

lemma rank_after_filter_Ok_iff:
  "(\<exists>r. rank_best_fit pool job (evaluate_eligibility pool job p) pol = Ok r) \<longleftrightarrow>
     distinct (axis_order pol) \<and> well_formed_pool pool \<and>
     2 \<le> length (er_eligible (evaluate_eligibility pool job p)) \<and>
     list_all (\<lambda>c. fit_possible c job)
       (filter (\<lambda>c. admissible c (pool_evaluated_at_unix_ms pool) job p) (pool_candidates pool))"
  (is "?rank \<longleftrightarrow> ?axes \<and> ?wf \<and> ?two \<and> ?fit")
proof -
  let ?rep = "evaluate_eligibility pool job p" and ?cs = "pool_candidates pool"
  let ?adm = "\<lambda>c. admissible c (pool_evaluated_at_unix_ms pool) job p"
  let ?ok = "\<lambda>e. \<exists>u. rank_candidate (pool_index ?cs) job e = Ok u"
  have res: "er_resolution ?rep = RankingRequired \<longleftrightarrow> ?two"
    by (auto simp: er_resolution_eq split: list.splits)
  have ids: "set (report_ids ?rep) = cs_node_id ` set ?cs"
    using arg_cong [OF report_ids_evaluate [of pool job p], of set_mset] by simp
  have dist: "?wf \<Longrightarrow> distinct (report_ids ?rep)"
    using mset_eq_imp_distinct_iff [of "report_ids ?rep" "map cs_node_id ?cs"]
      report_ids_evaluate [of pool job p]
    by (simp add: well_formed_pool_def)
  have all2: "(\<exists>us. list_all2 (\<lambda>e u. rank_candidate m job e = Ok u) es us) \<longleftrightarrow>
      (\<forall>e \<in> set es. \<exists>u. rank_candidate m job e = Ok u)" for m es
    by (induction es) (auto simp: list_all2_Cons1)
  have one: "?ok \<lparr>ec_node_id = cs_node_id c\<rparr> \<longleftrightarrow> fit_possible c job"
    if "?wf" "c \<in> set ?cs" "?adm c" for c
  proof -
    have "(\<exists>rf. resource_fit c job = Ok rf) \<longleftrightarrow> ?ok \<lparr>ec_node_id = cs_node_id c\<rparr>"
      using that by (cases "resource_fit c job")
        (auto simp: rank_candidate_def well_formed_pool_def pool_index_get)
    then show ?thesis using admissible_resource_fit [OF that(3)] by simp
  qed
  have "set (er_eligible ?rep) = (\<lambda>c. \<lparr>ec_node_id = cs_node_id c\<rparr>) ` {c \<in> set ?cs. ?adm c}"
    by (auto simp: er_eligible_eq)
  with one have "?wf \<Longrightarrow> (\<forall>e \<in> set (er_eligible ?rep). ?ok e) \<longleftrightarrow> ?fit"
    by (auto simp: list_all_iff)
  then show ?thesis
    by (simp add: rank_best_fit_Ok res ids all2 ex_simps(6) cong: conj_cong) (use dist in blast)
qed

section \<open>The concrete pool, ranked\<close>

definition example_fit :: resource_fit_result where
  "example_fit =
     \<lparr>rf_fit_key = \<lparr>vram_remaining_bytes = 1, gpu_count_remaining = 1, cpu_cores_remaining = 1,
        ram_remaining_bytes = 32, workspace_remaining_bytes = 90\<rparr>,
      rf_selected_gpu_ids = [lit ''g1'']\<rparr>"

lemma example_resource_fit: "resource_fit (example_node (lit ''b'') 17 3) example_job = Ok example_fit"
  by (simp add: resource_fit_def example_defs example_fit_def rank_requirements_from_job_def
      check_gpu_id_def push_matching_gpu_def select_gpus_def remaining_def Let_def is_blank_iff
      is_whitespace_def bs_insert_def insort_insert_key_def checked_add_def)

definition example_best_fit :: best_fit_policy where
  "example_best_fit = \<lparr>axis_order = [AxisVram, AxisGpuCount, AxisCpu, AxisRam, AxisWorkspace]\<rparr>"

definition example_pair :: pool_snapshot where
  "example_pair = example_pool [example_node (lit ''b'') 17 3, example_node (lit ''a'') 17 4]"

lemma example_ranking:
  "\<exists>r. rank_best_fit example_pair example_job (evaluate_eligibility example_pair example_job example_policy)
        example_best_fit = Ok r"
  by (simp add: rank_after_filter_Ok_iff example_pair_def example_best_fit_def well_formed_pool_def
      example_pool_def er_eligible_eq example_node_admissible)
     (simp add: example_defs fit_possible_def gpu_fit_possible_def valid_gpu_ids_def is_blank_iff
      is_whitespace_def usable_vram_def usable_gpu_def gpu_model_ok_def gpu_vram_enough_def)

lemma example_eligible:
  "map ec_node_id (er_eligible (evaluate_eligibility example_pair example_job example_policy)) =
     [lit ''a'', lit ''b'']"
  by (simp add: er_eligible_eq example_pair_def example_pool_def example_node_admissible)
     (simp add: example_node_def)

section \<open>Properties\<close>

text \<open>
  C3: a ranking that is returned lists exactly the report's eligible candidates, each with the
  fit \<open>resource_fit\<close> computes for the pool candidate of that id, in strictly increasing order
  of the left-over amounts read along the policy's axes and then of the node id; the winner is
  the first of them, so it leaves the least on the policy's first axis on which candidates differ.
\<close>

theorem rank_best_fit_sound:
  assumes "rank_best_fit pool job report pol = Ok r"
  shows "mset (map rk_node_id (ranked r)) = mset (map ec_node_id (er_eligible report)) \<and>
     sorted_wrt (\<lambda>a b. rank_key pol a < rank_key pol b) (ranked r) \<and>
     winner r \<in> set (ranked r) \<and>
     (\<forall>x \<in> set (ranked r). x = winner r \<or> rank_key pol (winner r) < rank_key pol x) \<and>
     (\<forall>x \<in> set (ranked r). \<exists>c \<in> set (pool_candidates pool). cs_node_id c = rk_node_id x \<and>
        resource_fit c job =
          Ok \<lparr>rf_fit_key = rk_fit_key x, rf_selected_gpu_ids = rk_selected_gpu_ids x\<rparr>)"
proof -
  let ?cs = "pool_candidates pool"
  obtain us where us: "list_all2 (\<lambda>e u. rank_candidate (pool_index ?cs) job e = Ok u) (er_eligible report) us"
    and r: "r = \<lparr>winner = hd (sort_key (rank_key pol) us), ranked = sort_key (rank_key pol) us\<rparr>"
    and wf: "well_formed_pool pool" "distinct (report_ids report)"
      "set (report_ids report) = cs_node_id ` set ?cs" and two: "2 \<le> length (er_eligible report)"
    using assms by (auto simp: rank_best_fit_Ok)
  have ids: "map rk_node_id us = map ec_node_id (er_eligible report)"
    by (rule rank_candidates_ids [OF us])
  then have strict: "sorted_wrt (\<lambda>a b. rank_key pol a < rank_key pol b) (ranked r)"
    using wf(2) by (simp add: r rank_key_strict report_ids_def)
  have "us \<noteq> []" using two list_all2_lengthD [OF us] by auto
  then obtain w rest where w: "sort_key (rank_key pol) us = w # rest"
    by (metis length_0_conv length_sort neq_Nil_conv)
  have fit: "\<exists>c \<in> set ?cs. cs_node_id c = rk_node_id x \<and> resource_fit c job =
      Ok \<lparr>rf_fit_key = rk_fit_key x, rf_selected_gpu_ids = rk_selected_gpu_ids x\<rparr>" if "x \<in> set us" for x
    using ranked_fit [OF us wf(1) _ that] wf(3) by (auto simp: report_ids_def)
  have "mset (map rk_node_id (ranked r)) = mset (map ec_node_id (er_eligible report))"
    using arg_cong [OF ids, of mset] by (simp add: r)
  moreover have "\<forall>x \<in> set (ranked r). x = winner r \<or> rank_key pol (winner r) < rank_key pol x"
    using strict by (auto simp: r w)
  moreover have "winner r \<in> set (ranked r)" by (simp add: r w)
  moreover have "set (ranked r) = set us" by (simp add: r)
  ultimately show ?thesis using strict fit by simp
qed

theorem rank_best_fit_sound_witness:
  "\<exists>r. rank_best_fit example_pair example_job (evaluate_eligibility example_pair example_job example_policy)
        example_best_fit = Ok r \<and>
      mset (map rk_node_id (ranked r)) = {#lit ''a'', lit ''b''#} \<and>
      sorted_wrt (\<lambda>a b. rank_key example_best_fit a < rank_key example_best_fit b) (ranked r)"
proof -
  obtain r where r: "rank_best_fit example_pair example_job
      (evaluate_eligibility example_pair example_job example_policy) example_best_fit = Ok r"
    using example_ranking by blast
  from rank_best_fit_sound [OF r] r show ?thesis unfolding example_eligible by auto
qed

text \<open>
  The ranking accepts what the filter produced. On the report of \<open>evaluate_eligibility\<close>
  for the same pool and job, \<open>rank_best_fit\<close> returns a ranking exactly when the policy names
  each axis once, node ids are non-empty and distinct, at least two candidates are admissible,
  and every admissible candidate has distinct non-blank GPU ids and left-over amounts that fit
  their integer types. A missing fact or an insufficient resource is never found this late.
\<close>

theorem rank_after_filter:
  "(\<exists>r. rank_best_fit pool job (evaluate_eligibility pool job p) pol = Ok r) \<longleftrightarrow>
     distinct (axis_order pol) \<and> well_formed_pool pool \<and>
     2 \<le> length (er_eligible (evaluate_eligibility pool job p)) \<and>
     list_all (\<lambda>c. fit_possible c job)
       (filter (\<lambda>c. admissible c (pool_evaluated_at_unix_ms pool) job p) (pool_candidates pool))"
  by (rule rank_after_filter_Ok_iff)

text \<open>
  The GPU selection is the tightest one. When \<open>resource_fit\<close> returns, the selected ids
  are sorted, distinct, exactly as many as the job asks for, and ids of healthy GPUs of an
  allowed model with enough VRAM; the reported left-over VRAM is the exact sum (no wrap-around)
  and no other choice of that many usable GPUs leaves less.
\<close>

theorem resource_fit_tightest:
  assumes "resource_fit c j = Ok rf"
    and "cs_gpus c = Some gpus" and "jr_minimum_gpu_count j = Some n"
    and "jr_minimum_vram_bytes_per_gpu j = Some v"
  shows "sorted (rf_selected_gpu_ids rf) \<and> distinct (rf_selected_gpu_ids rf) \<and>
     length (rf_selected_gpu_ids rf) = unat n \<and>
     (\<forall>i \<in> set (rf_selected_gpu_ids rf).
        \<exists>g \<in> set gpus. gs_gpu_id g = i \<and> usable_gpu (jr_allowed_gpu_models j) v g) \<and>
     (\<forall>alternative. alternative \<subseteq># mset (usable_vram (jr_allowed_gpu_models j) v gpus) \<longrightarrow>
        size alternative = unat n \<longrightarrow>
        unat (vram_remaining_bytes (rf_fit_key rf)) \<le> (\<Sum>(a, i) \<in># alternative. unat a - unat v)) \<and>
     unat (vram_remaining_bytes (rf_fit_key rf)) =
       (\<Sum>(a, i) \<leftarrow> selected_gpus c j. unat a - unat v)"
proof -
  let ?u = "usable_vram (jr_allowed_gpu_models j) v gpus" and ?s = "selected_gpus c j"
  have s: "?s = take (unat n) (sort ?u)" and sub: "mset ?s \<subseteq># mset ?u"
    using selected_subset [of c j] by (simp_all add: selected_gpus_def assms)
  have valid: "valid_gpu_ids gpus" and n: "unat n \<le> length ?u"
    and vram: "unat (vram_remaining_bytes (rf_fit_key rf)) = (\<Sum>(a, i) \<leftarrow> ?s. unat (a - v))"
    and ids: "rf_selected_gpu_ids rf = sort (map snd ?s)"
    using assms by (auto simp: resource_fit_Ok gpu_fit_possible_def)
  have set_s: "set ?s \<subseteq> set ?u" using set_mset_mono [OF sub] by simp
  have le: "v \<le> a" if "(a, i) \<in> set ?u" for a i by (rule usable_vram_props(1) [OF that])
  have "distinct (map snd (sort ?u))"
    using distinct_usable_ids [OF valid] by (metis mset_eq_imp_distinct_iff mset_map mset_sort)
  then have "distinct (rf_selected_gpu_ids rf)" by (simp add: ids s flip: take_map)
  moreover have "\<forall>i \<in> set (rf_selected_gpu_ids rf).
        \<exists>g \<in> set gpus. gs_gpu_id g = i \<and> usable_gpu (jr_allowed_gpu_models j) v g"
    using set_s usable_vram_props(2) by (fastforce simp: ids)
  moreover have exact: "unat (vram_remaining_bytes (rf_fit_key rf)) = (\<Sum>(a, i) \<leftarrow> ?s. unat a - unat v)"
    unfolding vram using set_s le
    by (intro arg_cong [of _ _ sum_list] map_cong refl) (auto simp: unat_sub)
  moreover have "unat (vram_remaining_bytes (rf_fit_key rf)) \<le> (\<Sum>(a, i) \<in># alt. unat a - unat v)"
    if "alt \<subseteq># mset ?u" "size alt = unat n" for alt
    unfolding exact s using that
    by (intro take_sorted_least) (auto simp: less_eq_prod_def word_le_nat_alt word_less_nat_alt diff_le_mono split: prod.splits)
  moreover have "length (rf_selected_gpu_ids rf) = unat n" using n by (simp add: ids s min_def)
  moreover have "sorted (rf_selected_gpu_ids rf)" by (simp add: ids)
  ultimately show ?thesis by blast
qed

theorem resource_fit_tightest_witness:
  "resource_fit (example_node (lit ''b'') 17 3) example_job = Ok example_fit \<and>
   sorted (rf_selected_gpu_ids example_fit) \<and>
   unat (vram_remaining_bytes (rf_fit_key example_fit)) =
     (\<Sum>(a, i) \<leftarrow> selected_gpus (example_node (lit ''b'') 17 3) example_job. unat a - unat (16 :: u64))"
proof -
  have "cs_gpus (example_node (lit ''b'') 17 3) = Some (the (cs_gpus (example_node (lit ''b'') 17 3)))"
    and "jr_minimum_gpu_count example_job = Some 1" and "jr_minimum_vram_bytes_per_gpu example_job = Some 16"
    by (simp_all add: example_defs)
  from resource_fit_tightest [OF example_resource_fit this] example_resource_fit show ?thesis by blast
qed

end
