(* ===== verification/Sched_Scope.thy ===== *)
theory Sched_Scope
  imports Rust_Collections "HOL-Library.FSet"
begin

text \<open>
  The scope kernel of the scheduler, \<open>crates/scheduler/src/scope.rs\<close>: from one fixed GPU
  observation and explicit requirements it computes the candidate a \<open>ResourceScope\<close> can
  later be copied from, or a typed error. The checks run in the order of the source, so the
  error that is returned is the first one; the properties say that neither the result nor the
  error depends on the order in which GPUs and prefixes are listed.
\<close>

section \<open>Data\<close>

datatype gpu_allocation_mode = Exclusive | Shared | Partitioned

datatype provenance_gate = Verified | Unverified

datatype available_vram_observation =
    Authoritative u64
  | DerivedFromTotalAndReserved u64 u64

record scope_gpu_observation =
  so_gpu_id :: str
  so_healthy :: "bool option"
  so_available_vram :: "available_vram_observation option"
  so_model :: "str option"
  so_driver_version :: "u32 option"
  so_compute_capability :: "str option"
  so_allocation_modes :: "gpu_allocation_mode fset option"

record gpu_observation_snapshot =
  go_observed_at_unix_ms :: "u64 option"
  go_inventory_revision :: "u64 option"
  go_gpus :: "scope_gpu_observation list option"

record job_gpu_requirements =
  jg_minimum_vram_bytes_per_gpu :: "u64 option"
  jg_minimum_gpu_count :: "u32 option"
  jg_minimum_driver_version :: "u32 option"
  jg_cuda_runtime_version :: "str option"
  jg_allowed_compute_capabilities :: "str list"
  jg_allocation_mode :: "gpu_allocation_mode option"
  jg_allowed_gpu_models :: "str list"

record scope_resource_input =
  sr_cpu_cores :: "u32 option"
  sr_ram_bytes :: "u64 option"
  sr_workspace_bytes :: "u64 option"
  sr_writable_prefixes :: "str list option"

record scope_candidate =
  sc_observed_at_unix_ms :: u64
  sc_inventory_revision :: u64
  sc_selected_gpu_ids :: "str list"
  sc_allocation_mode :: gpu_allocation_mode
  sc_cpu_cores :: u32
  sc_ram_bytes :: u64
  sc_workspace_bytes :: u64
  sc_writable_prefixes :: "str list"

datatype scope_missing_fact =
    SmObservedAt | SmInventoryRevision | SmGpuInventory | SmJobMinimumVram | SmJobMinimumGpuCount
  | SmJobAllocationMode | SmCpuCores | SmRamBytes | SmWorkspaceBytes | SmWritablePrefixes
  | SmGpuHealth str | SmGpuModel str | SmGpuDriverVersion str | SmGpuComputeCapability str
  | SmGpuAllocationModes str | SmAuthoritativeAvailableVram str

datatype scope_error =
    UnverifiedProvenance
  | ScopeMissingFact scope_missing_fact
  | MinimumGpuCountMustBePositive
  | ScopeEmptyGpuId
  | ScopeNonCanonicalGpuId str
  | ScopeDuplicateGpuId str
  | EmptyWritablePrefix
  | NonCanonicalWritablePrefix str
  | DuplicateWritablePrefix str
  | NonAuthoritativeAvailableVram str
  | CudaRuntimeCompatibilityUnresolved
  | InsufficientMatchingGpus u32 u32
  | PartitionedAllocationUnproven
  | SharedAllocationUnproven

section \<open>Canonical identifiers\<close>

definition first_duplicate :: "str list \<Rightarrow> str option" where
  "first_duplicate ids = map_option fst (first_repeated ids)"

definition validate_gpu_ids :: "scope_gpu_observation list \<Rightarrow> scope_error + unit" where
  "validate_gpu_ids gpus =
     and_then (reject_if (\<exists>g \<in> set gpus. is_blank (so_gpu_id g)) ScopeEmptyGpuId) (\<lambda>_.
       case iter_min (map so_gpu_id (filter (\<lambda>g. trim (so_gpu_id g) \<noteq> so_gpu_id g) gpus)) of
         Some i \<Rightarrow> Err (ScopeNonCanonicalGpuId i)
       | None \<Rightarrow>
           (case first_duplicate (map so_gpu_id gpus) of
              Some i \<Rightarrow> Err (ScopeDuplicateGpuId i)
            | None \<Rightarrow> Ok ()))"

text \<open>The \<open>expect\<close> on the duplicate cannot fail: a set that is shorter than the list it was
  collected from has one (\<open>first_duplicate_None\<close>).\<close>

definition canonical_prefixes :: "str list \<Rightarrow> scope_error + str list" where
  "canonical_prefixes prefixes =
     and_then (reject_if (\<exists>p \<in> set prefixes. is_blank p) EmptyWritablePrefix) (\<lambda>_.
       case iter_min (filter (\<lambda>p. trim p \<noteq> p) prefixes) of
         Some p \<Rightarrow> Err (NonCanonicalWritablePrefix p)
       | None \<Rightarrow>
           let canonical = bs_collect prefixes
           in if length canonical \<noteq> length prefixes
              then Err (DuplicateWritablePrefix (the (first_duplicate prefixes)))
              else Ok canonical)"

section \<open>The kernel\<close>

text \<open>One turn of the loop over the GPUs, from the first check to the push.\<close>

definition match_scope_vram ::
    "u64 \<Rightarrow> scope_gpu_observation \<Rightarrow> (u64 \<times> str) list \<Rightarrow> scope_error + (u64 \<times> str) list" where
  "match_scope_vram minimum_vram gpu matching =
     (case so_available_vram gpu of
        None \<Rightarrow> Err (ScopeMissingFact (SmAuthoritativeAvailableVram (so_gpu_id gpu)))
      | Some (DerivedFromTotalAndReserved _ _) \<Rightarrow> Err (NonAuthoritativeAvailableVram (so_gpu_id gpu))
      | Some (Authoritative bytes) \<Rightarrow>
          Ok (if minimum_vram \<le> bytes then matching @ [(bytes, so_gpu_id gpu)] else matching))"

definition match_scope_gpu ::
    "job_gpu_requirements \<Rightarrow> u64 \<Rightarrow> gpu_allocation_mode \<Rightarrow> scope_gpu_observation
      \<Rightarrow> (u64 \<times> str) list \<Rightarrow> scope_error + (u64 \<times> str) list" where
  "match_scope_gpu req minimum_vram mode gpu matching =
     (let missing = (\<lambda>f. ScopeMissingFact (f (so_gpu_id gpu)));
          vram = match_scope_vram minimum_vram gpu matching;
          modes = and_then (ok_or (so_allocation_modes gpu) (missing SmGpuAllocationModes)) (\<lambda>allowed.
                    if mode |\<notin>| allowed then Ok matching else vram);
          capability =
            (if jg_allowed_compute_capabilities req \<noteq> [] then
               and_then (ok_or (so_compute_capability gpu) (missing SmGpuComputeCapability)) (\<lambda>c.
                 if c \<notin> set (jg_allowed_compute_capabilities req) then Ok matching else modes)
             else modes);
          driver =
            (case jg_minimum_driver_version req of
               Some required \<Rightarrow>
                 and_then (ok_or (so_driver_version gpu) (missing SmGpuDriverVersion)) (\<lambda>d.
                   if d < required then Ok matching else capability)
             | None \<Rightarrow> capability);
          model =
            (if jg_allowed_gpu_models req \<noteq> [] then
               and_then (ok_or (so_model gpu) (missing SmGpuModel)) (\<lambda>m.
                 if m \<notin> set (jg_allowed_gpu_models req) then Ok matching else driver)
             else driver)
      in case so_healthy gpu of
           None \<Rightarrow> Err (missing SmGpuHealth)
         | Some False \<Rightarrow> Ok matching
         | Some True \<Rightarrow> model)"

definition select_scope_gpus :: "u32 \<Rightarrow> (u64 \<times> str) list \<Rightarrow> scope_error + str list" where
  "select_scope_gpus minimum_gpu_count matching =
     (let required = unat minimum_gpu_count
      in if length matching < required
         then Err (InsufficientMatchingGpus (saturating_u32 (length matching)) minimum_gpu_count)
         else Ok (sort (map snd (take required (sort matching)))))"

definition gpu_scope_candidate ::
    "gpu_observation_snapshot \<Rightarrow> job_gpu_requirements \<Rightarrow> scope_resource_input \<Rightarrow> provenance_gate
      \<Rightarrow> scope_error + scope_candidate" where
  "gpu_scope_candidate snapshot req res provenance =
     and_then (reject_if (provenance \<noteq> Verified) UnverifiedProvenance) (\<lambda>_.
     and_then (ok_or (go_observed_at_unix_ms snapshot) (ScopeMissingFact SmObservedAt)) (\<lambda>observed_at.
     and_then (ok_or (go_inventory_revision snapshot) (ScopeMissingFact SmInventoryRevision)) (\<lambda>revision.
     and_then (ok_or (jg_minimum_vram_bytes_per_gpu req) (ScopeMissingFact SmJobMinimumVram)) (\<lambda>minimum_vram.
     and_then (ok_or (jg_minimum_gpu_count req) (ScopeMissingFact SmJobMinimumGpuCount)) (\<lambda>count.
     and_then (reject_if (count = 0) MinimumGpuCountMustBePositive) (\<lambda>_.
     and_then (reject_if (jg_cuda_runtime_version req \<noteq> None) CudaRuntimeCompatibilityUnresolved) (\<lambda>_.
     and_then (ok_or (jg_allocation_mode req) (ScopeMissingFact SmJobAllocationMode)) (\<lambda>mode.
     and_then (reject_if (mode = Partitioned) PartitionedAllocationUnproven) (\<lambda>_.
     and_then (reject_if (mode = Shared) SharedAllocationUnproven) (\<lambda>_.
     and_then (ok_or (sr_cpu_cores res) (ScopeMissingFact SmCpuCores)) (\<lambda>cpu_cores.
     and_then (ok_or (sr_ram_bytes res) (ScopeMissingFact SmRamBytes)) (\<lambda>ram_bytes.
     and_then (ok_or (sr_workspace_bytes res) (ScopeMissingFact SmWorkspaceBytes)) (\<lambda>workspace_bytes.
     and_then (ok_or (sr_writable_prefixes res) (ScopeMissingFact SmWritablePrefixes)) (\<lambda>raw_prefixes.
     and_then (canonical_prefixes raw_prefixes) (\<lambda>writable_prefixes.
     and_then (ok_or (go_gpus snapshot) (ScopeMissingFact SmGpuInventory)) (\<lambda>gpus.
     and_then (validate_gpu_ids gpus) (\<lambda>_.
     and_then (for_each (match_scope_gpu req minimum_vram mode) (sort_key so_gpu_id gpus) []) (\<lambda>matching.
     and_then (select_scope_gpus count matching) (\<lambda>selected.
       Ok \<lparr>sc_observed_at_unix_ms = observed_at, sc_inventory_revision = revision,
           sc_selected_gpu_ids = selected, sc_allocation_mode = mode, sc_cpu_cores = cpu_cores,
           sc_ram_bytes = ram_bytes, sc_workspace_bytes = workspace_bytes,
           sc_writable_prefixes = writable_prefixes\<rparr>)))))))))))))))))))"

section \<open>Lemmas\<close>

lemma first_duplicate_perm: "mset xs = mset ys \<Longrightarrow> first_duplicate xs = first_duplicate ys"
  unfolding first_duplicate_def by (drule first_repeated_perm) (simp only:)

lemma first_duplicate_None: "first_duplicate ids = None \<longleftrightarrow> distinct ids"
  by (simp add: first_duplicate_def first_repeated_None)

lemma validate_gpu_ids_Ok:
  "validate_gpu_ids gpus = Ok u \<longleftrightarrow>
     list_all (\<lambda>g. \<not> is_blank (so_gpu_id g) \<and> trim (so_gpu_id g) = so_gpu_id g) gpus \<and>
     distinct (map so_gpu_id gpus)"
  by (auto simp: validate_gpu_ids_def result_ok list_all_iff filter_empty_conv
      first_duplicate_None iter_min_None [unfolded not_None_eq [symmetric]] split: option.splits
      simp flip: first_duplicate_None not_None_eq)

lemma validate_gpu_ids_perm:
  assumes "mset xs = mset ys" shows "validate_gpu_ids xs = validate_gpu_ids ys"
proof -
  have set: "set xs = set ys" using assms by (rule mset_eq_setD)
  have min: "iter_min (map so_gpu_id (filter P xs)) = iter_min (map so_gpu_id (filter P ys))" for P
    by (rule iter_min_perm_eq) (simp add: assms)
  have dup: "first_duplicate (map so_gpu_id xs) = first_duplicate (map so_gpu_id ys)"
    by (rule first_duplicate_perm) (simp add: assms)
  show ?thesis unfolding validate_gpu_ids_def set min dup ..
qed

lemma length_bs_collect: "length (bs_collect xs) = card (set xs)"
  using distinct_card [of "sort_dedup xs"] strict_sorted_sort_dedup [of xs]
  by (simp add: bs_collect_sort_dedup strict_sorted_iff)

lemma canonical_prefixes_perm:
  assumes "mset xs = mset ys" shows "canonical_prefixes xs = canonical_prefixes ys"
proof -
  have set: "set xs = set ys" using assms by (rule mset_eq_setD)
  have len: "length xs = length ys" using assms by (rule mset_eq_length)
  have min: "iter_min (filter P xs) = iter_min (filter P ys)" for P
    by (rule iter_min_perm_eq) (simp add: assms)
  have collect: "bs_collect xs = bs_collect ys"
    by (simp add: bs_collect_sort_dedup sort_dedup_set_eq [OF set])
  show ?thesis unfolding canonical_prefixes_def set len min collect first_duplicate_perm [OF assms] ..
qed

lemma canonical_prefixes_Ok:
  "canonical_prefixes ps = Ok qs \<longleftrightarrow>
     list_all (\<lambda>p. \<not> is_blank p \<and> trim p = p) ps \<and> distinct ps \<and> qs = sort ps"
proof -
  have "length (bs_collect ps) = length ps \<longleftrightarrow> distinct ps"
    by (metis length_bs_collect card_distinct distinct_card)
  moreover have "bs_collect ps = sort ps" if "distinct ps"
    unfolding bs_collect_sort_dedup using that strict_sorted_sort_dedup [of ps]
    by (intro sorted_distinct_set_unique) (simp_all add: strict_sorted_iff)
  ultimately show ?thesis
    by (auto simp: canonical_prefixes_def result_ok list_all_iff filter_empty_conv Let_def
        split: option.splits if_splits simp flip: not_None_eq)
qed

text \<open>A GPU the requirements accept, and the VRAM it offers.\<close>

definition scope_usable :: "job_gpu_requirements \<Rightarrow> u64 \<Rightarrow> gpu_allocation_mode \<Rightarrow> scope_gpu_observation \<Rightarrow> bool" where
  "scope_usable req v mode g \<longleftrightarrow>
     so_healthy g = Some True \<and>
     (jg_allowed_gpu_models req = [] \<or> (\<exists>m \<in> set (jg_allowed_gpu_models req). so_model g = Some m)) \<and>
     (case (jg_minimum_driver_version req, so_driver_version g) of
        (None, _) \<Rightarrow> True | (Some r, Some d) \<Rightarrow> r \<le> d | (Some _, None) \<Rightarrow> False) \<and>
     (jg_allowed_compute_capabilities req = [] \<or>
        (\<exists>c \<in> set (jg_allowed_compute_capabilities req). so_compute_capability g = Some c)) \<and>
     (case so_allocation_modes g of Some modes \<Rightarrow> mode |\<in>| modes | None \<Rightarrow> False) \<and>
     (case so_available_vram g of Some (Authoritative b) \<Rightarrow> v \<le> b | _ \<Rightarrow> False)"

definition authoritative_bytes :: "scope_gpu_observation \<Rightarrow> u64" where
  "authoritative_bytes g = (case so_available_vram g of Some (Authoritative b) \<Rightarrow> b | _ \<Rightarrow> 0)"

definition scope_vram ::
    "job_gpu_requirements \<Rightarrow> u64 \<Rightarrow> gpu_allocation_mode \<Rightarrow> scope_gpu_observation list \<Rightarrow> (u64 \<times> str) list" where
  "scope_vram req v mode gpus =
     map (\<lambda>g. (authoritative_bytes g, so_gpu_id g)) (filter (scope_usable req v mode) gpus)"

lemma match_scope_gpu_Ok:
  "match_scope_gpu req v mode g acc = Ok m \<Longrightarrow> m = acc @ scope_vram req v mode [g]"
  by (auto simp: match_scope_gpu_def match_scope_vram_def scope_vram_def scope_usable_def
      authoritative_bytes_def result_ok Let_def
      split: option.splits bool.splits if_splits available_vram_observation.splits)

lemma match_scope_loop_Ok:
  "for_each (match_scope_gpu req v mode) gpus acc = Ok m \<Longrightarrow> m = acc @ scope_vram req v mode gpus"
proof (induction gpus arbitrary: acc)
  case Nil
  then show ?case by (simp add: scope_vram_def)
next
  case (Cons g gpus)
  then obtain acc' where "match_scope_gpu req v mode g acc = Ok acc'"
    and "for_each (match_scope_gpu req v mode) gpus acc' = Ok m" by (auto simp: result_ok)
  with Cons.IH match_scope_gpu_Ok show ?case by (fastforce simp: scope_vram_def)
qed

text \<open>What a returned candidate went through.\<close>

lemma gpu_scope_candidate_Ok:
  assumes "gpu_scope_candidate snap req res prov = Ok s"
  obtains gpus v n ps matching where
    "prov = Verified" "go_gpus snap = Some gpus" "jg_minimum_vram_bytes_per_gpu req = Some v"
    "jg_minimum_gpu_count req = Some n" "n \<noteq> 0" "jg_allocation_mode req = Some Exclusive"
    "sr_writable_prefixes res = Some ps" "canonical_prefixes ps = Ok (sc_writable_prefixes s)"
    "validate_gpu_ids gpus = Ok ()"
    "matching = scope_vram req v Exclusive (sort_key so_gpu_id gpus)"
    "unat n \<le> length matching"
    "sc_selected_gpu_ids s = sort (map snd (take (unat n) (sort matching)))"
    "sc_allocation_mode s = Exclusive"
    "go_observed_at_unix_ms snap = Some (sc_observed_at_unix_ms s)"
    "go_inventory_revision snap = Some (sc_inventory_revision s)"
    "sr_cpu_cores res = Some (sc_cpu_cores s)" "sr_ram_bytes res = Some (sc_ram_bytes s)"
    "sr_workspace_bytes res = Some (sc_workspace_bytes s)"
proof -
  have mode: "m = Exclusive" if "m \<noteq> Partitioned" "m \<noteq> Shared" for m
    using that by (cases m) simp_all
  from assms show thesis
    unfolding gpu_scope_candidate_def and_then_Ok reject_if_Ok ok_or_Ok
    by (elim exE conjE)
       (rule that; (drule match_scope_loop_Ok)?; auto dest: mode simp: select_scope_gpus_def Let_def not_less split: if_splits)
qed

lemma sort_key_gpu_perm:
  assumes "mset xs = mset ys" and "distinct (map so_gpu_id xs)"
  shows "sort_key so_gpu_id xs = sort_key so_gpu_id ys"
  using assms by (intro sort_key_perm_eq) (simp_all add: distinct_map)

lemma and_then_cong: "(\<And>x. r = Ok x \<Longrightarrow> f x = g x) \<Longrightarrow> and_then r f = and_then r g"
  by (cases r) simp_all

lemma gpu_scope_candidate_perm:
  assumes gpus: "mset gpus1 = mset gpus2" and prefixes: "mset ps1 = mset ps2"
  shows "gpu_scope_candidate (snap\<lparr>go_gpus := Some gpus1\<rparr>) req (res\<lparr>sr_writable_prefixes := Some ps1\<rparr>) prov =
         gpu_scope_candidate (snap\<lparr>go_gpus := Some gpus2\<rparr>) req (res\<lparr>sr_writable_prefixes := Some ps2\<rparr>) prov"
proof -
  have "and_then (validate_gpu_ids gpus1) (\<lambda>_. and_then (for_each body (sort_key so_gpu_id gpus1) []) k) =
        and_then (validate_gpu_ids gpus2) (\<lambda>_. and_then (for_each body (sort_key so_gpu_id gpus2) []) k)"
    for body :: "scope_gpu_observation \<Rightarrow> (u64 \<times> str) list \<Rightarrow> _"
      and k :: "(u64 \<times> str) list \<Rightarrow> scope_error + scope_candidate"
    unfolding validate_gpu_ids_perm [OF gpus, symmetric]
    by (rule and_then_cong) (simp add: validate_gpu_ids_Ok sort_key_gpu_perm [OF gpus])
  then show ?thesis
    by (simp add: gpu_scope_candidate_def canonical_prefixes_perm [OF prefixes])
qed

section \<open>A concrete request\<close>

definition example_scope_gpu :: "str \<Rightarrow> u64 \<Rightarrow> scope_gpu_observation" where
  "example_scope_gpu name bytes =
     \<lparr>so_gpu_id = name, so_healthy = Some True, so_available_vram = Some (Authoritative bytes),
      so_model = None, so_driver_version = Some 550, so_compute_capability = None,
      so_allocation_modes = Some {|Exclusive|}\<rparr>"

definition example_scope_request :: job_gpu_requirements where
  "example_scope_request =
     \<lparr>jg_minimum_vram_bytes_per_gpu = Some 8, jg_minimum_gpu_count = Some 1,
      jg_minimum_driver_version = Some 535, jg_cuda_runtime_version = None,
      jg_allowed_compute_capabilities = [], jg_allocation_mode = Some Exclusive,
      jg_allowed_gpu_models = []\<rparr>"

definition example_scope_snapshot :: gpu_observation_snapshot where
  "example_scope_snapshot =
     \<lparr>go_observed_at_unix_ms = Some 5, go_inventory_revision = Some 2,
      go_gpus = Some [example_scope_gpu (lit ''b'') 9, example_scope_gpu (lit ''a'') 12]\<rparr>"

definition example_scope_resources :: scope_resource_input where
  "example_scope_resources =
     \<lparr>sr_cpu_cores = Some 4, sr_ram_bytes = Some 64, sr_workspace_bytes = Some 10,
      sr_writable_prefixes = Some [lit ''out'']\<rparr>"

section \<open>Properties\<close>

text \<open>
  The scope kernel is deterministic in the strong sense its documentation claims: listing
  the GPUs and the writable prefixes in another order changes neither the candidate nor the
  error that is returned, even when several inputs are invalid at once.
\<close>

theorem gpu_scope_candidate_order_independent:
  assumes "mset gpus1 = mset gpus2" and "mset ps1 = mset ps2"
  shows "gpu_scope_candidate (snap\<lparr>go_gpus := Some gpus1\<rparr>) req (res\<lparr>sr_writable_prefixes := Some ps1\<rparr>) prov =
         gpu_scope_candidate (snap\<lparr>go_gpus := Some gpus2\<rparr>) req (res\<lparr>sr_writable_prefixes := Some ps2\<rparr>) prov"
  using assms by (rule gpu_scope_candidate_perm)

theorem gpu_scope_candidate_order_independent_witness:
  "gpu_scope_candidate
     (example_scope_snapshot\<lparr>go_gpus := Some [example_scope_gpu (lit ''b'') 9, example_scope_gpu [] 12]\<rparr>)
     example_scope_request (example_scope_resources\<lparr>sr_writable_prefixes := Some [lit ''x'', lit ''w'']\<rparr>) Verified =
   gpu_scope_candidate
     (example_scope_snapshot\<lparr>go_gpus := Some [example_scope_gpu [] 12, example_scope_gpu (lit ''b'') 9]\<rparr>)
     example_scope_request (example_scope_resources\<lparr>sr_writable_prefixes := Some [lit ''w'', lit ''x'']\<rparr>) Verified"
  by (rule gpu_scope_candidate_order_independent) (simp_all add: add_mset_commute)

text \<open>The ids of the matching GPUs are distinct, and the least of them by VRAM are selected.\<close>

lemma distinct_matching:
  assumes "validate_gpu_ids gpus = Ok ()"
  shows "distinct (map snd (scope_vram req v mode (sort_key so_gpu_id gpus)))"
proof -
  have "distinct (map so_gpu_id (sort_key so_gpu_id gpus))"
    using assms by (metis validate_gpu_ids_Ok mset_eq_imp_distinct_iff mset_map mset_sort)
  then show ?thesis by (simp add: scope_vram_def o_def distinct_map_filter)
qed

lemma least_selected:
  assumes "i \<in> set (sort (map snd (take n (sort (scope_vram req v mode (sort_key so_gpu_id gpus))))))"
  shows "\<exists>g \<in> set gpus. so_gpu_id g = i \<and> scope_usable req v mode g \<and>
    (\<forall>h \<in> set gpus. scope_usable req v mode h \<longrightarrow>
       so_gpu_id h \<notin> set (sort (map snd (take n (sort (scope_vram req v mode (sort_key so_gpu_id gpus)))))) \<longrightarrow>
       authoritative_bytes g \<le> authoritative_bytes h)"
proof -
  let ?m = "scope_vram req v mode (sort_key so_gpu_id gpus)"
  let ?low = "take n (sort ?m)" and ?high = "drop n (sort ?m)"
  have set_m: "set ?m = set ?low \<union> set ?high" by (metis append_take_drop_id set_append set_sort)
  have sorted_m: "sorted (?low @ ?high)" by simp
  obtain b where b: "(b, i) \<in> set ?low" using assms by auto
  then have "(b, i) \<in> set ?m" by (metis UnI1 set_m)
  then obtain g where g: "g \<in> set gpus" "so_gpu_id g = i" "scope_usable req v mode g" "b = authoritative_bytes g"
    by (auto simp: scope_vram_def)
  have "authoritative_bytes g \<le> authoritative_bytes h"
    if "h \<in> set gpus" "scope_usable req v mode h" "so_gpu_id h \<notin> set (sort (map snd ?low))" for h
  proof -
    have "(authoritative_bytes h, so_gpu_id h) \<in> set ?m" using that(1,2) by (auto simp: scope_vram_def)
    with that(3) have "(authoritative_bytes h, so_gpu_id h) \<in> set ?high" unfolding set_m by force
    with sorted_m b have "(b, i) \<le> (authoritative_bytes h, so_gpu_id h)" unfolding sorted_append by blast
    then show ?thesis by (auto simp: less_eq_prod_def g(4))
  qed
  with g show ?thesis by blast
qed

text \<open>
  a returned scope candidate never claims more than was observed and verified. The
  provenance was verified and the allocation is exclusive; the selected ids are sorted and
  distinct, exactly as many as required and at least one; each is the id of a listed GPU that
  is healthy, of an allowed model, driver and capability, allows the mode and has enough
  authoritative VRAM; a usable GPU that was not selected has at least as much VRAM as every
  selected one; the writable prefixes are the requested ones, sorted.
\<close>

theorem gpu_scope_candidate_sound:
  assumes "gpu_scope_candidate snap req res prov = Ok s" and "go_gpus snap = Some gpus"
    and "jg_minimum_gpu_count req = Some n" and "jg_minimum_vram_bytes_per_gpu req = Some v"
  shows "prov = Verified \<and> sc_allocation_mode s = Exclusive \<and> jg_allocation_mode req = Some Exclusive \<and>
     sorted (sc_selected_gpu_ids s) \<and> distinct (sc_selected_gpu_ids s) \<and>
     length (sc_selected_gpu_ids s) = unat n \<and> 0 < unat n \<and>
     (\<forall>i \<in> set (sc_selected_gpu_ids s). \<exists>g \<in> set gpus. so_gpu_id g = i \<and> scope_usable req v Exclusive g \<and>
        (\<forall>h \<in> set gpus. scope_usable req v Exclusive h \<longrightarrow> so_gpu_id h \<notin> set (sc_selected_gpu_ids s) \<longrightarrow>
           authoritative_bytes g \<le> authoritative_bytes h)) \<and>
     sr_writable_prefixes res \<noteq> None \<and>
     sc_writable_prefixes s = sort (the (sr_writable_prefixes res)) \<and> distinct (sc_writable_prefixes s)"
proof -
  obtain ps matching where res: "prov = Verified" "n \<noteq> 0" "jg_allocation_mode req = Some Exclusive"
    "sr_writable_prefixes res = Some ps" "canonical_prefixes ps = Ok (sc_writable_prefixes s)"
    "validate_gpu_ids gpus = Ok ()" "sc_allocation_mode s = Exclusive"
    and matching: "matching = scope_vram req v Exclusive (sort_key so_gpu_id gpus)"
    and n: "unat n \<le> length matching"
    and sel: "sc_selected_gpu_ids s = sort (map snd (take (unat n) (sort matching)))"
    using gpu_scope_candidate_Ok [OF assms(1)] assms by (metis option.inject)
  have dist: "distinct (map snd (sort matching))"
    using distinct_matching [OF res(6)] by (metis matching mset_eq_imp_distinct_iff mset_map mset_sort)
  have "\<forall>i \<in> set (sc_selected_gpu_ids s). \<exists>g \<in> set gpus. so_gpu_id g = i \<and> scope_usable req v Exclusive g \<and>
        (\<forall>h \<in> set gpus. scope_usable req v Exclusive h \<longrightarrow> so_gpu_id h \<notin> set (sc_selected_gpu_ids s) \<longrightarrow>
           authoritative_bytes g \<le> authoritative_bytes h)"
    unfolding sel matching using least_selected by blast
  moreover have "sorted (sc_selected_gpu_ids s) \<and> distinct (sc_selected_gpu_ids s) \<and>
     length (sc_selected_gpu_ids s) = unat n"
    using dist n by (simp add: sel min_def flip: take_map)
  moreover have "0 < unat n" using res(2) by (simp add: unat_gt_0)
  moreover have "sc_writable_prefixes s = sort ps \<and> distinct ps"
    using res(5) by (simp add: canonical_prefixes_Ok)
  ultimately show ?thesis using res by simp
qed

theorem gpu_scope_candidate_sound_witness:
  "\<exists>s. gpu_scope_candidate example_scope_snapshot example_scope_request example_scope_resources Verified = Ok s \<and>
      sc_selected_gpu_ids s = [lit ''b''] \<and> distinct (sc_writable_prefixes s)"
proof -
  have trim: "trim [c] = [c] \<and> \<not> is_blank [c]" if "\<not> is_whitespace c" for c
    using that by (simp add: trim_def is_blank_iff)
  have prefixes: "canonical_prefixes [lit ''out''] = Ok [lit ''out'']"
    by (simp add: canonical_prefixes_Ok is_blank_iff trim_def is_whitespace_def)
  have ids: "validate_gpu_ids [example_scope_gpu (lit ''b'') 9, example_scope_gpu (lit ''a'') 12] = Ok ()"
    by (simp add: validate_gpu_ids_Ok example_scope_gpu_def trim is_whitespace_def)
  have ok: "gpu_scope_candidate example_scope_snapshot example_scope_request example_scope_resources Verified =
      Ok \<lparr>sc_observed_at_unix_ms = 5, sc_inventory_revision = 2, sc_selected_gpu_ids = [lit ''b''],
          sc_allocation_mode = Exclusive, sc_cpu_cores = 4, sc_ram_bytes = 64,
          sc_workspace_bytes = 10, sc_writable_prefixes = [lit ''out'']\<rparr>" (is "_ = Ok ?s")
    by (simp add: gpu_scope_candidate_def example_scope_snapshot_def example_scope_resources_def
        prefixes ids del: lit_simps)
       (simp add: example_scope_request_def example_scope_gpu_def match_scope_gpu_def
        match_scope_vram_def select_scope_gpus_def Let_def)
  have "go_gpus example_scope_snapshot =
      Some [example_scope_gpu (lit ''b'') 9, example_scope_gpu (lit ''a'') 12]"
    and "jg_minimum_gpu_count example_scope_request = Some 1"
    and "jg_minimum_vram_bytes_per_gpu example_scope_request = Some 8"
    by (simp_all add: example_scope_snapshot_def example_scope_request_def)
  from gpu_scope_candidate_sound [OF ok this] have "distinct (sc_writable_prefixes ?s)" by blast
  with ok show ?thesis by (intro exI [of _ ?s] conjI) simp_all
qed

end
