(* ===== verification/Sched_Liveness.thy ===== *)
theory Sched_Liveness
  imports Rust_Collections
begin

text \<open>
  The liveness classifier, \<open>crates/scheduler/src/liveness.rs\<close>: heartbeat observations are
  sorted, the newest one of every node is selected, and every node that was observed or is
  known gets one report. There is no verdict "dead": the worst one is \<open>Silent\<close>.
\<close>

section \<open>Data\<close>

record heartbeat_observation =
  hb_node_id :: str
  hb_device_id :: str
  hb_issued_at_unix_ms :: u64
  hb_fence_epoch :: u64
  hb_running_attempts :: u32

record liveness_policy =
  lp_live_within_ms :: u64
  lp_silent_after_ms :: u64

datatype node_liveness = Live | Suspect | Silent | NoObservation

datatype liveness_error =
    PolicyInverted u64 u64
  | LivenessBlankIdentity string
  | ConflictingDevice str str str

record node_liveness_report =
  nl_node_id :: str
  nl_liveness :: node_liveness
  nl_selected :: "heartbeat_observation option"
  nl_silence_ms :: "u64 option"

section \<open>Operations\<close>

definition heartbeat_rank :: "heartbeat_observation \<Rightarrow> u64 \<times> u64 \<times> u32" where
  "heartbeat_rank ob = (hb_issued_at_unix_ms ob, hb_fence_epoch ob, hb_running_attempts ob)"

text \<open>The tuple the observations are sorted by.\<close>

definition heartbeat_key :: "heartbeat_observation \<Rightarrow> str \<times> str \<times> u64 \<times> u64 \<times> u32" where
  "heartbeat_key ob = (hb_node_id ob, hb_device_id ob, hb_issued_at_unix_ms ob, hb_fence_epoch ob,
     hb_running_attempts ob)"

definition select_heartbeat ::
    "heartbeat_observation \<Rightarrow> (str, heartbeat_observation) btree_map
      \<Rightarrow> liveness_error + (str, heartbeat_observation) btree_map" where
  "select_heartbeat ob selected =
     and_then (reject_if (is_blank (hb_node_id ob)) (LivenessBlankIdentity ''node_id'')) (\<lambda>_.
     and_then (reject_if (is_blank (hb_device_id ob)) (LivenessBlankIdentity ''device_id'')) (\<lambda>_.
       case bm_get selected (hb_node_id ob) of
         None \<Rightarrow> Ok (bm_insert (hb_node_id ob) ob selected)
       | Some existing \<Rightarrow>
           if hb_device_id existing \<noteq> hb_device_id ob
           then Err (ConflictingDevice (hb_node_id ob) (hb_device_id existing) (hb_device_id ob))
           else if heartbeat_rank ob > heartbeat_rank existing
           then Ok (bm_insert (hb_node_id ob) ob selected)
           else Ok selected))"

definition add_known_node :: "str \<Rightarrow> str list \<Rightarrow> liveness_error + str list" where
  "add_known_node node_id all_nodes =
     (if is_blank node_id then Err (LivenessBlankIdentity ''known node_id'')
      else Ok (bs_insert node_id all_nodes))"

definition report_liveness ::
    "liveness_policy \<Rightarrow> u64 \<Rightarrow> (str, heartbeat_observation) btree_map \<Rightarrow> str \<Rightarrow> node_liveness_report" where
  "report_liveness policy now selected node_id =
     (case bm_get selected node_id of
        None \<Rightarrow> \<lparr>nl_node_id = node_id, nl_liveness = NoObservation, nl_selected = None, nl_silence_ms = None\<rparr>
      | Some ob \<Rightarrow>
          let silence = saturating_sub now (hb_issued_at_unix_ms ob);
              liveness = (if silence \<le> lp_live_within_ms policy then Live
                          else if silence < lp_silent_after_ms policy then Suspect
                          else Silent)
          in \<lparr>nl_node_id = node_id, nl_liveness = liveness, nl_selected = Some ob,
              nl_silence_ms = Some silence\<rparr>)"

definition classify_node_liveness ::
    "heartbeat_observation list \<Rightarrow> str list \<Rightarrow> liveness_policy \<Rightarrow> u64
      \<Rightarrow> liveness_error + node_liveness_report list" where
  "classify_node_liveness observations known_nodes policy now =
     and_then (reject_if (lp_silent_after_ms policy \<le> lp_live_within_ms policy)
                 (PolicyInverted (lp_live_within_ms policy) (lp_silent_after_ms policy))) (\<lambda>_.
     and_then (for_each select_heartbeat (sort_key heartbeat_key observations) []) (\<lambda>selected.
     and_then (for_each add_known_node known_nodes (bs_collect (bm_keys selected))) (\<lambda>all_nodes.
       Ok (map (report_liveness policy now selected) all_nodes))))"

section \<open>Lemmas\<close>

lemma heartbeat_key_inj: "inj_on heartbeat_key (A :: heartbeat_observation set)"
  by (rule inj_onI) (rule heartbeat_observation.equality; simp add: heartbeat_key_def)

text \<open>What the selection loop has established about the observations it has seen.\<close>

definition same_device :: "heartbeat_observation \<Rightarrow> heartbeat_observation \<Rightarrow> bool" where
  "same_device a b \<longleftrightarrow> hb_device_id a = hb_device_id b"

fun newest_at :: "heartbeat_observation list \<Rightarrow> str \<Rightarrow> heartbeat_observation option \<Rightarrow> bool" where
  "newest_at xs k None \<longleftrightarrow> k \<notin> hb_node_id ` set xs"
| "newest_at xs k (Some ob) \<longleftrightarrow> ob \<in> set xs \<and> hb_node_id ob = k \<and>
     (\<forall>x \<in> set xs. hb_node_id x = k \<longrightarrow> same_device x ob \<and> heartbeat_rank x \<le> heartbeat_rank ob)"

definition newest_selected ::
    "heartbeat_observation list \<Rightarrow> (str, heartbeat_observation) btree_map \<Rightarrow> bool" where
  "newest_selected xs m \<longleftrightarrow> bm_invar m \<and> (\<forall>k. newest_at xs k (bm_get m k))"

definition consistent_heartbeats :: "heartbeat_observation list \<Rightarrow> bool" where
  "consistent_heartbeats xs \<longleftrightarrow>
     list_all (\<lambda>x. \<not> is_blank (hb_node_id x) \<and> \<not> is_blank (hb_device_id x)) xs \<and>
     (\<forall>x \<in> set xs. \<forall>y \<in> set xs. hb_node_id x = hb_node_id y \<longrightarrow> same_device x y)"

lemma same_device_refl [simp]: "same_device a a"
  by (simp add: same_device_def)

lemma same_device_trans: "same_device a b \<Longrightarrow> same_device b c \<Longrightarrow> same_device a c"
  by (simp add: same_device_def)

lemma same_device_sym: "same_device a b \<longleftrightarrow> same_device b a"
  by (auto simp: same_device_def)

lemma newest_at_other:
  "newest_at xs k v \<Longrightarrow> hb_node_id x \<noteq> k \<Longrightarrow> newest_at (xs @ [x]) k v"
  by (cases v) auto

lemma newest_at_same:
  assumes "newest_at xs (hb_node_id x) v" and "\<forall>ob. v = Some ob \<longrightarrow> same_device ob x"
  shows "newest_at (xs @ [x]) (hb_node_id x)
           (case v of None \<Rightarrow> Some x
            | Some ob \<Rightarrow> if heartbeat_rank ob < heartbeat_rank x then Some x else Some ob)"
proof (cases v)
  case None
  then show ?thesis using assms by (auto simp: image_iff)
next
  case (Some ob)
  then show ?thesis
    using assms same_device_sym [of x ob]
    by (auto simp: not_less intro: same_device_trans order_trans)
qed

text \<open>One turn of the loop, as a condition and a result.\<close>

lemma select_heartbeat_Ok:
  "select_heartbeat x m = Ok m' \<longleftrightarrow>
     \<not> is_blank (hb_node_id x) \<and> \<not> is_blank (hb_device_id x) \<and>
     (\<forall>ob. bm_get m (hb_node_id x) = Some ob \<longrightarrow> same_device ob x) \<and>
     m' = (case bm_get m (hb_node_id x) of
             None \<Rightarrow> bm_insert (hb_node_id x) x m
           | Some ob \<Rightarrow> if heartbeat_rank ob < heartbeat_rank x then bm_insert (hb_node_id x) x m else m)"
  by (auto simp: select_heartbeat_def result_ok same_device_def split: option.splits)

lemma select_heartbeat_devices:
  assumes "newest_selected xs m"
  shows "(\<forall>ob. bm_get m (hb_node_id x) = Some ob \<longrightarrow> same_device ob x) \<longleftrightarrow>
         (\<forall>y \<in> set xs. hb_node_id y = hb_node_id x \<longrightarrow> same_device y x)"
proof -
  have "newest_at xs (hb_node_id x) (bm_get m (hb_node_id x))" using assms by (simp add: newest_selected_def)
  then show ?thesis
    by (cases "bm_get m (hb_node_id x)") (auto simp: image_iff intro: same_device_trans)
qed

lemma select_heartbeat_newest:
  assumes "newest_selected xs m" and ok: "select_heartbeat x m = Ok m'"
  shows "newest_selected (xs @ [x]) m'"
proof -
  have inv: "bm_invar m" and at: "newest_at xs k (bm_get m k)" for k
    using assms by (simp_all add: newest_selected_def)
  let ?v = "bm_get m (hb_node_id x)"
  have same: "bm_get m' (hb_node_id x) =
      (case ?v of None \<Rightarrow> Some x | Some ob \<Rightarrow> if heartbeat_rank ob < heartbeat_rank x then Some x else Some ob)"
    using ok by (auto simp: select_heartbeat_Ok bm.get_insert [OF inv] split: option.splits)
  have other: "bm_get m' k = bm_get m k" if "hb_node_id x \<noteq> k" for k
    using ok that by (auto simp: select_heartbeat_Ok bm.get_insert [OF inv] split: option.splits)
  have "newest_at (xs @ [x]) (hb_node_id x) (bm_get m' (hb_node_id x))"
    unfolding same using ok by (intro newest_at_same at) (simp add: select_heartbeat_Ok)
  then have "newest_at (xs @ [x]) k (bm_get m' k)" for k
    using newest_at_other [OF at] other by (cases "hb_node_id x = k") auto
  moreover have "bm_invar m'"
    using ok inv bm.invar_insert [OF inv] by (auto simp: select_heartbeat_Ok split: option.splits)
  ultimately show ?thesis by (simp add: newest_selected_def)
qed

lemma select_heartbeats_loop:
  "(for_each select_heartbeat xs [] = Ok m \<longrightarrow> newest_selected xs m \<and> consistent_heartbeats xs) \<and>
   (consistent_heartbeats xs \<longrightarrow> (\<exists>m. for_each select_heartbeat xs [] = Ok m))"
proof (induction xs arbitrary: m rule: rev_induct)
  case Nil
  then show ?case
    by (simp add: newest_selected_def consistent_heartbeats_def bm.invar_empty bm.get_empty)
next
  case (snoc x xs)
  have cons: "consistent_heartbeats (xs @ [x]) \<longleftrightarrow> consistent_heartbeats xs \<and>
      \<not> is_blank (hb_node_id x) \<and> \<not> is_blank (hb_device_id x) \<and>
      (\<forall>y \<in> set xs. hb_node_id y = hb_node_id x \<longrightarrow> same_device y x)"
    by (auto simp: consistent_heartbeats_def same_device_sym)
  have one: "for_each select_heartbeat (xs @ [x]) [] =
      and_then (for_each select_heartbeat xs []) (select_heartbeat x)"
    by (simp add: for_each_append and_then_def split: sum.splits)
  show ?case
  proof (cases "for_each select_heartbeat xs []")
    case (Inl e)
    with snoc.IH show ?thesis by (simp add: one cons)
  next
    case (Inr m0)
    with snoc.IH have m0: "newest_selected xs m0" "consistent_heartbeats xs" by simp_all
    from select_heartbeat_devices [OF m0(1)] select_heartbeat_newest [OF m0(1)] m0(2) Inr
    show ?thesis by (simp add: one cons) (simp add: select_heartbeat_Ok)
  qed
qed

lemma add_known_nodes_loop:
  "for_each add_known_node ks acc =
     (if \<exists>k \<in> set ks. is_blank k then Err (LivenessBlankIdentity ''known node_id'')
      else Ok (fold bs_insert ks acc))"
  by (induction ks arbitrary: acc) (auto simp: add_known_node_def)

lemma fold_bs_insert_cong:
  assumes "bs_invar acc" and "set xs = set ys"
  shows "fold bs_insert xs acc = fold bs_insert ys acc"
  using fold_bs_insert [OF assms(1)] assms(2)
  by (intro sorted_distinct_set_unique) (auto simp: bs_invar_def strict_sorted_iff)

lemma bs_collect_invar: "bs_invar (bs_collect xs)" "set (bs_collect xs) = set xs"
  by (simp_all add: bs_collect_sort_dedup bs_invar_def strict_sorted_sort_dedup)

lemma classify_node_liveness_Ok:
  assumes "classify_node_liveness obs known pol now = Ok rs"
  obtains selected where "newest_selected (sort_key heartbeat_key obs) selected"
    and "consistent_heartbeats obs" and "\<not> (\<exists>k \<in> set known. is_blank k)"
    and "lp_live_within_ms pol < lp_silent_after_ms pol"
    and "rs = map (report_liveness pol now selected) (fold bs_insert known (bs_collect (bm_keys selected)))"
proof -
  have "consistent_heartbeats (sort_key heartbeat_key obs) = consistent_heartbeats obs"
    by (simp add: consistent_heartbeats_def list_all_iff)
  moreover obtain m where m: "for_each select_heartbeat (sort_key heartbeat_key obs) [] = Ok m"
    and rest: "\<not> (\<exists>k \<in> set known. is_blank k)" "lp_live_within_ms pol < lp_silent_after_ms pol"
      "rs = map (report_liveness pol now m) (fold bs_insert known (bs_collect (bm_keys m)))"
    using assms
    by (auto simp: classify_node_liveness_def result_ok add_known_nodes_loop not_le split: if_splits)
  ultimately show thesis
    using that [OF _ _ rest] m select_heartbeats_loop [of "sort_key heartbeat_key obs" m] by blast
qed

section \<open>Properties\<close>

text \<open>
  The classification depends on the multiset of observations and on the set of known nodes
  only: reordering the heartbeats, or reordering and repeating the known nodes, changes neither
  the reports nor the error.
\<close>

theorem classify_node_liveness_order_independent:
  assumes "mset obs1 = mset obs2" and "set known1 = set known2"
  shows "classify_node_liveness obs1 known1 pol now = classify_node_liveness obs2 known2 pol now"
proof -
  have "for_each add_known_node known1 (bs_collect ks) = for_each add_known_node known2 (bs_collect ks)" for ks
    using assms(2) fold_bs_insert_cong [OF bs_collect_invar(1) assms(2)]
    by (simp add: add_known_nodes_loop)
  then show ?thesis
    unfolding classify_node_liveness_def sort_key_perm_eq [OF heartbeat_key_inj assms(1)] by simp
qed

definition example_heartbeat :: "string \<Rightarrow> string \<Rightarrow> u64 \<Rightarrow> heartbeat_observation" where
  "example_heartbeat node device at =
     \<lparr>hb_node_id = lit node, hb_device_id = lit device, hb_issued_at_unix_ms = at,
      hb_fence_epoch = 1, hb_running_attempts = 0\<rparr>"

theorem classify_node_liveness_order_independent_witness:
  "classify_node_liveness [example_heartbeat ''n'' ''d1'' 5, example_heartbeat ''n'' ''d2'' 7]
     [lit ''x'', lit ''n''] \<lparr>lp_live_within_ms = 30, lp_silent_after_ms = 90\<rparr> 50 =
   classify_node_liveness [example_heartbeat ''n'' ''d2'' 7, example_heartbeat ''n'' ''d1'' 5]
     [lit ''n'', lit ''x'', lit ''n''] \<lparr>lp_live_within_ms = 30, lp_silent_after_ms = 90\<rparr> 50"
  by (rule classify_node_liveness_order_independent) (auto simp: add_mset_commute)

text \<open>
  no node disappears and none is misjudged. When a classification is returned, its reports
  are in strictly increasing order of node id and cover exactly the observed and the known
  nodes; the selected observation is one of that node's and none of its observations is newer;
  there is none exactly when the node was never observed; and the verdict is \<open>Live\<close>,
  \<open>Suspect\<close> or \<open>Silent\<close> by the time since that observation, counted as zero when the
  observation lies in the future.
\<close>

theorem classify_node_liveness_correct:
  assumes "classify_node_liveness obs known pol now = Ok rs"
  shows "sorted_wrt (<) (map nl_node_id rs) \<and>
     set (map nl_node_id rs) = hb_node_id ` set obs \<union> set known \<and>
     (\<forall>r \<in> set rs. newest_at obs (nl_node_id r) (nl_selected r) \<and>
        nl_silence_ms r = map_option (\<lambda>ob. saturating_sub now (hb_issued_at_unix_ms ob)) (nl_selected r) \<and>
        nl_liveness r = (case nl_selected r of
            None \<Rightarrow> NoObservation
          | Some ob \<Rightarrow> let silence = unat now - unat (hb_issued_at_unix_ms ob) in
              if silence \<le> unat (lp_live_within_ms pol) then Live
              else if silence < unat (lp_silent_after_ms pol) then Suspect else Silent))"
proof -
  obtain m where m: "newest_selected (sort_key heartbeat_key obs) m"
    and rs: "rs = map (report_liveness pol now m) (fold bs_insert known (bs_collect (bm_keys m)))"
    using classify_node_liveness_Ok [OF assms] by metis
  let ?all = "fold bs_insert known (bs_collect (bm_keys m))"
  have "bs_invar ?all \<and> set ?all = set (bm_keys m) \<union> set known"
    using fold_bs_insert [OF bs_collect_invar(1)] by (simp add: bs_collect_invar)
  moreover have id: "nl_node_id (report_liveness pol now m k) = k" for k
    by (simp add: report_liveness_def Let_def split: option.splits)
  moreover have at: "newest_at obs k (bm_get m k)" for k
    using m by (cases "bm_get m k") (auto simp: newest_selected_def dest!: spec [of _ k])
  moreover have "set (bm_keys m) = hb_node_id ` set obs"
  proof -
    have "set (bm_keys m) = dom (bm_get m)"
      using bm.set_keys [of m] m by (simp add: newest_selected_def bm_keys_def bm_entries_def)
    also have "\<dots> = hb_node_id ` set obs"
    proof (intro set_eqI)
      show "k \<in> dom (bm_get m) \<longleftrightarrow> k \<in> hb_node_id ` set obs" for k
        using at [of k] by (cases "bm_get m k") auto
    qed
    finally show ?thesis .
  qed
  moreover have sel: "nl_selected (report_liveness pol now m k) = bm_get m k" for k
    by (simp add: report_liveness_def Let_def split: option.splits)
  ultimately show ?thesis
    by (auto simp: rs o_def id sel at bs_invar_def)
       (auto simp: report_liveness_def Let_def word_le_nat_alt word_less_nat_alt unat_saturating_sub
         split: option.splits)
qed

theorem classify_node_liveness_correct_witness:
  "\<exists>rs. classify_node_liveness [example_heartbeat ''n'' ''d'' 5, example_heartbeat ''n'' ''d'' 7]
     [lit ''x''] \<lparr>lp_live_within_ms = 30, lp_silent_after_ms = 90\<rparr> 50 = Ok rs \<and>
     set (map nl_node_id rs) = {lit ''n'', lit ''x''}"
proof -
  have "\<exists>rs. classify_node_liveness [example_heartbeat ''n'' ''d'' 5, example_heartbeat ''n'' ''d'' 7]
     [lit ''x''] \<lparr>lp_live_within_ms = 30, lp_silent_after_ms = 90\<rparr> 50 = Ok rs"
    by (simp add: classify_node_liveness_def example_heartbeat_def heartbeat_key_def select_heartbeat_def
        heartbeat_rank_def is_blank_iff is_whitespace_def bm_get_def add_known_node_def)
  then obtain rs where rs: "classify_node_liveness
     [example_heartbeat ''n'' ''d'' 5, example_heartbeat ''n'' ''d'' 7]
     [lit ''x''] \<lparr>lp_live_within_ms = 30, lp_silent_after_ms = 90\<rparr> 50 = Ok rs" by blast
  from classify_node_liveness_correct [OF rs] rs show ?thesis
    by (auto simp: example_heartbeat_def)
qed

end
