(* ===== verification/Sched_Reassignment.thy ===== *)
theory Sched_Reassignment
  imports Rust_Collections "HOL-Library.FSet"
begin

text \<open>
  The reassignment gate, \<open>crates/scheduler/src/reassignment.rs\<close>: whether a job stranded on
  an unreachable node may be moved while the broker is silent. The function first rejects
  policies and inputs it cannot judge, then sorts and validates the neighbour reports, then
  collects every unmet condition. It is one long function in the source; here each block of it
  is a definition and \<open>evaluate_reassignment\<close> runs them in order.

  \<open>BTreeSet<u64>\<close> is a finite set that is iterated in increasing order. The error fields of
  type \<open>&'static str\<close> are HOL strings.
\<close>

section \<open>Data\<close>

datatype reassignment_model = PrivateTeam | PublicPool

fun assumes_mutual_trust :: "reassignment_model \<Rightarrow> bool" where
  "assumes_mutual_trust PrivateTeam = True"
| "assumes_mutual_trust PublicPool = False"

datatype partition_pause_enforcement = EnforcedByCaller | NotEnforcedYet

datatype neighbor_report_resolution = SignatureAndMembershipVerifiedByCaller | Unresolved

datatype fence_range_issuance = BrokerPreSignedVerifiedByCaller | Unproven

datatype receiving_node_consent = Granted | Withheld

datatype audit_record =
    Committed str str str u64
  | NotRecorded

record neighbor_unreachable_report =
  nr_reporter_node_id :: str
  nr_reporter_member_id :: str
  nr_unreachable_node_id :: str
  nr_observed_at_unix_ms :: u64
  nr_resolution :: neighbor_report_resolution

record reserved_fence_range =
  fr_first :: u64
  fr_last :: u64
  fr_already_used :: "u64 fset"
  fr_issuance :: fence_range_issuance
  fr_issued_for_job_id :: str
  fr_issued_for_attempt_id :: str

record reassignment_policy =
  rp_broker_silence_threshold_ms :: u64
  rp_private_team_required_reports :: u32
  rp_public_pool_required_reports :: u32
  rp_public_pool_enabled :: bool

record reassignment_request =
  rq_job_id :: str
  rq_attempt_id :: str
  rq_stranded_node_id :: str
  rq_stranded_member_id :: str
  rq_receiving_node_id :: str
  rq_receiving_member_id :: str
  rq_broker_silent_for_ms :: u64
  rq_original_lease_expires_at_unix_ms :: u64
  rq_partition_pause :: partition_pause_enforcement
  rq_neighbor_reports :: "neighbor_unreachable_report list"
  rq_receiving_consent :: receiving_node_consent
  rq_original_fence_epoch :: u64
  rq_proposed_fence_epoch :: u64
  rq_reserved_fence_range :: reserved_fence_range
  rq_audit_record :: audit_record
  rq_model :: reassignment_model
  rq_now_unix_ms :: u64

datatype unmet_condition =
    BrokerSilenceTooShort u64 u64
  | OriginalLeaseStillValid u64 u64
  | PartitionPauseNotEnforced
  | NotEnoughNeighborReports u32 u32
  | ReceivingNodeDidNotConsent
  | FenceEpochOutsideReservedRange u64 u64 u64
  | FenceEpochAlreadyUsed u64
  | FenceEpochNotAboveHighestSeen u64 u64
  | AuditRecordNotCommitted
  | PublicPoolReassignmentDisabled

datatype reassignment_input_error =
    NonCanonicalIdentifier string str
  | ReceivingNodeIsStrandedNode str
  | UnresolvedNeighborReport str
  | ConflictingReporterOwnership str str str
  | ReportTargetsAnotherNode str str str
  | ReportObservedInFuture str u64 u64
  | ReportFromBeneficiary str
  | ReportFromStrandedMember str
  | ReportFromStrandedNode str
  | ReportFromReceivingNode str
  | AmbiguousIdentifier string str str
  | AuditRecordDoesNotMatchRequest str str str u64
  | IdentifierIsNotUlidLength string usize
  | FenceRangeIssuedForAnotherAttempt str str
  | ReservedFenceRangeInverted u64 u64
  | ReservedFenceRangeNotAboveOriginal u64 u64
  | UnprovenFenceRange
  | AlreadyUsedEpochOutsideRange u64 u64 u64
  | BrokerSilenceThresholdIsZero
  | RequiredNeighborReportsIsZero
  | PublicPoolQuorumNotHigher u32 u32

datatype reassignment_decision =
    Allowed u64
  | Refused "unmet_condition list"

section \<open>Derived orders\<close>

fun unmet_key :: "unmet_condition \<Rightarrow> nat list" where
  "unmet_key (BrokerSilenceTooShort a b) = [0, unat a, unat b]"
| "unmet_key (OriginalLeaseStillValid a b) = [1, unat a, unat b]"
| "unmet_key PartitionPauseNotEnforced = [2]"
| "unmet_key (NotEnoughNeighborReports a b) = [3, unat a, unat b]"
| "unmet_key ReceivingNodeDidNotConsent = [4]"
| "unmet_key (FenceEpochOutsideReservedRange a b c) = [5, unat a, unat b, unat c]"
| "unmet_key (FenceEpochAlreadyUsed a) = [6, unat a]"
| "unmet_key (FenceEpochNotAboveHighestSeen a b) = [7, unat a, unat b]"
| "unmet_key AuditRecordNotCommitted = [8]"
| "unmet_key PublicPoolReassignmentDisabled = [9]"

fun resolution_index :: "neighbor_report_resolution \<Rightarrow> nat" where
  "resolution_index SignatureAndMembershipVerifiedByCaller = 0"
| "resolution_index Unresolved = 1"

definition neighbor_report_key :: "neighbor_unreachable_report \<Rightarrow> str \<times> str \<times> str \<times> u64 \<times> nat" where
  "neighbor_report_key r = (nr_reporter_node_id r, nr_reporter_member_id r, nr_unreachable_node_id r,
     nr_observed_at_unix_ms r, resolution_index (nr_resolution r))"

section \<open>Identifiers\<close>

definition require_canonical_identifier :: "str \<Rightarrow> string \<Rightarrow> reassignment_input_error + unit" where
  "require_canonical_identifier v field =
     reject_if (v = [] \<or> (\<exists>c \<in> set v. is_whitespace c) \<or> \<not> (\<forall>c \<in> set v. is_ascii_graphic c))
       (NonCanonicalIdentifier field v)"

definition ULID_LEN :: usize where
  "ULID_LEN = 26"

definition require_ulid_identifier :: "str \<Rightarrow> string \<Rightarrow> reassignment_input_error + unit" where
  "require_ulid_identifier v field =
     and_then (require_canonical_identifier v field) (\<lambda>_.
       reject_if (length v \<noteq> ULID_LEN) (IdentifierIsNotUlidLength field (length v)))"

datatype identity_match = Same | Ambiguous | Different

definition compare_identity :: "str \<Rightarrow> str \<Rightarrow> identity_match" where
  "compare_identity left right =
     (if left = right then Same else if eq_ignore_ascii_case left right then Ambiguous else Different)"

section \<open>Policy and request\<close>

definition check_policy :: "reassignment_policy \<Rightarrow> reassignment_input_error + unit" where
  "check_policy pol =
     and_then (reject_if (rp_broker_silence_threshold_ms pol = 0) BrokerSilenceThresholdIsZero) (\<lambda>_.
     and_then (reject_if (rp_private_team_required_reports pol = 0 \<or> rp_public_pool_required_reports pol = 0)
                 RequiredNeighborReportsIsZero) (\<lambda>_.
       reject_if (rp_public_pool_required_reports pol \<le> rp_private_team_required_reports pol)
         (PublicPoolQuorumNotHigher (rp_public_pool_required_reports pol) (rp_private_team_required_reports pol))))"

definition check_request_identities :: "reassignment_request \<Rightarrow> reassignment_input_error + unit" where
  "check_request_identities req =
     and_then (require_ulid_identifier (rq_job_id req) ''job_id'') (\<lambda>_.
     and_then (require_ulid_identifier (rq_attempt_id req) ''attempt_id'') (\<lambda>_.
     and_then (require_canonical_identifier (rq_stranded_node_id req) ''stranded_node_id'') (\<lambda>_.
     and_then (require_canonical_identifier (rq_stranded_member_id req) ''stranded_member_id'') (\<lambda>_.
     and_then (require_canonical_identifier (rq_receiving_node_id req) ''receiving_node_id'') (\<lambda>_.
     and_then (require_canonical_identifier (rq_receiving_member_id req) ''receiving_member_id'') (\<lambda>_.
       case compare_identity (rq_receiving_node_id req) (rq_stranded_node_id req) of
         Same \<Rightarrow> Err (ReceivingNodeIsStrandedNode (rq_stranded_node_id req))
       | Ambiguous \<Rightarrow> Err (AmbiguousIdentifier ''receiving_node_id'' (rq_stranded_node_id req) (rq_receiving_node_id req))
       | Different \<Rightarrow> Ok ()))))))"

text \<open>\<open>for (mine, theirs, field) in [...]\<close>: identifiers that differ in case only.\<close>

definition check_not_ambiguous :: "(str \<times> str \<times> string) list \<Rightarrow> reassignment_input_error + unit" where
  "check_not_ambiguous triples =
     for_each (\<lambda>(mine, theirs, field) _.
       reject_if (compare_identity mine theirs = Ambiguous) (AmbiguousIdentifier field mine theirs)) triples ()"

definition check_fence_range :: "reassignment_request \<Rightarrow> reassignment_input_error + unit" where
  "check_fence_range req =
     (let range = rq_reserved_fence_range req in
     and_then (require_ulid_identifier (fr_issued_for_job_id range) ''issued_for_job_id'') (\<lambda>_.
     and_then (require_ulid_identifier (fr_issued_for_attempt_id range) ''issued_for_attempt_id'') (\<lambda>_.
     and_then (check_not_ambiguous
       [(rq_job_id req, fr_issued_for_job_id range, ''issued_for_job_id''),
        (rq_attempt_id req, fr_issued_for_attempt_id range, ''issued_for_attempt_id'')]) (\<lambda>_.
     and_then (reject_if (fr_issued_for_job_id range \<noteq> rq_job_id req \<or>
                          fr_issued_for_attempt_id range \<noteq> rq_attempt_id req)
       (FenceRangeIssuedForAnotherAttempt (fr_issued_for_job_id range) (fr_issued_for_attempt_id range))) (\<lambda>_.
     and_then (reject_if (fr_first range > fr_last range)
       (ReservedFenceRangeInverted (fr_first range) (fr_last range))) (\<lambda>_.
     and_then (reject_if (fr_last range \<le> rq_original_fence_epoch req)
       (ReservedFenceRangeNotAboveOriginal (fr_last range) (rq_original_fence_epoch req))) (\<lambda>_.
     and_then (reject_if (fr_issuance range = Unproven) UnprovenFenceRange) (\<lambda>_.
       case find (\<lambda>used. used < fr_first range \<or> used > fr_last range)
              (sorted_list_of_fset (fr_already_used range)) of
         Some outside \<Rightarrow> Err (AlreadyUsedEpochOutsideRange outside (fr_first range) (fr_last range))
       | None \<Rightarrow> Ok ()))))))))"

definition check_audit_record :: "reassignment_request \<Rightarrow> reassignment_input_error + unit" where
  "check_audit_record req =
     (case rq_audit_record req of
        NotRecorded \<Rightarrow> Ok ()
      | Committed record_id job attempt fence \<Rightarrow>
          and_then (require_canonical_identifier record_id ''audit_record_id'') (\<lambda>_.
          and_then (require_ulid_identifier job ''recorded_job_id'') (\<lambda>_.
          and_then (require_ulid_identifier attempt ''recorded_attempt_id'') (\<lambda>_.
          and_then (check_not_ambiguous
            [(rq_job_id req, job, ''recorded_job_id''),
             (rq_attempt_id req, attempt, ''recorded_attempt_id'')]) (\<lambda>_.
            reject_if (job \<noteq> rq_job_id req \<or> attempt \<noteq> rq_attempt_id req \<or>
                       fence \<noteq> rq_proposed_fence_epoch req)
              (AuditRecordDoesNotMatchRequest record_id job attempt fence))))))"

section \<open>Neighbour reports\<close>

definition check_report_target ::
    "reassignment_request \<Rightarrow> neighbor_unreachable_report \<Rightarrow> reassignment_input_error + unit" where
  "check_report_target req report =
     and_then (require_canonical_identifier (nr_reporter_node_id report) ''reporter_node_id'') (\<lambda>_.
     and_then (require_canonical_identifier (nr_reporter_member_id report) ''reporter_member_id'') (\<lambda>_.
     and_then (require_canonical_identifier (nr_unreachable_node_id report) ''unreachable_node_id'') (\<lambda>_.
     and_then (reject_if (nr_resolution report = Unresolved)
       (UnresolvedNeighborReport (nr_reporter_member_id report))) (\<lambda>_.
     and_then (case compare_identity (nr_unreachable_node_id report) (rq_stranded_node_id req) of
         Same \<Rightarrow> Ok ()
       | Ambiguous \<Rightarrow> Err (AmbiguousIdentifier ''unreachable_node_id'' (rq_stranded_node_id req) (nr_unreachable_node_id report))
       | Different \<Rightarrow> Err (ReportTargetsAnotherNode (nr_reporter_member_id report)
                               (nr_unreachable_node_id report) (rq_stranded_node_id req))) (\<lambda>_.
       reject_if (nr_observed_at_unix_ms report > rq_now_unix_ms req)
         (ReportObservedInFuture (nr_reporter_member_id report) (nr_observed_at_unix_ms report) (rq_now_unix_ms req)))))))"

definition check_report_member ::
    "reassignment_request \<Rightarrow> neighbor_unreachable_report \<Rightarrow> reassignment_input_error + unit" where
  "check_report_member req report =
     for_each (\<lambda>(other, field) _.
       case compare_identity (nr_reporter_member_id report) other of
         Same \<Rightarrow> (if other = rq_receiving_member_id req
                      then Err (ReportFromBeneficiary (nr_reporter_member_id report))
                      else Err (ReportFromStrandedMember (nr_reporter_member_id report)))
       | Ambiguous \<Rightarrow> Err (AmbiguousIdentifier field other (nr_reporter_member_id report))
       | Different \<Rightarrow> Ok ())
       [(rq_receiving_member_id req, ''reporter_member_id/receiving_member_id''),
        (rq_stranded_member_id req, ''reporter_member_id/stranded_member_id'')] ()"

definition check_report_node ::
    "reassignment_request \<Rightarrow> neighbor_unreachable_report \<Rightarrow> reassignment_input_error + unit" where
  "check_report_node req report =
     for_each (\<lambda>(other, field, is_receiving) _.
       case compare_identity (nr_reporter_node_id report) other of
         Same \<Rightarrow> (if is_receiving then Err (ReportFromReceivingNode (nr_reporter_node_id report))
                      else Err (ReportFromStrandedNode (nr_reporter_node_id report)))
       | Ambiguous \<Rightarrow> Err (AmbiguousIdentifier field other (nr_reporter_node_id report))
       | Different \<Rightarrow> Ok ())
       [(rq_stranded_node_id req, ''reporter_node_id/stranded_node_id'', False),
        (rq_receiving_node_id req, ''reporter_node_id/receiving_node_id'', True)] ()"

definition check_report_owner ::
    "(str \<times> str) list \<Rightarrow> neighbor_unreachable_report \<Rightarrow> reassignment_input_error + unit" where
  "check_report_owner node_owner report =
     for_each (\<lambda>(node, member) _.
       if node \<noteq> nr_reporter_node_id report then Ok ()
       else case compare_identity member (nr_reporter_member_id report) of
              Same \<Rightarrow> Ok ()
            | Ambiguous \<Rightarrow> Err (AmbiguousIdentifier ''reporter_member_id'' member (nr_reporter_member_id report))
            | Different \<Rightarrow> Err (ConflictingReporterOwnership (nr_reporter_node_id report) member
                                    (nr_reporter_member_id report)))
       node_owner ()"

text \<open>One turn of the loop over the sorted reports; the state is
  \<open>(distinct_reporter_nodes, node_owner)\<close>.\<close>

definition process_report ::
    "reassignment_request \<Rightarrow> neighbor_unreachable_report \<Rightarrow> str list \<times> (str \<times> str) list
      \<Rightarrow> reassignment_input_error + str list \<times> (str \<times> str) list" where
  "process_report req report state =
     (case state of (distinct_reporter_nodes, node_owner) \<Rightarrow>
     and_then (check_report_target req report) (\<lambda>_.
     and_then (check_report_member req report) (\<lambda>_.
     and_then (check_report_node req report) (\<lambda>_.
     and_then (case find (\<lambda>seen. compare_identity seen (nr_reporter_node_id report) = Ambiguous)
                      distinct_reporter_nodes of
                 Some previous \<Rightarrow> Err (AmbiguousIdentifier ''reporter_node_id'' previous (nr_reporter_node_id report))
               | None \<Rightarrow> Ok ()) (\<lambda>_.
     and_then (check_report_owner node_owner report) (\<lambda>_.
       Ok (bs_insert (nr_reporter_node_id report) distinct_reporter_nodes,
           node_owner @ [(nr_reporter_node_id report, nr_reporter_member_id report)])))))))"

section \<open>The six conditions\<close>

definition required_reports :: "reassignment_policy \<Rightarrow> reassignment_model \<Rightarrow> u32" where
  "required_reports pol model =
     (case model of PrivateTeam \<Rightarrow> rp_private_team_required_reports pol
      | PublicPool \<Rightarrow> rp_public_pool_required_reports pol)"

definition highest_seen :: "reassignment_request \<Rightarrow> u64" where
  "highest_seen req =
     fold max (sorted_list_of_fset (fr_already_used (rq_reserved_fence_range req))) (rq_original_fence_epoch req)"

definition unmet_conditions ::
    "reassignment_request \<Rightarrow> reassignment_policy \<Rightarrow> usize \<Rightarrow> unmet_condition list" where
  "unmet_conditions req pol distinct_count =
     (let range = rq_reserved_fence_range req;
          proposed = rq_proposed_fence_epoch req;
          required = required_reports pol (rq_model req)
      in (if rq_broker_silent_for_ms req \<le> rp_broker_silence_threshold_ms pol
          then [BrokerSilenceTooShort (rq_broker_silent_for_ms req) (rp_broker_silence_threshold_ms pol)] else []) @
         (if rq_original_lease_expires_at_unix_ms req > rq_now_unix_ms req
          then [OriginalLeaseStillValid (rq_original_lease_expires_at_unix_ms req) (rq_now_unix_ms req)] else []) @
         (if rq_partition_pause req = NotEnforcedYet then [PartitionPauseNotEnforced] else []) @
         (if distinct_count < unat required
          then [NotEnoughNeighborReports (saturating_u32 distinct_count) required] else []) @
         (if rq_receiving_consent req = Withheld then [ReceivingNodeDidNotConsent] else []) @
         (if proposed < fr_first range \<or> proposed > fr_last range
          then [FenceEpochOutsideReservedRange proposed (fr_first range) (fr_last range)] else []) @
         (if proposed |\<in>| fr_already_used range then [FenceEpochAlreadyUsed proposed] else []) @
         (if proposed \<le> highest_seen req
          then [FenceEpochNotAboveHighestSeen proposed (highest_seen req)] else []) @
         (if rq_audit_record req = NotRecorded then [AuditRecordNotCommitted] else []) @
         (if \<not> assumes_mutual_trust (rq_model req) \<and> \<not> rp_public_pool_enabled pol
          then [PublicPoolReassignmentDisabled] else []))"

definition evaluate_reassignment ::
    "reassignment_request \<Rightarrow> reassignment_policy \<Rightarrow> reassignment_input_error + reassignment_decision" where
  "evaluate_reassignment req pol =
     and_then (check_policy pol) (\<lambda>_.
     and_then (check_request_identities req) (\<lambda>_.
     and_then (check_fence_range req) (\<lambda>_.
     and_then (check_audit_record req) (\<lambda>_.
     and_then (for_each (process_report req) (sort_key neighbor_report_key (rq_neighbor_reports req)) ([], [])) (\<lambda>(nodes, _).
       let unmet = unmet_conditions req pol (length nodes)
       in if unmet = [] then Ok (Allowed (rq_proposed_fence_epoch req))
          else Ok (Refused (remdups_adj (sort_key unmet_key unmet))))))))"

section \<open>Lemmas\<close>

definition canonical_identifier :: "str \<Rightarrow> bool" where
  "canonical_identifier v \<longleftrightarrow> v \<noteq> [] \<and> (\<forall>c \<in> set v. is_ascii_graphic c)"

lemma require_canonical_identifier_Ok:
  "require_canonical_identifier v f = Ok u \<longleftrightarrow> canonical_identifier v"
  by (auto simp: require_canonical_identifier_def canonical_identifier_def result_ok
      dest: ascii_graphic_not_whitespace)

lemma require_ulid_identifier_Ok:
  "require_ulid_identifier v f = Ok u \<longleftrightarrow> canonical_identifier v \<and> length v = ULID_LEN"
  by (auto simp: require_ulid_identifier_def require_canonical_identifier_Ok result_ok)

lemma compare_identity_simps [simp]:
  "compare_identity a b = Same \<longleftrightarrow> a = b"
  "compare_identity a b = Ambiguous \<longleftrightarrow> a \<noteq> b \<and> eq_ignore_ascii_case a b"
  "compare_identity a b = Different \<longleftrightarrow> \<not> eq_ignore_ascii_case a b"
  by (auto simp: compare_identity_def)

lemma identity_case_Ok:
  "(case m of Same \<Rightarrow> Err e | Ambiguous \<Rightarrow> Err e' | Different \<Rightarrow> Ok x) = Ok y \<longleftrightarrow> m = Different \<and> x = y"
  "(case m of Same \<Rightarrow> Ok x | Ambiguous \<Rightarrow> Err e | Different \<Rightarrow> Err e') = Ok y \<longleftrightarrow> m = Same \<and> x = y"
  by (cases m; simp)+

text \<open>A report that may be counted: about the stranded node, already observed, resolved by the
  caller, and from a machine and a member that are neither side of the move, even up to case.\<close>

definition countable_report :: "reassignment_request \<Rightarrow> neighbor_unreachable_report \<Rightarrow> bool" where
  "countable_report req r \<longleftrightarrow>
     canonical_identifier (nr_reporter_node_id r) \<and> canonical_identifier (nr_reporter_member_id r) \<and>
     canonical_identifier (nr_unreachable_node_id r) \<and>
     nr_resolution r = SignatureAndMembershipVerifiedByCaller \<and>
     nr_unreachable_node_id r = rq_stranded_node_id req \<and>
     nr_observed_at_unix_ms r \<le> rq_now_unix_ms req \<and>
     \<not> eq_ignore_ascii_case (nr_reporter_member_id r) (rq_receiving_member_id req) \<and>
     \<not> eq_ignore_ascii_case (nr_reporter_member_id r) (rq_stranded_member_id req) \<and>
     \<not> eq_ignore_ascii_case (nr_reporter_node_id r) (rq_stranded_node_id req) \<and>
     \<not> eq_ignore_ascii_case (nr_reporter_node_id r) (rq_receiving_node_id req)"

text \<open>Two reports that can be told apart: no machine differs from another in case only, and a
  machine has one owner.\<close>

definition compatible_reports :: "neighbor_unreachable_report \<Rightarrow> neighbor_unreachable_report \<Rightarrow> bool" where
  "compatible_reports a b \<longleftrightarrow>
     (if nr_reporter_node_id a = nr_reporter_node_id b
      then nr_reporter_member_id a = nr_reporter_member_id b
      else \<not> eq_ignore_ascii_case (nr_reporter_node_id a) (nr_reporter_node_id b))"

lemma check_report_Ok:
  "check_report_target req r = Ok () \<and> check_report_member req r = Ok () \<and> check_report_node req r = Ok () \<longleftrightarrow>
     countable_report req r"
proof -
  have "nr_resolution r \<noteq> Unresolved \<longleftrightarrow> nr_resolution r = SignatureAndMembershipVerifiedByCaller"
    by (cases "nr_resolution r") simp_all
  moreover have "check_report_member req r = Ok () \<longleftrightarrow>
     \<not> eq_ignore_ascii_case (nr_reporter_member_id r) (rq_receiving_member_id req) \<and>
     \<not> eq_ignore_ascii_case (nr_reporter_member_id r) (rq_stranded_member_id req)"
    by (simp add: check_report_member_def compare_identity_def)
  moreover have "check_report_node req r = Ok () \<longleftrightarrow>
     \<not> eq_ignore_ascii_case (nr_reporter_node_id r) (rq_stranded_node_id req) \<and>
     \<not> eq_ignore_ascii_case (nr_reporter_node_id r) (rq_receiving_node_id req)"
    by (simp add: check_report_node_def compare_identity_def)
  moreover have "check_report_target req r = Ok () \<longleftrightarrow>
     canonical_identifier (nr_reporter_node_id r) \<and> canonical_identifier (nr_reporter_member_id r) \<and>
     canonical_identifier (nr_unreachable_node_id r) \<and> nr_resolution r \<noteq> Unresolved \<and>
     nr_unreachable_node_id r = rq_stranded_node_id req \<and> nr_observed_at_unix_ms r \<le> rq_now_unix_ms req"
    by (simp add: check_report_target_def result_ok require_canonical_identifier_Ok
        identity_case_Ok not_less)
  ultimately show ?thesis by (simp add: countable_report_def)
qed

lemma check_report_owner_Ok:
  "check_report_owner owners r = Ok () \<longleftrightarrow>
     (\<forall>(n, m) \<in> set owners. n = nr_reporter_node_id r \<longrightarrow> m = nr_reporter_member_id r)"
proof -
  have "check_report_owner owners r = Ok () \<longleftrightarrow>
      (\<forall>x \<in> set owners. (case x of (n, m) \<Rightarrow> if n \<noteq> nr_reporter_node_id r then Ok ()
         else case compare_identity m (nr_reporter_member_id r) of
              Same \<Rightarrow> Ok ()
            | Ambiguous \<Rightarrow> Err (AmbiguousIdentifier ''reporter_member_id'' m (nr_reporter_member_id r))
            | Different \<Rightarrow> Err (ConflictingReporterOwnership (nr_reporter_node_id r) m
                                    (nr_reporter_member_id r))) = Ok ())"
    unfolding check_report_owner_def
    by (subst for_each_unit_Ok [symmetric]) (simp add: case_prod_unfold cong: if_cong)
  then show ?thesis by (auto simp: identity_case_Ok split: if_splits)
qed

lemma process_report_Ok:
  "process_report req r (nodes, owners) = Ok s \<longleftrightarrow>
     countable_report req r \<and>
     (\<forall>n \<in> set nodes. n = nr_reporter_node_id r \<or> \<not> eq_ignore_ascii_case n (nr_reporter_node_id r)) \<and>
     (\<forall>(n, m) \<in> set owners. n = nr_reporter_node_id r \<longrightarrow> m = nr_reporter_member_id r) \<and>
     s = (bs_insert (nr_reporter_node_id r) nodes, owners @ [(nr_reporter_node_id r, nr_reporter_member_id r)])"
proof -
  have amb: "(case find P nodes of Some p \<Rightarrow> Err (e p) | None \<Rightarrow> Ok ()) = Ok () \<longleftrightarrow> (\<forall>n \<in> set nodes. \<not> P n)" for P e
    by (auto simp: find_None_iff find_Some_iff split: option.splits)
  show ?thesis
    by (simp add: process_report_def result_ok amb check_report_owner_Ok flip: check_report_Ok) blast
qed

definition owner_agrees :: "(str \<times> str) list \<Rightarrow> neighbor_unreachable_report \<Rightarrow> bool" where
  "owner_agrees owners r \<longleftrightarrow>
     (\<forall>(n, m) \<in> set owners.
        if n = nr_reporter_node_id r then m = nr_reporter_member_id r
        else \<not> eq_ignore_ascii_case n (nr_reporter_node_id r))"

lemma owner_agrees_append:
  "owner_agrees (owners @ [(nr_reporter_node_id r, nr_reporter_member_id r)]) r' \<longleftrightarrow>
     owner_agrees owners r' \<and> compatible_reports r r'"
  by (auto simp: owner_agrees_def compatible_reports_def)

lemma process_report_owner_agrees:
  assumes "set nodes = fst ` set owners"
  shows "process_report req r (nodes, owners) = Ok s \<longleftrightarrow>
     countable_report req r \<and> owner_agrees owners r \<and>
     s = (bs_insert (nr_reporter_node_id r) nodes, owners @ [(nr_reporter_node_id r, nr_reporter_member_id r)])"
  unfolding process_report_Ok owner_agrees_def using assms by (auto split: if_splits)

lemma process_reports_loop:
  assumes "set nodes = fst ` set owners"
  shows "for_each (process_report req) rs (nodes, owners) = Ok s \<longleftrightarrow>
     list_all (countable_report req) rs \<and> sorted_wrt compatible_reports rs \<and>
     list_all (owner_agrees owners) rs \<and>
     s = (fold bs_insert (map nr_reporter_node_id rs) nodes,
          owners @ map (\<lambda>r. (nr_reporter_node_id r, nr_reporter_member_id r)) rs)"
  using assms
proof (induction rs arbitrary: nodes owners)
  case Nil
  then show ?case by auto
next
  case (Cons r rs)
  let ?nodes = "bs_insert (nr_reporter_node_id r) nodes"
  let ?owners = "owners @ [(nr_reporter_node_id r, nr_reporter_member_id r)]"
  have "set ?nodes = fst ` set ?owners" using Cons.prems by simp
  from Cons.IH [OF this] show ?case
    by (auto simp: and_then_Ok process_report_owner_agrees [OF Cons.prems] owner_agrees_append list_all_iff)
qed

lemma sorted_wrt_symmetric:
  assumes "\<And>x y. P x y \<Longrightarrow> P y x" and "\<And>x. P x x"
  shows "sorted_wrt P xs \<longleftrightarrow> (\<forall>x \<in> set xs. \<forall>y \<in> set xs. P x y)"
  using assms by (induction xs) auto

lemma compatible_reports_symmetric:
  "sorted_wrt compatible_reports rs \<longleftrightarrow> (\<forall>a \<in> set rs. \<forall>b \<in> set rs. compatible_reports a b)"
  by (rule sorted_wrt_symmetric) (auto simp: compatible_reports_def eq_ignore_ascii_case_sym split: if_splits)

definition countable_reports :: "reassignment_request \<Rightarrow> bool" where
  "countable_reports req \<longleftrightarrow>
     (\<forall>r \<in> set (rq_neighbor_reports req). countable_report req r) \<and>
     (\<forall>a \<in> set (rq_neighbor_reports req). \<forall>b \<in> set (rq_neighbor_reports req). compatible_reports a b)"

definition reporting_machines :: "reassignment_request \<Rightarrow> nat" where
  "reporting_machines req = card (nr_reporter_node_id ` set (rq_neighbor_reports req))"

lemma length_fold_bs_insert: "length (fold bs_insert xs []) = card (set xs)"
proof -
  have "bs_invar (fold bs_insert xs []) \<and> set (fold bs_insert xs []) = set xs"
    using fold_bs_insert [of "[]" xs] by (simp add: bs_invar_def)
  then show ?thesis using distinct_card [of "fold bs_insert xs []"] by (simp add: bs_invar_def strict_sorted_iff)
qed

lemma process_reports_Ok:
  "for_each (process_report req) (sort_key neighbor_report_key (rq_neighbor_reports req)) ([], []) = Ok (nodes, owners)
   \<Longrightarrow> countable_reports req \<and> length nodes = reporting_machines req"
  by (subst (asm) process_reports_loop)
     (auto simp: countable_reports_def compatible_reports_symmetric list_all_iff reporting_machines_def
       length_fold_bs_insert owner_agrees_def)

lemma process_reports_complete:
  "countable_reports req \<Longrightarrow>
   \<exists>nodes owners. for_each (process_report req) (sort_key neighbor_report_key (rq_neighbor_reports req)) ([], [])
     = Ok (nodes, owners)"
  by (subst process_reports_loop)
     (auto simp: countable_reports_def compatible_reports_symmetric list_all_iff owner_agrees_def)

lemma neighbor_report_key_inj: "inj_on neighbor_report_key (A :: neighbor_unreachable_report set)"
proof (rule inj_onI)
  fix a b :: neighbor_unreachable_report
  assume "neighbor_report_key a = neighbor_report_key b"
  moreover have "resolution_index x = resolution_index y \<Longrightarrow> x = y" for x y
    by (cases x; cases y; simp)
  ultimately show "a = b"
    by (intro neighbor_unreachable_report.equality) (simp_all add: neighbor_report_key_def)
qed

section \<open>The specification of the gate\<close>

text \<open>An input the kernel can judge.\<close>

definition judgeable :: "reassignment_request \<Rightarrow> reassignment_policy \<Rightarrow> bool" where
  "judgeable req pol \<longleftrightarrow>
     (let range = rq_reserved_fence_range req in
     0 < rp_broker_silence_threshold_ms pol \<and> 0 < rp_private_team_required_reports pol \<and>
     rp_private_team_required_reports pol < rp_public_pool_required_reports pol \<and>
     canonical_identifier (rq_job_id req) \<and> length (rq_job_id req) = ULID_LEN \<and>
     canonical_identifier (rq_attempt_id req) \<and> length (rq_attempt_id req) = ULID_LEN \<and>
     canonical_identifier (rq_stranded_node_id req) \<and> canonical_identifier (rq_stranded_member_id req) \<and>
     canonical_identifier (rq_receiving_node_id req) \<and> canonical_identifier (rq_receiving_member_id req) \<and>
     \<not> eq_ignore_ascii_case (rq_receiving_node_id req) (rq_stranded_node_id req) \<and>
     fr_issued_for_job_id range = rq_job_id req \<and> fr_issued_for_attempt_id range = rq_attempt_id req \<and>
     fr_first range \<le> fr_last range \<and> rq_original_fence_epoch req < fr_last range \<and>
     fr_issuance range = BrokerPreSignedVerifiedByCaller \<and>
     (\<forall>used. used |\<in>| fr_already_used range \<longrightarrow> fr_first range \<le> used \<and> used \<le> fr_last range) \<and>
     (case rq_audit_record req of
        NotRecorded \<Rightarrow> True
      | Committed record_id job attempt fence \<Rightarrow>
          canonical_identifier record_id \<and> job = rq_job_id req \<and> attempt = rq_attempt_id req \<and>
          fence = rq_proposed_fence_epoch req) \<and>
     countable_reports req)"

text \<open>The six conditions of the decision record, and the gate of the public pool.\<close>

definition six_conditions :: "reassignment_request \<Rightarrow> reassignment_policy \<Rightarrow> bool" where
  "six_conditions req pol \<longleftrightarrow>
     (let range = rq_reserved_fence_range req; proposed = rq_proposed_fence_epoch req in
     rp_broker_silence_threshold_ms pol < rq_broker_silent_for_ms req \<and>
     rq_original_lease_expires_at_unix_ms req \<le> rq_now_unix_ms req \<and>
     rq_partition_pause req = EnforcedByCaller \<and>
     unat (required_reports pol (rq_model req)) \<le> reporting_machines req \<and>
     rq_receiving_consent req = Granted \<and>
     fr_first range \<le> proposed \<and> proposed \<le> fr_last range \<and>
     rq_original_fence_epoch req < proposed \<and>
     (\<forall>used. used |\<in>| fr_already_used range \<longrightarrow> used < proposed) \<and>
     rq_audit_record req \<noteq> NotRecorded \<and>
     (rq_model req = PublicPool \<longrightarrow> rp_public_pool_enabled pol))"

lemma check_policy_Ok:
  "check_policy pol = Ok u \<longleftrightarrow>
     0 < rp_broker_silence_threshold_ms pol \<and> 0 < rp_private_team_required_reports pol \<and>
     rp_private_team_required_reports pol < rp_public_pool_required_reports pol"
  by (auto simp: check_policy_def result_ok not_le word_neq_0_conv)

lemma check_request_identities_Ok:
  "check_request_identities req = Ok u \<longleftrightarrow>
     canonical_identifier (rq_job_id req) \<and> length (rq_job_id req) = ULID_LEN \<and>
     canonical_identifier (rq_attempt_id req) \<and> length (rq_attempt_id req) = ULID_LEN \<and>
     canonical_identifier (rq_stranded_node_id req) \<and> canonical_identifier (rq_stranded_member_id req) \<and>
     canonical_identifier (rq_receiving_node_id req) \<and> canonical_identifier (rq_receiving_member_id req) \<and>
     \<not> eq_ignore_ascii_case (rq_receiving_node_id req) (rq_stranded_node_id req)"
  by (simp add: check_request_identities_def result_ok require_canonical_identifier_Ok
      require_ulid_identifier_Ok identity_case_Ok)

lemma check_not_ambiguous_Ok:
  "check_not_ambiguous [(a, b, f), (c, d, g)] = Ok u \<longleftrightarrow>
     (a \<noteq> b \<longrightarrow> \<not> eq_ignore_ascii_case a b) \<and> (c \<noteq> d \<longrightarrow> \<not> eq_ignore_ascii_case c d)"
  by (auto simp: check_not_ambiguous_def result_ok)

lemma check_fence_range_Ok:
  assumes "canonical_identifier (rq_job_id req)" "length (rq_job_id req) = ULID_LEN"
    "canonical_identifier (rq_attempt_id req)" "length (rq_attempt_id req) = ULID_LEN"
  shows "check_fence_range req = Ok u \<longleftrightarrow>
     (let range = rq_reserved_fence_range req in
     fr_issued_for_job_id range = rq_job_id req \<and> fr_issued_for_attempt_id range = rq_attempt_id req \<and>
     fr_first range \<le> fr_last range \<and> rq_original_fence_epoch req < fr_last range \<and>
     fr_issuance range = BrokerPreSignedVerifiedByCaller \<and>
     (\<forall>used. used |\<in>| fr_already_used range \<longrightarrow> fr_first range \<le> used \<and> used \<le> fr_last range))"
proof -
  have issuance: "x \<noteq> Unproven \<longleftrightarrow> x = BrokerPreSignedVerifiedByCaller" for x
    by (cases x) simp_all
  have scan: "(case find P (sorted_list_of_fset s) of Some x \<Rightarrow> Err (e x) | None \<Rightarrow> Ok ()) = Ok u \<longleftrightarrow>
      (\<forall>x. x |\<in>| s \<longrightarrow> \<not> P x)" for P s and e :: "u64 \<Rightarrow> reassignment_input_error"
    by (auto simp: find_None_iff find_Some_iff split: option.splits) (metis nth_mem sorted_list_of_fset_simps(1))
  have equal: "((a \<noteq> b \<longrightarrow> \<not> eq_ignore_ascii_case a b) \<and> (c \<noteq> d \<longrightarrow> \<not> eq_ignore_ascii_case c d)) \<and>
      \<not> (b \<noteq> a \<or> d \<noteq> c) \<longleftrightarrow> b = a \<and> d = c" for a b c d by auto
  show ?thesis
    unfolding check_fence_range_def Let_def and_then_Ok reject_if_Ok require_ulid_identifier_Ok
      check_not_ambiguous_Ok scan issuance
    using assms by (auto simp: not_less not_le)
qed

lemma check_audit_record_Ok:
  assumes "canonical_identifier (rq_job_id req)" "length (rq_job_id req) = ULID_LEN"
    "canonical_identifier (rq_attempt_id req)" "length (rq_attempt_id req) = ULID_LEN"
  shows "check_audit_record req = Ok u \<longleftrightarrow>
     (case rq_audit_record req of
        NotRecorded \<Rightarrow> True
      | Committed record_id job attempt fence \<Rightarrow>
          canonical_identifier record_id \<and> job = rq_job_id req \<and> attempt = rq_attempt_id req \<and>
          fence = rq_proposed_fence_epoch req)"
  using assms
  by (auto simp: check_audit_record_def and_then_Ok reject_if_Ok require_ulid_identifier_Ok
      require_canonical_identifier_Ok check_not_ambiguous_Ok split: audit_record.split)

lemma fold_max_less: "fold max xs a < (b :: 'a::linorder) \<longleftrightarrow> a < b \<and> (\<forall>x \<in> set xs. x < b)"
  by (induction xs arbitrary: a) auto

lemma highest_seen_less:
  "highest_seen req < e \<longleftrightarrow> rq_original_fence_epoch req < e \<and>
     (\<forall>used. used |\<in>| fr_already_used (rq_reserved_fence_range req) \<longrightarrow> used < e)"
  by (auto simp: highest_seen_def fold_max_less)

lemma unmet_conditions_Nil: "unmet_conditions req pol (reporting_machines req) = [] \<longleftrightarrow> six_conditions req pol"
proof -
  have "rq_partition_pause req \<noteq> NotEnforcedYet \<longleftrightarrow> rq_partition_pause req = EnforcedByCaller"
    by (cases "rq_partition_pause req") simp_all
  moreover have "rq_receiving_consent req \<noteq> Withheld \<longleftrightarrow> rq_receiving_consent req = Granted"
    by (cases "rq_receiving_consent req") simp_all
  moreover have "assumes_mutual_trust (rq_model req) \<longleftrightarrow> rq_model req \<noteq> PublicPool"
    by (cases "rq_model req") simp_all
  moreover have "rq_proposed_fence_epoch req \<le> highest_seen req \<longleftrightarrow>
      \<not> (rq_original_fence_epoch req < rq_proposed_fence_epoch req \<and>
         (\<forall>used. used |\<in>| fr_already_used (rq_reserved_fence_range req) \<longrightarrow> used < rq_proposed_fence_epoch req))"
    by (simp add: not_less flip: highest_seen_less)
  ultimately show ?thesis
    by (auto simp: unmet_conditions_def six_conditions_def Let_def not_less)
qed

lemma evaluate_reassignment_Ok:
  "(\<exists>d. evaluate_reassignment req pol = Ok d) \<longleftrightarrow> judgeable req pol"
  "judgeable req pol \<Longrightarrow> evaluate_reassignment req pol =
     (if six_conditions req pol then Ok (Allowed (rq_proposed_fence_epoch req))
      else Ok (Refused (remdups_adj (sort_key unmet_key (unmet_conditions req pol (reporting_machines req))))))"
proof -
  have parts: "judgeable req pol \<longleftrightarrow>
     check_policy pol = Ok () \<and> check_request_identities req = Ok () \<and> check_fence_range req = Ok () \<and>
     check_audit_record req = Ok () \<and> countable_reports req"
    by (auto simp: judgeable_def Let_def check_policy_Ok check_request_identities_Ok
        check_fence_range_Ok check_audit_record_Ok)
  show eval: "judgeable req pol \<Longrightarrow> evaluate_reassignment req pol =
     (if six_conditions req pol then Ok (Allowed (rq_proposed_fence_epoch req))
      else Ok (Refused (remdups_adj (sort_key unmet_key (unmet_conditions req pol (reporting_machines req))))))"
    using process_reports_complete [of req] process_reports_Ok [of req]
    by (fastforce simp: parts evaluate_reassignment_def unmet_conditions_Nil)
  show "(\<exists>d. evaluate_reassignment req pol = Ok d) \<longleftrightarrow> judgeable req pol"
  proof
    assume "\<exists>d. evaluate_reassignment req pol = Ok d"
    then show "judgeable req pol"
      by (auto simp: parts evaluate_reassignment_def and_then_Ok dest!: process_reports_Ok)
  next
    assume "judgeable req pol"
    from eval [OF this] show "\<exists>d. evaluate_reassignment req pol = Ok d" by auto
  qed
qed

section \<open>Properties\<close>

text \<open>
  C1: the gate opens exactly when it may. A reassignment is allowed, under the proposed fence
  epoch and no other, if and only if the input can be judged at all (canonical identifiers,
  policy that erases no condition, a pre-signed fence range of this very attempt, an audit
  record of this very move, reports that are resolved, about the stranded node, not from the
  future and not from either side of the move) and all six conditions hold: the broker has been
  silent for longer than the threshold, the lease has expired and the pause is enforced, enough
  distinct machines reported, the receiver consented, the epoch lies in the range above the
  original epoch and above every epoch used before, and the audit record is committed; on a
  public pool the path must be enabled.
\<close>

theorem evaluate_reassignment_allowed_iff:
  "evaluate_reassignment req pol = Ok (Allowed e) \<longleftrightarrow>
     e = rq_proposed_fence_epoch req \<and> judgeable req pol \<and> six_conditions req pol"
proof (cases "judgeable req pol")
  case True
  then show ?thesis by (auto simp: evaluate_reassignment_Ok(2))
next
  case False
  then show ?thesis using evaluate_reassignment_Ok(1) [of req pol] by auto
qed

text \<open>
  Neither the decision nor the error depends on the order in which the neighbour reports
  are listed.
\<close>

theorem evaluate_reassignment_order_independent:
  assumes "mset rs1 = mset rs2"
  shows "evaluate_reassignment (req\<lparr>rq_neighbor_reports := rs1\<rparr>) pol =
         evaluate_reassignment (req\<lparr>rq_neighbor_reports := rs2\<rparr>) pol"
proof -
  let ?upd = "\<lambda>rs. req\<lparr>rq_neighbor_reports := rs\<rparr>"
  have "check_report_target (?upd rs) = check_report_target req"
    "check_report_member (?upd rs) = check_report_member req"
    "check_report_node (?upd rs) = check_report_node req" for rs
    by (intro ext; simp add: check_report_target_def check_report_member_def check_report_node_def
        del: for_each.simps cong: identity_match.case_cong)+
  then have loop: "process_report (?upd rs) = process_report req" for rs
    by (intro ext) (simp add: process_report_def)
  have checks: "check_request_identities (?upd rs) = check_request_identities req"
    "check_fence_range (?upd rs) = check_fence_range req"
    "check_audit_record (?upd rs) = check_audit_record req"
    "highest_seen (?upd rs) = highest_seen req" for rs
    by (simp_all add: check_request_identities_def check_fence_range_def check_audit_record_def
        highest_seen_def cong: identity_match.case_cong option.case_cong audit_record.case_cong)
  then have "unmet_conditions (?upd rs) pol n = unmet_conditions req pol n" for rs n
    by (simp add: unmet_conditions_def Let_def cong: if_cong)
  then show ?thesis
    by (simp add: evaluate_reassignment_def loop checks sort_key_perm_eq [OF neighbor_report_key_inj assms]
        Let_def cong: if_cong)
qed

definition example_reassignment :: "neighbor_unreachable_report list \<Rightarrow> reassignment_request" where
  "example_reassignment reports =
     (let job = replicate 26 65; attempt = replicate 26 66 in
     \<lparr>rq_job_id = job, rq_attempt_id = attempt,
      rq_stranded_node_id = lit ''n1'', rq_stranded_member_id = lit ''m1'',
      rq_receiving_node_id = lit ''n2'', rq_receiving_member_id = lit ''m2'',
      rq_broker_silent_for_ms = 500, rq_original_lease_expires_at_unix_ms = 900,
      rq_partition_pause = EnforcedByCaller, rq_neighbor_reports = reports,
      rq_receiving_consent = Granted, rq_original_fence_epoch = 100,
      rq_proposed_fence_epoch = 106,
      rq_reserved_fence_range = \<lparr>fr_first = 101, fr_last = 110, fr_already_used = {|105|},
        fr_issuance = BrokerPreSignedVerifiedByCaller, fr_issued_for_job_id = job,
        fr_issued_for_attempt_id = attempt\<rparr>,
      rq_audit_record = Committed (lit ''a'') job attempt 106,
      rq_model = PrivateTeam, rq_now_unix_ms = 1000\<rparr>)"

definition example_report :: "string \<Rightarrow> neighbor_unreachable_report" where
  "example_report node =
     \<lparr>nr_reporter_node_id = lit node, nr_reporter_member_id = lit ''m3'',
      nr_unreachable_node_id = lit ''n1'', nr_observed_at_unix_ms = 950,
      nr_resolution = SignatureAndMembershipVerifiedByCaller\<rparr>"

definition example_reassignment_policy :: reassignment_policy where
  "example_reassignment_policy =
     \<lparr>rp_broker_silence_threshold_ms = 400, rp_private_team_required_reports = 2,
      rp_public_pool_required_reports = 3, rp_public_pool_enabled = False\<rparr>"

theorem evaluate_reassignment_order_independent_witness:
  "evaluate_reassignment
     ((example_reassignment [])\<lparr>rq_neighbor_reports := [example_report ''n3'', example_report ''n4'']\<rparr>)
     example_reassignment_policy =
   evaluate_reassignment
     ((example_reassignment [])\<lparr>rq_neighbor_reports := [example_report ''n4'', example_report ''n3'']\<rparr>)
     example_reassignment_policy"
  by (rule evaluate_reassignment_order_independent) (simp add: add_mset_commute)

text \<open>The gate does open on some input.\<close>

lemma evaluate_reassignment_example:
  "evaluate_reassignment (example_reassignment [example_report ''n3'', example_report ''n4''])
     example_reassignment_policy = Ok (Allowed 106)"
  by (subst evaluate_reassignment_Ok(2);
      simp add: judgeable_def six_conditions_def example_reassignment_def
      example_reassignment_policy_def example_report_def Let_def canonical_identifier_def ULID_LEN_def
      countable_reports_def countable_report_def compatible_reports_def reporting_machines_def
      required_reports_def is_ascii_graphic_def eq_ignore_ascii_case_def to_ascii_lowercase_def)

end
