(* ===== verification/Ckpt_Replicas.thy ===== *)
theory Ckpt_Replicas
  imports Rust_Collections
begin

text \<open>
  The replica evaluator of the checkpoint crate, \<open>crates/checkpoint/src/durability.rs\<close>: which
  of the acknowledged copies of a checkpoint count towards its durability. A copy counts once
  per failure domain, and only when its holder is valid, it is not an ephemeral local copy and
  its failure domain is known. The marker files and the manifest of the same module need the
  file system layer and are not part of this theory.
\<close>

section \<open>Data\<close>

datatype replica_kind = WorkerLocal | SubmitterMirror | Hub | TrustedPeer | ExternalObjectStore

datatype 'a fact_resolution = FactResolved 'a | FactUnresolved | FactAmbiguous

datatype holder_validation =
  HvValid | HvInvalidSignature | HvNotApproved | HvMembershipUnresolved | HvMembershipAmbiguous

record resolved_holder_observation =
  ho_checkpoint_id :: str
  ho_root_digest :: str
  ho_holder_device_id :: str
  ho_acked_at_unix_ms :: u64
  ho_kind :: replica_kind
  ho_selected :: bool
  ho_holder_validation :: holder_validation
  ho_is_ephemeral :: "bool fact_resolution"
  ho_failure_domain :: "str fact_resolution"

record replica_evaluation_scope =
  es_checkpoint_id :: str
  es_root_digest :: str

datatype replica_exclusion_reason =
    InvalidSignature | HolderNotApproved | MembershipUnresolved | MembershipAmbiguous
  | EphemeralStatusUnresolved | EphemeralStatusAmbiguous | FailureDomainUnresolved
  | FailureDomainAmbiguous | EphemeralWorkerLocal | DuplicateFailureDomain str

record counted_replica =
  cr_observation :: resolved_holder_observation
  cr_failure_domain :: str

record excluded_replica =
  xr_observation :: resolved_holder_observation
  xr_reasons :: "replica_exclusion_reason list"

datatype durability = DurLocal | DurMirrored | DurReplicated

record effective_replica_report =
  rep_scope :: "replica_evaluation_scope option"
  rep_required :: durability
  rep_required_replica_count :: u32
  rep_effective_replica_count :: u32
  rep_requirement_met :: bool
  rep_counted :: "counted_replica list"
  rep_excluded :: "excluded_replica list"
  rep_superseded :: "resolved_holder_observation list"

datatype replica_evaluation_error =
    EmptyCheckpointId | EmptyRootDigest | EmptyHolderDeviceId
  | EmptyFailureDomain str u64
  | MixedEvaluationScope "(str \<times> str) list"
  | MultipleSelectedObservations str usize
  | ReplicaCountOverflow

fun required_replicas :: "durability \<Rightarrow> u32" where
  "required_replicas DurLocal = 0"
| "required_replicas DurMirrored = 1"
| "required_replicas DurReplicated = 2"

section \<open>Derived orders\<close>

fun replica_kind_index :: "replica_kind \<Rightarrow> nat" where
  "replica_kind_index WorkerLocal = 0" | "replica_kind_index SubmitterMirror = 1"
| "replica_kind_index Hub = 2" | "replica_kind_index TrustedPeer = 3"
| "replica_kind_index ExternalObjectStore = 4"

fun holder_validation_index :: "holder_validation \<Rightarrow> nat" where
  "holder_validation_index HvValid = 0" | "holder_validation_index HvInvalidSignature = 1"
| "holder_validation_index HvNotApproved = 2" | "holder_validation_index HvMembershipUnresolved = 3"
| "holder_validation_index HvMembershipAmbiguous = 4"

fun fact_key :: "('a \<Rightarrow> nat list) \<Rightarrow> 'a fact_resolution \<Rightarrow> nat list" where
  "fact_key f (FactResolved x) = 0 # f x"
| "fact_key f FactUnresolved = [1]"
| "fact_key f FactAmbiguous = [2]"

definition observation_key ::
    "resolved_holder_observation \<Rightarrow> str \<times> str \<times> str \<times> u64 \<times> nat \<times> bool \<times> nat \<times> nat list \<times> nat list" where
  "observation_key x = (ho_checkpoint_id x, ho_root_digest x, ho_holder_device_id x, ho_acked_at_unix_ms x,
     replica_kind_index (ho_kind x), ho_selected x, holder_validation_index (ho_holder_validation x),
     fact_key (\<lambda>b. [of_bool b]) (ho_is_ephemeral x), fact_key (\<lambda>d. d) (ho_failure_domain x))"

fun exclusion_key :: "replica_exclusion_reason \<Rightarrow> nat list" where
  "exclusion_key InvalidSignature = [0]" | "exclusion_key HolderNotApproved = [1]"
| "exclusion_key MembershipUnresolved = [2]" | "exclusion_key MembershipAmbiguous = [3]"
| "exclusion_key EphemeralStatusUnresolved = [4]" | "exclusion_key EphemeralStatusAmbiguous = [5]"
| "exclusion_key FailureDomainUnresolved = [6]" | "exclusion_key FailureDomainAmbiguous = [7]"
| "exclusion_key EphemeralWorkerLocal = [8]" | "exclusion_key (DuplicateFailureDomain d) = 9 # d"

section \<open>Validation\<close>

definition scope_pair :: "resolved_holder_observation \<Rightarrow> str \<times> str" where
  "scope_pair x = (ho_checkpoint_id x, ho_root_digest x)"

definition empty_domain_pairs :: "resolved_holder_observation list \<Rightarrow> (str \<times> u64) list" where
  "empty_domain_pairs xs =
     [(ho_holder_device_id x, ho_acked_at_unix_ms x). x \<leftarrow> xs,
        case ho_failure_domain x of FactResolved d \<Rightarrow> is_blank d | _ \<Rightarrow> False]"

definition validate_observations ::
    "resolved_holder_observation list \<Rightarrow> replica_evaluation_error + unit" where
  "validate_observations xs =
     and_then (reject_if (\<exists>x \<in> set xs. is_blank (ho_checkpoint_id x)) EmptyCheckpointId) (\<lambda>_.
     and_then (reject_if (\<exists>x \<in> set xs. is_blank (ho_root_digest x)) EmptyRootDigest) (\<lambda>_.
     and_then (reject_if (\<exists>x \<in> set xs. is_blank (ho_holder_device_id x)) EmptyHolderDeviceId) (\<lambda>_.
     and_then (case iter_min (empty_domain_pairs xs) of
                 Some (holder, acked) \<Rightarrow> Err (EmptyFailureDomain holder acked)
               | None \<Rightarrow> Ok ()) (\<lambda>_.
     and_then (let scopes = bs_collect (map scope_pair xs)
               in reject_if (length scopes > 1) (MixedEvaluationScope scopes)) (\<lambda>_.
       case first_repeated (map ho_holder_device_id (filter ho_selected xs)) of
         Some (holder, n) \<Rightarrow> Err (MultipleSelectedObservations holder n)
       | None \<Rightarrow> Ok ())))))"

definition exclusion_reasons :: "resolved_holder_observation \<Rightarrow> replica_exclusion_reason list" where
  "exclusion_reasons x =
     (case ho_holder_validation x of
        HvValid \<Rightarrow> []
      | HvInvalidSignature \<Rightarrow> [InvalidSignature]
      | HvNotApproved \<Rightarrow> [HolderNotApproved]
      | HvMembershipUnresolved \<Rightarrow> [MembershipUnresolved]
      | HvMembershipAmbiguous \<Rightarrow> [MembershipAmbiguous]) @
     (if ho_kind x = WorkerLocal then
        (case ho_is_ephemeral x of
           FactResolved True \<Rightarrow> [EphemeralWorkerLocal]
         | FactResolved False \<Rightarrow> []
         | FactUnresolved \<Rightarrow> [EphemeralStatusUnresolved]
         | FactAmbiguous \<Rightarrow> [EphemeralStatusAmbiguous])
      else []) @
     (case ho_failure_domain x of
        FactResolved _ \<Rightarrow> []
      | FactUnresolved \<Rightarrow> [FailureDomainUnresolved]
      | FactAmbiguous \<Rightarrow> [FailureDomainAmbiguous])"

section \<open>Evaluation\<close>

text \<open>The \<open>let ... else unreachable!()\<close> of the loop: an observation with no exclusion reason
  has a resolved failure domain (\<open>exclusion_reasons_Nil\<close>).\<close>

definition resolved_domain :: "resolved_holder_observation \<Rightarrow> str" where
  "resolved_domain x = (case ho_failure_domain x of FactResolved d \<Rightarrow> d | _ \<Rightarrow> [])"

definition group_observation ::
    "resolved_holder_observation
      \<Rightarrow> (str, resolved_holder_observation list) btree_map \<times> excluded_replica list
      \<Rightarrow> (str, resolved_holder_observation list) btree_map \<times> excluded_replica list" where
  "group_observation x state =
     (case state of (candidates, excluded) \<Rightarrow>
       let reasons = remdups_adj (sort_key exclusion_key (exclusion_reasons x))
       in if reasons = []
          then (bm_insert (resolved_domain x)
                  ((case bm_get candidates (resolved_domain x) of None \<Rightarrow> [] | Some ys \<Rightarrow> ys) @ [x])
                  candidates, excluded)
          else (candidates, excluded @ [\<lparr>xr_observation = x, xr_reasons = reasons\<rparr>]))"

definition count_domain ::
    "str \<times> resolved_holder_observation list
      \<Rightarrow> counted_replica list \<times> excluded_replica list \<Rightarrow> counted_replica list \<times> excluded_replica list" where
  "count_domain entry state =
     (case (entry, state) of ((domain, candidates), (counted, excluded)) \<Rightarrow>
       let candidates = sort_key observation_key candidates;
           first = hd candidates
       in (counted @ [\<lparr>cr_observation = first, cr_failure_domain = domain\<rparr>],
           excluded @ map (\<lambda>x. \<lparr>xr_observation = x,
             xr_reasons = [DuplicateFailureDomain (ho_holder_device_id first)]\<rparr>) (tl candidates)))"

definition evaluate_effective_replicas ::
    "resolved_holder_observation list \<Rightarrow> durability \<Rightarrow> replica_evaluation_error + effective_replica_report" where
  "evaluate_effective_replicas xs required =
     and_then (validate_observations xs) (\<lambda>_.
       let scope = (case xs of [] \<Rightarrow> None
            | x # _ \<Rightarrow> Some \<lparr>es_checkpoint_id = ho_checkpoint_id x, es_root_digest = ho_root_digest x\<rparr>);
           selected = sort_key observation_key (filter ho_selected xs);
           superseded = sort_key observation_key (filter (\<lambda>x. \<not> ho_selected x) xs);
           (candidates, excluded) = fold group_observation selected ([], []);
           (counted, excluded) = fold count_domain (bm_entries candidates) ([], excluded);
           excluded = sort_key (\<lambda>e. (observation_key (xr_observation e), map exclusion_key (xr_reasons e))) excluded
       in and_then (reject_if (2 ^ 32 \<le> length counted) ReplicaCountOverflow) (\<lambda>_.
            let effective = of_nat (length counted) :: u32
            in Ok \<lparr>rep_scope = scope, rep_required = required,
                   rep_required_replica_count = required_replicas required,
                   rep_effective_replica_count = effective,
                   rep_requirement_met = (required_replicas required \<le> effective),
                   rep_counted = counted, rep_excluded = excluded, rep_superseded = superseded\<rparr>))"

section \<open>The older counter\<close>

text \<open>\<open>ReplicaSet\<close>: one entry per failure domain; \<open>count() as u32\<close> truncates.\<close>

type_synonym replica_set = "(str, str \<times> bool \<times> bool) btree_map"

definition replica_set_add :: "replica_set \<Rightarrow> str \<Rightarrow> str \<Rightarrow> bool \<Rightarrow> bool \<Rightarrow> replica_set" where
  "replica_set_add s domain device is_ephemeral signature_valid =
     bm_insert domain (device, is_ephemeral, signature_valid) s"

definition replica_set_effective_count :: "replica_set \<Rightarrow> u32" where
  "replica_set_effective_count s =
     of_nat (length (filter (\<lambda>(_, (_, is_ephemeral, signature_valid)). signature_valid \<and> \<not> is_ephemeral)
               (bm_entries s)))"

definition replica_set_satisfies :: "replica_set \<Rightarrow> durability \<Rightarrow> bool" where
  "replica_set_satisfies s required \<longleftrightarrow> required_replicas required \<le> replica_set_effective_count s"

section \<open>Lemmas\<close>

text \<open>An observation that can count.\<close>

definition replica_counts :: "resolved_holder_observation \<Rightarrow> bool" where
  "replica_counts x \<longleftrightarrow>
     ho_holder_validation x = HvValid \<and>
     (ho_kind x = WorkerLocal \<longrightarrow> ho_is_ephemeral x = FactResolved False) \<and>
     ho_failure_domain x \<notin> {FactUnresolved, FactAmbiguous}"

lemma exclusion_reasons_Nil: "exclusion_reasons x = [] \<longleftrightarrow> replica_counts x"
  by (auto simp: exclusion_reasons_def replica_counts_def
      split: holder_validation.splits fact_resolution.splits bool.splits)

lemma replica_counts_domain: "replica_counts x \<Longrightarrow> ho_failure_domain x = FactResolved (resolved_domain x)"
  by (cases "ho_failure_domain x") (auto simp: replica_counts_def resolved_domain_def)

lemma sort_reasons_Nil [simp]: "sort_key exclusion_key rs = [] \<longleftrightarrow> rs = []"
  by (metis length_0_conv length_sort)

lemma fact_key_inject: "(\<And>x y. f x = f y \<Longrightarrow> x = y) \<Longrightarrow> fact_key f a = fact_key f b \<Longrightarrow> a = b"
  by (cases a; cases b) auto

lemma observation_key_inj: "inj_on observation_key (A :: resolved_holder_observation set)"
proof (rule inj_onI)
  fix a b :: resolved_holder_observation
  assume key: "observation_key a = observation_key b"
  have "replica_kind_index x = replica_kind_index y \<Longrightarrow> x = y" for x y by (cases x; cases y; simp)
  moreover have "holder_validation_index x = holder_validation_index y \<Longrightarrow> x = y" for x y
    by (cases x; cases y; simp)
  moreover have "fact_key (\<lambda>b. [of_bool b]) x = fact_key (\<lambda>b. [of_bool b]) y \<Longrightarrow> x = y" for x y
    by (rule fact_key_inject) (auto simp: of_bool_def split: if_splits)
  moreover have "fact_key (\<lambda>d. d) x = fact_key (\<lambda>d. d) y \<Longrightarrow> x = y" for x y by (rule fact_key_inject)
  ultimately show "a = b"
    using key by (intro resolved_holder_observation.equality) (auto simp: observation_key_def)
qed

text \<open>Grouping: every domain holds its countable observations in order.\<close>

lemma mset_bm_insert_group:
  assumes "bm_invar m"
  shows "mset (concat (map snd (bm_insert k ((case bm_get m k of None \<Rightarrow> [] | Some ys \<Rightarrow> ys) @ [x]) m))) =
         add_mset x (mset (concat (map snd m)))"
  using assms
proof (induction m)
  case Nil
  then show ?case by (simp add: bm_get_def)
next
  case (Cons e m)
  then have inv: "bm_invar m" and lt: "\<forall>y \<in> fst ` set m. fst e < y" by (auto simp: bm_invar_def)
  then have "k < fst e \<Longrightarrow> bm_get m k = None" by (force simp: bm_get_def map_of_eq_None_iff)
  then show ?case using Cons.IH [OF inv] by (cases e) (auto simp: bm_get_def)
qed

definition domain_members :: "resolved_holder_observation list \<Rightarrow> str \<Rightarrow> resolved_holder_observation list" where
  "domain_members xs d = filter (\<lambda>x. replica_counts x \<and> resolved_domain x = d) xs"

definition excluded_by_reason :: "resolved_holder_observation list \<Rightarrow> excluded_replica list" where
  "excluded_by_reason xs =
     map (\<lambda>x. \<lparr>xr_observation = x, xr_reasons = remdups_adj (sort_key exclusion_key (exclusion_reasons x))\<rparr>)
       (filter (\<lambda>x. \<not> replica_counts x) xs)"

lemma group_loop:
  "\<exists>m. fold group_observation xs ([], []) = (m, excluded_by_reason xs) \<and> bm_invar m \<and>
     (\<forall>d. bm_get m d = (if domain_members xs d = [] then None else Some (domain_members xs d))) \<and>
     mset (concat (map snd m)) = mset (filter replica_counts xs)"
proof (induction xs rule: rev_induct)
  case Nil
  then show ?case by (simp add: excluded_by_reason_def domain_members_def bm.invar_empty bm.get_empty)
next
  case (snoc x xs)
  then obtain m where m: "fold group_observation xs ([], []) = (m, excluded_by_reason xs)" "bm_invar m"
    "\<And>d. bm_get m d = (if domain_members xs d = [] then None else Some (domain_members xs d))"
    "mset (concat (map snd m)) = mset (filter replica_counts xs)" by blast
  show ?case
  proof (cases "replica_counts x")
    case True
    let ?old = "case bm_get m (resolved_domain x) of None \<Rightarrow> [] | Some ys \<Rightarrow> ys"
    have "fold group_observation (xs @ [x]) ([], []) =
        (bm_insert (resolved_domain x) (?old @ [x]) m, excluded_by_reason (xs @ [x]))"
      using True by (simp add: m(1) group_observation_def excluded_by_reason_def exclusion_reasons_Nil)
    moreover have "bm_get (bm_insert (resolved_domain x) (?old @ [x]) m) d =
        (if domain_members (xs @ [x]) d = [] then None else Some (domain_members (xs @ [x]) d))" for d
      using True by (simp add: bm.get_insert [OF m(2)] m(3) domain_members_def)
    moreover have "mset (concat (map snd (bm_insert (resolved_domain x) (?old @ [x]) m))) =
        mset (filter replica_counts (xs @ [x]))"
      using True by (simp only: mset_bm_insert_group [OF m(2)] m(4)) simp
    ultimately show ?thesis using bm.invar_insert [OF m(2)] by blast
  next
    case False
    then have "fold group_observation (xs @ [x]) ([], []) = (m, excluded_by_reason (xs @ [x]))"
      by (simp add: m(1) group_observation_def excluded_by_reason_def exclusion_reasons_Nil)
    with False m show ?thesis by (simp add: domain_members_def)
  qed
qed

lemma count_loop:
  "fold count_domain es (c, e) =
     (c @ map (\<lambda>(d, ys). \<lparr>cr_observation = hd (sort_key observation_key ys), cr_failure_domain = d\<rparr>) es,
      e @ concat (map (\<lambda>(d, ys). map (\<lambda>x. \<lparr>xr_observation = x,
             xr_reasons = [DuplicateFailureDomain (ho_holder_device_id (hd (sort_key observation_key ys)))]\<rparr>)
           (tl (sort_key observation_key ys))) es))"
  by (induction es arbitrary: c e) (auto simp: count_domain_def Let_def)

lemma mset_hd_tl_sort: "ys \<noteq> [] \<Longrightarrow> add_mset (hd (sort_key f ys)) (mset (tl (sort_key f ys))) = mset ys"
proof -
  assume "ys \<noteq> []"
  then have "sort_key f ys \<noteq> []" by (metis length_0_conv length_sort)
  then have "add_mset (hd (sort_key f ys)) (mset (tl (sort_key f ys))) = mset (sort_key f ys)"
    by (cases "sort_key f ys") simp_all
  then show ?thesis by simp
qed

lemma mset_split_groups:
  assumes "\<forall>e \<in> set m. snd e \<noteq> []"
  shows "mset (map (\<lambda>e. hd (sort_key f (snd e))) m) + mset (concat (map (\<lambda>e. tl (sort_key f (snd e))) m)) =
         mset (concat (map snd m))"
  using assms
proof (induction m)
  case (Cons e m)
  have "mset (snd e) = add_mset (hd (sort_key f (snd e))) (mset (tl (sort_key f (snd e))))"
    using mset_hd_tl_sort [of "snd e" f] Cons.prems by simp
  with Cons show ?case by (simp add: add_ac)
qed simp

lemma hd_sort_key_least: "y \<in> set ys \<Longrightarrow> hd (sort_key f ys) \<in> set ys \<and> f (hd (sort_key f ys)) \<le> f y"
proof -
  assume y: "y \<in> set ys"
  then have "sort_key f ys \<noteq> []" by (metis length_0_conv length_sort list.set_cases neq_Nil_conv)
  then obtain z zs where z: "sort_key f ys = z # zs" by (cases "sort_key f ys") auto
  have "set (z # zs) = set ys" by (metis z set_sort)
  moreover have "sorted (map f (z # zs))" by (metis z sorted_sort_key)
  ultimately show ?thesis using y by (auto simp: z)
qed

lemma validate_observations_perm:
  assumes "mset xs = mset ys" shows "validate_observations xs = validate_observations ys"
proof -
  have set: "set xs = set ys" using assms by (rule mset_eq_setD)
  have "mset (empty_domain_pairs xs) = mset (empty_domain_pairs ys)"
  proof -
    have "empty_domain_pairs zs = map (\<lambda>x. (ho_holder_device_id x, ho_acked_at_unix_ms x))
        (filter (\<lambda>x. case ho_failure_domain x of FactResolved d \<Rightarrow> is_blank d | _ \<Rightarrow> False) zs)" for zs
      by (induction zs) (auto simp: empty_domain_pairs_def)
    then show ?thesis by (simp add: assms)
  qed
  then have min: "iter_min (empty_domain_pairs xs) = iter_min (empty_domain_pairs ys)"
    by (rule iter_min_perm_eq)
  have scopes: "bs_collect (map scope_pair xs) = bs_collect (map scope_pair ys)"
    unfolding bs_collect_sort_dedup by (rule sort_dedup_set_eq) (simp add: set)
  have dup: "first_repeated (map ho_holder_device_id (filter ho_selected xs)) =
      first_repeated (map ho_holder_device_id (filter ho_selected ys))"
    by (rule first_repeated_perm) (simp add: assms)
  show ?thesis unfolding validate_observations_def set min scopes dup ..
qed

lemma validate_observations_scope:
  assumes "validate_observations xs = Ok ()" and "x \<in> set xs" and "y \<in> set xs"
  shows "scope_pair x = scope_pair y"
proof -
  have "length (bs_collect (map scope_pair xs)) \<le> 1"
    using assms(1) by (auto simp: validate_observations_def and_then_Ok reject_if_Ok Let_def)
  moreover have "scope_pair x \<in> set (bs_collect (map scope_pair xs))"
    "scope_pair y \<in> set (bs_collect (map scope_pair xs))"
    using assms(2,3) by (simp_all add: bs_collect_sort_dedup)
  ultimately show ?thesis
    by (cases "bs_collect (map scope_pair xs)") (simp_all add: le_Suc_eq)
qed

definition observation_scope :: "resolved_holder_observation list \<Rightarrow> replica_evaluation_scope option" where
  "observation_scope xs = (case xs of [] \<Rightarrow> None
     | x # _ \<Rightarrow> Some \<lparr>es_checkpoint_id = ho_checkpoint_id x, es_root_digest = ho_root_digest x\<rparr>)"

lemma observation_scope_perm:
  assumes "mset xs = mset ys" and "validate_observations xs = Ok ()"
  shows "observation_scope xs = observation_scope ys"
proof (cases xs)
  case Nil
  with assms(1) show ?thesis by simp
next
  case (Cons x xs')
  moreover have "length ys = length xs" using mset_eq_length [OF assms(1)] by simp
  ultimately obtain y ys' where ys: "ys = y # ys'" by (cases ys) auto
  then have "y \<in> set xs" using mset_eq_setD [OF assms(1)] by simp
  then have "scope_pair x = scope_pair y"
    by (intro validate_observations_scope [OF assms(2)]) (simp_all add: Cons)
  then show ?thesis by (simp add: observation_scope_def Cons ys scope_pair_def)
qed

text \<open>The groups of the loop: each holds the counting observations of one failure domain; the
  first of a group is counted, the others are duplicates.\<close>

definition groups_of :: "resolved_holder_observation list \<Rightarrow> (str, resolved_holder_observation list) btree_map \<Rightarrow> bool" where
  "groups_of xs m \<longleftrightarrow> bm_invar m \<and> (\<forall>d. bm_get m d =
     (let ys = domain_members (sort_key observation_key (filter ho_selected xs)) d in if ys = [] then None else Some ys))"

text \<open>The report as a function of the input, without the loops.\<close>

lemma evaluate_effective_replicas_Ok:
  assumes "evaluate_effective_replicas xs req = Ok rep"
  obtains m where "validate_observations xs = Ok ()"
    and "groups_of xs m"
    and "mset (concat (map snd m)) = mset (filter replica_counts (filter ho_selected xs))"
    and "rep_counted rep = map (\<lambda>(d, ys).
            \<lparr>cr_observation = hd (sort_key observation_key ys), cr_failure_domain = d\<rparr>) m"
    and "mset (rep_excluded rep) = mset (excluded_by_reason (sort_key observation_key (filter ho_selected xs))) +
           mset (concat (map (\<lambda>(d, ys). map (\<lambda>x. \<lparr>xr_observation = x,
             xr_reasons = [DuplicateFailureDomain (ho_holder_device_id (hd (sort_key observation_key ys)))]\<rparr>)
           (tl (sort_key observation_key ys))) m))"
    and "mset (rep_superseded rep) = mset (filter (\<lambda>x. \<not> ho_selected x) xs)"
    and "length (rep_counted rep) < 2 ^ 32"
    and "rep_effective_replica_count rep = of_nat (length (rep_counted rep))"
    and "rep_requirement_met rep = (required_replicas req \<le> rep_effective_replica_count rep)"
proof -
  let ?sel = "sort_key observation_key (filter ho_selected xs)"
  obtain m where m: "fold group_observation ?sel ([], []) = (m, excluded_by_reason ?sel)" "bm_invar m"
    "\<And>d. bm_get m d = (if domain_members ?sel d = [] then None else Some (domain_members ?sel d))"
    "mset (concat (map snd m)) = mset (filter replica_counts ?sel)"
    using group_loop [of ?sel] by blast
  have "mset (filter replica_counts ?sel) = mset (filter replica_counts (filter ho_selected xs))"
    by (simp del: filter_filter)
  note total = m(4) [unfolded this]
  show thesis
    using assms m(1-3) total
    by (intro that [of m])
       (auto simp: evaluate_effective_replicas_def and_then_Ok reject_if_Ok count_loop bm_entries_def groups_of_def
         Let_def simp del: filter_filter)
qed

lemma groups_of_entry:
  assumes "groups_of xs m" and "(d, ys) \<in> set m"
  shows "ys \<noteq> []" and "set ys = {x \<in> set xs. ho_selected x \<and> replica_counts x \<and> resolved_domain x = d}"
proof -
  have "bm_get m d = Some ys"
    using map_of_is_SomeI [OF bm_invar_distinct assms(2)] assms(1) by (simp add: groups_of_def bm_get_def)
  then have "ys = domain_members (sort_key observation_key (filter ho_selected xs)) d \<and> ys \<noteq> []"
    using assms(1) by (auto simp: groups_of_def Let_def split: if_splits)
  then show "ys \<noteq> []" and "set ys = {x \<in> set xs. ho_selected x \<and> replica_counts x \<and> resolved_domain x = d}"
    by (auto simp: domain_members_def)
qed

lemma groups_of_domains:
  assumes "groups_of xs m"
  shows "set (map fst m) = resolved_domain ` {x \<in> set xs. ho_selected x \<and> replica_counts x}"
    and "length m = card (resolved_domain ` {x \<in> set xs. ho_selected x \<and> replica_counts x})"
    and "sorted_wrt (<) (map fst m)"
proof -
  have inv: "bm_invar m" using assms by (simp add: groups_of_def)
  have "dom (bm_get m) = resolved_domain ` {x \<in> set xs. ho_selected x \<and> replica_counts x}"
    using assms
    by (auto simp: groups_of_def Let_def domain_members_def filter_empty_conv dom_def split: if_splits)
  then show "set (map fst m) = resolved_domain ` {x \<in> set xs. ho_selected x \<and> replica_counts x}"
    and "length m = card (resolved_domain ` {x \<in> set xs. ho_selected x \<and> replica_counts x})"
    using bm.set_keys [OF inv] bm.len_card [OF inv] by (simp_all add: bm_entries_def bm_len_def)
  show "sorted_wrt (<) (map fst m)" using inv by (simp add: bm_invar_def)
qed

lemma groups_of_least:
  assumes "groups_of xs m" and "(d, ys) \<in> set m"
  shows "hd (sort_key observation_key ys) \<in> {x \<in> set xs. ho_selected x \<and> replica_counts x \<and> resolved_domain x = d}"
    and "\<forall>x \<in> set xs. ho_selected x \<longrightarrow> replica_counts x \<longrightarrow> resolved_domain x = d \<longrightarrow>
       observation_key (hd (sort_key observation_key ys)) \<le> observation_key x"
proof -
  note entry = groups_of_entry [OF assms]
  obtain y where "y \<in> set ys" using entry(1) by (metis ex_in_conv set_empty)
  then show "hd (sort_key observation_key ys) \<in> {x \<in> set xs. ho_selected x \<and> replica_counts x \<and> resolved_domain x = d}"
    using hd_sort_key_least [of y ys observation_key] unfolding entry(2) by blast
  show "\<forall>x \<in> set xs. ho_selected x \<longrightarrow> replica_counts x \<longrightarrow> resolved_domain x = d \<longrightarrow>
       observation_key (hd (sort_key observation_key ys)) \<le> observation_key x"
    using hd_sort_key_least [of _ ys observation_key] entry(2) by blast
qed

lemma excluded_observations:
  assumes "mset excluded = mset (excluded_by_reason sel) +
      mset (concat (map (\<lambda>(d, ys). map (\<lambda>x. \<lparr>xr_observation = x,
          xr_reasons = [DuplicateFailureDomain (ho_holder_device_id (hd (sort_key observation_key ys)))]\<rparr>)
        (tl (sort_key observation_key ys))) m))"
  shows "mset (map xr_observation excluded) = mset (filter (\<lambda>x. \<not> replica_counts x) sel) +
      mset (concat (map (\<lambda>(d, ys). tl (sort_key observation_key ys)) m))"
    and "\<forall>e \<in> set excluded. xr_reasons e \<noteq> []"
proof -
  let ?dup = "concat (map (\<lambda>(d, ys). map (\<lambda>x. \<lparr>xr_observation = x,
           xr_reasons = [DuplicateFailureDomain (ho_holder_device_id (hd (sort_key observation_key ys)))]\<rparr>)
         (tl (sort_key observation_key ys))) m)"
  have "mset (map xr_observation excluded) =
      mset (map xr_observation (excluded_by_reason sel)) + mset (map xr_observation ?dup)"
    by (simp only: mset_map assms image_mset_union)
  moreover have "map xr_observation (excluded_by_reason sel) = filter (\<lambda>x. \<not> replica_counts x) sel"
    by (simp add: excluded_by_reason_def o_def)
  moreover have "map xr_observation ?dup = concat (map (\<lambda>(d, ys). tl (sort_key observation_key ys)) m)"
    by (simp add: map_concat o_def case_prod_unfold)
  ultimately show "mset (map xr_observation excluded) = mset (filter (\<lambda>x. \<not> replica_counts x) sel) +
      mset (concat (map (\<lambda>(d, ys). tl (sort_key observation_key ys)) m))" by simp
  have "set excluded = set_mset (mset excluded)" by simp
  then show "\<forall>e \<in> set excluded. xr_reasons e \<noteq> []"
    unfolding assms by (auto simp: excluded_by_reason_def exclusion_reasons_Nil)
qed

section \<open>Properties\<close>

text \<open>
  The evaluation of replicas depends on the multiset of observations only: reordering the
  acknowledgements changes neither the report nor the error.
\<close>

theorem evaluate_effective_replicas_order_independent:
  assumes "mset xs = mset ys"
  shows "evaluate_effective_replicas xs req = evaluate_effective_replicas ys req"
proof (cases "validate_observations xs")
  case (Inl e)
  then show ?thesis using validate_observations_perm [OF assms] by (simp add: evaluate_effective_replicas_def)
next
  case (Inr u)
  have "sort_key observation_key (filter P xs) = sort_key observation_key (filter P ys)" for P
    by (rule sort_key_perm_eq [OF observation_key_inj]) (simp add: assms)
  with observation_scope_perm [OF assms] Inr validate_observations_perm [OF assms]
  show ?thesis by (simp add: evaluate_effective_replicas_def flip: observation_scope_def)
qed

definition example_ack :: "string \<Rightarrow> string \<Rightarrow> resolved_holder_observation" where
  "example_ack holder domain =
     \<lparr>ho_checkpoint_id = lit ''c'', ho_root_digest = lit ''r'', ho_holder_device_id = lit holder,
      ho_acked_at_unix_ms = 7, ho_kind = Hub, ho_selected = True, ho_holder_validation = HvValid,
      ho_is_ephemeral = FactUnresolved, ho_failure_domain = FactResolved (lit domain)\<rparr>"

theorem evaluate_effective_replicas_order_independent_witness:
  "evaluate_effective_replicas [example_ack ''a'' ''x'', example_ack ''b'' ''x''] DurMirrored =
   evaluate_effective_replicas [example_ack ''b'' ''x'', example_ack ''a'' ''x''] DurMirrored"
  by (rule evaluate_effective_replicas_order_independent) (simp add: add_mset_commute)

text \<open>
  durability is counted honestly. In a returned report every observation is accounted for
  exactly once (counted, excluded or superseded); the effective count is the number of distinct
  failure domains that hold a selected, valid, non-ephemeral copy with a resolved domain; each
  of them is represented by its least such observation; every exclusion names a reason; and the
  requirement is met exactly when that number reaches what the durability level demands.
\<close>

theorem evaluate_effective_replicas_correct:
  assumes "evaluate_effective_replicas xs req = Ok rep"
  shows "mset (map cr_observation (rep_counted rep)) + mset (map xr_observation (rep_excluded rep)) +
           mset (rep_superseded rep) = mset xs \<and>
     sorted_wrt (<) (map cr_failure_domain (rep_counted rep)) \<and>
     set (map cr_failure_domain (rep_counted rep)) =
       resolved_domain ` {x \<in> set xs. ho_selected x \<and> replica_counts x} \<and>
     (\<forall>c \<in> set (rep_counted rep). cr_observation c \<in> set xs \<and> ho_selected (cr_observation c) \<and>
        replica_counts (cr_observation c) \<and> resolved_domain (cr_observation c) = cr_failure_domain c \<and>
        (\<forall>x \<in> set xs. ho_selected x \<longrightarrow> replica_counts x \<longrightarrow> resolved_domain x = cr_failure_domain c \<longrightarrow>
           observation_key (cr_observation c) \<le> observation_key x)) \<and>
     (\<forall>e \<in> set (rep_excluded rep). xr_reasons e \<noteq> []) \<and>
     (rep_requirement_met rep \<longleftrightarrow>
        unat (required_replicas req) \<le> card (resolved_domain ` {x \<in> set xs. ho_selected x \<and> replica_counts x}))"
proof -
  let ?sel = "sort_key observation_key (filter ho_selected xs)"
  obtain m where m: "groups_of xs m"
    and total: "mset (concat (map snd m)) = mset (filter replica_counts (filter ho_selected xs))"
    and counted: "rep_counted rep = map (\<lambda>(d, ys).
            \<lparr>cr_observation = hd (sort_key observation_key ys), cr_failure_domain = d\<rparr>) m"
    and excluded: "mset (rep_excluded rep) = mset (excluded_by_reason ?sel) +
           mset (concat (map (\<lambda>(d, ys). map (\<lambda>x. \<lparr>xr_observation = x,
             xr_reasons = [DuplicateFailureDomain (ho_holder_device_id (hd (sort_key observation_key ys)))]\<rparr>)
           (tl (sort_key observation_key ys))) m))"
    and superseded: "mset (rep_superseded rep) = mset (filter (\<lambda>x. \<not> ho_selected x) xs)"
    and count: "length (rep_counted rep) < 2 ^ 32"
      "rep_effective_replica_count rep = of_nat (length (rep_counted rep))"
      "rep_requirement_met rep = (required_replicas req \<le> rep_effective_replica_count rep)"
    by (rule evaluate_effective_replicas_Ok [OF assms], rule that)
  have domains: "map cr_failure_domain (rep_counted rep) = map fst m"
    by (simp add: counted o_def case_prod_unfold)
  have met: "rep_requirement_met rep \<longleftrightarrow>
      unat (required_replicas req) \<le> card (resolved_domain ` {x \<in> set xs. ho_selected x \<and> replica_counts x})"
    using count groups_of_domains(2) [OF m] by (simp add: counted word_le_nat_alt unat_of_nat take_bit_nat_eq_self)
  have "\<forall>e \<in> set m. snd e \<noteq> []" using groups_of_entry(1) [OF m] by (metis prod.collapse)
  from mset_split_groups [OF this, of observation_key]
  have part: "mset (map cr_observation (rep_counted rep)) +
      mset (concat (map (\<lambda>(d, ys). tl (sort_key observation_key ys)) m)) = mset (concat (map snd m))"
    by (simp add: counted o_def case_prod_unfold)
  have "mset (map cr_observation (rep_counted rep)) + mset (map xr_observation (rep_excluded rep)) +
      mset (rep_superseded rep) = mset (filter replica_counts (filter ho_selected xs)) +
      mset (filter (\<lambda>x. \<not> replica_counts x) ?sel) + mset (filter (\<lambda>x. \<not> ho_selected x) xs)"
    unfolding excluded_observations(1) [OF excluded] superseded total [symmetric] part [symmetric] by (simp only: add_ac)
  also have "\<dots> = mset xs" by (metis mset_filter mset_sort multiset_partition)
  finally have all: "mset (map cr_observation (rep_counted rep)) + mset (map xr_observation (rep_excluded rep)) +
      mset (rep_superseded rep) = mset xs" .
  have "\<forall>c \<in> set (rep_counted rep). cr_observation c \<in> set xs \<and> ho_selected (cr_observation c) \<and>
        replica_counts (cr_observation c) \<and> resolved_domain (cr_observation c) = cr_failure_domain c \<and>
        (\<forall>x \<in> set xs. ho_selected x \<longrightarrow> replica_counts x \<longrightarrow> resolved_domain x = cr_failure_domain c \<longrightarrow>
           observation_key (cr_observation c) \<le> observation_key x)"
    using groups_of_least [OF m] by (auto simp: counted)
  with all met groups_of_domains(1,3) [OF m] excluded_observations(2) [OF excluded]
  show ?thesis unfolding domains by blast
qed

theorem evaluate_effective_replicas_correct_witness:
  "\<exists>rep. evaluate_effective_replicas [example_ack ''a'' ''x'', example_ack ''b'' ''y''] DurReplicated = Ok rep \<and>
      rep_requirement_met rep"
proof -
  let ?xs = "[example_ack ''a'' ''x'', example_ack ''b'' ''y'']"
  have "validate_observations ?xs = Ok ()"
    by (simp add: validate_observations_def example_ack_def is_blank_iff is_whitespace_def scope_pair_def
        empty_domain_pairs_def iter_min_def bs_collect_def bs_insert_def insort_insert_key_def
        first_repeated_def count_entry_def bm_get_def bm_entries_def)
  then have "\<exists>rep. evaluate_effective_replicas ?xs DurReplicated = Ok rep"
    by (simp add: evaluate_effective_replicas_def example_ack_def observation_key_def group_observation_def
        exclusion_reasons_def resolved_domain_def bm_get_def bm_entries_def count_domain_def Let_def)
  then obtain rep where rep: "evaluate_effective_replicas ?xs DurReplicated = Ok rep" by blast
  have "resolved_domain ` {x \<in> set ?xs. ho_selected x \<and> replica_counts x} = {lit ''x'', lit ''y''}"
    by (simp add: example_ack_def replica_counts_def resolved_domain_def Collect_conv_if insert_commute
        set_eq_iff conj_disj_distribR ex_disj_distrib image_iff cong: conj_cong)
       (metis (no_types, lifting) fact_resolution.simps(4))
  then have "rep_requirement_met rep" using evaluate_effective_replicas_correct [OF rep] by simp
  with rep show ?thesis by blast
qed

end
