(* ===== verification/Sql_Tx.thy ===== *)
theory Sql_Tx
  imports Prelude
begin

text \<open>
  SQLite connections as the stores of the crates use them through \<open>rusqlite\<close>.

  A database is a record that extends \<open>sql_conn\<close> with its tables. The engine is not part of
  the sources: whether a statement succeeds is decided by a tape of outcomes (\<open>db_tape\<close>, the
  error of the next statements, \<open>None\<close> for success; past its end everything succeeds),
  so a lemma about all tapes is a lemma about every pattern of failures. Every store maps the
  engine's errors to its own with its \<open>map_sql_error\<close>, an argument here. What the stores rely on
  is written into \<open>in_transaction\<close>: the tables change only if the body and the commit succeed,
  and a transaction dropped before its commit is rolled back.
\<close>

text \<open>The stores tell a \<open>SqliteFailure\<close> with code busy or locked from every other error.\<close>

datatype sql_error = SqliteBusyOrLocked | SqliteOther

record sql_conn =
  db_tape :: "sql_error option list"

type_synonym ('e, 'm, 'a) tx = "'m sql_conn_scheme \<Rightarrow> ('e + 'a) \<times> 'm sql_conn_scheme"

definition tx_return :: "'a \<Rightarrow> ('e, 'm, 'a) tx" where "tx_return x db = (Ok x, db)"

definition tx_fail :: "'e \<Rightarrow> ('e, 'm, 'a) tx" where "tx_fail e db = (Err e, db)"

definition tx_bind :: "('e, 'm, 'a) tx \<Rightarrow> ('a \<Rightarrow> ('e, 'm, 'b) tx) \<Rightarrow> ('e, 'm, 'b) tx" where
  "tx_bind m f db = (case m db of (Inl e, db') \<Rightarrow> (Err e, db') | (Inr x, db') \<Rightarrow> f x db')"

definition lift_result :: "('e + 'a) \<Rightarrow> ('e, 'm, 'a) tx" where
  "lift_result r db = (r, db)"

text \<open>A statement: the engine's outcome first, then its effect on the tables, which may itself
  be an error (a violated constraint).\<close>

definition statement_result :: "(sql_error \<Rightarrow> 'e) \<Rightarrow> ('e, 'm, 'a) tx \<Rightarrow> ('e, 'm, 'a) tx" where
  "statement_result map_sql_error act db =
     (case db_tape db of
        Some e # rest \<Rightarrow> (Err (map_sql_error e), db\<lparr>db_tape := rest\<rparr>)
      | None # rest \<Rightarrow> act (db\<lparr>db_tape := rest\<rparr>)
      | [] \<Rightarrow> act db)"

definition statement ::
    "(sql_error \<Rightarrow> 'e) \<Rightarrow> ('m sql_conn_scheme \<Rightarrow> 'a \<times> 'm sql_conn_scheme) \<Rightarrow> ('e, 'm, 'a) tx" where
  "statement map_sql_error act = statement_result map_sql_error (\<lambda>db. case act db of (x, db') \<Rightarrow> (Ok x, db'))"

text \<open>\<open>BEGIN IMMEDIATE\<close>, the body, and \<open>COMMIT\<close>; the tables of a failed run are the old ones.\<close>

definition in_transaction :: "(sql_error \<Rightarrow> 'e) \<Rightarrow> ('e, 'm, 'a) tx \<Rightarrow> ('e, 'm, 'a) tx" where
  "in_transaction map_sql_error body db =
     (case tx_bind (statement map_sql_error (\<lambda>db. ((), db))) (\<lambda>_.
           tx_bind body (\<lambda>x. tx_bind (statement map_sql_error (\<lambda>db. ((), db))) (\<lambda>_. tx_return x))) db of
        (Inr x, db') \<Rightarrow> (Ok x, db')
      | (Inl e, db') \<Rightarrow> (Err e, db\<lparr>db_tape := db_tape db'\<rparr>))"

text \<open>A transaction that commits before it returns an error of its own: the body's value is the
  function's result.\<close>

definition in_transaction_result :: "(sql_error \<Rightarrow> 'e) \<Rightarrow> ('e, 'm, 'e + 'a) tx \<Rightarrow> ('e, 'm, 'a) tx" where
  "in_transaction_result map_sql_error body = tx_bind (in_transaction map_sql_error body) lift_result"

text \<open>A function that may also drop its transaction and return a value all the same: the error
  \<open>Inl x\<close> of the body stands for that.\<close>

definition in_transaction_or_drop :: "(sql_error \<Rightarrow> 'e) \<Rightarrow> ('a + 'e, 'm, 'a) tx \<Rightarrow> ('e, 'm, 'a) tx" where
  "in_transaction_or_drop map_sql_error body db =
     (case in_transaction (Inr \<circ> map_sql_error) body db of
        (Inr x, db') \<Rightarrow> (Ok x, db')
      | (Inl (Inl x), db') \<Rightarrow> (Ok x, db')
      | (Inl (Inr e), db') \<Rightarrow> (Err e, db'))"

text \<open>\<open>map_err\<close> on the result of a call.\<close>

definition tx_map_err :: "('e \<Rightarrow> 'f) \<Rightarrow> ('e, 'm, 'a) tx \<Rightarrow> ('f, 'm, 'a) tx" where
  "tx_map_err f m db = (case m db of (Inl e, db') \<Rightarrow> (Err (f e), db') | (Inr x, db') \<Rightarrow> (Ok x, db'))"

section \<open>Successful runs\<close>

named_theorems tx_ok \<open>what a successful transaction has done\<close>

lemma tx_bind_Ok [tx_ok]:
  "tx_bind m f db = (Inr y, db') \<longleftrightarrow> (\<exists>x db1. m db = (Inr x, db1) \<and> f x db1 = (Inr y, db'))"
  by (auto simp: tx_bind_def split: prod.splits sum.splits)

lemma tx_return_Ok [tx_ok]: "tx_return x db = (Inr y, db') \<longleftrightarrow> y = x \<and> db' = db"
  by (auto simp: tx_return_def)

lemma tx_fail_Ok [tx_ok]: "tx_fail e db = (Inr y, db') \<longleftrightarrow> False"
  by (simp add: tx_fail_def)

lemma lift_result_Ok [tx_ok]: "lift_result r db = (Inr y, db') \<longleftrightarrow> r = Inr y \<and> db' = db"
  by (auto simp: lift_result_def)

lemma tx_map_err_Ok [tx_ok]: "tx_map_err f m db = (Inr y, db') \<longleftrightarrow> m db = (Inr y, db')"
  by (auto simp: tx_map_err_def split: prod.splits sum.splits)

lemma keep_tape: "db_tape db = [] \<Longrightarrow> db\<lparr>db_tape := []\<rparr> = db"
  by (cases db) simp

lemma statement_result_Ok [tx_ok]:
  "statement_result f act db = (Inr x, db') \<longleftrightarrow>
     (\<exists>t. act (db\<lparr>db_tape := t\<rparr>) = (Inr x, db') \<and> (db_tape db = [] \<and> t = [] \<or> db_tape db = None # t))"
  by (cases "db_tape db") (auto simp: statement_result_def keep_tape split: option.splits)

lemma ok_pair: "(case p of (x, db) \<Rightarrow> (Inr x, db)) = (Inr y, db') \<longleftrightarrow> p = (y, db')"
  by (cases p) simp

lemma statement_Ok [tx_ok]:
  "statement f act db = (Inr x, db') \<longleftrightarrow>
     (\<exists>t. act (db\<lparr>db_tape := t\<rparr>) = (x, db') \<and> (db_tape db = [] \<and> t = [] \<or> db_tape db = None # t))"
  by (simp add: statement_def statement_result_Ok ok_pair)

text \<open>Only the tape survives a failure.\<close>

lemma in_transaction_Ok:
  assumes "in_transaction f body db = (Inr x, db')"
  obtains t db1 t' where "body (db\<lparr>db_tape := t\<rparr>) = (Inr x, db1)" "db' = db1\<lparr>db_tape := t'\<rparr>"
  using assms by (auto simp: in_transaction_def tx_ok split: prod.splits sum.splits)

lemma in_transaction_Err:
  "in_transaction f body db = (Inl e, db') \<Longrightarrow> \<exists>t. db' = db\<lparr>db_tape := t\<rparr>"
  by (auto simp: in_transaction_def split: prod.splits sum.splits)

section \<open>Failed runs\<close>

named_theorems tx_err \<open>where a failed transaction has failed\<close>

lemma tx_bind_Err [tx_err]:
  "tx_bind m f db = (Inl e, db') \<longleftrightarrow>
     m db = (Inl e, db') \<or> (\<exists>x db1. m db = (Inr x, db1) \<and> f x db1 = (Inl e, db'))"
  by (auto simp: tx_bind_def split: prod.splits sum.splits)

lemma tx_return_Err [tx_err]: "tx_return x db = (Inl e, db') \<longleftrightarrow> False"
  by (simp add: tx_return_def)

lemma lift_result_Err [tx_err]: "lift_result r db = (Inl e, db') \<longleftrightarrow> r = Inl e \<and> db' = db"
  by (auto simp: lift_result_def)

lemma tx_map_err_Err [tx_err]: "tx_map_err f m db = (Inl e, db') \<longleftrightarrow> (\<exists>e'. e = f e' \<and> m db = (Inl e', db'))"
  by (auto simp: tx_map_err_def split: prod.splits sum.splits)

lemma statement_Err: "statement f act db = (Inl e, db') \<Longrightarrow> \<exists>s. e = f s"
  by (cases "db_tape db") (auto simp: statement_def statement_result_def split: option.splits prod.splits)

text \<open>A value is returned by a commit or by a dropped transaction.\<close>

lemma in_transaction_or_drop_Ok:
  assumes "in_transaction_or_drop f body db = (Inr x, db')"
  obtains (commit) t db1 t' where "body (db\<lparr>db_tape := t\<rparr>) = (Inr x, db1)" "db' = db1\<lparr>db_tape := t'\<rparr>"
  | (drop) t db1 t' where "body (db\<lparr>db_tape := t\<rparr>) = (Inl (Inl x), db1)" "db' = db\<lparr>db_tape := t'\<rparr>"
proof -
  from assms consider "in_transaction (Inr \<circ> f) body db = (Inr x, db')" | "in_transaction (Inr \<circ> f) body db = (Inl (Inl x), db')"
    by (auto simp: in_transaction_or_drop_def split: prod.splits sum.splits)
  then show ?thesis
  proof cases
    case 1
    then show ?thesis by (rule in_transaction_Ok) (rule commit)
  next
    case 2
    then obtain db2 where "tx_bind (statement (Inr \<circ> f) (\<lambda>db. ((), db))) (\<lambda>_.
        tx_bind body (\<lambda>x. tx_bind (statement (Inr \<circ> f) (\<lambda>db. ((), db))) (\<lambda>_. tx_return x))) db = (Inl (Inl x), db2)"
      by (auto simp: in_transaction_def split: prod.splits sum.splits)
    then obtain t db1 where "body (db\<lparr>db_tape := t\<rparr>) = (Inl (Inl x), db1)"
      by (auto simp: tx_err statement_Ok dest: statement_Err)
    with in_transaction_Err [OF 2] drop show ?thesis by blast
  qed
qed

section \<open>Runs without a failing statement\<close>

lemma statement_result_no_fault: "db_tape db = [] \<Longrightarrow> statement_result f act db = act db"
  by (simp add: statement_result_def)

lemma statement_no_fault: "db_tape db = [] \<Longrightarrow> statement f act db = (Ok (fst (act db)), snd (act db))"
  by (simp add: statement_def statement_result_def split: prod.splits)

lemma in_transaction_no_fault:
  assumes "db_tape db = []" and "body db = (res, db')" and "db_tape db' = []"
  shows "in_transaction f body db = (case res of Inr x \<Rightarrow> (Ok x, db') | Inl e \<Rightarrow> (Err e, db))"
  using assms
  by (cases res) (simp_all add: in_transaction_def tx_bind_def statement_no_fault tx_return_def keep_tape)

lemma in_transaction_result_no_fault:
  assumes "db_tape db = []" and "body db = (res, db')" and "db_tape db' = []"
  shows "in_transaction_result f body db = (case res of Inr x \<Rightarrow> (x, db') | Inl e \<Rightarrow> (Err e, db))"
  using in_transaction_no_fault [of db body res db' f] assms
  by (simp add: in_transaction_result_def tx_bind_def lift_result_def split: sum.splits)

section \<open>What a computation may change\<close>

text \<open>A relation between databases that ignores the tape and is transitive: it holds between the
  database before and after a computation if it holds for the statements of the computation, and
  for a transaction if it holds for the successful runs of its body.\<close>

locale tx_relation =
  fixes R :: "'m sql_conn_scheme \<Rightarrow> 'm sql_conn_scheme \<Rightarrow> bool"
  assumes R_tape: "R db (db\<lparr>db_tape := t\<rparr>)"
    and R_trans: "R a b \<Longrightarrow> R b c \<Longrightarrow> R a c"
begin

lemma R_refl: "R db db"
  using R_tape [of db "db_tape db"] by simp

lemma R_simple: "R db (snd (tx_return x db))" "R db (snd (tx_fail e db))" "R db (snd (lift_result r db))"
  by (simp_all add: tx_return_def tx_fail_def lift_result_def R_refl)

lemma R_bind:
  assumes "R db (snd (m db))" and "\<And>x db1. m db = (Inr x, db1) \<Longrightarrow> R db1 (snd (f x db1))"
  shows "R db (snd (tx_bind m f db))"
  using assms by (auto simp: tx_bind_def split: prod.splits sum.splits intro: R_trans)

lemma R_map_err: "R db (snd (m db)) \<Longrightarrow> R db (snd (tx_map_err f m db))"
  by (auto simp: tx_map_err_def split: prod.splits sum.splits)

lemma R_statement_result:
  assumes "\<And>t. R (db\<lparr>db_tape := t\<rparr>) (snd (act (db\<lparr>db_tape := t\<rparr>)))"
  shows "R db (snd (statement_result f act db))"
proof -
  have "R db (snd (act (db\<lparr>db_tape := t\<rparr>)))" for t using R_trans [OF R_tape assms] .
  then show ?thesis
    using assms [of "[]"] R_tape
    by (cases "db_tape db") (auto simp: statement_result_def keep_tape split: option.splits)
qed

lemma R_statement:
  assumes "\<And>t. R (db\<lparr>db_tape := t\<rparr>) (snd (act (db\<lparr>db_tape := t\<rparr>)))"
  shows "R db (snd (statement f act db))"
  unfolding statement_def by (rule R_statement_result) (use assms in \<open>simp add: case_prod_unfold\<close>)

lemma R_in_transaction:
  assumes "\<And>t x db1. body (db\<lparr>db_tape := t\<rparr>) = (Inr x, db1) \<Longrightarrow> R (db\<lparr>db_tape := t\<rparr>) db1"
  shows "R db (snd (in_transaction f body db))"
proof (cases "in_transaction f body db")
  case (Pair res db')
  show ?thesis
  proof (cases res)
    case (Inl e)
    with in_transaction_Err [of f body db e db'] Pair R_tape show ?thesis by auto
  next
    case (Inr x)
    from in_transaction_Ok [OF Pair [unfolded Inr]] obtain t db1 t' where
      "body (db\<lparr>db_tape := t\<rparr>) = (Inr x, db1)" "db' = db1\<lparr>db_tape := t'\<rparr>" by metis
    with assms Pair R_tape R_trans show ?thesis by (metis snd_conv)
  qed
qed

lemma R_in_transaction_result:
  assumes "\<And>t x db1. body (db\<lparr>db_tape := t\<rparr>) = (Inr x, db1) \<Longrightarrow> R (db\<lparr>db_tape := t\<rparr>) db1"
  shows "R db (snd (in_transaction_result f body db))"
  unfolding in_transaction_result_def by (rule R_bind [OF R_in_transaction R_simple(3)]) (rule assms)

lemma R_in_transaction_or_drop:
  assumes "\<And>t x db1. body (db\<lparr>db_tape := t\<rparr>) = (Inr x, db1) \<Longrightarrow> R (db\<lparr>db_tape := t\<rparr>) db1"
  shows "R db (snd (in_transaction_or_drop f body db))"
proof -
  have "R db (snd (in_transaction (Inr \<circ> f) body db))" by (rule R_in_transaction) (rule assms)
  then show ?thesis by (auto simp: in_transaction_or_drop_def split: prod.splits sum.splits)
qed

end

section \<open>Histories of a store\<close>

text \<open>What a store promises about the facts it keeps: no operation forgets a fact, and a fact
  changes along \<open>evolves\<close> only. Then the same holds of every history of operations.\<close>

locale fact_history =
  fixes step :: "'op \<Rightarrow> 's \<Rightarrow> 's"
    and known :: "'s \<Rightarrow> 'k \<Rightarrow> 'r option"
    and evolves :: "'r \<Rightarrow> 'r \<Rightarrow> bool"
    and sound :: "'s \<Rightarrow> bool"
  assumes evolves_refl: "evolves r r"
    and evolves_trans: "evolves r r1 \<Longrightarrow> evolves r1 r2 \<Longrightarrow> evolves r r2"
    and step_sound: "sound s \<Longrightarrow> sound (step a s)"
    and step_known: "sound s \<Longrightarrow> known s k = Some r \<Longrightarrow> \<exists>r'. known (step a s) k = Some r' \<and> evolves r r'"
begin

lemma history_sound: "sound s \<Longrightarrow> sound (fold step ops s)"
  by (induction ops arbitrary: s) (simp_all add: step_sound)

lemma history_known: "sound s \<Longrightarrow> known s k = Some r \<Longrightarrow> \<exists>r'. known (fold step ops s) k = Some r' \<and> evolves r r'"
proof (induction ops arbitrary: s r)
  case Nil
  then show ?case by (simp add: evolves_refl)
next
  case (Cons a ops)
  from step_known [OF Cons.prems, of a] obtain r' where r': "known (step a s) k = Some r'" "evolves r r'" by blast
  from Cons.IH [OF step_sound [OF Cons.prems(1)] r'(1)] r'(2) show ?case by (auto intro: evolves_trans)
qed

end

end
