(* ===== verification/Rust_Bytes.thy ===== *)
theory Rust_Bytes
  imports Prelude
begin

text \<open>
  Bytes: the UTF-8 bytes of a string (\<open>str::as_bytes\<close>) with their decoder, and
  \<open>to_be_bytes\<close> of the unsigned integers. Both encodings have an inverse, which is what the
  length-prefixed formats of the protocol rest on.
\<close>

unbundle bit_operations_syntax

type_synonym bytes = "u8 list"

section \<open>UTF-8\<close>

text \<open>A Rust \<open>char\<close> is a Unicode scalar value.\<close>

definition scalar_value :: "codepoint \<Rightarrow> bool" where
  "scalar_value c \<longleftrightarrow> c < 1114112 \<and> \<not> (55296 \<le> c \<and> c < 57344)"

definition valid_str :: "str \<Rightarrow> bool" where
  "valid_str s \<longleftrightarrow> list_all scalar_value s"

definition utf8_char :: "codepoint \<Rightarrow> nat list" where
  "utf8_char c =
     (if c < 128 then [c]
      else if c < 2048 then [192 + c div 64, 128 + c mod 64]
      else if c < 65536 then [224 + c div 4096, 128 + (c div 64) mod 64, 128 + c mod 64]
      else [240 + c div 262144, 128 + (c div 4096) mod 64, 128 + (c div 64) mod 64, 128 + c mod 64])"

definition as_bytes :: "str \<Rightarrow> bytes" where
  "as_bytes s = map of_nat (concat (map utf8_char s))"

text \<open>The decoder: how many bytes the first one announces.\<close>

fun utf8_decode :: "nat list \<Rightarrow> str" where
  "utf8_decode [] = []"
| "utf8_decode (a # rest) =
     (if a < 128 then a # utf8_decode rest
      else if a < 224 then
        (case rest of b # rest' \<Rightarrow> ((a - 192) * 64 + (b - 128)) # utf8_decode rest' | _ \<Rightarrow> [])
      else if a < 240 then
        (case rest of b # c # rest' \<Rightarrow>
           ((a - 224) * 4096 + (b - 128) * 64 + (c - 128)) # utf8_decode rest' | _ \<Rightarrow> [])
      else
        (case rest of b # c # d # rest' \<Rightarrow>
           ((a - 240) * 262144 + (b - 128) * 4096 + (c - 128) * 64 + (d - 128)) # utf8_decode rest' | _ \<Rightarrow> []))"

text \<open>\<open>String::from_utf8\<close>: the string whose encoding the bytes are, if there is one.\<close>

definition from_utf8 :: "bytes \<Rightarrow> str option" where
  "from_utf8 bs = (let s = utf8_decode (map unat bs) in if valid_str s \<and> as_bytes s = bs then Some s else None)"

lemma utf8_decode_char:
  assumes "c < 1114112"
  shows "utf8_decode (utf8_char c @ rest) = c # utf8_decode rest"
proof -
  have two: "c div 64 * 64 + c mod 64 = c" by simp
  have three: "c div 4096 * 4096 + (c div 64) mod 64 * 64 + c mod 64 = c"
  proof -
    have "c div 4096 = c div 64 div 64" by (simp add: div_mult2_eq [symmetric])
    then have "c div 4096 * 64 + (c div 64) mod 64 = c div 64" by simp
    then have "(c div 4096 * 64 + (c div 64) mod 64) * 64 + c mod 64 = c" using two by simp
    then show ?thesis by (simp add: distrib_right)
  qed
  have four: "c div 262144 * 262144 + (c div 4096) mod 64 * 4096 + (c div 64) mod 64 * 64 + c mod 64 = c"
  proof -
    have "c div 262144 = c div 4096 div 64" by (simp add: div_mult2_eq [symmetric])
    then have "c div 262144 * 64 + (c div 4096) mod 64 = c div 4096" by simp
    then have "(c div 262144 * 64 + (c div 4096) mod 64) * 4096 + (c div 64) mod 64 * 64 + c mod 64 = c"
      using three by simp
    then show ?thesis by (simp add: distrib_right)
  qed
  have "c < 2048 \<Longrightarrow> c div 64 < 32" "c < 65536 \<Longrightarrow> c div 4096 < 16" "c div 262144 < 5"
    using assms by (simp_all add: less_mult_imp_div_less)
  with two three four show ?thesis by (auto simp: utf8_char_def)
qed

lemma utf8_decode_concat:
  "list_all scalar_value s \<Longrightarrow> utf8_decode (concat (map utf8_char s)) = s"
  by (induction s) (simp_all add: utf8_decode_char scalar_value_def)

lemma utf8_char_byte: "c < 1114112 \<Longrightarrow> b \<in> set (utf8_char c) \<Longrightarrow> b < 256"
proof -
  assume c: "c < 1114112" and b: "b \<in> set (utf8_char c)"
  have "c < 2048 \<Longrightarrow> c div 64 < 32" "c < 65536 \<Longrightarrow> c div 4096 < 16" "c div 262144 < 5"
    using c by (simp_all add: less_mult_imp_div_less)
  moreover have "n mod 64 < 64" for n :: nat by simp
  ultimately show ?thesis using b by (auto simp: utf8_char_def split: if_splits intro: add_less_le_mono less_trans)
qed

lemma unat_of_nat_byte: "n < 256 \<Longrightarrow> unat (of_nat n :: u8) = n"
  by (simp add: unat_of_nat take_bit_nat_eq_self)

lemma as_bytes_decode: "valid_str s \<Longrightarrow> utf8_decode (map unat (as_bytes s)) = s"
proof -
  assume "valid_str s"
  then have s: "list_all scalar_value s" by (simp add: valid_str_def)
  then have "map unat (as_bytes s) = concat (map utf8_char s)"
    by (auto simp: as_bytes_def o_def list_all_iff scalar_value_def intro!: map_idI unat_of_nat_byte)
       (use utf8_char_byte in blast)
  then show ?thesis using utf8_decode_concat [OF s] by simp
qed

lemma as_bytes_inject: "valid_str s \<Longrightarrow> valid_str t \<Longrightarrow> as_bytes s = as_bytes t \<longleftrightarrow> s = t"
  by (metis as_bytes_decode)

section \<open>Big-endian integers\<close>

definition to_be_bytes_u32 :: "u32 \<Rightarrow> bytes" where
  "to_be_bytes_u32 n = [ucast (drop_bit 24 n), ucast (drop_bit 16 n), ucast (drop_bit 8 n), ucast n]"

definition to_be_bytes_u64 :: "u64 \<Rightarrow> bytes" where
  "to_be_bytes_u64 n =
     [ucast (drop_bit 56 n), ucast (drop_bit 48 n), ucast (drop_bit 40 n), ucast (drop_bit 32 n),
      ucast (drop_bit 24 n), ucast (drop_bit 16 n), ucast (drop_bit 8 n), ucast n]"

lemma length_to_be_bytes [simp]:
  "length (to_be_bytes_u32 n) = 4" "length (to_be_bytes_u64 m) = 8"
  by (simp_all add: to_be_bytes_u32_def to_be_bytes_u64_def)

lemma ucast_byte_bit: "(ucast (drop_bit k (a :: 'a::len word)) :: u8) = ucast (drop_bit k b) \<Longrightarrow>
    k \<le> i \<Longrightarrow> i < k + 8 \<Longrightarrow> bit a i = bit b i"
proof -
  assume eq: "(ucast (drop_bit k a) :: u8) = ucast (drop_bit k b)" and i: "k \<le> i" "i < k + 8"
  have "bit (ucast (drop_bit k a) :: u8) (i - k) = bit (ucast (drop_bit k b) :: u8) (i - k)" by (simp add: eq)
  moreover have "i - k < 8" using i by linarith
  ultimately show ?thesis using i by (simp add: bit_simps)
qed

lemma to_be_bytes_u32_inject [simp]: "to_be_bytes_u32 a = to_be_bytes_u32 b \<longleftrightarrow> a = b"
proof
  assume eq: "to_be_bytes_u32 a = to_be_bytes_u32 b"
  show "a = b"
  proof (rule bit_word_eqI)
    fix i assume "i < LENGTH(32)"
    then consider "24 \<le> i \<and> i < 32" | "16 \<le> i \<and> i < 24" | "8 \<le> i \<and> i < 16" | "0 \<le> i \<and> i < 8" by fastforce
    then show "bit a i = bit b i"
      using eq ucast_byte_bit [of 24 a b i] ucast_byte_bit [of 16 a b i] ucast_byte_bit [of 8 a b i]
        ucast_byte_bit [of 0 a b i]
      by cases (simp_all add: to_be_bytes_u32_def)
  qed
qed simp

lemma to_be_bytes_u64_inject [simp]: "to_be_bytes_u64 a = to_be_bytes_u64 b \<longleftrightarrow> a = b"
proof
  assume eq: "to_be_bytes_u64 a = to_be_bytes_u64 b"
  show "a = b"
  proof (rule bit_word_eqI)
    fix i assume "i < LENGTH(64)"
    then consider "56 \<le> i \<and> i < 64" | "48 \<le> i \<and> i < 56" | "40 \<le> i \<and> i < 48" | "32 \<le> i \<and> i < 40"
      | "24 \<le> i \<and> i < 32" | "16 \<le> i \<and> i < 24" | "8 \<le> i \<and> i < 16" | "0 \<le> i \<and> i < 8" by fastforce
    then show "bit a i = bit b i"
      using eq ucast_byte_bit [of 56 a b i] ucast_byte_bit [of 48 a b i] ucast_byte_bit [of 40 a b i]
        ucast_byte_bit [of 32 a b i] ucast_byte_bit [of 24 a b i] ucast_byte_bit [of 16 a b i]
        ucast_byte_bit [of 8 a b i] ucast_byte_bit [of 0 a b i]
      by cases (simp_all add: to_be_bytes_u64_def)
  qed
qed simp

section \<open>Length-prefixed fields\<close>

text \<open>\<open>(bytes.len() as u64).to_be_bytes()\<close> followed by the bytes.\<close>

definition len_prefixed :: "bytes \<Rightarrow> bytes" where
  "len_prefixed b = to_be_bytes_u64 (of_nat (length b)) @ b"

text \<open>A slice in memory is shorter than \<open>2\<^sup>6\<^sup>3\<close> bytes.\<close>

lemma len_prefixed_inject:
  assumes "length a < 2 ^ 64" and "length b < 2 ^ 64"
  shows "len_prefixed a @ x = len_prefixed b @ y \<longleftrightarrow> a = b \<and> x = y"
proof
  assume eq: "len_prefixed a @ x = len_prefixed b @ y"
  then have "to_be_bytes_u64 (of_nat (length a)) = to_be_bytes_u64 (of_nat (length b))" and rest: "a @ x = b @ y"
    by (simp_all add: len_prefixed_def)
  then have "(of_nat (length a) :: u64) = of_nat (length b)" by simp
  then have "unat (of_nat (length a) :: u64) = unat (of_nat (length b) :: u64)" by simp
  then have "length a = length b" using assms by (simp add: unat_of_nat take_bit_nat_eq_self)
  with rest show "a = b \<and> x = y" by simp
qed simp

section \<open>Reading and comparing big-endian integers\<close>

fun be_value :: "bytes \<Rightarrow> nat" where
  "be_value [] = 0"
| "be_value (b # bs) = unat b * 256 ^ length bs + be_value bs"

definition from_be_bytes_u64 :: "bytes \<Rightarrow> u64" where
  "from_be_bytes_u64 bs = of_nat (be_value bs)"

text \<open>The order of \<open>BLOB\<close> values in SQLite: byte by byte, a prefix first.\<close>

fun blob_less :: "bytes \<Rightarrow> bytes \<Rightarrow> bool" where
  "blob_less [] bs \<longleftrightarrow> bs \<noteq> []"
| "blob_less (a # as) [] \<longleftrightarrow> False"
| "blob_less (a # as) (b # bs) \<longleftrightarrow> a < b \<or> a = b \<and> blob_less as bs"

lemma be_value_less: "be_value bs < 256 ^ length bs"
proof (induction bs)
  case (Cons b bs)
  have "unat b < 256" using unsigned_less [of b] by simp
  have "unat b * 256 ^ length bs + be_value bs < Suc (unat b) * 256 ^ length bs" using Cons.IH by simp
  also have "\<dots> \<le> 256 * 256 ^ length bs" using \<open>unat b < 256\<close> by (intro mult_le_mono1) simp
  finally show ?case by simp
qed simp

lemma unat_byte: "unat (ucast (drop_bit k n) :: u8) = unat n div 2 ^ k mod 256" for n :: u64
proof -
  have "unat (ucast (drop_bit k n) :: u8) = take_bit 8 (drop_bit k (unat n))"
    by (simp add: unsigned_ucast_eq unat_drop_bit_eq)
  then show ?thesis by (simp add: drop_bit_eq_div take_bit_eq_mod)
qed

lemma be_value_to_be_bytes: "be_value (to_be_bytes_u64 n) = unat n"
proof -
  define N where "N = unat n"
  have split: "N div (m * 256) * 256 + N div m mod 256 = N div m" for m
    by (simp add: div_mult2_eq)
  have "N div 2 ^ 56 < 256" using unsigned_less [of n, where 'a = nat] by (simp add: N_def less_mult_imp_div_less)
  then have "N div 2 ^ 56 mod 256 = N div 2 ^ 56" by simp
  moreover have "unat (ucast n :: u8) = N mod 256" by (simp add: N_def unsigned_ucast_eq take_bit_eq_mod)
  ultimately have "be_value (to_be_bytes_u64 n) =
      ((((((N div 2 ^ 56 * 256 + N div 2 ^ 48 mod 256) * 256 + N div 2 ^ 40 mod 256) * 256 + N div 2 ^ 32 mod 256) * 256
        + N div 2 ^ 24 mod 256) * 256 + N div 2 ^ 16 mod 256) * 256 + N div 2 ^ 8 mod 256) * 256 + N mod 256"
    by (simp add: to_be_bytes_u64_def unat_byte flip: N_def)
  also have "\<dots> = N"
    using split [of "2 ^ 48"] split [of "2 ^ 40"] split [of "2 ^ 32"] split [of "2 ^ 24"] split [of "2 ^ 16"]
      split [of "2 ^ 8"] split [of 1] by simp
  finally show ?thesis by (simp add: N_def)
qed

lemma from_to_be_bytes [simp]: "from_be_bytes_u64 (to_be_bytes_u64 n) = n"
  by (simp add: from_be_bytes_u64_def be_value_to_be_bytes)

text \<open>On values of one width the byte order is the numeric order.\<close>

lemma blob_less_be_value: "length as = length bs \<Longrightarrow> blob_less as bs \<longleftrightarrow> be_value as < be_value bs"
proof (induction as bs rule: list_induct2)
  case (Cons a as b bs)
  have less: "be_value as < 256 ^ length bs" "be_value bs < 256 ^ length bs"
    using be_value_less [of as] be_value_less [of bs] Cons.hyps by simp_all
  have up: "x * 256 ^ length bs + be_value as < y * 256 ^ length bs + be_value bs" if "x < y" for x y :: nat
  proof -
    have "x * 256 ^ length bs + be_value as < Suc x * 256 ^ length bs" using less(1) by simp
    also have "\<dots> \<le> y * 256 ^ length bs" using that by (intro mult_le_mono1) simp
    finally show ?thesis by simp
  qed
  have down: "\<not> x * 256 ^ length bs + be_value as < y * 256 ^ length bs + be_value bs" if "y < x" for x y :: nat
  proof -
    have "y * 256 ^ length bs + be_value bs < Suc y * 256 ^ length bs" using less(2) by simp
    also have "\<dots> \<le> x * 256 ^ length bs" using that by (intro mult_le_mono1) simp
    finally show ?thesis by simp
  qed
  consider "unat a < unat b" | "unat a = unat b" | "unat b < unat a" by linarith
  then show ?case
    using Cons up [of "unat a" "unat b"] down [of "unat b" "unat a"]
    by cases (auto simp: word_less_nat_alt word_unat_eq_iff)
qed simp

lemma blob_less_antisym: "length as = length bs \<Longrightarrow> \<not> blob_less as bs \<Longrightarrow> \<not> blob_less bs as \<Longrightarrow> as = bs"
  by (induction as bs rule: list_induct2) (auto simp: not_less)

lemma blob_less_to_be_bytes [simp]: "blob_less (to_be_bytes_u64 a) (to_be_bytes_u64 b) \<longleftrightarrow> a < b"
  by (simp add: blob_less_be_value be_value_to_be_bytes word_less_nat_alt)

end
