(* ===== verification/Runtime_Policy.thy ===== *)
theory Runtime_Policy
  imports Prelude "HOL-Library.Sublist"
begin

text \<open>
  The pure decisions of the runtime policy crate. \<open>src/crates/runtime-policy/src/artifact.rs\<close>
  decides from the text of a path whether a job may write there;
  \<open>src/crates/runtime-policy/src/network.rs\<close> decides on a host, and
  \<open>src/crates/runtime-policy/src/vram.rs\<close> bounds the memory of a job. The firewall backend
  (\<open>OsFirewallBackend\<close>) is a parameter: its one answer \<open>can_enforce\<close>.

  The check of a path works on text: it splits, drops empty parts and dots, joins again and compares
  prefixes of strings. It is shown to be the component-wise decision one means by it, and, read as a
  walk through directories, an accepted path ends below a writable prefix.
\<close>

section \<open>Splitting and joining text\<close>

text \<open>\<open>str::split\<close> at one character, and \<open>[&str]::join\<close>.\<close>

fun split_char :: "codepoint \<Rightarrow> str \<Rightarrow> str list" where
  "split_char c [] = [[]]"
| "split_char c (x # xs) =
     (if x = c then [] # split_char c xs
      else (case split_char c xs of [] \<Rightarrow> [[x]] | p # ps \<Rightarrow> (x # p) # ps))"

fun join_char :: "codepoint \<Rightarrow> str list \<Rightarrow> str" where
  "join_char c [] = []"
| "join_char c [p] = p"
| "join_char c (p # q # ps) = p @ c # join_char c (q # ps)"

definition trim_end_char :: "codepoint \<Rightarrow> str \<Rightarrow> str" where
  "trim_end_char c s = rev (dropWhile (\<lambda>x. x = c) (rev s))"

definition trim_char :: "codepoint \<Rightarrow> str \<Rightarrow> str" where
  "trim_char c s = trim_end_char c (dropWhile (\<lambda>x. x = c) s)"

definition ends_with_char :: "codepoint \<Rightarrow> str \<Rightarrow> bool" where
  "ends_with_char c s \<longleftrightarrow> s \<noteq> [] \<and> last s = c"

lemma split_char_not_Nil [simp]: "split_char c s \<noteq> []"
  by (induction s) (auto split: list.splits)

lemma split_char_append: "split_char c (s @ c # t) = split_char c s @ split_char c t"
proof (induction s)
  case (Cons x s)
  then show ?case by (cases "split_char c s") auto
qed simp

lemma split_char_free: "c \<notin> set p \<Longrightarrow> split_char c p = [p]"
  by (induction p) auto

lemma split_char_parts: "p \<in> set (split_char c s) \<Longrightarrow> c \<notin> set p"
proof (induction s arbitrary: p)
  case (Cons x s)
  then show ?case by (cases "split_char c s") (auto split: if_splits)
qed simp

lemma split_char_elems: "p \<in> set (split_char c s) \<Longrightarrow> set p \<subseteq> set s"
proof (induction s arbitrary: p)
  case (Cons x s)
  then show ?case by (cases "split_char c s") (auto split: if_splits, blast+)
qed simp

lemma join_char_append:
  "ps \<noteq> [] \<Longrightarrow> qs \<noteq> [] \<Longrightarrow> join_char c (ps @ qs) = join_char c ps @ c # join_char c qs"
proof (induction c ps rule: join_char.induct)
  case (2 c p)
  then show ?case by (cases qs) auto
qed auto

lemma join_split: "join_char c (split_char c s) = s"
proof (induction s)
  case (Cons x s)
  then show ?case
    by (cases "split_char c s" rule: list.exhaust, simp, cases "tl (split_char c s)") auto
qed simp

lemma split_join: "ps \<noteq> [] \<Longrightarrow> \<forall>p \<in> set ps. c \<notin> set p \<Longrightarrow> split_char c (join_char c ps) = ps"
  by (induction c ps rule: join_char.induct) (auto simp: split_char_free split_char_append)

text \<open>Comparing joined text with a directory prefix is comparing the lists of the parts.\<close>

lemma joined_below_iff:
  assumes "ps \<noteq> []" and free: "\<forall>p \<in> set ps. c \<notin> set p"
  shows "join_char c ps = pre \<or> prefix (pre @ [c]) (join_char c ps) \<longleftrightarrow> prefix (split_char c pre) ps"
proof
  assume "join_char c ps = pre \<or> prefix (pre @ [c]) (join_char c ps)"
  then consider "join_char c ps = pre" | rest where "join_char c ps = pre @ c # rest"
    by (auto simp: prefix_def)
  then show "prefix (split_char c pre) ps"
    using split_join [OF assms] by cases (auto simp: split_char_append)
next
  assume "prefix (split_char c pre) ps"
  then obtain qs where qs: "ps = split_char c pre @ qs" by (auto simp: prefix_def)
  show "join_char c ps = pre \<or> prefix (pre @ [c]) (join_char c ps)"
    by (cases "qs = []") (simp_all add: qs join_split join_char_append)
qed

text \<open>The characters the check looks for.\<close>

abbreviation slash :: codepoint where "slash \<equiv> 0x2F"
abbreviation backslash :: codepoint where "backslash \<equiv> 0x5C"
abbreviation colon :: codepoint where "colon \<equiv> 0x3A"
abbreviation dot :: codepoint where "dot \<equiv> 0x2E"
abbreviation space :: codepoint where "space \<equiv> 0x20"

section \<open>Artifact paths (\<open>artifact.rs\<close>)\<close>

datatype artifact_violation =
    PathTraversal str
  | AbsolutePath str
  | OutsideAllowedPrefixes str
  | NtfsAlternateDataStream str
  | InvisibleCharacters str
  | NonAscii str
  | WindowsReservedName str str
  | TrailingDotOrSpace str

definition has_invisible_chars :: "str \<Rightarrow> bool" where
  "has_invisible_chars s \<longleftrightarrow>
     (\<exists>cp \<in> set s. cp \<le> 0x1f \<or> 0x7f \<le> cp \<and> cp \<le> 0x9f \<or> 0x200b \<le> cp \<and> cp \<le> 0x200f
       \<or> 0x2028 \<le> cp \<and> cp \<le> 0x202e \<or> 0x2060 \<le> cp \<and> cp \<le> 0x206f \<or> cp = 0xfeff)"

definition WINDOWS_RESERVED_NAMES :: "str list" where
  "WINDOWS_RESERVED_NAMES =
     map lit [''CON'', ''PRN'', ''AUX'', ''NUL'', ''COM1'', ''COM2'', ''COM3'', ''COM4'', ''COM5'', ''COM6'', ''COM7'',
       ''COM8'', ''COM9'', ''LPT1'', ''LPT2'', ''LPT3'', ''LPT4'', ''LPT5'', ''LPT6'', ''LPT7'', ''LPT8'', ''LPT9'']"

definition is_windows_reserved_name :: "str \<Rightarrow> bool" where
  "is_windows_reserved_name component =
     (let stem = hd (split_char dot component)
      in \<exists>reserved \<in> set WINDOWS_RESERVED_NAMES. eq_ignore_ascii_case reserved stem)"

record artifact_policy =
  ap_writable_prefixes :: "str list"

definition artifact_policy_new :: "str list \<Rightarrow> artifact_policy" where
  "artifact_policy_new writable_prefixes =
     \<lparr>ap_writable_prefixes =
       filter (\<lambda>p. let trimmed = trim_char slash p in trimmed \<noteq> [] \<and> trimmed \<noteq> lit ''.'') writable_prefixes\<rparr>"

definition normalize_separators :: "str \<Rightarrow> str" where
  "normalize_separators s = map (\<lambda>c. if c = backslash then slash else c) s"

definition check_component :: "str \<Rightarrow> str \<Rightarrow> artifact_violation + unit" where
  "check_component requested raw_component =
     (if raw_component = [] \<or> raw_component = lit ''.'' \<or> raw_component = lit ''..'' then Ok ()
      else and_then (reject_if (ends_with_char dot raw_component
               \<or> ends_with_char space raw_component) (TrailingDotOrSpace requested)) (\<lambda>_.
           reject_if (is_windows_reserved_name raw_component) (WindowsReservedName requested raw_component)))"

text \<open>\<open>Path::is_absolute\<close> of a text without a colon that does not begin with the separator is
  false, on Unix (no root) and on Windows (no prefix component), so the second disjunct of that guard
  never decides.\<close>

definition named_parts :: "str \<Rightarrow> str list" where
  "named_parts normalized = filter (\<lambda>p. p \<noteq> [] \<and> p \<noteq> lit ''.'') (split_char slash normalized)"

definition artifact_check :: "artifact_policy \<Rightarrow> str \<Rightarrow> artifact_violation + unit" where
  "artifact_check policy requested =
     and_then (reject_if (has_invisible_chars requested) (InvisibleCharacters requested)) (\<lambda>_.
     and_then (reject_if (\<not> is_ascii requested) (NonAscii requested)) (\<lambda>_.
     let normalized = normalize_separators requested in
     and_then (reject_if (colon \<in> set normalized) (NtfsAlternateDataStream requested)) (\<lambda>_.
     and_then (reject_if (prefix [slash] normalized) (AbsolutePath requested)) (\<lambda>_.
     and_then (for_each (\<lambda>raw_component _. check_component requested raw_component)
                 (split_char slash normalized) ()) (\<lambda>_.
     let parts = named_parts normalized in
     and_then (reject_if (\<exists>p \<in> set parts. p = lit ''..'') (PathTraversal requested)) (\<lambda>_.
     let rebuilt = join_char slash parts in
     and_then (reject_if (rebuilt = []) (OutsideAllowedPrefixes requested)) (\<lambda>_.
     let allowed = (\<exists>pre \<in> set (ap_writable_prefixes policy).
           let pre = trim_end_char slash pre in rebuilt = pre \<or> prefix (pre @ [slash]) rebuilt) in
     reject_if (\<not> allowed) (OutsideAllowedPrefixes requested))))))))"

subsection \<open>What the text filter decides\<close>

text \<open>The parts of a path that name something, and what makes such a part acceptable.\<close>

definition path_names :: "str \<Rightarrow> str list" where
  "path_names requested = named_parts (normalize_separators requested)"

definition plain_name :: "str \<Rightarrow> bool" where
  "plain_name p \<longleftrightarrow> p \<noteq> lit ''..'' \<and> \<not> ends_with_char dot p
     \<and> \<not> ends_with_char space p \<and> \<not> is_windows_reserved_name p"

lemma named_parts_free: "p \<in> set (named_parts s) \<Longrightarrow> slash \<notin> set p \<and> p \<noteq> []"
  by (auto simp: named_parts_def dest: split_char_parts)

lemma join_named_Nil_iff: "join_char slash (named_parts s) = [] \<longleftrightarrow> named_parts s = []"
proof (cases "named_parts s")
  case (Cons p ps)
  then show ?thesis using named_parts_free [of p s] by (cases ps) auto
qed simp

lemma check_component_Ok:
  "check_component requested p = Ok () \<longleftrightarrow> p = [] \<or> p = lit ''.'' \<or> p = lit ''..'' \<or> plain_name p"
  by (auto simp: check_component_def plain_name_def and_then_Ok reject_if_Ok)

lemma dot_dot_ends_with_dot: "ends_with_char dot (lit ''..'')"
  by (simp add: ends_with_char_def)

text \<open>A prefix that \<open>new\<close> drops could not have allowed anything.\<close>

lemma trim_end_char_Nil_iff: "trim_end_char c s = [] \<longleftrightarrow> (\<forall>x \<in> set s. x = c)"
  by (simp add: trim_end_char_def)

lemma trim_end_char_append: "trim_end_char c b \<noteq> [] \<Longrightarrow> trim_end_char c (a @ b) = a @ trim_end_char c b"
  by (auto simp: trim_end_char_def dropWhile_append)

lemma split_char_leading: "\<forall>x \<in> set a. x = c \<Longrightarrow> c \<notin> set p \<Longrightarrow> p \<in> set (split_char c (a @ p))"
  by (induction a) (auto simp: split_char_free)

lemma dropped_prefix_allows_nothing:
  assumes "trim_char slash pre = [] \<or> trim_char slash pre = lit ''.''"
  shows "\<exists>p \<in> set (split_char slash (trim_end_char slash pre)). p = [] \<or> p = lit ''.''"
proof -
  let ?a = "takeWhile (\<lambda>x. x = slash) pre" and ?b = "dropWhile (\<lambda>x. x = slash) pre"
  have pre: "pre = ?a @ ?b" by simp
  have a: "\<forall>x \<in> set ?a. x = slash" by (auto dest: set_takeWhileD)
  show ?thesis
  proof (cases "trim_end_char slash ?b = []")
    case True
    then have "\<forall>x \<in> set (?a @ ?b). x = slash" using a unfolding set_append trim_end_char_Nil_iff by blast
    then have "\<forall>x \<in> set pre. x = slash" by simp
    then have "trim_end_char slash pre = []" by (simp add: trim_end_char_Nil_iff)
    then show ?thesis by simp
  next
    case False
    then have "trim_end_char slash ?b = lit ''.''" using assms by (simp add: trim_char_def)
    then have "trim_end_char slash pre = ?a @ lit ''.''"
      using trim_end_char_append [OF False, of ?a] pre by simp
    then show ?thesis using split_char_leading [OF a, of "lit ''.''"] by auto
  qed
qed

lemma kept_prefixes_decide:
  "(\<exists>pre \<in> set (ap_writable_prefixes (artifact_policy_new writable)).
      prefix (split_char slash (trim_end_char slash pre)) (path_names requested)) \<longleftrightarrow>
   (\<exists>pre \<in> set writable. prefix (split_char slash (trim_end_char slash pre)) (path_names requested))"
proof -
  have "trim_char slash pre \<noteq> [] \<and> trim_char slash pre \<noteq> lit ''.''"
    if "prefix (split_char slash (trim_end_char slash pre)) (path_names requested)" for pre
    using dropped_prefix_allows_nothing [of pre] set_mono_prefix [OF that]
    by (auto simp: path_names_def named_parts_def)
  then show ?thesis by (auto simp: artifact_policy_new_def Let_def)
qed

lemma printable_iff:
  "\<not> has_invisible_chars s \<and> is_ascii s \<longleftrightarrow> (\<forall>c \<in> set s. 32 \<le> c \<and> c < 127)"
proof -
  have "\<not> (c \<le> 0x1f \<or> 0x7f \<le> c \<and> c \<le> 0x9f \<or> 0x200b \<le> c \<and> c \<le> 0x200f \<or> 0x2028 \<le> c \<and> c \<le> 0x202e
      \<or> 0x2060 \<le> c \<and> c \<le> 0x206f \<or> c = 0xfeff) \<and> c < 128 \<longleftrightarrow> 32 \<le> c \<and> c < 127" for c :: nat
    by linarith
  then show ?thesis unfolding has_invisible_chars_def is_ascii_def by blast
qed

lemma colon_normalized: "colon \<in> set (normalize_separators s) \<longleftrightarrow> colon \<in> set s"
  by (auto simp: normalize_separators_def)

lemma components_ok_iff:
  "(\<forall>p \<in> set (split_char slash (normalize_separators s)). check_component s p = Ok ()) \<and>
   (\<forall>p \<in> set (path_names s). p \<noteq> lit ''..'') \<longleftrightarrow> (\<forall>p \<in> set (path_names s). plain_name p)"
  using dot_dot_ends_with_dot
  by (auto simp: check_component_Ok path_names_def named_parts_def plain_name_def)

text \<open>The text filter accepts a path exactly when it is printable ASCII without a colon, does not
  begin with a separator, names at least one component, has only plain components (no parent
  directory, no trailing dot or space, no device name) and its list of components begins with the
  components of one of the writable prefixes: comparing the joined text with the prefixes never
  confuses a directory with another whose name merely begins alike.\<close>

lemma artifact_check_iff:
  "artifact_check (artifact_policy_new writable) requested = Ok () \<longleftrightarrow>
     (\<forall>c \<in> set requested. 32 \<le> c \<and> c < 127) \<and> colon \<notin> set requested \<and>
     \<not> prefix [slash] (normalize_separators requested) \<and>
     path_names requested \<noteq> [] \<and> (\<forall>p \<in> set (path_names requested). plain_name p) \<and>
     (\<exists>pre \<in> set writable. prefix (split_char slash (trim_end_char slash pre)) (path_names requested))"
proof -
  let ?ps = "path_names requested"
  have below: "(join_char slash ?ps = pre \<or> prefix (pre @ [slash]) (join_char slash ?ps))
      \<longleftrightarrow> prefix (split_char slash pre) ?ps" if "?ps \<noteq> []" for pre
    using joined_below_iff [OF that] named_parts_free by (auto simp: path_names_def)
  have "artifact_check (artifact_policy_new writable) requested = Ok () \<longleftrightarrow>
      (\<not> has_invisible_chars requested \<and> is_ascii requested) \<and> colon \<notin> set requested \<and>
      \<not> prefix [slash] (normalize_separators requested) \<and> ?ps \<noteq> [] \<and>
      ((\<forall>p \<in> set (split_char slash (normalize_separators requested)). check_component requested p = Ok ()) \<and>
       (\<forall>p \<in> set ?ps. p \<noteq> lit ''..'')) \<and>
      (\<exists>pre \<in> set (ap_writable_prefixes (artifact_policy_new writable)).
         prefix (split_char slash (trim_end_char slash pre)) ?ps)"
    by (cases "?ps = []")
      (auto simp: artifact_check_def Let_def and_then_Ok reject_if_Ok for_each_unit_Ok colon_normalized
        join_named_Nil_iff [folded path_names_def] below path_names_def [symmetric] simp del: lit_simps)
  then show ?thesis by (simp only: printable_iff components_ok_iff kept_prefixes_decide)
qed

subsection \<open>Where an accepted path leads\<close>

text \<open>Reading a path as a walk from a directory: an empty part and a dot stay, two dots go to the
  parent directory, any other part goes into the entry of that name.\<close>

fun walk :: "str list \<Rightarrow> str list \<Rightarrow> str list" where
  "walk dir [] = dir"
| "walk dir (p # ps) =
     (if p = [] \<or> p = lit ''.'' then walk dir ps
      else if p = lit ''..'' then walk (butlast dir) ps
      else walk (dir @ [p]) ps)"

lemma walk_named:
  "\<forall>p \<in> set (named_parts s). p \<noteq> lit ''..'' \<Longrightarrow> walk dir (split_char slash s) = dir @ named_parts s"
proof -
  have "walk dir ps = dir @ filter (\<lambda>p. p \<noteq> [] \<and> p \<noteq> lit ''.'') ps"
    if "\<forall>p \<in> set (filter (\<lambda>p. p \<noteq> [] \<and> p \<noteq> lit ''.'') ps). p \<noteq> lit ''..''" for ps
    using that by (induction ps arbitrary: dir) auto
  then show "\<forall>p \<in> set (named_parts s). p \<noteq> lit ''..'' \<Longrightarrow> ?thesis" by (simp add: named_parts_def)
qed

text \<open>C33: from whatever directory the path is resolved, an accepted path ends in a directory entry
  below it, inside one of the writable prefixes, and every step of the way has a plain name. The
  walk is that of a file system without links: the source leaves links to the runtime.\<close>

theorem accepted_path_stays_inside:
  assumes "artifact_check (artifact_policy_new writable) requested = Ok ()"
  shows "\<exists>pre \<in> set writable. \<exists>rest.
    walk dir (split_char slash (normalize_separators requested)) = dir @ split_char slash (trim_end_char slash pre) @ rest
    \<and> (\<forall>p \<in> set (split_char slash (trim_end_char slash pre) @ rest). p \<noteq> [] \<and> plain_name p)"
proof -
  note ok = assms [unfolded artifact_check_iff]
  obtain pre rest where pre: "pre \<in> set writable"
    and names: "path_names requested = split_char slash (trim_end_char slash pre) @ rest"
    using ok by (auto simp: prefix_def)
  have "walk dir (split_char slash (normalize_separators requested)) = dir @ path_names requested"
    using ok walk_named [of "normalize_separators requested"] by (simp add: path_names_def plain_name_def)
  moreover have "\<forall>p \<in> set (path_names requested). p \<noteq> [] \<and> plain_name p"
    using ok named_parts_free by (auto simp: path_names_def)
  ultimately show ?thesis using pre names by metis
qed

theorem accepted_path_stays_inside_witness:
  "\<exists>pre \<in> set [lit ''jobs/job-1/'']. \<exists>rest.
    walk [lit ''srv''] (split_char slash (normalize_separators (lit ''jobs//job-1/./model.bin'')))
      = [lit ''srv''] @ split_char slash (trim_end_char slash pre) @ rest
    \<and> (\<forall>p \<in> set (split_char slash (trim_end_char slash pre) @ rest). p \<noteq> [] \<and> plain_name p)"
proof -
  have "artifact_check (artifact_policy_new [lit ''jobs/job-1/'']) (lit ''jobs//job-1/./model.bin'') = Ok ()"
    by (simp add: artifact_check_iff path_names_def named_parts_def normalize_separators_def plain_name_def
        ends_with_char_def is_windows_reserved_name_def WINDOWS_RESERVED_NAMES_def eq_ignore_ascii_case_def
        to_ascii_lowercase_def trim_end_char_def)
  from accepted_path_stays_inside [OF this] show ?thesis .
qed

section \<open>Network (\<open>network.rs\<close>) and video memory (\<open>vram.rs\<close>)\<close>

datatype network_decision = NetworkAllowed | NetworkDenied str | NoEnforcementBackend

definition permits_execution :: "network_decision \<Rightarrow> bool" where
  "permits_execution d = (case d of NetworkAllowed \<Rightarrow> True | _ \<Rightarrow> False)"

text \<open>\<open>NoFirewallBackend::can_enforce\<close>, the only backend of the repository.\<close>

definition no_firewall_can_enforce :: bool where
  "no_firewall_can_enforce = False"

definition decide :: "str list \<Rightarrow> bool \<Rightarrow> str \<Rightarrow> network_decision" where
  "decide runtime_allow_hosts can_enforce requested_host =
     (if \<not> can_enforce then NoEnforcementBackend
      else if \<exists>h \<in> set runtime_allow_hosts. h = requested_host then NetworkAllowed
      else NetworkDenied requested_host)"

lemma decide_permits_iff:
  "permits_execution (decide hosts can_enforce host) \<longleftrightarrow> can_enforce \<and> host \<in> set hosts"
  by (auto simp: decide_def permits_execution_def)

lemma no_backend_no_execution: "\<not> permits_execution (decide hosts no_firewall_can_enforce host)"
  by (simp add: decide_permits_iff no_firewall_can_enforce_def)

datatype vram_enforcement = NoQuotaMechanism | WindowsCommitCap u64

definition guarantees_hard_limit :: "vram_enforcement \<Rightarrow> bool" where
  "guarantees_hard_limit e = False"

definition WINDOWS_JOB_OBJECT_RESERVED_BYTES :: u64 where
  "WINDOWS_JOB_OBJECT_RESERVED_BYTES = 2000 * 1024 * 1024"

definition windows_commit_cap :: "u64 \<Rightarrow> vram_enforcement" where
  "windows_commit_cap ram_limit_bytes =
     WindowsCommitCap (saturating_sub ram_limit_bytes WINDOWS_JOB_OBJECT_RESERVED_BYTES)"

datatype host_protection_claim = S1ProtectsAgainstArbitraryNativeCode | S1DoesNotProtectHost

definition is_honest :: "host_protection_claim \<Rightarrow> bool" where
  "is_honest c = (case c of S1DoesNotProtectHost \<Rightarrow> True | _ \<Rightarrow> False)"

text \<open>The cap never underflows: with the reserved bytes it exceeds the limit only when the limit is
  below the reserve, and then it is zero.\<close>

lemma windows_commit_cap_bounds:
  "\<exists>cap. windows_commit_cap ram = WindowsCommitCap cap \<and> unat cap = unat ram - 2097152000 \<and> cap \<le> ram"
  by (auto simp: windows_commit_cap_def unat_saturating_sub WINDOWS_JOB_OBJECT_RESERVED_BYTES_def word_le_nat_alt)

end
