(* ===== verification/File_System.thy ===== *)
theory File_System
  imports Sql_Tx Rust_Collections Rust_Bytes Runtime_Policy
begin

text \<open>
  Files and directories as \<open>std::fs\<close> gives them to the crates, and the write-once primitive
  of \<open>src/crates/checkpoint/src/atomic.rs\<close> over them.

  A path is the list of its components (the reading of \<open>Path\<close> on Unix). Calls of the operating
  system use the tape of \<open>Sql_Tx\<close>: the next entry says whether the call fails, so every
  pattern of failing calls is a tape. Writing is modelled byte by byte, so a failing write leaves any
  prefix of the data behind. A process that dies at some call is a run in which this call and all
  later ones fail: nothing happens after it. Syncing has no effect on what a process sees; what a
  machine that loses power keeps of unsynced data is not modelled.
\<close>

section \<open>Paths\<close>

type_synonym path = "str list"

datatype component = RootDir | CurDir | ParentDir | Normal str

definition path_part :: "str \<Rightarrow> component list" where
  "path_part p = (if p = [] \<or> p = lit ''.'' then [] else if p = lit ''..'' then [ParentDir] else [Normal p])"

text \<open>\<open>Path::components\<close>: repeated separators and single dots vanish, except a leading dot.\<close>

definition path_components :: "str \<Rightarrow> component list" where
  "path_components name =
     (let parts = split_char slash name in
      (if name \<noteq> [] \<and> hd name = slash then [RootDir] else if hd parts = lit ''.'' then [CurDir] else []) @
      concat (map path_part parts))"

definition normal_name :: "component \<Rightarrow> str list" where
  "normal_name c = (case c of Normal s \<Rightarrow> [s] | _ \<Rightarrow> [])"

text \<open>\<open>dir.join(name)\<close> for a relative name without a parent component.\<close>

definition join_path :: "path \<Rightarrow> str \<Rightarrow> path" where
  "join_path dir name = dir @ concat (map normal_name (path_components name))"

section \<open>Calls of the operating system\<close>

datatype io_error = NotFound | AccessDenied | FileTooLarge | InvalidInput | OtherIo

definition io_fault :: "sql_error \<Rightarrow> io_error" where
  "io_fault e = (case e of SqliteBusyOrLocked \<Rightarrow> AccessDenied | SqliteOther \<Rightarrow> OtherIo)"

record fs = sql_conn +
  fs_files :: "(path, bytes) hash_map"
  fs_dirs :: "path list"
  fs_slept :: "nat list"

type_synonym 'a io = "fs \<Rightarrow> (io_error + 'a) \<times> fs"

definition fs_file :: "fs \<Rightarrow> path \<Rightarrow> bytes option" where
  "fs_file s p = hm_get (fs_files s) p"

definition fs_nop :: "unit io" where
  "fs_nop = statement io_fault (\<lambda>s. ((), s))"

text \<open>\<open>File::create\<close> empties an existing file; the lock file is opened without truncating it.\<close>

definition fs_create :: "path \<Rightarrow> unit io" where
  "fs_create p = statement_result io_fault (\<lambda>s.
     if butlast p \<notin> set (fs_dirs s) then (Err NotFound, s)
     else (Ok (), s\<lparr>fs_files := hm_insert p [] (fs_files s)\<rparr>))"

definition fs_open_or_create :: "path \<Rightarrow> unit io" where
  "fs_open_or_create p = statement_result io_fault (\<lambda>s.
     if butlast p \<notin> set (fs_dirs s) then (Err NotFound, s)
     else (Ok (), case fs_file s p of
         Some _ \<Rightarrow> s
       | None \<Rightarrow> s\<lparr>fs_files := hm_insert p [] (fs_files s)\<rparr>))"

definition fs_append :: "path \<Rightarrow> u8 \<Rightarrow> unit io" where
  "fs_append p b = statement io_fault (\<lambda>s. ((), case fs_file s p of
       Some bs \<Rightarrow> s\<lparr>fs_files := hm_insert p (bs @ [b]) (fs_files s)\<rparr>
     | None \<Rightarrow> s))"

fun fs_write_all :: "path \<Rightarrow> bytes \<Rightarrow> unit io" where
  "fs_write_all p [] = tx_return ()"
| "fs_write_all p (b # bs) = tx_bind (fs_append p b) (\<lambda>_. fs_write_all p bs)"

definition fs_read :: "path \<Rightarrow> bytes io" where
  "fs_read p = statement_result io_fault (\<lambda>s. (ok_or (fs_file s p) (if p \<in> set (fs_dirs s) then OtherIo else NotFound), s))"

text \<open>\<open>Path::exists\<close> and \<open>Path::is_dir\<close> answer \<open>false\<close> when the call fails.\<close>

definition fs_exists :: "path \<Rightarrow> bool io" where
  "fs_exists p s = (case statement io_fault (\<lambda>s. (fs_file s p \<noteq> None \<or> p \<in> set (fs_dirs s), s)) s of
     (Inl _, s') \<Rightarrow> (Ok False, s')
   | (Inr b, s') \<Rightarrow> (Ok b, s'))"

definition fs_is_dir :: "path \<Rightarrow> bool io" where
  "fs_is_dir p s = (case statement io_fault (\<lambda>s. (p \<in> set (fs_dirs s), s)) s of
     (Inl _, s') \<Rightarrow> (Ok False, s')
   | (Inr b, s') \<Rightarrow> (Ok b, s'))"

definition fs_rename :: "path \<Rightarrow> path \<Rightarrow> unit io" where
  "fs_rename a b = statement_result io_fault (\<lambda>s. case fs_file s a of
     None \<Rightarrow> (Err NotFound, s)
   | Some bs \<Rightarrow> if b \<in> set (fs_dirs s) then (Err OtherIo, s)
       else (Ok (), s\<lparr>fs_files := hm_insert b bs (hm_remove a (fs_files s))\<rparr>))"

definition fs_remove_file :: "path \<Rightarrow> unit io" where
  "fs_remove_file p = statement_result io_fault (\<lambda>s. case fs_file s p of
     None \<Rightarrow> (Err NotFound, s)
   | Some _ \<Rightarrow> (Ok (), s\<lparr>fs_files := hm_remove p (fs_files s)\<rparr>))"

definition fs_create_dir_all :: "path \<Rightarrow> unit io" where
  "fs_create_dir_all p = statement_result io_fault (\<lambda>s.
     if fs_file s p \<noteq> None then (Err OtherIo, s)
     else (Ok (), s\<lparr>fs_dirs := List.union (prefixes p) (fs_dirs s)\<rparr>))"

text \<open>The names a directory lists, files and directories.\<close>

definition fs_children :: "fs \<Rightarrow> path \<Rightarrow> str list" where
  "fs_children s dir = remdups (map last (filter (\<lambda>p. p \<noteq> [] \<and> butlast p = dir) (map fst (fs_files s) @ fs_dirs s)))"

definition fs_read_dir :: "path \<Rightarrow> str list io" where
  "fs_read_dir dir = statement_result io_fault (\<lambda>s.
     if dir \<in> set (fs_dirs s) then (Ok (fs_children s dir), s) else (Err NotFound, s))"

text \<open>\<open>let _ = ...\<close>: the error is dropped.\<close>

definition ignore_err :: "'a io \<Rightarrow> fs \<Rightarrow> (('e + unit) \<times> fs)" where
  "ignore_err m s = (Ok (), snd (m s))"

end
