(* ===== verification/Protocol_States.thy ===== *)
theory Protocol_States
  imports Prelude
begin

text \<open>
  The state tables of the protocol: job states (\<open>crates/protocol/src/job_state.rs\<close>),
  attempt states (\<open>crates/protocol/src/attempt_state.rs\<close>) and the durability states of a
  checkpoint (\<open>crates/checkpoint/src/durability.rs\<close>). Every table is a match over pairs of
  states; a transition that is not in the table is an error value.

  The locale \<open>transition_table\<close> states what the three have in common: a fallible step that
  succeeds exactly on the pairs of the table and then returns the target. Its lemmas (runs are
  paths, gates that a path must pass, sets that are never left) are used on all three.
\<close>

section \<open>The interface of a table\<close>

locale transition_table =
  fixes allowed :: "'s \<Rightarrow> 's \<Rightarrow> bool"
    and step :: "'s \<Rightarrow> 's \<Rightarrow> 'e + 's"
  assumes step_Ok: "step a b = Ok c \<longleftrightarrow> allowed a b \<and> c = b"
begin

text \<open>A run: the steps of a path one after the other, stopping at the first error.\<close>

abbreviation run :: "'s \<Rightarrow> 's list \<Rightarrow> 'e + 's" where
  "run a path \<equiv> for_each (\<lambda>b current. step current b) path a"

lemma run_Cons_Ok: "run a (b # path) = Ok c \<longleftrightarrow> allowed a b \<and> run b path = Ok c"
  by (auto simp: and_then_Ok step_Ok)

lemma run_is_path:
  "run a path = Ok c \<longleftrightarrow> successively allowed (a # path) \<and> c = last (a # path)"
  by (induction path arbitrary: a) (auto simp: run_Cons_Ok simp del: for_each.simps(2))

text \<open>A region that can be entered through one state only is entered through it.\<close>

lemma must_pass:
  assumes "run a path = Ok c" and "a \<notin> region" and "c \<in> region"
    and "\<And>x y. allowed x y \<Longrightarrow> x \<notin> region \<Longrightarrow> y \<in> region \<Longrightarrow> y = gate"
  shows "gate \<in> set path"
  using assms(1-3)
proof (induction path arbitrary: a)
  case Nil
  then show ?case by simp
next
  case (Cons b path)
  then have "allowed a b" "run b path = Ok c" by (simp_all add: run_Cons_Ok del: for_each.simps(2))
  with Cons.IH Cons.prems(2,3) assms(4) show ?case by (cases "b \<in> region") auto
qed

text \<open>A region that no transition leaves is never left.\<close>

lemma never_left:
  assumes "run a path = Ok c" and "a \<in> region"
    and "\<And>x y. allowed x y \<Longrightarrow> x \<in> region \<Longrightarrow> y \<in> region"
  shows "c \<in> region"
  using assms(1,2)
proof (induction path arbitrary: a)
  case (Cons b path)
  then show ?case using assms(3) by (auto simp: run_Cons_Ok simp del: for_each.simps(2))
qed simp

lemma visited_then:
  assumes "run a path = Ok c" and "v \<in> set path" and "v \<in> region"
    and "\<And>x y. allowed x y \<Longrightarrow> x \<in> region \<Longrightarrow> y \<in> region"
  shows "c \<in> region"
  using assms(1,2)
proof (induction path arbitrary: a)
  case (Cons b path)
  then have "run b path = Ok c" by (simp add: run_Cons_Ok del: for_each.simps(2))
  with Cons show ?case using never_left [OF _ _ assms(4)] assms(3) by (cases "b = v") auto
qed simp

end

section \<open>Job states\<close>

datatype job_state =
    JobSubmitted | JobPlanning | JobQueued | JobStaging | JobRunning | JobInterrupted
  | JobReplanning | JobPaused | JobReconciling | JobCompleted | JobFailed | JobCancelled
  | JobArchived

definition ALL_JOB_STATES :: "job_state list" where
  "ALL_JOB_STATES =
     [JobSubmitted, JobPlanning, JobQueued, JobStaging, JobRunning, JobInterrupted, JobReplanning,
      JobPaused, JobReconciling, JobCompleted, JobFailed, JobCancelled, JobArchived]"

fun job_table_name :: "job_state \<Rightarrow> string" where
  "job_table_name JobSubmitted = ''SUBMITTED''"
| "job_table_name JobPlanning = ''PLANNING''"
| "job_table_name JobQueued = ''QUEUED''"
| "job_table_name JobStaging = ''STAGING''"
| "job_table_name JobRunning = ''RUNNING''"
| "job_table_name JobInterrupted = ''INTERRUPTED''"
| "job_table_name JobReplanning = ''REPLANNING''"
| "job_table_name JobPaused = ''PAUSED''"
| "job_table_name JobReconciling = ''RECONCILING''"
| "job_table_name JobCompleted = ''COMPLETED''"
| "job_table_name JobFailed = ''FAILED''"
| "job_table_name JobCancelled = ''CANCELLED''"
| "job_table_name JobArchived = ''ARCHIVED''"

definition job_transition_triggers :: "job_state \<Rightarrow> job_state \<Rightarrow> string list" where
  "job_transition_triggers from to =
     (case (from, to) of
        (JobSubmitted, JobPlanning) \<Rightarrow> [''PLANNING_STARTED'']
      | (JobSubmitted, JobCancelled) \<Rightarrow> [''USER_CANCELLED'']
      | (JobPlanning, JobQueued) \<Rightarrow> [''PLAN_READY'']
      | (JobPlanning, JobFailed) \<Rightarrow> [''NO_FEASIBLE_PLAN'']
      | (JobPlanning, JobCancelled) \<Rightarrow> [''USER_CANCELLED'']
      | (JobQueued, JobStaging) \<Rightarrow> [''RESOURCE_AVAILABLE'']
      | (JobQueued, JobPlanning) \<Rightarrow> [''REPLAN_REQUIRED'']
      | (JobQueued, JobFailed) \<Rightarrow> [''DEADLINE_PASSED'', ''QUEUE_TIMEOUT'', ''PERMANENTLY_INFEASIBLE'']
      | (JobQueued, JobCancelled) \<Rightarrow> [''USER_CANCELLED'']
      | (JobStaging, JobRunning) \<Rightarrow> [''STAGING_COMPLETE'']
      | (JobStaging, JobFailed) \<Rightarrow> [''STAGING_FAILED'']
      | (JobStaging, JobQueued) \<Rightarrow> [''STAGING_NODE_LOST'']
      | (JobStaging, JobCancelled) \<Rightarrow> [''USER_CANCELLED'']
      | (JobRunning, JobCompleted) \<Rightarrow> [''ATTEMPT_COMPLETED'']
      | (JobRunning, JobInterrupted) \<Rightarrow> [''NODE_LOST'']
      | (JobRunning, JobFailed) \<Rightarrow> [''UNRECOVERABLE_ERROR'']
      | (JobRunning, JobPaused) \<Rightarrow> [''PARTITION_PAUSE'', ''OWNER_PREEMPT'', ''USER_PAUSED'']
      | (JobRunning, JobReconciling) \<Rightarrow> [''DUPLICATE_COMPLETION'']
      | (JobRunning, JobCancelled) \<Rightarrow> [''USER_CANCELLED'']
      | (JobInterrupted, JobReplanning) \<Rightarrow> [''FAILOVER_STARTED'']
      | (JobInterrupted, JobFailed) \<Rightarrow> [''NO_COMMITTED_CHECKPOINT'']
      | (JobInterrupted, JobCancelled) \<Rightarrow> [''USER_CANCELLED'']
      | (JobReplanning, JobQueued) \<Rightarrow> [''REPLAN_READY'']
      | (JobReplanning, JobStaging) \<Rightarrow> [''REPLAN_DIRECT'']
      | (JobReplanning, JobFailed) \<Rightarrow> [''NO_FEASIBLE_PLAN'']
      | (JobReplanning, JobCancelled) \<Rightarrow> [''USER_CANCELLED'']
      | (JobPaused, JobRunning) \<Rightarrow> [''RESUMED'']
      | (JobPaused, JobFailed) \<Rightarrow> [''PAUSE_TIMEOUT'']
      | (JobPaused, JobCancelled) \<Rightarrow> [''USER_CANCELLED'']
      | (JobReconciling, JobCompleted) \<Rightarrow> [''CANONICAL_CHOSEN'']
      | (JobReconciling, JobFailed) \<Rightarrow> [''ALL_ATTEMPTS_INVALID'']
      | (JobReconciling, JobReconciling) \<Rightarrow> [''TIE_UNRESOLVED'']
      | (JobCompleted, JobArchived) \<Rightarrow> [''RETENTION_EXPIRED'']
      | _ \<Rightarrow> [])"

definition job_is_terminal :: "job_state \<Rightarrow> bool" where
  "job_is_terminal s \<longleftrightarrow> \<not> (\<exists>t \<in> set ALL_JOB_STATES. job_transition_triggers s t \<noteq> [])"

definition job_is_finished :: "job_state \<Rightarrow> bool" where
  "job_is_finished s \<longleftrightarrow> s \<in> {JobCompleted, JobFailed, JobCancelled, JobArchived}"

datatype job_transition_rejected = JobTransitionRejected job_state job_state

definition job_transition :: "job_state \<Rightarrow> job_state \<Rightarrow> job_transition_rejected + job_state" where
  "job_transition from to =
     (if job_transition_triggers from to \<noteq> [] then Ok to else Err (JobTransitionRejected from to))"

definition job_transition_via :: "job_state \<Rightarrow> job_state \<Rightarrow> string \<Rightarrow> job_transition_rejected + job_state" where
  "job_transition_via from to trigger =
     (if trigger \<in> set (job_transition_triggers from to) then Ok to else Err (JobTransitionRejected from to))"

definition job_walk :: "job_state \<Rightarrow> job_state list \<Rightarrow> job_transition_rejected + job_state" where
  "job_walk from path = for_each (\<lambda>s current. job_transition current s) path from"

section \<open>Attempt states\<close>

datatype attempt_state =
    AttemptCreated | AttemptStarting | AttemptRunning | AttemptPaused | AttemptStale
  | AttemptCompleted | AttemptFailed | AttemptCancelled | AttemptReconciling
  | AttemptCanonical | AttemptSuperseded | AttemptRunUnknown

definition ALL_ATTEMPT_STATES :: "attempt_state list" where
  "ALL_ATTEMPT_STATES =
     [AttemptCreated, AttemptStarting, AttemptRunning, AttemptPaused, AttemptStale,
      AttemptCompleted, AttemptFailed, AttemptCancelled, AttemptReconciling,
      AttemptCanonical, AttemptSuperseded, AttemptRunUnknown]"

fun attempt_table_name :: "attempt_state \<Rightarrow> string" where
  "attempt_table_name AttemptCreated = ''CREATED''"
| "attempt_table_name AttemptStarting = ''STARTING''"
| "attempt_table_name AttemptRunning = ''RUNNING''"
| "attempt_table_name AttemptPaused = ''PAUSED''"
| "attempt_table_name AttemptStale = ''STALE''"
| "attempt_table_name AttemptCompleted = ''COMPLETED''"
| "attempt_table_name AttemptFailed = ''FAILED''"
| "attempt_table_name AttemptCancelled = ''CANCELLED''"
| "attempt_table_name AttemptReconciling = ''RECONCILING''"
| "attempt_table_name AttemptCanonical = ''CANONICAL''"
| "attempt_table_name AttemptSuperseded = ''SUPERSEDED''"
| "attempt_table_name AttemptRunUnknown = ''RUN_UNKNOWN''"

definition attempt_transition_triggers :: "attempt_state \<Rightarrow> attempt_state \<Rightarrow> string list" where
  "attempt_transition_triggers from to =
     (case (from, to) of
        (AttemptCreated, AttemptStarting) \<Rightarrow> [''GRANT_ACCEPTED'']
      | (AttemptCreated, AttemptCancelled) \<Rightarrow> [''GRANT_REJECTED'', ''JOB_CANCELLED'']
      | (AttemptStarting, AttemptRunning) \<Rightarrow> [''PROCESS_STARTED'']
      | (AttemptStarting, AttemptFailed) \<Rightarrow> [''START_FAILED'']
      | (AttemptStarting, AttemptRunUnknown) \<Rightarrow> [''START_UNCONFIRMED'']
      | (AttemptRunning, AttemptCompleted) \<Rightarrow> [''WORKLOAD_EXITED_OK'']
      | (AttemptRunning, AttemptFailed) \<Rightarrow>
          [''WORKLOAD_EXITED_ERROR'', ''WATCHDOG_KILLED'', ''OUTPUT_FINALIZATION_FAILED'', ''EXITED_WITHOUT_CODE'']
      | (AttemptRunning, AttemptRunUnknown) \<Rightarrow> [''EXIT_UNOBSERVED'']
      | (AttemptRunning, AttemptPaused) \<Rightarrow> [''PAUSE_REQUESTED'']
      | (AttemptRunning, AttemptStale) \<Rightarrow> [''LEASE_EXPIRED'']
      | (AttemptPaused, AttemptRunning) \<Rightarrow> [''RESUME_REQUESTED'']
      | (AttemptPaused, AttemptCancelled) \<Rightarrow> [''JOB_CANCELLED'']
      | (AttemptPaused, AttemptRunUnknown) \<Rightarrow> [''PAUSE_STOP_UNCONFIRMED'']
      | (AttemptStale, AttemptRunning) \<Rightarrow> [''LEASE_RENEWED'']
      | (AttemptStale, AttemptCompleted) \<Rightarrow> [''STALE_WORKLOAD_FINISHED'']
      | (AttemptStale, AttemptFailed) \<Rightarrow> [''STALE_WORKLOAD_FAILED'']
      | (AttemptStale, AttemptReconciling) \<Rightarrow> [''RECONNECTED_WITH_RESULT'']
      | (AttemptCompleted, AttemptReconciling) \<Rightarrow> [''DUPLICATE_DETECTED'']
      | (AttemptReconciling, AttemptCanonical) \<Rightarrow> [''SELECTED'']
      | (AttemptReconciling, AttemptSuperseded) \<Rightarrow> [''NOT_SELECTED'']
      | (AttemptReconciling, AttemptFailed) \<Rightarrow> [''VALIDITY_FILTER_REJECTED'']
      | (AttemptRunUnknown, AttemptFailed) \<Rightarrow> [''STOP_CONFIRMED'']
      | _ \<Rightarrow> [])"

definition attempt_is_terminal :: "attempt_state \<Rightarrow> bool" where
  "attempt_is_terminal s \<longleftrightarrow> \<not> (\<exists>t \<in> set ALL_ATTEMPT_STATES. attempt_transition_triggers s t \<noteq> [])"

datatype attempt_transition_rejected = AttemptTransitionRejected attempt_state attempt_state

definition attempt_transition :: "attempt_state \<Rightarrow> attempt_state \<Rightarrow> attempt_transition_rejected + attempt_state" where
  "attempt_transition from to =
     (if attempt_transition_triggers from to \<noteq> [] then Ok to else Err (AttemptTransitionRejected from to))"

section \<open>Durability states\<close>

datatype durability_state =
    DsWriting | DsPartial | DsLocalWritten | DsHashVerified | DsReplicating | DsReplicated
  | DsCommitted | DsCommittedDegraded

definition can_transition_to :: "durability_state \<Rightarrow> durability_state \<Rightarrow> bool" where
  "can_transition_to from to \<longleftrightarrow>
     (from, to) \<in> {(DsWriting, DsLocalWritten), (DsWriting, DsPartial), (DsLocalWritten, DsHashVerified),
       (DsLocalWritten, DsPartial), (DsHashVerified, DsReplicating), (DsHashVerified, DsCommitted),
       (DsReplicating, DsReplicated), (DsReplicating, DsHashVerified), (DsReplicated, DsCommitted),
       (DsReplicated, DsReplicating), (DsCommitted, DsCommittedDegraded), (DsCommittedDegraded, DsCommitted)}"

datatype invalid_transition = InvalidTransition durability_state durability_state

definition durability_transition ::
    "durability_state \<Rightarrow> durability_state \<Rightarrow> invalid_transition + durability_state" where
  "durability_transition from to =
     (if can_transition_to from to then Ok to else Err (InvalidTransition from to))"

definition is_canonical_candidate :: "durability_state \<Rightarrow> bool" where
  "is_canonical_candidate s \<longleftrightarrow> s \<in> {DsCommitted, DsCommittedDegraded}"

fun state_marker_name :: "durability_state \<Rightarrow> string" where
  "state_marker_name DsWriting = ''.durability.writing''"
| "state_marker_name DsPartial = ''.durability.partial''"
| "state_marker_name DsLocalWritten = ''.durability.local-written''"
| "state_marker_name DsHashVerified = ''.durability.hash-verified''"
| "state_marker_name DsReplicating = ''.durability.replicating''"
| "state_marker_name DsReplicated = ''.durability.replicated''"
| "state_marker_name DsCommitted = ''.durability.committed''"
| "state_marker_name DsCommittedDegraded = ''.durability.committed-degraded''"

section \<open>The three tables implement the interface\<close>

interpretation job: transition_table "\<lambda>a b. job_transition_triggers a b \<noteq> []" job_transition
  by unfold_locales (auto simp: job_transition_def)

interpretation attempt: transition_table "\<lambda>a b. attempt_transition_triggers a b \<noteq> []" attempt_transition
  by unfold_locales (auto simp: attempt_transition_def)

interpretation durability: transition_table can_transition_to durability_transition
  by unfold_locales (auto simp: durability_transition_def)

lemma job_table_cases:
  "job_transition_triggers a b \<noteq> [] \<longleftrightarrow> (a, b) \<in> {(JobSubmitted, JobPlanning),
     (JobSubmitted, JobCancelled), (JobPlanning, JobQueued), (JobPlanning, JobFailed),
     (JobPlanning, JobCancelled), (JobQueued, JobStaging), (JobQueued, JobPlanning),
     (JobQueued, JobFailed), (JobQueued, JobCancelled), (JobStaging, JobRunning),
     (JobStaging, JobFailed), (JobStaging, JobQueued), (JobStaging, JobCancelled),
     (JobRunning, JobCompleted), (JobRunning, JobInterrupted), (JobRunning, JobFailed),
     (JobRunning, JobPaused), (JobRunning, JobReconciling), (JobRunning, JobCancelled),
     (JobInterrupted, JobReplanning), (JobInterrupted, JobFailed), (JobInterrupted, JobCancelled),
     (JobReplanning, JobQueued), (JobReplanning, JobStaging), (JobReplanning, JobFailed),
     (JobReplanning, JobCancelled), (JobPaused, JobRunning), (JobPaused, JobFailed),
     (JobPaused, JobCancelled), (JobReconciling, JobCompleted), (JobReconciling, JobFailed),
     (JobReconciling, JobReconciling), (JobCompleted, JobArchived)}"
  by (cases a; cases b; simp add: job_transition_triggers_def)

lemma attempt_table_cases:
  "attempt_transition_triggers a b \<noteq> [] \<longleftrightarrow> (a, b) \<in> {(AttemptCreated, AttemptStarting),
     (AttemptCreated, AttemptCancelled), (AttemptStarting, AttemptRunning),
     (AttemptStarting, AttemptFailed), (AttemptStarting, AttemptRunUnknown),
     (AttemptRunning, AttemptCompleted), (AttemptRunning, AttemptFailed),
     (AttemptRunning, AttemptRunUnknown), (AttemptRunning, AttemptPaused),
     (AttemptRunning, AttemptStale), (AttemptPaused, AttemptRunning),
     (AttemptPaused, AttemptCancelled), (AttemptPaused, AttemptRunUnknown),
     (AttemptStale, AttemptRunning), (AttemptStale, AttemptCompleted), (AttemptStale, AttemptFailed),
     (AttemptStale, AttemptReconciling), (AttemptCompleted, AttemptReconciling),
     (AttemptReconciling, AttemptCanonical), (AttemptReconciling, AttemptSuperseded),
     (AttemptReconciling, AttemptFailed), (AttemptRunUnknown, AttemptFailed)}"
  by (cases a; cases b; simp add: attempt_transition_triggers_def)

lemma all_job_states: "set ALL_JOB_STATES = UNIV"
proof (rule set_eqI)
  show "s \<in> set ALL_JOB_STATES \<longleftrightarrow> s \<in> UNIV" for s by (cases s) (simp_all add: ALL_JOB_STATES_def)
qed

lemma all_attempt_states: "set ALL_ATTEMPT_STATES = UNIV"
proof (rule set_eqI)
  show "s \<in> set ALL_ATTEMPT_STATES \<longleftrightarrow> s \<in> UNIV" for s by (cases s) (simp_all add: ALL_ATTEMPT_STATES_def)
qed

section \<open>Properties\<close>

lemma job_walk_run: "job_walk a path = Ok c \<longleftrightarrow> job.run a path = Ok c"
  by (simp add: job_walk_def)

text \<open>
  A job cannot skip a stage. Whatever sequence of transitions the table accepts from
  \<open>JobSubmitted\<close>: a job that is neither submitted nor cancelled was planned, one that is
  staged, running, interrupted, replanning, paused or reconciling was queued and staged, and
  one that is completed or archived was also running.
\<close>

theorem job_walk_gates:
  assumes "job_walk JobSubmitted path = Ok s"
  shows "(s \<notin> {JobSubmitted, JobCancelled} \<longrightarrow> JobPlanning \<in> set path) \<and>
     (s \<in> {JobStaging, JobRunning, JobInterrupted, JobReplanning, JobPaused, JobReconciling,
            JobCompleted, JobArchived} \<longrightarrow> JobQueued \<in> set path \<and> JobStaging \<in> set path) \<and>
     (s \<in> {JobCompleted, JobArchived} \<longrightarrow> JobRunning \<in> set path)"
proof -
  note run = assms [unfolded job_walk_run]
  have "JobPlanning \<in> set path" if "s \<notin> {JobSubmitted, JobCancelled}"
    by (rule job.must_pass [OF run, of "- {JobSubmitted, JobCancelled}"])
       (use that in \<open>auto simp: job_table_cases\<close>)
  moreover have "JobQueued \<in> set path \<and> JobStaging \<in> set path"
    if "s \<in> {JobStaging, JobRunning, JobInterrupted, JobReplanning, JobPaused, JobReconciling,
          JobCompleted, JobArchived}"
    by (intro conjI job.must_pass [OF run, of "- {JobSubmitted, JobPlanning, JobFailed, JobCancelled}"]
          job.must_pass [OF run, of "- {JobSubmitted, JobPlanning, JobQueued, JobFailed, JobCancelled}"])
       (use that in \<open>auto simp: job_table_cases\<close>)
  moreover have "JobRunning \<in> set path" if "s \<in> {JobCompleted, JobArchived}"
    by (rule job.must_pass [OF run, of "{JobRunning, JobInterrupted, JobReplanning, JobPaused,
          JobReconciling, JobCompleted, JobArchived}"])
       (use that in \<open>auto simp: job_table_cases\<close>)
  ultimately show ?thesis by blast
qed

theorem job_walk_gates_witness:
  "job_walk JobSubmitted [JobPlanning, JobQueued, JobStaging, JobRunning, JobCompleted] = Ok JobCompleted \<and>
   JobRunning \<in> set [JobPlanning, JobQueued, JobStaging, JobRunning, JobCompleted]"
proof -
  have ok: "job_walk JobSubmitted [JobPlanning, JobQueued, JobStaging, JobRunning, JobCompleted] = Ok JobCompleted"
    by (simp add: job_walk_def job_transition_def job_transition_triggers_def)
  from job_walk_gates [OF ok] ok show ?thesis by blast
qed

text \<open>
  A finished job stays finished. No accepted sequence of transitions leads from a
  completed, failed, cancelled or archived job to any other state than these, and from a
  terminal state (exactly the failed, cancelled and archived ones) there is none at all.
\<close>

theorem job_finished_forever:
  assumes "job_walk s path = Ok t"
  shows "(job_is_finished s \<longrightarrow> job_is_finished t) \<and> (job_is_terminal s \<longrightarrow> path = [] \<and> t = s) \<and>
     (job_is_terminal s \<longleftrightarrow> s \<in> {JobFailed, JobCancelled, JobArchived})"
proof -
  note run = assms [unfolded job_walk_run]
  have "job_is_finished t" if "job_is_finished s"
    using job.never_left [OF run, of "Collect job_is_finished"] that
    by (auto simp: job_is_finished_def job_table_cases)
  moreover have "path = [] \<and> t = s" if "job_is_terminal s"
    using run that
    by (cases path) (auto simp: job.run_Cons_Ok job_is_terminal_def all_job_states simp del: for_each.simps(2))
  moreover have "job_is_terminal s \<longleftrightarrow> s \<in> {JobFailed, JobCancelled, JobArchived}"
    by (cases s) (auto simp: job_is_terminal_def all_job_states job_table_cases)
  ultimately show ?thesis by blast
qed

theorem job_finished_forever_witness:
  "job_walk JobCompleted [JobArchived] = Ok JobArchived \<and> job_is_finished JobArchived"
proof -
  have ok: "job_walk JobCompleted [JobArchived] = Ok JobArchived"
    by (simp add: job_walk_def job_transition_def job_transition_triggers_def)
  from job_finished_forever [OF ok] ok show ?thesis by (simp add: job_is_finished_def)
qed

text \<open>
  An attempt whose outcome became unknown is never counted as a success. Along any
  accepted sequence of transitions from \<open>AttemptCreated\<close>: once \<open>AttemptRunUnknown\<close> has
  been visited the attempt is still unknown or failed; a completed, reconciling, canonical or
  superseded attempt was running before; and a canonical attempt was reconciled.
\<close>

theorem attempt_outcomes:
  assumes "for_each (\<lambda>b current. attempt_transition current b) path AttemptCreated = Ok s"
  shows "(AttemptRunUnknown \<in> set path \<longrightarrow> s \<in> {AttemptRunUnknown, AttemptFailed}) \<and>
     (s \<in> {AttemptCompleted, AttemptReconciling, AttemptCanonical, AttemptSuperseded} \<longrightarrow>
        AttemptRunning \<in> set path) \<and>
     (s = AttemptCanonical \<longrightarrow> AttemptReconciling \<in> set path)"
proof -
  have "s \<in> {AttemptRunUnknown, AttemptFailed}" if "AttemptRunUnknown \<in> set path"
    by (rule attempt.visited_then [OF assms that]) (auto simp: attempt_table_cases)
  moreover have "AttemptRunning \<in> set path"
    if "s \<in> {AttemptCompleted, AttemptReconciling, AttemptCanonical, AttemptSuperseded}"
    by (rule attempt.must_pass [OF assms, of "{AttemptRunning, AttemptPaused, AttemptStale,
          AttemptCompleted, AttemptReconciling, AttemptCanonical, AttemptSuperseded}"])
       (use that in \<open>auto simp: attempt_table_cases\<close>)
  moreover have "AttemptReconciling \<in> set path" if "s = AttemptCanonical"
    by (rule attempt.must_pass [OF assms, of "{AttemptReconciling, AttemptCanonical, AttemptSuperseded}"])
       (use that in \<open>auto simp: attempt_table_cases\<close>)
  ultimately show ?thesis by blast
qed

theorem attempt_outcomes_witness:
  "for_each (\<lambda>b current. attempt_transition current b)
     [AttemptStarting, AttemptRunning, AttemptRunUnknown, AttemptFailed] AttemptCreated = Ok AttemptFailed \<and>
   AttemptFailed \<in> {AttemptRunUnknown, AttemptFailed}"
proof -
  have ok: "for_each (\<lambda>b current. attempt_transition current b)
     [AttemptStarting, AttemptRunning, AttemptRunUnknown, AttemptFailed] AttemptCreated = Ok AttemptFailed"
    by (simp add: attempt_transition_def attempt_transition_triggers_def)
  have "AttemptRunUnknown \<in> set [AttemptStarting, AttemptRunning, AttemptRunUnknown, AttemptFailed]" by simp
  with attempt_outcomes [OF ok] ok show ?thesis by blast
qed

text \<open>
  Only verified bytes become canonical. A checkpoint that is a canonical candidate, along
  any accepted sequence of transitions from \<open>DsWriting\<close>, was completely written locally and
  then hash-verified; one that was ever marked partial stays partial; and a canonical candidate
  remains one whatever follows.
\<close>

theorem durability_gates:
  assumes "for_each (\<lambda>b current. durability_transition current b) path DsWriting = Ok s"
  shows "(is_canonical_candidate s \<longrightarrow> DsLocalWritten \<in> set path \<and> DsHashVerified \<in> set path) \<and>
     (DsPartial \<in> set path \<longrightarrow> s = DsPartial) \<and>
     (DsCommitted \<in> set path \<longrightarrow> is_canonical_candidate s)"
proof -
  have "DsLocalWritten \<in> set path \<and> DsHashVerified \<in> set path" if "is_canonical_candidate s"
    by (intro conjI durability.must_pass [OF assms, of "- {DsWriting, DsPartial}"]
          durability.must_pass [OF assms, of "- {DsWriting, DsPartial, DsLocalWritten}"])
       (use that in \<open>auto simp: can_transition_to_def is_canonical_candidate_def\<close>)
  moreover have "s \<in> {DsPartial}" if "DsPartial \<in> set path"
    by (rule durability.visited_then [OF assms that]) (auto simp: can_transition_to_def)
  moreover have "s \<in> Collect is_canonical_candidate" if "DsCommitted \<in> set path"
    by (rule durability.visited_then [OF assms that])
       (auto simp: can_transition_to_def is_canonical_candidate_def)
  ultimately show ?thesis by blast
qed

theorem durability_gates_witness:
  "for_each (\<lambda>b current. durability_transition current b)
     [DsLocalWritten, DsHashVerified, DsCommitted, DsCommittedDegraded] DsWriting = Ok DsCommittedDegraded \<and>
   is_canonical_candidate DsCommittedDegraded"
proof -
  have ok: "for_each (\<lambda>b current. durability_transition current b)
     [DsLocalWritten, DsHashVerified, DsCommitted, DsCommittedDegraded] DsWriting = Ok DsCommittedDegraded"
    by (simp add: durability_transition_def can_transition_to_def)
  have "DsCommitted \<in> set [DsLocalWritten, DsHashVerified, DsCommitted, DsCommittedDegraded]" by simp
  with durability_gates [OF ok] ok show ?thesis by blast
qed

end
