(* ===== verification/Ckpt_Atomic.thy ===== *)
theory Ckpt_Atomic
  imports File_System Protocol_States
begin

text \<open>
  Files that appear whole or not at all, \<open>src/crates/checkpoint/src/atomic.rs\<close>, and reading below a
  directory, \<open>src/crates/checkpoint/src/platform.rs\<close> (the Linux branch).

  \<open>write_once\<close> writes a temporary file and renames it, \<open>replace_with_retry\<close> replaces the
  pointer file with a bounded number of attempts. The lemmas hold for every pattern of failing calls.
\<close>

section \<open>Errors and names\<close>

text \<open>The constant texts \<open>reason\<close> of the errors about names.\<close>

datatype unsafe_reason =
    EmptyName | ReservedLockSuffix | EscapesUpwards | AbsolutePath
  | NameTooLong | HasSeparator | DotsOnly | LeadingDot | TrailingDotOrSpace | HasNul | ReservedMarker

text \<open>
  \<open>PublicationUnmarked\<close> is the \<open>Io\<close> error whose text joins two errors: the failed publication and the
  failure to mark it.
\<close>

datatype checkpoint_error =
    CkIo io_error
  | RenameFailed path path io_error
  | ReplaceExhausted path u32 io_error
  | ContentMismatch path usize usize
  | WriteInProgress path
  | InvalidRetryPolicy
  | UnsafePath str unsafe_reason
  | HashMismatch path str str
  | CkInvalidTransition invalid_transition
  | ManifestUnreadable
  | PublicationUnmarked checkpoint_error checkpoint_error

type_synonym 'a ck = "fs \<Rightarrow> (checkpoint_error + 'a) \<times> fs"

definition ends_with :: "str \<Rightarrow> str \<Rightarrow> bool" where
  "ends_with s suf \<longleftrightarrow> suffix suf s"

definition trim_dots_and_spaces :: "str \<Rightarrow> str" where
  "trim_dots_and_spaces s = rev (dropWhile (\<lambda>c. c = 46 \<or> c = 32) (rev s))"

definition check_name_component :: "str \<Rightarrow> component \<Rightarrow> unit \<Rightarrow> checkpoint_error + unit" where
  "check_name_component name c _ = (case c of
       Normal _ \<Rightarrow> Ok ()
     | CurDir \<Rightarrow> Ok ()
     | ParentDir \<Rightarrow> Err (UnsafePath name EscapesUpwards)
     | RootDir \<Rightarrow> Err (UnsafePath name AbsolutePath))"

definition lock_suffix :: str where "lock_suffix = lit ''.write_once.lock''"
definition tmp_suffix :: str where "tmp_suffix = lit ''.tmp''"

definition validate_relative_name :: "str \<Rightarrow> checkpoint_error + unit" where
  "validate_relative_name name =
     and_then (reject_if (name = []) (UnsafePath name EmptyName)) (\<lambda>_.
     let normalized = map to_ascii_lowercase (trim_dots_and_spaces name) in
     and_then (reject_if (ends_with normalized lock_suffix) (UnsafePath name ReservedLockSuffix)) (\<lambda>_.
       for_each (check_name_component name) (path_components name) ()))"

section \<open>Writing once\<close>

definition ck_io :: "'a io \<Rightarrow> 'a ck" where
  "ck_io m = tx_map_err CkIo m"

definition sync_dir :: "path \<Rightarrow> unit ck" where
  "sync_dir dir = ck_io (tx_bind
     (statement_result io_fault (\<lambda>s. (ok_or (if dir \<in> set (fs_dirs s) then Some () else None) NotFound, s)))
     (\<lambda>_. fs_nop))"

definition try_lock :: "path \<Rightarrow> unit ck" where
  "try_lock final_path = statement (\<lambda>e. case e of
       SqliteBusyOrLocked \<Rightarrow> WriteInProgress final_path
     | SqliteOther \<Rightarrow> CkIo OtherIo) (\<lambda>s. ((), s))"

text \<open>The size of the existing file is compared before it is read; \<open>metadata\<close> fails like a read and
  gives the length of the contents. (Of a directory it would give some size: an error all the same.)\<close>

definition size_mismatch :: "path \<Rightarrow> bytes \<Rightarrow> checkpoint_error option ck" where
  "size_mismatch p data =
     tx_bind (ck_io (fs_read p)) (\<lambda>existing.
     tx_return (if length existing \<noteq> length data
       then Some (ContentMismatch p (length existing) (length data)) else None))"

definition compare_existing :: "path \<Rightarrow> path \<Rightarrow> bytes \<Rightarrow> unit ck \<Rightarrow> bool ck" where
  "compare_existing final_path lock_path data cleanup =
     tx_bind (size_mismatch final_path data) (\<lambda>mismatch.
     case mismatch of
       Some e \<Rightarrow> tx_fail e
     | None \<Rightarrow>
         tx_bind (ck_io (fs_read final_path)) (\<lambda>existing.
         tx_bind cleanup (\<lambda>_.
         if existing = data then
           tx_bind (ignore_err (fs_remove_file lock_path)) (\<lambda>_. tx_return False)
         else tx_fail (ContentMismatch final_path (length existing) (length data)))))"

definition write_tmp :: "path \<Rightarrow> bytes \<Rightarrow> unit ck" where
  "write_tmp tmp_path data = ck_io (tx_bind (fs_create tmp_path) (\<lambda>_.
     tx_bind (fs_write_all tmp_path data) (\<lambda>_. fs_nop)))"

definition rename_or_clean :: "path \<Rightarrow> path \<Rightarrow> unit ck" where
  "rename_or_clean tmp_path final_path s = (case fs_rename tmp_path final_path s of
     (Inr _, s') \<Rightarrow> (Ok (), s')
   | (Inl e, s') \<Rightarrow> (Err (RenameFailed tmp_path final_path e), snd (fs_remove_file tmp_path s')))"

definition publish_tmp :: "path \<Rightarrow> path \<Rightarrow> path \<Rightarrow> path \<Rightarrow> bytes \<Rightarrow> bool ck" where
  "publish_tmp dir final_path tmp_path lock_path data =
     tx_bind (ck_io (fs_exists final_path)) (\<lambda>raced.
     if raced then compare_existing final_path lock_path data (ignore_err (fs_remove_file tmp_path))
     else
       tx_bind (rename_or_clean tmp_path final_path) (\<lambda>_.
       tx_bind (sync_dir dir) (\<lambda>_.
       tx_bind (ignore_err (fs_remove_file lock_path)) (\<lambda>_. tx_return True))))"

definition write_once :: "path \<Rightarrow> str \<Rightarrow> bytes \<Rightarrow> bool ck" where
  "write_once dir name data =
     tx_bind (lift_result (validate_relative_name name)) (\<lambda>_.
     let final_path = join_path dir name;
         lock_path = join_path dir (name @ lock_suffix);
         tmp_path = join_path dir (name @ tmp_suffix) in
     tx_bind (ck_io (fs_open_or_create lock_path)) (\<lambda>_.
     tx_bind (try_lock final_path) (\<lambda>_.
     tx_bind (ck_io (fs_exists final_path)) (\<lambda>present.
     if present then compare_existing final_path lock_path data (tx_return ())
     else
       tx_bind (write_tmp tmp_path data) (\<lambda>_.
         publish_tmp dir final_path tmp_path lock_path data)))))"

section \<open>Replacing the pointer\<close>

text \<open>\<open>Duration\<close> in nanoseconds.\<close>

definition DURATION_MAX :: nat where "DURATION_MAX = 2 ^ 64 * 10 ^ 9 - 1"

record retry_policy =
  rt_max_attempts :: u32
  rt_initial_backoff :: nat
  rt_max_backoff :: nat

definition default_retry_policy :: retry_policy where
  "default_retry_policy = \<lparr>rt_max_attempts = 5, rt_initial_backoff = 50 * 10 ^ 6, rt_max_backoff = 2 * 10 ^ 9\<rparr>"

definition next_backoff :: "retry_policy \<Rightarrow> nat \<Rightarrow> nat" where
  "next_backoff policy backoff =
     min (if backoff * 2 \<le> DURATION_MAX then backoff * 2 else rt_max_backoff policy) (rt_max_backoff policy)"

definition sleep :: "nat \<Rightarrow> fs \<Rightarrow> fs" where
  "sleep d s = s\<lparr>fs_slept := fs_slept s @ [d]\<rparr>"

text \<open>The loop over the attempts that are left; \<open>last_err\<close> is the error of the previous one.\<close>

fun rename_attempts :: "retry_policy \<Rightarrow> path \<Rightarrow> path \<Rightarrow> path \<Rightarrow> nat \<Rightarrow> nat \<Rightarrow> io_error option \<Rightarrow> unit ck" where
  "rename_attempts policy dir tmp_path final_path 0 backoff last_err =
     tx_bind (ignore_err (fs_remove_file tmp_path)) (\<lambda>_.
       tx_fail (ReplaceExhausted final_path (rt_max_attempts policy) (case last_err of Some e \<Rightarrow> e | None \<Rightarrow> OtherIo)))"
| "rename_attempts policy dir tmp_path final_path (Suc left) backoff last_err =
     (\<lambda>s. case fs_rename tmp_path final_path s of
        (Inr _, s') \<Rightarrow> sync_dir dir s'
      | (Inl e, s') \<Rightarrow>
          if left = 0 then rename_attempts policy dir tmp_path final_path left backoff (Some e) s'
          else rename_attempts policy dir tmp_path final_path left (next_backoff policy backoff) (Some e) (sleep backoff s'))"

definition replace_with_retry :: "path \<Rightarrow> str \<Rightarrow> bytes \<Rightarrow> retry_policy \<Rightarrow> unit ck" where
  "replace_with_retry dir name data policy =
     tx_bind (lift_result (validate_relative_name name)) (\<lambda>_.
     tx_bind (lift_result (reject_if (rt_max_attempts policy = 0) InvalidRetryPolicy)) (\<lambda>_.
     let final_path = join_path dir name; tmp_path = join_path dir (name @ tmp_suffix) in
     tx_bind (write_tmp tmp_path data) (\<lambda>_.
       rename_attempts policy dir tmp_path final_path (unat (rt_max_attempts policy)) (rt_initial_backoff policy) None)))"

section \<open>Tolerating races\<close>

definition is_gone :: "io_error \<Rightarrow> bool" where "is_gone e \<longleftrightarrow> e = NotFound"

definition is_windows_delete_race :: "io_error \<Rightarrow> bool" where
  "is_windows_delete_race e \<longleftrightarrow> is_gone e \<or> e = AccessDenied"

definition RACE_WAIT :: nat where "RACE_WAIT = 20 * 10 ^ 6"

fun retry_attempts :: "nat \<Rightarrow> 'a io \<Rightarrow> io_error \<Rightarrow> 'a option io" where
  "retry_attempts 0 op last_err = tx_fail last_err"
| "retry_attempts (Suc left) op last_err =
     (\<lambda>s. case op s of
        (Inr v, s') \<Rightarrow> (Ok (Some v), s')
      | (Inl e, s') \<Rightarrow>
          if is_gone e then (Ok None, s')
          else if is_windows_delete_race e
            then retry_attempts left op e (if left = 0 then s' else sleep RACE_WAIT s')
          else (Err e, s'))"

definition retry_tolerating_race :: "'a io \<Rightarrow> 'a option io" where
  "retry_tolerating_race op = retry_attempts 10 op OtherIo"

section \<open>Reading below a directory\<close>

definition check_relative_component :: "component \<Rightarrow> bool \<Rightarrow> io_error + bool" where
  "check_relative_component c saw = (case c of Normal _ \<Rightarrow> Ok True | _ \<Rightarrow> Err InvalidInput)"

definition validate_relative :: "str \<Rightarrow> io_error + unit" where
  "validate_relative relative =
     and_then (for_each check_relative_component (path_components relative) False) (\<lambda>saw.
       reject_if (\<not> saw) InvalidInput)"

text \<open>\<open>openat2\<close> on an existing directory; a name with a NUL is refused.\<close>

definition open_beneath :: "path \<Rightarrow> str \<Rightarrow> unit io" where
  "open_beneath root relative =
     tx_bind (lift_result (validate_relative relative)) (\<lambda>_.
     tx_bind (lift_result (reject_if (0 \<in> set relative) InvalidInput)) (\<lambda>_.
     tx_bind (statement_result io_fault (\<lambda>s. (ok_or (if root \<in> set (fs_dirs s) then Some () else None) NotFound, s))) (\<lambda>_.
       statement_result io_fault (\<lambda>s.
         (ok_or (if fs_file s (join_path root relative) \<noteq> None \<or> join_path root relative \<in> set (fs_dirs s)
           then Some () else None) NotFound, s)))))"

definition read_beneath :: "path \<Rightarrow> str \<Rightarrow> bytes io" where
  "read_beneath root relative =
     tx_bind (open_beneath root relative) (\<lambda>_. fs_read (join_path root relative))"

definition read_capped :: "bytes \<Rightarrow> u64 \<Rightarrow> u64 \<Rightarrow> io_error + bytes" where
  "read_capped content declared_len max_bytes =
     and_then (reject_if (declared_len > max_bytes) FileTooLarge) (\<lambda>_.
     let data = take (unat (saturating_add max_bytes 1)) content in
     if length data > unat max_bytes then Err FileTooLarge else Ok data)"

definition read_beneath_capped :: "path \<Rightarrow> str \<Rightarrow> u64 \<Rightarrow> bytes io" where
  "read_beneath_capped root relative max_bytes =
     tx_bind (open_beneath root relative) (\<lambda>_.
     tx_bind (fs_read (join_path root relative)) (\<lambda>found.
     tx_bind (fs_read (join_path root relative)) (\<lambda>content.
       lift_result (read_capped content (of_nat (length found)) max_bytes))))"

section \<open>What the calls do to the files\<close>

lemma fs_file_tape [simp]: "fs_file (s\<lparr>db_tape := t\<rparr>) = fs_file s"
  by (simp add: fs_file_def fun_eq_iff)

lemma fs_file_slept [simp]: "fs_file (s\<lparr>fs_slept := d\<rparr>) = fs_file s"
  by (simp add: fs_file_def fun_eq_iff)

lemma fs_file_dirs [simp]: "fs_file (s\<lparr>fs_dirs := d\<rparr>) = fs_file s"
  by (simp add: fs_file_def fun_eq_iff)

lemma fs_file_files [simp]: "fs_file (s\<lparr>fs_files := m\<rparr>) = hm_get m"
  by (simp add: fs_file_def fun_eq_iff)

lemma hm_get_fun_insert: "hm_get (hm_insert p v m) = (hm_get m)(p \<mapsto> v)"
  by (simp add: hm_get_def hm_insert_def update_conv')

lemma hm_get_fun_remove: "hm_get (hm_remove p m) = (hm_get m)(p := None)"
  by (simp add: hm_get_def hm_remove_def delete_conv')

lemma hm_get_files: "hm_get (fs_files s) = fs_file s"
  by (simp add: fs_file_def fun_eq_iff)

lemmas file_table = hm_get_fun_insert hm_get_fun_remove hm_get_files

text \<open>The file \<open>final\<close> is left alone or holds \<open>data\<close>, only files in \<open>scratch\<close> change besides it.\<close>

definition writes_only :: "path \<Rightarrow> bytes \<Rightarrow> path set \<Rightarrow> fs \<Rightarrow> fs \<Rightarrow> bool" where
  "writes_only final data scratch s s' \<longleftrightarrow>
     fs_dirs s' = fs_dirs s \<and>
     (\<forall>p. p \<noteq> final \<longrightarrow> p \<notin> scratch \<longrightarrow> fs_file s' p = fs_file s p) \<and>
     (fs_file s' final = fs_file s final \<or> fs_file s' final = Some data)"

interpretation wo: tx_relation "writes_only final data scratch" for final data scratch
  by unfold_locales (auto simp: writes_only_def)

lemma writes_only_map_err: "writes_only f d S s (snd (m s)) \<Longrightarrow> writes_only f d S s (snd (ck_io m s))"
  unfolding ck_io_def by (rule wo.R_map_err)

lemma snd_ignore_err [simp]: "snd (ignore_err m s) = snd (m s)"
  by (simp add: ignore_err_def)

lemma snd_fs_exists: "\<exists>t. snd (fs_exists p s) = s\<lparr>db_tape := t\<rparr>"
  by (cases "db_tape s") (auto simp: fs_exists_def statement_def statement_result_def keep_tape split: option.splits
      intro: exI [of _ "[]"])

lemma writes_only_calls:
  assumes "p \<in> S" "p \<noteq> f"
  shows "writes_only f d S s (snd (fs_create p s))" "writes_only f d S s (snd (fs_open_or_create p s))"
    "writes_only f d S s (snd (fs_append p b s))" "writes_only f d S s (snd (fs_remove_file p s))"
  unfolding fs_create_def fs_open_or_create_def fs_append_def fs_remove_file_def
  using assms
  by - (rule wo.R_statement_result wo.R_statement, auto simp: writes_only_def file_table split: option.splits; fail)+

lemma writes_only_reads:
  "writes_only f d S s (snd (fs_read p s))" "writes_only f d S s (snd (fs_exists p s))" "writes_only f d S s (snd (fs_nop s))"
  "writes_only f d S s (snd (try_lock p s))" "writes_only f d S s (snd (sync_dir dir s))"
proof -
  from snd_fs_exists [of p s] obtain t where t: "snd (fs_exists p s) = s\<lparr>db_tape := t\<rparr>" ..
  show "writes_only f d S s (snd (fs_exists p s))" unfolding t by (rule wo.R_tape)
qed (auto simp: fs_read_def fs_nop_def try_lock_def sync_dir_def
  intro!: writes_only_map_err wo.R_bind wo.R_statement_result wo.R_statement wo.R_refl)

lemma writes_only_write_all: "p \<in> S \<Longrightarrow> p \<noteq> f \<Longrightarrow> writes_only f d S s (snd (fs_write_all p bs s))"
proof (induction bs arbitrary: s)
  case Nil
  then show ?case by (simp add: wo.R_simple)
next
  case (Cons b bs)
  then show ?case by (auto intro!: wo.R_bind writes_only_calls)
qed

lemma writes_only_write_tmp: "p \<in> S \<Longrightarrow> p \<noteq> f \<Longrightarrow> writes_only f d S s (snd (write_tmp p bs s))"
  unfolding write_tmp_def by (intro writes_only_map_err wo.R_bind writes_only_calls writes_only_write_all writes_only_reads)

section \<open>The paths of a name\<close>

lemma split_char_suffix:
  assumes "c \<notin> set suf"
  shows "split_char c (s @ suf) = butlast (split_char c s) @ [last (split_char c s) @ suf]"
proof (induction s)
  case Nil
  then show ?case using assms by (simp add: split_char_free)
next
  case (Cons x s)
  obtain p ps where "split_char c s = p # ps" by (cases "split_char c s") auto
  with Cons show ?case by (cases ps rule: rev_cases) (auto split: list.splits)
qed

definition part_names :: "str list \<Rightarrow> str list" where
  "part_names parts = concat (map (\<lambda>p. concat (map normal_name (path_part p))) parts)"

lemma part_names_snoc: "part_names (ps @ [p]) = part_names ps @ concat (map normal_name (path_part p))"
  by (simp add: part_names_def)

lemma join_path_parts: "join_path dir name = dir @ part_names (split_char slash name)"
proof -
  have "concat (map normal_name (concat (map path_part ps))) = part_names ps" for ps
    by (induction ps) (simp_all add: part_names_def)
  then show ?thesis by (simp add: join_path_def path_components_def Let_def normal_name_def)
qed

lemma part_name_plain: "2 < length p \<Longrightarrow> concat (map normal_name (path_part p)) = [p]"
  by (auto simp: path_part_def normal_name_def)

lemma part_name_cases: "concat (map normal_name (path_part p)) = [] \<or> concat (map normal_name (path_part p)) = [p]"
  by (auto simp: path_part_def normal_name_def)

text \<open>The path of a name with one of the long suffixes, against the path of the name.\<close>

lemma join_path_suffix:
  assumes "slash \<notin> set suf" and "2 < length suf"
  shows "join_path dir (name @ suf) = dir @ part_names (butlast (split_char slash name)) @ [last (split_char slash name) @ suf]"
  using assms by (simp add: join_path_parts split_char_suffix part_names_snoc part_name_plain)

lemma join_path_plain:
  "join_path dir name = dir @ part_names (butlast (split_char slash name)) \<or>
   join_path dir name = dir @ part_names (butlast (split_char slash name)) @ [last (split_char slash name)]"
  using part_name_cases [of "last (split_char slash name)"]
    part_names_snoc [of "butlast (split_char slash name)" "last (split_char slash name)"]
  by (auto simp: join_path_parts)

lemma suffix_free [simp]: "slash \<notin> set tmp_suffix" "slash \<notin> set lock_suffix" "2 < length tmp_suffix" "2 < length lock_suffix"
  by (simp_all add: tmp_suffix_def lock_suffix_def)

lemma scratch_paths_differ [simp]:
  "join_path dir (name @ tmp_suffix) \<noteq> join_path dir name" "join_path dir (name @ lock_suffix) \<noteq> join_path dir name"
  "join_path dir (name @ tmp_suffix) \<noteq> join_path dir (name @ lock_suffix)"
  using join_path_plain [of dir name] suffix_free(3,4)
  by (auto simp: join_path_suffix simp del: suffix_free(3,4)) (simp_all add: tmp_suffix_def lock_suffix_def)

abbreviation scratch_paths :: "path \<Rightarrow> str \<Rightarrow> path set" where
  "scratch_paths dir name \<equiv> {join_path dir (name @ tmp_suffix), join_path dir (name @ lock_suffix)}"

section \<open>Writing once under failing calls\<close>

lemma fs_append_Ok: "fs_append p b s = (Inr u, s') \<Longrightarrow> fs_file s p = Some bs \<Longrightarrow> fs_file s' p = Some (bs @ [b])"
  by (auto simp: fs_append_def tx_ok file_table)

lemma fs_write_all_Ok: "fs_write_all p ds s = (Inr u, s') \<Longrightarrow> fs_file s p = Some bs \<Longrightarrow> fs_file s' p = Some (bs @ ds)"
proof (induction ds arbitrary: s bs)
  case (Cons d ds)
  from Cons.prems(1) obtain s1 where "fs_append p d s = (Inr (), s1)" "fs_write_all p ds s1 = (Inr u, s')"
    by (auto simp: tx_ok)
  with Cons.IH fs_append_Ok Cons.prems(2) show ?case by fastforce
qed (simp add: tx_ok)

lemma fs_create_Ok: "fs_create p s = (Inr u, s') \<Longrightarrow> fs_file s' p = Some []"
  by (auto simp: fs_create_def tx_ok file_table split: if_splits)

lemma fs_nop_Ok: "fs_nop s = (Inr u, s') \<Longrightarrow> fs_file s' = fs_file s"
  by (auto simp: fs_nop_def tx_ok)

lemma write_tmp_Ok:
  assumes "write_tmp p data s = (Inr u, s')"
  shows "fs_file s' p = Some data"
proof -
  from assms obtain s1 s2 where "fs_create p s = (Inr (), s1)" "fs_write_all p data s1 = (Inr (), s2)" "fs_nop s2 = (Inr u, s')"
    by (auto simp: write_tmp_def ck_io_def tx_ok)
  with fs_create_Ok fs_write_all_Ok fs_nop_Ok show ?thesis by fastforce
qed

lemma fs_exists_Ok: "fs_exists p s = (Inr b, s') \<Longrightarrow> fs_file s' = fs_file s"
  by (metis fs_file_tape snd_conv snd_fs_exists)

lemma rename_or_clean_writes:
  assumes "fs_file s tmp = Some data" "tmp \<in> S" "tmp \<noteq> final"
  shows "writes_only final data S s (snd (rename_or_clean tmp final s))"
proof (cases "fs_rename tmp final s")
  case (Pair r s1)
  have "writes_only final data S s (snd (fs_rename tmp final s))"
    unfolding fs_rename_def
    by (rule wo.R_statement_result) (use assms in \<open>auto simp: writes_only_def file_table\<close>)
  with Pair have s1: "writes_only final data S s s1" by simp
  show ?thesis
  proof (cases r)
    case (Inl e)
    then show ?thesis
      using wo.R_trans [OF s1 writes_only_calls(4) [of tmp S final data s1]] assms Pair by (simp add: rename_or_clean_def)
  qed (use s1 Pair in \<open>simp add: rename_or_clean_def\<close>)
qed

lemma compare_existing_writes:
  assumes "lock \<in> S" "lock \<noteq> final" and "\<And>s. writes_only final data S s (snd (cleanup s))"
  shows "writes_only final data S s (snd (compare_existing final lock bs cleanup s))"
  unfolding compare_existing_def size_mismatch_def
  by (auto intro!: wo.R_bind writes_only_map_err writes_only_reads wo.R_simple assms writes_only_calls split: option.splits)

lemma publish_tmp_writes:
  assumes tmp: "fs_file s tmp = Some data" "tmp \<in> S" "tmp \<noteq> final" and lock: "lock \<in> S" "lock \<noteq> final"
  shows "writes_only final data S s (snd (publish_tmp dir final tmp lock data s))"
proof -
  have "writes_only final data S s1 (snd (rename_or_clean tmp final s1))" if "ck_io (fs_exists final) s = (Inr b, s1)" for b s1
    using that tmp by (intro rename_or_clean_writes) (auto simp: ck_io_def tx_ok dest: fs_exists_Ok)
  then show ?thesis
    unfolding publish_tmp_def
    using tmp lock
    by (auto intro!: wo.R_bind writes_only_map_err writes_only_reads wo.R_simple compare_existing_writes writes_only_calls)
qed

lemma write_once_writes:
  "writes_only (join_path dir name) data (scratch_paths dir name) s (snd (write_once dir name data s))"
  unfolding write_once_def Let_def
  by (auto intro!: wo.R_bind writes_only_map_err writes_only_reads wo.R_simple compare_existing_writes writes_only_calls
      writes_only_write_tmp publish_tmp_writes dest: write_tmp_Ok)

lemma fs_read_Ok: "fs_read p s = (Inr bs, s') \<longleftrightarrow> fs_file s p = Some bs \<and> (\<exists>t. s' = s\<lparr>db_tape := t\<rparr> \<and> (db_tape s = [] \<and> t = [] \<or> db_tape s = None # t))"
  by (auto simp: fs_read_def tx_ok result_ok)

lemma ck_io_Ok: "ck_io m s = (Inr x, s') \<longleftrightarrow> m s = (Inr x, s')"
  by (simp add: ck_io_def tx_ok)

lemma compare_existing_Ok:
  assumes "compare_existing final lock data cleanup s = (Inr b, s')"
    and "\<And>s. writes_only final data S s (snd (cleanup s))" and "lock \<noteq> final"
  shows "\<not> b \<and> fs_file s' final = Some data"
proof -
  from assms(1) obtain m s1 bs s2 s3 where m: "size_mismatch final data s = (Inr m, s1)"
    and bs: "fs_read final s1 = (Inr bs, s2)" and "cleanup s2 = (Inr (), s3)"
    and rest: "(if bs = data then tx_bind (ignore_err (fs_remove_file lock)) (\<lambda>_. tx_return False)
       else tx_fail (ContentMismatch final (length bs) (length data))) s3 = (Inr b, s')"
    by (auto simp: compare_existing_def ck_io_Ok tx_ok split: option.splits)
  with assms(2) [of s2] have "writes_only final data S s2 s3" by simp
  moreover from rest have "bs = data" "\<not> b" and s': "s' = snd (fs_remove_file lock s3)"
    by (auto simp: tx_ok ignore_err_def split: if_splits)
  moreover have "writes_only final data {lock} s3 s'"
    unfolding s' using assms(3) by (intro writes_only_calls) auto
  ultimately show ?thesis using bs by (auto simp: writes_only_def fs_read_Ok)
qed

lemma rename_or_clean_Ok: "rename_or_clean a b s = (Inr u, s') \<Longrightarrow> fs_file s a = Some bs \<Longrightarrow> fs_file s' b = Some bs"
  by (auto simp: rename_or_clean_def fs_rename_def tx_ok file_table split: prod.splits sum.splits option.splits if_splits)

lemma publish_tmp_Ok:
  assumes "publish_tmp dir final tmp lock data s = (Inr b, s')"
    and "fs_file s tmp = Some data" "tmp \<noteq> final" "lock \<noteq> final"
  shows "fs_file s' final = Some data"
proof -
  from assms(1) obtain raced s1 where ex: "fs_exists final s = (Inr raced, s1)"
    and rest: "(if raced then compare_existing final lock data (ignore_err (fs_remove_file tmp))
     else tx_bind (rename_or_clean tmp final) (\<lambda>_. tx_bind (sync_dir dir) (\<lambda>_.
       tx_bind (ignore_err (fs_remove_file lock)) (\<lambda>_. tx_return True)))) s1 = (Inr b, s')"
    by (auto simp: publish_tmp_def ck_io_Ok tx_ok)
  show ?thesis
  proof (cases raced)
    case True
    with rest assms(3,4) show ?thesis
      by (auto dest!: compare_existing_Ok [where S = "{tmp}"] intro: writes_only_calls)
  next
    case False
    with rest obtain s2 s3 where s2: "rename_or_clean tmp final s1 = (Inr (), s2)" "sync_dir dir s2 = (Inr (), s3)"
      "s' = snd (fs_remove_file lock s3)" by (auto simp: tx_ok ignore_err_def)
    have "writes_only final data {lock} s2 s3" using writes_only_reads(5) [of final data "{lock}" s2 dir] s2(2) by simp
    moreover have "writes_only final data {lock} s3 s'"
      unfolding s2(3) using assms(4) by (intro writes_only_calls) auto
    ultimately have "writes_only final data {lock} s2 s'" by (rule wo.R_trans)
    with rename_or_clean_Ok [OF s2(1)] fs_exists_Ok [OF ex] assms(2) show ?thesis by (auto simp: writes_only_def)
  qed
qed

lemma write_once_Ok:
  assumes "write_once dir name data s = (Inr b, s')"
  shows "fs_file s' (join_path dir name) = Some data"
  using assms
  by (auto simp: write_once_def Let_def tx_ok ck_io_Ok split: if_splits
      dest!: compare_existing_Ok [where S = "{}"] publish_tmp_Ok write_tmp_Ok intro: wo.R_simple)

section \<open>Runs on a healthy system\<close>

text \<open>When no call fails, a computation is a function of the files and directories alone:
  \<open>returns m F D r F' D'\<close> says that from files \<open>F\<close> and directories \<open>D\<close> it gives \<open>r\<close> and leaves
  \<open>F'\<close> and \<open>D'\<close>.\<close>

definition returns ::
    "(fs \<Rightarrow> ('e + 'a) \<times> fs) \<Rightarrow> (path \<Rightarrow> bytes option) \<Rightarrow> path set \<Rightarrow> 'e + 'a \<Rightarrow> (path \<Rightarrow> bytes option) \<Rightarrow> path set \<Rightarrow> bool" where
  "returns m F D r F' D' \<longleftrightarrow> (\<forall>s. db_tape s = [] \<longrightarrow> fs_file s = F \<longrightarrow> set (fs_dirs s) = D \<longrightarrow>
     (\<exists>s'. m s = (r, s') \<and> db_tape s' = [] \<and> fs_file s' = F' \<and> set (fs_dirs s') = D'))"

named_theorems healthy \<open>what the calls return when none fails\<close>

lemma returns_bind:
  "returns m F D (Ok x) F1 D1 \<Longrightarrow> returns (f x) F1 D1 r F2 D2 \<Longrightarrow> returns (tx_bind m f) F D r F2 D2"
  by (fastforce simp: returns_def tx_bind_def)

lemma returns_bind_Err: "returns m F D (Err e) F1 D1 \<Longrightarrow> returns (tx_bind m f) F D (Err e) F1 D1"
  by (fastforce simp: returns_def tx_bind_def)

lemma returns_simple [healthy]:
  "returns (tx_return x) F D (Ok x) F D" "returns (tx_fail e) F D (Err e) F D" "returns (lift_result r) F D r F D"
  by (simp_all add: returns_def tx_return_def tx_fail_def lift_result_def)

lemma returns_ck_io: "returns m F D (Ok x) F1 D1 \<Longrightarrow> returns (ck_io m) F D (Ok x) F1 D1"
  "returns m F D (Err e) F1 D1 \<Longrightarrow> returns (ck_io m) F D (Err (CkIo e)) F1 D1"
  by (fastforce simp: returns_def ck_io_def tx_map_err_def)+

lemma returns_ignore_err: "returns m F D r F1 D1 \<Longrightarrow> returns (ignore_err m) F D (Ok ()) F1 D1"
  by (fastforce simp: returns_def ignore_err_def)

lemma returns_calls [healthy]:
  "returns fs_nop F D (Ok ()) F D"
  "returns (try_lock p) F D (Ok ()) F D"
  "butlast p \<in> D \<Longrightarrow> returns (fs_create p) F D (Ok ()) (F(p \<mapsto> [])) D"
  "F p = Some bs \<Longrightarrow> returns (fs_append p b) F D (Ok ()) (F(p \<mapsto> bs @ [b])) D"
  "F p = Some bs \<Longrightarrow> returns (fs_read p) F D (Ok bs) F D"
  "F p \<noteq> None \<Longrightarrow> returns (fs_remove_file p) F D (Ok ()) (F(p := None)) D"
  "F p = None \<Longrightarrow> returns (fs_remove_file p) F D (Err NotFound) F D"
  "F p = Some bs \<Longrightarrow> q \<notin> D \<Longrightarrow> returns (fs_rename p q) F D (Ok ()) (F(p := None, q \<mapsto> bs)) D"
  "F p = None \<Longrightarrow> returns (fs_create_dir_all p) F D (Ok ()) F (set (prefixes p) \<union> D)"
  unfolding fs_nop_def try_lock_def fs_create_def fs_append_def fs_read_def fs_remove_file_def fs_rename_def fs_create_dir_all_def
  by (auto simp: returns_def statement_no_fault statement_result_no_fault file_table)

lemma returns_open_or_create [healthy]:
  "butlast p \<in> D \<Longrightarrow> returns (fs_open_or_create p) F D (Ok ()) (F(p \<mapsto> (case F p of Some bs \<Rightarrow> bs | None \<Rightarrow> []))) D"
  by (auto simp: fs_open_or_create_def returns_def statement_result_no_fault file_table fun_upd_idem split: option.splits)

lemma returns_exists [healthy]: "returns (fs_exists p) F D (Ok (F p \<noteq> None \<or> p \<in> D)) F D"
  by (auto simp: fs_exists_def returns_def statement_no_fault)

lemma returns_sync_dir [healthy]: "dir \<in> D \<Longrightarrow> returns (sync_dir dir) F D (Ok ()) F D"
  unfolding sync_dir_def fs_nop_def
  by (rule returns_ck_io, auto simp: returns_def tx_bind_def statement_no_fault statement_result_no_fault)

lemma returns_remove_ignored:
  "returns (ignore_err (fs_remove_file p)) F D (Ok ()) (F(p := None)) D"
proof (cases "F p")
  case None
  then show ?thesis using returns_ignore_err [OF returns_calls(7)] by (simp add: fun_upd_idem)
qed (auto intro: returns_ignore_err returns_calls)

lemma returns_write_all: "F p = Some bs \<Longrightarrow> returns (fs_write_all p ds) F D (Ok ()) (F(p \<mapsto> bs @ ds)) D"
proof (induction ds arbitrary: F bs)
  case Nil
  then show ?case by (simp add: returns_simple fun_upd_idem)
next
  case (Cons d ds)
  have "returns (fs_write_all p ds) (F(p \<mapsto> bs @ [d])) D (Ok ()) (F(p \<mapsto> (bs @ [d]) @ ds)) D"
    using Cons.IH [of "F(p \<mapsto> bs @ [d])" "bs @ [d]"] by (simp only: fun_upd_same fun_upd_upd simp_thms)
  moreover have "returns (fs_append p d) F D (Ok ()) (F(p \<mapsto> bs @ [d])) D" by (rule returns_calls) (rule Cons.prems)
  ultimately show ?case unfolding fs_write_all.simps append_Cons append_Nil append_assoc by (rule returns_bind [rotated])
qed

lemma returns_write_tmp: "butlast p \<in> D \<Longrightarrow> returns (write_tmp p data) F D (Ok ()) (F(p \<mapsto> data)) D"
  unfolding write_tmp_def
  using returns_write_all [of "F(p \<mapsto> [])" p "[]" data D]
  by (auto intro!: returns_ck_io returns_bind healthy)

lemma returns_compare_existing:
  assumes "F final = Some bs" and "returns cleanup F D (Ok ()) F1 D"
  shows "returns (compare_existing final lock data cleanup) F D
     (if bs = data then Ok False else Err (ContentMismatch final (length bs) (length data)))
     (if bs = data then F1(lock := None) else if length bs = length data then F1 else F) D"
proof -
  have read: "returns (ck_io (fs_read final)) F D (Ok bs) F D" using assms(1) by (intro returns_ck_io healthy)
  have size: "returns (size_mismatch final data) F D
      (Ok (if length bs \<noteq> length data then Some (ContentMismatch final (length bs) (length data)) else None)) F D"
    unfolding size_mismatch_def by (rule returns_bind [OF read returns_simple(1)])
  show ?thesis
    unfolding compare_existing_def
    by (rule returns_bind [OF size])
      (auto intro!: returns_bind [OF read] returns_bind [OF assms(2)] returns_bind [OF returns_remove_ignored] healthy)
qed

definition flat_name :: "str \<Rightarrow> bool" where
  "flat_name name \<longleftrightarrow> name \<noteq> [] \<and> slash \<notin> set name \<and> name \<noteq> lit ''.'' \<and> name \<noteq> lit ''..''"

lemma join_path_flat: "flat_name name \<Longrightarrow> join_path dir name = dir @ [name]"
  by (simp add: flat_name_def join_path_parts split_char_free part_names_def path_part_def normal_name_def)

lemma flat_name_suffix: "slash \<notin> set name \<Longrightarrow> slash \<notin> set suf \<Longrightarrow> 2 < length suf \<Longrightarrow> flat_name (name @ suf)"
  by (auto simp: flat_name_def dest: arg_cong [where f = length])

text \<open>Writing a plain name into an existing directory.\<close>

lemma returns_write_once:
  assumes valid: "validate_relative_name name = Ok ()" and flat: "flat_name name"
    and dir: "dir \<in> D" and free: "dir @ [name] \<notin> D"
  shows "\<exists>F'. returns (write_once dir name data) F D
      (case F (dir @ [name]) of
         None \<Rightarrow> Ok True
       | Some bs \<Rightarrow> if bs = data then Ok False else Err (ContentMismatch (dir @ [name]) (length bs) (length data))) F' D \<and>
      F' (dir @ [name]) = Some (case F (dir @ [name]) of None \<Rightarrow> data | Some bs \<Rightarrow> bs) \<and>
      (\<forall>p. p \<noteq> dir @ [name] \<longrightarrow> p \<noteq> dir @ [name @ tmp_suffix] \<longrightarrow> p \<noteq> dir @ [name @ lock_suffix] \<longrightarrow> F' p = F p) \<and>
      (F (dir @ [name]) \<in> {None, Some data} \<longrightarrow> F' (dir @ [name @ lock_suffix]) = None)"
proof -
  let ?f = "dir @ [name]" and ?t = "dir @ [name @ tmp_suffix]" and ?l = "dir @ [name @ lock_suffix]"
  have paths: "join_path dir name = ?f" "join_path dir (name @ tmp_suffix) = ?t" "join_path dir (name @ lock_suffix) = ?l"
    using flat flat_name_suffix [of name tmp_suffix] flat_name_suffix [of name lock_suffix] by (simp_all add: join_path_flat flat_name_def)
  let ?F = "F(?l \<mapsto> (case F ?l of Some bs \<Rightarrow> bs | None \<Rightarrow> []))"
  have diff: "?t \<noteq> ?f" "?l \<noteq> ?f" "?t \<noteq> ?l" using scratch_paths_differ [of dir name] by (simp_all only: paths) auto
  have lock: "returns (ck_io (fs_open_or_create ?l)) F D (Ok ()) ?F D" using dir by (intro returns_ck_io returns_open_or_create) simp
  have present: "returns (ck_io (fs_exists ?f)) G D (Ok (G ?f \<noteq> None \<or> ?f \<in> D)) G D" for G
    by (intro returns_ck_io returns_exists)
  show ?thesis
  proof (cases "F ?f")
    case None
    let ?G = "?F(?t \<mapsto> data)"
    have tmp: "returns (write_tmp ?t data) ?F D (Ok ()) ?G D" using dir by (intro returns_write_tmp) simp
    have ren: "returns (rename_or_clean ?t ?f) ?G D (Ok ()) (?G(?t := None, ?f \<mapsto> data)) D"
      using returns_calls(8) [of ?G ?t data ?f D] free unfolding returns_def rename_or_clean_def by fastforce
    have "returns (publish_tmp dir ?f ?t ?l data) ?G D (Ok True) (?G(?t := None, ?f \<mapsto> data, ?l := None)) D"
      unfolding publish_tmp_def
      using None free diff dir
      by (intro returns_bind [OF present]) (auto intro!: returns_bind [OF ren] returns_bind [OF returns_sync_dir]
          returns_bind [OF returns_remove_ignored] healthy)
    then have "returns (write_once dir name data) F D (Ok True) (?G(?t := None, ?f \<mapsto> data, ?l := None)) D"
      unfolding write_once_def Let_def paths valid
      using None free diff
      by (intro returns_bind [OF returns_simple(3)] returns_bind [OF lock] returns_bind [OF returns_calls(2)] returns_bind [OF present])
        (auto intro!: returns_bind [OF tmp])
    with None diff show ?thesis by (intro exI [of _ "?G(?t := None, ?f \<mapsto> data, ?l := None)"]) auto
  next
    case (Some bs)
    let ?G = "if bs = data then ?F(?l := None) else if length bs = length data then ?F else ?F"
    have "returns (compare_existing ?f ?l data (tx_return ())) ?F D
        (if bs = data then Ok False else Err (ContentMismatch ?f (length bs) (length data))) ?G D"
      using Some diff by (intro returns_compare_existing returns_simple) auto
    then have "returns (write_once dir name data) F D
        (if bs = data then Ok False else Err (ContentMismatch ?f (length bs) (length data))) ?G D"
      unfolding write_once_def Let_def paths valid
      using Some diff
      by (intro returns_bind [OF returns_simple(3)] returns_bind [OF lock] returns_bind [OF returns_calls(2)] returns_bind [OF present]) auto
    with Some diff show ?thesis by (intro exI [of _ ?G]) auto
  qed
qed

section \<open>Replacing the pointer\<close>

lemma fs_rename_writes:
  "fs_file s tmp = Some data \<Longrightarrow> tmp \<noteq> final \<Longrightarrow> writes_only final data {tmp} s (snd (fs_rename tmp final s))"
  unfolding fs_rename_def by (rule wo.R_statement_result) (auto simp: writes_only_def file_table)

lemma fs_rename_Err: "fs_rename a b s = (Inl e, s') \<Longrightarrow> \<exists>t. s' = s\<lparr>db_tape := t\<rparr>"
  by (cases "db_tape s") (auto simp: fs_rename_def statement_result_def split: option.splits if_splits intro: exI [of _ "[]"]
      simp flip: keep_tape)

lemma writes_only_sleep [simp]: "writes_only f d S s (sleep w s') \<longleftrightarrow> writes_only f d S s s'"
  by (simp add: writes_only_def sleep_def)

text \<open>Calls do not sleep.\<close>

definition awake :: "fs \<Rightarrow> fs \<Rightarrow> bool" where "awake s s' \<longleftrightarrow> fs_slept s' = fs_slept s"

interpretation aw: tx_relation awake
  by unfold_locales (auto simp: awake_def)

lemma awake_calls:
  "awake s (snd (fs_create p s))" "awake s (snd (fs_append p b s))" "awake s (snd (fs_remove_file p s))" "awake s (snd (fs_nop s))"
  "awake s (snd (fs_rename p q s))"
  unfolding fs_create_def fs_append_def fs_remove_file_def fs_nop_def fs_rename_def
  by (rule aw.R_statement_result aw.R_statement, auto simp: awake_def split: option.splits; fail)+

lemma awake_write_all: "awake s (snd (fs_write_all p bs s))"
proof (induction bs arbitrary: s)
  case Nil
  then show ?case by (simp add: aw.R_simple)
next
  case (Cons b bs)
  then show ?case by (auto intro!: aw.R_bind awake_calls)
qed

lemma awake_write_tmp: "awake s (snd (write_tmp p bs s))"
  unfolding write_tmp_def ck_io_def by (intro aw.R_map_err aw.R_bind awake_calls awake_write_all)

lemma awake_sync_dir: "awake s (snd (sync_dir d s))"
  unfolding sync_dir_def ck_io_def by (auto intro!: aw.R_map_err aw.R_bind aw.R_statement_result awake_calls aw.R_refl)

definition within_policy :: "retry_policy \<Rightarrow> nat \<Rightarrow> bool" where
  "within_policy policy w \<longleftrightarrow> w \<le> max (rt_initial_backoff policy) (rt_max_backoff policy)"

lemma next_backoff_within: "within_policy policy (next_backoff policy b)"
  by (simp add: within_policy_def next_backoff_def)

lemma rename_attempts_effect:
  assumes "fs_file s tmp = Some data" "tmp \<noteq> final" "within_policy policy backoff"
    and "rename_attempts policy dir tmp final left backoff last_err s = (res, s')"
  shows "writes_only final data {tmp} s s' \<and> (res = Ok () \<longrightarrow> fs_file s' final = Some data) \<and>
    (\<exists>waits. fs_slept s' = fs_slept s @ waits \<and> length waits \<le> left - 1 \<and> (\<forall>w \<in> set waits. within_policy policy w))"
  using assms
proof (induction left arbitrary: s backoff last_err)
  case 0
  then have "s' = snd (fs_remove_file tmp s)" "res \<noteq> Ok ()" by (auto simp: tx_bind_def ignore_err_def tx_fail_def)
  with writes_only_calls(4) [of tmp "{tmp}" final data s] awake_calls(3) [of s tmp] 0 show ?case by (auto simp: awake_def)
next
  case (Suc left)
  obtain r s1 where r: "fs_rename tmp final s = (r, s1)" by fastforce
  show ?case
  proof (cases r)
    case (Inr u)
    with r Suc.prems(4) have s': "sync_dir dir s1 = (res, s')" by simp
    have "writes_only final data {tmp} s s1" using fs_rename_writes [OF Suc.prems(1,2)] r by simp
    moreover have "writes_only final data {tmp} s1 s'" using writes_only_reads(5) [of final data "{tmp}" s1 dir] s' by simp
    moreover have "fs_file s1 final = Some data"
      using r Inr Suc.prems(1) by (auto simp: fs_rename_def tx_ok file_table split: if_splits)
    moreover have "fs_slept s' = fs_slept s" using awake_calls(5) [of s tmp final] awake_sync_dir [of s1 dir] r s' by (simp add: awake_def)
    ultimately show ?thesis by (auto simp: writes_only_def)
  next
    case (Inl e)
    from fs_rename_Err [OF r [unfolded Inl]] obtain t where s1: "s1 = s\<lparr>db_tape := t\<rparr>" ..
    show ?thesis
    proof (cases "left = 0")
      case True
      with Suc.IH [of s1 backoff "Some e"] Suc.prems r Inl s1 show ?thesis by (auto simp: writes_only_def)
    next
      case False
      with Suc.IH [of "sleep backoff s1" "next_backoff policy backoff" "Some e"] Suc.prems r Inl s1
      obtain waits where w: "writes_only final data {tmp} (sleep backoff s1) s'" "res = Ok () \<longrightarrow> fs_file s' final = Some data"
        "fs_slept s' = fs_slept s @ backoff # waits" "length waits \<le> left - 1" "\<forall>w \<in> set waits. within_policy policy w"
        by (auto simp: sleep_def next_backoff_within)
      then show ?thesis using False Suc.prems(3) s1
        by (intro conjI exI [of _ "backoff # waits"]) (auto simp: writes_only_def sleep_def)
    qed
  qed
qed

lemma rename_attempts_succeed:
  assumes "db_tape s = map Some es" "length es < left" "fs_file s tmp = Some data" "final \<notin> set (fs_dirs s)" "dir \<in> set (fs_dirs s)"
  shows "fst (rename_attempts policy dir tmp final left backoff last_err s) = Ok ()"
  using assms
proof (induction left arbitrary: es s backoff last_err)
  case (Suc left)
  show ?case
  proof (cases es)
    case Nil
    then show ?thesis using Suc.prems
      by (auto simp: fs_rename_def statement_result_no_fault sync_dir_def ck_io_def tx_map_err_def tx_bind_def fs_nop_def statement_no_fault)
  next
    case (Cons e es')
    then have r: "fs_rename tmp final s = (Inl (io_fault e), s\<lparr>db_tape := map Some es'\<rparr>)"
      using Suc.prems(1) by (simp add: fs_rename_def statement_result_def)
    have "left \<noteq> 0" using Suc.prems(2) Cons by auto
    with r Suc.IH [of "sleep backoff (s\<lparr>db_tape := map Some es'\<rparr>)" es'] Suc.prems Cons show ?thesis
      by (simp add: sleep_def)
  qed
qed simp

lemma fs_write_all_no_fault_yet:
  assumes "db_tape s = replicate (length ds) None @ t" "fs_file s p = Some bs"
  shows "\<exists>s'. fs_write_all p ds s = (Ok (), s') \<and> db_tape s' = t \<and> fs_file s' p = Some (bs @ ds) \<and> fs_dirs s' = fs_dirs s"
  using assms
proof (induction ds arbitrary: s bs)
  case Nil
  then show ?case by (simp add: tx_return_def)
next
  case (Cons d ds)
  let ?s = "s\<lparr>db_tape := replicate (length ds) None @ t, fs_files := hm_insert p (bs @ [d]) (fs_files s)\<rparr>"
  have "fs_append p d s = (Ok (), ?s)" using Cons.prems by (simp add: fs_append_def statement_def statement_result_def)
  with Cons.IH [of ?s "bs @ [d]"] show ?case by (simp add: tx_bind_def file_table)
qed

lemma write_tmp_no_fault_yet:
  assumes "db_tape s = replicate (length data + 2) None @ t" "butlast p \<in> set (fs_dirs s)"
  shows "\<exists>s'. write_tmp p data s = (Ok (), s') \<and> db_tape s' = t \<and> fs_file s' p = Some data \<and> fs_dirs s' = fs_dirs s"
proof -
  let ?t = "replicate (length data) None @ None # t"
  have tape: "db_tape s = None # ?t" using assms(1) by (simp add: replicate_app_Cons_same)
  let ?s = "s\<lparr>db_tape := ?t, fs_files := hm_insert p [] (fs_files s)\<rparr>"
  have create: "fs_create p s = (Ok (), ?s)" using assms(2) tape by (simp add: fs_create_def statement_result_def)
  from fs_write_all_no_fault_yet [of ?s data "None # t" p "[]"] obtain s1 where s1:
    "fs_write_all p data ?s = (Ok (), s1)" "db_tape s1 = None # t" "fs_file s1 p = Some data" "fs_dirs s1 = fs_dirs s"
    by (auto simp: file_table)
  have "fs_nop s1 = (Ok (), s1\<lparr>db_tape := t\<rparr>)" using s1(2) by (simp add: fs_nop_def statement_def statement_result_def)
  with create s1 show ?thesis by (simp add: write_tmp_def ck_io_def tx_map_err_def tx_bind_def)
qed

section \<open>Properties\<close>

text \<open>
  C18: writing once is atomic. Whatever calls fail and wherever the process dies, a file written by
  \<open>write_once\<close> is what it was before or holds all of the data, never a part of it, and no file
  changes besides it, its temporary file and its lock. If the call returns without an error, the
  file holds the data. On a healthy system an existing file with other contents is left alone and
  reported.
\<close>
theorem write_once_is_atomic:
  "case write_once dir name data s of (res, s') \<Rightarrow>
     (\<forall>p. p \<noteq> join_path dir name \<longrightarrow> p \<noteq> join_path dir (name @ tmp_suffix) \<longrightarrow>
        p \<noteq> join_path dir (name @ lock_suffix) \<longrightarrow> fs_file s' p = fs_file s p) \<and>
     (fs_file s' (join_path dir name) = fs_file s (join_path dir name) \<or> fs_file s' (join_path dir name) = Some data) \<and>
     (\<not> isl res \<longrightarrow> fs_file s' (join_path dir name) = Some data) \<and>
     (db_tape s = [] \<and> validate_relative_name name = Ok () \<and> flat_name name \<and> dir \<in> set (fs_dirs s) \<and>
        dir @ [name] \<notin> set (fs_dirs s) \<and> fs_file s (dir @ [name]) = Some old \<and> old \<noteq> data \<longrightarrow>
      res = Err (ContentMismatch (dir @ [name]) (length old) (length data)) \<and> fs_file s' (dir @ [name]) = Some old)"
proof -
  obtain res s' where run: "write_once dir name data s = (res, s')" by fastforce
  have w: "writes_only (join_path dir name) data (scratch_paths dir name) s s'"
    using write_once_writes [of dir name data s] run by simp
  moreover have "fs_file s' (join_path dir name) = Some data" if "\<not> isl res"
    using that run write_once_Ok [of dir name data s] by (cases res) auto
  moreover have "res = Err (ContentMismatch (dir @ [name]) (length old) (length data)) \<and> fs_file s' (dir @ [name]) = Some old"
    if h: "db_tape s = []" "validate_relative_name name = Ok ()" "flat_name name" "dir \<in> set (fs_dirs s)"
      "dir @ [name] \<notin> set (fs_dirs s)" "fs_file s (dir @ [name]) = Some old" "old \<noteq> data"
    using returns_write_once [OF h(2-5), of data "fs_file s"] h run by (fastforce simp: returns_def)
  ultimately show ?thesis by (auto simp: run writes_only_def)
qed

definition example_fs :: fs where
  "example_fs = \<lparr>db_tape = [], fs_files = [([lit ''ck'', lit ''shard''], [1])], fs_dirs = [[], [lit ''ck'']], fs_slept = []\<rparr>"

theorem write_once_is_atomic_witness:
  "fst (write_once [lit ''ck''] (lit ''shard'') [2, 3] example_fs) = Err (ContentMismatch [lit ''ck'', lit ''shard''] 1 2) \<and>
   fs_file (snd (write_once [lit ''ck''] (lit ''shard'') [2, 3] example_fs)) [lit ''ck'', lit ''shard''] = Some [1]"
proof -
  have "validate_relative_name (lit ''shard'') = Ok ()" "flat_name (lit ''shard'')" by code_simp+
  then show ?thesis
    using write_once_is_atomic [where dir = "[lit ''ck'']" and name = "lit ''shard''" and data = "[2, 3]" and s = example_fs and old = "[1]"]
    by (auto simp: example_fs_def fs_file_def hm_get_def split: prod.splits)
qed

lemma publish_after_blind_check:
  assumes "db_tape s = [Some e]" "fs_file s tmp = Some data" "final \<notin> set (fs_dirs s)" "dir \<in> set (fs_dirs s)"
  shows "fst (publish_tmp dir final tmp lock data s) = Ok True"
proof -
  have "fs_exists final s = (Ok False, s\<lparr>db_tape := []\<rparr>)" using assms(1) by (simp add: fs_exists_def statement_def statement_result_def)
  with assms(2-4) show ?thesis
    by (simp add: publish_tmp_def ck_io_def tx_map_err_def tx_bind_def rename_or_clean_def fs_rename_def statement_result_no_fault
        sync_dir_def fs_nop_def statement_no_fault ignore_err_def tx_return_def)
qed

text \<open>
  C23: a failing existence check is read as absence. \<open>Path::exists\<close> answers \<open>false\<close> when its
  call fails: for every existing file and all other contents, when both checks of \<open>write_once\<close> fail and its
  other calls succeed, the file is replaced and the call reports that it has written a new one. When no call
  fails, the same request is refused as a mismatch and the file is kept.
\<close>
theorem blind_existence_check_overwrites:
  assumes "validate_relative_name name = Ok ()" "flat_name name" "dir \<in> set (fs_dirs s)" "dir @ [name] \<notin> set (fs_dirs s)"
    and "fs_file s (dir @ [name]) = Some old" "old \<noteq> data"
    and "db_tape s = [None, None, Some e1] @ replicate (length data + 2) None @ [Some e2]"
  shows "fst (write_once dir name data s) = Ok True \<and> fs_file (snd (write_once dir name data s)) (dir @ [name]) = Some data \<and>
    fst (write_once dir name data (s\<lparr>db_tape := []\<rparr>)) = Err (ContentMismatch (dir @ [name]) (length old) (length data)) \<and>
    fs_file (snd (write_once dir name data (s\<lparr>db_tape := []\<rparr>))) (dir @ [name]) = Some old"
proof -
  let ?f = "dir @ [name]" and ?t = "dir @ [name @ tmp_suffix]" and ?l = "dir @ [name @ lock_suffix]"
  let ?tape = "replicate (length data + 2) None @ [Some e2]"
  have paths: "join_path dir name = ?f" "join_path dir (name @ tmp_suffix) = ?t" "join_path dir (name @ lock_suffix) = ?l"
    using assms(2) flat_name_suffix [of name tmp_suffix] flat_name_suffix [of name lock_suffix] by (simp_all add: join_path_flat flat_name_def)
  obtain s1 where s1: "fs_open_or_create ?l s = (Ok (), s1)" "db_tape s1 = None # Some e1 # ?tape" "fs_dirs s1 = fs_dirs s"
    using assms(3,7) by (cases "fs_file s ?l") (simp_all add: fs_open_or_create_def statement_result_def)
  have lock: "try_lock ?f s1 = (Ok (), s1\<lparr>db_tape := Some e1 # ?tape\<rparr>)"
    using s1(2) by (simp add: try_lock_def statement_def statement_result_def)
  have ex: "fs_exists ?f (s1\<lparr>db_tape := Some e1 # ?tape\<rparr>) = (Ok False, s1\<lparr>db_tape := ?tape\<rparr>)"
    by (simp add: fs_exists_def statement_def statement_result_def)
  from write_tmp_no_fault_yet [of "s1\<lparr>db_tape := ?tape\<rparr>" data "[Some e2]" ?t] s1(3) assms(3) obtain s2 where
    s2: "write_tmp ?t data (s1\<lparr>db_tape := ?tape\<rparr>) = (Ok (), s2)" "db_tape s2 = [Some e2]" "fs_file s2 ?t = Some data" "fs_dirs s2 = fs_dirs s"
    by auto
  have "write_once dir name data s = publish_tmp dir ?f ?t ?l data s2"
    using s1(1) lock ex s2(1) assms(1) by (simp add: write_once_def paths Let_def tx_bind_def lift_result_def ck_io_def tx_map_err_def)
  with publish_after_blind_check [OF s2(2,3), of ?f dir ?l] s2(4) assms(3,4) have res: "fst (write_once dir name data s) = Ok True" by simp
  then have "fs_file (snd (write_once dir name data s)) ?f = Some data"
    using write_once_Ok [of dir name data s] paths(1) by (metis prod.collapse)
  moreover obtain F' where "returns (write_once dir name data) (fs_file s) (set (fs_dirs s))
      (Err (ContentMismatch ?f (length old) (length data))) F' (set (fs_dirs s))" "F' ?f = Some old"
    using returns_write_once [OF assms(1-4), of data "fs_file s"] assms(5,6) by auto
  ultimately show ?thesis using res by (auto simp: returns_def dest!: spec [of _ "s\<lparr>db_tape := []\<rparr>"])
qed

theorem blind_existence_check_overwrites_witness:
  "let s = example_fs\<lparr>db_tape := [None, None, Some SqliteOther, None, None, None, None, Some SqliteOther]\<rparr> in
   fst (write_once [lit ''ck''] (lit ''shard'') [2, 3] s) = Ok True \<and>
   fs_file (snd (write_once [lit ''ck''] (lit ''shard'') [2, 3] s)) [lit ''ck'', lit ''shard''] = Some [2, 3]"
proof -
  have "validate_relative_name (lit ''shard'') = Ok ()" "flat_name (lit ''shard'')" by code_simp+
  then show ?thesis
    using blind_existence_check_overwrites [of "lit ''shard''" "[lit ''ck'']"
      "example_fs\<lparr>db_tape := [None, None, Some SqliteOther, None, None, None, None, Some SqliteOther]\<rparr>" "[1]" "[2, 3]" SqliteOther SqliteOther]
    by (simp add: example_fs_def fs_file_def hm_get_def numeral_3_eq_3)
qed

text \<open>
  C21: the pointer file is replaced in bounded time. Whatever calls fail, \<open>replace_with_retry\<close>
  sleeps fewer times than the policy allows attempts, never longer than the larger of its two
  backoffs; the pointer keeps its old contents or has all of the new ones, and has the new ones
  when the call returns without an error.
\<close>
theorem replace_is_bounded:
  "case replace_with_retry dir name data policy s of (res, s') \<Rightarrow>
     (\<exists>waits. fs_slept s' = fs_slept s @ waits \<and> length waits \<le> unat (rt_max_attempts policy) - 1 \<and>
        (\<forall>w \<in> set waits. w \<le> max (rt_initial_backoff policy) (rt_max_backoff policy))) \<and>
     (fs_file s' (join_path dir name) = fs_file s (join_path dir name) \<or> fs_file s' (join_path dir name) = Some data) \<and>
     (res = Ok () \<longrightarrow> fs_file s' (join_path dir name) = Some data)"
proof -
  let ?f = "join_path dir name" and ?t = "join_path dir (name @ tmp_suffix)"
  obtain r1 s1 where t: "write_tmp ?t data s = (r1, s1)" by fastforce
  have w1: "writes_only ?f data {?t} s s1" and sl: "fs_slept s1 = fs_slept s"
    using writes_only_write_tmp [of ?t "{?t}" ?f data s data] awake_write_tmp [of s ?t data] t by (simp_all add: awake_def)
  show ?thesis
  proof (cases "validate_relative_name name = Ok () \<and> rt_max_attempts policy \<noteq> 0 \<and> \<not> isl r1")
    case True
    then obtain u where r1: "r1 = Ok u" by (cases r1) auto
    obtain res s' where run: "rename_attempts policy dir ?t ?f (unat (rt_max_attempts policy)) (rt_initial_backoff policy) None s1 = (res, s')"
      by fastforce
    with rename_attempts_effect [OF write_tmp_Ok [OF t [unfolded r1]] _ _ run] True r1 t w1 sl show ?thesis
      by (auto simp: replace_with_retry_def tx_bind_def lift_result_def Let_def within_policy_def writes_only_def)
  next
    case False
    with t w1 sl show ?thesis
      by (cases "validate_relative_name name"; cases r1)
        (auto simp: replace_with_retry_def tx_bind_def lift_result_def Let_def writes_only_def reject_if_def)
  qed
qed

text \<open>
  C22: the pointer file gets replaced. When the temporary file can be written, fewer renames
  fail than the policy allows attempts and no other call fails (the directory can be synced), \<open>replace_with_retry\<close> returns
  with the pointer replaced.
\<close>
theorem replace_succeeds:
  assumes "validate_relative_name name = Ok ()" "flat_name name" "dir \<in> set (fs_dirs s)" "dir @ [name] \<notin> set (fs_dirs s)"
    and "db_tape s = replicate (length data + 2) None @ map Some failures"
    and "length failures < unat (rt_max_attempts policy)"
  shows "fst (replace_with_retry dir name data policy s) = Ok () \<and>
    fs_file (snd (replace_with_retry dir name data policy s)) (dir @ [name]) = Some data"
proof -
  let ?t = "join_path dir (name @ tmp_suffix)"
  have paths: "join_path dir name = dir @ [name]" "butlast ?t = dir"
    using assms(2) flat_name_suffix [of name tmp_suffix] by (simp_all add: join_path_flat flat_name_def)
  from write_tmp_no_fault_yet [OF assms(5), of ?t] paths assms(3) obtain s1 where s1: "write_tmp ?t data s = (Ok (), s1)"
    "db_tape s1 = map Some failures" "fs_file s1 ?t = Some data" "fs_dirs s1 = fs_dirs s" by auto
  have max: "rt_max_attempts policy \<noteq> 0" using assms(6) by auto
  have run: "replace_with_retry dir name data policy s =
      rename_attempts policy dir ?t (dir @ [name]) (unat (rt_max_attempts policy)) (rt_initial_backoff policy) None s1"
    using assms(1) max s1(1) paths by (simp add: replace_with_retry_def tx_bind_def lift_result_def Let_def)
  obtain res s' where r: "rename_attempts policy dir ?t (dir @ [name]) (unat (rt_max_attempts policy)) (rt_initial_backoff policy) None s1 = (res, s')"
    by fastforce
  have "res = Ok ()" using rename_attempts_succeed [OF s1(2) assms(6) s1(3), of "dir @ [name]" dir policy "rt_initial_backoff policy" None] s1(4) assms(3,4) r by simp
  moreover have "?t \<noteq> dir @ [name]" using scratch_paths_differ(1) [of dir name] by (simp only: paths not_False_eq_True)
  ultimately show ?thesis using rename_attempts_effect [OF s1(3) _ _ r] run r by (auto simp: within_policy_def)
qed

theorem replace_succeeds_witness:
  "fst (replace_with_retry [lit ''ck''] (lit ''LATEST'') [7] default_retry_policy
     (example_fs\<lparr>db_tape := [None, None, None, Some SqliteOther, Some SqliteBusyOrLocked, Some SqliteOther, Some SqliteOther]\<rparr>)) = Ok ()"
proof -
  have "validate_relative_name (lit ''LATEST'') = Ok ()" "flat_name (lit ''LATEST'')" by code_simp+
  then show ?thesis
    using replace_succeeds [of "lit ''LATEST''" "[lit ''ck'']"
      "example_fs\<lparr>db_tape := [None, None, None, Some SqliteOther, Some SqliteBusyOrLocked, Some SqliteOther, Some SqliteOther]\<rparr>"
      "[7]" "[SqliteOther, SqliteBusyOrLocked, SqliteOther, SqliteOther]" default_retry_policy]
    by (simp add: example_fs_def default_retry_policy_def numeral_3_eq_3)
qed

text \<open>Five attempts that all fail: four waits, none above two seconds.\<close>

theorem replace_is_bounded_witness:
  "\<exists>waits. fs_slept (snd (replace_with_retry [lit ''ck''] (lit ''LATEST'') [7] default_retry_policy
       (example_fs\<lparr>db_tape := replicate 3 None @ replicate 5 (Some SqliteOther)\<rparr>))) = waits \<and>
     length waits \<le> 4 \<and> (\<forall>w \<in> set waits. w \<le> 2 * 10 ^ 9)"
  using replace_is_bounded [where dir = "[lit ''ck'']" and name = "lit ''LATEST''" and data = "[7]" and policy = default_retry_policy
      and s = "example_fs\<lparr>db_tape := replicate 3 None @ replicate 5 (Some SqliteOther)\<rparr>"]
  by (auto simp: example_fs_def default_retry_policy_def split: prod.splits)

end
