(* ===== verification/Canonical.thy ===== *)
theory Canonical
  imports Rust_Bytes
begin

text \<open>
  The canonical encoding that signatures are computed over,
  \<open>crates/protocol/src/canonical.rs\<close>: minimal varints with their strict decoder, the field
  encoder, domain tags and the signature input, and the Merkle root of a list of chunks.
  BLAKE3 is a parameter \<open>hash\<close> of the definitions that use it.

  A loop that pushes onto \<open>out\<close> is a function that returns what it pushes. A
  \<open>BTreeMap\<close> is the list of its entries in key order.
\<close>

section \<open>Varints\<close>

lemma unat_drop_bit_7: "unat (drop_bit 7 n) = unat n div 128" for n :: "'a::len word"
proof -
  have "unat (drop_bit 7 n) = drop_bit 7 (unat n)" by (rule unat_drop_bit_eq)
  then show ?thesis by (simp only:) (simp add: drop_bit_eq_div)
qed

function encode_varint :: "u64 \<Rightarrow> bytes" where
  "encode_varint n =
     (let b = ucast (n AND 0x7F) :: u8; n' = drop_bit 7 n
      in if n' = 0 then [b] else (b OR 0x80) # encode_varint n')"
  by pat_completeness auto

termination
proof (relation "measure unat")
  show "wf (measure (unat :: u64 \<Rightarrow> nat))" by simp
next
  fix n n' :: u64 and b :: u8
  assume "n' = drop_bit 7 n" and "n' \<noteq> 0"
  then have "unat n div 128 \<noteq> 0" by (metis unat_drop_bit_7 unat_eq_zero)
  then have "unat n div 128 < unat n" by (intro div_less_dividend) auto
  then show "(n', n) \<in> measure unat" by (simp add: \<open>n' = drop_bit 7 n\<close> unat_drop_bit_7)
qed

declare encode_varint.simps [simp del]

datatype canonical_error = TruncatedVarint | VarintTooLong | NonMinimalVarint | FloatNotAllowed

text \<open>The loop of \<open>decode_varint\<close> from position \<open>pos\<close>: the value and the position after
  the last byte read. A shift by more than 63 is an error, so it never occurs.\<close>

function decode_varint_loop :: "bytes \<Rightarrow> nat \<Rightarrow> u64 \<Rightarrow> nat \<Rightarrow> canonical_error + u64 \<times> nat" where
  "decode_varint_loop buf pos result shift =
     (if pos < length buf then
        let b = buf ! pos;
            result' = result OR push_bit shift (ucast (b AND 0x7F))
        in if b AND 0x80 = 0 then Ok (result', pos + 1)
           else if shift + 7 > 63 then Err VarintTooLong
           else decode_varint_loop buf (pos + 1) result' (shift + 7)
      else Err TruncatedVarint)"
  by pat_completeness auto

termination by (relation "measure (\<lambda>(buf, pos, result, shift). length buf - pos)") auto

declare decode_varint_loop.simps [simp del]

definition decode_varint :: "bytes \<Rightarrow> nat \<Rightarrow> canonical_error + u64 \<times> nat" where
  "decode_varint buf pos =
     and_then (decode_varint_loop buf pos 0 0) (\<lambda>(result, pos').
       if encode_varint result \<noteq> take (pos' - pos) (drop pos buf) then Err NonMinimalVarint
       else Ok (result, pos'))"

section \<open>Fields\<close>

definition SIGNATURE_FIELD :: u32 where
  "SIGNATURE_FIELD = 90"

definition WIRETYPE_VARINT :: u32 where
  "WIRETYPE_VARINT = 0"

definition WIRETYPE_LEN :: u32 where
  "WIRETYPE_LEN = 2"

definition encode_tag :: "u32 \<Rightarrow> u32 \<Rightarrow> bytes" where
  "encode_tag field wiretype = encode_varint (push_bit 3 (ucast field) OR ucast wiretype)"

definition encode_len_delimited :: "u32 \<Rightarrow> bytes \<Rightarrow> bytes" where
  "encode_len_delimited field payload =
     encode_tag field WIRETYPE_LEN @ encode_varint (of_nat (length payload)) @ payload"

text \<open>\<open>Value\<close>; \<open>Int\<close> keeps the 64 bits of the \<open>i64\<close>, which is what \<open>as u64\<close>
  encodes.\<close>

datatype cvalue =
    Uint u64
  | SInt u64
  | CBool bool
  | CStr str
  | CBytes bytes
  | CMessage "(u32 \<times> cvalue) list"
  | RepeatedStr "str list"
  | RepeatedMessage "(u32 \<times> cvalue) list list"
  | MapStrStr "(str \<times> str) list"

type_synonym fields = "(u32 \<times> cvalue) list"

fun fields_set :: "u32 \<Rightarrow> cvalue \<Rightarrow> fields \<Rightarrow> fields" where
  "fields_set k v [] = [(k, v)]"
| "fields_set k v (e # m) =
     (if k < fst e then (k, v) # e # m else if k = fst e then (k, v) # m else e # fields_set k v m)"

fun is_default :: "cvalue \<Rightarrow> bool" where
  "is_default (Uint v) \<longleftrightarrow> v = 0"
| "is_default (SInt v) \<longleftrightarrow> v = 0"
| "is_default (CBool b) \<longleftrightarrow> \<not> b"
| "is_default (CStr s) \<longleftrightarrow> s = []"
| "is_default (CBytes b) \<longleftrightarrow> b = []"
| "is_default (CMessage f) \<longleftrightarrow> f = []"
| "is_default (RepeatedStr v) \<longleftrightarrow> v = []"
| "is_default (RepeatedMessage v) \<longleftrightarrow> v = []"
| "is_default (MapStrStr m) \<longleftrightarrow> m = []"

definition encode_map_entry :: "u32 \<Rightarrow> str \<times> str \<Rightarrow> bytes" where
  "encode_map_entry num entry =
     (case entry of (k, v) \<Rightarrow>
       encode_len_delimited num
         (encode_len_delimited 1 (as_bytes k) @
          (if v \<noteq> [] then encode_len_delimited 2 (as_bytes v) else [])))"

text \<open>\<open>encode_fields derived\<close> is the loop of \<open>canonical_encode\<close>; nested messages are
  encoded with no derived fields, because \<open>encode_value\<close> is called with an empty list.\<close>

fun encode_value :: "u32 \<Rightarrow> cvalue \<Rightarrow> bytes"
  and encode_fields :: "u32 list \<Rightarrow> fields \<Rightarrow> bytes"
  and encode_messages :: "u32 \<Rightarrow> fields list \<Rightarrow> bytes" where
  "encode_value num (Uint v) = encode_tag num WIRETYPE_VARINT @ encode_varint v"
| "encode_value num (SInt v) = encode_tag num WIRETYPE_VARINT @ encode_varint v"
| "encode_value num (CBool _) = encode_tag num WIRETYPE_VARINT @ encode_varint 1"
| "encode_value num (CStr s) = encode_len_delimited num (as_bytes s)"
| "encode_value num (CBytes b) = encode_len_delimited num b"
| "encode_value num (CMessage f) =
     (let inner = encode_fields [] f in if inner = [] then [] else encode_len_delimited num inner)"
| "encode_value num (RepeatedStr items) = concat (map (\<lambda>s. encode_len_delimited num (as_bytes s)) items)"
| "encode_value num (RepeatedMessage items) = encode_messages num items"
| "encode_value num (MapStrStr m) = concat (map (encode_map_entry num) m)"
| "encode_fields derived [] = []"
| "encode_fields derived ((num, v) # rest) =
     (if num = SIGNATURE_FIELD \<or> num \<in> set derived then []
      else if is_default v then [] else encode_value num v) @ encode_fields derived rest"
| "encode_messages num [] = []"
| "encode_messages num (f # rest) =
     encode_len_delimited num (encode_fields [] f) @ encode_messages num rest"

definition canonical_encode :: "fields \<Rightarrow> u32 list \<Rightarrow> bytes" where
  "canonical_encode fields derived = encode_fields derived fields"

section \<open>Domains and the signature input\<close>

definition DOMAIN_TAG_LEN :: usize where
  "DOMAIN_TAG_LEN = 32"

datatype domain =
    DomManifest | DomGrant | DomLease | DomLeaseRenew | DomLeaseRevoke | DomCheckpoint
  | DomReplicaAck | DomArtifact | DomAttemptReport | DomCanonical | DomGenesis | DomMemberAdd
  | DomMemberRemove | DomDeviceApprove | DomDeviceRevoke | DomCoordinatorSet | DomOwnerKeyRotate
  | DomPolicyUpdate | DomQuarantineDevice | DomQuarantineRelease | DomAudit | DomRelease
  | DomInvite | DomGrantAck | DomLeaseRenewResult | DomSessionHello | DomLeaseResume
  | DomLeaseResumeResult | DomNodeHeartbeat | DomNeighborUnreachableReport | DomAttemptReportAck
  | DomGrantAckReceipt

definition ALL_DOMAINS :: "domain list" where
  "ALL_DOMAINS =
     [DomManifest, DomGrant, DomLease, DomLeaseRenew, DomLeaseRevoke, DomCheckpoint,
      DomReplicaAck, DomArtifact, DomAttemptReport, DomCanonical, DomGenesis, DomMemberAdd,
      DomMemberRemove, DomDeviceApprove, DomDeviceRevoke, DomCoordinatorSet, DomOwnerKeyRotate,
      DomPolicyUpdate, DomQuarantineDevice, DomQuarantineRelease, DomAudit, DomRelease,
      DomInvite, DomGrantAck, DomLeaseRenewResult, DomSessionHello, DomLeaseResume,
      DomLeaseResumeResult, DomNodeHeartbeat, DomNeighborUnreachableReport, DomAttemptReportAck,
      DomGrantAckReceipt]"

fun domain_as_str :: "domain \<Rightarrow> string" where
  "domain_as_str DomManifest = ''gputeer/v1/manifest''"
| "domain_as_str DomGrant = ''gputeer/v2/grant''"
| "domain_as_str DomLease = ''gputeer/v1/lease''"
| "domain_as_str DomLeaseRenew = ''gputeer/v1/lease-renew''"
| "domain_as_str DomLeaseRevoke = ''gputeer/v1/lease-revoke''"
| "domain_as_str DomCheckpoint = ''gputeer/v1/checkpoint''"
| "domain_as_str DomReplicaAck = ''gputeer/v1/replica-ack''"
| "domain_as_str DomArtifact = ''gputeer/v1/artifact''"
| "domain_as_str DomAttemptReport = ''gputeer/v1/attempt-report''"
| "domain_as_str DomCanonical = ''gputeer/v1/canonical''"
| "domain_as_str DomGenesis = ''gputeer/v1/genesis''"
| "domain_as_str DomMemberAdd = ''gputeer/v1/member-add''"
| "domain_as_str DomMemberRemove = ''gputeer/v1/member-remove''"
| "domain_as_str DomDeviceApprove = ''gputeer/v1/device-approve''"
| "domain_as_str DomDeviceRevoke = ''gputeer/v1/device-revoke''"
| "domain_as_str DomCoordinatorSet = ''gputeer/v1/coordinator-set''"
| "domain_as_str DomOwnerKeyRotate = ''gputeer/v1/owner-key-rotate''"
| "domain_as_str DomPolicyUpdate = ''gputeer/v1/policy-update''"
| "domain_as_str DomQuarantineDevice = ''gputeer/v1/quarantine-device''"
| "domain_as_str DomQuarantineRelease = ''gputeer/v1/quarantine-release''"
| "domain_as_str DomAudit = ''gputeer/v1/audit''"
| "domain_as_str DomRelease = ''gputeer/v1/release''"
| "domain_as_str DomInvite = ''gputeer/v1/invite''"
| "domain_as_str DomGrantAck = ''gputeer/v1/grant-ack''"
| "domain_as_str DomLeaseRenewResult = ''gputeer/v1/lease-renew-result''"
| "domain_as_str DomSessionHello = ''gputeer/v1/session-hello''"
| "domain_as_str DomLeaseResume = ''gputeer/v1/lease-resume''"
| "domain_as_str DomLeaseResumeResult = ''gputeer/v1/lease-resume-result''"
| "domain_as_str DomNodeHeartbeat = ''gputeer/v1/node-heartbeat''"
| "domain_as_str DomNeighborUnreachableReport = ''gputeer/v1/neighbor-unreachable''"
| "domain_as_str DomAttemptReportAck = ''gputeer/v1/attempt-report-ack''"
| "domain_as_str DomGrantAckReceipt = ''gputeer/v1/grant-ack-receipt''"

definition domain_tag_bytes :: "domain \<Rightarrow> bytes" where
  "domain_tag_bytes d =
     (let s = map of_char (domain_as_str d) in s @ replicate (DOMAIN_TAG_LEN - length s) 0)"

definition sig_input :: "domain \<Rightarrow> u32 \<Rightarrow> bytes \<Rightarrow> bytes" where
  "sig_input d schema_version canonical =
     domain_tag_bytes d @ to_be_bytes_u32 schema_version @
     to_be_bytes_u32 (of_nat (length canonical)) @ canonical"

section \<open>Merkle root\<close>

fun merkle_level :: "(bytes \<Rightarrow> bytes) \<Rightarrow> bytes list \<Rightarrow> bytes list" where
  "merkle_level hash (a # b # rest) = hash (0x01 # a @ b) # merkle_level hash rest"
| "merkle_level hash [a] = [a]"
| "merkle_level hash [] = []"

lemma length_merkle_level: "length (merkle_level hash xs) = (length xs + 1) div 2"
  by (induction hash xs rule: merkle_level.induct) auto

function merkle_reduce :: "(bytes \<Rightarrow> bytes) \<Rightarrow> bytes list \<Rightarrow> bytes" where
  "merkle_reduce hash level =
     (if length level > 1 then merkle_reduce hash (merkle_level hash level) else hd level)"
  by pat_completeness auto

termination
  by (relation "measure (\<lambda>(hash, level). length level)") (auto simp: length_merkle_level)

declare merkle_reduce.simps [simp del]

definition merkle_root :: "(bytes \<Rightarrow> bytes) \<Rightarrow> bytes list \<Rightarrow> bytes option" where
  "merkle_root hash chunks =
     (if chunks = [] then None
      else Some (merkle_reduce hash (map (\<lambda>c. hash (0x00 # c)) chunks)))"

section \<open>Varints: lemmas\<close>

lemma and_7F: "n AND 0x7F = take_bit 7 n" for n :: "'a::len word"
  by (simp add: take_bit_eq_mask mask_eq_exp_minus_1)

lemma low_byte_ucast: "ucast (ucast (n AND 0x7F) :: u8) = take_bit 7 n" for n :: u64
  unfolding and_7F by (rule bit_word_eqI) (auto simp: bit_simps)

lemma low_byte_bits:
  fixes n :: u64
  defines "b \<equiv> ucast (n AND 0x7F) :: u8"
  shows "b AND 0x80 = 0" and "(b OR 0x80) AND 0x80 \<noteq> 0" and "(b OR 0x80) AND 0x7F = b" and "b AND 0x7F = b"
proof -
  have b: "bit b i \<longleftrightarrow> i < 7 \<and> bit n i" for i
    unfolding b_def and_7F by (auto simp: bit_simps)
  have "(0x80 :: u8) = 2 ^ 7" by simp
  then have hi: "bit (0x80 :: u8) i \<longleftrightarrow> i = 7" for i by (simp only: bit_exp_iff) auto
  show "b AND 0x80 = 0"
  proof (rule bit_word_eqI)
    show "bit (b AND 0x80) i = bit 0 i" for i by (simp only: bit_and_iff b hi) simp
  qed
  have "bit ((b OR 0x80) AND 0x80) 7" by (simp add: bit_simps hi)
  then show "(b OR 0x80) AND 0x80 \<noteq> 0" by (metis bit_0_eq bot_apply bot_bool_def)
  show "(b OR 0x80) AND 0x7F = b" "b AND 0x7F = b"
    unfolding and_7F by (rule bit_word_eqI; auto simp: bit_simps b hi)+
qed

lemma or_split: "(r OR push_bit s (take_bit 7 m)) OR push_bit (s + 7) (drop_bit 7 m) = r OR push_bit s m" for r m :: u64
proof (rule bit_word_eqI)
  fix n assume "n < LENGTH(64)"
  moreover have "7 + (n - (s + 7)) = n - s" if "\<not> n - s < 7" using that by linarith
  ultimately show "bit ((r OR push_bit s (take_bit 7 m)) OR push_bit (s + 7) (drop_bit 7 m)) n =
      bit (r OR push_bit s m) n"
    by (cases "n - s < 7") (auto simp: bit_simps)
qed

lemma encode_varint_last: "drop_bit 7 n = 0 \<Longrightarrow> encode_varint n = [ucast (n AND 0x7F)]"
  by (simp add: encode_varint.simps [of n] Let_def)

lemma encode_varint_more:
  "drop_bit 7 n \<noteq> 0 \<Longrightarrow> encode_varint n = (ucast (n AND 0x7F) OR 0x80) # encode_varint (drop_bit 7 n)"
  by (simp add: encode_varint.simps [of n] Let_def)

lemma decode_encode_loop:
  assumes "unat m < 2 ^ (64 - s)" "s \<le> 63"
  shows "decode_varint_loop (pre @ encode_varint m @ rest) (length pre) r s =
    Ok (r OR push_bit s m, length pre + length (encode_varint m))"
  using assms
proof (induction m arbitrary: pre r s rule: encode_varint.induct)
  case (1 m)
  show ?case
  proof (cases "drop_bit 7 m = 0")
    case True
    then have "take_bit 7 m = m" by (metis bits_ident add.right_neutral push_bit_of_0 add_0)
    with True show ?thesis
      by (simp add: encode_varint_last decode_varint_loop.simps [of _ "length pre"] low_byte_bits low_byte_ucast Let_def)
  next
    case False
    then have "unat m div 128 \<noteq> 0" by (metis unat_drop_bit_7 unat_eq_zero)
    then have "128 \<le> unat m" by (simp add: div_eq_0_iff)
    then have "(2::nat) ^ 7 < 2 ^ (64 - s)" using "1.prems"(1) by simp
    then have s: "s + 7 \<le> 63" by (subst (asm) power_strict_increasing_iff) auto
    have p: "(2::nat) ^ (64 - s) = 2 ^ (64 - (s + 7)) * 128"
    proof -
      have "64 - s = (64 - (s + 7)) + 7" using s by simp
      then show ?thesis by (simp only: power_add) simp
    qed
    have "unat (drop_bit 7 m) < 2 ^ (64 - (s + 7))"
      using "1.prems"(1) unfolding unat_drop_bit_7 p by (rule less_mult_imp_div_less)
    from "1.IH" [OF refl refl False this s, of "pre @ [ucast (m AND 0x7F) OR 0x80]" "r OR push_bit s (take_bit 7 m)"]
    show ?thesis using False s
      by (simp add: encode_varint_more decode_varint_loop.simps [of _ "length pre"] low_byte_bits low_byte_ucast Let_def or_split)
  qed
qed

lemma decode_encode_varint:
  "decode_varint (pre @ encode_varint n @ rest) (length pre) = Ok (n, length pre + length (encode_varint n))"
proof -
  have "unat n < 2 ^ (64 - 0)" using unsigned_less [of n] by simp
  from decode_encode_loop [OF this, of pre rest 0] show ?thesis by (simp add: decode_varint_def)
qed

section \<open>Domains and fields: lemmas\<close>

lemma all_domains: "set ALL_DOMAINS = UNIV"
proof (rule set_eqI)
  show "d \<in> set ALL_DOMAINS \<longleftrightarrow> d \<in> UNIV" for d by (cases d) (simp_all add: ALL_DOMAINS_def)
qed
lemma domain_as_str_distinct: "distinct (map domain_as_str ALL_DOMAINS)" by (simp add: ALL_DOMAINS_def)
lemma inj_domain_as_str: "inj domain_as_str"
  using domain_as_str_distinct by (simp add: distinct_map all_domains)
lemma domain_as_str_bytes: "length (domain_as_str d) \<le> DOMAIN_TAG_LEN"
  by (cases d) (simp_all add: DOMAIN_TAG_LEN_def)
lemma domain_as_str_nonzero: "list_all (\<lambda>c. (of_char c :: u8) \<noteq> 0) (domain_as_str d)"
  by (cases d) simp_all

lemma of_char_byte_inject: "(of_char c :: u8) = of_char d \<longleftrightarrow> c = d"
proof
  assume eq: "(of_char c :: u8) = of_char d"
  have less: "(of_char e :: nat) < 256" for e by (rule nat_of_char_less_256)
  have "unat (of_char e :: u8) = of_char e" for e
    using unat_of_nat_byte [OF less [of e]] by (simp add: of_nat_of_char)
  with eq have "(of_char c :: nat) = of_char d" by metis
  then show "c = d" by simp
qed simp

lemma domain_tag_bytes_inject: "domain_tag_bytes d = domain_tag_bytes e \<longleftrightarrow> d = e"
proof
  assume eq: "domain_tag_bytes d = domain_tag_bytes e"
  have strip: "takeWhile (\<lambda>b. b \<noteq> 0) (domain_tag_bytes x) = map of_char (domain_as_str x)" for x
    using domain_as_str_nonzero [of x]
    by (simp add: domain_tag_bytes_def Let_def takeWhile_append list_all_iff takeWhile_replicate)
  have "(map of_char (domain_as_str d) :: bytes) = map of_char (domain_as_str e)"
    by (simp flip: strip add: eq)
  then have "domain_as_str d = domain_as_str e"
    by (subst (asm) inj_map_eq_map) (simp_all add: inj_def of_char_byte_inject)
  then show "d = e" using inj_domain_as_str by (simp add: inj_eq)
qed simp

lemma length_domain_tag_bytes [simp]: "length (domain_tag_bytes d) = DOMAIN_TAG_LEN"
  using domain_as_str_bytes [of d] by (simp add: domain_tag_bytes_def Let_def)

lemma encode_fields_set_signature: "encode_fields derived (fields_set SIGNATURE_FIELD v f) = encode_fields derived f"
  by (induction f) auto

section \<open>Merkle trees: lemmas\<close>

text \<open>The tree whose nodes the level-by-level loop hashes.\<close>

datatype mtree = MLeaf bytes | MNode mtree mtree

fun mtree_hash :: "(bytes \<Rightarrow> bytes) \<Rightarrow> mtree \<Rightarrow> bytes" where
  "mtree_hash h (MLeaf c) = h (0x00 # c)"
| "mtree_hash h (MNode l r) = h (0x01 # mtree_hash h l @ mtree_hash h r)"

fun mtree_leaves :: "mtree \<Rightarrow> bytes list" where
  "mtree_leaves (MLeaf c) = [c]"
| "mtree_leaves (MNode l r) = mtree_leaves l @ mtree_leaves r"

text \<open>The strings that are hashed.\<close>

fun mtree_inputs :: "(bytes \<Rightarrow> bytes) \<Rightarrow> mtree \<Rightarrow> bytes set" where
  "mtree_inputs h (MLeaf c) = {0x00 # c}"
| "mtree_inputs h (MNode l r) =
     {0x01 # mtree_hash h l @ mtree_hash h r} \<union> mtree_inputs h l \<union> mtree_inputs h r"

fun mtree_top :: "(bytes \<Rightarrow> bytes) \<Rightarrow> mtree \<Rightarrow> bytes" where
  "mtree_top h (MLeaf c) = 0x00 # c"
| "mtree_top h (MNode l r) = 0x01 # mtree_hash h l @ mtree_hash h r"

fun mtree_level :: "mtree list \<Rightarrow> mtree list" where
  "mtree_level (a # b # rest) = MNode a b # mtree_level rest"
| "mtree_level ts = ts"

lemma length_mtree_level: "length (mtree_level ts) = (length ts + 1) div 2"
  by (induction ts rule: mtree_level.induct) auto

function mtree_reduce :: "mtree list \<Rightarrow> mtree" where
  "mtree_reduce ts = (if length ts > 1 then mtree_reduce (mtree_level ts) else hd ts)"
  by pat_completeness auto

termination by (relation "measure length") (auto simp: length_mtree_level)

declare mtree_reduce.simps [simp del]

definition merkle_tree :: "bytes list \<Rightarrow> mtree" where
  "merkle_tree chunks = mtree_reduce (map MLeaf chunks)"

definition merkle_inputs :: "(bytes \<Rightarrow> bytes) \<Rightarrow> bytes list \<Rightarrow> bytes set" where
  "merkle_inputs h chunks = (if chunks = [] then {} else mtree_inputs h (merkle_tree chunks))"

lemma merkle_level_tree: "merkle_level h (map (mtree_hash h) ts) = map (mtree_hash h) (mtree_level ts)"
  by (induction ts rule: mtree_level.induct) auto

lemma mtree_level_leaves: "concat (map mtree_leaves (mtree_level ts)) = concat (map mtree_leaves ts)"
  by (induction ts rule: mtree_level.induct) auto

lemma mtree_level_Nil: "mtree_level ts = [] \<longleftrightarrow> ts = []"
  by (cases ts rule: mtree_level.cases) auto

lemma merkle_reduce_tree:
  "ts \<noteq> [] \<Longrightarrow> merkle_reduce h (map (mtree_hash h) ts) = mtree_hash h (mtree_reduce ts) \<and>
     mtree_leaves (mtree_reduce ts) = concat (map mtree_leaves ts)"
proof (induction ts rule: mtree_reduce.induct)
  case (1 ts)
  show ?case
  proof (cases "length ts > 1")
    case True
    with 1 show ?thesis
      by (simp add: merkle_reduce.simps [of h "map (mtree_hash h) ts"] mtree_reduce.simps [of ts]
          merkle_level_tree mtree_level_Nil mtree_level_leaves)
  next
    case False
    with "1.prems" obtain t where "ts = [t]" by (cases ts) auto
    then show ?thesis by (simp add: merkle_reduce.simps mtree_reduce.simps)
  qed
qed

lemma merkle_root_tree:
  "chunks \<noteq> [] \<Longrightarrow> merkle_root h chunks = Some (mtree_hash h (merkle_tree chunks)) \<and>
     mtree_leaves (merkle_tree chunks) = chunks"
proof -
  assume "chunks \<noteq> []"
  moreover have "map (\<lambda>c. h (0x00 # c)) chunks = map (mtree_hash h) (map MLeaf chunks)" by simp
  moreover have "concat (map mtree_leaves (map MLeaf chunks)) = chunks" by (induction chunks) auto
  ultimately show ?thesis
    using merkle_reduce_tree [of "map MLeaf chunks" h]
    by (simp add: merkle_root_def merkle_tree_def del: map_map)
qed

lemma mtree_top_props: "mtree_top h t \<in> mtree_inputs h t" "mtree_hash h t = h (mtree_top h t)"
  by (cases t; simp)+

lemma mtree_hash_binding:
  assumes "\<And>x. length (h x) = 32" and "inj_on h (mtree_inputs h s \<union> mtree_inputs h t)"
    and "mtree_hash h s = mtree_hash h t"
  shows "s = t"
  using assms(2,3)
proof (induction s arbitrary: t)
  case (MLeaf c)
  have "mtree_top h (MLeaf c) = mtree_top h t"
    by (rule inj_onD [OF MLeaf(1)]) (use MLeaf(2) in \<open>auto simp: mtree_top_props\<close>)
  then show ?case by (cases t) simp_all
next
  case (MNode l r)
  have len: "length (mtree_hash h x) = 32" for x by (cases x) (simp_all add: assms(1))
  have top: "mtree_top h (MNode l r) = mtree_top h t"
    by (rule inj_onD [OF MNode.prems(1)]) (use MNode.prems(2) in \<open>auto simp: mtree_top_props\<close>)
  then obtain l' r' where t: "t = MNode l' r'" by (cases t) simp_all
  with top have "mtree_hash h l = mtree_hash h l'" "mtree_hash h r = mtree_hash h r'"
    by (simp_all add: len)
  moreover have "inj_on h (mtree_inputs h l \<union> mtree_inputs h l')"
    "inj_on h (mtree_inputs h r \<union> mtree_inputs h r')"
    by (rule inj_on_subset [OF MNode.prems(1)]; auto simp: t)+
  ultimately show ?case using MNode.IH t by simp
qed

section \<open>Properties\<close>

text \<open>
  Varints round-trip and are unique. Decoding at the position where the encoder wrote a
  number, whatever comes before and after it, returns that number and the position behind it;
  and whenever decoding succeeds, the bytes it consumed are exactly the encoder's bytes for the
  number returned, so no number has two accepted encodings.
\<close>

theorem varint_round_trip:
  "decode_varint (pre @ encode_varint n @ rest) (length pre) =
     Ok (n, length pre + length (encode_varint n)) \<and>
   (case decode_varint buf pos of
      Inl _ \<Rightarrow> True
    | Inr (m, pos') \<Rightarrow> encode_varint m = take (pos' - pos) (drop pos buf))"
proof
  show "decode_varint (pre @ encode_varint n @ rest) (length pre) =
      Ok (n, length pre + length (encode_varint n))" by (rule decode_encode_varint)
qed (auto simp: decode_varint_def and_then_def split: sum.splits if_splits)

text \<open>
  A signature is bound to its domain, its schema version and its content. The signature
  input is injective in all three, so a signature made for one purpose never verifies as one
  for another; and the content that is signed does not depend on the signature field itself,
  whatever value it holds.
\<close>

theorem sig_input_binding:
  "(sig_input d v (canonical_encode f derived) = sig_input d' v' c \<longleftrightarrow>
      d = d' \<and> v = v' \<and> canonical_encode f derived = c) \<and>
   sig_input d v (canonical_encode (fields_set SIGNATURE_FIELD sig f) derived) =
     sig_input d v (canonical_encode f derived)"
  by (auto simp: sig_input_def canonical_encode_def encode_fields_set_signature domain_tag_bytes_inject)

text \<open>
  a Merkle root binds the whole list of chunks, their number and order included. If two
  different lists of chunks have the same root, then the two computations hash two different
  strings to the same digest: there is an explicit collision of the hash among the strings
  that were hashed, no leaf being confused with an inner node.
\<close>

theorem merkle_root_binding:
  assumes "\<And>x. length (hash x) = 32" and "merkle_root hash xs = merkle_root hash ys" and "xs \<noteq> ys"
  shows "\<exists>a \<in> merkle_inputs hash xs \<union> merkle_inputs hash ys.
     \<exists>b \<in> merkle_inputs hash xs \<union> merkle_inputs hash ys. a \<noteq> b \<and> hash a = hash b"
proof (rule ccontr)
  assume none: "\<not> ?thesis"
  have ne: "xs \<noteq> [] \<and> ys \<noteq> []" using assms(2,3) by (auto simp: merkle_root_def split: if_splits)
  have "inj_on hash (mtree_inputs hash (merkle_tree xs) \<union> mtree_inputs hash (merkle_tree ys))"
    using none ne by (auto simp: inj_on_def merkle_inputs_def)
  moreover have "mtree_hash hash (merkle_tree xs) = mtree_hash hash (merkle_tree ys)"
    using assms(2) ne merkle_root_tree [of xs hash] merkle_root_tree [of ys hash] by simp
  ultimately have "merkle_tree xs = merkle_tree ys" using mtree_hash_binding [of hash, OF assms(1)] by blast
  then show False using assms(3) ne merkle_root_tree [of xs hash] merkle_root_tree [of ys hash] by metis
qed

theorem merkle_root_binding_witness:
  "\<exists>a \<in> merkle_inputs (\<lambda>_. replicate 32 0) [[1]] \<union> merkle_inputs (\<lambda>_. replicate 32 0) [[2], [3]].
   \<exists>b \<in> merkle_inputs (\<lambda>_. replicate 32 0) [[1]] \<union> merkle_inputs (\<lambda>_. replicate 32 0) [[2], [3]].
     a \<noteq> b \<and> (replicate 32 0 :: bytes) = replicate 32 0"
  by (rule merkle_root_binding) (simp_all add: merkle_root_def merkle_reduce.simps)

end
