(* ===== verification/Protocol_Ids.thy ===== *)
theory Protocol_Ids
  imports Rust_Bytes
begin

text \<open>
  Identifiers of the protocol. Hexadecimal text (\<open>src/crates/crypto/src/hex.rs\<close>), whose
  decoder indexes a byte slice and therefore could panic: a panic is the value \<open>None\<close>. The
  nonce of a replay-protected request (\<open>src/crates/protocol/src/nonce.rs\<close>). The identity
  of a fenced operation and its deduplication
  (\<open>src/crates/protocol/src/fenced_operation.rs\<close>). The participation model
  (\<open>src/crates/protocol/src/participation.rs\<close>). BLAKE3 is a parameter.
\<close>

section \<open>Hexadecimal text\<close>

datatype hex_error = HexLength usize usize | OddLength usize | NotHex u8 usize

definition nibble :: "u8 \<Rightarrow> usize \<Rightarrow> hex_error + u8" where
  "nibble byte index =
     (if 0x30 \<le> byte \<and> byte \<le> 0x39 then Ok (byte - 0x30)
      else if 0x61 \<le> byte \<and> byte \<le> 0x66 then Ok (byte - 0x61 + 10)
      else if 0x41 \<le> byte \<and> byte \<le> 0x46 then Ok (byte - 0x41 + 10)
      else Err (NotHex byte index))"

text \<open>\<open>bytes[at]\<close> panics out of range.\<close>

definition index_at :: "'a list \<Rightarrow> usize \<Rightarrow> 'a option" where
  "index_at xs i = (if i < length xs then Some (xs ! i) else None)"

definition pair_at :: "bytes \<Rightarrow> usize \<Rightarrow> (hex_error + u8) option" where
  "pair_at bs at =
     (case index_at bs at of None \<Rightarrow> None
      | Some b \<Rightarrow> (case nibble b at of Err e \<Rightarrow> Some (Err e)
         | Ok hi \<Rightarrow> (case index_at bs (at + 1) of None \<Rightarrow> None
            | Some c \<Rightarrow> (case nibble c (at + 1) of Err e \<Rightarrow> Some (Err e)
               | Ok lo \<Rightarrow> Some (Ok (push_bit 4 hi OR lo))))))"

text \<open>The loop over the pairs, which stops at the first error.\<close>

fun decode_pairs :: "bytes \<Rightarrow> usize list \<Rightarrow> (hex_error + bytes) option" where
  "decode_pairs bs [] = Some (Ok [])"
| "decode_pairs bs (i # is) =
     (case pair_at bs (i * 2) of None \<Rightarrow> None
      | Some (Err e) \<Rightarrow> Some (Err e)
      | Some (Ok b) \<Rightarrow> (case decode_pairs bs is of None \<Rightarrow> None
         | Some (Err e) \<Rightarrow> Some (Err e)
         | Some (Ok out) \<Rightarrow> Some (Ok (b # out))))"

definition decode_fixed :: "usize \<Rightarrow> str \<Rightarrow> (hex_error + bytes) option" where
  "decode_fixed n hex =
     (let bs = as_bytes hex
      in if length bs \<noteq> n * 2 then Some (Err (HexLength (n * 2) (length bs)))
         else decode_pairs bs [0..<n])"

definition decode_even :: "str \<Rightarrow> (hex_error + bytes) option" where
  "decode_even hex =
     (let bs = as_bytes hex
      in if length bs mod 2 \<noteq> 0 then Some (Err (OddLength (length bs)))
         else decode_pairs bs [0..<length bs div 2])"

text \<open>The printer the callers use, \<open>format!("{byte:02x}")\<close> for every byte.\<close>

definition hex_digit :: "nat \<Rightarrow> codepoint" where
  "hex_digit n = (if n < 10 then 48 + n else 87 + n)"

definition hex_byte :: "u8 \<Rightarrow> str" where
  "hex_byte b = [hex_digit (unat b div 16), hex_digit (unat b mod 16)]"

definition hex_encode :: "bytes \<Rightarrow> str" where
  "hex_encode bs = concat (map hex_byte bs)"

section \<open>Nonces\<close>

definition push_len_prefixed :: "bytes \<Rightarrow> bytes \<Rightarrow> bytes" where
  "push_len_prefixed out bs = out @ to_be_bytes_u64 (of_nat (length bs)) @ bs"

definition nonce_input :: "str \<Rightarrow> str \<Rightarrow> u32 \<Rightarrow> bytes" where
  "nonce_input tag ident connection_attempt =
     push_len_prefixed (push_len_prefixed [] (as_bytes tag)) (as_bytes ident)
       @ to_be_bytes_u64 (ucast connection_attempt)"

definition derive_replay_nonce :: "(bytes \<Rightarrow> bytes) \<Rightarrow> str \<Rightarrow> str \<Rightarrow> u32 \<Rightarrow> bytes" where
  "derive_replay_nonce blake3 tag ident connection_attempt =
     take 16 (blake3 (nonce_input tag ident connection_attempt))"

section \<open>Fenced operations\<close>

text \<open>The generated messages \<open>Digest\<close> and \<open>FencedOperation\<close>, and the values of
  \<open>HashAlgorithm\<close>. An enum field of a generated message is the raw integer.\<close>

datatype hash_algorithm = HashUnspecified | Blake3256 | Sha256

definition hash_algorithm_try_from :: "int \<Rightarrow> hash_algorithm option" where
  "hash_algorithm_try_from v =
     (if v = 0 then Some HashUnspecified else if v = 1 then Some Blake3256
      else if v = 2 then Some Sha256 else None)"

record digest =
  algo :: int
  dg_value :: bytes

record fenced_operation =
  fo_fence_epoch :: u64
  fo_operation_id :: "digest option"
  fo_operation_seq :: u64

record fenced_operation_key =
  fk_fence_epoch :: u64
  fk_operation_id :: bytes

definition FENCED_ULID_LEN :: usize where "FENCED_ULID_LEN = 26"

datatype invalid_fenced_operation =
    MissingJobId
  | MissingAttemptId
  | InvalidJobIdLength usize
  | InvalidAttemptIdLength usize
  | MissingOperationId
  | InvalidOperationIdAlgorithm int
  | InvalidOperationIdLength usize
  | OperationIdMismatch

datatype fenced_operation_decision =
    Accept fenced_operation_key
  | IdempotentRetransmission fenced_operation_key
  | StaleFence u64 u64
  | Invalid invalid_fenced_operation

definition operation_id_input :: "str \<Rightarrow> str \<Rightarrow> u64 \<Rightarrow> bytes" where
  "operation_id_input job_id attempt_id operation_seq =
     as_bytes job_id @ as_bytes attempt_id @ to_be_bytes_u64 operation_seq"

definition derive_operation_id :: "(bytes \<Rightarrow> bytes) \<Rightarrow> str \<Rightarrow> str \<Rightarrow> u64 \<Rightarrow> bytes" where
  "derive_operation_id blake3 job_id attempt_id operation_seq =
     blake3 (operation_id_input job_id attempt_id operation_seq)"

text \<open>\<open>iter().max()\<close>.\<close>

fun iter_max :: "'a::linorder list \<Rightarrow> 'a option" where
  "iter_max [] = None"
| "iter_max (x # xs) = Some (fold max xs x)"

definition evaluate_fenced_operation ::
  "(bytes \<Rightarrow> bytes) \<Rightarrow> str \<Rightarrow> str \<Rightarrow> fenced_operation \<Rightarrow> fenced_operation_key list \<Rightarrow> fenced_operation_decision" where
  "evaluate_fenced_operation blake3 job_id attempt_id operation previously_observed =
     (if job_id = [] then Invalid MissingJobId
      else if attempt_id = [] then Invalid MissingAttemptId
      else if length job_id \<noteq> FENCED_ULID_LEN then Invalid (InvalidJobIdLength (length job_id))
      else if length attempt_id \<noteq> FENCED_ULID_LEN then Invalid (InvalidAttemptIdLength (length attempt_id))
      else case fo_operation_id operation of None \<Rightarrow> Invalid MissingOperationId
      | Some d \<Rightarrow>
         (if hash_algorithm_try_from (algo d) \<noteq> Some Blake3256
          then Invalid (InvalidOperationIdAlgorithm (algo d))
          else if length (dg_value d) \<noteq> 32 then Invalid (InvalidOperationIdLength (length (dg_value d)))
          else let derived = derive_operation_id blake3 job_id attempt_id (fo_operation_seq operation)
            in if dg_value d \<noteq> derived then Invalid OperationIdMismatch
            else let key = \<lparr>fk_fence_epoch = fo_fence_epoch operation, fk_operation_id = derived\<rparr>
              in case iter_max (map fk_fence_epoch previously_observed) of
                  Some max_seen \<Rightarrow>
                    if fo_fence_epoch operation < max_seen then StaleFence (fo_fence_epoch operation) max_seen
                    else if key \<in> set previously_observed then IdempotentRetransmission key
                    else Accept key
                | None \<Rightarrow>
                    if key \<in> set previously_observed then IdempotentRetransmission key
                    else Accept key))"

section \<open>The participation model\<close>

datatype participation_model = PmPrivateTeam | PmPublicPool | PmTrustedNetwork

datatype commit_profile_kind = QuorumCommitted | BrokerAttested | CoordinatorDurable

datatype participation_model_error = PmMissing | PmUnknown str

definition parse_participation :: "str \<Rightarrow> participation_model_error + participation_model" where
  "parse_participation value =
     (let trimmed = trim value
      in if trimmed = [] then Err PmMissing
         else if trimmed = lit ''private-team'' then Ok PmPrivateTeam
         else if trimmed = lit ''public-pool'' then Ok PmPublicPool
         else if trimmed = lit ''trusted-network'' then Ok PmTrustedNetwork
         else Err (PmUnknown trimmed))"

fun participation_as_str :: "participation_model \<Rightarrow> str" where
  "participation_as_str PmPrivateTeam = lit ''private-team''"
| "participation_as_str PmPublicPool = lit ''public-pool''"
| "participation_as_str PmTrustedNetwork = lit ''trusted-network''"

fun commit_profile :: "participation_model \<Rightarrow> commit_profile_kind" where
  "commit_profile PmPrivateTeam = QuorumCommitted"
| "commit_profile PmPublicPool = BrokerAttested"
| "commit_profile PmTrustedNetwork = CoordinatorDurable"

fun pm_assumes_mutual_trust :: "participation_model \<Rightarrow> bool" where
  "pm_assumes_mutual_trust PmPrivateTeam \<longleftrightarrow> True"
| "pm_assumes_mutual_trust PmPublicPool \<longleftrightarrow> False"
| "pm_assumes_mutual_trust PmTrustedNetwork \<longleftrightarrow> True"

section \<open>The decoder\<close>

lemma index_at_Some [simp]: "i < length xs \<Longrightarrow> index_at xs i = Some (xs ! i)"
  by (simp add: index_at_def)

lemma pair_at_returns: "at + 1 < length bs \<Longrightarrow> \<exists>r. pair_at bs at = Some r"
  by (auto simp: pair_at_def split: sum.splits)

lemma decode_pairs_returns: "\<forall>i \<in> set is. i * 2 + 1 < length bs \<Longrightarrow> \<exists>r. decode_pairs bs is = Some r"
proof (induction "is")
  case (Cons i "is")
  then obtain r r' where "pair_at bs (i * 2) = Some r" "decode_pairs bs is = Some r'"
    using pair_at_returns [of "i * 2" bs] by auto
  then show ?case by (auto split: sum.splits)
qed simp

lemma decode_pairs_Ok:
  "decode_pairs bs is = Some (Ok out) \<longleftrightarrow> list_all2 (\<lambda>i b. pair_at bs (i * 2) = Some (Ok b)) is out"
proof (induction "is" arbitrary: out)
  case (Cons i "is")
  show ?case
    by (auto simp: list_all2_Cons1 Cons.IH [symmetric] split: option.splits sum.splits)
qed auto

lemma nibble_hex_digit: "n < 16 \<Longrightarrow> nibble (of_nat (hex_digit n)) i = Ok (of_nat n)"
proof -
  assume "n < 16"
  then have "n \<in> {0, 1, 2, 3, 4, 5, 6, 7, 8, 9, 10, 11, 12, 13, 14, 15}" by (simp, presburger)
  then show ?thesis by (elim insertE emptyE) (simp_all add: nibble_def hex_digit_def)
qed

lemma join_nibbles: "push_bit 4 (of_nat (unat b div 16)) OR of_nat (unat b mod 16) = (b :: u8)"
proof -
  have "(of_nat (unat b div 16) :: u8) = drop_bit 4 b"
    using word_arith_nat_div [of b 16] by (simp add: drop_bit_eq_div)
  moreover have "(of_nat (unat b mod 16) :: u8) = take_bit 4 b"
    using word_arith_nat_mod [of b 16] by (simp add: take_bit_eq_mod)
  ultimately show ?thesis by (auto simp: bit_eq_iff bit_simps)
qed

lemma unat_high_nibble: "unat (b :: u8) div 16 < 16"
proof -
  have "unat b < 256" using unsigned_less [of b, where 'a = nat] by simp
  then show ?thesis by linarith
qed

lemma utf8_ascii: "c < 128 \<Longrightarrow> utf8_char c = [c]"
  by (simp add: utf8_char_def)

lemma hex_digit_ascii: "n < 16 \<Longrightarrow> hex_digit n < 128"
  by (simp add: hex_digit_def)

lemma as_bytes_hex_encode:
  "as_bytes (hex_encode bs) = concat (map (\<lambda>b. [of_nat (hex_digit (unat b div 16)), of_nat (hex_digit (unat b mod 16))]) bs)"
proof (induction bs)
  case (Cons b bs)
  have "unat b div 16 < 16" by (rule unat_high_nibble)
  then show ?case using Cons by (simp add: as_bytes_def hex_encode_def hex_byte_def utf8_ascii hex_digit_ascii)
qed (simp add: as_bytes_def hex_encode_def)

lemma length_as_bytes_hex_encode [simp]: "length (as_bytes (hex_encode bs)) = length bs * 2"
  unfolding as_bytes_hex_encode by (induction bs) auto

lemma pair_at_hex_encode: "i < length bs \<Longrightarrow> pair_at (as_bytes (hex_encode bs)) (i * 2) = Some (Ok (bs ! i))"
proof -
  assume i: "i < length bs"
  have nth: "as_bytes (hex_encode bs) ! (i * 2) = of_nat (hex_digit (unat (bs ! i) div 16))"
    "as_bytes (hex_encode bs) ! Suc (i * 2) = of_nat (hex_digit (unat (bs ! i) mod 16))"
    using i unfolding as_bytes_hex_encode
    by (induction bs arbitrary: i) (auto simp: nth_Cons split: nat.splits)
  have "unat (bs ! i) div 16 < 16" by (rule unat_high_nibble)
  with i nth show ?thesis by (simp add: pair_at_def nibble_hex_digit join_nibbles)
qed

lemma decode_pairs_hex_encode: "decode_pairs (as_bytes (hex_encode bs)) [0..<length bs] = Some (Ok bs)"
  by (auto simp: decode_pairs_Ok list_all2_conv_all_nth pair_at_hex_encode)

text \<open>Hexadecimal text round trips: what the callers print decodes to the same bytes, with
  the expected length and without one. On every input whatever, whatever its length, its letters
  or the number of bytes its characters take, the two decoders return: no index is out of
  range.\<close>

theorem hex_round_trip_and_no_panic:
  "decode_fixed (length bs) (hex_encode bs) = Some (Ok bs) \<and> decode_even (hex_encode bs) = Some (Ok bs) \<and>
   decode_fixed n s \<noteq> None \<and> decode_even s \<noteq> None"
proof (intro conjI)
  show "decode_fixed (length bs) (hex_encode bs) = Some (Ok bs)" "decode_even (hex_encode bs) = Some (Ok bs)"
    by (simp_all add: decode_fixed_def decode_even_def decode_pairs_hex_encode)
  have "\<exists>r. decode_pairs (as_bytes s) [0..<m] = Some r" if "length (as_bytes s) = m * 2" for m
    by (rule decode_pairs_returns) (use that in auto)
  then show "decode_fixed n s \<noteq> None" "decode_even s \<noteq> None"
    by (fastforce simp: decode_fixed_def decode_even_def Let_def)+
qed

section \<open>Nonces\<close>

text \<open>The text that is hashed into a replay nonce determines the tag, the identifier and the
  connection attempt: two different requests never hash the same bytes. (The nonce itself is cut
  to sixteen bytes and is not claimed to be injective.)\<close>

lemma ucast_up_inject: "(ucast (n :: u32) :: u64) = ucast n' \<longleftrightarrow> n = n'"
proof
  assume "(ucast n :: u64) = ucast n'"
  then have "unat (ucast n :: u64) = unat (ucast n' :: u64)" by simp
  then have "unat n = unat n'" by (simp add: unsigned_ucast_eq take_bit_nat_eq_self unsigned_less [THEN less_trans])
  then show "n = n'" by (simp only: word_unat_eq_iff)
qed simp

theorem nonce_input_binding:
  assumes "valid_str tag" and "valid_str tag'" and "valid_str ident" and "valid_str ident'"
    and "length (as_bytes tag) < 2 ^ 64" and "length (as_bytes tag') < 2 ^ 64"
    and "length (as_bytes ident) < 2 ^ 64" and "length (as_bytes ident') < 2 ^ 64"
  shows "nonce_input tag ident n = nonce_input tag' ident' n' \<longleftrightarrow> tag = tag' \<and> ident = ident' \<and> n = n'"
proof -
  have eq: "nonce_input t i k = len_prefixed (as_bytes t) @ len_prefixed (as_bytes i) @ to_be_bytes_u64 (ucast k)" for t i k
    by (simp add: nonce_input_def push_len_prefixed_def len_prefixed_def)
  have "(ucast n :: u64) = ucast n' \<longleftrightarrow> n = n'"
    by (rule ucast_up_inject)
  then show ?thesis
    using assms len_prefixed_inject [of "as_bytes ident" "as_bytes ident'" "[]" "[]"]
    by (simp add: eq len_prefixed_inject as_bytes_inject)
qed

theorem nonce_input_binding_witness:
  "nonce_input (lit ''L:5'') (lit ''x'') 0 \<noteq> nonce_input (lit ''L:'') (lit ''5x'') 0"
  using nonce_input_binding [of "lit ''L:5''" "lit ''L:''" "lit ''x''" "lit ''5x''" 0 0]
  by (simp add: valid_str_def scalar_value_def as_bytes_def utf8_char_def)

section \<open>Fenced operations\<close>

lemma iter_max_Some: "iter_max xs = Some m \<Longrightarrow> m \<in> set xs \<and> (\<forall>x \<in> set xs. x \<le> m)"
proof (cases xs)
  case (Cons x ys)
  assume "iter_max xs = Some m"
  moreover have "fold max ys x = Max (set xs)" by (metis Cons Max.set_eq_fold)
  ultimately have "m = Max (set xs)" using Cons by simp
  then show ?thesis using Cons Max_in [of "set xs"] by simp
qed simp

lemma iter_max_None [simp]: "iter_max xs = None \<longleftrightarrow> xs = []"
  by (cases xs) auto

definition well_formed_operation :: "(bytes \<Rightarrow> bytes) \<Rightarrow> str \<Rightarrow> str \<Rightarrow> fenced_operation \<Rightarrow> bool" where
  "well_formed_operation blake3 job_id attempt_id op \<longleftrightarrow>
     length job_id = 26 \<and> length attempt_id = 26 \<and>
     (\<exists>v. fo_operation_id op = Some \<lparr>algo = 1, dg_value = v\<rparr> \<and> length v = 32 \<and>
        v = derive_operation_id blake3 job_id attempt_id (fo_operation_seq op))"

definition operation_key :: "(bytes \<Rightarrow> bytes) \<Rightarrow> str \<Rightarrow> str \<Rightarrow> fenced_operation \<Rightarrow> fenced_operation_key" where
  "operation_key blake3 job_id attempt_id op =
     \<lparr>fk_fence_epoch = fo_fence_epoch op,
      fk_operation_id = derive_operation_id blake3 job_id attempt_id (fo_operation_seq op)\<rparr>"

lemma evaluate_fenced_operation_ill_formed:
  "\<not> well_formed_operation h j a op \<Longrightarrow> \<exists>r. evaluate_fenced_operation h j a op obs = Invalid r"
proof -
  have rec: "d = \<lparr>algo = 1, dg_value = dg_value d\<rparr>" if "algo d = 1" for d :: digest
    using that by (cases d) simp
  assume "\<not> well_formed_operation h j a op"
  then show ?thesis
    using rec unfolding well_formed_operation_def evaluate_fenced_operation_def FENCED_ULID_LEN_def hash_algorithm_try_from_def Let_def
    by (auto split: option.splits)
qed

lemma evaluate_fenced_operation_well_formed:
  assumes "well_formed_operation h j a op"
  shows "evaluate_fenced_operation h j a op obs =
    (let key = operation_key h j a op
     in case iter_max (map fk_fence_epoch obs) of
          Some m \<Rightarrow> if fo_fence_epoch op < m then StaleFence (fo_fence_epoch op) m
                   else if key \<in> set obs then IdempotentRetransmission key else Accept key
        | None \<Rightarrow> Accept key)"
proof -
  have "j \<noteq> []" "a \<noteq> []" using assms by (auto simp: well_formed_operation_def)
  then show ?thesis
    using assms by (auto simp: well_formed_operation_def evaluate_fenced_operation_def FENCED_ULID_LEN_def
        hash_algorithm_try_from_def operation_key_def Let_def split: option.splits)
qed

lemma evaluate_fenced_operation_Accept:
  "evaluate_fenced_operation h j a op obs = Accept k \<longleftrightarrow>
     well_formed_operation h j a op \<and> k = operation_key h j a op \<and> k \<notin> set obs \<and>
     (\<forall>o' \<in> set obs. fk_fence_epoch o' \<le> fo_fence_epoch op)"
proof (cases "well_formed_operation h j a op")
  case False
  then show ?thesis using evaluate_fenced_operation_ill_formed [OF False, of obs] by auto
next
  case True
  show ?thesis
  proof (cases "iter_max (map fk_fence_epoch obs)")
    case None
    with True show ?thesis by (auto simp: evaluate_fenced_operation_well_formed)
  next
    case (Some m)
    with iter_max_Some [OF Some] have "fo_fence_epoch op < m \<longleftrightarrow> \<not> (\<forall>o' \<in> set obs. fk_fence_epoch o' \<le> fo_fence_epoch op)"
      by (auto simp: not_le)
    with True Some show ?thesis by (auto simp: evaluate_fenced_operation_well_formed Let_def)
  qed
qed

lemma operation_id_input_inject:
  assumes "valid_str j" "valid_str j'" "valid_str a" "valid_str a'" and "length j = length j'"
  shows "operation_id_input j a n = operation_id_input j' a' n' \<longleftrightarrow> j = j' \<and> a = a' \<and> n = n'"
proof
  assume eq: "operation_id_input j a n = operation_id_input j' a' n'"
  then have "(as_bytes j @ as_bytes a) @ to_be_bytes_u64 n = (as_bytes j' @ as_bytes a') @ to_be_bytes_u64 n'"
    by (simp add: operation_id_input_def)
  then have "as_bytes j @ as_bytes a = as_bytes j' @ as_bytes a'" and "n = n'"
    by (subst (asm) append_eq_append_conv; simp)+
  moreover have "as_bytes s @ as_bytes t = as_bytes (s @ t)" for s t by (simp add: as_bytes_def)
  moreover have "valid_str (j @ a)" "valid_str (j' @ a')" using assms by (simp_all add: valid_str_def)
  ultimately show "j = j' \<and> a = a' \<and> n = n'"
    using assms(5) by (simp add: as_bytes_inject)
qed simp

text \<open>A caller that remembers the keys it accepted, and the operations it carries out.\<close>

fun fenced_accepts ::
  "(bytes \<Rightarrow> bytes) \<Rightarrow> fenced_operation_key list \<Rightarrow> (str \<times> str \<times> fenced_operation) list \<Rightarrow> (str \<times> str \<times> fenced_operation) list" where
  "fenced_accepts h obs [] = []"
| "fenced_accepts h obs ((j, a, op) # rest) =
     (case evaluate_fenced_operation h j a op obs of
        Accept key \<Rightarrow> (j, a, op) # fenced_accepts h (key # obs) rest
      | _ \<Rightarrow> fenced_accepts h obs rest)"

lemma fenced_accepts_Cons:
  "fenced_accepts h obs ((j, a, op) # rest) =
     (if \<exists>k. evaluate_fenced_operation h j a op obs = Accept k
      then (j, a, op) # fenced_accepts h (operation_key h j a op # obs) rest
      else fenced_accepts h obs rest)"
  by (cases "evaluate_fenced_operation h j a op obs")
     (auto dest: evaluate_fenced_operation_Accept [THEN iffD1])

lemma fenced_accepts_sound:
  "(j, a, op) \<in> set (fenced_accepts h obs ops) \<Longrightarrow>
     (j, a, op) \<in> set ops \<and> well_formed_operation h j a op \<and> operation_key h j a op \<notin> set obs \<and>
     (\<forall>o' \<in> set obs. fk_fence_epoch o' \<le> fo_fence_epoch op)"
proof (induction h obs ops rule: fenced_accepts.induct)
  case (2 h obs j' a' op' rest)
  then show ?case
    by (auto simp: evaluate_fenced_operation_Accept split: fenced_operation_decision.splits)
qed simp

abbreviation operation_identity :: "str \<times> str \<times> fenced_operation \<Rightarrow> u64 \<times> str \<times> str \<times> u64" where
  "operation_identity \<equiv> \<lambda>(j, a, op). (fo_fence_epoch op, j, a, fo_operation_seq op)"

text \<open>C30: A caller that feeds the kernel the keys it has accepted carries out no operation twice
  and never goes back to an older fence: the accepted operations are pairwise different in epoch,
  job, attempt and sequence number, their epochs never decrease, and each of them presented the
  digest derived from its own identity.\<close>

theorem fenced_operations_once:
  "distinct (map operation_identity (fenced_accepts h obs ops)) \<and>
   sorted (map (\<lambda>(j, a, op). fo_fence_epoch op) (fenced_accepts h obs ops)) \<and>
   list_all (\<lambda>(j, a, op). well_formed_operation h j a op) (fenced_accepts h obs ops)"
proof (induction ops arbitrary: obs)
  case (Cons x rest)
  obtain j a op where x: "x = (j, a, op)" by (cases x)
  let ?key = "operation_key h j a op"
  show ?case
  proof (cases "\<exists>k. evaluate_fenced_operation h j a op obs = Accept k")
    case True
    have "?key \<noteq> operation_key h j' a' op' \<and> fo_fence_epoch op \<le> fo_fence_epoch op'"
      if "(j', a', op') \<in> set (fenced_accepts h (?key # obs) rest)" for j' a' op'
      using fenced_accepts_sound [OF that] by (auto simp: operation_key_def)
    then have "operation_identity x \<notin> operation_identity ` set (fenced_accepts h (?key # obs) rest)"
      and "\<forall>(j', a', op') \<in> set (fenced_accepts h (?key # obs) rest). fo_fence_epoch op \<le> fo_fence_epoch op'"
      by (fastforce simp: x operation_key_def)+
    moreover have "well_formed_operation h j a op" using True by (auto simp: evaluate_fenced_operation_Accept)
    moreover have "fenced_accepts h obs (x # rest) = x # fenced_accepts h (?key # obs) rest"
      using True unfolding x fenced_accepts_Cons by simp
    ultimately show ?thesis using Cons.IH [of "?key # obs"] by (auto simp: x)
  next
    case False
    then have "fenced_accepts h obs (x # rest) = fenced_accepts h obs rest"
      unfolding x fenced_accepts_Cons by simp
    then show ?thesis using Cons.IH [of obs] by simp
  qed
qed simp

text \<open>The operation identifier binds the job, the attempt and the sequence number: where BLAKE3
  does not collide on the two inputs, two accepted operations with the same identifier are the
  same operation. The two identities are concatenated without a separator; their 26 characters are
  counted in characters and not in bytes, and still the split is unambiguous.\<close>

theorem operation_id_binding:
  assumes "valid_str j" "valid_str j'" "valid_str a" "valid_str a'"
    and blake3: "inj_on h {operation_id_input j a (fo_operation_seq op), operation_id_input j' a' (fo_operation_seq op')}"
    and "evaluate_fenced_operation h j a op obs = Accept k"
    and "evaluate_fenced_operation h j' a' op' obs' = Accept k'"
    and same: "fk_operation_id k = fk_operation_id k'"
  shows "j = j' \<and> a = a' \<and> fo_operation_seq op = fo_operation_seq op'"
proof -
  have "length j = length j'" and
    "h (operation_id_input j a (fo_operation_seq op)) = h (operation_id_input j' a' (fo_operation_seq op'))"
    using assms(6,7) same
    by (auto simp: evaluate_fenced_operation_Accept well_formed_operation_def operation_key_def derive_operation_id_def)
  then show ?thesis
    using operation_id_input_inject [OF assms(1-4)] inj_onD [OF blake3] by blast
qed

definition example_hash :: "bytes \<Rightarrow> bytes" where
  "example_hash bs = take 32 (rev bs)"

definition example_operation :: "u64 \<Rightarrow> u64 \<Rightarrow> fenced_operation" where
  "example_operation epoch n =
     \<lparr>fo_fence_epoch = epoch,
      fo_operation_id = Some \<lparr>algo = 1, dg_value = derive_operation_id example_hash (replicate 26 65) (replicate 26 66) n\<rparr>,
      fo_operation_seq = n\<rparr>"

lemma length_as_bytes_replicate: "c < 128 \<Longrightarrow> length (as_bytes (replicate n c)) = n"
  by (induction n) (simp_all add: as_bytes_def utf8_char_def)

theorem operation_id_binding_witness:
  "\<exists>k. evaluate_fenced_operation example_hash (replicate 26 65) (replicate 26 66) (example_operation 3 7) [] = Accept k \<and>
     (7 :: u64) = fo_operation_seq (example_operation 9 7)"
proof -
  let ?j = "replicate 26 65" and ?a = "replicate 26 66"
  have wf: "well_formed_operation example_hash ?j ?a (example_operation e 7)" for e
    by (simp add: well_formed_operation_def example_operation_def derive_operation_id_def example_hash_def
        operation_id_input_def length_as_bytes_replicate)
  have valid: "valid_str ?j" "valid_str ?a" by (simp_all add: valid_str_def scalar_value_def list_all_iff)
  have acc: "evaluate_fenced_operation example_hash ?j ?a (example_operation e 7) [] =
      Accept (operation_key example_hash ?j ?a (example_operation e 7))" for e
    using wf by (simp add: evaluate_fenced_operation_Accept)
  have "fo_operation_seq (example_operation 3 7) = fo_operation_seq (example_operation 9 7)"
    using operation_id_binding [OF valid(1,1) valid(2,2), where h = example_hash, OF _ acc [of 3] acc [of 9]]
    by (simp add: example_operation_def operation_key_def)
  then show ?thesis using acc [of 3] by (simp add: example_operation_def)
qed

section \<open>The participation model\<close>

lemma trim_graphic: "s \<noteq> [] \<Longrightarrow> \<not> is_whitespace (hd s) \<Longrightarrow> \<not> is_whitespace (last s) \<Longrightarrow> trim s = s"
proof -
  assume "s \<noteq> []" "\<not> is_whitespace (hd s)" "\<not> is_whitespace (last s)"
  then have "dropWhile is_whitespace s = s" "dropWhile is_whitespace (rev s) = rev s"
    by (simp_all add: dropWhile_eq_self_iff hd_rev)
  then show ?thesis by (simp add: trim_def)
qed

lemma parse_participation_as_str: "parse_participation (participation_as_str m) = Ok m"
  by (cases m) (simp_all add: parse_participation_def trim_graphic is_whitespace_def)

lemma parse_participation_Ok: "parse_participation s = Ok m \<longleftrightarrow> trim s = participation_as_str m"
  by (cases m) (auto simp: parse_participation_def Let_def)

end
