(* ===== verification/Ckpt_Commit.thy ===== *)
theory Ckpt_Commit
  imports Ckpt_Atomic Canonical Protocol_Ids
begin

text \<open>
  The commit protocol of checkpoints. The state markers and the manifest of
  \<open>src/crates/checkpoint/src/durability.rs\<close>, the staged commit of
  \<open>src/crates/checkpoint/src/commit.rs\<close> (data files under content addresses, the manifest last),
  and the writer, the search for a resume point and the collection of garbage of
  \<open>src/crates/checkpoint/src/writer.rs\<close> and \<open>atomic.rs\<close>.

  BLAKE3 and the JSON codec of the manifest are the fields of \<open>ckpt_api\<close>.
\<close>

section \<open>Manifests\<close>

record ckpt_file =
  cf_path :: str
  cf_digest :: str
  cf_size_bytes :: u64

record ckpt_manifest =
  lm_schema_version :: u32
  lm_checkpoint_id :: str
  lm_job_id :: str
  lm_attempt_id :: str
  lm_step :: u64
  lm_files :: "ckpt_file list"
  lm_root_digest :: str
  lm_total_bytes :: u64
  lm_created_at_unix_ms :: u64
  lm_producer_node_id :: str
  lm_fence_epoch :: u64

record ckpt_api =
  api_hash :: "bytes \<Rightarrow> bytes"
  api_to_json :: "ckpt_manifest \<Rightarrow> bytes option"
  api_from_json :: "bytes \<Rightarrow> ckpt_manifest option"

definition MANIFEST_FILENAME :: str where "MANIFEST_FILENAME = lit ''manifest.json''"

definition digest_hex :: "ckpt_api \<Rightarrow> bytes \<Rightarrow> str" where
  "digest_hex api data = hex_encode (api_hash api data)"

fun verify_files :: "ckpt_api \<Rightarrow> path \<Rightarrow> ckpt_file list \<Rightarrow> unit ck" where
  "verify_files api dir [] = tx_return ()"
| "verify_files api dir (file # files) =
     tx_bind (ck_io (read_beneath_capped dir (cf_path file) (cf_size_bytes file))) (\<lambda>data.
     if digest_hex api data \<noteq> cf_digest file
     then tx_fail (HashMismatch (join_path dir (cf_path file)) (cf_digest file) (digest_hex api data))
     else verify_files api dir files)"

definition to_json :: "ckpt_api \<Rightarrow> ckpt_manifest \<Rightarrow> checkpoint_error + bytes" where
  "to_json api m = ok_or (api_to_json api m) ManifestUnreadable"

definition from_json :: "ckpt_api \<Rightarrow> bytes \<Rightarrow> checkpoint_error + ckpt_manifest" where
  "from_json api data = ok_or (api_from_json api data) ManifestUnreadable"

section \<open>State markers\<close>

fun state_debug :: "durability_state \<Rightarrow> string" where
  "state_debug DsWriting = ''Writing''"
| "state_debug DsPartial = ''Partial''"
| "state_debug DsLocalWritten = ''LocalWritten''"
| "state_debug DsHashVerified = ''HashVerified''"
| "state_debug DsReplicating = ''Replicating''"
| "state_debug DsReplicated = ''Replicated''"
| "state_debug DsCommitted = ''Committed''"
| "state_debug DsCommittedDegraded = ''CommittedDegraded''"

definition marker_text :: "durability_state \<Rightarrow> bytes" where
  "marker_text state = as_bytes (lit (state_debug state) @ [10])"

definition PUBLICATION_FAILED_MARKER :: str where "PUBLICATION_FAILED_MARKER = lit ''.publication-failed''"

definition publication_failed_text :: bytes where
  "publication_failed_text = as_bytes (lit ''checkpoint publication failed'' @ [10])"

definition record_initial_state :: "path \<Rightarrow> unit ck" where
  "record_initial_state dir =
     tx_bind (write_once dir (lit (state_marker_name DsWriting)) (marker_text DsWriting)) (\<lambda>_. tx_return ())"

definition record_state_transition :: "path \<Rightarrow> durability_state \<Rightarrow> durability_state \<Rightarrow> unit ck" where
  "record_state_transition dir from to =
     tx_bind (tx_map_err CkInvalidTransition (lift_result (durability_transition from to))) (\<lambda>_.
     tx_bind (write_once dir (lit (state_marker_name to)) (marker_text to)) (\<lambda>_. tx_return ()))"

definition record_publication_failure :: "path \<Rightarrow> unit ck" where
  "record_publication_failure dir =
     tx_bind (write_once dir PUBLICATION_FAILED_MARKER publication_failed_text) (\<lambda>_. tx_return ())"

text \<open>A missing marker is an answer, every other error is one.\<close>

definition marker_present :: "path \<Rightarrow> str \<Rightarrow> bytes \<Rightarrow> bool ck" where
  "marker_present dir name expected s = (case read_beneath dir name s of
     (Inr actual, s') \<Rightarrow> (Ok (actual = expected), s')
   | (Inl e, s') \<Rightarrow> (if e = NotFound then Ok False else Err (CkIo e), s'))"

definition state_recorded :: "path \<Rightarrow> durability_state \<Rightarrow> bool ck" where
  "state_recorded dir state = marker_present dir (lit (state_marker_name state)) (marker_text state)"

definition publication_failed :: "path \<Rightarrow> bool ck" where
  "publication_failed dir = marker_present dir PUBLICATION_FAILED_MARKER publication_failed_text"

section \<open>Names of data files\<close>

datatype commit_error =
    UnsafeCheckpointId str unsafe_reason
  | UnsafeLogicalName str unsafe_reason
  | DuplicateLogicalName str str
  | DataFile str checkpoint_error
  | StagedFileUnreadable str io_error
  | StagedFileChanged str str str
  | NothingStaged str
  | AlreadyCommitted str
  | ManifestWrite checkpoint_error
  | Marker checkpoint_error
  | CommitIo io_error

definition CONTENT_ADDRESS_MARKER :: str where "CONTENT_ADDRESS_MARKER = lit ''.b3-''"
definition MAX_LOGICAL_NAME_LEN :: usize where "MAX_LOGICAL_NAME_LEN = 120"

definition validate_component :: "str \<Rightarrow> usize \<Rightarrow> unsafe_reason + unit" where
  "validate_component value len_limit =
     (if value = [] then Err EmptyName
      else if length (as_bytes value) > len_limit then Err NameTooLong
      else if slash \<in> set value \<or> backslash \<in> set value then Err HasSeparator
      else if value = lit ''.'' \<or> value = lit ''..'' then Err DotsOnly
      else if hd value = 46 then Err LeadingDot
      else if last value = 46 \<or> last value = 32 then Err TrailingDotOrSpace
      else if 0 \<in> set value then Err HasNul
      else Ok ())"

definition validate_logical_name :: "str \<Rightarrow> commit_error + unit" where
  "validate_logical_name name =
     (case validate_component name MAX_LOGICAL_NAME_LEN of
        Inl reason \<Rightarrow> Err (UnsafeLogicalName name reason)
      | Inr _ \<Rightarrow> reject_if (sublist CONTENT_ADDRESS_MARKER name) (UnsafeLogicalName name ReservedMarker))"

definition validate_checkpoint_id :: "str \<Rightarrow> commit_error + unit" where
  "validate_checkpoint_id i =
     (case validate_component i MAX_LOGICAL_NAME_LEN of
        Inl reason \<Rightarrow> Err (UnsafeCheckpointId i reason)
      | Inr _ \<Rightarrow> Ok ())"

definition stored_name :: "ckpt_api \<Rightarrow> str \<Rightarrow> bytes \<Rightarrow> str" where
  "stored_name api logical_name data = logical_name @ CONTENT_ADDRESS_MARKER @ digest_hex api data"

definition stored_name_for :: "ckpt_api \<Rightarrow> str \<Rightarrow> bytes \<Rightarrow> commit_error + str" where
  "stored_name_for api logical_name data =
     and_then (validate_logical_name logical_name) (\<lambda>_. Ok (stored_name api logical_name data))"

definition rsplit_once :: "str \<Rightarrow> str \<Rightarrow> (str \<times> str) option" where
  "rsplit_once pat s =
     (case filter (\<lambda>i. prefix pat (drop i s)) (rev [0..<Suc (length s)]) of
        [] \<Rightarrow> None
      | i # _ \<Rightarrow> Some (take i s, drop (i + length pat) s))"

definition is_lower_hex :: "codepoint \<Rightarrow> bool" where
  "is_lower_hex c \<longleftrightarrow> 48 \<le> c \<and> c \<le> 57 \<or> 97 \<le> c \<and> c \<le> 102"

definition logical_name_of :: "str \<Rightarrow> str option" where
  "logical_name_of stored =
     (case rsplit_once CONTENT_ADDRESS_MARKER stored of
        None \<Rightarrow> None
      | Some (logical, digest) \<Rightarrow>
          if logical = [] \<or> length (as_bytes digest) \<noteq> 64 then None
          else if \<not> list_all is_lower_hex digest then None
          else Some logical)"

section \<open>The staged commit\<close>

record staged_file =
  sf_logical_name :: str
  sf_stored_name :: str
  sf_digest :: str
  sf_size_bytes :: u64
  sf_newly_written :: bool

record manifest_meta =
  mm_job_id :: str
  mm_attempt_id :: str
  mm_step :: u64
  mm_fence_epoch :: u64
  mm_producer_node_id :: str
  mm_created_at_unix_ms :: u64

record staged_checkpoint =
  sc_dir :: path
  sc_checkpoint_id :: str
  sc_staged :: "staged_file list"

record committed_checkpoint =
  cc_dir :: path
  cc_manifest :: ckpt_manifest
  cc_manifest_newly_written :: bool

type_synonym 'a cm = "fs \<Rightarrow> (commit_error + 'a) \<times> fs"

definition manifest_present :: "path \<Rightarrow> bool cm" where
  "manifest_present dir s = (case read_beneath dir MANIFEST_FILENAME s of
     (Inr _, s') \<Rightarrow> (Ok True, s')
   | (Inl e, s') \<Rightarrow> (if e = NotFound then Ok False else Err (CommitIo e), s'))"

definition begin_staged :: "path \<Rightarrow> str \<Rightarrow> staged_checkpoint cm" where
  "begin_staged root checkpoint_id =
     tx_bind (lift_result (validate_checkpoint_id checkpoint_id)) (\<lambda>_.
     let dir = join_path root checkpoint_id in
     tx_bind (tx_map_err CommitIo (fs_create_dir_all dir)) (\<lambda>_.
     tx_bind (manifest_present dir) (\<lambda>present.
     if present then tx_fail (AlreadyCommitted checkpoint_id)
     else tx_bind (tx_map_err Marker (record_initial_state dir)) (\<lambda>_.
       tx_return \<lparr>sc_dir = dir, sc_checkpoint_id = checkpoint_id, sc_staged = []\<rparr>))))"

definition stage_file :: "ckpt_api \<Rightarrow> str \<Rightarrow> bytes \<Rightarrow> staged_checkpoint \<Rightarrow> staged_checkpoint cm" where
  "stage_file api logical_name data sc =
     tx_bind (lift_result (validate_logical_name logical_name)) (\<lambda>_.
     case find (\<lambda>f. sf_logical_name f = logical_name) (sc_staged sc) of
       Some previous \<Rightarrow> tx_fail (DuplicateLogicalName logical_name (sf_stored_name previous))
     | None \<Rightarrow>
         let stored = stored_name api logical_name data in
         tx_bind (tx_map_err (DataFile stored) (write_once (sc_dir sc) stored data)) (\<lambda>newly_written.
           tx_return (sc\<lparr>sc_staged := sc_staged sc @
             [\<lparr>sf_logical_name = logical_name, sf_stored_name = stored, sf_digest = digest_hex api data,
               sf_size_bytes = of_nat (length data), sf_newly_written = newly_written\<rparr>]\<rparr>)))"

definition hash_beneath :: "ckpt_api \<Rightarrow> path \<Rightarrow> str \<Rightarrow> str io" where
  "hash_beneath api root relative =
     tx_bind (read_beneath root relative) (\<lambda>data. tx_return (digest_hex api data))"

definition read_staged :: "ckpt_api \<Rightarrow> path \<Rightarrow> staged_file \<Rightarrow> bytes cm" where
  "read_staged api dir file s =
     (case read_beneath_capped dir (sf_stored_name file) (sf_size_bytes file) s of
        (Inr data, s') \<Rightarrow> (Ok data, s')
      | (Inl e, s') \<Rightarrow>
          if e = FileTooLarge then
            tx_bind (tx_map_err (StagedFileUnreadable (sf_stored_name file)) (hash_beneath api dir (sf_stored_name file)))
              (\<lambda>actual. tx_fail (StagedFileChanged (sf_stored_name file) (sf_digest file) actual)) s'
          else (Err (StagedFileUnreadable (sf_stored_name file) e), s'))"

fun verify_staged_files :: "ckpt_api \<Rightarrow> path \<Rightarrow> staged_file list \<Rightarrow> bytes list cm" where
  "verify_staged_files api dir [] = tx_return []"
| "verify_staged_files api dir (file # files) =
     tx_bind (read_staged api dir file) (\<lambda>data.
     if digest_hex api data \<noteq> sf_digest file
     then tx_fail (StagedFileChanged (sf_stored_name file) (sf_digest file) (digest_hex api data))
     else tx_bind (verify_staged_files api dir files) (\<lambda>contents. tx_return (data # contents)))"

definition root_digest_of :: "ckpt_api \<Rightarrow> bytes list \<Rightarrow> str" where
  "root_digest_of api contents =
     (case merkle_root (api_hash api) contents of Some root \<Rightarrow> hex_encode root | None \<Rightarrow> [])"

definition staged_entry :: "staged_file \<Rightarrow> ckpt_file" where
  "staged_entry file = \<lparr>cf_path = sf_stored_name file, cf_digest = sf_digest file, cf_size_bytes = sf_size_bytes file\<rparr>"

definition build_manifest :: "ckpt_api \<Rightarrow> staged_checkpoint \<Rightarrow> manifest_meta \<Rightarrow> bytes list \<Rightarrow> ckpt_manifest" where
  "build_manifest api sc meta contents =
     \<lparr>lm_schema_version = 1, lm_checkpoint_id = sc_checkpoint_id sc, lm_job_id = mm_job_id meta,
      lm_attempt_id = mm_attempt_id meta, lm_step = mm_step meta, lm_files = map staged_entry (sc_staged sc),
      lm_root_digest = root_digest_of api contents, lm_total_bytes = sum_list (map sf_size_bytes (sc_staged sc)),
      lm_created_at_unix_ms = mm_created_at_unix_ms meta, lm_producer_node_id = mm_producer_node_id meta,
      lm_fence_epoch = mm_fence_epoch meta\<rparr>"

definition commit_manifest :: "ckpt_api \<Rightarrow> manifest_meta \<Rightarrow> staged_checkpoint \<Rightarrow> bytes list \<Rightarrow> committed_checkpoint cm" where
  "commit_manifest api meta sc contents =
     (let manifest = build_manifest api sc meta contents in
      tx_bind (tx_map_err ManifestWrite (lift_result (to_json api manifest))) (\<lambda>json.
      tx_bind (tx_map_err ManifestWrite (write_once (sc_dir sc) MANIFEST_FILENAME json)) (\<lambda>newly.
      tx_bind (tx_map_err Marker (record_state_transition (sc_dir sc) DsLocalWritten DsHashVerified)) (\<lambda>_.
        tx_return \<lparr>cc_dir = sc_dir sc, cc_manifest = manifest, cc_manifest_newly_written = newly\<rparr>))))"

definition commit_staged :: "ckpt_api \<Rightarrow> manifest_meta \<Rightarrow> staged_checkpoint \<Rightarrow> committed_checkpoint cm" where
  "commit_staged api meta sc =
     (if sc_staged sc = [] then tx_fail (NothingStaged (sc_checkpoint_id sc))
      else
        tx_bind (tx_map_err Marker (record_state_transition (sc_dir sc) DsWriting DsLocalWritten)) (\<lambda>_.
        tx_bind (verify_staged_files api (sc_dir sc) (sc_staged sc)) (commit_manifest api meta sc)))"

text \<open>A whole session: begin, stage every file, commit.\<close>

fun stage_all :: "ckpt_api \<Rightarrow> (str \<times> bytes) list \<Rightarrow> staged_checkpoint \<Rightarrow> staged_checkpoint cm" where
  "stage_all api [] sc = tx_return sc"
| "stage_all api ((name, data) # files) sc = tx_bind (stage_file api name data sc) (stage_all api files)"

definition staged_session ::
    "ckpt_api \<Rightarrow> path \<Rightarrow> str \<Rightarrow> (str \<times> bytes) list \<Rightarrow> manifest_meta \<Rightarrow> committed_checkpoint cm" where
  "staged_session api root checkpoint_id files meta =
     tx_bind (begin_staged root checkpoint_id) (\<lambda>sc.
     tx_bind (stage_all api files sc) (commit_staged api meta))"

section \<open>Reading changes nothing\<close>

definition same_fs :: "fs \<Rightarrow> fs \<Rightarrow> bool" where
  "same_fs s s' \<longleftrightarrow> fs_file s' = fs_file s \<and> fs_dirs s' = fs_dirs s"

interpretation sf: tx_relation same_fs
  by unfold_locales (auto simp: same_fs_def)

lemma same_fs_read: "same_fs s (snd (fs_read p s))"
  unfolding fs_read_def by (rule sf.R_statement_result) (simp add: same_fs_def)

lemma same_fs_open_beneath: "same_fs s (snd (open_beneath root rel s))"
  unfolding open_beneath_def by (intro sf.R_bind sf.R_simple sf.R_statement_result) (simp_all add: sf.R_refl)

lemma same_fs_read_beneath:
  "same_fs s (snd (read_beneath root rel s))" "same_fs s (snd (read_beneath_capped root rel n s))"
  "same_fs s (snd (hash_beneath api root rel s))"
  unfolding hash_beneath_def read_beneath_def read_beneath_capped_def
  by (intro sf.R_bind sf.R_simple same_fs_read same_fs_open_beneath)+

lemma same_fs_marker_present: "same_fs s (snd (marker_present dir name expected s))"
  using same_fs_read_beneath(1) [of s dir name] by (auto simp: marker_present_def split: prod.splits sum.splits)

lemma same_fs_manifest_present: "same_fs s (snd (manifest_present dir s))"
  using same_fs_read_beneath(1) [of s dir MANIFEST_FILENAME] by (auto simp: manifest_present_def split: prod.splits sum.splits)

lemma same_fs_read_staged: "same_fs s (snd (read_staged api dir file s))"
proof (cases "read_beneath_capped dir (sf_stored_name file) (sf_size_bytes file) s")
  case (Pair r s1)
  have s1: "same_fs s s1" using same_fs_read_beneath(2) [of s dir "sf_stored_name file" "sf_size_bytes file"] Pair by simp
  have "same_fs s1 (snd (tx_bind (tx_map_err (StagedFileUnreadable (sf_stored_name file)) (hash_beneath api dir (sf_stored_name file)))
      (\<lambda>actual. tx_fail (StagedFileChanged (sf_stored_name file) (sf_digest file) actual)) s1))"
    by (intro sf.R_bind sf.R_map_err sf.R_simple same_fs_read_beneath)
  with s1 Pair show ?thesis by (auto simp: read_staged_def split: sum.splits dest: sf.R_trans)
qed

lemma same_fs_verify_staged: "same_fs s (snd (verify_staged_files api dir files s))"
proof (induction files arbitrary: s)
  case (Cons f files)
  then show ?case by (auto intro!: sf.R_bind sf.R_simple same_fs_read_staged)
qed (simp add: sf.R_simple)

section \<open>A file that has been read can be read again\<close>

definition readable :: "(path \<Rightarrow> bytes option) \<Rightarrow> path set \<Rightarrow> path \<Rightarrow> str \<Rightarrow> u64 \<Rightarrow> bytes \<Rightarrow> bool" where
  "readable F D dir rel cap data \<longleftrightarrow> validate_relative rel = Ok () \<and> 0 \<notin> set rel \<and> dir \<in> D \<and>
     (\<exists>c. F (join_path dir rel) = Some c \<and> read_capped c (of_nat (length c)) cap = Ok data)"

lemma read_beneath_capped_Ok:
  assumes "read_beneath_capped dir rel cap s = (Inr data, s')"
  shows "readable (fs_file s) (set (fs_dirs s)) dir rel cap data"
  using assms
  by (auto simp: read_beneath_capped_def open_beneath_def readable_def fs_read_Ok tx_ok result_ok split: if_splits)

lemma returns_open_beneath:
  assumes "validate_relative rel = Ok ()" "0 \<notin> set rel" "dir \<in> D" "F (join_path dir rel) \<noteq> None"
  shows "returns (open_beneath dir rel) F D (Ok ()) F D"
  using assms by (auto simp: returns_def open_beneath_def tx_bind_def lift_result_def statement_result_no_fault)

lemma returns_read_capped:
  assumes "readable F D dir rel cap data"
  shows "returns (read_beneath_capped dir rel cap) F D (Ok data) F D"
proof -
  from assms obtain c where c: "F (join_path dir rel) = Some c" "read_capped c (of_nat (length c)) cap = Ok data"
    by (auto simp: readable_def)
  have "returns (open_beneath dir rel) F D (Ok ()) F D" using assms by (intro returns_open_beneath) (auto simp: readable_def)
  moreover have "returns (fs_read (join_path dir rel)) F D (Ok c) F D" using c(1) by (rule returns_calls)
  moreover have "returns (lift_result (read_capped c (of_nat (length c)) cap)) F D (Ok data) F D"
    using returns_simple(3) [of "read_capped c (of_nat (length c)) cap" F D] c(2) by simp
  ultimately show ?thesis unfolding read_beneath_capped_def by (intro returns_bind)
qed

definition file_intact :: "ckpt_api \<Rightarrow> (path \<Rightarrow> bytes option) \<Rightarrow> path set \<Rightarrow> path \<Rightarrow> ckpt_file \<Rightarrow> bool" where
  "file_intact api F D dir f \<longleftrightarrow>
     (\<exists>data. readable F D dir (cf_path f) (cf_size_bytes f) data \<and> digest_hex api data = cf_digest f)"

lemma returns_verify_files:
  "list_all (file_intact api F D dir) files \<Longrightarrow> returns (verify_files api dir files) F D (Ok ()) F D"
proof (induction files)
  case (Cons f files)
  then obtain data where "readable F D dir (cf_path f) (cf_size_bytes f) data" "digest_hex api data = cf_digest f"
    by (auto simp: file_intact_def)
  with Cons show ?case by (auto intro!: returns_bind [OF returns_ck_io(1) [OF returns_read_capped]])
qed (simp add: returns_simple)

lemma read_staged_Ok:
  "read_staged api dir file s = (Inr data, s') \<Longrightarrow> read_beneath_capped dir (sf_stored_name file) (sf_size_bytes file) s = (Inr data, s')"
  by (auto simp: read_staged_def tx_ok split: prod.splits sum.splits if_splits)

lemma verify_staged_Ok:
  assumes "verify_staged_files api dir files s = (Inr contents, s')"
  shows "list_all (file_intact api (fs_file s) (set (fs_dirs s)) dir \<circ> staged_entry) files"
  using assms
proof (induction files arbitrary: s contents)
  case (Cons f files)
  from Cons.prems obtain data s1 rest where r: "read_staged api dir f s = (Inr data, s1)" "digest_hex api data = sf_digest f"
    "verify_staged_files api dir files s1 = (Inr rest, s')"
    by (auto simp: tx_ok split: if_splits)
  have "same_fs s s1" using same_fs_read_staged [of s api dir f] r(1) by simp
  with Cons.IH [OF r(3)] read_beneath_capped_Ok [OF read_staged_Ok [OF r(1)]] r(2) show ?case
    by (auto simp: same_fs_def file_intact_def staged_entry_def)
qed simp

section \<open>Names that do not meet\<close>

lemma hex_digit_lower: "n < 16 \<Longrightarrow> is_lower_hex (hex_digit n)"
  by (auto simp: hex_digit_def is_lower_hex_def)

lemma byte_div_16: "unat (b :: u8) div 16 < 16"
proof -
  have "unat b < 2 ^ LENGTH(8)" by (rule unsigned_less)
  then show ?thesis by (simp add: less_mult_imp_div_less)
qed

lemma hex_encode_lower: "list_all is_lower_hex (hex_encode bs)"
  by (induction bs) (simp_all add: hex_encode_def hex_byte_def hex_digit_lower byte_div_16)

lemma digest_hex_chars: "c \<in> set (digest_hex api data) \<Longrightarrow> 48 \<le> c \<and> c \<noteq> slash"
  using hex_encode_lower [of "api_hash api data"] by (auto simp: digest_hex_def list_all_iff is_lower_hex_def)

definition content_addressed :: "str \<Rightarrow> bool" where
  "content_addressed name \<longleftrightarrow> flat_name name \<and> sublist CONTENT_ADDRESS_MARKER name"

lemma validate_logical_name_Ok: "validate_logical_name name = Ok u \<Longrightarrow> name \<noteq> [] \<and> slash \<notin> set name \<and> 0 \<notin> set name"
  by (auto simp: validate_logical_name_def validate_component_def split: if_splits sum.splits)

lemma stored_name_content_addressed:
  assumes "validate_logical_name name = Ok u"
  shows "content_addressed (stored_name api name data)"
  using validate_logical_name_Ok [OF assms] digest_hex_chars [of _ api data]
  by (auto simp: content_addressed_def flat_name_def stored_name_def CONTENT_ADDRESS_MARKER_def sublist_def
      dest: arg_cong [where f = length] intro: exI [of _ name])

lemma content_addressed_differs:
  assumes "content_addressed name" and "\<not> sublist CONTENT_ADDRESS_MARKER other"
  shows "name \<noteq> other"
  using assms by (auto simp: content_addressed_def)

lemma content_addressed_append: "content_addressed name \<Longrightarrow> sublist CONTENT_ADDRESS_MARKER (name @ suf)"
  by (meson content_addressed_def sublist_append_rightI sublist_order.order_trans)

text \<open>The files of the protocol itself.\<close>

definition protocol_names :: "str list" where
  "protocol_names = concat (map (\<lambda>n. [n, n @ tmp_suffix, n @ lock_suffix])
     [MANIFEST_FILENAME, lit (state_marker_name DsWriting), lit (state_marker_name DsLocalWritten),
      lit (state_marker_name DsHashVerified)])"

lemma protocol_names_plain: "name \<in> set protocol_names \<Longrightarrow> \<not> sublist CONTENT_ADDRESS_MARKER name"
proof -
  have "list_all (\<lambda>name. \<not> sublist CONTENT_ADDRESS_MARKER name) protocol_names" by code_simp
  then show "name \<in> set protocol_names \<Longrightarrow> \<not> sublist CONTENT_ADDRESS_MARKER name" by (auto simp: list_all_iff)
qed

lemma protocol_names_distinct: "distinct protocol_names"
  by code_simp

lemma flat_MANIFEST_FILENAME: "flat_name MANIFEST_FILENAME"
  by code_simp

lemma flat_state_marker: "flat_name (lit (state_marker_name state))"
  by (cases state) (simp_all add: flat_name_def)

lemma flat_suffix: "flat_name name \<Longrightarrow> join_path dir (name @ tmp_suffix) = dir @ [name @ tmp_suffix]"
  "flat_name name \<Longrightarrow> join_path dir (name @ lock_suffix) = dir @ [name @ lock_suffix]"
  using join_path_flat [OF flat_name_suffix, of name] by (simp_all add: flat_name_def)

section \<open>Files that a step leaves alone\<close>

definition untouched :: "path set \<Rightarrow> fs \<Rightarrow> fs \<Rightarrow> bool" where
  "untouched P s s' \<longleftrightarrow> (\<forall>p \<in> P. fs_file s' p = fs_file s p) \<and> set (fs_dirs s) \<subseteq> set (fs_dirs s')"

interpretation ut: tx_relation "untouched P" for P
  by unfold_locales (auto simp: untouched_def)

lemma untouched_same_fs: "same_fs s s' \<Longrightarrow> untouched P s s'"
  by (simp add: untouched_def same_fs_def)

lemma untouched_write_once:
  assumes "flat_name name" and "\<And>n. dir @ [n] \<in> P \<Longrightarrow> n \<notin> {name, name @ tmp_suffix, name @ lock_suffix}"
  shows "untouched P s (snd (write_once dir name data s))"
proof -
  have "writes_only (dir @ [name]) data {dir @ [name @ tmp_suffix], dir @ [name @ lock_suffix]} s (snd (write_once dir name data s))"
    using write_once_writes [of dir name data s] assms(1) by (simp add: join_path_flat flat_suffix)
  moreover have "p \<notin> {dir @ [name], dir @ [name @ tmp_suffix], dir @ [name @ lock_suffix]}" if "p \<in> P" for p
    using that assms(2) [of name] assms(2) [of "name @ tmp_suffix"] assms(2) [of "name @ lock_suffix"] by auto
  ultimately show ?thesis by (auto simp: untouched_def writes_only_def)
qed

lemma untouched_transition:
  assumes "\<And>n. dir @ [n] \<in> P \<Longrightarrow> n \<notin> {name, name @ tmp_suffix, name @ lock_suffix}"
    and "name = lit (state_marker_name to)"
  shows "untouched P s (snd (record_state_transition dir from to s))"
  unfolding record_state_transition_def assms(2) [symmetric]
  by (intro ut.R_bind ut.R_map_err ut.R_simple untouched_write_once assms(1)) (simp_all add: assms(2) flat_state_marker)

text \<open>Every step of a session, seen from the manifest and from the data files.\<close>

abbreviation manifest_path :: "path \<Rightarrow> path" where
  "manifest_path dir \<equiv> dir @ [MANIFEST_FILENAME]"

lemma manifest_name_alone:
  "MANIFEST_FILENAME \<notin> {lit (state_marker_name st), lit (state_marker_name st) @ tmp_suffix, lit (state_marker_name st) @ lock_suffix}"
  by (cases st) (simp_all add: MANIFEST_FILENAME_def)

lemma manifest_untouched:
  "untouched {manifest_path dir} s (snd (record_state_transition dir from to s))"
  "untouched {manifest_path dir} s (snd (record_initial_state dir s))"
  "content_addressed name \<Longrightarrow> untouched {manifest_path dir} s (snd (write_once dir name data s))"
proof -
  show "untouched {manifest_path dir} s (snd (record_state_transition dir from to s))"
    by (rule untouched_transition [OF _ refl]) (use manifest_name_alone [of to] in auto)
  show "untouched {manifest_path dir} s (snd (record_initial_state dir s))"
    unfolding record_initial_state_def
    by (intro ut.R_bind ut.R_simple untouched_write_once flat_state_marker) (use manifest_name_alone [of DsWriting] in auto)
  assume ca: "content_addressed name"
  have plain: "\<not> sublist CONTENT_ADDRESS_MARKER MANIFEST_FILENAME"
    by (rule protocol_names_plain) (simp add: protocol_names_def)
  show "untouched {manifest_path dir} s (snd (write_once dir name data s))"
    by (rule untouched_write_once)
      (use ca plain content_addressed_append [OF ca, of tmp_suffix] content_addressed_append [OF ca, of lock_suffix] in
        \<open>auto simp: content_addressed_def\<close>)
qed

definition data_paths :: "path \<Rightarrow> staged_file list \<Rightarrow> path set" where
  "data_paths dir files = {dir @ [sf_stored_name f] |f. f \<in> set files}"

lemma data_untouched:
  assumes "list_all (content_addressed \<circ> sf_stored_name) files"
  shows "untouched (data_paths dir files) s (snd (write_once dir MANIFEST_FILENAME json s))"
    and "untouched (data_paths dir files) s (snd (record_state_transition dir DsLocalWritten DsHashVerified s))"
proof -
  have ne: "n \<notin> set protocol_names" if "dir @ [n] \<in> data_paths dir files" for n
    using that assms protocol_names_plain [of n] by (auto simp: data_paths_def list_all_iff content_addressed_def)
  show "untouched (data_paths dir files) s (snd (write_once dir MANIFEST_FILENAME json s))"
    by (rule untouched_write_once [OF flat_MANIFEST_FILENAME]) (drule ne, simp add: protocol_names_def)
  show "untouched (data_paths dir files) s (snd (record_state_transition dir DsLocalWritten DsHashVerified s))"
    by (rule untouched_transition [OF _ refl]) (drule ne, simp add: protocol_names_def)
qed

lemma file_intact_untouched:
  assumes "list_all (file_intact api (fs_file s) (set (fs_dirs s)) dir \<circ> staged_entry) files"
    and "list_all (content_addressed \<circ> sf_stored_name) files" and "untouched (data_paths dir files) s s'"
  shows "list_all (file_intact api (fs_file s') (set (fs_dirs s')) dir) (map staged_entry files)"
  using assms
  by (fastforce simp: list_all_iff file_intact_def readable_def staged_entry_def content_addressed_def join_path_flat
      untouched_def data_paths_def)

section \<open>The manifest comes last\<close>

text \<open>A manifest in a directory is one whose files are all there, with their sizes and digests.\<close>

definition complete :: "ckpt_api \<Rightarrow> path \<Rightarrow> fs \<Rightarrow> bool" where
  "complete api dir s \<longleftrightarrow> (\<forall>json. fs_file s (manifest_path dir) = Some json \<longrightarrow>
     (\<exists>m. api_to_json api m = Some json \<and> lm_files m \<noteq> [] \<and>
        list_all (file_intact api (fs_file s) (set (fs_dirs s)) dir) (lm_files m)))"

lemma complete_no_manifest: "fs_file s (manifest_path dir) = None \<Longrightarrow> untouched {manifest_path dir} s s' \<Longrightarrow> complete api dir s'"
  by (simp add: complete_def untouched_def)

lemma complete_after_write:
  assumes none: "fs_file s (manifest_path dir) = None"
    and intact: "list_all (file_intact api (fs_file s) (set (fs_dirs s)) dir \<circ> staged_entry) files" "files \<noteq> []"
    and ca: "list_all (content_addressed \<circ> sf_stored_name) files"
    and m: "lm_files m = map staged_entry files" "api_to_json api m = Some json"
    and run: "tx_bind (tx_map_err ManifestWrite (write_once dir MANIFEST_FILENAME json)) (\<lambda>newly.
       tx_bind (tx_map_err Marker (record_state_transition dir DsLocalWritten DsHashVerified)) (\<lambda>_.
         tx_return (f newly))) s = (res, s')"
  shows "complete api dir s'"
proof -
  obtain r1 s1 where w: "write_once dir MANIFEST_FILENAME json s = (r1, s1)" by fastforce
  have wo: "writes_only (manifest_path dir) json (scratch_paths dir MANIFEST_FILENAME) s s1"
    using write_once_writes [of dir MANIFEST_FILENAME json s] w by (simp add: join_path_flat flat_MANIFEST_FILENAME)
  then have m1: "fs_file s1 (manifest_path dir) \<in> {None, Some json}" using none by (simp add: writes_only_def)
  have u1: "untouched (data_paths dir files) s s1" using data_untouched(1) [OF ca, of dir s json] w by simp
  obtain r2 s2 where t: "record_state_transition dir DsLocalWritten DsHashVerified s1 = (r2, s2)" by fastforce
  have u2: "untouched {manifest_path dir} s1 s2" "untouched (data_paths dir files) s1 s2"
    using manifest_untouched(1) [of dir s1 DsLocalWritten DsHashVerified] data_untouched(2) [OF ca, of dir s1] t by simp_all
  have "s' = s1 \<or> s' = s2"
    using run w t by (cases r1; cases r2) (auto simp: tx_bind_def tx_map_err_def tx_return_def)
  then have "untouched (data_paths dir files) s s'" "fs_file s' (manifest_path dir) \<in> {None, Some json}"
    using u1 ut.R_trans [OF u1 u2(2)] u2(1) m1 by (auto simp: untouched_def)
  with file_intact_untouched [OF intact(1) ca] m intact(2) show ?thesis by (auto simp: complete_def)
qed

lemma bind_post:
  assumes "\<And>e s1. m s = (Inl e, s1) \<Longrightarrow> Q s1" and "\<And>x s1. m s = (Inr x, s1) \<Longrightarrow> Q (snd (f x s1))"
  shows "Q (snd (tx_bind m f s))"
  using assms by (auto simp: tx_bind_def split: prod.splits sum.splits)

lemma commit_manifest_complete:
  assumes "fs_file s (manifest_path (sc_dir sc)) = None" and "sc_staged sc \<noteq> []"
    and "list_all (file_intact api (fs_file s) (set (fs_dirs s)) (sc_dir sc) \<circ> staged_entry) (sc_staged sc)"
    and "list_all (content_addressed \<circ> sf_stored_name) (sc_staged sc)"
  shows "complete api (sc_dir sc) (snd (commit_manifest api meta sc contents s))"
proof (cases "api_to_json api (build_manifest api sc meta contents)")
  case None
  then show ?thesis using assms(1) by (simp add: commit_manifest_def tx_bind_def tx_map_err_def lift_result_def to_json_def complete_def)
next
  case (Some json)
  let ?tail = "tx_bind (tx_map_err ManifestWrite (write_once (sc_dir sc) MANIFEST_FILENAME json)) (\<lambda>newly.
     tx_bind (tx_map_err Marker (record_state_transition (sc_dir sc) DsLocalWritten DsHashVerified)) (\<lambda>_.
     tx_return \<lparr>cc_dir = sc_dir sc, cc_manifest = build_manifest api sc meta contents, cc_manifest_newly_written = newly\<rparr>))"
  have "commit_manifest api meta sc contents s = ?tail s"
    unfolding commit_manifest_def Let_def
    by (subst tx_bind_def) (simp add: tx_map_err_def lift_result_def to_json_def Some)
  with complete_after_write [OF assms(1,3,2,4) _ Some surjective_pairing [of "?tail s"]] show ?thesis by (simp add: build_manifest_def)
qed

lemma commit_staged_complete:
  assumes "fs_file s (manifest_path (sc_dir sc)) = None" and ca: "list_all (content_addressed \<circ> sf_stored_name) (sc_staged sc)"
  shows "complete api (sc_dir sc) (snd (commit_staged api meta sc s))"
proof (cases "sc_staged sc = []")
  case True
  then show ?thesis using assms(1) by (simp add: commit_staged_def tx_fail_def complete_def)
next
  case False
  let ?M = "manifest_path (sc_dir sc)"
  have n1: "fs_file s1 ?M = None" if "tx_map_err Marker (record_state_transition (sc_dir sc) DsWriting DsLocalWritten) s = (r, s1)" for r s1
    using manifest_untouched(1) [of "sc_dir sc" s DsWriting DsLocalWritten] that assms(1)
    by (auto simp: tx_map_err_def untouched_def split: prod.splits sum.splits)
  have f2: "same_fs s1 s2" if "verify_staged_files api (sc_dir sc) (sc_staged sc) s1 = (r, s2)" for r s1 s2
    using same_fs_verify_staged [of s1 api "sc_dir sc" "sc_staged sc"] that by simp
  have "complete api (sc_dir sc) (snd (tx_bind (tx_map_err Marker (record_state_transition (sc_dir sc) DsWriting DsLocalWritten)) (\<lambda>_.
      tx_bind (verify_staged_files api (sc_dir sc) (sc_staged sc)) (commit_manifest api meta sc)) s))"
  proof (rule bind_post, goal_cases)
    case (1 e s1)
    then show ?case using n1 by (simp add: complete_def)
  next
    case (2 u s1)
    show ?case
    proof (rule bind_post, goal_cases)
      case (1 e s2)
      then show ?case using n1 [OF 2] f2 [of s1] by (simp add: complete_def same_fs_def)
    next
      case (2 contents s2)
      from verify_staged_Ok [OF 2] f2 [OF 2] n1 [OF \<open>tx_map_err _ _ s = (Inr u, s1)\<close>] show ?case
        by (intro commit_manifest_complete False ca) (simp_all add: same_fs_def)
    qed
  qed
  then show ?thesis using False by (simp add: commit_staged_def)
qed

lemma io_fault_not_gone: "io_fault e \<noteq> NotFound"
  by (simp add: io_fault_def split: sql_error.splits)

text \<open>When a call can answer \<open>NotFound\<close>.\<close>

definition not_gone :: "'a io \<Rightarrow> fs \<Rightarrow> bool" where
  "not_gone m s \<longleftrightarrow> fst (m s) \<noteq> Err NotFound"

lemma not_gone_bind:
  "not_gone m s \<Longrightarrow> (\<And>x s1. m s = (Inr x, s1) \<Longrightarrow> not_gone (f x) s1) \<Longrightarrow> not_gone (tx_bind m f) s"
  by (auto simp: not_gone_def tx_bind_def split: prod.splits sum.splits)

lemma not_gone_statement_result:
  assumes "\<And>t. fst (act (s\<lparr>db_tape := t\<rparr>)) \<noteq> Err NotFound"
  shows "not_gone (statement_result io_fault act) s"
  using assms assms [of "[]"] io_fault_not_gone
  by (cases "db_tape s") (auto simp: not_gone_def statement_result_def keep_tape split: option.splits)

lemma not_gone_lift: "r \<noteq> Err NotFound \<Longrightarrow> not_gone (lift_result r) s"
  by (simp add: not_gone_def lift_result_def)

lemma validate_relative_not_gone: "validate_relative rel \<noteq> Err NotFound"
proof -
  have "for_each check_relative_component cs b \<noteq> Err NotFound" for cs b
    by (induction cs arbitrary: b) (auto simp: check_relative_component_def and_then_Err split: component.splits)
  then show ?thesis by (auto simp: validate_relative_def and_then_Err reject_if_def)
qed

lemma read_beneath_gone:
  assumes "read_beneath dir rel s = (Inl NotFound, s')" and "dir \<in> set (fs_dirs s)"
  shows "fs_file s (join_path dir rel) = None"
proof (rule ccontr)
  assume present: "fs_file s (join_path dir rel) \<noteq> None"
  have open_file: "not_gone (open_beneath dir rel) s"
    unfolding open_beneath_def
    by (intro not_gone_bind not_gone_lift not_gone_statement_result)
      (use present assms(2) validate_relative_not_gone in \<open>auto simp: reject_if_def lift_result_Ok statement_result_Ok\<close>)
  have "not_gone (read_beneath dir rel) s"
    unfolding read_beneath_def fs_read_def
    by (intro not_gone_bind open_file not_gone_statement_result)
      (use same_fs_open_beneath [of s dir rel] present in \<open>auto simp: same_fs_def\<close>)
  with assms(1) show False by (simp add: not_gone_def)
qed

lemma manifest_present_False:
  assumes "manifest_present dir s = (Inr False, s')" "dir \<in> set (fs_dirs s)"
  shows "fs_file s (manifest_path dir) = None"
  using assms read_beneath_gone [of dir MANIFEST_FILENAME s s']
  by (auto simp: manifest_present_def join_path_flat flat_MANIFEST_FILENAME split: prod.splits sum.splits if_splits)

lemma validate_checkpoint_id_flat: "validate_checkpoint_id i = Ok u \<Longrightarrow> flat_name i"
  by (auto simp: validate_checkpoint_id_def validate_component_def flat_name_def split: sum.splits if_splits)

lemma create_dir_Ok: "fs_create_dir_all p s = (Inr u, s') \<Longrightarrow> p \<in> set (fs_dirs s') \<and> fs_file s' = fs_file s"
  by (auto simp: fs_create_dir_all_def tx_ok split: if_splits)

lemma create_dir_untouched: "untouched P s (snd (fs_create_dir_all p s))" "fs_file (snd (fs_create_dir_all p s)) = fs_file s"
proof -
  have "untouched UNIV s (snd (fs_create_dir_all p s))"
    unfolding fs_create_dir_all_def by (rule ut.R_statement_result) (auto simp: untouched_def)
  then show "untouched P s (snd (fs_create_dir_all p s))" "fs_file (snd (fs_create_dir_all p s)) = fs_file s"
    by (auto simp: untouched_def)
qed

lemma begin_staged_Ok:
  assumes "begin_staged root i s = (Inr sc, s')"
  shows "sc_dir sc = root @ [i] \<and> sc_staged sc = [] \<and> sc_checkpoint_id sc = i \<and>
    fs_file s (manifest_path (root @ [i])) = None \<and> untouched {manifest_path (root @ [i])} s s'"
proof -
  let ?d = "root @ [i]"
  from assms have i: "validate_checkpoint_id i = Ok ()" by (auto simp: begin_staged_def tx_ok)
  then have d: "join_path root i = ?d" by (simp add: join_path_flat validate_checkpoint_id_flat)
  from assms obtain s1 s2 where s: "fs_create_dir_all ?d s = (Inr (), s1)" "manifest_present ?d s1 = (Inr False, s2)"
    "record_initial_state ?d s2 = (Inr (), s')" "sc = \<lparr>sc_dir = ?d, sc_checkpoint_id = i, sc_staged = []\<rparr>"
    by (auto simp: begin_staged_def d Let_def tx_ok split: if_splits)
  have "untouched {manifest_path ?d} s s1" using create_dir_untouched(1) [of "{manifest_path ?d}" s ?d] s(1) by simp
  moreover have "untouched {manifest_path ?d} s1 s2"
    using untouched_same_fs [OF same_fs_manifest_present [of s1 ?d]] s(2) by simp
  moreover have "untouched {manifest_path ?d} s2 s'" using manifest_untouched(2) [of ?d s2] s(3) by simp
  ultimately have "untouched {manifest_path ?d} s s'" by (meson ut.R_trans)
  with s manifest_present_False [OF s(2)] create_dir_Ok [OF s(1)] show ?thesis by simp
qed

lemma begin_staged_committed:
  assumes "fs_file s (manifest_path (root @ [i])) \<noteq> None" "begin_staged root i s = (res, s')"
  shows "isl res \<and> fs_file s' = fs_file s"
proof -
  have nope: "res \<noteq> Ok sc" for sc using assms begin_staged_Ok [of root i s] by auto
  have "fs_file (snd (begin_staged root i s)) = fs_file s"
  proof (cases "validate_checkpoint_id i")
    case (Inl e)
    then show ?thesis by (simp add: begin_staged_def tx_bind_def lift_result_def)
  next
    case (Inr u)
    then have d: "join_path root i = root @ [i]" by (simp add: join_path_flat validate_checkpoint_id_flat)
    obtain r1 s1 where s1: "fs_create_dir_all (root @ [i]) s = (r1, s1)" by fastforce
    obtain r2 s2 where s2: "manifest_present (root @ [i]) s1 = (r2, s2)" by fastforce
    have f: "fs_file s1 = fs_file s" "fs_file s2 = fs_file s"
      using create_dir_untouched(2) [of "root @ [i]" s] same_fs_manifest_present [of s1 "root @ [i]"] s1 s2 by (simp_all add: same_fs_def)
    have "r2 \<noteq> Ok False" if "r1 = Ok ()"
      using that manifest_present_False [of "root @ [i]" s1 s2] s1 s2 f assms(1) create_dir_Ok [of "root @ [i]" s] by auto
    then show ?thesis using Inr d s1 s2 f
      by (cases r1; cases r2) (auto simp: begin_staged_def tx_bind_def lift_result_def tx_map_err_def tx_fail_def Let_def)
  qed
  with assms(2) nope show ?thesis by (cases res) auto
qed

lemma begin_staged_untouched: "untouched {manifest_path (root @ [i])} s (snd (begin_staged root i s))"
proof (cases "validate_checkpoint_id i")
  case (Inl e)
  then show ?thesis by (simp add: begin_staged_def tx_bind_def lift_result_def ut.R_refl)
next
  case (Inr u)
  then have d: "join_path root i = root @ [i]" by (simp add: join_path_flat validate_checkpoint_id_flat)
  show ?thesis
    unfolding begin_staged_def Let_def d
    by (intro ut.R_bind ut.R_simple ut.R_map_err create_dir_untouched manifest_untouched untouched_same_fs [OF same_fs_manifest_present])
      (auto intro!: ut.R_bind ut.R_simple ut.R_map_err simp: manifest_untouched(2) [of "root @ [i]", simplified])
qed

lemma stage_file_untouched:
  "untouched {manifest_path (sc_dir sc)} s (snd (stage_file api name data sc s))"
proof (cases "validate_logical_name name")
  case (Inl e)
  then show ?thesis by (simp add: stage_file_def tx_bind_def lift_result_def ut.R_refl)
next
  case (Inr u)
  then show ?thesis
    unfolding stage_file_def Let_def
    by (auto intro!: ut.R_bind ut.R_simple ut.R_map_err manifest_untouched(3) stored_name_content_addressed split: option.splits)
qed

lemma stage_file_Ok:
  assumes "stage_file api name data sc s = (Inr sc', s')" "list_all (content_addressed \<circ> sf_stored_name) (sc_staged sc)"
  shows "sc_dir sc' = sc_dir sc \<and> list_all (content_addressed \<circ> sf_stored_name) (sc_staged sc')"
  using assms
  by (auto simp: stage_file_def Let_def tx_ok stored_name_content_addressed split: option.splits)

lemma staging_complete:
  assumes "fs_file s (manifest_path (sc_dir sc)) = None" "list_all (content_addressed \<circ> sf_stored_name) (sc_staged sc)"
  shows "complete api (sc_dir sc) (snd (tx_bind (stage_all api files sc) (commit_staged api meta) s))"
  using assms
proof (induction files arbitrary: s sc)
  case Nil
  from commit_staged_complete [OF this] show ?case by (simp add: tx_bind_def tx_return_def)
next
  case (Cons nd files)
  obtain name data where nd: "nd = (name, data)" by fastforce
  obtain r s1 where run: "stage_file api name data sc s = (r, s1)" by fastforce
  have n1: "fs_file s1 (manifest_path (sc_dir sc)) = None"
    using stage_file_untouched [of sc s api name data] run Cons.prems(1) by (simp add: untouched_def)
  show ?case
  proof (cases r)
    case (Inl e)
    with run n1 nd show ?thesis by (simp add: tx_bind_def complete_def)
  next
    case (Inr sc')
    from stage_file_Ok [OF run [unfolded Inr] Cons.prems(2)] n1
    have "complete api (sc_dir sc) (snd (tx_bind (stage_all api files sc') (commit_staged api meta) s1))"
      using Cons.IH [of s1 sc'] by (simp only:)
    with run Inr nd show ?thesis by (simp add: tx_bind_def)
  qed
qed

section \<open>A session on a healthy system\<close>

lemma fresh_write_once:
  assumes "validate_relative_name name = Ok ()" "flat_name name" "dir \<in> D" "dir @ [name] \<notin> D" "F (dir @ [name]) = None"
  obtains F' where "returns (write_once dir name data) F D (Ok True) F' D" "F' (dir @ [name]) = Some data"
    "\<And>n. n \<notin> {name, name @ tmp_suffix, name @ lock_suffix} \<Longrightarrow> F' (dir @ [n]) = F (dir @ [n])"
  using returns_write_once [OF assms(1-4), of data F] assms(5) that by fastforce

text \<open>The names the protocol writes never clash.\<close>

definition ends_in_hex :: "str \<Rightarrow> bool" where
  "ends_in_hex name \<longleftrightarrow> name \<noteq> [] \<and> is_lower_hex (last name)"

lemma ends_in_hex_suffix: "ends_in_hex name \<Longrightarrow> name \<noteq> n @ tmp_suffix \<and> name \<noteq> n @ lock_suffix"
  by (auto simp: ends_in_hex_def tmp_suffix_def lock_suffix_def is_lower_hex_def)

lemma flat_components: "flat_name name \<Longrightarrow> path_components name = [Normal name]"
  by (cases name) (simp_all add: path_components_def path_part_def flat_name_def split_char_free)

lemma ends_in_hex_valid:
  assumes "ends_in_hex name" "flat_name name"
  shows "validate_relative_name name = Ok ()"
proof -
  from assms(1) obtain p c where name: "name = p @ [c]" "is_lower_hex c" by (cases name rule: rev_cases) (auto simp: ends_in_hex_def)
  have trim: "trim_dots_and_spaces name = name" using name by (auto simp: trim_dots_and_spaces_def is_lower_hex_def)
  have "to_ascii_lowercase c \<noteq> 107" using name(2) by (auto simp: to_ascii_lowercase_def is_lower_hex_def)
  then have "\<not> ends_with (map to_ascii_lowercase name) lock_suffix"
    by (auto simp: name(1) ends_with_def lock_suffix_def suffix_def)
  then show ?thesis using assms(2) flat_components [OF assms(2)]
    by (simp add: validate_relative_name_def trim Let_def flat_name_def check_name_component_def)
qed

lemma marker_valid: "validate_relative_name (lit (state_marker_name st)) = Ok ()"
  by (induct st) code_simp+

lemma manifest_valid: "validate_relative_name MANIFEST_FILENAME = Ok ()"
  by code_simp

definition sound_hash :: "ckpt_api \<Rightarrow> bool" where
  "sound_hash api \<longleftrightarrow> (\<forall>data. length (api_hash api data) = 32)"

lemma length_digest_hex: "sound_hash api \<Longrightarrow> length (digest_hex api data) = 64"
proof -
  have "length (hex_encode bs) = 2 * length bs" for bs by (induction bs) (simp_all add: hex_encode_def hex_byte_def)
  then show "sound_hash api \<Longrightarrow> length (digest_hex api data) = 64" by (simp add: sound_hash_def digest_hex_def)
qed

lemma stored_name_ends_in_hex:
  assumes "sound_hash api"
  shows "ends_in_hex (stored_name api name data)"
proof -
  have ne: "digest_hex api data \<noteq> []" using length_digest_hex [OF assms, of data] by auto
  with hex_encode_lower [of "api_hash api data"] have "is_lower_hex (last (digest_hex api data))"
    by (auto simp: digest_hex_def list_all_iff)
  with ne show ?thesis by (simp add: ends_in_hex_def stored_name_def)
qed

lemma stored_name_inject: "sound_hash api \<Longrightarrow> stored_name api n d = stored_name api n' d' \<Longrightarrow> n = n'"
  using length_digest_hex [of api d] length_digest_hex [of api d'] by (simp add: stored_name_def)

lemma stored_name_relative:
  assumes "validate_logical_name name = Ok u"
  shows "validate_relative (stored_name api name data) = Ok () \<and> 0 \<notin> set (stored_name api name data)"
proof -
  let ?n = "stored_name api name data"
  have flat: "flat_name ?n" using stored_name_content_addressed [OF assms] by (simp add: content_addressed_def)
  then have "path_components ?n = [Normal ?n]" by (rule flat_components)
  moreover have "0 \<notin> set ?n"
    using validate_logical_name_Ok [OF assms] digest_hex_chars [of 0 api data] by (auto simp: stored_name_def CONTENT_ADDRESS_MARKER_def)
  ultimately show ?thesis by (simp add: validate_relative_def check_relative_component_def)
qed

definition staged_of :: "ckpt_api \<Rightarrow> str \<times> bytes \<Rightarrow> staged_file" where
  "staged_of api nd = \<lparr>sf_logical_name = fst nd, sf_stored_name = stored_name api (fst nd) (snd nd),
     sf_digest = digest_hex api (snd nd), sf_size_bytes = of_nat (length (snd nd)), sf_newly_written = True\<rparr>"

lemma staged_of_fields [simp]:
  "sf_logical_name (staged_of api nd) = fst nd" "sf_stored_name (staged_of api nd) = stored_name api (fst nd) (snd nd)"
  "sf_digest (staged_of api nd) = digest_hex api (snd nd)" "sf_size_bytes (staged_of api nd) = of_nat (length (snd nd))"
  by (simp_all add: staged_of_def)

abbreviation stored_of :: "ckpt_api \<Rightarrow> str \<times> bytes \<Rightarrow> str" where
  "stored_of api nd \<equiv> stored_name api (fst nd) (snd nd)"

lemma returns_stage_file:
  assumes hash: "sound_hash api" and name: "validate_logical_name (fst nd) = Ok ()" and fresh: "fst nd \<notin> sf_logical_name ` set (sc_staged sc)"
    and dir: "sc_dir sc \<in> D" "\<And>n. sc_dir sc @ [n] \<notin> D" and none: "F (sc_dir sc @ [stored_of api nd]) = None"
  obtains F' where "returns (stage_file api (fst nd) (snd nd) sc) F D (Ok (sc\<lparr>sc_staged := sc_staged sc @ [staged_of api nd]\<rparr>)) F' D"
    "F' (sc_dir sc @ [stored_of api nd]) = Some (snd nd)"
    "\<And>n. n \<noteq> stored_of api nd \<Longrightarrow> ends_in_hex n \<or> \<not> sublist CONTENT_ADDRESS_MARKER n \<Longrightarrow> F' (sc_dir sc @ [n]) = F (sc_dir sc @ [n])"
proof -
  let ?n = "stored_of api nd"
  have ca: "content_addressed ?n" and hex: "ends_in_hex ?n"
    using stored_name_content_addressed [OF name] stored_name_ends_in_hex [OF hash] by auto
  have valid: "validate_relative_name ?n = Ok ()" using ends_in_hex_valid [OF hex] ca by (simp add: content_addressed_def)
  obtain F' where F': "returns (write_once (sc_dir sc) ?n (snd nd)) F D (Ok True) F' D" "F' (sc_dir sc @ [?n]) = Some (snd nd)"
      "\<And>n. n \<notin> {?n, ?n @ tmp_suffix, ?n @ lock_suffix} \<Longrightarrow> F' (sc_dir sc @ [n]) = F (sc_dir sc @ [n])"
    by (rule fresh_write_once [where name = ?n and dir = "sc_dir sc" and D = D and F = F and data = "snd nd"])
      (use valid ca dir none in \<open>auto simp: content_addressed_def\<close>)
  have w: "returns (tx_map_err (DataFile ?n) (write_once (sc_dir sc) ?n (snd nd))) F D (Ok True) F' D"
    using F'(1) by (fastforce simp: returns_def tx_map_err_def)
  have "find (\<lambda>f. sf_logical_name f = fst nd) (sc_staged sc) = None" using fresh unfolding find_None_iff by force
  then have "returns (stage_file api (fst nd) (snd nd) sc) F D (Ok (sc\<lparr>sc_staged := sc_staged sc @ [staged_of api nd]\<rparr>)) F' D"
    unfolding stage_file_def name by (auto intro!: returns_bind [OF returns_simple(3)] returns_bind [OF w] healthy simp: Let_def staged_of_def)
  moreover have "n \<notin> {?n, ?n @ tmp_suffix, ?n @ lock_suffix}" if "n \<noteq> ?n" "ends_in_hex n \<or> \<not> sublist CONTENT_ADDRESS_MARKER n" for n
    using that ends_in_hex_suffix [of n ?n] content_addressed_append [OF ca] by auto
  ultimately show ?thesis using that F' by blast
qed

lemma returns_stage_all:
  assumes hash: "sound_hash api" and dir: "sc_dir sc \<in> D" "\<And>n. sc_dir sc @ [n] \<notin> D"
    and names: "\<forall>nd \<in> set files. validate_logical_name (fst nd) = Ok ()" "distinct (map fst files)"
      "set (map fst files) \<inter> sf_logical_name ` set (sc_staged sc) = {}"
    and none: "\<forall>nd \<in> set files. F (sc_dir sc @ [stored_of api nd]) = None"
  shows "\<exists>F'. returns (stage_all api files sc) F D (Ok (sc\<lparr>sc_staged := sc_staged sc @ map (staged_of api) files\<rparr>)) F' D \<and>
    (\<forall>nd \<in> set files. F' (sc_dir sc @ [stored_of api nd]) = Some (snd nd)) \<and>
    (\<forall>n. n \<notin> stored_of api ` set files \<longrightarrow> ends_in_hex n \<or> \<not> sublist CONTENT_ADDRESS_MARKER n \<longrightarrow> F' (sc_dir sc @ [n]) = F (sc_dir sc @ [n]))"
  using dir names none
proof (induction files arbitrary: sc F)
  case Nil
  then show ?case by (auto intro: returns_simple)
next
  case (Cons nd files)
  let ?sc = "sc\<lparr>sc_staged := sc_staged sc @ [staged_of api nd]\<rparr>" and ?n = "stored_of api nd"
  obtain F1 where F1: "returns (stage_file api (fst nd) (snd nd) sc) F D (Ok ?sc) F1 D" "F1 (sc_dir sc @ [?n]) = Some (snd nd)"
    "\<And>n. n \<noteq> ?n \<Longrightarrow> ends_in_hex n \<or> \<not> sublist CONTENT_ADDRESS_MARKER n \<Longrightarrow> F1 (sc_dir sc @ [n]) = F (sc_dir sc @ [n])"
    by (rule returns_stage_file [where nd = nd and sc = sc and D = D and F = F and api = api]) (use hash Cons.prems in auto)
  have other: "stored_of api nd' \<noteq> ?n" "ends_in_hex (stored_of api nd')" if "nd' \<in> set files" for nd'
    using that Cons.prems(4) stored_name_inject [OF hash, of "fst nd'" "snd nd'" "fst nd" "snd nd"] stored_name_ends_in_hex [OF hash]
    by (auto simp: image_iff)
  have "\<exists>F'. returns (stage_all api files ?sc) F1 D (Ok (?sc\<lparr>sc_staged := sc_staged ?sc @ map (staged_of api) files\<rparr>)) F' D \<and>
    (\<forall>nd \<in> set files. F' (sc_dir ?sc @ [stored_of api nd]) = Some (snd nd)) \<and>
    (\<forall>n. n \<notin> stored_of api ` set files \<longrightarrow> ends_in_hex n \<or> \<not> sublist CONTENT_ADDRESS_MARKER n \<longrightarrow> F' (sc_dir ?sc @ [n]) = F1 (sc_dir ?sc @ [n]))"
    by (rule Cons.IH) (use Cons.prems F1(3) other in \<open>auto simp: staged_of_def\<close>)
  then obtain F' where F': "returns (stage_all api files ?sc) F1 D (Ok (sc\<lparr>sc_staged := sc_staged sc @ map (staged_of api) (nd # files)\<rparr>)) F' D"
    "\<forall>nd \<in> set files. F' (sc_dir sc @ [stored_of api nd]) = Some (snd nd)"
    "\<And>n. n \<notin> stored_of api ` set files \<Longrightarrow> ends_in_hex n \<or> \<not> sublist CONTENT_ADDRESS_MARKER n \<Longrightarrow> F' (sc_dir sc @ [n]) = F1 (sc_dir sc @ [n])"
    by auto
  have "returns (stage_all api (nd # files) sc) F D (Ok (sc\<lparr>sc_staged := sc_staged sc @ map (staged_of api) (nd # files)\<rparr>)) F' D"
    using returns_bind [where f = "stage_all api files", OF F1(1) F'(1)] by (cases nd) simp
  moreover have "F' (sc_dir sc @ [?n]) = Some (snd nd)"
    using F'(3) [of ?n] F1(2) other(1) stored_name_ends_in_hex [OF hash] by force
  ultimately show ?case using F' F1(3) by (intro exI [of _ F']) auto
qed

lemma returns_map_err: "returns m F D (Ok x) F' D' \<Longrightarrow> returns (tx_map_err f m) F D (Ok x) F' D'"
  by (fastforce simp: returns_def tx_map_err_def)

text \<open>A marker that is not there yet; names outside the protocol keep their files.\<close>

lemma returns_transition:
  assumes "can_transition_to from to" "dir \<in> D" "\<And>n. dir @ [n] \<notin> D" "F (dir @ [lit (state_marker_name to)]) = None"
  obtains F' where "returns (record_state_transition dir from to) F D (Ok ()) F' D"
    "\<And>n. n \<notin> {lit (state_marker_name to), lit (state_marker_name to) @ tmp_suffix, lit (state_marker_name to) @ lock_suffix} \<Longrightarrow>
       F' (dir @ [n]) = F (dir @ [n])"
proof -
  let ?n = "lit (state_marker_name to)"
  obtain F' where F': "returns (write_once dir ?n (marker_text to)) F D (Ok True) F' D"
      "\<And>n. n \<notin> {?n, ?n @ tmp_suffix, ?n @ lock_suffix} \<Longrightarrow> F' (dir @ [n]) = F (dir @ [n])"
    by (rule fresh_write_once [where name = ?n and dir = dir and D = D and F = F and data = "marker_text to"])
      (use marker_valid flat_state_marker assms in auto)
  have ok: "returns (tx_map_err CkInvalidTransition (lift_result (durability_transition from to))) F D (Ok to) F D"
    using assms(1) returns_simple(3) [of "durability_transition from to" F D] by (intro returns_map_err) (simp add: durability_transition_def)
  have "returns (record_state_transition dir from to) F D (Ok ()) F' D"
    unfolding record_state_transition_def by (rule returns_bind [OF ok], rule returns_bind [OF F'(1)], rule returns_simple)
  with F' that show ?thesis by blast
qed

lemma read_capped_exact:
  assumes "length data < 2 ^ 64"
  shows "read_capped data (of_nat (length data)) (of_nat (length data)) = Ok data"
proof -
  have len: "unat (of_nat (length data) :: u64) = length data" using assms by (simp add: unsigned_of_nat take_bit_nat_eq_self)
  have "length data \<le> unat (saturating_add (of_nat (length data) :: u64) 1)"
    using saturating_add_ge [of "of_nat (length data) :: u64" 1] len by (simp add: word_le_nat_alt)
  with len show ?thesis by (simp add: read_capped_def Let_def)
qed

lemma staged_intact:
  assumes "validate_logical_name (fst nd) = Ok ()" "length (snd nd) < 2 ^ 64" "dir \<in> D" "F (dir @ [stored_of api nd]) = Some (snd nd)"
  shows "readable F D dir (stored_of api nd) (of_nat (length (snd nd))) (snd nd)"
proof -
  have "join_path dir (stored_of api nd) = dir @ [stored_of api nd]"
    using stored_name_content_addressed [OF assms(1)] by (simp add: join_path_flat content_addressed_def)
  then show ?thesis
    using stored_name_relative [OF assms(1), of api "snd nd"] assms(3,4) read_capped_exact [OF assms(2)] by (simp add: readable_def)
qed

lemma returns_verify_staged:
  assumes "\<forall>nd \<in> set files. validate_logical_name (fst nd) = Ok () \<and> length (snd nd) < 2 ^ 64 \<and> F (dir @ [stored_of api nd]) = Some (snd nd)"
    and "dir \<in> D"
  shows "returns (verify_staged_files api dir (map (staged_of api) files)) F D (Ok (map snd files)) F D"
  using assms
proof (induction files)
  case Nil
  then show ?case by (simp add: returns_simple)
next
  case (Cons nd files)
  have "returns (read_beneath_capped dir (stored_of api nd) (of_nat (length (snd nd)))) F D (Ok (snd nd)) F D"
    using Cons.prems by (intro returns_read_capped staged_intact) auto
  then have r: "returns (read_staged api dir (staged_of api nd)) F D (Ok (snd nd)) F D"
    by (fastforce simp: returns_def read_staged_def staged_of_def)
  have "returns (verify_staged_files api dir (map (staged_of api) files)) F D (Ok (map snd files)) F D" using Cons by simp
  then show ?case
    unfolding list.map verify_staged_files.simps
    by - (rule returns_bind [OF r], auto intro: returns_bind returns_simple)
qed

lemma marker_names_differ:
  "lit (state_marker_name DsLocalWritten) \<notin> (\<Union>n \<in> {lit (state_marker_name DsWriting)}. {n, n @ tmp_suffix, n @ lock_suffix})"
  "lit (state_marker_name DsHashVerified) \<notin> (\<Union>n \<in> {lit (state_marker_name DsWriting), lit (state_marker_name DsLocalWritten), MANIFEST_FILENAME}.
     {n, n @ tmp_suffix, n @ lock_suffix})"
  by (simp_all add: MANIFEST_FILENAME_def tmp_suffix_def lock_suffix_def)

text \<open>The arguments with which a session succeeds.\<close>

definition ready :: "ckpt_api \<Rightarrow> (str \<times> bytes) list \<Rightarrow> bool" where
  "ready api files \<longleftrightarrow> sound_hash api \<and> (\<forall>m. api_to_json api m \<noteq> None) \<and> files \<noteq> [] \<and> distinct (map fst files) \<and>
     (\<forall>nd \<in> set files. validate_logical_name (fst nd) = Ok () \<and> length (snd nd) < 2 ^ 64)"

lemma returns_commit_manifest:
  assumes json: "api_to_json api (build_manifest api sc meta contents) = Some json" and dir: "sc_dir sc \<in> D" "\<And>n. sc_dir sc @ [n] \<notin> D"
    and none: "F (manifest_path (sc_dir sc)) = None" "F (sc_dir sc @ [lit (state_marker_name DsHashVerified)]) = None"
  shows "\<exists>F'. returns (commit_manifest api meta sc contents) F D
      (Ok \<lparr>cc_dir = sc_dir sc, cc_manifest = build_manifest api sc meta contents, cc_manifest_newly_written = True\<rparr>) F' D \<and>
    F' (manifest_path (sc_dir sc)) = Some json \<and> (\<forall>n. sublist CONTENT_ADDRESS_MARKER n \<longrightarrow> F' (sc_dir sc @ [n]) = F (sc_dir sc @ [n]))"
proof -
  let ?d = "sc_dir sc" and ?hv = "lit (state_marker_name DsHashVerified)" and ?M = MANIFEST_FILENAME
  obtain F1 where F1: "returns (write_once ?d ?M json) F D (Ok True) F1 D" "F1 (manifest_path ?d) = Some json"
      "\<And>n. n \<notin> {?M, ?M @ tmp_suffix, ?M @ lock_suffix} \<Longrightarrow> F1 (?d @ [n]) = F (?d @ [n])"
    by (rule fresh_write_once [where name = ?M and dir = ?d and D = D and F = F and data = json])
      (use manifest_valid flat_MANIFEST_FILENAME dir none in auto)
  have "F1 (?d @ [?hv]) = None" using F1(3) [of ?hv] marker_names_differ(2) none(2) by simp
  then obtain F2 where F2: "returns (record_state_transition ?d DsLocalWritten DsHashVerified) F1 D (Ok ()) F2 D"
    "\<And>n. n \<notin> {?hv, ?hv @ tmp_suffix, ?hv @ lock_suffix} \<Longrightarrow> F2 (?d @ [n]) = F1 (?d @ [n])"
    by (rule returns_transition [where dir = ?d and D = D and F = F1, rotated 3]) (use dir in \<open>auto simp: can_transition_to_def\<close>)
  have j: "returns (tx_map_err ManifestWrite (lift_result (to_json api (build_manifest api sc meta contents)))) F D (Ok json) F D"
    using returns_map_err [OF returns_simple(3) [of "Ok json"]] json by (simp add: to_json_def)
  have run: "returns (commit_manifest api meta sc contents) F D
      (Ok \<lparr>cc_dir = ?d, cc_manifest = build_manifest api sc meta contents, cc_manifest_newly_written = True\<rparr>) F2 D"
    unfolding commit_manifest_def Let_def
    by (rule returns_bind [OF j], rule returns_bind [OF returns_map_err [OF F1(1)]], rule returns_bind [OF returns_map_err [OF F2(1)]], rule returns_simple)
  have "F2 (?d @ [n]) = F (?d @ [n])" if "sublist CONTENT_ADDRESS_MARKER n" for n
  proof -
    have "n \<notin> set protocol_names" using that protocol_names_plain by blast
    with F1(3) [of n] F2(2) [of n] show ?thesis by (simp add: protocol_names_def)
  qed
  moreover have "F2 (manifest_path ?d) = Some json" using F2(2) [of ?M] F1(2) manifest_name_alone [of DsHashVerified] by simp
  ultimately show ?thesis using run by blast
qed

lemma returns_begin_staged:
  assumes "validate_checkpoint_id i = Ok ()" and "\<And>n. F (root @ [i, n]) = None" "F (root @ [i]) = None" "\<And>n. root @ [i, n] \<notin> D"
  obtains F' where "returns (begin_staged root i) F D (Ok \<lparr>sc_dir = root @ [i], sc_checkpoint_id = i, sc_staged = []\<rparr>) F' (set (prefixes (root @ [i])) \<union> D)"
    "\<And>n. n \<notin> {lit (state_marker_name DsWriting), lit (state_marker_name DsWriting) @ tmp_suffix, lit (state_marker_name DsWriting) @ lock_suffix} \<Longrightarrow>
       F' (root @ [i, n]) = None"
proof -
  let ?d = "root @ [i]" and ?w = "lit (state_marker_name DsWriting)"
  let ?D = "set (prefixes ?d) \<union> D"
  have d: "join_path root i = ?d" using assms(1) by (simp add: join_path_flat validate_checkpoint_id_flat)
  have dir: "?d \<in> ?D" and free: "?d @ [n] \<notin> ?D" for n using assms(4) [of n] by (auto simp: prefix_def)
  have rel: "validate_relative MANIFEST_FILENAME = Ok ()" "0 \<notin> set MANIFEST_FILENAME" by code_simp+
  have "F (join_path ?d MANIFEST_FILENAME) = None" "join_path ?d MANIFEST_FILENAME \<notin> ?D"
    using assms(2) free [of MANIFEST_FILENAME] by (simp_all add: join_path_flat flat_MANIFEST_FILENAME)
  then have "returns (read_beneath ?d MANIFEST_FILENAME) F ?D (Err NotFound) F ?D"
    using rel dir by (auto simp: returns_def read_beneath_def open_beneath_def tx_bind_def lift_result_def statement_result_no_fault)
  then have m: "returns (manifest_present ?d) F ?D (Ok False) F ?D" by (fastforce simp: returns_def manifest_present_def)
  obtain F' where F': "returns (write_once ?d ?w (marker_text DsWriting)) F ?D (Ok True) F' ?D"
      "\<And>n. n \<notin> {?w, ?w @ tmp_suffix, ?w @ lock_suffix} \<Longrightarrow> F' (?d @ [n]) = F (?d @ [n])"
    by (rule fresh_write_once [where name = ?w and dir = ?d and D = ?D and F = F and data = "marker_text DsWriting"])
      (use marker_valid [of DsWriting] flat_state_marker [of DsWriting] dir free assms(2) [of ?w] in \<open>auto simp del: set_prefixes_eq\<close>)
  have init: "returns (record_initial_state ?d) F ?D (Ok ()) F' ?D"
    unfolding record_initial_state_def by (rule returns_bind [OF F'(1)], rule returns_simple)
  have "returns (begin_staged root i) F D (Ok \<lparr>sc_dir = ?d, sc_checkpoint_id = i, sc_staged = []\<rparr>) F' ?D"
    unfolding begin_staged_def Let_def d assms(1)
    by (rule returns_bind [OF returns_simple(3)], rule returns_bind [OF returns_map_err [OF returns_calls(9)]], rule assms(3),
      rule returns_bind [OF m], simp only: if_False, rule returns_bind [OF returns_map_err [OF init]], rule returns_simple)
  with that F'(2) assms(2) show ?thesis by simp
qed

lemma stored_not_protocol:
  "validate_logical_name (fst nd) = Ok () \<Longrightarrow> stored_of api nd \<notin> set protocol_names"
  using stored_name_content_addressed [of "fst nd" "()" api "snd nd"] protocol_names_plain by (auto simp: content_addressed_def)

lemma returns_commit_staged:
  fixes i :: str
  assumes rdy: "ready api files" and dir: "d \<in> D" "\<And>n. d @ [n] \<notin> D"
    and data: "\<forall>nd \<in> set files. F (d @ [stored_of api nd]) = Some (snd nd)"
    and none: "F (manifest_path d) = None" "F (d @ [lit (state_marker_name DsLocalWritten)]) = None"
      "F (d @ [lit (state_marker_name DsHashVerified)]) = None"
  defines "sc \<equiv> \<lparr>sc_dir = d, sc_checkpoint_id = i, sc_staged = map (staged_of api) files\<rparr>"
  shows "\<exists>cc F'. returns (commit_staged api meta sc) F D (Ok cc) F' D \<and>
    lm_files (cc_manifest cc) = map (staged_entry \<circ> staged_of api) files \<and>
    F' (manifest_path d) = api_to_json api (cc_manifest cc) \<and> (\<forall>nd \<in> set files. F' (d @ [stored_of api nd]) = Some (snd nd))"
proof -
  let ?lw = "lit (state_marker_name DsLocalWritten)" and ?hv = "lit (state_marker_name DsHashVerified)"
  obtain F1 where F1: "returns (record_state_transition d DsWriting DsLocalWritten) F D (Ok ()) F1 D"
    "\<And>n. n \<notin> {?lw, ?lw @ tmp_suffix, ?lw @ lock_suffix} \<Longrightarrow> F1 (d @ [n]) = F (d @ [n])"
    by (rule returns_transition [of DsWriting DsLocalWritten d D F])
      (use dir none(2) in \<open>auto simp: can_transition_to_def\<close>)
  have data1: "\<forall>nd \<in> set files. F1 (d @ [stored_of api nd]) = Some (snd nd)"
    using data F1(2) stored_not_protocol rdy by (auto simp: ready_def protocol_names_def)
  have none1: "F1 (manifest_path d) = None" "F1 (d @ [?hv]) = None"
    using F1(2) [of MANIFEST_FILENAME] F1(2) [of ?hv] none manifest_name_alone [of DsLocalWritten] marker_names_differ(2) by simp_all
  have v: "returns (verify_staged_files api d (map (staged_of api) files)) F1 D (Ok (map snd files)) F1 D"
    using data1 rdy dir(1) by (intro returns_verify_staged) (auto simp: ready_def)
  from rdy obtain json where json: "api_to_json api (build_manifest api sc meta (map snd files)) = Some json" by (auto simp: ready_def)
  have fields: "sc_dir sc = d" "sc_staged sc = map (staged_of api) files" by (simp_all add: sc_def)
  from returns_commit_manifest [OF json, of D F1] dir none1 obtain F2 where
    F2: "returns (commit_manifest api meta sc (map snd files)) F1 D
      (Ok \<lparr>cc_dir = d, cc_manifest = build_manifest api sc meta (map snd files), cc_manifest_newly_written = True\<rparr>) F2 D"
    "F2 (manifest_path d) = Some json" "\<forall>n. sublist CONTENT_ADDRESS_MARKER n \<longrightarrow> F2 (d @ [n]) = F1 (d @ [n])"
    unfolding fields by blast
  have "returns (commit_staged api meta sc) F D
      (Ok \<lparr>cc_dir = d, cc_manifest = build_manifest api sc meta (map snd files), cc_manifest_newly_written = True\<rparr>) F2 D"
    using rdy unfolding commit_staged_def fields
    by - (simp add: ready_def, rule returns_bind [OF returns_map_err [OF F1(1)]], rule returns_bind [OF v], rule F2(1))
  moreover have "F2 (d @ [stored_of api nd]) = Some (snd nd)" if "nd \<in> set files" for nd
  proof -
    have "sublist CONTENT_ADDRESS_MARKER (stored_of api nd)"
      using that rdy stored_name_content_addressed [of "fst nd" "()" api "snd nd"] by (auto simp: ready_def content_addressed_def)
    with F2(3) data1 that show ?thesis by auto
  qed
  ultimately show ?thesis using F2(2) json by (fastforce simp: build_manifest_def fields)
qed

lemma session_runs:
  assumes i: "validate_checkpoint_id i = Ok ()" and rdy: "ready api files"
    and empty: "\<And>n. F (root @ [i, n]) = None" "F (root @ [i]) = None" "\<And>n. root @ [i, n] \<notin> D"
  shows "\<exists>cc F' D'. returns (staged_session api root i files meta) F D (Ok cc) F' D' \<and>
    lm_files (cc_manifest cc) = map (staged_entry \<circ> staged_of api) files \<and>
    F' (manifest_path (root @ [i])) = api_to_json api (cc_manifest cc) \<and>
    (\<forall>nd \<in> set files. F' (root @ [i, stored_of api nd]) = Some (snd nd))"
proof -
  let ?d = "root @ [i]" and ?D = "set (prefixes (root @ [i])) \<union> D" and ?w = "lit (state_marker_name DsWriting)"
  let ?sc0 = "\<lparr>sc_dir = ?d, sc_checkpoint_id = i, sc_staged = []\<rparr>"
  have hash: "sound_hash api" and names: "\<forall>nd \<in> set files. validate_logical_name (fst nd) = Ok ()" using rdy by (auto simp: ready_def)
  have dir: "?d \<in> ?D" and free: "?d @ [n] \<notin> ?D" for n using empty(3) [of n] by (auto simp: prefix_def)
  obtain F0 where F0: "returns (begin_staged root i) F D (Ok ?sc0) F0 ?D"
    "\<And>n. n \<notin> {?w, ?w @ tmp_suffix, ?w @ lock_suffix} \<Longrightarrow> F0 (?d @ [n]) = None"
    using returns_begin_staged [OF i empty] by (metis append_Cons append_Nil append_assoc)
  have fresh: "F0 (?d @ [stored_of api nd]) = None" if "nd \<in> set files" for nd
    using that names stored_not_protocol [of nd api] F0(2) [of "stored_of api nd"] by (auto simp: protocol_names_def)
  have "\<exists>F'. returns (stage_all api files ?sc0) F0 ?D (Ok (?sc0\<lparr>sc_staged := sc_staged ?sc0 @ map (staged_of api) files\<rparr>)) F' ?D \<and>
    (\<forall>nd \<in> set files. F' (sc_dir ?sc0 @ [stored_of api nd]) = Some (snd nd)) \<and>
    (\<forall>n. n \<notin> stored_of api ` set files \<longrightarrow> ends_in_hex n \<or> \<not> sublist CONTENT_ADDRESS_MARKER n \<longrightarrow> F' (sc_dir ?sc0 @ [n]) = F0 (sc_dir ?sc0 @ [n]))"
    by (rule returns_stage_all [OF hash]) (use dir free names rdy fresh in \<open>auto simp: ready_def simp del: set_prefixes_eq\<close>)
  then obtain F1 where F1: "returns (stage_all api files ?sc0) F0 ?D (Ok (?sc0\<lparr>sc_staged := map (staged_of api) files\<rparr>)) F1 ?D"
    "\<forall>nd \<in> set files. F1 (?d @ [stored_of api nd]) = Some (snd nd)"
    "\<And>n. n \<notin> stored_of api ` set files \<Longrightarrow> \<not> sublist CONTENT_ADDRESS_MARKER n \<Longrightarrow> F1 (?d @ [n]) = F0 (?d @ [n])"
    by auto
  have none: "F1 (?d @ [n]) = None" if "n \<in> set protocol_names" "n \<notin> {?w, ?w @ tmp_suffix, ?w @ lock_suffix}" for n
    using F1(3) [of n] F0(2) [OF that(2)] protocol_names_plain [OF that(1)] stored_not_protocol names that(1) by fastforce
  have "F1 (manifest_path ?d) = None" "F1 (?d @ [lit (state_marker_name DsLocalWritten)]) = None" "F1 (?d @ [lit (state_marker_name DsHashVerified)]) = None"
    using manifest_name_alone [of DsWriting] marker_names_differ by (intro none; simp add: protocol_names_def)+
  from returns_commit_staged [OF rdy dir free F1(2) this, where i = i and meta = meta] obtain cc F' where
    c: "returns (commit_staged api meta (?sc0\<lparr>sc_staged := map (staged_of api) files\<rparr>)) F1 ?D (Ok cc) F' ?D"
    "lm_files (cc_manifest cc) = map (staged_entry \<circ> staged_of api) files" "F' (manifest_path ?d) = api_to_json api (cc_manifest cc)"
    "\<forall>nd \<in> set files. F' (?d @ [stored_of api nd]) = Some (snd nd)" by auto
  have "returns (staged_session api root i files meta) F D (Ok cc) F' ?D"
    unfolding staged_session_def by (rule returns_bind [OF F0(1)], rule returns_bind [OF F1(1)], rule c(1))
  with c show ?thesis by (intro exI [of _ cc] exI [of _ F'] exI [of _ ?D]) simp
qed

section \<open>Properties\<close>

text \<open>
  C15: the manifest comes last. A session begins a checkpoint, stages its files and commits. Whatever
  calls fail and wherever the process dies: if the directory of the checkpoint has a manifest
  afterwards and had none before, the manifest was written by this session, lists at least one file
  and passes the check of its files, so a reader never finds a manifest over missing or torn
  data. A session on a directory that already has a manifest is refused and changes no file.
\<close>
theorem manifest_comes_last:
  assumes "staged_session api root checkpoint_id files meta s = (res, s')"
  shows "(fs_file s (manifest_path (root @ [checkpoint_id])) = None \<longrightarrow>
      (\<forall>json. fs_file s' (manifest_path (root @ [checkpoint_id])) = Some json \<longrightarrow>
         (\<exists>m. to_json api m = Ok json \<and> lm_files m \<noteq> [] \<and>
            fst (verify_files api (root @ [checkpoint_id]) (lm_files m) (s'\<lparr>db_tape := []\<rparr>)) = Ok ()))) \<and>
    (fs_file s (manifest_path (root @ [checkpoint_id])) \<noteq> None \<longrightarrow> isl res \<and> fs_file s' = fs_file s)"
proof (intro conjI impI)
  let ?d = "root @ [checkpoint_id]"
  obtain r0 s0 where b: "begin_staged root checkpoint_id s = (r0, s0)" by fastforce
  show "isl res" "fs_file s' = fs_file s" if "fs_file s (manifest_path ?d) \<noteq> None"
    using begin_staged_committed [OF that b] assms b by (auto simp: staged_session_def tx_bind_def split: sum.splits)
  assume none: "fs_file s (manifest_path ?d) = None"
  have "complete api ?d s'"
  proof (cases r0)
    case (Inl e)
    show ?thesis using assms b Inl none begin_staged_untouched [of root checkpoint_id s] by (auto simp: staged_session_def tx_bind_def complete_def untouched_def)
  next
    case (Inr sc)
    from begin_staged_Ok [OF b [unfolded Inr]] none staging_complete [of s0 sc api files meta] assms b Inr show ?thesis
      by (auto simp: staged_session_def tx_bind_def untouched_def)
  qed
  moreover have "fst (verify_files api ?d fl (s'\<lparr>db_tape := []\<rparr>)) = Ok ()"
    if "list_all (file_intact api (fs_file s') (set (fs_dirs s')) ?d) fl" for fl
    using returns_verify_files [OF that] unfolding returns_def by (auto dest: spec [of _ "s'\<lparr>db_tape := []\<rparr>"])
  ultimately show "\<forall>json. fs_file s' (manifest_path ?d) = Some json \<longrightarrow>
      (\<exists>m. to_json api m = Ok json \<and> lm_files m \<noteq> [] \<and> fst (verify_files api ?d (lm_files m) (s'\<lparr>db_tape := []\<rparr>)) = Ok ())"
    unfolding complete_def to_json_def by (metis ok_or_simps(2))
qed

definition example_json :: ckpt_api where
  "example_json = \<lparr>api_hash = \<lambda>bs. replicate 32 (of_nat (length bs)), api_to_json = \<lambda>m. Some (as_bytes (lm_job_id m)),
     api_from_json = \<lambda>bs. if bs = as_bytes (lit ''job'') then
       Some \<lparr>lm_schema_version = 1, lm_checkpoint_id = lit ''c'', lm_job_id = lit ''job'', lm_attempt_id = lit ''a'', lm_step = 1,
         lm_files = [], lm_root_digest = [], lm_total_bytes = 0, lm_created_at_unix_ms = 0, lm_producer_node_id = lit ''n'',
         lm_fence_epoch = 1\<rparr> else None\<rparr>"

definition example_meta :: manifest_meta where
  "example_meta = \<lparr>mm_job_id = lit ''job'', mm_attempt_id = lit ''a'', mm_step = 1, mm_fence_epoch = 1, mm_producer_node_id = lit ''n'',
     mm_created_at_unix_ms = 0\<rparr>"

lemma example_arguments:
  "validate_checkpoint_id (lit ''c'') = Ok ()" "validate_logical_name (lit ''w'') = Ok ()"
  by code_simp+

lemma example_ready: "ready example_json [(lit ''w'', [7])]"
  using example_arguments by (simp add: ready_def sound_hash_def example_json_def)

lemma example_empty:
  "fs_file example_fs [lit ''c'', n] = None" "fs_file example_fs [lit ''c''] = None" "[lit ''c'', n] \<notin> set (fs_dirs example_fs)"
  by (simp_all add: example_fs_def fs_file_def hm_get_def)

theorem manifest_comes_last_witness:
  "\<exists>res s' json m. staged_session example_json [] (lit ''c'') [(lit ''w'', [7])] example_meta example_fs = (res, s') \<and>
     fs_file s' [lit ''c'', MANIFEST_FILENAME] = Some json \<and> to_json example_json m = Ok json \<and>
     fst (verify_files example_json [lit ''c''] (lm_files m) (s'\<lparr>db_tape := []\<rparr>)) = Ok ()"
proof -
  obtain res s' where run: "staged_session example_json [] (lit ''c'') [(lit ''w'', [7])] example_meta example_fs = (res, s')" by fastforce
  have tape: "db_tape example_fs = []" by (simp add: example_fs_def)
  have none: "fs_file example_fs (manifest_path ([] @ [lit ''c''])) = None" using example_empty(1) by simp
  from session_runs [OF example_arguments(1) example_ready, of "fs_file example_fs" "[]" "set (fs_dirs example_fs)" example_meta]
  obtain cc F' D' where r: "returns (staged_session example_json [] (lit ''c'') [(lit ''w'', [7])] example_meta) (fs_file example_fs) (set (fs_dirs example_fs)) (Ok cc) F' D'"
    "F' [lit ''c'', MANIFEST_FILENAME] = api_to_json example_json (cc_manifest cc)"
    using example_empty by auto
  then have "fs_file s' [lit ''c'', MANIFEST_FILENAME] = Some (as_bytes (lm_job_id (cc_manifest cc)))"
    using run tape unfolding returns_def by (auto simp: example_json_def)
  with manifest_comes_last [OF run] none run show ?thesis by auto
qed

text \<open>
  C17: a session gets through. When no call fails, every session with a valid checkpoint id and with
  files of valid, distinct names on a directory that holds nothing yet returns a committed checkpoint:
  its manifest is written and lists exactly these files, and every file holds its data.
\<close>
theorem staged_session_succeeds:
  assumes "validate_checkpoint_id i = Ok ()" and "ready api files" and "db_tape s = []"
    and "\<And>n. fs_file s (root @ [i, n]) = None \<and> root @ [i, n] \<notin> set (fs_dirs s)" and "fs_file s (root @ [i]) = None"
  shows "\<exists>cc s'. staged_session api root i files meta s = (Ok cc, s') \<and>
    map cf_path (lm_files (cc_manifest cc)) = map (\<lambda>(n, d). stored_name api n d) files \<and>
    fs_file s' (manifest_path (root @ [i])) = api_to_json api (cc_manifest cc) \<and>
    (\<forall>(n, d) \<in> set files. fs_file s' (root @ [i, stored_name api n d]) = Some d)"
proof -
  from session_runs [OF assms(1,2), of "fs_file s" root "set (fs_dirs s)" meta] assms(4,5) obtain cc F' D' where
    r: "returns (staged_session api root i files meta) (fs_file s) (set (fs_dirs s)) (Ok cc) F' D'"
    "lm_files (cc_manifest cc) = map (staged_entry \<circ> staged_of api) files" "F' (manifest_path (root @ [i])) = api_to_json api (cc_manifest cc)"
    "\<forall>nd \<in> set files. F' (root @ [i, stored_of api nd]) = Some (snd nd)" by blast
  then obtain s' where "staged_session api root i files meta s = (Ok cc, s')" "fs_file s' = F'"
    using assms(3) by (auto simp: returns_def)
  with r(2-4) show ?thesis by (auto simp: staged_entry_def comp_def case_prod_unfold)
qed

theorem staged_session_succeeds_witness:
  "\<exists>cc s'. staged_session example_json [] (lit ''c'') [(lit ''w'', [7])] example_meta example_fs = (Ok cc, s') \<and>
     fs_file s' [lit ''c'', stored_name example_json (lit ''w'') [7]] = Some [7]"
  using staged_session_succeeds [of "lit ''c''" example_json "[(lit ''w'', [7])]" example_fs "[]" example_meta]
    example_arguments example_ready example_empty
  by (auto simp: example_fs_def [THEN arg_cong [where f = db_tape]])

text \<open>
  A stored name gives the logical name back, and nothing else does: the last marker is the one that
  the procedure has put there.
\<close>

lemma rsplit_once_last:
  assumes "pat \<noteq> []" "hd pat \<notin> set (tl pat)" "hd pat \<notin> set b"
  shows "rsplit_once pat (a @ pat @ b) = Some (a, b)"
proof -
  let ?s = "a @ pat @ b" and ?P = "\<lambda>i. prefix pat (drop i (a @ pat @ b))"
  have later: "\<not> ?P i" if gt: "i > length a" and "i \<le> length ?s" for i
  proof
    assume p: "?P i"
    with assms(1) have "hd pat \<in> set (drop i ?s)" by (metis hd_in_set prefix_def set_append Un_iff)
    moreover obtain k where "i = length a + Suc k" using gt by (auto simp: less_iff_Suc_add)
    then have "drop i ?s = drop k (tl pat @ b)" using assms(1) by (cases pat) simp_all
    then have "set (drop i ?s) \<subseteq> set (tl pat @ b)" by (metis set_drop_subset)
    ultimately show False using assms by auto
  qed
  have "[0..<Suc (length ?s)] = [0..<length a] @ length a # [Suc (length a)..<Suc (length ?s)]"
    by (metis le_add1 length_append le_imp_less_Suc upt_add_eq_append upt_conv_Cons zero_le le_Suc_eq add_0 le_add_diff_inverse)
  then have split: "rev [0..<Suc (length ?s)] = rev [Suc (length a)..<Suc (length ?s)] @ length a # rev [0..<length a]" by simp
  have "filter ?P (rev [Suc (length a)..<Suc (length ?s)]) = []" using later assms(1) by (auto simp: filter_empty_conv simp del: length_append)
  then have "filter ?P (rev [0..<Suc (length ?s)]) = length a # filter ?P (rev [0..<length a])"
    unfolding split filter_append by simp
  then show ?thesis by (simp add: rsplit_once_def)
qed

lemma logical_name_round_trip:
  assumes "sound_hash api" and "stored_name_for api name data = Ok stored"
  shows "logical_name_of stored = Some name"
proof -
  have name: "validate_logical_name name = Ok ()" and stored: "stored = name @ CONTENT_ADDRESS_MARKER @ digest_hex api data"
    using assms(2) by (auto simp: stored_name_for_def stored_name_def result_ok)
  have "rsplit_once CONTENT_ADDRESS_MARKER stored = Some (name, digest_hex api data)"
    unfolding stored using digest_hex_chars [of 46 api data] by (intro rsplit_once_last) (auto simp: CONTENT_ADDRESS_MARKER_def)
  moreover have "list_all is_lower_hex (digest_hex api data)" "length (as_bytes (digest_hex api data)) = 64"
    using hex_encode_lower assms(1) by (auto simp: digest_hex_def sound_hash_def)
  ultimately show ?thesis using validate_logical_name_Ok [OF name] by (simp add: logical_name_of_def)
qed

end
