(* ===== verification/Ckpt_Writer.thy ===== *)
theory Ckpt_Writer
  imports Ckpt_Commit
begin

text \<open>
  Writing a checkpoint in one call, finding the one to resume from and collecting what a crash has
  left: \<open>src/crates/checkpoint/src/writer.rs\<close> and \<open>gc_partial\<close> of
  \<open>src/crates/checkpoint/src/atomic.rs\<close>. A directory is listed in one call: errors between two
  entries of a listing are not modelled.
\<close>

section \<open>Writing\<close>

definition POINTER_FILENAME :: str where "POINTER_FILENAME = lit ''LATEST''"

datatype write_phase = StoreAndVerify | PublishPhase

definition fail_after_materialization :: "path \<Rightarrow> checkpoint_error \<Rightarrow> 'a ck" where
  "fail_after_materialization dir original s = (case record_publication_failure dir s of
     (Inr _, s') \<Rightarrow> (Err original, s')
   | (Inl marker_error, s') \<Rightarrow> (Err (PublicationUnmarked original marker_error), s'))"

definition or_mark_failed :: "path \<Rightarrow> 'a ck \<Rightarrow> 'a ck" where
  "or_mark_failed dir m s = (case m s of
     (Inr x, s') \<Rightarrow> (Ok x, s')
   | (Inl e, s') \<Rightarrow> fail_after_materialization dir e s')"

fun write_data_files :: "path \<Rightarrow> u64 \<Rightarrow> (str \<times> bytes) list \<Rightarrow> unit ck" where
  "write_data_files dir slow_ms [] = tx_return ()"
| "write_data_files dir slow_ms ((name, data) # files) =
     tx_bind (write_once dir name data) (\<lambda>_ s.
       write_data_files dir slow_ms files (if slow_ms > 0 then sleep (unat slow_ms * 10 ^ 6) s else s))"

definition store_and_verify :: "ckpt_api \<Rightarrow> path \<Rightarrow> ckpt_manifest \<Rightarrow> (str \<times> bytes) list \<Rightarrow> u64 \<Rightarrow> path ck" where
  "store_and_verify api root manifest files slow_ms =
     (case validate_component (lm_checkpoint_id manifest) MAX_LOGICAL_NAME_LEN of
        Inl reason \<Rightarrow> tx_fail (UnsafePath (lm_checkpoint_id manifest) reason)
      | Inr _ \<Rightarrow>
          let dir = join_path root (lm_checkpoint_id manifest) in
          tx_bind (ck_io (fs_create_dir_all dir)) (\<lambda>_.
          tx_bind (record_initial_state dir) (\<lambda>_.
          tx_bind (write_data_files dir slow_ms files) (\<lambda>_.
          tx_bind (record_state_transition dir DsWriting DsLocalWritten) (\<lambda>_.
          tx_bind (lift_result (to_json api manifest)) (\<lambda>json.
          tx_bind (write_once dir MANIFEST_FILENAME json) (\<lambda>_.
          tx_bind (or_mark_failed dir (verify_files api dir (lm_files manifest))) (\<lambda>_.
            tx_return dir))))))))"

definition publish_checkpoint :: "path \<Rightarrow> path \<Rightarrow> str \<Rightarrow> path ck" where
  "publish_checkpoint root dir checkpoint_id =
     tx_bind (or_mark_failed dir (record_state_transition dir DsLocalWritten DsHashVerified)) (\<lambda>_.
     tx_bind (or_mark_failed dir (replace_with_retry root POINTER_FILENAME (as_bytes checkpoint_id) default_retry_policy)) (\<lambda>_.
     tx_bind (or_mark_failed dir (record_state_transition dir DsHashVerified DsCommitted)) (\<lambda>_.
       tx_return dir)))"

text \<open>The phase of a failure: everything up to the verification of the files, and what follows.\<close>

definition write_checkpoint_phased ::
    "ckpt_api \<Rightarrow> path \<Rightarrow> ckpt_manifest \<Rightarrow> (str \<times> bytes) list \<Rightarrow> u64 \<Rightarrow>
     fs \<Rightarrow> ((write_phase \<times> checkpoint_error) + path) \<times> fs" where
  "write_checkpoint_phased api root manifest files slow_ms =
     tx_bind (tx_map_err (Pair StoreAndVerify) (store_and_verify api root manifest files slow_ms)) (\<lambda>dir.
       tx_map_err (Pair PublishPhase) (publish_checkpoint root dir (lm_checkpoint_id manifest)))"

definition write_checkpoint :: "ckpt_api \<Rightarrow> path \<Rightarrow> ckpt_manifest \<Rightarrow> (str \<times> bytes) list \<Rightarrow> u64 \<Rightarrow> path ck" where
  "write_checkpoint api root manifest files slow_ms = tx_map_err snd (write_checkpoint_phased api root manifest files slow_ms)"

section \<open>Finding a resume point\<close>

definition read_pointer :: "path \<Rightarrow> fs \<Rightarrow> str option \<times> fs" where
  "read_pointer root s = (case read_beneath root POINTER_FILENAME s of
     (Inl _, s') \<Rightarrow> (None, s')
   | (Inr bs, s') \<Rightarrow>
       (case from_utf8 bs of
          None \<Rightarrow> None
        | Some value \<Rightarrow> if trim value = [] then None else Some (trim value), s'))"

definition is_resume_candidate :: "path \<Rightarrow> bool ck" where
  "is_resume_candidate dir = tx_bind (publication_failed dir) (\<lambda>failed. tx_return (\<not> failed))"

definition load_valid_manifest :: "ckpt_api \<Rightarrow> path \<Rightarrow> ckpt_manifest option ck" where
  "load_valid_manifest api dir s = (case read_beneath dir MANIFEST_FILENAME s of
     (Inl _, s1) \<Rightarrow> (Ok None, s1)
   | (Inr data, s1) \<Rightarrow>
       (case from_json api data of
          Inl _ \<Rightarrow> (Ok None, s1)
        | Inr manifest \<Rightarrow>
            (case verify_files api dir (lm_files manifest) s1 of
               (Inl _, s2) \<Rightarrow> (Ok None, s2)
             | (Inr _, s2) \<Rightarrow> (Ok (Some manifest), s2))))"

definition resume_candidate :: "ckpt_api \<Rightarrow> (ckpt_manifest \<Rightarrow> bool) \<Rightarrow> path \<Rightarrow> str \<Rightarrow> ckpt_manifest option ck" where
  "resume_candidate api wanted root dir_name =
     (let dir = root @ [dir_name] in
      tx_bind (ck_io (fs_is_dir dir)) (\<lambda>is_dir.
      if \<not> is_dir then tx_return None
      else
        tx_bind (load_valid_manifest api dir) (\<lambda>loaded.
        case loaded of
          None \<Rightarrow> tx_return None
        | Some manifest \<Rightarrow>
            if \<not> wanted manifest \<or> lm_files manifest = [] \<or> lm_checkpoint_id manifest \<noteq> dir_name then tx_return None
            else tx_bind (is_resume_candidate dir) (\<lambda>ok. tx_return (if ok then Some manifest else None)))))"

fun collect_candidates :: "ckpt_api \<Rightarrow> (ckpt_manifest \<Rightarrow> bool) \<Rightarrow> path \<Rightarrow> str list \<Rightarrow> ckpt_manifest list ck" where
  "collect_candidates api wanted root [] = tx_return []"
| "collect_candidates api wanted root (name # names) =
     tx_bind (resume_candidate api wanted root name) (\<lambda>found.
     tx_bind (collect_candidates api wanted root names) (\<lambda>rest.
       tx_return (case found of Some m \<Rightarrow> m # rest | None \<Rightarrow> rest)))"

definition pop_newest :: "ckpt_manifest list \<Rightarrow> ckpt_manifest option" where
  "pop_newest candidates = (if candidates = [] then None else Some (last (sort_key lm_step candidates)))"

definition find_candidates :: "ckpt_api \<Rightarrow> (ckpt_manifest \<Rightarrow> bool) \<Rightarrow> path \<Rightarrow> ckpt_manifest option ck" where
  "find_candidates api wanted root s0 =
     (let s = snd (read_pointer root s0) in
      tx_bind (ck_io (fs_is_dir root)) (\<lambda>is_dir.
      if \<not> is_dir then tx_return None
      else (\<lambda>s. case fs_read_dir root s of
              (Inl e, s') \<Rightarrow> (if is_gone e then Ok None else Err (CkIo e), s')
            | (Inr names, s') \<Rightarrow>
                tx_bind (collect_candidates api wanted root names) (\<lambda>candidates. tx_return (pop_newest candidates)) s')) s)"

definition find_resume_point_for :: "ckpt_api \<Rightarrow> path \<Rightarrow> str \<Rightarrow> str \<Rightarrow> ckpt_manifest option ck" where
  "find_resume_point_for api root job_id attempt_id =
     find_candidates api (\<lambda>m. lm_job_id m = job_id \<and> lm_attempt_id m = attempt_id) root"

definition find_local_resume_point :: "ckpt_api \<Rightarrow> path \<Rightarrow> ckpt_manifest option ck" where
  "find_local_resume_point api root = find_candidates api (\<lambda>_. True) root"

section \<open>Collecting garbage\<close>

text \<open>\<open>symlink_metadata\<close>: whether the path is a directory.\<close>

definition fs_metadata :: "path \<Rightarrow> bool io" where
  "fs_metadata p = statement_result io_fault (\<lambda>s.
     (if p \<in> set (fs_dirs s) then Ok True else if fs_file s p \<noteq> None then Ok False else Err NotFound, s))"

definition fs_open_existing :: "path \<Rightarrow> unit io" where
  "fs_open_existing p = statement_result io_fault (\<lambda>s. (if fs_file s p \<noteq> None then Ok () else Err NotFound, s))"

definition fs_try_lock_is_ok :: "bool io" where
  "fs_try_lock_is_ok s = (case fs_nop s of (Inl _, s') \<Rightarrow> (Ok False, s') | (Inr _, s') \<Rightarrow> (Ok True, s'))"

definition fs_remove_dir :: "path \<Rightarrow> unit io" where
  "fs_remove_dir p = statement_result io_fault (\<lambda>s.
     if p \<notin> set (fs_dirs s) then (Err NotFound, s)
     else if fs_children s p \<noteq> [] then (Err OtherIo, s)
     else (Ok (), s\<lparr>fs_dirs := filter (\<lambda>q. q \<noteq> p) (fs_dirs s)\<rparr>))"

definition retry_remove :: "path \<Rightarrow> path list io" where
  "retry_remove p = tx_bind (retry_tolerating_race (fs_remove_file p)) (\<lambda>_. tx_return [p])"

definition gc_lock_file :: "path \<Rightarrow> path list io" where
  "gc_lock_file p =
     tx_bind (retry_tolerating_race (fs_open_existing p)) (\<lambda>opened.
     case opened of
       None \<Rightarrow> tx_return []
     | Some _ \<Rightarrow> tx_bind fs_try_lock_is_ok (\<lambda>locked. if locked then retry_remove p else tx_return []))"

definition gc_entry :: "path \<Rightarrow> bool \<Rightarrow> str list \<Rightarrow> str \<Rightarrow> path list io" where
  "gc_entry dir manifest_exists registered name =
     (let p = dir @ [name] in
      tx_bind (retry_tolerating_race (fs_metadata p)) (\<lambda>metadata.
      if metadata \<noteq> Some False then tx_return []
      else if ends_with name lock_suffix then
        (if manifest_exists \<and> name \<in> set registered then tx_return [] else gc_lock_file p)
      else if \<not> manifest_exists \<or> ends_with name tmp_suffix \<and> name \<notin> set registered then retry_remove p
      else tx_return []))"

fun gc_entries :: "path \<Rightarrow> bool \<Rightarrow> str list \<Rightarrow> str list \<Rightarrow> path list io" where
  "gc_entries dir manifest_exists registered [] = tx_return []"
| "gc_entries dir manifest_exists registered (name # names) =
     tx_bind (gc_entry dir manifest_exists registered name) (\<lambda>removed.
     tx_bind (gc_entries dir manifest_exists registered names) (\<lambda>rest. tx_return (removed @ rest)))"

definition registered_names :: "ckpt_api \<Rightarrow> bytes option \<Rightarrow> str list" where
  "registered_names api manifest_data = (case manifest_data of
     None \<Rightarrow> []
   | Some data \<Rightarrow> (case from_json api data of Inl _ \<Rightarrow> [] | Inr m \<Rightarrow> map cf_path (lm_files m)))"

definition gc_partial :: "ckpt_api \<Rightarrow> path \<Rightarrow> str \<Rightarrow> path list ck" where
  "gc_partial api dir manifest_name = ck_io (
     tx_bind (retry_tolerating_race (fs_metadata dir)) (\<lambda>metadata.
     if metadata \<noteq> Some True then tx_return []
     else
       tx_bind (retry_tolerating_race (read_beneath dir manifest_name)) (\<lambda>manifest_data.
       tx_bind (retry_tolerating_race (fs_read_dir dir)) (\<lambda>entries.
       case entries of
         None \<Rightarrow> tx_return []
       | Some names \<Rightarrow> gc_entries dir (manifest_data \<noteq> None) (registered_names api manifest_data) names))))"

definition gc_directory :: "ckpt_api \<Rightarrow> path \<Rightarrow> path list ck" where
  "gc_directory api dir =
     tx_bind (gc_partial api dir MANIFEST_FILENAME) (\<lambda>removed.
     tx_bind (ck_io (retry_tolerating_race (fs_read_dir dir))) (\<lambda>children.
     tx_bind (if children = Some [] then ck_io (retry_tolerating_race (fs_remove_dir dir)) else tx_return None) (\<lambda>_.
       tx_return removed)))"

fun gc_directories :: "ckpt_api \<Rightarrow> path \<Rightarrow> str list \<Rightarrow> (usize \<times> usize) ck" where
  "gc_directories api root [] = tx_return (0, 0)"
| "gc_directories api root (name # names) =
     tx_bind (ck_io (retry_tolerating_race (fs_metadata (root @ [name])))) (\<lambda>metadata.
     if metadata \<noteq> Some True then gc_directories api root names
     else
       tx_bind (gc_directory api (root @ [name])) (\<lambda>removed.
       tx_bind (gc_directories api root names) (\<lambda>(dirs, count). tx_return (Suc dirs, length removed + count))))"

definition startup_gc :: "ckpt_api \<Rightarrow> path \<Rightarrow> (usize \<times> usize) ck" where
  "startup_gc api root s = (case fs_read_dir root s of
     (Inl e, s') \<Rightarrow> (if is_gone e then Ok (0, 0) else Err (CkIo e), s')
   | (Inr names, s') \<Rightarrow> gc_directories api root names s')"

section \<open>What the collection leaves alone\<close>

definition keeps_files :: "path set \<Rightarrow> fs \<Rightarrow> fs \<Rightarrow> bool" where
  "keeps_files P s s' \<longleftrightarrow> (\<forall>p \<in> P. fs_file s' p = fs_file s p)"

interpretation kf: tx_relation "keeps_files P" for P
  by unfold_locales (auto simp: keeps_files_def)

lemma keeps_files_sleep: "keeps_files P s (sleep d s)"
  by (simp add: keeps_files_def sleep_def)

lemma same_fs_keeps: "same_fs s s' \<Longrightarrow> keeps_files P s s'"
  by (simp add: same_fs_def keeps_files_def)

lemma keeps_retry:
  assumes "\<And>s. keeps_files P s (snd (op s))"
  shows "keeps_files P s (snd (retry_tolerating_race op s))"
proof -
  have "keeps_files P s (snd (retry_attempts n op e s))" for n e s
  proof (induction n arbitrary: e s)
    case 0
    then show ?case by (simp add: kf.R_simple)
  next
    case (Suc n)
    have "keeps_files P s (snd (retry_attempts n op x (if n = 0 then s1 else sleep RACE_WAIT s1)))" if "op s = (r, s1)" for r x s1
      using assms [of s] that Suc.IH [of s1 x] Suc.IH [of "sleep RACE_WAIT s1" x] keeps_files_sleep [of P s1 RACE_WAIT]
      by (auto intro: kf.R_trans)
    with assms [of s] show ?case by (auto split: prod.splits sum.splits)
  qed
  then show ?thesis by (simp add: retry_tolerating_race_def)
qed

lemma same_fs_metadata:
  "same_fs s (snd (fs_metadata p s))" "same_fs s (snd (fs_open_existing p s))" "same_fs s (snd (fs_read_dir p s))"
  unfolding fs_metadata_def fs_open_existing_def fs_read_dir_def
  by (rule sf.R_statement_result, simp add: same_fs_def)+

lemma keeps_try_lock: "keeps_files P s (snd (fs_try_lock_is_ok s))"
  by (cases "db_tape s") (auto simp: fs_try_lock_is_ok_def fs_nop_def statement_def statement_result_def keeps_files_def
      split: option.splits)

lemma keeps_remove: "p \<notin> P \<Longrightarrow> keeps_files P s (snd (fs_remove_file p s))"
  unfolding fs_remove_file_def by (rule kf.R_statement_result) (auto simp: keeps_files_def file_table split: option.splits)

lemma keeps_remove_dir: "keeps_files P s (snd (fs_remove_dir p s))"
  unfolding fs_remove_dir_def by (rule kf.R_statement_result) (auto simp: keeps_files_def)

lemma keeps_retry_remove: "p \<notin> P \<Longrightarrow> keeps_files P s (snd (retry_remove p s))"
  unfolding retry_remove_def by (intro kf.R_bind kf.R_simple keeps_retry keeps_remove)

lemma keeps_gc_lock_file: "p \<notin> P \<Longrightarrow> keeps_files P s (snd (gc_lock_file p s))"
  unfolding gc_lock_file_def
  by (auto intro!: kf.R_bind kf.R_simple keeps_retry same_fs_keeps [OF same_fs_metadata(2)] keeps_try_lock keeps_retry_remove
      split: option.splits)

text \<open>The files a collection in \<open>dir\<close> must not touch when there is a manifest, and in any case.\<close>

definition protected :: "path \<Rightarrow> bool \<Rightarrow> str list \<Rightarrow> path set" where
  "protected dir manifest_exists registered =
     {p. \<forall>n. p = dir @ [n] \<longrightarrow>
        manifest_exists \<and> (n \<in> set registered \<or> \<not> ends_with n tmp_suffix \<and> \<not> ends_with n lock_suffix)}"

lemma keeps_gc_entry: "keeps_files (protected dir exs reg) s (snd (gc_entry dir exs reg name s))"
  unfolding gc_entry_def Let_def
  by (rule kf.R_bind [OF keeps_retry [OF same_fs_keeps [OF same_fs_metadata(1)]]])
    (auto intro!: kf.R_simple keeps_gc_lock_file keeps_retry_remove simp: protected_def)

lemma keeps_gc_entries: "keeps_files (protected dir exs reg) s (snd (gc_entries dir exs reg names s))"
proof (induction names arbitrary: s)
  case Nil
  then show ?case by (simp add: kf.R_simple)
next
  case (Cons name names)
  then show ?case by (auto intro!: kf.R_bind kf.R_simple keeps_gc_entry)
qed

lemma read_beneath_Ok:
  assumes "read_beneath dir rel s = (Inr bs, s')"
  shows "fs_file s (join_path dir rel) = Some bs"
proof -
  from assms obtain s1 where s1: "open_beneath dir rel s = (Inr (), s1)" "fs_read (join_path dir rel) s1 = (Inr bs, s')"
    by (auto simp: read_beneath_def tx_ok)
  with same_fs_open_beneath [of s dir rel] show ?thesis by (simp add: fs_read_Ok same_fs_def)
qed

text \<open>Reading with retries says truthfully that a file is missing.\<close>

lemma retry_read_beneath:
  assumes "retry_tolerating_race (read_beneath dir rel) s = (Inr x, s')" and "dir \<in> set (fs_dirs s)"
  shows "x = fs_file s (join_path dir rel)"
proof -
  have "x = fs_file s (join_path dir rel)"
    if "retry_attempts n (read_beneath dir rel) e s = (Inr x, s')" "dir \<in> set (fs_dirs s)" for n e s
    using that
  proof (induction n arbitrary: e s)
    case 0
    then show ?case by (simp add: tx_ok)
  next
    case (Suc n)
    obtain r s1 where r: "read_beneath dir rel s = (r, s1)" by fastforce
    have f: "same_fs s s1" using same_fs_read_beneath(1) [of s dir rel] r by simp
    show ?case
    proof (cases r)
      case (Inl err)
      show ?thesis
      proof (cases "is_gone err")
        case True
        with Suc.prems Inl r read_beneath_gone [of dir rel s s1] show ?thesis by (simp add: is_gone_def)
      next
        case False
        with Suc.prems Inl r have "retry_attempts n (read_beneath dir rel) err (if n = 0 then s1 else sleep RACE_WAIT s1) = (Inr x, s')"
          by (simp split: if_splits)
        with Suc.IH [of err "if n = 0 then s1 else sleep RACE_WAIT s1"] f Suc.prems(2) show ?thesis
          by (auto simp: same_fs_def sleep_def split: if_splits)
      qed
    next
      case (Inr bs)
      with r have "fs_file s (join_path dir rel) = Some bs" by (auto intro: read_beneath_Ok)
      with Suc.prems Inr r show ?thesis by simp
    qed
  qed
  then show ?thesis using assms by (simp add: retry_tolerating_race_def)
qed

lemma retry_same_fs:
  assumes "\<And>s. same_fs s (snd (op s))" and "retry_tolerating_race op s = (r, s')"
  shows "same_fs s s'"
proof -
  have "same_fs s (snd (retry_attempts n op e s))" for n e s
  proof (induction n arbitrary: e s)
    case 0
    then show ?case by (simp add: sf.R_simple)
  next
    case (Suc n)
    have "same_fs s (snd (retry_attempts n op x (if n = 0 then s1 else sleep RACE_WAIT s1)))" if "op s = (r, s1)" for r x s1
      using assms(1) [of s] that Suc.IH [of s1 x] Suc.IH [of "sleep RACE_WAIT s1" x] by (auto simp: same_fs_def sleep_def)
    with assms(1) [of s] show ?case by (auto split: prod.splits sum.splits)
  qed
  with assms(2) show ?thesis by (metis retry_tolerating_race_def snd_conv)
qed

lemma retry_metadata:
  assumes "retry_tolerating_race (fs_metadata p) s = (Inr (Some d), s')"
  shows "d \<longleftrightarrow> p \<in> set (fs_dirs s)"
proof -
  have "d \<longleftrightarrow> p \<in> set (fs_dirs s)" if "retry_attempts n (fs_metadata p) e s = (Inr (Some d), s')" for n e s
    using that
  proof (induction n arbitrary: e s)
    case (Suc n)
    obtain r s1 where r: "fs_metadata p s = (r, s1)" by fastforce
    have f: "same_fs s s1" using same_fs_metadata(1) [of s p] r by simp
    show ?case
    proof (cases r)
      case (Inl err)
      with Suc.prems r have "retry_attempts n (fs_metadata p) err (if n = 0 then s1 else sleep RACE_WAIT s1) = (Inr (Some d), s')"
        by (simp split: if_splits)
      with Suc.IH [of err "if n = 0 then s1 else sleep RACE_WAIT s1"] f show ?thesis by (auto simp: same_fs_def sleep_def split: if_splits)
    next
      case (Inr b)
      then have "b \<longleftrightarrow> p \<in> set (fs_dirs s)" using r by (auto simp: fs_metadata_def tx_ok split: if_splits)
      with Suc.prems r Inr show ?thesis by simp
    qed
  qed (simp add: tx_ok)
  then show ?thesis using assms by (simp add: retry_tolerating_race_def)
qed

lemma keeps_gc_partial:
  "keeps_files (protected dir (fs_file s (join_path dir name) \<noteq> None) (registered_names api (fs_file s (join_path dir name)))) s
     (snd (gc_partial api dir name s))"
proof -
  let ?P = "protected dir (fs_file s (join_path dir name) \<noteq> None) (registered_names api (fs_file s (join_path dir name)))"
  have rest: "keeps_files ?P s1 (snd (tx_bind (retry_tolerating_race (read_beneath dir name)) (\<lambda>manifest_data.
      tx_bind (retry_tolerating_race (fs_read_dir dir)) (\<lambda>entries. case entries of None \<Rightarrow> tx_return []
        | Some names \<Rightarrow> gc_entries dir (manifest_data \<noteq> None) (registered_names api manifest_data) names)) s1))"
    if "retry_tolerating_race (fs_metadata dir) s = (Inr (Some True), s1)" for s1
  proof (rule kf.R_bind)
    show "keeps_files ?P s1 (snd (retry_tolerating_race (read_beneath dir name) s1))"
      by (rule keeps_retry [OF same_fs_keeps [OF same_fs_read_beneath(1)]])
    fix x s2 assume x: "retry_tolerating_race (read_beneath dir name) s1 = (Inr x, s2)"
    have "same_fs s s1" by (rule retry_same_fs [OF same_fs_metadata(1) that])
    moreover have "dir \<in> set (fs_dirs s)" using retry_metadata [OF that] by simp
    ultimately have x': "x = fs_file s (join_path dir name)" using retry_read_beneath [OF x] by (simp add: same_fs_def)
    show "keeps_files ?P s2 (snd (tx_bind (retry_tolerating_race (fs_read_dir dir)) (\<lambda>entries. case entries of None \<Rightarrow> tx_return []
        | Some names \<Rightarrow> gc_entries dir (x \<noteq> None) (registered_names api x) names) s2))"
      unfolding x' by (auto intro!: kf.R_bind kf.R_simple keeps_retry [OF same_fs_keeps [OF same_fs_metadata(3)]] keeps_gc_entries split: option.splits)
  qed
  show ?thesis
    unfolding gc_partial_def ck_io_def
    by (rule kf.R_map_err, rule kf.R_bind [OF keeps_retry [OF same_fs_keeps [OF same_fs_metadata(1)]]])
      (auto intro: kf.R_simple rest simp del: not_None_eq)
qed

section \<open>Collections of all checkpoints\<close>

text \<open>The files of a checkpoint that no collection may remove.\<close>

definition checkpoint_files :: "ckpt_api \<Rightarrow> path \<Rightarrow> bytes \<Rightarrow> path set" where
  "checkpoint_files api dir json =
     {dir @ [n] |n. n \<in> set (registered_names api (Some json)) \<or> \<not> ends_with n tmp_suffix \<and> \<not> ends_with n lock_suffix}"

lemma manifest_in_checkpoint_files: "manifest_path dir \<in> checkpoint_files api dir json"
proof -
  have "\<not> ends_with MANIFEST_FILENAME tmp_suffix" "\<not> ends_with MANIFEST_FILENAME lock_suffix" by code_simp+
  then show ?thesis by (auto simp: checkpoint_files_def)
qed

lemma gc_partial_keeps_checkpoint:
  assumes "fs_file s (manifest_path (root @ [c])) = Some json"
  shows "keeps_files (checkpoint_files api (root @ [c]) json) s (snd (gc_partial api (root @ [name]) MANIFEST_FILENAME s))"
proof -
  have "checkpoint_files api (root @ [c]) json \<subseteq>
      protected (root @ [name]) (fs_file s (manifest_path (root @ [name])) \<noteq> None) (registered_names api (fs_file s (manifest_path (root @ [name]))))"
    using assms by (auto simp: checkpoint_files_def protected_def)
  with keeps_gc_partial [of "root @ [name]" s MANIFEST_FILENAME api] show ?thesis
    by (auto simp: keeps_files_def join_path_flat flat_MANIFEST_FILENAME)
qed

lemma keeps_manifest:
  "keeps_files (checkpoint_files api dir json) s s' \<Longrightarrow> fs_file s (manifest_path dir) = Some json \<Longrightarrow> fs_file s' (manifest_path dir) = Some json"
  using manifest_in_checkpoint_files [of dir api json] by (simp add: keeps_files_def)

lemma gc_directory_keeps:
  assumes "fs_file s (manifest_path (root @ [c])) = Some json"
  shows "keeps_files (checkpoint_files api (root @ [c]) json) s (snd (gc_directory api (root @ [name]) s))"
proof -
  let ?K = "checkpoint_files api (root @ [c]) json"
  have dir: "keeps_files ?K s (snd (ck_io (retry_tolerating_race (fs_read_dir p)) s))"
    and rm: "keeps_files ?K s (snd (ck_io (retry_tolerating_race (fs_remove_dir p)) s))" for p s
    unfolding ck_io_def
    by (rule kf.R_map_err, rule keeps_retry, rule same_fs_keeps [OF same_fs_metadata(3)],
      rule kf.R_map_err, rule keeps_retry, rule keeps_remove_dir)
  show ?thesis
    unfolding gc_directory_def
  proof (rule kf.R_bind)
    show "keeps_files ?K s (snd (gc_partial api (root @ [name]) MANIFEST_FILENAME s))" by (rule gc_partial_keeps_checkpoint [OF assms])
  qed (auto intro!: kf.R_bind dir rm kf.R_simple)
qed

lemma gc_directories_keep:
  assumes "fs_file s (manifest_path (root @ [c])) = Some json"
  shows "keeps_files (checkpoint_files api (root @ [c]) json) s (snd (gc_directories api root names s))"
  using assms
proof (induction names arbitrary: s)
  case Nil
  then show ?case by (simp add: kf.R_simple)
next
  case (Cons name names)
  let ?K = "checkpoint_files api (root @ [c]) json" and ?dir = "root @ [name]"
  have meta: "keeps_files ?K s (snd (ck_io (retry_tolerating_race (fs_metadata ?dir)) s))"
    unfolding ck_io_def by (rule kf.R_map_err [OF keeps_retry [OF same_fs_keeps [OF same_fs_metadata(1)]]])
  have rest: "keeps_files ?K s1 (snd (tx_bind (gc_directory api ?dir) (\<lambda>removed.
       tx_bind (gc_directories api root names) (\<lambda>(dirs, count). tx_return (Suc dirs, length removed + count))) s1))"
    if m: "fs_file s1 (manifest_path (root @ [c])) = Some json" for s1
  proof (rule kf.R_bind)
    show gc: "keeps_files ?K s1 (snd (gc_directory api ?dir s1))" by (rule gc_directory_keeps [OF m])
    fix removed s2 assume "gc_directory api ?dir s1 = (Inr removed, s2)"
    with gc keeps_manifest m have "fs_file s2 (manifest_path (root @ [c])) = Some json" by fastforce
    from Cons.IH [OF this] show "keeps_files ?K s2 (snd (tx_bind (gc_directories api root names)
        (\<lambda>(dirs, count). tx_return (Suc dirs, length removed + count)) s2))"
      by (auto intro!: kf.R_bind kf.R_simple)
  qed
  show ?case
    unfolding gc_directories.simps
  proof (rule kf.R_bind)
    show "keeps_files ?K s (snd (ck_io (retry_tolerating_race (fs_metadata ?dir)) s))" by (rule meta)
    fix m s1 assume "ck_io (retry_tolerating_race (fs_metadata ?dir)) s = (Inr m, s1)"
    with meta keeps_manifest Cons.prems have "fs_file s1 (manifest_path (root @ [c])) = Some json" by fastforce
    with rest Cons.IH show "keeps_files ?K s1 (snd ((if m \<noteq> Some True then gc_directories api root names
      else tx_bind (gc_directory api ?dir) (\<lambda>removed. tx_bind (gc_directories api root names)
        (\<lambda>(dirs, count). tx_return (Suc dirs, length removed + count)))) s1))" by simp
  qed
qed

section \<open>What a collection removes on a healthy system\<close>

lemma retry_first:
  "op s = (Ok x, s') \<Longrightarrow> retry_tolerating_race op s = (Ok (Some x), s')"
  "op s = (Err NotFound, s') \<Longrightarrow> retry_tolerating_race op s = (Ok None, s')"
  by (simp_all add: retry_tolerating_race_def numeral_eq_Suc is_gone_def)

lemma returns_retry:
  "returns op F D (Ok x) F' D' \<Longrightarrow> returns (retry_tolerating_race op) F D (Ok (Some x)) F' D'"
  "returns op F D (Err NotFound) F' D' \<Longrightarrow> returns (retry_tolerating_race op) F D (Ok None) F' D'"
  unfolding returns_def by (metis retry_first(1)) (metis retry_first(2))

lemma returns_metadata:
  "p \<in> D \<Longrightarrow> returns (fs_metadata p) F D (Ok True) F D" "p \<notin> D \<Longrightarrow> F p \<noteq> None \<Longrightarrow> returns (fs_metadata p) F D (Ok False) F D"
  "p \<notin> D \<Longrightarrow> F p = None \<Longrightarrow> returns (fs_metadata p) F D (Err NotFound) F D"
  "F p \<noteq> None \<Longrightarrow> returns (fs_open_existing p) F D (Ok ()) F D" "returns fs_try_lock_is_ok F D (Ok True) F D"
  by (auto simp: returns_def fs_metadata_def fs_open_existing_def statement_result_no_fault fs_try_lock_is_ok_def fs_nop_def
      statement_no_fault)

lemma returns_retry_remove: "F p \<noteq> None \<Longrightarrow> returns (retry_remove p) F D (Ok [p]) (F(p := None)) D"
  unfolding retry_remove_def by (rule returns_bind [OF returns_retry(1) [OF returns_calls(6)]], assumption, rule returns_simple)

lemma returns_gc_lock_file: "F p \<noteq> None \<Longrightarrow> returns (gc_lock_file p) F D (Ok [p]) (F(p := None)) D"
  unfolding gc_lock_file_def
  by (rule returns_bind [OF returns_retry(1) [OF returns_metadata(4)]], assumption, simp only: option.case,
    rule returns_bind [OF returns_metadata(5)], simp only: if_True, rule returns_retry_remove)

lemma returns_gc_entry:
  assumes "dir @ [name] \<notin> D"
  shows "\<exists>removed. returns (gc_entry dir False reg name) F D (Ok removed) (F(dir @ [name] := None)) D"
proof (cases "F (dir @ [name])")
  case None
  then have "returns (gc_entry dir False reg name) F D (Ok []) F D"
    unfolding gc_entry_def Let_def
    by - (rule returns_bind [OF returns_retry(2) [OF returns_metadata(3)]], rule assms, assumption, simp add: returns_simple)
  then show ?thesis using None by (simp add: fun_upd_idem) blast
next
  case (Some bs)
  have "returns (gc_entry dir False reg name) F D (Ok [dir @ [name]]) (F(dir @ [name] := None)) D"
    unfolding gc_entry_def Let_def
    by (rule returns_bind [OF returns_retry(1) [OF returns_metadata(2)]], rule assms)
      (simp_all add: Some returns_gc_lock_file returns_retry_remove)
  then show ?thesis by blast
qed

lemma returns_gc_entries:
  assumes "\<forall>n \<in> set names. dir @ [n] \<notin> D"
  shows "\<exists>removed F'. returns (gc_entries dir False reg names) F D (Ok removed) F' D \<and>
    (\<forall>n \<in> set names. F' (dir @ [n]) = None) \<and> (\<forall>n. F (dir @ [n]) = None \<longrightarrow> F' (dir @ [n]) = None)"
  using assms
proof (induction names arbitrary: F)
  case Nil
  then show ?case by (auto intro: returns_simple)
next
  case (Cons name names)
  let ?F = "F(dir @ [name] := None)"
  from returns_gc_entry [of dir name D reg F] Cons.prems obtain r1 where
    r1: "returns (gc_entry dir False reg name) F D (Ok r1) ?F D" by auto
  have "\<forall>n \<in> set names. dir @ [n] \<notin> D" using Cons.prems by simp
  from Cons.IH [OF this, of ?F] obtain r2 F' where r2: "returns (gc_entries dir False reg names) ?F D (Ok r2) F' D"
    "\<forall>n \<in> set names. F' (dir @ [n]) = None" "\<forall>n. ?F (dir @ [n]) = None \<longrightarrow> F' (dir @ [n]) = None" by blast
  have "returns (gc_entries dir False reg (name # names)) F D (Ok (r1 @ r2)) F' D"
    unfolding gc_entries.simps by (rule returns_bind [OF r1], rule returns_bind [OF r2(1)], rule returns_simple)
  with r2(2,3) show ?case by (intro exI [of _ "r1 @ r2"] exI [of _ F']) auto
qed

lemma gc_partial_empties:
  assumes "db_tape s = []" "dir \<in> set (fs_dirs s)" "\<And>n. dir @ [n] \<notin> set (fs_dirs s)" "fs_file s (manifest_path dir) = None"
  shows "\<exists>removed s'. gc_partial api dir MANIFEST_FILENAME s = (Ok removed, s') \<and> (\<forall>n. fs_file s' (dir @ [n]) = None)"
proof -
  let ?F = "fs_file s" and ?D = "set (fs_dirs s)" and ?names = "fs_children s dir"
  have rel: "validate_relative MANIFEST_FILENAME = Ok ()" "0 \<notin> set MANIFEST_FILENAME" by code_simp+
  have read: "retry_tolerating_race (read_beneath dir MANIFEST_FILENAME) s = (Ok None, s)"
    using rel assms
    by (simp add: retry_tolerating_race_def numeral_eq_Suc read_beneath_def open_beneath_def tx_bind_def lift_result_def
        statement_result_no_fault join_path_flat flat_MANIFEST_FILENAME is_gone_def)
  have meta: "retry_tolerating_race (fs_metadata dir) s = (Ok (Some True), s)" "retry_tolerating_race (fs_read_dir dir) s = (Ok (Some ?names), s)"
    using assms by (simp_all add: retry_tolerating_race_def numeral_eq_Suc fs_metadata_def fs_read_dir_def statement_result_no_fault)
  from returns_gc_entries [where names = ?names and dir = dir and D = ?D and reg = "[]" and F = ?F] assms(3)
  obtain removed F' where r: "returns (gc_entries dir False [] ?names) ?F ?D (Ok removed) F' ?D"
    "\<forall>n \<in> set ?names. F' (dir @ [n]) = None" "\<forall>n. ?F (dir @ [n]) = None \<longrightarrow> F' (dir @ [n]) = None" by blast
  then obtain s' where s': "gc_entries dir False [] ?names s = (Ok removed, s')" "fs_file s' = F'"
    using assms(1) by (auto simp: returns_def)
  have "n \<in> set ?names" if "?F (dir @ [n]) \<noteq> None" for n
    using that by (force simp: fs_children_def fs_file_def hm_get_def dest: map_of_SomeD)
  with r s' have "\<forall>n. fs_file s' (dir @ [n]) = None" by auto
  moreover have "gc_partial api dir MANIFEST_FILENAME s = (Ok removed, s')"
    using read meta s'(1) by (simp add: gc_partial_def ck_io_def tx_map_err_def tx_bind_def registered_names_def)
  ultimately show ?thesis by blast
qed

section \<open>Resume points\<close>

lemma same_fs_verify_files: "same_fs s (snd (verify_files api dir files s))"
proof (induction files arbitrary: s)
  case Nil
  then show ?case by (simp add: sf.R_simple)
next
  case (Cons f files)
  then show ?case by (auto simp: ck_io_def intro!: sf.R_bind sf.R_map_err sf.R_simple same_fs_read_beneath)
qed

lemma verify_files_Ok:
  assumes "verify_files api dir files s = (Inr u, s')"
  shows "list_all (file_intact api (fs_file s) (set (fs_dirs s)) dir) files"
  using assms
proof (induction files arbitrary: s)
  case (Cons f files)
  from Cons.prems obtain data s1 where r: "read_beneath_capped dir (cf_path f) (cf_size_bytes f) s = (Inr data, s1)"
    "digest_hex api data = cf_digest f" "verify_files api dir files s1 = (Inr u, s')"
    by (auto simp: tx_ok ck_io_Ok split: if_splits)
  have "same_fs s s1" using same_fs_read_beneath(2) [of s dir "cf_path f" "cf_size_bytes f"] r(1) by simp
  with Cons.IH [OF r(3)] read_beneath_capped_Ok [OF r(1)] r(2) show ?case by (auto simp: same_fs_def file_intact_def)
qed simp

lemma same_fs_load: "same_fs s (snd (load_valid_manifest api dir s))"
proof (cases "read_beneath dir MANIFEST_FILENAME s")
  case (Pair r s1)
  have "same_fs s s1" using same_fs_read_beneath(1) [of s dir MANIFEST_FILENAME] Pair by simp
  then show ?thesis
    using Pair same_fs_verify_files [of s1 api dir]
    by (auto simp: load_valid_manifest_def split: sum.splits prod.splits intro: sf.R_trans dest!: spec arg_cong [where f = snd])
      (metis sf.R_trans snd_conv)+
qed

lemma same_fs_is_dir: "same_fs s (snd (fs_is_dir p s))"
  by (cases "db_tape s") (auto simp: fs_is_dir_def statement_def statement_result_def same_fs_def split: option.splits)

lemma same_fs_candidate: "same_fs s (snd (resume_candidate api wanted root c s))"
  unfolding resume_candidate_def is_resume_candidate_def publication_failed_def ck_io_def Let_def
  by (auto intro!: sf.R_bind sf.R_map_err sf.R_simple same_fs_is_dir same_fs_load same_fs_marker_present split: option.splits)

text \<open>A checkpoint that may be resumed: its manifest reads back, is wanted and lists files, all of
  them are intact, it carries the name of its directory, and its publication has not failed.\<close>

definition resumable ::
    "ckpt_api \<Rightarrow> (ckpt_manifest \<Rightarrow> bool) \<Rightarrow> (path \<Rightarrow> bytes option) \<Rightarrow> path set \<Rightarrow> path \<Rightarrow> ckpt_manifest \<Rightarrow> bool" where
  "resumable api wanted F D root m \<longleftrightarrow>
     (let dir = root @ [lm_checkpoint_id m] in
      dir \<in> D \<and>
      (\<exists>json. F (manifest_path dir) = Some json \<and> from_json api json = Ok m) \<and>
      wanted m \<and> lm_files m \<noteq> [] \<and> list_all (file_intact api F D dir) (lm_files m) \<and>
      F (dir @ [PUBLICATION_FAILED_MARKER]) \<noteq> Some publication_failed_text)"

lemma load_valid_manifest_Ok:
  assumes "load_valid_manifest api dir s = (Inr (Some m), s')"
  shows "\<exists>json. fs_file s (manifest_path dir) = Some json \<and> from_json api json = Ok m \<and>
    list_all (file_intact api (fs_file s) (set (fs_dirs s)) dir) (lm_files m)"
proof -
  from assms obtain json s1 u where r: "read_beneath dir MANIFEST_FILENAME s = (Inr json, s1)" "from_json api json = Ok m"
    "verify_files api dir (lm_files m) s1 = (Inr u, s')"
    by (auto simp: load_valid_manifest_def split: prod.splits sum.splits)
  have "same_fs s s1" using same_fs_read_beneath(1) [of s dir MANIFEST_FILENAME] r(1) by simp
  with verify_files_Ok [OF r(3)] read_beneath_Ok [OF r(1)] r(2) show ?thesis
    by (simp add: same_fs_def join_path_flat flat_MANIFEST_FILENAME)
qed

lemma flat_failed_marker: "flat_name PUBLICATION_FAILED_MARKER"
  by code_simp

lemma publication_failed_False:
  assumes "publication_failed dir s = (Inr False, s')" "dir \<in> set (fs_dirs s)"
  shows "fs_file s (dir @ [PUBLICATION_FAILED_MARKER]) \<noteq> Some publication_failed_text"
  using assms read_beneath_gone [of dir PUBLICATION_FAILED_MARKER s s'] read_beneath_Ok [of dir PUBLICATION_FAILED_MARKER s]
  by (auto simp: publication_failed_def marker_present_def join_path_flat flat_failed_marker split: prod.splits sum.splits if_splits)

lemma fs_is_dir_True: "fs_is_dir p s = (Inr True, s') \<Longrightarrow> p \<in> set (fs_dirs s)"
  by (cases "db_tape s") (auto simp: fs_is_dir_def statement_def statement_result_def split: option.splits)

lemma resume_candidate_sound:
  assumes "resume_candidate api wanted root c s = (Inr (Some m), s')"
  shows "resumable api wanted (fs_file s) (set (fs_dirs s)) root m"
proof -
  let ?d = "root @ [c]"
  from assms obtain s1 s2 s3 where s1: "fs_is_dir ?d s = (Inr True, s1)" and s2: "load_valid_manifest api ?d s1 = (Inr (Some m), s2)"
    and m: "wanted m" "lm_files m \<noteq> []" "lm_checkpoint_id m = c" and s3: "publication_failed ?d s2 = (Inr False, s3)"
    by (auto simp: resume_candidate_def is_resume_candidate_def Let_def tx_ok ck_io_Ok split: if_splits option.splits)
  have "same_fs s s1" "same_fs s1 s2" using same_fs_is_dir [of s ?d] same_fs_load [of s1 api ?d] s1 s2 by simp_all
  with fs_is_dir_True [OF s1] load_valid_manifest_Ok [OF s2] m publication_failed_False [OF s3] show ?thesis
    by (auto simp: resumable_def same_fs_def Let_def)
qed

lemma collect_candidates_sound:
  assumes "collect_candidates api wanted root names s = (Inr ms, s')" "m \<in> set ms"
  shows "resumable api wanted (fs_file s) (set (fs_dirs s)) root m"
  using assms
proof (induction names arbitrary: s ms)
  case (Cons c names)
  from Cons.prems(1) obtain x s1 rest where r: "resume_candidate api wanted root c s = (Inr x, s1)"
    "collect_candidates api wanted root names s1 = (Inr rest, s')" "ms = (case x of Some m \<Rightarrow> m # rest | None \<Rightarrow> rest)"
    by (auto simp: tx_ok)
  have "same_fs s s1" using same_fs_candidate [of s api wanted root c] r(1) by simp
  with Cons.IH [OF r(2)] resume_candidate_sound [of api wanted root c s _ s1] r Cons.prems(2) show ?case
    by (auto simp: same_fs_def split: option.splits)
qed (simp add: tx_ok)

lemma pop_newest_Some:
  assumes "pop_newest ms = Some m"
  shows "m \<in> set ms \<and> (\<forall>m' \<in> set ms. lm_step m' \<le> lm_step m)"
proof -
  let ?l = "sort_key lm_step ms"
  from assms have "ms \<noteq> []" and m: "m = last ?l" by (auto simp: pop_newest_def split: if_splits)
  then have ne: "?l \<noteq> []" by (metis length_0_conv length_sort)
  from ne obtain ys where l: "?l = ys @ [m]" using m by (metis append_butlast_last_id)
  have "sorted (map lm_step ?l)" by simp
  then have "\<forall>m' \<in> set ?l. lm_step m' \<le> lm_step m" unfolding l by (auto simp: sorted_append)
  moreover have "m \<in> set ?l" using l by simp
  ultimately show ?thesis by simp
qed

lemma same_fs_read_pointer: "same_fs s (snd (read_pointer root s))"
  using same_fs_read_beneath(1) [of s root POINTER_FILENAME] by (auto simp: read_pointer_def Let_def split: prod.splits sum.splits)

lemma fs_is_dir_total: "\<exists>b s'. fs_is_dir p s = (Inr b, s')"
proof (cases "statement io_fault (\<lambda>s. (p \<in> set (fs_dirs s), s)) s")
  case (Pair r s1)
  then show ?thesis by (cases r) (auto simp: fs_is_dir_def)
qed

lemma find_candidates_sound:
  assumes "find_candidates api wanted root s = (Inr (Some m), s')"
  shows "resumable api wanted (fs_file s) (set (fs_dirs s)) root m"
proof -
  let ?s = "snd (read_pointer root s)"
  obtain b s1 where s1: "fs_is_dir root ?s = (Inr b, s1)" using fs_is_dir_total by blast
  obtain r s2 where s2: "fs_read_dir root s1 = (r, s2)" by fastforce
  have b: "b" using assms s1 by (auto simp: find_candidates_def tx_bind_def ck_io_def tx_map_err_def tx_return_def Let_def split: if_splits)
  obtain names where names: "r = Inr names"
    using assms s1 s2 b by (cases r) (auto simp: find_candidates_def tx_bind_def ck_io_def tx_map_err_def Let_def split: if_splits)
  have "tx_bind (collect_candidates api wanted root names) (\<lambda>candidates. tx_return (pop_newest candidates)) s2 = (Inr (Some m), s')"
    using assms s1 s2 b names by (simp add: find_candidates_def ck_io_def tx_bind_def [of "tx_map_err CkIo (fs_is_dir root)"] tx_map_err_def Let_def)
  then obtain ms where c: "collect_candidates api wanted root names s2 = (Inr ms, s')" "pop_newest ms = Some m" by (auto simp: tx_ok)
  have "same_fs s ?s" "same_fs ?s s1" "same_fs s1 s2"
    using same_fs_read_pointer [of s root] same_fs_is_dir [of ?s root] same_fs_metadata(3) [of s1 root] s1 s2 by simp_all
  with collect_candidates_sound [OF c(1)] pop_newest_Some [OF c(2)] show ?thesis by (auto simp: same_fs_def)
qed

text \<open>On a healthy system a computation that only reads has an answer.\<close>

definition settles :: "(fs \<Rightarrow> ('e + 'a) \<times> fs) \<Rightarrow> (path \<Rightarrow> bytes option) \<Rightarrow> path set \<Rightarrow> bool" where
  "settles m F D \<longleftrightarrow> (\<exists>r. returns m F D r F D)"

lemma settles_bind: "settles m F D \<Longrightarrow> (\<And>x. settles (f x) F D) \<Longrightarrow> settles (tx_bind m f) F D"
proof -
  assume "settles m F D" and f: "\<And>x. settles (f x) F D"
  then obtain r where r: "returns m F D r F D" by (auto simp: settles_def)
  show "settles (tx_bind m f) F D"
  proof (cases r)
    case (Inl e)
    with r returns_bind_Err [of m F D e F D f] show ?thesis unfolding settles_def by blast
  next
    case (Inr x)
    from f [of x] obtain r' where "returns (f x) F D r' F D" by (auto simp: settles_def)
    with r Inr returns_bind [of m F D x F D f r' F D] show ?thesis unfolding settles_def by blast
  qed
qed

lemma settles_simple: "settles (tx_return x) F D" "settles (tx_fail e) F D" "settles (lift_result r) F D"
  by (auto simp: settles_def intro: returns_simple)

lemma settles_statement:
  assumes "\<And>s. fs_file s = F \<Longrightarrow> set (fs_dirs s) = D \<Longrightarrow> act s = (r, s)"
  shows "settles (statement_result f act) F D"
  unfolding settles_def returns_def using assms by (intro exI [of _ r]) (simp add: statement_result_no_fault)

lemma settles_read: "settles (fs_read p) F D"
  unfolding fs_read_def by (rule settles_statement) auto

lemma settles_read_beneath: "settles (read_beneath dir rel) F D" "settles (read_beneath_capped dir rel n) F D"
  unfolding read_beneath_def read_beneath_capped_def open_beneath_def
  by (intro settles_bind settles_simple settles_read; rule settles_statement; auto)+

lemma settles_map_err: "settles m F D \<Longrightarrow> settles (tx_map_err f m) F D"
proof -
  assume "settles m F D"
  then obtain r where r: "returns m F D r F D" by (auto simp: settles_def)
  then have "returns (tx_map_err f m) F D (map_sum f id r) F D" by (fastforce simp: returns_def tx_map_err_def split: sum.splits)
  then show ?thesis by (auto simp: settles_def)
qed

lemma settles_verify_files: "settles (verify_files api dir files) F D"
proof (induction files)
  case (Cons f files)
  then show ?case by (auto simp: ck_io_def intro!: settles_bind settles_map_err settles_read_beneath settles_simple)
qed (simp add: settles_simple)

lemma candidate_found:
  assumes "resumable api wanted (fs_file s) (set (fs_dirs s)) root m" "db_tape s = []"
    and "root @ [lm_checkpoint_id m, PUBLICATION_FAILED_MARKER] \<notin> set (fs_dirs s)"
  shows "\<exists>s'. resume_candidate api wanted root (lm_checkpoint_id m) s = (Ok (Some m), s') \<and> same_fs s s' \<and> db_tape s' = []"
proof -
  let ?F = "fs_file s" and ?D = "set (fs_dirs s)" and ?d = "root @ [lm_checkpoint_id m]"
  from assms(1) obtain json where r: "?d \<in> ?D" "?F (manifest_path ?d) = Some json" "from_json api json = Ok m" "wanted m" "lm_files m \<noteq> []"
    "list_all (file_intact api ?F ?D ?d) (lm_files m)" "?F (?d @ [PUBLICATION_FAILED_MARKER]) \<noteq> Some publication_failed_text"
    by (auto simp: resumable_def Let_def)
  have rel: "validate_relative MANIFEST_FILENAME = Ok ()" "0 \<notin> set MANIFEST_FILENAME"
    "validate_relative PUBLICATION_FAILED_MARKER = Ok ()" "0 \<notin> set PUBLICATION_FAILED_MARKER" by code_simp+
  have paths: "join_path ?d MANIFEST_FILENAME = manifest_path ?d" "join_path ?d PUBLICATION_FAILED_MARKER = ?d @ [PUBLICATION_FAILED_MARKER]"
    by (simp_all add: join_path_flat flat_MANIFEST_FILENAME flat_failed_marker)
  have read: "read_beneath ?d MANIFEST_FILENAME s = (Ok json, s)"
    using r(1,2) rel(1,2) assms(2) paths(1)
    by (simp add: read_beneath_def open_beneath_def tx_bind_def lift_result_def statement_result_no_fault fs_read_def)
  from returns_verify_files [OF r(6)] assms(2) obtain s1 where s1: "verify_files api ?d (lm_files m) s = (Ok (), s1)"
    "db_tape s1 = []" "fs_file s1 = ?F" "set (fs_dirs s1) = ?D" by (auto simp: returns_def)
  have "fs_dirs s1 = fs_dirs s" using same_fs_verify_files [of s api ?d "lm_files m"] s1(1) by (simp add: same_fs_def)
  have failed: "publication_failed ?d s1 = (Ok False, s1)"
    using r(1,7) rel(3,4) s1 assms(3) paths(2)
    by (cases "?F (?d @ [PUBLICATION_FAILED_MARKER])")
      (simp_all add: publication_failed_def marker_present_def read_beneath_def open_beneath_def tx_bind_def lift_result_def
        statement_result_no_fault fs_read_def)
  have "fs_is_dir ?d s = (Ok True, s)" using r(1) assms(2) by (simp add: fs_is_dir_def statement_no_fault)
  then have "resume_candidate api wanted root (lm_checkpoint_id m) s = (Ok (Some m), s1)"
    using read r(3-5) s1(1) failed
    by (simp add: resume_candidate_def is_resume_candidate_def load_valid_manifest_def tx_bind_def tx_return_def ck_io_def tx_map_err_def Let_def)
  with s1 \<open>fs_dirs s1 = fs_dirs s\<close> show ?thesis by (auto simp: same_fs_def)
qed

lemma settles_run:
  assumes "settles m (fs_file s) (set (fs_dirs s))" "db_tape s = []"
  obtains r s' where "m s = (r, s')" "db_tape s' = []"
  using assms unfolding settles_def returns_def by blast

lemma load_total:
  assumes "db_tape s = []"
  obtains x s' where "load_valid_manifest api dir s = (Ok x, s')" "db_tape s' = []"
proof -
  from settles_run [OF settles_read_beneath(1) assms, of dir MANIFEST_FILENAME] obtain r s1 where
    r: "read_beneath dir MANIFEST_FILENAME s = (r, s1)" "db_tape s1 = []" by blast
  show ?thesis
  proof (cases "\<exists>json m. r = Ok json \<and> from_json api json = Ok m")
    case True
    then obtain json m where m: "r = Ok json" "from_json api json = Ok m" by blast
    from settles_run [OF settles_verify_files r(2), of api dir "lm_files m"] obtain v s2 where
      "verify_files api dir (lm_files m) s1 = (v, s2)" "db_tape s2 = []" by blast
    with that r m show ?thesis by (cases v) (auto simp: load_valid_manifest_def)
  next
    case False
    then have "load_valid_manifest api dir s = (Ok None, s1)"
      using r(1) by (cases r) (auto simp: load_valid_manifest_def split: sum.splits)
    with that r(2) show ?thesis by blast
  qed
qed

lemma candidate_total:
  assumes "db_tape s = []" "root @ [c, PUBLICATION_FAILED_MARKER] \<notin> set (fs_dirs s)"
  obtains x s' where "resume_candidate api wanted root c s = (Ok x, s')" "db_tape s' = []" "same_fs s s'"
proof -
  let ?d = "root @ [c]"
  have d: "fs_is_dir ?d s = (Ok (?d \<in> set (fs_dirs s)), s)" using assms(1) by (simp add: fs_is_dir_def statement_no_fault)
  obtain x s1 where l: "load_valid_manifest api ?d s = (Ok x, s1)" "db_tape s1 = []" by (rule load_total [OF assms(1)])
  have f: "same_fs s s1" using same_fs_load [of s api ?d] l(1) by simp
  have rel: "validate_relative PUBLICATION_FAILED_MARKER = Ok ()" "0 \<notin> set PUBLICATION_FAILED_MARKER" by code_simp+
  have path: "join_path ?d PUBLICATION_FAILED_MARKER = ?d @ [PUBLICATION_FAILED_MARKER]" by (simp add: join_path_flat flat_failed_marker)
  have p: "\<exists>b. publication_failed ?d s1 = (Ok b, s1)"
    using rel l(2) assms(2) path f
    by (cases "fs_file s1 (?d @ [PUBLICATION_FAILED_MARKER])")
      (auto simp: publication_failed_def marker_present_def read_beneath_def open_beneath_def tx_bind_def lift_result_def
        statement_result_no_fault fs_read_def same_fs_def)
  have "\<exists>x s'. resume_candidate api wanted root c s = (Ok x, s') \<and> db_tape s' = []"
    using d l p assms(1)
    by (cases x) (auto simp: resume_candidate_def is_resume_candidate_def tx_bind_def tx_return_def ck_io_def tx_map_err_def Let_def)
  then show ?thesis using that same_fs_candidate [of s api wanted root c] by auto
qed

lemma collect_complete:
  assumes "db_tape s = []" "\<And>c. root @ [c, PUBLICATION_FAILED_MARKER] \<notin> set (fs_dirs s)"
  shows "\<exists>ms s'. collect_candidates api wanted root names s = (Ok ms, s') \<and>
    (\<forall>m. resumable api wanted (fs_file s) (set (fs_dirs s)) root m \<longrightarrow> lm_checkpoint_id m \<in> set names \<longrightarrow> m \<in> set ms)"
  using assms
proof (induction names arbitrary: s)
  case Nil
  then show ?case by (simp add: tx_return_def)
next
  case (Cons c names)
  obtain x s1 where x: "resume_candidate api wanted root c s = (Ok x, s1)" "db_tape s1 = []" "same_fs s s1"
    by (rule candidate_total [OF Cons.prems])
  have same: "fs_file s1 = fs_file s" "fs_dirs s1 = fs_dirs s" using x(3) by (simp_all add: same_fs_def)
  from Cons.IH [OF x(2)] Cons.prems(2) obtain ms s2 where ms: "collect_candidates api wanted root names s1 = (Ok ms, s2)"
    "\<forall>m. resumable api wanted (fs_file s) (set (fs_dirs s)) root m \<longrightarrow> lm_checkpoint_id m \<in> set names \<longrightarrow> m \<in> set ms"
    unfolding same by blast
  have "x = Some m" if "resumable api wanted (fs_file s) (set (fs_dirs s)) root m" "lm_checkpoint_id m = c" for m
    using candidate_found [OF that(1) Cons.prems(1)] Cons.prems(2) [of c] that(2) x(1) by auto
  with x(1) ms show ?case
    by (intro exI [of _ "case x of Some m \<Rightarrow> m # ms | None \<Rightarrow> ms"] exI [of _ s2])
      (auto simp: tx_bind_def tx_return_def split: option.splits)
qed

lemma find_candidates_complete:
  assumes "db_tape s = []" "root \<in> set (fs_dirs s)" "\<And>c. root @ [c, PUBLICATION_FAILED_MARKER] \<notin> set (fs_dirs s)"
  shows "\<exists>x s'. find_candidates api wanted root s = (Ok x, s') \<and>
    (\<forall>m. resumable api wanted (fs_file s) (set (fs_dirs s)) root m \<longrightarrow> (\<exists>best. x = Some best \<and> lm_step m \<le> lm_step best))"
proof -
  let ?s = "snd (read_pointer root s)"
  obtain r s1 where "read_beneath root POINTER_FILENAME s = (r, s1)" "db_tape s1 = []"
    by (rule settles_run [OF settles_read_beneath(1) assms(1)])
  then have tape: "db_tape ?s = []" by (cases r) (simp_all add: read_pointer_def)
  have same: "fs_file ?s = fs_file s" "fs_dirs ?s = fs_dirs s" using same_fs_read_pointer [of s root] by (simp_all add: same_fs_def)
  have d: "fs_is_dir root ?s = (Ok True, ?s)" "fs_read_dir root ?s = (Ok (fs_children ?s root), ?s)"
    using assms(2) tape same by (simp_all add: fs_is_dir_def fs_read_dir_def statement_no_fault statement_result_no_fault)
  from collect_complete [OF tape, of root api wanted "fs_children ?s root"] assms(3) same obtain ms s' where
    ms: "collect_candidates api wanted root (fs_children ?s root) ?s = (Ok ms, s')"
    "\<forall>m. resumable api wanted (fs_file s) (set (fs_dirs s)) root m \<longrightarrow> lm_checkpoint_id m \<in> set (fs_children ?s root) \<longrightarrow> m \<in> set ms"
    by auto
  have listed: "lm_checkpoint_id m \<in> set (fs_children ?s root)" if "resumable api wanted (fs_file s) (set (fs_dirs s)) root m" for m
    using that same by (auto simp: resumable_def Let_def fs_children_def image_iff intro!: bexI [of _ "root @ [lm_checkpoint_id m]"])
  have "find_candidates api wanted root s = (Ok (pop_newest ms), s')"
    using d ms(1) by (simp add: find_candidates_def tx_bind_def ck_io_def tx_map_err_def tx_return_def Let_def)
  moreover have "\<exists>best. pop_newest ms = Some best \<and> lm_step m \<le> lm_step best" if "resumable api wanted (fs_file s) (set (fs_dirs s)) root m" for m
  proof -
    have m: "m \<in> set ms" using ms(2) listed that by blast
    then obtain best where b: "pop_newest ms = Some best" by (cases ms) (auto simp: pop_newest_def)
    with pop_newest_Some [OF b] m show ?thesis by blast
  qed
  ultimately show ?thesis by blast
qed

section \<open>Properties\<close>

text \<open>
  C16: what is resumed is intact. Whatever calls fail, a checkpoint that \<open>find_resume_point_for\<close> returns
  belongs to the job and attempt asked for, has its manifest in the directory of its name, passes the
  check of all its files and was not marked as a failed publication. When no call fails, the
  search returns the newest one: no checkpoint with these properties has a higher step.
\<close>
theorem resumed_checkpoint_is_intact:
  "(\<forall>m s'. find_resume_point_for api root job attempt s = (Ok (Some m), s') \<longrightarrow>
      lm_job_id m = job \<and> lm_attempt_id m = attempt \<and> lm_files m \<noteq> [] \<and>
      (\<exists>json. fs_file s (manifest_path (root @ [lm_checkpoint_id m])) = Some json \<and> from_json api json = Ok m) \<and>
      fst (verify_files api (root @ [lm_checkpoint_id m]) (lm_files m) (s\<lparr>db_tape := []\<rparr>)) = Ok () \<and>
      fs_file s (root @ [lm_checkpoint_id m, PUBLICATION_FAILED_MARKER]) \<noteq> Some publication_failed_text) \<and>
   (db_tape s = [] \<and> root \<in> set (fs_dirs s) \<and> (\<forall>c. root @ [c, PUBLICATION_FAILED_MARKER] \<notin> set (fs_dirs s)) \<longrightarrow>
      (\<exists>x s'. find_resume_point_for api root job attempt s = (Ok x, s') \<and>
        (\<forall>m. resumable api (\<lambda>m. lm_job_id m = job \<and> lm_attempt_id m = attempt) (fs_file s) (set (fs_dirs s)) root m \<longrightarrow>
           (\<exists>best. x = Some best \<and> lm_step m \<le> lm_step best))))"
proof (intro conjI impI allI)
  let ?w = "\<lambda>m. lm_job_id m = job \<and> lm_attempt_id m = attempt"
  fix m s' assume "find_resume_point_for api root job attempt s = (Ok (Some m), s')"
  from find_candidates_sound [OF this [unfolded find_resume_point_for_def]]
  have r: "resumable api ?w (fs_file s) (set (fs_dirs s)) root m" .
  then show "lm_job_id m = job" "lm_attempt_id m = attempt" "lm_files m \<noteq> []"
    "\<exists>json. fs_file s (manifest_path (root @ [lm_checkpoint_id m])) = Some json \<and> from_json api json = Ok m"
    "fs_file s (root @ [lm_checkpoint_id m, PUBLICATION_FAILED_MARKER]) \<noteq> Some publication_failed_text"
    by (auto simp: resumable_def Let_def)
  from r have "list_all (file_intact api (fs_file s) (set (fs_dirs s)) (root @ [lm_checkpoint_id m])) (lm_files m)"
    by (simp add: resumable_def Let_def)
  from returns_verify_files [OF this] show "fst (verify_files api (root @ [lm_checkpoint_id m]) (lm_files m) (s\<lparr>db_tape := []\<rparr>)) = Ok ()"
    unfolding returns_def by (auto dest: spec [of _ "s\<lparr>db_tape := []\<rparr>"])
next
  assume "db_tape s = [] \<and> root \<in> set (fs_dirs s) \<and> (\<forall>c. root @ [c, PUBLICATION_FAILED_MARKER] \<notin> set (fs_dirs s))"
  then show "\<exists>x s'. find_resume_point_for api root job attempt s = (Ok x, s') \<and>
      (\<forall>m. resumable api (\<lambda>m. lm_job_id m = job \<and> lm_attempt_id m = attempt) (fs_file s) (set (fs_dirs s)) root m \<longrightarrow>
         (\<exists>best. x = Some best \<and> lm_step m \<le> lm_step best))"
    unfolding find_resume_point_for_def by (intro find_candidates_complete) auto
qed

text \<open>
  C20: the collection removes only garbage. Whatever calls fail, \<open>startup_gc\<close> keeps, in a directory
  that has a manifest, the manifest, every file the manifest lists, whatever its name, and
  every file that is neither a temporary nor a lock file. When no call fails, a directory without
  a manifest has no files left after its collection.
\<close>
theorem gc_removes_only_garbage:
  assumes "fs_file s (manifest_path (root @ [c])) = Some json"
    and "n \<in> set (registered_names api (Some json)) \<or> \<not> ends_with n tmp_suffix \<and> \<not> ends_with n lock_suffix"
    and "db_tape t = []" "dir \<in> set (fs_dirs t)" "\<And>n. dir @ [n] \<notin> set (fs_dirs t)" "fs_file t (manifest_path dir) = None"
  shows "fs_file (snd (startup_gc api root s)) (root @ [c, n]) = fs_file s (root @ [c, n]) \<and>
    (\<exists>removed t'. gc_partial api dir MANIFEST_FILENAME t = (Ok removed, t') \<and> (\<forall>n. fs_file t' (dir @ [n]) = None))"
proof
  show "\<exists>removed t'. gc_partial api dir MANIFEST_FILENAME t = (Ok removed, t') \<and> (\<forall>n. fs_file t' (dir @ [n]) = None)"
    by (rule gc_partial_empties) (use assms in auto)
  obtain r s1 where r: "fs_read_dir root s = (r, s1)" by fastforce
  have f: "fs_file s1 = fs_file s" using same_fs_metadata(3) [of s root] r by (simp add: same_fs_def)
  have "root @ [c, n] \<in> checkpoint_files api (root @ [c]) json" using assms(2) by (auto simp: checkpoint_files_def)
  with gc_directories_keep [of s1 root c json api] assms(1) f r show
    "fs_file (snd (startup_gc api root s)) (root @ [c, n]) = fs_file s (root @ [c, n])"
    by (cases r) (auto simp: startup_gc_def keeps_files_def)
qed

lemma or_mark_failed_Err:
  fixes m :: "'a ck"
  assumes "or_mark_failed dir m s = (Inl e, s')" "\<And>a b. e \<noteq> PublicationUnmarked a b"
  shows "fs_file s' (dir @ [PUBLICATION_FAILED_MARKER]) = Some publication_failed_text"
proof -
  from assms obtain e' s1 where "(fail_after_materialization dir e' s1 :: (checkpoint_error + 'a) \<times> fs) = (Inl e, s')"
    by (auto simp: or_mark_failed_def split: prod.splits sum.splits)
  with assms(2) obtain u where "record_publication_failure dir s1 = (Inr u, s')"
    by (auto simp: fail_after_materialization_def split: prod.splits sum.splits)
  then obtain b where "write_once dir PUBLICATION_FAILED_MARKER publication_failed_text s1 = (Inr b, s')"
    by (auto simp: record_publication_failure_def tx_ok)
  from write_once_Ok [OF this] show ?thesis by (simp add: join_path_flat flat_failed_marker)
qed

lemma store_and_verify_dir:
  "store_and_verify api root manifest files slow_ms s = (Inr dir, s') \<Longrightarrow> dir = root @ [lm_checkpoint_id manifest]"
  using validate_checkpoint_id_flat [of "lm_checkpoint_id manifest"]
  by (auto simp: store_and_verify_def validate_checkpoint_id_def Let_def tx_ok join_path_flat split: sum.splits)

lemma publish_marks_failure:
  assumes "publish_checkpoint root dir i s = (Err e, s')" and "\<And>a b. e \<noteq> PublicationUnmarked a b"
  shows "fs_file s' (dir @ [PUBLICATION_FAILED_MARKER]) = Some publication_failed_text"
  using assms by (auto simp: publish_checkpoint_def tx_bind_Err tx_return_Err intro: or_mark_failed_Err)

lemma publish_phase:
  assumes "write_checkpoint_phased api root manifest files slow_ms s = (Err (PublishPhase, e), s')"
  shows "\<exists>s1. publish_checkpoint root (root @ [lm_checkpoint_id manifest]) (lm_checkpoint_id manifest) s1 = (Err e, s')"
  using assms
  by (auto simp: write_checkpoint_phased_def tx_bind_Err tx_map_err_Err tx_map_err_Ok dest: store_and_verify_dir)

lemma marked_not_resumed:
  assumes "fs_file s (root @ [i, PUBLICATION_FAILED_MARKER]) = Some publication_failed_text"
    and "find_resume_point_for api root job attempt (s\<lparr>db_tape := tape\<rparr>) = (Ok (Some m), s')"
  shows "lm_checkpoint_id m \<noteq> i"
  using find_candidates_sound [OF assms(2) [unfolded find_resume_point_for_def]] assms(1)
  by (auto simp: resumable_def Let_def fs_file_def)

text \<open>
  C19: a failed publication is not resumed. When publishing a stored and verified checkpoint fails (the marker
  of verified hashes, the pointer or the marker of the commit cannot be written), the checkpoint
  carries the mark of a failed publication and no later search on these files returns it, whatever
  calls fail then, with the one exception the error names: the mark itself could not be written.
  A failure of \<open>write_checkpoint_phased\<close> in its second phase is such a failure.
\<close>
theorem failed_publication_is_marked:
  assumes "publish_checkpoint root (root @ [i]) i s = (Err e, s') \<or>
      write_checkpoint_phased api root manifest files slow_ms s = (Err (PublishPhase, e), s') \<and> lm_checkpoint_id manifest = i"
    and "\<And>a b. e \<noteq> PublicationUnmarked a b"
  shows "fs_file s' (root @ [i, PUBLICATION_FAILED_MARKER]) = Some publication_failed_text \<and>
    (\<forall>tape job attempt m s''. find_resume_point_for api root job attempt (s'\<lparr>db_tape := tape\<rparr>) = (Ok (Some m), s'') \<longrightarrow>
       lm_checkpoint_id m \<noteq> i)"
proof -
  from assms(1) obtain s1 where "publish_checkpoint root (root @ [i]) i s1 = (Err e, s')" by (auto dest: publish_phase)
  from publish_marks_failure [OF this assms(2)]
  have "fs_file s' (root @ [i, PUBLICATION_FAILED_MARKER]) = Some publication_failed_text" by simp
  with marked_not_resumed show ?thesis by blast
qed

section \<open>Examples\<close>

definition example_manifest :: ckpt_manifest where
  "example_manifest = \<lparr>lm_schema_version = 1, lm_checkpoint_id = lit ''ck'', lm_job_id = lit ''job'', lm_attempt_id = lit ''a'', lm_step = 5,
     lm_files = [\<lparr>cf_path = lit ''shard'', cf_digest = hex_encode (replicate 32 1), cf_size_bytes = 1\<rparr>], lm_root_digest = [],
     lm_total_bytes = 1, lm_created_at_unix_ms = 0, lm_producer_node_id = lit ''n'', lm_fence_epoch = 1\<rparr>"

definition example_reader :: ckpt_api where
  "example_reader = \<lparr>api_hash = \<lambda>bs. replicate 32 (of_nat (length bs)), api_to_json = \<lambda>_. Some [9],
     api_from_json = \<lambda>bs. if bs = [9] then Some example_manifest else None\<rparr>"

definition example_root :: fs where
  "example_root = example_fs\<lparr>fs_files := ([lit ''ck'', MANIFEST_FILENAME], [9]) # fs_files example_fs\<rparr>"

lemma example_root_files:
  "fs_file example_root [lit ''ck'', MANIFEST_FILENAME] = Some [9]" "fs_file example_root [lit ''ck'', lit ''shard''] = Some [1]"
  "fs_dirs example_root = [[], [lit ''ck'']]" "db_tape example_root = []"
  "fs_file example_root [lit ''ck'', PUBLICATION_FAILED_MARKER] = None"
  by (simp_all add: example_root_def example_fs_def fs_file_def hm_get_def MANIFEST_FILENAME_def PUBLICATION_FAILED_MARKER_def)

lemma example_resumable:
  "resumable example_reader (\<lambda>m. lm_job_id m = lit ''job'' \<and> lm_attempt_id m = lit ''a'') (fs_file example_root) (set (fs_dirs example_root)) []
     example_manifest"
proof -
  have rel: "validate_relative (lit ''shard'') = Ok ()" "flat_name (lit ''shard'')" by code_simp+
  have "read_capped [1] (of_nat (length [1 :: u8])) 1 = Ok [1]" using read_capped_exact [of "[1]"] by simp
  with rel have "readable (fs_file example_root) (set (fs_dirs example_root)) [lit ''ck''] (lit ''shard'') 1 [1]"
    using example_root_files by (auto simp: readable_def join_path_flat)
  then have "file_intact example_reader (fs_file example_root) (set (fs_dirs example_root)) [lit ''ck'']
      \<lparr>cf_path = lit ''shard'', cf_digest = hex_encode (replicate 32 1), cf_size_bytes = 1\<rparr>"
    by (auto simp: file_intact_def digest_hex_def example_reader_def)
  with example_root_files show ?thesis
    by (simp add: resumable_def example_manifest_def Let_def from_json_def example_reader_def)
qed

theorem resumed_checkpoint_is_intact_witness:
  "\<exists>best s'. find_resume_point_for example_reader [] (lit ''job'') (lit ''a'') example_root = (Ok (Some best), s') \<and> 5 \<le> lm_step best \<and>
     fst (verify_files example_reader [lm_checkpoint_id best] (lm_files best) (example_root\<lparr>db_tape := []\<rparr>)) = Ok ()"
proof -
  have pre: "db_tape example_root = [] \<and> [] \<in> set (fs_dirs example_root) \<and> (\<forall>c. [] @ [c, PUBLICATION_FAILED_MARKER] \<notin> set (fs_dirs example_root))"
    by (simp add: example_root_files)
  note both = resumed_checkpoint_is_intact [of example_reader "[]" "lit ''job''" "lit ''a''" example_root]
  from both [THEN conjunct2, THEN mp, OF pre] obtain x s' where x: "find_resume_point_for example_reader [] (lit ''job'') (lit ''a'') example_root = (Ok x, s')"
    "\<forall>m. resumable example_reader (\<lambda>m. lm_job_id m = lit ''job'' \<and> lm_attempt_id m = lit ''a'') (fs_file example_root)
       (set (fs_dirs example_root)) [] m \<longrightarrow> (\<exists>best. x = Some best \<and> lm_step m \<le> lm_step best)" by (elim exE conjE)
  from x(2) [rule_format, OF example_resumable] x(1) obtain best where
    b: "find_resume_point_for example_reader [] (lit ''job'') (lit ''a'') example_root = (Ok (Some best), s')" "lm_step example_manifest \<le> lm_step best"
    by blast
  from both [THEN conjunct1, rule_format, OF b(1)] have
    "fst (verify_files example_reader ([] @ [lm_checkpoint_id best]) (lm_files best) (example_root\<lparr>db_tape := []\<rparr>)) = Ok ()" by blast
  moreover have "5 \<le> lm_step best" using b(2) by (simp add: example_manifest_def)
  ultimately show ?thesis using b(1) by (metis append_Nil)
qed

theorem gc_removes_only_garbage_witness:
  "fs_file (snd (startup_gc example_reader [] example_root)) [lit ''ck'', lit ''shard''] = Some [1] \<and>
   (\<exists>removed t'. gc_partial example_reader [lit ''ck''] MANIFEST_FILENAME example_fs = (Ok removed, t') \<and> fs_file t' [lit ''ck'', lit ''shard''] = None)"
proof -
  have "\<not> ends_with (lit ''shard'') tmp_suffix \<and> \<not> ends_with (lit ''shard'') lock_suffix" by code_simp
  then show ?thesis
    using gc_removes_only_garbage [of example_root "[]" "lit ''ck''" "[9]" "lit ''shard''" example_reader example_fs "[lit ''ck'']"]
      example_root_files by (auto simp: example_fs_def fs_file_def hm_get_def MANIFEST_FILENAME_def)
qed

text \<open>Another writer holds the lock of the marker.\<close>

lemma write_once_busy:
  assumes "validate_relative_name name = Ok ()" "flat_name name" "dir \<in> set (fs_dirs s)" "db_tape s = [None, Some SqliteBusyOrLocked]"
  shows "\<exists>s'. write_once dir name data s = (Err (WriteInProgress (dir @ [name])), s') \<and> db_tape s' = [] \<and> fs_dirs s' = fs_dirs s \<and>
    (\<forall>p. p \<noteq> dir @ [name @ lock_suffix] \<longrightarrow> fs_file s' p = fs_file s p)"
  using assms
  by (cases "fs_file s (dir @ [name @ lock_suffix])")
    (auto simp: write_once_def tx_bind_def lift_result_def ck_io_def tx_map_err_def fs_open_or_create_def statement_result_def
      try_lock_def statement_def join_path_flat flat_suffix Let_def file_table)

lemma failed_marker_valid: "validate_relative_name PUBLICATION_FAILED_MARKER = Ok ()"
  by code_simp

lemma publish_busy:
  assumes "[i] \<in> set (fs_dirs s)" "db_tape s = [None, Some SqliteBusyOrLocked]" "fs_file s [i, PUBLICATION_FAILED_MARKER] = None"
    "\<And>n. [i, n] \<notin> set (fs_dirs s)"
  shows "\<exists>s'. publish_checkpoint [] ([] @ [i]) i s = (Err (WriteInProgress [i, lit (state_marker_name DsHashVerified)]), s')"
proof -
  let ?n = "lit (state_marker_name DsHashVerified)" and ?M = PUBLICATION_FAILED_MARKER
  from write_once_busy [OF marker_valid flat_state_marker assms(1,2), of DsHashVerified "marker_text DsHashVerified"] obtain s1 where
    s1: "write_once [i] ?n (marker_text DsHashVerified) s = (Err (WriteInProgress ([i] @ [?n])), s1)" "db_tape s1 = []"
      "fs_dirs s1 = fs_dirs s" "\<forall>p. p \<noteq> [i] @ [?n @ lock_suffix] \<longrightarrow> fs_file s1 p = fs_file s p" by blast
  have t: "record_state_transition [i] DsLocalWritten DsHashVerified s = (Err (WriteInProgress ([i] @ [?n])), s1)"
    unfolding record_state_transition_def tx_bind_def tx_map_err_def lift_result_def durability_transition_def s1(1)
    by (simp add: can_transition_to_def s1(1) [simplified])
  have "?M \<noteq> ?n @ lock_suffix" by (simp add: PUBLICATION_FAILED_MARKER_def)
  with s1(4) assms(3) have none: "fs_file s1 ([i] @ [?M]) = None" by simp
  obtain F' where "returns (write_once [i] ?M publication_failed_text) (fs_file s1) (set (fs_dirs s1)) (Ok True) F' (set (fs_dirs s1))"
    by (rule fresh_write_once [where name = ?M and dir = "[i]" and D = "set (fs_dirs s1)" and F = "fs_file s1" and data = publication_failed_text])
      (use failed_marker_valid flat_failed_marker assms s1(3) none in auto)
  then obtain s2 where "write_once [i] ?M publication_failed_text s1 = (Ok True, s2)" using s1(2) by (auto simp: returns_def)
  then have "record_publication_failure [i] s1 = (Ok (), s2)" by (simp add: record_publication_failure_def tx_bind_def tx_return_def)
  with t show ?thesis by (simp add: publish_checkpoint_def tx_bind_def or_mark_failed_def fail_after_materialization_def)
qed

theorem failed_publication_is_marked_witness:
  "\<exists>e s'. publish_checkpoint [] ([] @ [lit ''ck'']) (lit ''ck'') (example_root\<lparr>db_tape := [None, Some SqliteBusyOrLocked]\<rparr>) = (Err e, s') \<and>
     (\<forall>m s''. find_resume_point_for example_reader [] (lit ''job'') (lit ''a'') (s'\<lparr>db_tape := []\<rparr>) = (Ok (Some m), s'') \<longrightarrow>
        lm_checkpoint_id m \<noteq> lit ''ck'')"
proof -
  obtain s' where run: "publish_checkpoint [] ([] @ [lit ''ck'']) (lit ''ck'') (example_root\<lparr>db_tape := [None, Some SqliteBusyOrLocked]\<rparr>) =
      (Err (WriteInProgress [lit ''ck'', lit (state_marker_name DsHashVerified)]), s')"
    using publish_busy [of "lit ''ck''" "example_root\<lparr>db_tape := [None, Some SqliteBusyOrLocked]\<rparr>"] example_root_files by auto
  from failed_publication_is_marked [OF disjI1 [OF run], of example_reader] run show ?thesis by blast
qed

end
