(* ===== verification/Signing.thy ===== *)
theory Signing
  imports Canonical
begin

text \<open>
  Message verification, \<open>crates/protocol/src/signing.rs\<close> and the constants of
  \<open>crates/protocol/src/constants.rs\<close> it uses: schema gate, signature, derived fields,
  lifetime and replay, in this order.

  The trait \<open>Signable\<close> is the record \<open>signable\<close> of what its methods return. The trait
  \<open>SignatureVerifier\<close> is a parameter \<open>verifier\<close>. The trait \<open>ReplayGuard\<close> is a state
  \<open>'g\<close> with its two methods as parameters of \<open>verify\<close>; the locale \<open>replay_guard\<close>
  states what an implementation promises, and the lemma proved there is that a short-lived
  message is accepted at most once.

  The texts of \<open>explain\<close> and \<open>Display\<close> are not modelled; \<open>Io(String)\<close> carries no text.
  The \<open>debug_assert!\<close> of \<open>verify\<close> is not part of a release build.
\<close>

section \<open>Constants\<close>

definition NONCE_LEN :: usize where "NONCE_LEN = 16"

definition CLOCK_SKEW_TOLERANCE_MS :: u64 where "CLOCK_SKEW_TOLERANCE_MS = 60000"

definition MAX_SHORTLIVED_TTL_MS :: u64 where "MAX_SHORTLIVED_TTL_MS = 900000"

definition SCHEMA_VERSION :: u32 where "SCHEMA_VERSION = 4"

section \<open>Outcomes and errors\<close>

datatype verify_outcome =
    InvalidSignatureOutcome | UnknownSigner | Expired | ClockSkew | Replay | WrongDomain | SchemaTooNew

fun proto_value :: "verify_outcome \<Rightarrow> int" where
  "proto_value InvalidSignatureOutcome = 2"
| "proto_value UnknownSigner = 3"
| "proto_value Expired = 4"
| "proto_value ClockSkew = 5"
| "proto_value Replay = 6"
| "proto_value WrongDomain = 7"
| "proto_value SchemaTooNew = 8"

datatype lifetime = ShortLived | LongLived | Evidence | Perpetual

datatype replay_decision = Fresh | Duplicate

datatype replay_status = Checked | NotApplicable | Ineffective

definition permits_side_effects :: "replay_status \<Rightarrow> bool" where
  "permits_side_effects s \<longleftrightarrow> s = Checked"

datatype policy_violation = ShortLivedTtlTooLong u64 u64

datatype replay_store_error =
    ReplayIo | ReplayLockTimeout | CacheFull | InvalidNonce usize | SignerQuotaExceeded str usize

datatype derived_mismatch = DerivedMismatch string

datatype verify_error =
    Outcome verify_outcome
  | ReplayStore replay_store_error
  | PolicyError policy_violation
  | Derived derived_mismatch

fun verify_error_outcome :: "verify_error \<Rightarrow> verify_outcome option" where
  "verify_error_outcome (Outcome x) = Some x"
| "verify_error_outcome (ReplayStore _) = None"
| "verify_error_outcome (Derived _) = None"
| "verify_error_outcome (PolicyError _) = None"

section \<open>Messages\<close>

record signable =
  sg_domain :: domain
  sg_lifetime :: lifetime
  sg_schema_version :: u32
  sg_canonical_fields :: fields
  sg_signature_bytes :: bytes
  sg_expires_at_unix_ms :: u64
  sg_issued_at_unix_ms :: u64
  sg_signer_id :: str
  sg_derived_consistency :: "derived_mismatch + unit"
  sg_replay_nonce :: "bytes option"

record verified =
  vf_inner :: signable
  vf_signer_id :: str
  vf_replay_status :: replay_status

definition replay_checked :: "verified \<Rightarrow> bool" where
  "replay_checked v \<longleftrightarrow> permits_side_effects (vf_replay_status v)"

definition require_replay_checked :: "verified \<Rightarrow> verify_outcome + signable" where
  "require_replay_checked v =
     (if permits_side_effects (vf_replay_status v) then Ok (vf_inner v) else Err Replay)"

definition signing_input :: "signable \<Rightarrow> bytes" where
  "signing_input msg =
     sig_input (sg_domain msg) (sg_schema_version msg) (canonical_encode (sg_canonical_fields msg) [])"

section \<open>Verification\<close>

type_synonym signature_verifier = "str \<Rightarrow> bytes \<Rightarrow> bytes \<Rightarrow> verify_outcome + unit"

type_synonym 'g replay_check =
  "str \<Rightarrow> domain \<Rightarrow> bytes \<Rightarrow> u64 \<Rightarrow> 'g \<Rightarrow> (replay_store_error + replay_decision) \<times> 'g"

text \<open>Everything before the replay check: it reads the message, the key ring and the clock.\<close>

definition check_lifetime :: "signable \<Rightarrow> u64 \<Rightarrow> verify_error + unit" where
  "check_lifetime msg now =
     (case sg_lifetime msg of
        Evidence \<Rightarrow> Ok ()
      | Perpetual \<Rightarrow> Ok ()
      | LongLived \<Rightarrow> reject_if (sg_expires_at_unix_ms msg \<le> now) (Outcome Expired)
      | ShortLived \<Rightarrow>
          and_then (reject_if (sg_expires_at_unix_ms msg \<le> now) (Outcome Expired)) (\<lambda>_.
            reject_if (abs_diff now (sg_issued_at_unix_ms msg) > CLOCK_SKEW_TOLERANCE_MS) (Outcome ClockSkew)))"

definition check_message :: "u32 \<Rightarrow> signature_verifier \<Rightarrow> u64 \<Rightarrow> signable \<Rightarrow> verify_error + unit" where
  "check_message max_supported_schema_version verifier now msg =
     (let max_supported = min max_supported_schema_version SCHEMA_VERSION in
     and_then (reject_if (sg_schema_version msg > max_supported) (Outcome SchemaTooNew)) (\<lambda>_.
     and_then (case verifier (sg_signer_id msg) (signing_input msg) (sg_signature_bytes msg) of
                 Inl e \<Rightarrow> Err (Outcome e) | Inr _ \<Rightarrow> Ok ()) (\<lambda>_.
     and_then (case sg_derived_consistency msg of Inl e \<Rightarrow> Err (Derived e) | Inr _ \<Rightarrow> Ok ()) (\<lambda>_.
       check_lifetime msg now))))"

text \<open>The nonce and TTL checks in front of the store, and the retention it is asked for.\<close>

definition replay_request :: "signable \<Rightarrow> verify_error + bytes \<times> u64" where
  "replay_request msg =
     and_then (ok_or (sg_replay_nonce msg) (Outcome Replay)) (\<lambda>n.
     and_then (reject_if (length n \<noteq> NONCE_LEN) (Outcome Replay)) (\<lambda>_.
       let ttl = saturating_sub (sg_expires_at_unix_ms msg) (sg_issued_at_unix_ms msg) in
       and_then (reject_if (ttl > MAX_SHORTLIVED_TTL_MS)
                   (PolicyError (ShortLivedTtlTooLong ttl MAX_SHORTLIVED_TTL_MS))) (\<lambda>_.
         Ok (n, saturating_add (sg_expires_at_unix_ms msg) CLOCK_SKEW_TOLERANCE_MS))))"

definition check_replay ::
    "'g replay_check \<Rightarrow> bool \<Rightarrow> signable \<Rightarrow> 'g \<Rightarrow> (verify_error + replay_status) \<times> 'g" where
  "check_replay check effective msg g =
     (if sg_lifetime msg = ShortLived then
        (case replay_request msg of
           Inl e \<Rightarrow> (Err e, g)
         | Inr (n, retain_until) \<Rightarrow>
             (case check (sg_signer_id msg) (sg_domain msg) n retain_until g of
                (Inr Fresh, g') \<Rightarrow> (Ok (if effective then Checked else Ineffective), g')
              | (Inr Duplicate, g') \<Rightarrow> (Err (Outcome Replay), g')
              | (Inl e, g') \<Rightarrow> (Err (ReplayStore e), g')))
      else (Ok NotApplicable, g))"

definition verify ::
    "'g replay_check \<Rightarrow> bool \<Rightarrow> u32 \<Rightarrow> signature_verifier \<Rightarrow> u64 \<Rightarrow> signable \<Rightarrow> 'g
      \<Rightarrow> (verify_error + verified) \<times> 'g" where
  "verify check effective max_supported verifier now msg g =
     (case check_message max_supported verifier now msg of
        Inl e \<Rightarrow> (Err e, g)
      | Inr _ \<Rightarrow>
          (case check_replay check effective msg g of
             (Inl e, g') \<Rightarrow> (Err e, g')
           | (Inr status, g') \<Rightarrow>
               (Ok \<lparr>vf_inner = msg, vf_signer_id = sg_signer_id msg, vf_replay_status = status\<rparr>, g')))"

text \<open>\<open>NoReplayCheck\<close>: the guard that remembers nothing.\<close>

definition no_replay_check :: "unit replay_check" where
  "no_replay_check signer d nonce retain_until g = (Ok Fresh, g)"

section \<open>Runs of a receiver\<close>

text \<open>A receiver's history: messages that arrive and garbage collections, each with the clock
  reading it uses. \<open>accepted\<close> lists the messages whose verification allowed side effects.\<close>

datatype event = Receive u64 signable | Collect u64

fun event_clock :: "event \<Rightarrow> u64" where
  "event_clock (Receive now _) = now"
| "event_clock (Collect now) = now"

definition receive_step ::
    "'g replay_check \<Rightarrow> (u64 \<Rightarrow> 'g \<Rightarrow> 'g) \<Rightarrow> u32 \<Rightarrow> signature_verifier \<Rightarrow> event \<Rightarrow> 'g
      \<Rightarrow> signable list \<times> 'g" where
  "receive_step check gc max_supported verifier e g =
     (case e of
        Receive now msg \<Rightarrow>
          (case verify check True max_supported verifier now msg g of
             (Inr v, g') \<Rightarrow> (if replay_checked v then [vf_inner v] else [], g')
           | (Inl _, g') \<Rightarrow> ([], g'))
      | Collect now \<Rightarrow> ([], gc now g))"

fun accepted ::
    "'g replay_check \<Rightarrow> (u64 \<Rightarrow> 'g \<Rightarrow> 'g) \<Rightarrow> u32 \<Rightarrow> signature_verifier \<Rightarrow> event list \<Rightarrow> 'g
      \<Rightarrow> signable list" where
  "accepted check gc max_supported verifier [] g = []"
| "accepted check gc max_supported verifier (e # es) g =
     (case receive_step check gc max_supported verifier e g of
        (ms, g') \<Rightarrow> ms @ accepted check gc max_supported verifier es g')"

text \<open>The guard a history leaves behind.\<close>

fun guard_after ::
    "'g replay_check \<Rightarrow> (u64 \<Rightarrow> 'g \<Rightarrow> 'g) \<Rightarrow> u32 \<Rightarrow> signature_verifier \<Rightarrow> event list \<Rightarrow> 'g \<Rightarrow> 'g" where
  "guard_after check gc max_supported verifier [] g = g"
| "guard_after check gc max_supported verifier (e # es) g =
     guard_after check gc max_supported verifier es (snd (receive_step check gc max_supported verifier e g))"

section \<open>The contract of a replay guard\<close>

text \<open>\<open>remembered g\<close> is what a guard remembers of a key: the retention as the store keeps it.
  Retentions below \<open>limit\<close> are kept exactly. A key is forgotten by garbage collection only,
  and only once the clock has reached its retention.\<close>

type_synonym replay_key = "str \<times> domain \<times> bytes"

locale replay_guard =
  fixes check :: "'g replay_check"
    and gc :: "u64 \<Rightarrow> 'g \<Rightarrow> 'g"
    and remembered :: "'g \<Rightarrow> replay_key \<Rightarrow> nat option"
    and invar :: "'g \<Rightarrow> bool"
    and stored :: "u64 \<Rightarrow> nat"
    and limit :: nat
  assumes check_fresh: "invar g \<Longrightarrow> check s d n r g = (Ok Fresh, g') \<Longrightarrow>
      remembered g (s, d, n) = None \<and> remembered g' = (remembered g)((s, d, n) \<mapsto> stored r)"
    and check_other: "invar g \<Longrightarrow> check s d n r g = (res, g') \<Longrightarrow> res \<noteq> Ok Fresh \<Longrightarrow> remembered g' = remembered g"
    and check_known: "invar g \<Longrightarrow> remembered g (s, d, n) \<noteq> None \<Longrightarrow> fst (check s d n r g) \<noteq> Ok Fresh"
    and check_invar: "invar g \<Longrightarrow> invar (snd (check s d n r g))"
    and gc_keeps: "invar g \<Longrightarrow> remembered g k = Some t \<Longrightarrow> unat now < t \<Longrightarrow> remembered (gc now g) k = Some t"
    and gc_forgets: "invar g \<Longrightarrow> remembered (gc now g) k = None \<or> remembered (gc now g) k = remembered g k"
    and gc_invar: "invar g \<Longrightarrow> invar (gc now g)"
    and stored_exact: "unat r < limit \<Longrightarrow> stored r = unat r"
begin

text \<open>After \<open>msg\<close> was accepted: its key is remembered with its retention, or the clock has
  passed its expiry.\<close>

definition settled :: "signable \<Rightarrow> nat \<Rightarrow> 'g \<Rightarrow> bool" where
  "settled msg clock g \<longleftrightarrow>
     unat (sg_expires_at_unix_ms msg) \<le> clock \<or>
     (\<exists>n t. sg_replay_nonce msg = Some n \<and> unat (sg_expires_at_unix_ms msg) \<le> t \<and>
        remembered g (sg_signer_id msg, sg_domain msg, n) = Some t)"

lemma accepted_shape:
  assumes "receive_step check gc m v e g = (ms, g')" and "msg \<in> set ms"
  obtains now n g1 where "e = Receive now msg" "ms = [msg]" "sg_lifetime msg = ShortLived"
    "sg_replay_nonce msg = Some n" "now < sg_expires_at_unix_ms msg"
    "check (sg_signer_id msg) (sg_domain msg) n
       (saturating_add (sg_expires_at_unix_ms msg) CLOCK_SKEW_TOLERANCE_MS) g = (Ok Fresh, g')"
proof (cases e)
  case (Collect now)
  with assms show ?thesis by (simp add: receive_step_def)
next
  case (Receive now m')
  obtain w where w: "verify check True m v now m' g = (Ok w, g')" "replay_checked w" "ms = [vf_inner w]"
    using assms Receive by (auto simp: receive_step_def split: prod.splits sum.splits if_splits)
  then have "vf_inner w = m'" and life: "sg_lifetime m' = ShortLived"
    and status: "check_replay check True m' g = (Ok Checked, g')"
    and msg_ok: "check_message m v now m' = Ok ()"
    by (auto simp: verify_def replay_checked_def permits_side_effects_def check_replay_def
        split: sum.splits prod.splits if_splits)
  then have "m' = msg" using w(3) assms(2) by simp
  moreover have "now < sg_expires_at_unix_ms m'"
    using msg_ok life by (auto simp: check_message_def check_lifetime_def result_ok Let_def not_le)
  moreover obtain n where "sg_replay_nonce m' = Some n" "check (sg_signer_id m') (sg_domain m') n
       (saturating_add (sg_expires_at_unix_ms m') CLOCK_SKEW_TOLERANCE_MS) g = (Ok Fresh, g')"
    using status life
    by (auto simp: check_replay_def replay_request_def result_ok Let_def
        split: sum.splits prod.splits replay_decision.splits if_splits)
  ultimately show ?thesis using that Receive w(3) \<open>vf_inner w = m'\<close> life by simp
qed

text \<open>A step changes what is remembered through \<open>check\<close> or \<open>gc\<close> only.\<close>

lemma step_cases:
  assumes "receive_step check gc m v e g = (ms, g')"
  shows "g' = g \<or> (\<exists>s d n r. g' = snd (check s d n r g)) \<or> (\<exists>now. e = Collect now \<and> g' = gc now g)"
proof (cases e)
  case (Collect now)
  with assms show ?thesis by (simp add: receive_step_def)
next
  case (Receive now msg)
  have "snd (verify check True m v now msg g) = g'"
    using assms Receive by (auto simp: receive_step_def split: prod.splits sum.splits)
  moreover have "snd (check_replay check True msg g) = g \<or>
      (\<exists>s d n r. snd (check_replay check True msg g) = snd (check s d n r g))"
    unfolding check_replay_def
    by (auto split: sum.splits prod.splits replay_decision.splits) (metis snd_conv)+
  ultimately show ?thesis
    by (auto simp: verify_def split: sum.splits prod.splits)
qed

lemma step_invar: "invar g \<Longrightarrow> receive_step check gc m v e g = (ms, g') \<Longrightarrow> invar g'"
  using step_cases check_invar gc_invar by metis

lemma check_keeps:
  assumes "invar g" and "remembered g k = Some t"
  shows "remembered (snd (check s d n r g)) k = Some t"
proof (cases "fst (check s d n r g) = Ok Fresh")
  case True
  then have eq: "check s d n r g = (Ok Fresh, snd (check s d n r g))" by (metis prod.collapse)
  from check_fresh [OF assms(1) eq] assms(2) show ?thesis by auto
next
  case False
  then show ?thesis using check_other [OF assms(1) prod.collapse [symmetric]] assms(2) by metis
qed

lemma settled_step:
  assumes "invar g" and "receive_step check gc m v e g = (ms, g')" and "settled msg clock g"
    and "clock \<le> unat (event_clock e)"
  shows "settled msg (unat (event_clock e)) g'"
proof (cases "unat (sg_expires_at_unix_ms msg) \<le> unat (event_clock e)")
  case True
  then show ?thesis by (simp add: settled_def)
next
  case False
  then obtain n t where n: "sg_replay_nonce msg = Some n" "unat (sg_expires_at_unix_ms msg) \<le> t"
    "remembered g (sg_signer_id msg, sg_domain msg, n) = Some t"
    using assms(3,4) by (auto simp: settled_def)
  have "remembered g' (sg_signer_id msg, sg_domain msg, n) = Some t"
    using step_cases [OF assms(2)]
  proof (elim disjE exE conjE)
    fix now assume "e = Collect now" "g' = gc now g"
    with gc_keeps [OF assms(1) n(3)] False n(2) show ?thesis by simp
  qed (use n(3) check_keeps [OF assms(1) n(3)] in simp_all)
  with n show ?thesis by (auto simp: settled_def)
qed

lemma settled_not_accepted:
  assumes "invar g" and "receive_step check gc m v e g = (ms, g')" and "settled msg clock g"
    and "clock \<le> unat (event_clock e)"
  shows "msg \<notin> set ms"
proof
  assume "msg \<in> set ms"
  from accepted_shape [OF assms(2) this] obtain now n where e: "e = Receive now msg"
    and n: "sg_replay_nonce msg = Some n" and now: "now < sg_expires_at_unix_ms msg"
    and fresh: "check (sg_signer_id msg) (sg_domain msg) n
       (saturating_add (sg_expires_at_unix_ms msg) CLOCK_SKEW_TOLERANCE_MS) g = (Ok Fresh, g')" by metis
  have "\<not> unat (sg_expires_at_unix_ms msg) \<le> clock"
    using now assms(4) e by (simp add: word_less_nat_alt)
  then have "remembered g (sg_signer_id msg, sg_domain msg, n) \<noteq> None"
    using assms(3) n by (auto simp: settled_def)
  from check_known [OF assms(1) this] fresh show False by (metis fst_conv)
qed

text \<open>Messages whose retention the store keeps exactly.\<close>

definition exact :: "signable \<Rightarrow> bool" where
  "exact msg \<longleftrightarrow> unat (saturating_add (sg_expires_at_unix_ms msg) CLOCK_SKEW_TOLERANCE_MS) < limit"

lemma accepted_settled:
  assumes "invar g" and "receive_step check gc m v e g = (ms, g')" and "msg \<in> set ms" and "exact msg"
  shows "settled msg (unat (event_clock e)) g'"
proof -
  from accepted_shape [OF assms(2,3)] obtain n where n: "sg_replay_nonce msg = Some n"
    and fresh: "check (sg_signer_id msg) (sg_domain msg) n
       (saturating_add (sg_expires_at_unix_ms msg) CLOCK_SKEW_TOLERANCE_MS) g = (Ok Fresh, g')" by metis
  let ?r = "saturating_add (sg_expires_at_unix_ms msg) CLOCK_SKEW_TOLERANCE_MS"
  have "remembered g' (sg_signer_id msg, sg_domain msg, n) = Some (stored ?r)"
    using check_fresh [OF assms(1) fresh] by simp
  moreover have "stored ?r = unat ?r" using assms(4) stored_exact by (simp add: exact_def)
  moreover have "unat (sg_expires_at_unix_ms msg) \<le> unat ?r"
    using saturating_add_ge [of "sg_expires_at_unix_ms msg"] by (simp add: word_le_nat_alt)
  ultimately show ?thesis using n by (auto simp: settled_def)
qed

lemma settled_never_accepted:
  assumes "invar g" and "settled msg clock g" and "sorted (clock # map (\<lambda>x. unat (event_clock x)) es)"
  shows "msg \<notin> set (accepted check gc m v es g)"
  using assms
proof (induction es arbitrary: g clock)
  case Nil
  then show ?case by simp
next
  case (Cons e es)
  obtain ms g' where step: "receive_step check gc m v e g = (ms, g')" by (cases "receive_step check gc m v e g")
  have le: "clock \<le> unat (event_clock e)" and rest: "sorted (unat (event_clock e) # map (\<lambda>x. unat (event_clock x)) es)"
    using Cons.prems(3) by auto
  from Cons.IH [OF step_invar [OF Cons.prems(1) step] settled_step [OF Cons.prems(1) step Cons.prems(2) le] rest]
    settled_not_accepted [OF Cons.prems(1) step Cons.prems(2) le] step
  show ?case by simp
qed

text \<open>Under a clock that does not run backwards, no message is accepted twice.\<close>

lemma accepted_distinct:
  assumes "invar g" and "sorted (map (\<lambda>x. unat (event_clock x)) es)"
    and "\<forall>msg \<in> set (accepted check gc m v es g). exact msg"
  shows "distinct (accepted check gc m v es g)"
  using assms
proof (induction es arbitrary: g)
  case Nil
  then show ?case by simp
next
  case (Cons e es)
  obtain ms g' where step: "receive_step check gc m v e g = (ms, g')" by (cases "receive_step check gc m v e g")
  have inv: "invar g'" by (rule step_invar [OF Cons.prems(1) step])
  have sorted_clock: "sorted (map (\<lambda>x. unat (event_clock x)) (e # es))" and start: "invar g"
    using Cons.prems by simp_all
  have rest: "distinct (accepted check gc m v es g')"
    using Cons.IH [OF inv] Cons.prems step by simp
  show ?case
  proof (cases ms)
    case Nil
    with step rest show ?thesis by simp
  next
    case (Cons msg ms')
    then have "msg \<in> set ms" by simp
    moreover from this have "exact msg" using Cons.prems(3) step by simp
    moreover have single: "ms = [msg]" using accepted_shape [OF step \<open>msg \<in> set ms\<close>] by metis
    ultimately have settled: "settled msg (unat (event_clock e)) g'"
      using accepted_settled [OF start step] by simp
    have "sorted (unat (event_clock e) # map (\<lambda>x. unat (event_clock x)) es)"
      using sorted_clock by simp
    from settled_never_accepted [OF inv settled this]
    have "msg \<notin> set (accepted check gc m v es g')" .
    with step rest single show ?thesis by simp
  qed
qed

text \<open>The same across two guards, the second of which remembers what the first remembered at
  its end (a restart of the process).\<close>

lemma guard_after_invar: "invar g \<Longrightarrow> invar (guard_after check gc m v es g)"
proof (induction es arbitrary: g)
  case (Cons e es)
  from Cons.IH [OF step_invar [OF Cons.prems prod.collapse [symmetric]]] show ?case by simp
qed simp

lemma settled_later: "settled msg c g \<Longrightarrow> c \<le> c' \<Longrightarrow> settled msg c' g"
  by (auto simp: settled_def)

lemma settled_after:
  assumes "invar g" and "settled msg clock g" and "sorted (clock # map (\<lambda>x. unat (event_clock x)) es @ [c])"
  shows "settled msg c (guard_after check gc m v es g)"
  using assms
proof (induction es arbitrary: g clock)
  case Nil
  then show ?case by (simp add: settled_later)
next
  case (Cons e es)
  let ?g = "snd (receive_step check gc m v e g)"
  have step: "receive_step check gc m v e g = (fst (receive_step check gc m v e g), ?g)" by simp
  have "clock \<le> unat (event_clock e)" and "sorted (unat (event_clock e) # map (\<lambda>x. unat (event_clock x)) es @ [c])"
    using Cons.prems(3) by auto
  with Cons.IH [OF step_invar [OF Cons.prems(1) step] settled_step [OF Cons.prems(1) step Cons.prems(2)]]
  show ?case by simp
qed

lemma accepted_settled_after:
  assumes "invar g" and "sorted (map (\<lambda>x. unat (event_clock x)) es @ [c])"
    and "msg \<in> set (accepted check gc m v es g)" and "exact msg"
  shows "settled msg c (guard_after check gc m v es g)"
  using assms
proof (induction es arbitrary: g)
  case (Cons e es)
  obtain ms g' where step: "receive_step check gc m v e g = (ms, g')" by (cases "receive_step check gc m v e g")
  have inv: "invar g'" by (rule step_invar [OF Cons.prems(1) step])
  have sorted: "sorted (unat (event_clock e) # map (\<lambda>x. unat (event_clock x)) es @ [c])"
    using Cons.prems(2) by simp
  show ?case
  proof (cases "msg \<in> set ms")
    case True
    from settled_after [OF inv accepted_settled [OF Cons.prems(1) step this Cons.prems(4)] sorted] step
    show ?thesis by simp
  next
    case False
    then show ?thesis using Cons.IH [OF inv] Cons.prems sorted step by simp
  qed
qed simp

lemma accepted_distinct_restart:
  assumes "invar g" and "invar h" and "remembered h = remembered (guard_after check gc m v es g)"
    and "sorted (map (\<lambda>x. unat (event_clock x)) (es @ fs))"
    and "\<forall>msg \<in> set (accepted check gc m v es g) \<union> set (accepted check gc m v fs h). exact msg"
  shows "distinct (accepted check gc m v es g @ accepted check gc m v fs h)"
proof -
  have s: "sorted (map (\<lambda>x. unat (event_clock x)) es)" "sorted (map (\<lambda>x. unat (event_clock x)) fs)"
    using assms(4) by (simp_all add: sorted_append)
  have "msg \<notin> set (accepted check gc m v fs h)" if "msg \<in> set (accepted check gc m v es g)" for msg
  proof (cases fs)
    case (Cons f fs')
    have before: "sorted (map (\<lambda>x. unat (event_clock x)) es @ [unat (event_clock f)])"
      using assms(4) by (simp add: Cons sorted_append)
    have "exact msg" using assms(5) that by blast
    from accepted_settled_after [OF assms(1) before that this]
    have "settled msg (unat (event_clock f)) h" by (simp add: settled_def assms(3))
    from settled_never_accepted [OF assms(2) this, of fs] s(2) show ?thesis by (simp add: Cons)
  qed simp
  then show ?thesis
    using accepted_distinct [OF assms(1) s(1)] accepted_distinct [OF assms(2) s(2)] assms(5) by auto
qed

end

end
