(* ===== verification/Replay_Guard.thy ===== *)
theory Replay_Guard
  imports Signing Rust_Collections
begin

text \<open>
  The in-memory replay cache, \<open>crates/crypto/src/replay.rs\<close>: \<open>check_and_record\<close> and
  \<open>gc\<close> of \<open>InMemoryReplayGuard\<close>.

  \<open>usize\<close> counts are natural numbers, the two event counters are \<open>u64\<close> words.
  The assertion of \<open>with_capacities\<close> is the result \<open>None\<close>. The main results: the
  per-signer counters are exact and both quotas hold after every history of calls; the guard
  fulfils the contract \<open>replay_guard\<close>, so no message is accepted twice under a clock that
  does not run backwards; one garbage collection forgets at most what expires within
  \<open>MAX_GC_ADVANCE_MS\<close> of the previous one, whatever time it is called with.
\<close>

section \<open>State\<close>

definition DEFAULT_CAPACITY :: usize where "DEFAULT_CAPACITY = 100000"

definition DEFAULT_PER_SIGNER_CAPACITY :: usize where
  "DEFAULT_PER_SIGNER_CAPACITY = DEFAULT_CAPACITY div 10"

definition MAX_GC_ADVANCE_MS :: u64 where "MAX_GC_ADVANCE_MS = 5 * 60 * 1000"

text \<open>\<open>domain as u32\<close>: the position of the variant in the declaration.\<close>

definition domain_as_u32 :: "domain \<Rightarrow> u32" where
  "domain_as_u32 d = of_nat (length (takeWhile (\<lambda>e. e \<noteq> d) ALL_DOMAINS))"

type_synonym seen_key = "str \<times> u32 \<times> bytes"

record in_memory_guard =
  rg_seen :: "(seen_key, u64) hash_map"
  rg_capacity :: usize
  rg_per_signer :: "(str, usize) hash_map"
  rg_per_signer_capacity :: usize
  rg_last_seen_ms :: u64
  rg_clock_rollbacks :: u64
  rg_clock_jumps :: u64

definition with_capacities :: "usize \<Rightarrow> usize \<Rightarrow> in_memory_guard option" where
  "with_capacities capacity per_signer_capacity =
     (if capacity > 0 \<and> per_signer_capacity > 0 then
        Some \<lparr>rg_seen = [], rg_capacity = capacity, rg_per_signer = [],
              rg_per_signer_capacity = per_signer_capacity, rg_last_seen_ms = 0,
              rg_clock_rollbacks = 0, rg_clock_jumps = 0\<rparr>
      else None)"

definition try_with_capacities :: "usize \<Rightarrow> usize \<Rightarrow> (replay_store_error + in_memory_guard) option" where
  "try_with_capacities capacity per_signer_capacity =
     (if capacity = 0 \<or> per_signer_capacity = 0 then Some (Err ReplayIo)
      else map_option Ok (with_capacities capacity per_signer_capacity))"

definition with_capacity :: "usize \<Rightarrow> in_memory_guard option" where
  "with_capacity capacity = with_capacities capacity (max (capacity div 10) 1)"

definition new_guard :: "in_memory_guard option" where
  "new_guard = with_capacity DEFAULT_CAPACITY"

definition signer_usage :: "in_memory_guard \<Rightarrow> str \<Rightarrow> usize" where
  "signer_usage g signer = (case hm_get (rg_per_signer g) signer of Some n \<Rightarrow> n | None \<Rightarrow> 0)"

section \<open>Operations\<close>

text \<open>The loop body of \<open>gc\<close> that gives a signer one slot back.\<close>

definition release_usage :: "str \<Rightarrow> (str, usize) hash_map \<Rightarrow> (str, usize) hash_map" where
  "release_usage signer m =
     (case hm_get m signer of
        Some n \<Rightarrow> (let n' = n - 1 in if n' = 0 then hm_remove signer m else hm_insert signer n' m)
      | None \<Rightarrow> m)"

text \<open>The time a collection works with, and whether it was cut back.\<close>

definition effective_now :: "u64 \<Rightarrow> u64 \<Rightarrow> u64 \<times> bool" where
  "effective_now last_seen now =
     (if last_seen = 0 then (now, False)
      else let bound = saturating_add last_seen MAX_GC_ADVANCE_MS in
        if now > bound then (bound, True) else (now, False))"

definition gc :: "u64 \<Rightarrow> in_memory_guard \<Rightarrow> usize \<times> in_memory_guard" where
  "gc now g =
     (if now < rg_last_seen_ms g then (0, g\<lparr>rg_clock_rollbacks := rg_clock_rollbacks g + 1\<rparr>)
      else
        let (effective, jumped) = effective_now (rg_last_seen_ms g) now;
            before = hm_len (rg_seen g);
            removed = map (\<lambda>(k, _). fst k) (filter (\<lambda>(_, r). \<not> r > effective) (rg_seen g));
            seen = hm_retain (\<lambda>_ r. r > effective) (rg_seen g)
        in (before - hm_len seen,
            g\<lparr>rg_seen := seen,
              rg_per_signer := fold release_usage removed (rg_per_signer g),
              rg_last_seen_ms := effective,
              rg_clock_jumps := (if jumped then rg_clock_jumps g + 1 else rg_clock_jumps g)\<rparr>))"

definition check_and_record :: "in_memory_guard replay_check" where
  "check_and_record signer d nonce retain_until g =
     (if length nonce \<noteq> NONCE_LEN then (Err (InvalidNonce (length nonce)), g)
      else
        let key = (signer, domain_as_u32 d, nonce) in
        if hm_contains_key (rg_seen g) key then (Ok Duplicate, g)
        else
          let used = (case hm_get (rg_per_signer g) signer of Some n \<Rightarrow> n | None \<Rightarrow> 0) in
          if used \<ge> rg_per_signer_capacity g then
            (Err (SignerQuotaExceeded signer (rg_per_signer_capacity g)), g)
          else if hm_len (rg_seen g) \<ge> rg_capacity g then (Err CacheFull, g)
          else
            (Ok Fresh,
             g\<lparr>rg_seen := hm_insert key retain_until (rg_seen g),
               rg_per_signer := hm_insert signer (used + 1) (rg_per_signer g)\<rparr>))"

section \<open>Invariant\<close>

definition entries_of :: "str \<Rightarrow> in_memory_guard \<Rightarrow> nat" where
  "entries_of signer g = length (filter (\<lambda>(k, _). fst k = signer) (rg_seen g))"

definition guard_invar :: "in_memory_guard \<Rightarrow> bool" where
  "guard_invar g \<longleftrightarrow> hm_invar (rg_seen g) \<and> hm_invar (rg_per_signer g) \<and>
     (\<forall>s. signer_usage g s = entries_of s g) \<and> hm_len (rg_seen g) \<le> rg_capacity g \<and>
     (\<forall>s. signer_usage g s \<le> rg_per_signer_capacity g)"

lemma domain_as_u32_distinct: "distinct (map domain_as_u32 ALL_DOMAINS)"
  by (simp add: ALL_DOMAINS_def domain_as_u32_def)

lemma domain_as_u32_inject [simp]: "domain_as_u32 d = domain_as_u32 e \<longleftrightarrow> d = e"
  using domain_as_u32_distinct by (auto simp: distinct_map all_domains inj_eq)

lemma hm_insert_fresh: "hm_get m k = None \<Longrightarrow> hm_insert k v m = m @ [(k, v)]"
  by (induction m) (auto simp: hm_get_def hm_insert_def split: if_splits)

lemma new_guard_invar: "with_capacities c p = Some g \<Longrightarrow> guard_invar g"
  by (auto simp: with_capacities_def guard_invar_def signer_usage_def entries_of_def hm_invar_def
      hm_len_def hm_get_def split: if_splits)

lemma entries_of_retain:
  "entries_of s g = length (filter (\<lambda>(k, _). fst k = s) (hm_retain (\<lambda>_ r. r > t) (rg_seen g)))
     + count_list (map (\<lambda>(k, _). fst k) (filter (\<lambda>(_, r). \<not> r > t) (rg_seen g))) s"
proof -
  have "length (filter (\<lambda>(k, _). fst k = s) xs) =
      length (filter (\<lambda>(k, _). fst k = s) (filter (\<lambda>(_, r). r > t) xs))
      + count_list (map (\<lambda>(k, _). fst k) (filter (\<lambda>(_, r). \<not> r > t) xs)) s" for xs :: "(seen_key, u64) hash_map"
    by (induction xs) auto
  then show ?thesis by (simp add: entries_of_def hm_retain_def)
qed

text \<open>What a counter map says of a signer; releasing a list of signers subtracts exactly.\<close>

abbreviation usage_in :: "(str, usize) hash_map \<Rightarrow> str \<Rightarrow> usize" where
  "usage_in m s \<equiv> (case hm_get m s of Some n \<Rightarrow> n | None \<Rightarrow> 0)"

lemma release_usage_invar: "hm_invar m \<Longrightarrow> hm_invar (release_usage x m)"
  by (simp add: release_usage_def hm_invar_insert hm_invar_remove Let_def split: option.splits)

lemma usage_release: "hm_invar m \<Longrightarrow> usage_in (release_usage x m) s = usage_in m s - (if s = x then 1 else 0)"
  by (auto simp: release_usage_def Let_def hm.get_insert hm.get_remove split: option.splits)

lemma usage_release_all:
  "hm_invar m \<Longrightarrow> hm_invar (fold release_usage xs m) \<and> usage_in (fold release_usage xs m) s = usage_in m s - count_list xs s"
  by (induction xs arbitrary: m) (auto simp: release_usage_invar usage_release)

lemma guard_gc_invar:
  assumes "guard_invar g"
  shows "guard_invar (snd (gc now g))"
proof (cases "now < rg_last_seen_ms g")
  case True
  have "guard_invar (g\<lparr>rg_clock_rollbacks := c\<rparr>) = guard_invar g" for c
    by (simp add: guard_invar_def signer_usage_def entries_of_def)
  with assms True show ?thesis by (simp add: gc_def)
next
  case False
  obtain t j where t: "effective_now (rg_last_seen_ms g) now = (t, j)" by fastforce
  let ?removed = "map (\<lambda>(k, _). fst k) (filter (\<lambda>(_, r). \<not> r > t) (rg_seen g))"
  let ?g = "snd (gc now g)"
  have seen: "rg_seen ?g = hm_retain (\<lambda>_ r. r > t) (rg_seen g)"
    and per: "rg_per_signer ?g = fold release_usage ?removed (rg_per_signer g)"
    and caps: "rg_capacity ?g = rg_capacity g" "rg_per_signer_capacity ?g = rg_per_signer_capacity g"
    using False t by (simp_all add: gc_def Let_def)
  have inv: "hm_invar (rg_seen g)" "hm_invar (rg_per_signer g)" using assms by (simp_all add: guard_invar_def)
  have usage: "signer_usage ?g s = signer_usage g s - count_list ?removed s" for s
    using usage_release_all [OF inv(2), of ?removed s] by (simp add: signer_usage_def per)
  have "signer_usage ?g s = entries_of s ?g" for s
    using assms entries_of_retain [of s g t] by (simp add: usage guard_invar_def entries_of_def seen)
  moreover have "hm_len (rg_seen ?g) \<le> hm_len (rg_seen g)" by (simp add: seen hm_len_def hm_retain_def)
  moreover have "signer_usage ?g s \<le> rg_per_signer_capacity g" for s
    unfolding usage by (rule le_trans [OF diff_le_self]) (use assms [unfolded guard_invar_def] in blast)
  ultimately show ?thesis
    using assms inv usage_release_all [OF inv(2), of ?removed]
    by (auto simp: guard_invar_def caps per seen hm_invar_retain intro: le_trans)
qed

lemma check_and_record_fresh:
  assumes "check_and_record s d n r g = (Ok Fresh, g')"
  shows "hm_get (rg_seen g) (s, domain_as_u32 d, n) = None"
    and "g' = g\<lparr>rg_seen := hm_insert (s, domain_as_u32 d, n) r (rg_seen g),
               rg_per_signer := hm_insert s (signer_usage g s + 1) (rg_per_signer g)\<rparr>"
    and "signer_usage g s < rg_per_signer_capacity g" and "hm_len (rg_seen g) < rg_capacity g"
    and "length n = NONCE_LEN"
  using assms
  by (auto simp: check_and_record_def Let_def hm_contains_key_def signer_usage_def split: if_splits)

lemma check_and_record_other:
  "check_and_record s d n r g = (res, g') \<Longrightarrow> res \<noteq> Ok Fresh \<Longrightarrow> g' = g"
  by (auto simp: check_and_record_def Let_def split: if_splits)

lemma check_and_record_invar:
  assumes "guard_invar g"
  shows "guard_invar (snd (check_and_record s d n r g))"
proof (cases "fst (check_and_record s d n r g) = Ok Fresh")
  case False
  then have "snd (check_and_record s d n r g) = g"
    using check_and_record_other by (metis prod.collapse)
  with assms show ?thesis by simp
next
  case True
  then have eq: "check_and_record s d n r g = (Ok Fresh, snd (check_and_record s d n r g))" by (metis prod.collapse)
  note fresh = check_and_record_fresh [OF eq]
  let ?g = "snd (check_and_record s d n r g)"
  have inv: "hm_invar (rg_seen g)" "hm_invar (rg_per_signer g)" using assms by (simp_all add: guard_invar_def)
  have usage: "signer_usage ?g x = (if x = s then signer_usage g s + 1 else signer_usage g x)" for x
    unfolding fresh(2) signer_usage_def using inv by (simp add: hm.get_insert)
  have "entries_of x ?g = (if x = s then entries_of s g + 1 else entries_of x g)" for x
    unfolding fresh(2) entries_of_def by (simp add: hm_insert_fresh [OF fresh(1)])
  moreover have "hm_len (rg_seen ?g) = Suc (hm_len (rg_seen g))"
    unfolding fresh(2) using hm.len_insert_fresh [OF inv(1) fresh(1)] by simp
  moreover have "hm_invar (rg_seen ?g)" "hm_invar (rg_per_signer ?g)"
    "rg_capacity ?g = rg_capacity g" "rg_per_signer_capacity ?g = rg_per_signer_capacity g"
    unfolding fresh(2) using inv by (simp_all add: hm_invar_insert)
  ultimately show ?thesis
    using assms fresh(3,4) by (auto simp: guard_invar_def usage Suc_le_eq)
qed

section \<open>The guard as a replay guard\<close>

definition remembered_in_memory :: "in_memory_guard \<Rightarrow> replay_key \<Rightarrow> nat option" where
  "remembered_in_memory g k =
     (case k of (s, d, n) \<Rightarrow> map_option unat (hm_get (rg_seen g) (s, domain_as_u32 d, n)))"

lemma effective_now_le:
  "last_seen \<le> now \<Longrightarrow> fst (effective_now last_seen now) \<le> now"
  by (auto simp: effective_now_def Let_def)

lemma remembered_gc:
  assumes "guard_invar g"
  shows "remembered_in_memory (snd (gc now g)) k =
    (case remembered_in_memory g k of
       None \<Rightarrow> None
     | Some t \<Rightarrow> if now < rg_last_seen_ms g \<or> unat (fst (effective_now (rg_last_seen_ms g) now)) < t then Some t else None)"
proof (cases k)
  case (fields s d n)
  have "hm_invar (rg_seen g)" using assms by (simp add: guard_invar_def)
  then show ?thesis
    by (auto simp: fields remembered_in_memory_def gc_def Let_def hm_get_retain word_less_nat_alt
        split: prod.splits option.splits)
qed

interpretation mem: replay_guard check_and_record "\<lambda>now g. snd (gc now g)"
  remembered_in_memory guard_invar unat "2 ^ 64"
proof unfold_locales
  fix g :: in_memory_guard and s d n r g' assume inv: "guard_invar g"
    and eq: "check_and_record s d n r g = (Ok Fresh, g')"
  have "hm_invar (rg_seen g)" using inv by (simp add: guard_invar_def)
  then show "remembered_in_memory g (s, d, n) = None \<and>
      remembered_in_memory g' = (remembered_in_memory g)((s, d, n) \<mapsto> unat r)"
    using check_and_record_fresh(1,2) [OF eq]
    by (auto simp: remembered_in_memory_def hm.get_insert fun_eq_iff)
next
  fix g g' :: in_memory_guard and s d n r res
  assume "check_and_record s d n r g = (res, g')" "res \<noteq> Ok Fresh"
  from check_and_record_other [OF this] show "remembered_in_memory g' = remembered_in_memory g" by simp
next
  fix g :: in_memory_guard and s d n r assume "remembered_in_memory g (s, d, n) \<noteq> None"
  then show "fst (check_and_record s d n r g) \<noteq> Ok Fresh"
    using check_and_record_fresh(1) [of s d n r g] by (auto simp: remembered_in_memory_def) (metis prod.collapse)
next
  fix g :: in_memory_guard and k t and now :: u64
  assume inv: "guard_invar g" and "remembered_in_memory g k = Some t" "unat now < t"
  then show "remembered_in_memory (snd (gc now g)) k = Some t"
    using effective_now_le [of "rg_last_seen_ms g" now]
    by (auto simp: remembered_gc not_less word_le_nat_alt)
next
  fix g :: in_memory_guard and k and now :: u64 assume "guard_invar g"
  then show "remembered_in_memory (snd (gc now g)) k = None \<or>
      remembered_in_memory (snd (gc now g)) k = remembered_in_memory g k"
    by (auto simp: remembered_gc split: option.splits)
qed (use check_and_record_invar guard_gc_invar in simp_all)

section \<open>Properties\<close>

lemma unat_u64_less: "unat (x :: u64) < 2 ^ 64"
  using unsigned_less [of x] by simp

text \<open>A history of calls on one guard.\<close>

datatype guard_call = CheckCall str domain bytes u64 | GcCall u64

fun guard_call_step :: "guard_call \<Rightarrow> in_memory_guard \<Rightarrow> in_memory_guard" where
  "guard_call_step (CheckCall s d n r) g = snd (check_and_record s d n r g)"
| "guard_call_step (GcCall now) g = snd (gc now g)"

lemma guard_call_step_invar: "guard_invar g \<Longrightarrow> guard_invar (guard_call_step c g)"
  by (cases c) (simp_all add: check_and_record_invar guard_gc_invar)

lemma guard_call_step_capacities:
  "rg_capacity (guard_call_step c g) = rg_capacity g \<and>
   rg_per_signer_capacity (guard_call_step c g) = rg_per_signer_capacity g"
  by (cases c) (simp_all add: check_and_record_def gc_def Let_def split: prod.splits)

lemma guard_calls:
  "guard_invar g \<Longrightarrow> guard_invar (fold guard_call_step cs g) \<and>
     rg_capacity (fold guard_call_step cs g) = rg_capacity g \<and>
     rg_per_signer_capacity (fold guard_call_step cs g) = rg_per_signer_capacity g"
  by (induction cs arbitrary: g) (simp_all add: guard_call_step_invar guard_call_step_capacities)

text \<open>
  C36: the quotas of the in-memory replay guard hold after every history of checks and
  garbage collections: the cache holds at most \<open>capacity\<close> entries, no signer holds more than
  \<open>per_signer_capacity\<close>, and the counter the per-signer quota is decided with is exactly the
  number of that signer's entries (collections give back every slot they free, and no other).
\<close>
theorem guard_quotas:
  assumes "with_capacities capacity per_signer = Some g"
  shows "let g' = fold guard_call_step calls g in
    hm_len (rg_seen g') \<le> capacity \<and>
    (\<forall>s. signer_usage g' s = entries_of s g') \<and> (\<forall>s. signer_usage g' s \<le> per_signer)"
  using guard_calls [OF new_guard_invar [OF assms], of calls] assms
  by (auto simp: Let_def guard_invar_def with_capacities_def split: if_splits)

definition example_guard :: in_memory_guard where
  "example_guard = \<lparr>rg_seen = [], rg_capacity = 3, rg_per_signer = [], rg_per_signer_capacity = 1,
     rg_last_seen_ms = 0, rg_clock_rollbacks = 0, rg_clock_jumps = 0\<rparr>"

definition example_nonce :: bytes where "example_nonce = replicate 16 7"

lemma guard_quotas_witness:
  "with_capacities 3 1 = Some example_guard \<and>
   (let g' = fold guard_call_step [CheckCall (lit ''a'') DomGrant example_nonce 20, GcCall 30] example_guard in
    hm_len (rg_seen g') \<le> 3 \<and>
    (\<forall>s. signer_usage g' s = entries_of s g') \<and> (\<forall>s. signer_usage g' s \<le> 1))"
proof -
  have "with_capacities 3 1 = Some example_guard" by (simp add: with_capacities_def example_guard_def)
  from this guard_quotas [OF this] show ?thesis by blast
qed

text \<open>
  replay protection. A receiver that verifies its messages against the in-memory guard
  and collects garbage at any time accepts every message at most once, as long as the clock it
  reads does not run backwards: acceptance needs an unexpired message, and an entry outlives the
  expiry of its message.
\<close>
theorem in_memory_guard_accepts_once:
  assumes "with_capacities capacity per_signer = Some g"
    and "sorted (map (\<lambda>e. unat (event_clock e)) es)"
  shows "distinct (accepted check_and_record (\<lambda>now g. snd (gc now g)) max_supported verifier es g)"
proof (rule mem.accepted_distinct [OF new_guard_invar [OF assms(1)] assms(2)], rule ballI)
  fix msg show "mem.exact msg"
    unfolding mem.exact_def by (rule unat_u64_less)
qed

definition example_message :: signable where
  "example_message = \<lparr>sg_domain = DomGrant, sg_lifetime = ShortLived, sg_schema_version = 4,
     sg_canonical_fields = [], sg_signature_bytes = [], sg_expires_at_unix_ms = 5000,
     sg_issued_at_unix_ms = 1000, sg_signer_id = lit ''a'', sg_derived_consistency = Ok (),
     sg_replay_nonce = Some example_nonce\<rparr>"

lemma in_memory_guard_accepts_once_witness:
  "with_capacities 3 1 = Some example_guard \<and>
   sorted (map (\<lambda>e. unat (event_clock e)) [Receive 1000 example_message, Collect 2000, Receive 3000 example_message]) \<and>
   distinct (accepted check_and_record (\<lambda>now g. snd (gc now g)) 4 (\<lambda>_ _ _. Ok ())
     [Receive 1000 example_message, Collect 2000, Receive 3000 example_message] example_guard)"
proof -
  have "with_capacities 3 1 = Some example_guard" by (simp add: with_capacities_def example_guard_def)
  moreover have "sorted (map (\<lambda>e. unat (event_clock e))
      [Receive 1000 example_message, Collect 2000, Receive 3000 example_message])" by simp
  ultimately show ?thesis using in_memory_guard_accepts_once by blast
qed

text \<open>
  A garbage collection forgets an entry exactly when the clock it is given has not run
  backwards, has reached the entry's retention, and (from the second collection on) the retention
  lies within five minutes of the previous collection, so that one wrong reading of the clock
  cannot empty the cache.
\<close>
theorem gc_forgets_iff:
  assumes "guard_invar g" and "remembered_in_memory g k = Some t"
  shows "remembered_in_memory (snd (gc now g)) k =
    (if rg_last_seen_ms g \<le> now \<and> t \<le> unat now \<and>
        (rg_last_seen_ms g = 0 \<or> t \<le> unat (rg_last_seen_ms g) + 300000)
     then None else Some t)"
proof -
  have "t < 2 ^ 64"
    using assms(2) unat_u64_less
    by (auto simp: remembered_in_memory_def split: prod.splits)
  moreover have "unat MAX_GC_ADVANCE_MS = 300000" by (simp add: MAX_GC_ADVANCE_MS_def)
  ultimately show ?thesis
    using unat_saturating_add [of "rg_last_seen_ms g" MAX_GC_ADVANCE_MS]
    by (auto simp: remembered_gc [OF assms(1)] assms(2) effective_now_def Let_def word_less_nat_alt
        word_le_nat_alt)
qed

lemma gc_forgets_iff_witness:
  "(let g = snd (check_and_record (lit ''a'') DomGrant example_nonce 900000 (snd (gc 1000 example_guard))) in
      guard_invar g \<and> remembered_in_memory g (lit ''a'', DomGrant, example_nonce) = Some 900000 \<and>
      remembered_in_memory (snd (gc 1000000 g)) (lit ''a'', DomGrant, example_nonce) =
        (if rg_last_seen_ms g \<le> 1000000 \<and> 900000 \<le> unat (1000000 :: u64) \<and>
            (rg_last_seen_ms g = 0 \<or> 900000 \<le> unat (rg_last_seen_ms g) + 300000)
         then None else Some 900000))"
proof -
  let ?g = "snd (check_and_record (lit ''a'') DomGrant example_nonce 900000 (snd (gc 1000 example_guard)))"
  have "with_capacities 3 1 = Some example_guard" by (simp add: with_capacities_def example_guard_def)
  then have inv: "guard_invar ?g" by (intro check_and_record_invar guard_gc_invar new_guard_invar)
  have mem: "remembered_in_memory ?g (lit ''a'', DomGrant, example_nonce) = Some 900000"
    by (simp add: check_and_record_def gc_def example_guard_def example_nonce_def NONCE_LEN_def
        effective_now_def hm_retain_def hm_contains_key_def hm_get_def hm_len_def hm_insert_def
        remembered_in_memory_def Let_def)
  from inv mem gc_forgets_iff [OF inv mem, of 1000000] show ?thesis unfolding Let_def by blast
qed

end
