(* ===== verification/Durable_Replay.thy ===== *)
theory Durable_Replay
  imports Replay_Guard Sql_Tx
begin

text \<open>
  The SQLite replay store, \<open>crates/crypto/src/durable_replay.rs\<close>.

  The two tables are association lists keyed by their primary keys, \<open>INTEGER\<close> columns are
  integers, and each SQL statement is the table operation it denotes, run under the
  transactions of \<open>Sql_Tx\<close>. The message texts and \<open>journal_mode\<close> pragmas have no counterpart. The counters
  of \<open>increment_meta\<close> are unbounded (SQLite leaves the integer range after $2^{63}$ increments).
\<close>

section \<open>Tables and statements\<close>

definition META_LAST_SEEN_MS :: string where "META_LAST_SEEN_MS = ''last_seen_ms''"
definition META_CLOCK_ROLLBACKS :: string where "META_CLOCK_ROLLBACKS = ''clock_rollbacks''"
definition META_CLOCK_JUMPS :: string where "META_CLOCK_JUMPS = ''clock_jumps''"

type_synonym entry_key = "str \<times> string \<times> bytes"

definition replay_map_sql_error :: "sql_error \<Rightarrow> replay_store_error" where
  "replay_map_sql_error e = (case e of SqliteBusyOrLocked \<Rightarrow> ReplayLockTimeout | SqliteOther \<Rightarrow> ReplayIo)"

record replay_db = sql_conn +
  db_entries :: "(entry_key, int) hash_map"
  db_meta :: "(string, int) hash_map"

type_synonym 'a replay_tx = "replay_db \<Rightarrow> (replay_store_error + 'a) \<times> replay_db"

definition i64_max :: int where "i64_max = 2 ^ 63 - 1"

definition to_sql_i64 :: "u64 \<Rightarrow> replay_store_error + int" where
  "to_sql_i64 value = (if uint value \<le> i64_max then Ok (uint value) else Err ReplayIo)"

definition from_sql_i64 :: "int \<Rightarrow> replay_store_error + u64" where
  "from_sql_i64 value = (if 0 \<le> value then Ok (of_int value) else Err ReplayIo)"

definition count_to_usize :: "int \<Rightarrow> replay_store_error + usize" where
  "count_to_usize value = (if 0 \<le> value then Ok (nat value) else Err ReplayIo)"

text \<open>\<open>i64::try_from(value).unwrap_or(i64::MAX)\<close>.\<close>

definition clamp_i64 :: "u64 \<Rightarrow> int" where
  "clamp_i64 value = (if uint value \<le> i64_max then uint value else i64_max)"

definition read_meta :: "string \<Rightarrow> u64 replay_tx" where
  "read_meta key =
     tx_bind (statement replay_map_sql_error (\<lambda>db. (hm_get (db_meta db) key, db))) (\<lambda>row.
       case row of None \<Rightarrow> tx_fail ReplayIo | Some value \<Rightarrow> lift_result (from_sql_i64 value))"

definition update_meta :: "string \<Rightarrow> (int \<Rightarrow> int) \<Rightarrow> usize replay_tx" where
  "update_meta key f = statement replay_map_sql_error (\<lambda>db.
     case hm_get (db_meta db) key of
       None \<Rightarrow> (0, db)
     | Some value \<Rightarrow> (1, db\<lparr>db_meta := hm_insert key (f value) (db_meta db)\<rparr>))"

definition write_meta :: "string \<Rightarrow> u64 \<Rightarrow> unit replay_tx" where
  "write_meta key value =
     tx_bind (lift_result (to_sql_i64 value)) (\<lambda>v.
     tx_bind (update_meta key (\<lambda>_. v)) (\<lambda>changed.
       if changed \<noteq> 1 then tx_fail ReplayIo else tx_return ()))"

definition increment_meta :: "string \<Rightarrow> unit replay_tx" where
  "increment_meta key =
     tx_bind (update_meta key (\<lambda>v. v + 1)) (\<lambda>changed.
       if changed \<noteq> 1 then tx_fail ReplayIo else tx_return ())"

section \<open>The guard\<close>

record durable_guard =
  dg_connection :: replay_db
  dg_capacity :: usize
  dg_per_signer_capacity :: usize

text \<open>\<open>CREATE TABLE IF NOT EXISTS\<close> and \<open>INSERT OR IGNORE\<close>: an existing row is kept.\<close>

definition insert_or_ignore :: "string \<Rightarrow> int \<Rightarrow> (string, int) hash_map \<Rightarrow> (string, int) hash_map" where
  "insert_or_ignore key v m = (if hm_contains_key m key then m else hm_insert key v m)"

definition open_with_capacities ::
    "replay_db \<Rightarrow> usize \<Rightarrow> usize \<Rightarrow> replay_store_error + durable_guard" where
  "open_with_capacities db capacity per_signer_capacity =
     (if capacity = 0 then Err ReplayIo
      else if per_signer_capacity = 0 then Err ReplayIo
      else
        (let setup = tx_bind (statement replay_map_sql_error (\<lambda>db. ((), db))) (\<lambda>_.
               tx_bind (statement replay_map_sql_error (\<lambda>db. ((), db))) (\<lambda>_.
                 statement replay_map_sql_error (\<lambda>db. ((), db\<lparr>db_meta :=
                   insert_or_ignore META_CLOCK_JUMPS 0
                     (insert_or_ignore META_CLOCK_ROLLBACKS 0
                       (insert_or_ignore META_LAST_SEEN_MS 0 (db_meta db)))\<rparr>))))
         in case setup db of
              (Inl e, _) \<Rightarrow> Err e
            | (Inr _, db') \<Rightarrow> Ok \<lparr>dg_connection = db', dg_capacity = capacity,
                                 dg_per_signer_capacity = per_signer_capacity\<rparr>))"

definition count_entries :: "(entry_key \<Rightarrow> bool) \<Rightarrow> usize replay_tx" where
  "count_entries which =
     tx_bind (statement replay_map_sql_error (\<lambda>db. (int (length (filter (\<lambda>(k, _). which k) (db_entries db))), db))) (\<lambda>n.
       lift_result (count_to_usize n))"

text \<open>The body of the transaction of \<open>check_and_record\<close>.\<close>

definition record_nonce ::
    "usize \<Rightarrow> usize \<Rightarrow> str \<Rightarrow> string \<Rightarrow> bytes \<Rightarrow> int \<Rightarrow> replay_decision replay_tx" where
  "record_nonce capacity per_signer_capacity signer domain_tag nonce retain_until =
     tx_bind (statement replay_map_sql_error (\<lambda>db. (hm_contains_key (db_entries db) (signer, domain_tag, nonce), db))) (\<lambda>duplicate.
     if duplicate then tx_return Duplicate
     else
       tx_bind (count_entries (\<lambda>k. fst k = signer)) (\<lambda>signer_count.
       if signer_count \<ge> per_signer_capacity then
         tx_fail (SignerQuotaExceeded signer per_signer_capacity)
       else
         tx_bind (count_entries (\<lambda>_. True)) (\<lambda>total_count.
         if total_count \<ge> capacity then tx_fail CacheFull
         else
           tx_bind (statement replay_map_sql_error (\<lambda>db. ((), db\<lparr>db_entries :=
               hm_insert (signer, domain_tag, nonce) retain_until (db_entries db)\<rparr>))) (\<lambda>_.
             tx_return Fresh))))"

definition on_connection :: "'a replay_tx \<Rightarrow> durable_guard \<Rightarrow> (replay_store_error + 'a) \<times> durable_guard" where
  "on_connection m g = (case m (dg_connection g) of (r, db) \<Rightarrow> (r, g\<lparr>dg_connection := db\<rparr>))"

definition check_and_record_durable :: "durable_guard replay_check" where
  "check_and_record_durable signer d nonce retain_until g =
     (if length nonce \<noteq> NONCE_LEN then (Err (InvalidNonce (length nonce)), g)
      else on_connection (in_transaction replay_map_sql_error
        (record_nonce (dg_capacity g) (dg_per_signer_capacity g) signer (domain_as_str d) nonce
          (clamp_i64 retain_until))) g)"

text \<open>The parts of the transaction of \<open>gc\<close>: the time it works with, the deletion, the body.\<close>

definition advance_clock :: "u64 \<Rightarrow> u64 \<Rightarrow> u64 replay_tx" where
  "advance_clock last_seen now =
     (if last_seen = 0 then tx_return now
      else let bound = saturating_add last_seen MAX_GC_ADVANCE_MS in
        if now > bound then tx_bind (increment_meta META_CLOCK_JUMPS) (\<lambda>_. tx_return bound)
        else tx_return now)"

definition delete_expired :: "u64 \<Rightarrow> usize replay_tx" where
  "delete_expired effective = statement replay_map_sql_error (\<lambda>db.
     let kept = hm_retain (\<lambda>_ r. \<not> r \<le> clamp_i64 effective) (db_entries db)
     in (hm_len (db_entries db) - hm_len kept, db\<lparr>db_entries := kept\<rparr>))"

definition collect_entries :: "u64 \<Rightarrow> usize replay_tx" where
  "collect_entries now =
     tx_bind (read_meta META_LAST_SEEN_MS) (\<lambda>last_seen.
     if now < last_seen then
       tx_bind (increment_meta META_CLOCK_ROLLBACKS) (\<lambda>_. tx_return 0)
     else
       tx_bind (advance_clock last_seen now) (\<lambda>effective.
       tx_bind (delete_expired effective) (\<lambda>removed.
       tx_bind (write_meta META_LAST_SEEN_MS effective) (\<lambda>_.
         tx_return removed))))"

definition gc_durable :: "u64 \<Rightarrow> durable_guard \<Rightarrow> (replay_store_error + usize) \<times> durable_guard" where
  "gc_durable now = on_connection (in_transaction replay_map_sql_error (collect_entries now))"

definition is_durable_path :: "string option \<Rightarrow> bool" where
  "is_durable_path path = (case path of Some p \<Rightarrow> p \<noteq> '''' \<and> p \<noteq> '':memory:'' | None \<Rightarrow> False)"

text \<open>The read-only queries.\<close>

definition entry_count :: "durable_guard \<Rightarrow> (replay_store_error + usize) \<times> durable_guard" where
  "entry_count = on_connection (count_entries (\<lambda>_. True))"

definition signer_usage_durable :: "str \<Rightarrow> durable_guard \<Rightarrow> (replay_store_error + usize) \<times> durable_guard" where
  "signer_usage_durable signer = on_connection (count_entries (\<lambda>k. fst k = signer))"

definition last_seen_ms_durable :: "durable_guard \<Rightarrow> (replay_store_error + u64) \<times> durable_guard" where
  "last_seen_ms_durable = on_connection (read_meta META_LAST_SEEN_MS)"

definition clock_rollbacks_durable :: "durable_guard \<Rightarrow> (replay_store_error + u64) \<times> durable_guard" where
  "clock_rollbacks_durable = on_connection (read_meta META_CLOCK_ROLLBACKS)"

definition clock_jumps_durable :: "durable_guard \<Rightarrow> (replay_store_error + u64) \<times> durable_guard" where
  "clock_jumps_durable = on_connection (read_meta META_CLOCK_JUMPS)"

section \<open>Successful runs\<close>

lemma record_nonce_Ok:
  assumes "record_nonce c p s tag n r db = (Inr res, db')"
  shows "res = Duplicate \<and> db_entries db' = db_entries db \<or>
    res = Fresh \<and> hm_get (db_entries db) (s, tag, n) = None \<and>
    db_entries db' = hm_insert (s, tag, n) r (db_entries db)"
  using assms
  by (auto simp: record_nonce_def tx_ok count_entries_def hm_contains_key_def split: if_splits)

lemma read_meta_Ok: "read_meta k db = (Inr v, db') \<Longrightarrow> db_entries db' = db_entries db"
  by (auto simp: read_meta_def tx_ok split: option.splits)

lemma update_meta_Ok: "update_meta k f db = (Inr v, db') \<Longrightarrow> db_entries db' = db_entries db"
  by (auto simp: update_meta_def tx_ok split: option.splits)

lemma increment_meta_Ok: "increment_meta k db = (Inr v, db') \<Longrightarrow> db_entries db' = db_entries db"
  by (auto simp: increment_meta_def tx_ok split: if_splits dest: update_meta_Ok)

lemma write_meta_Ok:
  "write_meta k v db = (Inr u, db') \<Longrightarrow> db_entries db' = db_entries db \<and> uint v \<le> i64_max"
  by (auto simp: write_meta_def tx_ok to_sql_i64_def split: if_splits dest: update_meta_Ok)

lemma advance_clock_Ok:
  "advance_clock last_seen now db = (Inr effective, db') \<Longrightarrow> effective \<le> now \<and> db_entries db' = db_entries db"
  by (auto simp: advance_clock_def tx_ok Let_def split: if_splits dest: increment_meta_Ok)

lemma delete_expired_Ok:
  "delete_expired effective db = (Inr n, db') \<Longrightarrow>
     db_entries db' = hm_retain (\<lambda>_ r. \<not> r \<le> clamp_i64 effective) (db_entries db)"
  by (auto simp: delete_expired_def tx_ok Let_def)

lemma collect_entries_Ok:
  assumes "collect_entries now db = (Inr removed, db')"
  shows "db_entries db' = db_entries db \<or>
    (\<exists>effective \<le> now. uint effective \<le> i64_max \<and>
       db_entries db' = hm_retain (\<lambda>_ r. \<not> r \<le> uint effective) (db_entries db))"
proof -
  from assms obtain last_seen db1 where r: "read_meta META_LAST_SEEN_MS db = (Inr last_seen, db1)"
    by (auto simp: collect_entries_def tx_ok)
  show ?thesis
  proof (cases "now < last_seen")
    case True
    then have "increment_meta META_CLOCK_ROLLBACKS db1 = (Inr (), db')"
      using assms r by (auto simp: collect_entries_def tx_ok)
    with increment_meta_Ok read_meta_Ok [OF r] show ?thesis by metis
  next
    case False
    with assms r obtain effective db2 db3 where
      a: "advance_clock last_seen now db1 = (Inr effective, db2)"
      and d: "delete_expired effective db2 = (Inr removed, db3)"
      and w: "write_meta META_LAST_SEEN_MS effective db3 = (Inr (), db')"
      by (auto simp: collect_entries_def tx_ok)
    from advance_clock_Ok [OF a] delete_expired_Ok [OF d] write_meta_Ok [OF w] read_meta_Ok [OF r]
    show ?thesis by (auto simp: clamp_i64_def)
  qed
qed

section \<open>The durable guard as a replay guard\<close>

definition remembered_durable :: "durable_guard \<Rightarrow> replay_key \<Rightarrow> nat option" where
  "remembered_durable g k =
     (case k of (s, d, n) \<Rightarrow> map_option nat (hm_get (db_entries (dg_connection g)) (s, domain_as_str d, n)))"

definition durable_invar :: "durable_guard \<Rightarrow> bool" where
  "durable_invar g \<longleftrightarrow> hm_invar (db_entries (dg_connection g)) \<and>
     (\<forall>k r. hm_get (db_entries (dg_connection g)) k = Some r \<longrightarrow> 0 \<le> r)"

lemma check_and_record_durable_entries:
  assumes "check_and_record_durable s d n r g = (res, g')"
  shows "res = Ok Fresh \<and> hm_get (db_entries (dg_connection g)) (s, domain_as_str d, n) = None \<and>
      db_entries (dg_connection g') =
        hm_insert (s, domain_as_str d, n) (clamp_i64 r) (db_entries (dg_connection g)) \<or>
    res \<noteq> Ok Fresh \<and> db_entries (dg_connection g') = db_entries (dg_connection g)"
proof (cases "length n \<noteq> NONCE_LEN")
  case True
  with assms show ?thesis by (auto simp: check_and_record_durable_def)
next
  case False
  let ?body = "record_nonce (dg_capacity g) (dg_per_signer_capacity g) s (domain_as_str d) n (clamp_i64 r)"
  obtain db where db: "in_transaction replay_map_sql_error ?body (dg_connection g) = (res, db)" "g' = g\<lparr>dg_connection := db\<rparr>"
    using assms False by (auto simp: check_and_record_durable_def on_connection_def split: prod.splits)
  show ?thesis
  proof (cases res)
    case (Inl e)
    with in_transaction_Err [OF db(1) [unfolded Inl]] db(2) show ?thesis by auto
  next
    case (Inr x)
    from in_transaction_Ok [OF db(1) [unfolded Inr]] obtain t db1 t' where
      body: "?body ((dg_connection g)\<lparr>db_tape := t\<rparr>) = (Inr x, db1)" and "db = db1\<lparr>db_tape := t'\<rparr>" by metis
    with record_nonce_Ok [OF body] db(2) Inr show ?thesis by auto
  qed
qed

lemma gc_durable_entries:
  "db_entries (dg_connection (snd (gc_durable now g))) = db_entries (dg_connection g) \<or>
    (\<exists>effective \<le> now. uint effective \<le> i64_max \<and> db_entries (dg_connection (snd (gc_durable now g))) =
       hm_retain (\<lambda>_ r. \<not> r \<le> uint effective) (db_entries (dg_connection g)))"
proof -
  obtain res db where db: "in_transaction replay_map_sql_error (collect_entries now) (dg_connection g) = (res, db)" by fastforce
  then have conn: "dg_connection (snd (gc_durable now g)) = db" by (simp add: gc_durable_def on_connection_def)
  show ?thesis
  proof (cases res)
    case (Inl e)
    with in_transaction_Err [OF db [unfolded Inl]] show ?thesis by (auto simp: conn)
  next
    case (Inr x)
    from in_transaction_Ok [OF db [unfolded Inr]] obtain t db1 t' where
      body: "collect_entries now ((dg_connection g)\<lparr>db_tape := t\<rparr>) = (Inr x, db1)"
      and "db = db1\<lparr>db_tape := t'\<rparr>" by metis
    with collect_entries_Ok [OF body] show ?thesis by (simp add: conn)
  qed
qed

lemma clamp_i64_nonneg: "0 \<le> clamp_i64 r"
  by (simp add: clamp_i64_def i64_max_def)

lemma check_and_record_durable_invar:
  assumes "durable_invar g"
  shows "durable_invar (snd (check_and_record_durable s d n r g))"
  using assms check_and_record_durable_entries [OF prod.collapse [symmetric], of s d n r g]
  by (auto simp: durable_invar_def hm_invar_insert hm.get_insert clamp_i64_nonneg split: if_splits)

lemma gc_durable_invar:
  assumes "durable_invar g"
  shows "durable_invar (snd (gc_durable now g))"
  using assms gc_durable_entries [of now g]
  by (auto simp: durable_invar_def hm_invar_retain hm_get_retain split: option.splits if_splits)

lemma clamp_i64_exact:
  assumes "unat r < 2 ^ 63"
  shows "clamp_i64 r = int (unat r)"
proof -
  have "int (unat r) < int (2 ^ 63)" using assms by (simp only: of_nat_less_iff)
  then have "uint r \<le> i64_max" by (simp add: i64_max_def)
  then show ?thesis by (simp add: clamp_i64_def)
qed

definition stored_retention :: "u64 \<Rightarrow> nat" where
  "stored_retention r = nat (clamp_i64 r)"

interpretation dur: replay_guard check_and_record_durable "\<lambda>now g. snd (gc_durable now g)"
  remembered_durable durable_invar stored_retention "2 ^ 63"
proof unfold_locales
  fix g g' :: durable_guard and s d n r assume inv: "durable_invar g"
    and eq: "check_and_record_durable s d n r g = (Ok Fresh, g')"
  have "hm_invar (db_entries (dg_connection g))" using inv by (simp add: durable_invar_def)
  then show "remembered_durable g (s, d, n) = None \<and>
      remembered_durable g' = (remembered_durable g)((s, d, n) \<mapsto> stored_retention r)"
    using check_and_record_durable_entries [OF eq] inj_domain_as_str
    by (auto simp: remembered_durable_def hm.get_insert fun_eq_iff stored_retention_def inj_eq)
next
  fix g g' :: durable_guard and s d n r res
  assume "check_and_record_durable s d n r g = (res, g')" "res \<noteq> Ok Fresh"
  with check_and_record_durable_entries [OF this(1)]
  show "remembered_durable g' = remembered_durable g" by (simp add: remembered_durable_def fun_eq_iff)
next
  fix g :: durable_guard and s d n r assume "remembered_durable g (s, d, n) \<noteq> None"
  then show "fst (check_and_record_durable s d n r g) \<noteq> Ok Fresh"
    using check_and_record_durable_entries [OF prod.collapse [symmetric], of s d n r g]
    by (auto simp: remembered_durable_def)
next
  fix g :: durable_guard and k t and now :: u64
  assume inv: "durable_invar g" and mem: "remembered_durable g k = Some t" and later: "unat now < t"
  have old: "\<not> r \<le> uint effective" if "t = nat r" "effective \<le> now" for r and effective :: u64
  proof -
    have "uint effective \<le> uint now" using that(2) by (simp add: word_le_def)
    moreover have "int (unat now) < r" using later that(1) by linarith
    then have "uint now < r" by simp
    ultimately show ?thesis by simp
  qed
  obtain s d n where k: "k = (s, d, n)" by (cases k)
  obtain r where r: "hm_get (db_entries (dg_connection g)) (s, domain_as_str d, n) = Some r" "t = nat r"
    using mem by (auto simp: k remembered_durable_def)
  have "hm_invar (db_entries (dg_connection g))" using inv by (simp add: durable_invar_def)
  then have "hm_get (db_entries (dg_connection (snd (gc_durable now g)))) (s, domain_as_str d, n) = Some r"
    using gc_durable_entries [of now g] r(1) old [OF r(2)] by (auto simp: hm_get_retain)
  with r(2) show "remembered_durable (snd (gc_durable now g)) k = Some t"
    by (simp add: k remembered_durable_def)
next
  fix g :: durable_guard and k and now :: u64 assume inv: "durable_invar g"
  then show "remembered_durable (snd (gc_durable now g)) k = None \<or>
      remembered_durable (snd (gc_durable now g)) k = remembered_durable g k"
    using gc_durable_entries [of now g]
    by (auto simp: remembered_durable_def durable_invar_def hm_get_retain split: prod.splits option.splits)
next
  fix r :: u64 assume "unat r < 2 ^ 63"
  then show "stored_retention r = unat r"
    using clamp_i64_exact [of r] by (simp add: stored_retention_def)
qed (use check_and_record_durable_invar gc_durable_invar in simp_all)

section \<open>Opening the store\<close>

lemma open_with_capacities_entries:
  "open_with_capacities db c p = Inr g \<Longrightarrow> db_entries (dg_connection g) = db_entries db"
  by (auto simp: open_with_capacities_def tx_ok split: if_splits sum.splits prod.splits)

definition well_stored :: "replay_db \<Rightarrow> bool" where
  "well_stored db \<longleftrightarrow> hm_invar (db_entries db) \<and> (\<forall>(k, r) \<in> set (db_entries db). 0 \<le> r)"

lemma open_durable_invar:
  assumes "open_with_capacities db c p = Inr g" and "well_stored db"
  shows "durable_invar g"
  using assms(2) open_with_capacities_entries [OF assms(1)]
  by (auto simp: durable_invar_def well_stored_def hm_get_def dest: map_of_SomeD)

section \<open>Properties\<close>

lemma open_remembered:
  "open_with_capacities (dg_connection g) c p = Inr h \<Longrightarrow> remembered_durable h = remembered_durable g"
  using open_with_capacities_entries by (fastforce simp: remembered_durable_def fun_eq_iff)

text \<open>Messages whose retention fits the signed column of the store.\<close>

definition retention_fits :: "event \<Rightarrow> bool" where
  "retention_fits e = (case e of
     Receive _ msg \<Rightarrow> unat (saturating_add (sg_expires_at_unix_ms msg) CLOCK_SKEW_TOLERANCE_MS) < 2 ^ 63
   | Collect _ \<Rightarrow> True)"

lemma accepted_received: "msg \<in> set (accepted check collect m v es g) \<Longrightarrow> \<exists>now. Receive now msg \<in> set es"
proof (induction es arbitrary: g)
  case (Cons e es)
  obtain ms g' where step: "receive_step check collect m v e g = (ms, g')" by fastforce
  have "\<exists>now. e = Receive now msg" if "msg \<in> set ms"
    using step that
    by (auto simp: receive_step_def verify_def split: event.splits prod.splits sum.splits if_splits)
  with Cons step show ?case by fastforce
qed simp

lemma accepted_exact:
  assumes "list_all retention_fits es" and "msg \<in> set (accepted check collect m v es g)"
  shows "dur.exact msg"
proof -
  from accepted_received [OF assms(2)] obtain now where "Receive now msg \<in> set es" by blast
  with assms(1) have "retention_fits (Receive now msg)" by (simp add: list_all_iff)
  then show ?thesis unfolding dur.exact_def by (simp add: retention_fits_def)
qed

text \<open>
  C34: replay protection across a restart. A receiver runs on the SQLite store, the process
  ends after the history \<open>es\<close>, the file is opened again (possibly with other quotas) and the
  receiver continues with \<open>fs\<close>. Whatever SQL statements fail in between, no message is
  accepted twice as long as the clock does not run backwards and the retentions fit the
  store's signed column.
\<close>
theorem durable_guard_accepts_once_across_restart:
  assumes "well_stored db" and "open_with_capacities db c p = Ok g"
    and "open_with_capacities
      (dg_connection (guard_after check_and_record_durable (\<lambda>now g. snd (gc_durable now g)) m v es g)) c' p' = Ok h"
    and "sorted (map (\<lambda>e. unat (event_clock e)) (es @ fs))" and "list_all retention_fits (es @ fs)"
  shows "distinct (accepted check_and_record_durable (\<lambda>now g. snd (gc_durable now g)) m v es g @
                   accepted check_and_record_durable (\<lambda>now g. snd (gc_durable now g)) m v fs h)"
proof (rule dur.accepted_distinct_restart [OF _ _ open_remembered [OF assms(3)] assms(4)])
  show inv: "durable_invar g" by (rule open_durable_invar [OF assms(2,1)])
  have "durable_invar (guard_after check_and_record_durable (\<lambda>now g. snd (gc_durable now g)) m v es g)"
    by (rule dur.guard_after_invar [OF inv])
  then show "durable_invar h"
    using open_with_capacities_entries [OF assms(3)] by (simp add: durable_invar_def)
  show "\<forall>msg \<in> set (accepted check_and_record_durable (\<lambda>now g. snd (gc_durable now g)) m v es g) \<union>
      set (accepted check_and_record_durable (\<lambda>now g. snd (gc_durable now g)) m v fs h). dur.exact msg"
    using assms(5) unfolding list_all_append by (blast intro: accepted_exact)
qed

definition example_db :: replay_db where
  "example_db = \<lparr>db_tape = [], db_entries = [], db_meta = []\<rparr>"

definition example_durable :: durable_guard where
  "example_durable = \<lparr>dg_connection = \<lparr>db_tape = [], db_entries = [],
     db_meta = [(META_LAST_SEEN_MS, 0), (META_CLOCK_ROLLBACKS, 0), (META_CLOCK_JUMPS, 0)]\<rparr>, dg_capacity = 3, dg_per_signer_capacity = 1\<rparr>"

lemma open_example: "open_with_capacities example_db 3 1 = Ok example_durable"
  by (simp add: open_with_capacities_def example_db_def example_durable_def statement_def statement_result_def tx_bind_def Let_def
      insert_or_ignore_def hm_contains_key_def hm_get_def hm_insert_def META_CLOCK_JUMPS_def
      META_CLOCK_ROLLBACKS_def META_LAST_SEEN_MS_def)

section \<open>The two guards give the same answers\<close>

text \<open>Runs without a failing statement.\<close>

lemma record_nonce_no_fault:
  assumes "db_tape db = []"
  shows "record_nonce c p s tag n r db =
    (if hm_contains_key (db_entries db) (s, tag, n) then (Ok Duplicate, db)
     else if length (filter (\<lambda>(k, _). fst k = s) (db_entries db)) \<ge> p then (Err (SignerQuotaExceeded s p), db)
     else if hm_len (db_entries db) \<ge> c then (Err CacheFull, db)
     else (Ok Fresh, db\<lparr>db_entries := hm_insert (s, tag, n) r (db_entries db)\<rparr>))"
  using assms
  by (simp add: record_nonce_def tx_bind_def statement_no_fault tx_return_def tx_fail_def count_entries_def
      lift_result_def count_to_usize_def hm_len_def case_prod_unfold)

definition guards_agree :: "in_memory_guard \<Rightarrow> durable_guard \<Rightarrow> bool" where
  "guards_agree g h \<longleftrightarrow>
     guard_invar g \<and> rg_capacity g = dg_capacity h \<and> rg_per_signer_capacity g = dg_per_signer_capacity h \<and>
     db_tape (dg_connection h) = [] \<and>
     list_all2 (\<lambda>((s, c, n), r) ((s', tag, n'), v). s' = s \<and> n' = n \<and> v = uint r \<and>
         (\<exists>d. c = domain_as_u32 d \<and> tag = domain_as_str d))
       (rg_seen g) (db_entries (dg_connection h)) \<and>
     hm_invar (db_meta (dg_connection h)) \<and>
     hm_get (db_meta (dg_connection h)) META_LAST_SEEN_MS = Some (uint (rg_last_seen_ms g)) \<and>
     hm_contains_key (db_meta (dg_connection h)) META_CLOCK_ROLLBACKS \<and>
     hm_contains_key (db_meta (dg_connection h)) META_CLOCK_JUMPS"

abbreviation entry_agrees :: "seen_key \<times> u64 \<Rightarrow> entry_key \<times> int \<Rightarrow> bool" where
  "entry_agrees \<equiv> (\<lambda>((s, c, n), r) ((s', tag, n'), v). s' = s \<and> n' = n \<and> v = uint r \<and>
         (\<exists>d. c = domain_as_u32 d \<and> tag = domain_as_str d))"

lemma domain_as_str_inject [simp]: "domain_as_str d = domain_as_str e \<longleftrightarrow> d = e"
  using inj_domain_as_str by (simp add: inj_eq)

lemma agree_contains:
  "list_all2 entry_agrees xs ys \<Longrightarrow>
     hm_contains_key ys (s, domain_as_str d, n) = hm_contains_key xs (s, domain_as_u32 d, n)"
  by (induction xs ys rule: list_all2_induct) (auto simp: hm_contains_key_def hm_get_def)

lemma agree_count:
  "list_all2 entry_agrees xs ys \<Longrightarrow>
     length (filter (\<lambda>(k, _). fst k = s) ys) = length (filter (\<lambda>(k, _). fst k = s) xs)"
  by (induction xs ys rule: list_all2_induct) auto

lemma agree_retain:
  "list_all2 entry_agrees xs ys \<Longrightarrow>
     list_all2 entry_agrees (hm_retain (\<lambda>_ r. r > t) xs) (hm_retain (\<lambda>_ v. \<not> v \<le> uint t) ys)"
  by (induction xs ys rule: list_all2_induct) (auto simp: hm_retain_def word_less_def)

lemma check_keeps_healthy:
  "db_tape (dg_connection g) = [] \<Longrightarrow> db_tape (dg_connection (snd (check_and_record_durable s d n r g))) = []"
  by (auto simp: check_and_record_durable_def on_connection_def in_transaction_def record_nonce_no_fault tx_bind_def tx_return_def
      statement_no_fault split: prod.splits sum.splits)

lemma receive_keeps_healthy:
  assumes "db_tape (dg_connection g) = []"
  shows "db_tape (dg_connection (snd (receive_step check_and_record_durable collect m v (Receive now msg) g))) = []"
  using check_keeps_healthy [OF assms, of "sg_signer_id msg"] assms
  by (auto simp: receive_step_def verify_def check_replay_def Let_def split: sum.splits prod.splits option.splits replay_decision.splits
      dest!: arg_cong [where f = snd])

lemma reopen_after_receive:
  "\<exists>h. open_with_capacities (dg_connection (guard_after check_and_record_durable (\<lambda>now g. snd (gc_durable now g)) 4 (\<lambda>_ _ _. Ok ())
     [Receive 3000 example_message] example_durable)) 5 2 = Ok h"
proof -
  have "db_tape (dg_connection example_durable) = []" by (simp add: example_durable_def)
  from receive_keeps_healthy [OF this] show ?thesis
    by (simp add: open_with_capacities_def tx_bind_def statement_no_fault Let_def)
qed

text \<open>The same message before the restart and after it.\<close>

lemma durable_guard_accepts_once_across_restart_witness:
  "\<exists>h. open_with_capacities (dg_connection (guard_after check_and_record_durable (\<lambda>now g. snd (gc_durable now g)) 4 (\<lambda>_ _ _. Ok ())
       [Receive 3000 example_message] example_durable)) 5 2 = Ok h \<and>
   distinct (accepted check_and_record_durable (\<lambda>now g. snd (gc_durable now g)) 4 (\<lambda>_ _ _. Ok ()) [Receive 3000 example_message] example_durable @
     accepted check_and_record_durable (\<lambda>now g. snd (gc_durable now g)) 4 (\<lambda>_ _ _. Ok ()) [Collect 4000, Receive 4500 example_message] h)"
proof -
  have ok: "well_stored example_db" by (simp add: well_stored_def example_db_def hm_invar_def)
  let ?es = "[Receive 3000 example_message]" and ?fs = "[Collect 4000, Receive 4500 example_message]"
  have fits: "list_all retention_fits (?es @ ?fs)"
    by (simp add: retention_fits_def example_message_def unat_saturating_add CLOCK_SKEW_TOLERANCE_MS_def)
  have "sorted (map (\<lambda>e. unat (event_clock e)) (?es @ ?fs))" by simp
  with reopen_after_receive durable_guard_accepts_once_across_restart [OF ok open_example _ _ fits, of 4 "\<lambda>_ _ _. Ok ()" 5 2]
  show ?thesis by blast
qed

lemma check_agrees:
  assumes "guards_agree g h" and "unat r < 2 ^ 63"
  shows "fst (check_and_record_durable s d n r h) = fst (check_and_record s d n r g) \<and>
    guards_agree (snd (check_and_record s d n r g)) (snd (check_and_record_durable s d n r h))"
proof -
  have agree: "list_all2 entry_agrees (rg_seen g) (db_entries (dg_connection h))"
    and tape: "db_tape (dg_connection h) = []" using assms(1) by (simp_all add: guards_agree_def)
  have used: "length (filter (\<lambda>(k, _). fst k = s) (db_entries (dg_connection h))) = signer_usage g s"
    using assms(1) agree_count [OF agree, of s] by (simp add: guards_agree_def guard_invar_def entries_of_def)
  have len: "hm_len (db_entries (dg_connection h)) = hm_len (rg_seen g)"
    using list_all2_lengthD [OF agree] by (simp add: hm_len_def)
  have clamp: "clamp_i64 r = uint r" using clamp_i64_exact [OF assms(2)] by simp
  note unfolded = check_and_record_durable_def on_connection_def in_transaction_no_fault [OF tape]
      record_nonce_no_fault [OF tape] agree_contains [OF agree] used len clamp
  have inv: "guard_invar (snd (check_and_record s d n r g))"
    using assms(1) by (simp add: guards_agree_def check_and_record_invar)
  show ?thesis
  proof (cases "fst (check_and_record s d n r g) = Ok Fresh")
    case False
    then show ?thesis
      using assms(1) tape
      by (auto simp: unfolded check_and_record_def Let_def signer_usage_def guards_agree_def)
  next
    case True
    then have eq: "check_and_record s d n r g = (Ok Fresh, snd (check_and_record s d n r g))" by (metis prod.collapse)
    note fresh = check_and_record_fresh [OF eq]
    have "hm_get (db_entries (dg_connection h)) (s, domain_as_str d, n) = None"
      using agree_contains [OF agree, of s d n] fresh(1) by (simp add: hm_contains_key_def)
    with True fresh show ?thesis
      using assms(1) tape inv
      by (auto simp: unfolded check_and_record_def Let_def signer_usage_def guards_agree_def hm_insert_fresh
          hm_contains_key_def intro!: list_all2_appendI)
  qed
qed

lemma meta_keys_distinct [simp]:
  "META_LAST_SEEN_MS \<noteq> META_CLOCK_ROLLBACKS" "META_LAST_SEEN_MS \<noteq> META_CLOCK_JUMPS"
  "META_CLOCK_ROLLBACKS \<noteq> META_LAST_SEEN_MS" "META_CLOCK_JUMPS \<noteq> META_LAST_SEEN_MS"
  by (simp_all add: META_LAST_SEEN_MS_def META_CLOCK_ROLLBACKS_def META_CLOCK_JUMPS_def)

lemma increment_meta_no_fault:
  assumes "db_tape db = []" and "hm_get (db_meta db) key = Some v"
  shows "increment_meta key db = (Ok (), db\<lparr>db_meta := hm_insert key (v + 1) (db_meta db)\<rparr>)"
  using assms by (simp add: increment_meta_def update_meta_def tx_bind_def statement_no_fault tx_return_def)

lemma write_meta_no_fault:
  assumes "db_tape db = []" and "hm_get (db_meta db) key = Some v" and "uint x \<le> i64_max"
  shows "write_meta key x db = (Ok (), db\<lparr>db_meta := hm_insert key (uint x) (db_meta db)\<rparr>)"
  using assms
  by (simp add: write_meta_def update_meta_def tx_bind_def statement_no_fault tx_return_def lift_result_def
      to_sql_i64_def)

lemma read_meta_no_fault:
  assumes "db_tape db = []" and "hm_get (db_meta db) key = Some (uint x)"
  shows "read_meta key db = (Ok x, db)"
  using assms by (simp add: read_meta_def tx_bind_def statement_no_fault lift_result_def from_sql_i64_def)

lemma advance_clock_no_fault:
  assumes "db_tape db = []" and "hm_get (db_meta db) META_CLOCK_JUMPS = Some v"
  shows "\<exists>v'. advance_clock last_seen now db =
    (Ok (fst (effective_now last_seen now)),
     if snd (effective_now last_seen now) then db\<lparr>db_meta := hm_insert META_CLOCK_JUMPS v' (db_meta db)\<rparr> else db)"
  using assms
  by (auto simp: advance_clock_def effective_now_def Let_def tx_return_def tx_bind_def increment_meta_no_fault)

lemma guards_agree_meta:
  assumes "guards_agree g h"
  shows "db_tape (dg_connection h) = []" and "hm_invar (db_meta (dg_connection h))"
    and "read_meta META_LAST_SEEN_MS (dg_connection h) = (Ok (rg_last_seen_ms g), dg_connection h)"
    and "\<exists>v. hm_get (db_meta (dg_connection h)) META_CLOCK_ROLLBACKS = Some v"
    and "\<exists>v. hm_get (db_meta (dg_connection h)) META_CLOCK_JUMPS = Some v"
    and "hm_get (db_meta (dg_connection h)) META_LAST_SEEN_MS = Some (uint (rg_last_seen_ms g))"
  using assms by (auto simp: guards_agree_def hm_contains_key_def read_meta_no_fault)

lemma collect_agrees_rollback:
  assumes "guards_agree g h" and "now < rg_last_seen_ms g"
  obtains db where "collect_entries now (dg_connection h) = (Ok (fst (gc now g)), db)" "db_tape db = []"
    "guards_agree (snd (gc now g)) (h\<lparr>dg_connection := db\<rparr>)"
proof -
  note meta = guards_agree_meta [OF assms(1)]
  obtain v where v: "hm_get (db_meta (dg_connection h)) META_CLOCK_ROLLBACKS = Some v" using meta(4) by blast
  have "guard_invar (snd (gc now g))" using assms(1) by (simp add: guards_agree_def guard_gc_invar)
  with assms show thesis
    by (intro that [of "(dg_connection h)\<lparr>db_meta := hm_insert META_CLOCK_ROLLBACKS (v + 1) (db_meta (dg_connection h))\<rparr>"])
       (simp_all add: collect_entries_def tx_bind_def meta(3) increment_meta_no_fault [OF meta(1) v] tx_return_def
         guards_agree_def gc_def hm.get_insert hm_invar_insert hm_contains_key_def)
qed

lemma collect_agrees_forward:
  assumes "guards_agree g h" and "unat now < 2 ^ 63" and "\<not> now < rg_last_seen_ms g"
  obtains db where "collect_entries now (dg_connection h) = (Ok (fst (gc now g)), db)" "db_tape db = []"
    "guards_agree (snd (gc now g)) (h\<lparr>dg_connection := db\<rparr>)"
proof -
  let ?db = "dg_connection h"
  note meta = guards_agree_meta [OF assms(1)]
  have agree: "list_all2 entry_agrees (rg_seen g) (db_entries ?db)" using assms(1) by (simp add: guards_agree_def)
  obtain w where w: "hm_get (db_meta ?db) META_CLOCK_JUMPS = Some w" using meta(5) by blast
  obtain t j where t: "effective_now (rg_last_seen_ms g) now = (t, j)" by fastforce
  have "t \<le> now" using effective_now_le [of "rg_last_seen_ms g" now] assms(3) t by simp
  then have "unat t < 2 ^ 63" using assms(2) by (simp add: word_le_nat_alt)
  note clamp = clamp_i64_exact [OF this]
  then have small: "uint t \<le> i64_max" by (simp add: clamp_i64_def split: if_splits)
  obtain v' where adv: "advance_clock (rg_last_seen_ms g) now ?db =
      (Ok t, if j then ?db\<lparr>db_meta := hm_insert META_CLOCK_JUMPS v' (db_meta ?db)\<rparr> else ?db)"
    using advance_clock_no_fault [OF meta(1) w, of "rg_last_seen_ms g" now] by (auto simp: t)
  let ?db1 = "if j then ?db\<lparr>db_meta := hm_insert META_CLOCK_JUMPS v' (db_meta ?db)\<rparr> else ?db"
  let ?db2 = "?db1\<lparr>db_entries := hm_retain (\<lambda>_ r. \<not> r \<le> uint t) (db_entries ?db)\<rparr>"
  let ?db3 = "?db2\<lparr>db_meta := hm_insert META_LAST_SEEN_MS (uint t) (db_meta ?db2)\<rparr>"
  have del: "delete_expired t ?db1 =
      (Ok (hm_len (db_entries ?db) - hm_len (hm_retain (\<lambda>_ r. \<not> r \<le> uint t) (db_entries ?db))), ?db2)"
    using meta(1) clamp by (simp add: delete_expired_def statement_no_fault Let_def)
  have wr: "write_meta META_LAST_SEEN_MS t ?db2 = (Ok (), ?db3)"
    by (rule write_meta_no_fault [OF _ _ small]) (use meta(1,2,6) in \<open>simp_all add: hm.get_insert\<close>)
  note kept = agree_retain [OF agree, of t]
  have removed: "hm_len (db_entries ?db) - hm_len (hm_retain (\<lambda>_ r. \<not> r \<le> uint t) (db_entries ?db)) = fst (gc now g)"
    using assms(3) t list_all2_lengthD [OF agree] list_all2_lengthD [OF kept] by (simp add: gc_def hm_len_def Let_def)
  have "collect_entries now ?db = (Ok (fst (gc now g)), ?db3)"
    unfolding collect_entries_def tx_bind_def meta(3) prod.case sum.case
    using assms(3) by (simp only: if_False adv del wr removed tx_return_def prod.case sum.case)
  moreover have "guard_invar (snd (gc now g))" using assms(1) by (simp add: guards_agree_def guard_gc_invar)
  ultimately show thesis
    using assms(1,3) kept t meta(1)
    by (intro that [of ?db3]) (simp_all add: guards_agree_def gc_def Let_def hm.get_insert hm_invar_insert hm_contains_key_def)
qed

lemma gc_agrees:
  assumes "guards_agree g h" and "unat now < 2 ^ 63"
  shows "fst (gc_durable now h) = Ok (fst (gc now g)) \<and>
    guards_agree (snd (gc now g)) (snd (gc_durable now h))"
proof -
  have tape: "db_tape (dg_connection h) = []" using assms(1) by (simp add: guards_agree_def)
  obtain db where db: "collect_entries now (dg_connection h) = (Ok (fst (gc now g)), db)"
    "db_tape db = []" "guards_agree (snd (gc now g)) (h\<lparr>dg_connection := db\<rparr>)"
    using collect_agrees_rollback [OF assms(1)] collect_agrees_forward [OF assms] by blast
  then show ?thesis
    using in_transaction_no_fault [of _ "collect_entries now", OF tape db(1,2)] by (simp add: gc_durable_def on_connection_def)
qed

text \<open>The answers a history of calls gets.\<close>

fun answers :: "guard_call list \<Rightarrow> in_memory_guard \<Rightarrow> ((replay_store_error + replay_decision) + (replay_store_error + usize)) list" where
  "answers [] g = []"
| "answers (CheckCall s d n r # cs) g =
     Inl (fst (check_and_record s d n r g)) # answers cs (snd (check_and_record s d n r g))"
| "answers (GcCall now # cs) g = Inr (Ok (fst (gc now g))) # answers cs (snd (gc now g))"

fun answers_durable ::
    "guard_call list \<Rightarrow> durable_guard \<Rightarrow> ((replay_store_error + replay_decision) + (replay_store_error + usize)) list" where
  "answers_durable [] h = []"
| "answers_durable (CheckCall s d n r # cs) h =
     Inl (fst (check_and_record_durable s d n r h)) # answers_durable cs (snd (check_and_record_durable s d n r h))"
| "answers_durable (GcCall now # cs) h = Inr (fst (gc_durable now h)) # answers_durable cs (snd (gc_durable now h))"

fun in_signed_range :: "guard_call \<Rightarrow> bool" where
  "in_signed_range (CheckCall _ _ _ r) \<longleftrightarrow> unat r < 2 ^ 63"
| "in_signed_range (GcCall now) \<longleftrightarrow> unat now < 2 ^ 63"

lemma answers_agree:
  "guards_agree g h \<Longrightarrow> list_all in_signed_range cs \<Longrightarrow> answers_durable cs h = answers cs g"
proof (induction cs arbitrary: g h)
  case (Cons c cs)
  then show ?case
  proof (cases c)
    case (CheckCall s d n r)
    with Cons check_agrees [OF Cons.prems(1), of r s d n] show ?thesis by simp
  next
    case (GcCall now)
    with Cons gc_agrees [OF Cons.prems(1), of now] show ?thesis by simp
  qed
qed simp

lemma open_agrees:
  assumes "with_capacities c p = Some g" and "open_with_capacities example_db c p = Ok h"
  shows "guards_agree g h"
proof -
  have "dg_connection h = dg_connection example_durable \<and> dg_capacity h = c \<and> dg_per_signer_capacity h = p"
    using assms(2) by (auto simp: open_with_capacities_def example_db_def example_durable_def statement_def statement_result_def tx_bind_def Let_def
      insert_or_ignore_def hm_contains_key_def hm_get_def hm_insert_def META_CLOCK_JUMPS_def
      META_CLOCK_ROLLBACKS_def META_LAST_SEEN_MS_def split: if_splits)
  with assms(1) new_guard_invar [OF assms(1)] show ?thesis
    by (auto simp: guards_agree_def example_durable_def with_capacities_def hm_invar_def hm_get_def
        hm_contains_key_def META_CLOCK_JUMPS_def META_CLOCK_ROLLBACKS_def META_LAST_SEEN_MS_def split: if_splits)
qed

text \<open>
  C35: the in-memory guard and the SQLite guard are one contract. Created with the same quotas
  on an empty cache, they answer every history of checks and collections alike, call by call, as
  long as no statement fails and the times fit the signed column: the same decisions, the same
  quota errors, the same numbers of removed entries.
\<close>
theorem durable_answers_like_memory:
  assumes "with_capacities c p = Some g" and "open_with_capacities example_db c p = Ok h"
    and "list_all in_signed_range calls"
  shows "answers_durable calls h = answers calls g"
  by (rule answers_agree [OF open_agrees [OF assms(1,2)] assms(3)])

lemma durable_answers_like_memory_witness:
  "with_capacities 3 1 = Some example_guard \<and> open_with_capacities example_db 3 1 = Ok example_durable \<and>
   answers_durable [CheckCall (lit ''a'') DomGrant example_nonce 20, GcCall 30] example_durable =
   answers [CheckCall (lit ''a'') DomGrant example_nonce 20, GcCall 30] example_guard"
proof -
  have "with_capacities 3 1 = Some example_guard" by (simp add: with_capacities_def example_guard_def)
  moreover have "list_all in_signed_range [CheckCall (lit ''a'') DomGrant example_nonce 20, GcCall 30]" by simp
  ultimately show ?thesis using durable_answers_like_memory open_example by blast
qed

text \<open>
  outside the signed range the two guards differ. The first collection at \<open>u64::MAX\<close>
  succeeds in memory and is an error of the durable guard, because the time is written to the
  metadata as it was given.
\<close>
theorem first_gc_at_max_differs:
  "answers [GcCall (- 1)] example_guard = [Inr (Ok 0)] \<and>
   answers_durable [GcCall (- 1)] example_durable = [Inr (Err ReplayIo)]"
proof
  show "answers [GcCall (- 1)] example_guard = [Inr (Ok 0)]"
    by (simp add: gc_def example_guard_def effective_now_def hm_len_def Let_def)
  have "\<not> uint (- 1 :: u64) \<le> i64_max" by (simp add: i64_max_def uint_word_ariths(4) [of 1, simplified])
  then have "to_sql_i64 (- 1) = Err ReplayIo" by (simp add: to_sql_i64_def)
  then show "answers_durable [GcCall (- 1)] example_durable = [Inr (Err ReplayIo)]"
    by (simp add: gc_durable_def on_connection_def in_transaction_def tx_bind_def collect_entries_def
        read_meta_def write_meta_def advance_clock_def delete_expired_def statement_def statement_result_def example_durable_def
        hm_get_def lift_result_def from_sql_i64_def tx_return_def Let_def)
qed

end
