(* ===== verification/Lease_Store.thy ===== *)
theory Lease_Store
  imports Sql_Tx Rust_Collections Rust_Bytes
begin

text \<open>
  The coordinator's lease table, \<open>crates/coordinator/src/lease_store.rs\<close>.

  A row holds what the columns hold: texts, and 8-byte big-endian \<open>BLOB\<close>s for the integers,
  \<open>NULL\<close> as \<open>None\<close>; \<open>decode_u64\<close> fails on any other width. Each SQL statement is the
  table operation it denotes, run under the failures and transactions of \<open>Sql_Tx\<close>.
  \<open>ld_columns\<close> are the columns of the table, \<open>None\<close> when there is no table; the two
  migrations add what an old file lacks. The texts of errors are not modelled.

  The lemmas: every call changes the table by one of four steps (\<open>lease_change\<close>) or not at
  all, whatever statements fail, and the facts of a lease survive every history
  (\<open>fact_history\<close>). \<open>Lease_Refinement\<close> adds the view of the table as a plain map.
\<close>

section \<open>Leases\<close>

record stored_lease =
  sl_lease_id :: str
  sl_job_id :: str
  sl_attempt_id :: str
  sl_holder_node_id :: str
  sl_fence_epoch :: u64
  sl_expires_at_unix_ms :: u64
  sl_issuing_coordinator_id :: str
  sl_coordinator_term :: u64
  sl_issued_at_unix_ms :: u64
  sl_renew_after_unix_ms :: u64
  sl_max_total_duration_seconds :: u64
  sl_revoked_at_unix_ms :: "u64 option"
  sl_reassignment_grace_ms :: u64

record resume_request_identity =
  ri_lease_id :: str
  ri_node_id :: str
  ri_job_id :: str
  ri_attempt_id :: str
  ri_fence_epoch :: u64

datatype resume_decision =
    Resumed stored_lease
  | UnknownLease
  | ResumeIdentityConflict string str str
  | ResumeRevoked stored_lease
  | ResumeExpired stored_lease
  | Superseded stored_lease
  | EpochAhead stored_lease

definition saturating_mul :: "u64 \<Rightarrow> u64 \<Rightarrow> u64" where
  "saturating_mul a b = (if unat a * unat b < 2 ^ 64 then a * b else - 1)"

definition checked_sub :: "u64 \<Rightarrow> u64 \<Rightarrow> u64 option" where
  "checked_sub a b = (if a < b then None else Some (a - b))"

definition is_max_duration_exceeded :: "stored_lease \<Rightarrow> u64 \<Rightarrow> bool" where
  "is_max_duration_exceeded l now =
     (let max_duration_ms = saturating_mul (sl_max_total_duration_seconds l) 1000 in
      case checked_sub now (sl_issued_at_unix_ms l) of
        Some elapsed_ms \<Rightarrow> elapsed_ms \<ge> max_duration_ms
      | None \<Rightarrow> True)"

datatype lease_store_error =
    LeaseNotFound
  | LeaseIdentityConflict string str str
  | LeaseRevoked u64
  | LeaseExpired u64
  | LeaseIo
  | LeaseLockTimeout

datatype renew_decision = Renewed stored_lease | MaxDurationExceeded stored_lease

section \<open>Rows\<close>

record raw_lease_row =
  rl_lease_id :: str
  rl_job_id :: str
  rl_attempt_id :: str
  rl_holder_node_id :: str
  rl_fence_epoch :: bytes
  rl_expires_at_unix_ms :: bytes
  rl_issuing_coordinator_id :: str
  rl_coordinator_term :: bytes
  rl_issued_at_unix_ms :: bytes
  rl_renew_after_unix_ms :: bytes
  rl_max_total_duration_seconds :: bytes
  rl_revoked_at_unix_ms :: "bytes option"
  rl_reassignment_grace_ms :: "bytes option"

definition encode_u64 :: "u64 \<Rightarrow> bytes" where
  "encode_u64 v = to_be_bytes_u64 v"

definition decode_u64 :: "bytes \<Rightarrow> lease_store_error + u64" where
  "decode_u64 bs = (if length bs = 8 then Ok (from_be_bytes_u64 bs) else Err LeaseIo)"

text \<open>\<open>.map(decode).transpose()\<close> on a nullable column.\<close>

definition decode_nullable :: "bytes option \<Rightarrow> lease_store_error + u64 option" where
  "decode_nullable col = (case col of None \<Rightarrow> Ok None | Some bs \<Rightarrow> and_then (decode_u64 bs) (\<lambda>v. Ok (Some v)))"

definition into_stored :: "raw_lease_row \<Rightarrow> lease_store_error + stored_lease" where
  "into_stored r =
     and_then (decode_u64 (rl_fence_epoch r)) (\<lambda>fence_epoch.
     and_then (decode_u64 (rl_expires_at_unix_ms r)) (\<lambda>expires_at.
     and_then (decode_u64 (rl_coordinator_term r)) (\<lambda>coordinator_term.
     and_then (decode_u64 (rl_issued_at_unix_ms r)) (\<lambda>issued_at.
     and_then (decode_u64 (rl_renew_after_unix_ms r)) (\<lambda>renew_after.
     and_then (decode_u64 (rl_max_total_duration_seconds r)) (\<lambda>max_total.
     and_then (decode_nullable (rl_revoked_at_unix_ms r)) (\<lambda>revoked_at.
     and_then (decode_nullable (rl_reassignment_grace_ms r)) (\<lambda>grace.
       Ok \<lparr>sl_lease_id = rl_lease_id r, sl_job_id = rl_job_id r, sl_attempt_id = rl_attempt_id r,
           sl_holder_node_id = rl_holder_node_id r, sl_fence_epoch = fence_epoch,
           sl_expires_at_unix_ms = expires_at, sl_issuing_coordinator_id = rl_issuing_coordinator_id r,
           sl_coordinator_term = coordinator_term, sl_issued_at_unix_ms = issued_at,
           sl_renew_after_unix_ms = renew_after, sl_max_total_duration_seconds = max_total,
           sl_revoked_at_unix_ms = revoked_at,
           sl_reassignment_grace_ms = (case grace of Some g \<Rightarrow> g | None \<Rightarrow> 0)\<rparr>))))))))"

text \<open>The values of \<open>insert_lease\<close>: never revoked, the grace only when it is not zero.\<close>

definition inserted_row :: "stored_lease \<Rightarrow> raw_lease_row" where
  "inserted_row c =
     \<lparr>rl_lease_id = sl_lease_id c, rl_job_id = sl_job_id c, rl_attempt_id = sl_attempt_id c,
      rl_holder_node_id = sl_holder_node_id c, rl_fence_epoch = encode_u64 (sl_fence_epoch c),
      rl_expires_at_unix_ms = encode_u64 (sl_expires_at_unix_ms c),
      rl_issuing_coordinator_id = sl_issuing_coordinator_id c,
      rl_coordinator_term = encode_u64 (sl_coordinator_term c),
      rl_issued_at_unix_ms = encode_u64 (sl_issued_at_unix_ms c),
      rl_renew_after_unix_ms = encode_u64 (sl_renew_after_unix_ms c),
      rl_max_total_duration_seconds = encode_u64 (sl_max_total_duration_seconds c),
      rl_revoked_at_unix_ms = None,
      rl_reassignment_grace_ms =
        (if sl_reassignment_grace_ms c \<noteq> 0 then Some (encode_u64 (sl_reassignment_grace_ms c)) else None)\<rparr>"

section \<open>The table\<close>

definition lease_map_sql_error :: "sql_error \<Rightarrow> lease_store_error" where
  "lease_map_sql_error e = (case e of SqliteBusyOrLocked \<Rightarrow> LeaseLockTimeout | SqliteOther \<Rightarrow> LeaseIo)"

record lease_db = sql_conn +
  ld_columns :: "string list option"
  ld_leases :: "(str, raw_lease_row) hash_map"

type_synonym ('m, 'a) lease_tx = "'m lease_db_scheme \<Rightarrow> (lease_store_error + 'a) \<times> 'm lease_db_scheme"

text \<open>\<open>UPDATE coordinator_leases SET ... WHERE lease_id = ?1 AND cond\<close>, with the number of rows.\<close>

definition update_lease :: "str \<Rightarrow> (raw_lease_row \<Rightarrow> bool) \<Rightarrow> (raw_lease_row \<Rightarrow> raw_lease_row) \<Rightarrow> ('m, usize) lease_tx" where
  "update_lease lease_id cond f = statement lease_map_sql_error (\<lambda>db.
     case hm_get (ld_leases db) lease_id of
       Some r \<Rightarrow> if cond r then (1, db\<lparr>ld_leases := hm_insert lease_id (f r) (ld_leases db)\<rparr>) else (0, db)
     | None \<Rightarrow> (0, db))"

definition fetch_lease :: "str \<Rightarrow> ('m, stored_lease option) lease_tx" where
  "fetch_lease lease_id =
     tx_bind (statement lease_map_sql_error (\<lambda>db. (hm_get (ld_leases db) lease_id, db))) (\<lambda>row.
       lift_result (case row of None \<Rightarrow> Ok None | Some r \<Rightarrow> and_then (into_stored r) (\<lambda>l. Ok (Some l))))"

text \<open>A second row with the same primary key is a constraint violation.\<close>

definition insert_lease :: "stored_lease \<Rightarrow> ('m, unit) lease_tx" where
  "insert_lease c = statement_result lease_map_sql_error (\<lambda>db.
     if hm_contains_key (ld_leases db) (sl_lease_id c) then (Err LeaseIo, db)
     else (Ok (), db\<lparr>ld_leases := hm_insert (sl_lease_id c) (inserted_row c) (ld_leases db)\<rparr>))"

text \<open>\<open>COALESCE(revoked_at_unix_ms, ?2)\<close>, and the condition of the grace update.\<close>

definition coalesce_revoked :: "u64 \<Rightarrow> raw_lease_row \<Rightarrow> raw_lease_row" where
  "coalesce_revoked revoked_at r = r\<lparr>rl_revoked_at_unix_ms :=
     (case rl_revoked_at_unix_ms r of Some b \<Rightarrow> Some b | None \<Rightarrow> Some (encode_u64 revoked_at))\<rparr>"

definition grace_below :: "u64 \<Rightarrow> raw_lease_row \<Rightarrow> bool" where
  "grace_below at_least r \<longleftrightarrow> rl_revoked_at_unix_ms r = None \<and>
     (case rl_reassignment_grace_ms r of None \<Rightarrow> True | Some b \<Rightarrow> blob_less b (encode_u64 at_least))"

definition revoke_within :: "str \<Rightarrow> u64 \<Rightarrow> ('m, unit) lease_tx" where
  "revoke_within lease_id revoked_at =
     tx_bind (update_lease lease_id (\<lambda>_. True) (coalesce_revoked revoked_at)) (\<lambda>changed.
       if changed \<noteq> 1 then tx_fail LeaseNotFound else tx_return ())"

definition raise_reassignment_grace_within :: "str \<Rightarrow> u64 \<Rightarrow> ('m, stored_lease) lease_tx" where
  "raise_reassignment_grace_within lease_id at_least =
     tx_bind (update_lease lease_id (grace_below at_least) (\<lambda>r. r\<lparr>rl_reassignment_grace_ms := Some (encode_u64 at_least)\<rparr>)) (\<lambda>_.
     tx_bind (fetch_lease lease_id) (\<lambda>found.
     tx_bind (lift_result (ok_or found LeaseNotFound)) (\<lambda>stored.
       case sl_revoked_at_unix_ms stored of
         Some t \<Rightarrow> tx_fail (LeaseRevoked t)
       | None \<Rightarrow> tx_return stored)))"

section \<open>Opening\<close>

definition base_columns :: "string list" where
  "base_columns = [''lease_id'', ''job_id'', ''attempt_id'', ''holder_node_id'', ''fence_epoch'',
     ''expires_at_unix_ms'', ''issuing_coordinator_id'', ''coordinator_term'', ''issued_at_unix_ms'',
     ''renew_after_unix_ms'', ''max_total_duration_seconds'', ''revoked_at_unix_ms'']"

definition migrate_column :: "string \<Rightarrow> ('m, unit) lease_tx" where
  "migrate_column column = in_transaction lease_map_sql_error (
     tx_bind (statement lease_map_sql_error (\<lambda>db. (case ld_columns db of Some cs \<Rightarrow> column \<in> set cs | None \<Rightarrow> False, db))) (\<lambda>has_column.
     if \<not> has_column then
       statement lease_map_sql_error (\<lambda>db. ((), db\<lparr>ld_columns := map_option (\<lambda>cs. cs @ [column]) (ld_columns db)\<rparr>))
     else tx_return ()))"

definition initialize_schema :: "('m, unit) lease_tx" where
  "initialize_schema =
     tx_bind (statement lease_map_sql_error (\<lambda>db. ((), db\<lparr>ld_columns :=
         (case ld_columns db of None \<Rightarrow> Some base_columns | Some cs \<Rightarrow> Some cs)\<rparr>))) (\<lambda>_.
     tx_bind (migrate_column ''revoked_at_unix_ms'') (\<lambda>_.
       migrate_column ''reassignment_grace_ms''))"

definition open_lease_store :: "('m, unit) lease_tx" where
  "open_lease_store =
     tx_bind (statement lease_map_sql_error (\<lambda>db. ((), db))) (\<lambda>_.
     tx_bind (statement lease_map_sql_error (\<lambda>db. ((), db))) (\<lambda>_.
       initialize_schema))"

section \<open>Operations of the store\<close>

definition classify_resume :: "resume_request_identity \<Rightarrow> u64 \<Rightarrow> ('m, resume_decision) lease_tx" where
  "classify_resume req now =
     tx_bind (fetch_lease (ri_lease_id req)) (\<lambda>found.
       tx_return (case found of
         None \<Rightarrow> UnknownLease
       | Some stored \<Rightarrow>
           if sl_holder_node_id stored \<noteq> ri_node_id req then
             ResumeIdentityConflict ''node_id'' (sl_holder_node_id stored) (ri_node_id req)
           else if sl_job_id stored \<noteq> ri_job_id req then
             ResumeIdentityConflict ''job_id'' (sl_job_id stored) (ri_job_id req)
           else if sl_attempt_id stored \<noteq> ri_attempt_id req then
             ResumeIdentityConflict ''attempt_id'' (sl_attempt_id stored) (ri_attempt_id req)
           else if sl_revoked_at_unix_ms stored \<noteq> None then ResumeRevoked stored
           else if sl_expires_at_unix_ms stored \<le> now then ResumeExpired stored
           else if ri_fence_epoch req < sl_fence_epoch stored then Superseded stored
           else if ri_fence_epoch req > sl_fence_epoch stored then EpochAhead stored
           else Resumed stored))"

definition check_identity_conflict :: "stored_lease \<Rightarrow> stored_lease \<Rightarrow> lease_store_error + unit" where
  "check_identity_conflict stored c =
     and_then (reject_if (sl_job_id stored \<noteq> sl_job_id c)
       (LeaseIdentityConflict ''job_id'' (sl_job_id stored) (sl_job_id c))) (\<lambda>_.
     and_then (reject_if (sl_attempt_id stored \<noteq> sl_attempt_id c)
       (LeaseIdentityConflict ''attempt_id'' (sl_attempt_id stored) (sl_attempt_id c))) (\<lambda>_.
     and_then (reject_if (sl_holder_node_id stored \<noteq> sl_holder_node_id c)
       (LeaseIdentityConflict ''holder_node_id'' (sl_holder_node_id stored) (sl_holder_node_id c))) (\<lambda>_.
     reject_if (sl_issuing_coordinator_id stored \<noteq> sl_issuing_coordinator_id c)
       (LeaseIdentityConflict ''issuing_coordinator_id'' (sl_issuing_coordinator_id stored)
          (sl_issuing_coordinator_id c)))))"

definition issue_body :: "stored_lease \<Rightarrow> u64 \<Rightarrow> ('m, (lease_store_error + stored_lease)) lease_tx" where
  "issue_body c now =
     tx_bind (fetch_lease (sl_lease_id c)) (\<lambda>existing.
     case existing of
       Some stored \<Rightarrow>
         tx_bind (lift_result (check_identity_conflict stored c)) (\<lambda>_.
           tx_return (case sl_revoked_at_unix_ms stored of
             Some t \<Rightarrow> Err (LeaseRevoked t)
           | None \<Rightarrow>
               if sl_expires_at_unix_ms stored \<le> now then Err (LeaseExpired (sl_expires_at_unix_ms stored))
               else Ok stored))
     | None \<Rightarrow> tx_bind (insert_lease c) (\<lambda>_. tx_return (Ok c)))"

definition get_or_issue :: "stored_lease \<Rightarrow> u64 \<Rightarrow> ('m, stored_lease) lease_tx" where
  "get_or_issue c now = in_transaction_result lease_map_sql_error (issue_body c now)"

definition revoke_body :: "str \<Rightarrow> u64 \<Rightarrow> ('m, (lease_store_error + stored_lease)) lease_tx" where
  "revoke_body lease_id revoked_at =
     tx_bind (fetch_lease lease_id) (\<lambda>existing.
     case existing of
       None \<Rightarrow> tx_return (Err LeaseNotFound)
     | Some stored \<Rightarrow>
         let timestamp = (case sl_revoked_at_unix_ms stored of Some t \<Rightarrow> t | None \<Rightarrow> revoked_at) in
         tx_bind (if sl_revoked_at_unix_ms stored = None then
             update_lease lease_id (\<lambda>_. True) (\<lambda>r. r\<lparr>rl_revoked_at_unix_ms := Some (encode_u64 timestamp)\<rparr>)
           else tx_return 0) (\<lambda>_.
           tx_return (Ok (stored\<lparr>sl_revoked_at_unix_ms := Some timestamp\<rparr>))))"

definition mark_revoked :: "str \<Rightarrow> u64 \<Rightarrow> ('m, stored_lease) lease_tx" where
  "mark_revoked lease_id revoked_at = in_transaction_result lease_map_sql_error (revoke_body lease_id revoked_at)"

definition raise_reassignment_grace :: "str \<Rightarrow> u64 \<Rightarrow> ('m, stored_lease) lease_tx" where
  "raise_reassignment_grace = raise_reassignment_grace_within"

definition set_expiry :: "str \<Rightarrow> u64 \<Rightarrow> u64 \<Rightarrow> ('m, usize) lease_tx" where
  "set_expiry lease_id new_expires_at new_renew_after =
     update_lease lease_id (\<lambda>_. True) (\<lambda>r. r\<lparr>rl_expires_at_unix_ms := encode_u64 new_expires_at,
       rl_renew_after_unix_ms := encode_u64 new_renew_after\<rparr>)"

definition renew_body :: "str \<Rightarrow> u64 \<Rightarrow> u64 \<Rightarrow> ('m, (lease_store_error + stored_lease)) lease_tx" where
  "renew_body lease_id new_expires_at new_renew_after =
     tx_bind (fetch_lease lease_id) (\<lambda>existing.
     case existing of
       None \<Rightarrow> tx_return (Err LeaseNotFound)
     | Some stored \<Rightarrow>
         (case sl_revoked_at_unix_ms stored of
            Some t \<Rightarrow> tx_return (Err (LeaseRevoked t))
          | None \<Rightarrow>
              tx_bind (set_expiry lease_id new_expires_at new_renew_after) (\<lambda>_.
                tx_return (Ok (stored\<lparr>sl_expires_at_unix_ms := new_expires_at,
                                      sl_renew_after_unix_ms := new_renew_after\<rparr>)))))"

definition renew_existing :: "str \<Rightarrow> u64 \<Rightarrow> u64 \<Rightarrow> ('m, stored_lease) lease_tx" where
  "renew_existing lease_id new_expires_at new_renew_after = in_transaction_result lease_map_sql_error (renew_body lease_id new_expires_at new_renew_after)"

definition renew_within_body :: "str \<Rightarrow> u64 \<Rightarrow> u64 \<Rightarrow> u64 \<Rightarrow> ('m, (lease_store_error + renew_decision)) lease_tx" where
  "renew_within_body lease_id now new_expires_at new_renew_after =
     tx_bind (fetch_lease lease_id) (\<lambda>existing.
     case existing of
       None \<Rightarrow> tx_return (Err LeaseNotFound)
     | Some stored \<Rightarrow>
         (case sl_revoked_at_unix_ms stored of
            Some t \<Rightarrow> tx_return (Err (LeaseRevoked t))
          | None \<Rightarrow>
              if sl_expires_at_unix_ms stored \<le> now then
                tx_return (Err (LeaseExpired (sl_expires_at_unix_ms stored)))
              else if is_max_duration_exceeded stored now then
                tx_return (Ok (MaxDurationExceeded stored))
              else
                tx_bind (set_expiry lease_id new_expires_at new_renew_after) (\<lambda>_.
                  tx_return (Ok (Renewed (stored\<lparr>sl_expires_at_unix_ms := new_expires_at,
                                                sl_renew_after_unix_ms := new_renew_after\<rparr>))))))"

definition renew_existing_within_duration :: "str \<Rightarrow> u64 \<Rightarrow> u64 \<Rightarrow> u64 \<Rightarrow> ('m, renew_decision) lease_tx" where
  "renew_existing_within_duration lease_id now new_expires_at new_renew_after = in_transaction_result lease_map_sql_error (renew_within_body lease_id now new_expires_at new_renew_after)"

section \<open>Reading rows back\<close>

lemma decode_encode [simp]: "decode_u64 (encode_u64 v) = Ok v"
  by (simp add: decode_u64_def encode_u64_def)

lemma decode_nullable_encode [simp]:
  "decode_nullable None = Ok None" "decode_nullable (Some (encode_u64 v)) = Ok (Some v)"
  by (simp_all add: decode_nullable_def)

lemma decode_nullable_Ok: "decode_nullable col = Inr x \<Longrightarrow> (x = None) = (col = None)"
  by (auto simp: decode_nullable_def result_ok split: option.splits)

lemma into_stored_inserted: "into_stored (inserted_row c) = Ok (c\<lparr>sl_revoked_at_unix_ms := None\<rparr>)"
  by (simp add: into_stored_def inserted_row_def)

lemma into_stored_revoked: "into_stored r = Inr l \<Longrightarrow> (sl_revoked_at_unix_ms l = None) = (rl_revoked_at_unix_ms r = None)"
  by (auto simp: into_stored_def result_ok dest: decode_nullable_Ok)

text \<open>What the three updates of a column do to the decoded lease.\<close>

lemma into_stored_revoke:
  assumes "into_stored r = Inr l"
  shows "into_stored (r\<lparr>rl_revoked_at_unix_ms := Some (encode_u64 t)\<rparr>) = Inr (l\<lparr>sl_revoked_at_unix_ms := Some t\<rparr>)"
  using assms by (auto simp: into_stored_def result_ok)

lemma into_stored_renew:
  assumes "into_stored r = Inr l"
  shows "into_stored (r\<lparr>rl_expires_at_unix_ms := encode_u64 e, rl_renew_after_unix_ms := encode_u64 a\<rparr>) =
    Inr (l\<lparr>sl_expires_at_unix_ms := e, sl_renew_after_unix_ms := a\<rparr>)"
  using assms by (auto simp: into_stored_def result_ok)

lemma into_stored_raise:
  assumes "into_stored r = Inr l"
  shows "into_stored (r\<lparr>rl_reassignment_grace_ms := Some (encode_u64 g)\<rparr>) = Inr (l\<lparr>sl_reassignment_grace_ms := g\<rparr>)"
  using assms by (auto simp: into_stored_def result_ok)

text \<open>The comparison of the bytes is the comparison of the numbers; \<open>NULL\<close> is zero.\<close>

lemma decode_eq_encode: "decode_u64 b = Inr v \<Longrightarrow> b = encode_u64 v"
proof -
  assume "decode_u64 b = Inr v"
  then have len: "length b = 8" and v: "v = from_be_bytes_u64 b" by (auto simp: decode_u64_def split: if_splits)
  have "be_value b < 2 ^ 64" using be_value_less [of b] len by simp
  then have "be_value b = be_value (to_be_bytes_u64 v)"
    unfolding v from_be_bytes_u64_def be_value_to_be_bytes by (simp add: unat_of_nat take_bit_nat_eq_self)
  then have "\<not> blob_less b (to_be_bytes_u64 v)" "\<not> blob_less (to_be_bytes_u64 v) b"
    using len by (simp_all add: blob_less_be_value)
  then show "b = encode_u64 v" using len by (simp add: encode_u64_def blob_less_antisym)
qed

section \<open>What a call changes\<close>

text \<open>The four ways the table changes. A revoked row is never touched.\<close>

inductive lease_change :: "(str, raw_lease_row) hash_map \<Rightarrow> (str, raw_lease_row) hash_map \<Rightarrow> bool" where
  issue: "hm_get m (sl_lease_id c) = None \<Longrightarrow> lease_change m (hm_insert (sl_lease_id c) (inserted_row c) m)"
| revoke: "hm_get m i = Some r \<Longrightarrow> rl_revoked_at_unix_ms r = None \<Longrightarrow>
    lease_change m (hm_insert i (r\<lparr>rl_revoked_at_unix_ms := Some (encode_u64 t)\<rparr>) m)"
| renew: "hm_get m i = Some r \<Longrightarrow> rl_revoked_at_unix_ms r = None \<Longrightarrow>
    lease_change m (hm_insert i (r\<lparr>rl_expires_at_unix_ms := encode_u64 e, rl_renew_after_unix_ms := encode_u64 a\<rparr>) m)"
| raise: "hm_get m i = Some r \<Longrightarrow> grace_below g r \<Longrightarrow>
    lease_change m (hm_insert i (r\<lparr>rl_reassignment_grace_ms := Some (encode_u64 g)\<rparr>) m)"

abbreviation unchanged_or_step :: "'m lease_db_scheme \<Rightarrow> 'm lease_db_scheme \<Rightarrow> bool" where
  "unchanged_or_step db db' \<equiv> ld_leases db' = ld_leases db \<or> lease_change (ld_leases db) (ld_leases db')"

lemma hm_insert_same: "hm_get m k = Some v \<Longrightarrow> hm_insert k v m = m"
  by (induction m) (auto simp: hm_get_def hm_insert_def split: if_splits)

lemma fetch_lease_leases: "ld_leases (snd (fetch_lease i db)) = ld_leases db"
  by (cases "db_tape db") (auto simp: fetch_lease_def tx_bind_def statement_def statement_result_def lift_result_def
      split: option.splits sum.splits prod.splits)

lemma fetch_lease_Ok:
  assumes "fetch_lease i db = (Inr found, db')"
  shows "ld_leases db' = ld_leases db \<and>
    (hm_get (ld_leases db) i = None \<and> found = None \<or>
     (\<exists>r l. hm_get (ld_leases db) i = Some r \<and> into_stored r = Inr l \<and> found = Some l))"
  using assms by (auto simp: fetch_lease_def tx_ok result_ok split: option.splits)

lemma update_lease_leases:
  "ld_leases (snd (update_lease i cond f db)) = ld_leases db \<or>
   (\<exists>r. hm_get (ld_leases db) i = Some r \<and> cond r \<and>
      ld_leases (snd (update_lease i cond f db)) = hm_insert i (f r) (ld_leases db))"
  by (cases "db_tape db") (auto simp: update_lease_def statement_def statement_result_def
      split: option.splits sum.splits prod.splits)

text \<open>A transaction leaves the table alone or as its body left it.\<close>

lemma transaction_leases:
  "ld_leases (snd (in_transaction_result lease_map_sql_error body db)) = ld_leases db \<or>
   (\<exists>t x db1. body (db\<lparr>db_tape := t\<rparr>) = (Inr x, db1) \<and>
      ld_leases (snd (in_transaction_result lease_map_sql_error body db)) = ld_leases db1)"
proof (cases "in_transaction lease_map_sql_error body db")
  case (Pair res db')
  then have eq: "ld_leases (snd (in_transaction_result lease_map_sql_error body db)) = ld_leases db'"
    by (auto simp: in_transaction_result_def tx_bind_def lift_result_def split: sum.splits)
  show ?thesis
  proof (cases res)
    case (Inl e)
    with in_transaction_Err [of lease_map_sql_error body db e db'] Pair eq show ?thesis by auto
  next
    case (Inr x)
    from in_transaction_Ok [OF Pair [unfolded Inr]] obtain t db1 t' where
      "body (db\<lparr>db_tape := t\<rparr>) = (Inr x, db1)" "db' = db1\<lparr>db_tape := t'\<rparr>" by metis
    with eq show ?thesis by auto
  qed
qed

lemma fetched:
  assumes "tx_bind (fetch_lease i) f db = (Inr x, db1)"
  obtains (none) db2 where "ld_leases db2 = ld_leases db" "hm_get (ld_leases db) i = None" "f None db2 = (Inr x, db1)"
  | (some) db2 r l where "ld_leases db2 = ld_leases db" "hm_get (ld_leases db) i = Some r" "into_stored r = Inr l"
      "f (Some l) db2 = (Inr x, db1)"
  using assms by (fastforce simp: tx_bind_Ok dest: fetch_lease_Ok)

lemma update_lease_Ok:
  "update_lease i cond f db = (Inr n, db') \<Longrightarrow>
   ld_leases db' = ld_leases db \<or>
   (\<exists>r. hm_get (ld_leases db) i = Some r \<and> cond r \<and> ld_leases db' = hm_insert i (f r) (ld_leases db))"
  using update_lease_leases [of i cond f db] by simp

lemma issue_body_change:
  assumes "issue_body c now db = (Inr x, db1)"
  shows "unchanged_or_step db db1"
  using assms unfolding issue_body_def
proof (cases rule: fetched)
  case none
  then show ?thesis
    by (auto simp: tx_ok insert_lease_def hm_contains_key_def split: if_splits intro: lease_change.issue)
qed (auto simp: tx_ok)

lemma revoke_body_change:
  assumes "revoke_body i t db = (Inr x, db1)"
  shows "unchanged_or_step db db1"
  using assms unfolding revoke_body_def
proof (cases rule: fetched)
  case (some db2 r l)
  then show ?thesis
    by (auto simp: tx_ok into_stored_revoked split: if_splits option.splits dest!: update_lease_Ok
        intro!: lease_change.revoke)
qed (simp add: tx_ok)

lemma renew_body_change:
  assumes "renew_body i e a db = (Inr x, db1)"
  shows "unchanged_or_step db db1"
  using assms unfolding renew_body_def
proof (cases rule: fetched)
  case (some db2 r l)
  then show ?thesis
    by (auto simp: tx_ok into_stored_revoked set_expiry_def split: option.splits dest!: update_lease_Ok
        intro!: lease_change.renew)
qed (simp add: tx_ok)

lemma renew_within_body_change:
  assumes "renew_within_body i now e a db = (Inr x, db1)"
  shows "unchanged_or_step db db1"
  using assms unfolding renew_within_body_def
proof (cases rule: fetched)
  case (some db2 r l)
  then show ?thesis
    by (auto simp: tx_ok into_stored_revoked set_expiry_def split: option.splits if_splits dest!: update_lease_Ok
        intro!: lease_change.renew)
qed (simp add: tx_ok)

lemma transaction_change:
  assumes "\<And>t x db1. body (db\<lparr>db_tape := t\<rparr>) = (Inr x, db1) \<Longrightarrow> unchanged_or_step (db\<lparr>db_tape := t\<rparr>) db1"
  shows "unchanged_or_step db (snd (in_transaction_result lease_map_sql_error body db))"
  using transaction_leases [of body db] assms by fastforce

lemma tx_bind_leases:
  assumes "\<And>x db. ld_leases (snd (f x db)) = ld_leases (db :: 'm lease_db_scheme)"
  shows "ld_leases (snd (tx_bind m f db)) = ld_leases (snd (m db))"
  using assms by (simp add: tx_bind_def split: prod.splits sum.splits)

lemma simple_leases [simp]:
  "ld_leases (snd (tx_return x (db :: 'm lease_db_scheme))) = ld_leases db" "ld_leases (snd (tx_fail e db)) = ld_leases db"
  "ld_leases (snd (lift_result y db)) = ld_leases db"
  by (simp_all add: tx_return_def tx_fail_def lift_result_def)

lemma revoke_within_change: "unchanged_or_step db (snd (revoke_within i t db))"
proof -
  have "ld_leases (snd (revoke_within i t db)) =
      ld_leases (snd (update_lease i (\<lambda>_. True) (coalesce_revoked t) db))"
    unfolding revoke_within_def by (rule tx_bind_leases) simp
  moreover have "hm_insert i (coalesce_revoked t r) m = m \<or> lease_change m (hm_insert i (coalesce_revoked t r) m)"
    if "hm_get m i = Some r" for m r
    using that by (cases "rl_revoked_at_unix_ms r")
      (auto simp: coalesce_revoked_def hm_insert_same intro: lease_change.revoke)
  ultimately show ?thesis
    using update_lease_leases [of i "\<lambda>_. True" "coalesce_revoked t" db] by metis
qed

lemma raise_change: "unchanged_or_step db (snd (raise_reassignment_grace i g db))"
proof -
  let ?f = "\<lambda>r. r\<lparr>rl_reassignment_grace_ms := Some (encode_u64 g)\<rparr>"
  have "ld_leases (snd (raise_reassignment_grace i g db)) = ld_leases (snd (update_lease i (grace_below g) ?f db))"
    unfolding raise_reassignment_grace_def raise_reassignment_grace_within_def
    by (intro tx_bind_leases) (simp add: tx_bind_leases fetch_lease_leases split: option.split)
  with update_lease_leases [of i "grace_below g" ?f db] show ?thesis
    by (auto intro: lease_change.raise)
qed

section \<open>Histories of the table\<close>

datatype lease_call =
    GetOrIssue stored_lease u64
  | MarkRevoked str u64
  | RevokeWithin str u64
  | RaiseGrace str u64
  | RenewExisting str u64 u64
  | RenewWithinDuration str u64 u64 u64

fun lease_call_step :: "lease_call \<Rightarrow> 'm lease_db_scheme \<Rightarrow> 'm lease_db_scheme" where
  "lease_call_step (GetOrIssue c now) db = snd (get_or_issue c now db)"
| "lease_call_step (MarkRevoked i t) db = snd (mark_revoked i t db)"
| "lease_call_step (RevokeWithin i t) db = snd (revoke_within i t db)"
| "lease_call_step (RaiseGrace i g) db = snd (raise_reassignment_grace i g db)"
| "lease_call_step (RenewExisting i e a) db = snd (renew_existing i e a db)"
| "lease_call_step (RenewWithinDuration i now e a) db = snd (renew_existing_within_duration i now e a db)"

lemma lease_call_change: "unchanged_or_step db (lease_call_step a db)"
proof (cases a)
  case (GetOrIssue c now)
  have "unchanged_or_step db (snd (get_or_issue c now db))"
    unfolding get_or_issue_def by (rule transaction_change) (rule issue_body_change)
  with GetOrIssue show ?thesis by simp
next
  case (MarkRevoked i t)
  have "unchanged_or_step db (snd (mark_revoked i t db))"
    unfolding mark_revoked_def by (rule transaction_change) (rule revoke_body_change)
  with MarkRevoked show ?thesis by simp
next
  case (RenewExisting i e a)
  have "unchanged_or_step db (snd (renew_existing i e a db))"
    unfolding renew_existing_def by (rule transaction_change) (rule renew_body_change)
  with RenewExisting show ?thesis by simp
next
  case (RenewWithinDuration i now e a)
  have "unchanged_or_step db (snd (renew_existing_within_duration i now e a db))"
    unfolding renew_existing_within_duration_def by (rule transaction_change) (rule renew_within_body_change)
  with RenewWithinDuration show ?thesis by simp
qed (use revoke_within_change raise_change in simp_all)

definition lease_in :: "(str, raw_lease_row) hash_map \<Rightarrow> str \<Rightarrow> stored_lease option" where
  "lease_in m i = (case hm_get m i of
     None \<Rightarrow> None
   | Some r \<Rightarrow> (case into_stored r of Inr l \<Rightarrow> Some l | Inl _ \<Rightarrow> None))"

definition lease_identity :: "stored_lease \<Rightarrow> (str \<times> str \<times> str \<times> str \<times> str) \<times> (u64 \<times> u64 \<times> u64 \<times> u64)" where
  "lease_identity l =
     ((sl_lease_id l, sl_job_id l, sl_attempt_id l, sl_holder_node_id l, sl_issuing_coordinator_id l),
      (sl_fence_epoch l, sl_coordinator_term l, sl_issued_at_unix_ms l, sl_max_total_duration_seconds l))"

definition lease_evolves :: "stored_lease \<Rightarrow> stored_lease \<Rightarrow> bool" where
  "lease_evolves l l' \<longleftrightarrow> lease_identity l' = lease_identity l \<and>
     sl_reassignment_grace_ms l \<le> sl_reassignment_grace_ms l' \<and>
     (sl_revoked_at_unix_ms l \<noteq> None \<longrightarrow> l' = l)"

lemma grace_below_less:
  assumes "into_stored r = Inr l" and "grace_below g r"
  shows "sl_reassignment_grace_ms l \<le> g"
proof (cases "rl_reassignment_grace_ms r")
  case None
  with assms(1) show ?thesis by (auto simp: into_stored_def result_ok)
next
  case (Some b)
  with assms(1) obtain v where v: "decode_u64 b = Inr v" "sl_reassignment_grace_ms l = v"
    by (auto simp: into_stored_def result_ok decode_nullable_def)
  from assms(2) Some have "blob_less b (encode_u64 g)" by (simp add: grace_below_def)
  then have "v < g" unfolding decode_eq_encode [OF v(1)] by (simp add: encode_u64_def)
  with v(2) show ?thesis by simp
qed

lemma into_stored_active:
  "into_stored r = Inr l \<Longrightarrow> rl_revoked_at_unix_ms r = None \<Longrightarrow> sl_revoked_at_unix_ms l = None"
  by (simp add: into_stored_revoked)

lemma lease_change_evolves:
  assumes "lease_change m m'" and "hm_invar m" and "lease_in m i = Some l"
  shows "\<exists>l'. lease_in m' i = Some l' \<and> lease_evolves l l'"
  using assms
proof cases
  case (raise j r g)
  then show ?thesis using assms(2,3) grace_below_less [of r l g] into_stored_active [of r l]
    by (auto simp: lease_in_def hm.get_insert into_stored_raise lease_evolves_def lease_identity_def
        grace_below_def split: option.splits sum.splits)
qed (use into_stored_active in \<open>auto simp: lease_in_def hm.get_insert into_stored_revoke into_stored_renew
    lease_evolves_def lease_identity_def split: option.splits sum.splits if_splits\<close>)

interpretation lh: fact_history lease_call_step "\<lambda>db. lease_in (ld_leases db)" lease_evolves
  "\<lambda>db. hm_invar (ld_leases db)"
proof unfold_locales
  fix db :: "'a lease_db_scheme" and a assume inv: "hm_invar (ld_leases db)"
  show "hm_invar (ld_leases (lease_call_step a db))"
    using lease_call_change [of a db] inv
    by (auto elim!: lease_change.cases simp: hm_invar_insert)
  fix i l assume "lease_in (ld_leases db) i = Some l"
  with lease_call_change [of a db] lease_change_evolves [OF _ inv this]
  show "\<exists>l'. lease_in (ld_leases (lease_call_step a db)) i = Some l' \<and> lease_evolves l l'"
    by (auto simp: lease_evolves_def)
qed (auto simp: lease_evolves_def)

end
