(* ===== verification/Lease_Refinement.thy ===== *)
theory Lease_Refinement
  imports Lease_Store
begin

text \<open>
  The contract of the lease table (\<open>crates/coordinator/src/lease_store.rs\<close>) over a plain map
  from ids to leases, the proof that the table of bytes implements it while no statement fails,
  and the properties of the store: facts survive, renewals stay within the duration, a resume is
  granted for the caller's own live lease only.
\<close>

section \<open>The table without failures\<close>

text \<open>What the store promises, over a plain map from ids to leases.\<close>

datatype lease_answer = Lease stored_lease | Done | Renewal renew_decision

fun spec_lease :: "lease_call \<Rightarrow> (str \<rightharpoonup> stored_lease) \<Rightarrow> (lease_store_error + lease_answer) \<times> (str \<rightharpoonup> stored_lease)" where
  "spec_lease (GetOrIssue c now) m =
     (case m (sl_lease_id c) of
        None \<Rightarrow> (Ok (Lease c), m(sl_lease_id c \<mapsto> c\<lparr>sl_revoked_at_unix_ms := None\<rparr>))
      | Some l \<Rightarrow>
          (and_then (check_identity_conflict l c) (\<lambda>_.
             case sl_revoked_at_unix_ms l of
               Some t \<Rightarrow> Err (LeaseRevoked t)
             | None \<Rightarrow> if sl_expires_at_unix_ms l \<le> now then Err (LeaseExpired (sl_expires_at_unix_ms l))
                        else Ok (Lease l)), m))"
| "spec_lease (MarkRevoked i t) m =
     (case m i of
        None \<Rightarrow> (Err LeaseNotFound, m)
      | Some l \<Rightarrow> let l' = (if sl_revoked_at_unix_ms l = None then l\<lparr>sl_revoked_at_unix_ms := Some t\<rparr> else l)
                  in (Ok (Lease l'), m(i \<mapsto> l')))"
| "spec_lease (RevokeWithin i t) m =
     (case m i of
        None \<Rightarrow> (Err LeaseNotFound, m)
      | Some l \<Rightarrow> (Ok Done, m(i \<mapsto> (if sl_revoked_at_unix_ms l = None
                                      then l\<lparr>sl_revoked_at_unix_ms := Some t\<rparr> else l))))"
| "spec_lease (RaiseGrace i g) m =
     (case m i of
        None \<Rightarrow> (Err LeaseNotFound, m)
      | Some l \<Rightarrow>
          (case sl_revoked_at_unix_ms l of
             Some t \<Rightarrow> (Err (LeaseRevoked t), m)
           | None \<Rightarrow> let l' = l\<lparr>sl_reassignment_grace_ms := max (sl_reassignment_grace_ms l) g\<rparr>
                      in (Ok (Lease l'), m(i \<mapsto> l'))))"
| "spec_lease (RenewExisting i e a) m =
     (case m i of
        None \<Rightarrow> (Err LeaseNotFound, m)
      | Some l \<Rightarrow>
          (case sl_revoked_at_unix_ms l of
             Some t \<Rightarrow> (Err (LeaseRevoked t), m)
           | None \<Rightarrow> let l' = l\<lparr>sl_expires_at_unix_ms := e, sl_renew_after_unix_ms := a\<rparr>
                      in (Ok (Lease l'), m(i \<mapsto> l'))))"
| "spec_lease (RenewWithinDuration i now e a) m =
     (case m i of
        None \<Rightarrow> (Err LeaseNotFound, m)
      | Some l \<Rightarrow>
          (case sl_revoked_at_unix_ms l of
             Some t \<Rightarrow> (Err (LeaseRevoked t), m)
           | None \<Rightarrow>
               if sl_expires_at_unix_ms l \<le> now then (Err (LeaseExpired (sl_expires_at_unix_ms l)), m)
               else if is_max_duration_exceeded l now then (Ok (Renewal (MaxDurationExceeded l)), m)
               else let l' = l\<lparr>sl_expires_at_unix_ms := e, sl_renew_after_unix_ms := a\<rparr>
                    in (Ok (Renewal (Renewed l')), m(i \<mapsto> l'))))"

definition map_answer :: "('a \<Rightarrow> lease_answer) \<Rightarrow> (lease_store_error + 'a) \<Rightarrow> lease_store_error + lease_answer" where
  "map_answer f r = and_then r (\<lambda>x. Ok (f x))"

fun lease_call_answer :: "lease_call \<Rightarrow> lease_db \<Rightarrow> lease_store_error + lease_answer" where
  "lease_call_answer (GetOrIssue c now) db = map_answer Lease (fst (get_or_issue c now db))"
| "lease_call_answer (MarkRevoked i t) db = map_answer Lease (fst (mark_revoked i t db))"
| "lease_call_answer (RevokeWithin i t) db = map_answer (\<lambda>_. Done) (fst (revoke_within i t db))"
| "lease_call_answer (RaiseGrace i g) db = map_answer Lease (fst (raise_reassignment_grace i g db))"
| "lease_call_answer (RenewExisting i e a) db = map_answer Lease (fst (renew_existing i e a db))"
| "lease_call_answer (RenewWithinDuration i now e a) db =
     map_answer Renewal (fst (renew_existing_within_duration i now e a db))"

text \<open>A readable table on a connection that does not fail.\<close>

definition lease_table_ok :: "lease_db \<Rightarrow> bool" where
  "lease_table_ok db \<longleftrightarrow> db_tape db = [] \<and> hm_invar (ld_leases db) \<and>
     (\<forall>i r. hm_get (ld_leases db) i = Some r \<longrightarrow> (\<exists>l. into_stored r = Inr l))"

lemma fetch_lease_no_fault: "lease_table_ok db \<Longrightarrow> fetch_lease i db = (Ok (lease_in (ld_leases db) i), db)"
  by (fastforce simp: fetch_lease_def tx_bind_def statement_no_fault lift_result_def lease_table_ok_def lease_in_def
      split: option.splits sum.splits)

lemma row_in:
  assumes "lease_table_ok db"
  shows "lease_in (ld_leases db) i = None \<longleftrightarrow> hm_get (ld_leases db) i = None"
    and "lease_in (ld_leases db) i = Some l \<longleftrightarrow> (\<exists>r. hm_get (ld_leases db) i = Some r \<and> into_stored r = Inr l)"
  using assms by (auto simp: lease_table_ok_def lease_in_def split: option.splits sum.splits) fastforce+

text \<open>Replacing or adding a readable row.\<close>

definition put_row :: "str \<Rightarrow> raw_lease_row \<Rightarrow> lease_db \<Rightarrow> lease_db" where
  "put_row i r db = db\<lparr>ld_leases := hm_insert i r (ld_leases db)\<rparr>"

lemma put_row_ok:
  assumes "lease_table_ok db" and "into_stored r = Inr l"
  shows "lease_table_ok (put_row i r db)"
    and "lease_in (ld_leases (put_row i r db)) = (lease_in (ld_leases db))(i \<mapsto> l)"
    and "db_tape (put_row i r db) = []"
  using assms by (auto simp: put_row_def lease_table_ok_def lease_in_def hm.get_insert hm_invar_insert fun_eq_iff split: if_splits)

lemma update_lease_no_fault:
  assumes "db_tape db = []" and "hm_get (ld_leases db) i = Some r"
  shows "update_lease i cond f db = (if cond r then (Ok 1, put_row i (f r) db) else (Ok 0, db))"
  using assms by (simp add: update_lease_def statement_no_fault put_row_def)

lemma grace_below_iff:
  assumes "into_stored r = Inr l"
  shows "grace_below g r \<longleftrightarrow> sl_revoked_at_unix_ms l = None \<and>
    (rl_reassignment_grace_ms r = None \<or> sl_reassignment_grace_ms l < g)"
proof (cases "rl_reassignment_grace_ms r")
  case None
  then show ?thesis by (simp add: grace_below_def into_stored_revoked [OF assms])
next
  case (Some b)
  with assms obtain v where v: "decode_u64 b = Inr v" "sl_reassignment_grace_ms l = v"
    by (auto simp: into_stored_def result_ok decode_nullable_def)
  have "blob_less b (encode_u64 g) \<longleftrightarrow> v < g" unfolding decode_eq_encode [OF v(1)] by (simp add: encode_u64_def)
  with Some v(2) show ?thesis by (simp add: grace_below_def into_stored_revoked [OF assms])
qed

definition refines_spec :: "lease_call \<Rightarrow> lease_db \<Rightarrow> bool" where
  "refines_spec a db \<longleftrightarrow>
     (lease_call_answer a db, lease_in (ld_leases (lease_call_step a db))) = spec_lease a (lease_in (ld_leases db)) \<and>
     lease_table_ok (lease_call_step a db)"

lemma get_or_issue_refines:
  assumes ok: "lease_table_ok db"
  shows "refines_spec (GetOrIssue c now) db"
proof -
  have tape: "db_tape db = []" using ok by (simp add: lease_table_ok_def)
  show ?thesis
  proof (cases "lease_in (ld_leases db) (sl_lease_id c)")
    case None
    then have "issue_body c now db = (Ok (Ok c), put_row (sl_lease_id c) (inserted_row c) db)"
      using tape row_in(1) [OF ok, of "sl_lease_id c"]
      by (simp add: issue_body_def fetch_lease_no_fault [OF ok] None insert_lease_def tx_bind_def
          statement_result_no_fault hm_contains_key_def tx_return_def put_row_def)
    from in_transaction_result_no_fault [of db "issue_body c now", OF tape this] put_row_ok [OF ok into_stored_inserted]
    show ?thesis by (simp add: refines_spec_def get_or_issue_def map_answer_def None)
  next
    case (Some l)
    let ?res = "and_then (check_identity_conflict l c) (\<lambda>_. Ok (case sl_revoked_at_unix_ms l of
             Some t \<Rightarrow> Err (LeaseRevoked t)
           | None \<Rightarrow> if sl_expires_at_unix_ms l \<le> now then Err (LeaseExpired (sl_expires_at_unix_ms l)) else Ok l))"
    from Some have "issue_body c now db = (?res, db)"
      by (simp add: issue_body_def fetch_lease_no_fault [OF ok] tx_bind_def lift_result_def tx_return_def and_then_def
          split: sum.splits)
    from in_transaction_result_no_fault [of db "issue_body c now", OF tape this tape] ok
    show ?thesis
      by (cases "check_identity_conflict l c")
        (auto simp: refines_spec_def get_or_issue_def map_answer_def Some split: option.splits)
  qed
qed

lemma mark_revoked_refines:
  assumes ok: "lease_table_ok db"
  shows "refines_spec (MarkRevoked i t) db"
proof (cases "lease_in (ld_leases db) i")
  case None
  have tape: "db_tape db = []" using ok by (simp add: lease_table_ok_def)
  from None have "revoke_body i t db = (Ok (Err LeaseNotFound), db)"
    by (simp add: revoke_body_def fetch_lease_no_fault [OF ok] tx_bind_def tx_return_def)
  from in_transaction_result_no_fault [of db "revoke_body i t", OF tape this tape] ok
  show ?thesis by (simp add: refines_spec_def mark_revoked_def map_answer_def None)
next
  case (Some l)
  have tape: "db_tape db = []" using ok by (simp add: lease_table_ok_def)
  obtain r where r: "hm_get (ld_leases db) i = Some r" "into_stored r = Inr l" using row_in(2) [OF ok] Some by blast
  show ?thesis
  proof (cases "sl_revoked_at_unix_ms l")
    case None
    let ?r = "r\<lparr>rl_revoked_at_unix_ms := Some (encode_u64 t)\<rparr>"
    have "revoke_body i t db = (Ok (Ok (l\<lparr>sl_revoked_at_unix_ms := Some t\<rparr>)), put_row i ?r db)"
      using None by (simp add: revoke_body_def fetch_lease_no_fault [OF ok] Some tx_bind_def tx_return_def
          update_lease_no_fault [OF tape r(1)] Let_def)
    from in_transaction_result_no_fault [of db "revoke_body i t", OF tape this] put_row_ok [OF ok into_stored_revoke [OF r(2), of t]]
    show ?thesis by (simp add: refines_spec_def mark_revoked_def map_answer_def Some None Let_def)
  next
    case (Some t')
    then have "revoke_body i t db = (Ok (Ok l), db)"
      using \<open>lease_in (ld_leases db) i = Some l\<close>
      by (simp add: revoke_body_def fetch_lease_no_fault [OF ok] tx_bind_def tx_return_def Let_def)
    from in_transaction_result_no_fault [of db "revoke_body i t", OF tape this tape] ok Some
    show ?thesis using \<open>lease_in (ld_leases db) i = Some l\<close>
      by (auto simp: refines_spec_def mark_revoked_def map_answer_def Let_def)
  qed
qed

lemma coalesce_revoked_same: "rl_revoked_at_unix_ms r \<noteq> None \<Longrightarrow> coalesce_revoked t r = r"
  by (cases r) (auto simp: coalesce_revoked_def)

lemma revoke_within_refines:
  assumes ok: "lease_table_ok db"
  shows "refines_spec (RevokeWithin i t) db"
proof (cases "lease_in (ld_leases db) i")
  case None
  with ok row_in(1) [OF ok, of i] show ?thesis
    by (simp add: refines_spec_def revoke_within_def update_lease_def lease_table_ok_def tx_bind_def
        statement_no_fault tx_fail_def map_answer_def)
next
  case (Some l)
  have tape: "db_tape db = []" using ok by (simp add: lease_table_ok_def)
  obtain r where r: "hm_get (ld_leases db) i = Some r" "into_stored r = Inr l" using row_in(2) [OF ok] Some by blast
  have "into_stored (coalesce_revoked t r) =
      Inr (if sl_revoked_at_unix_ms l = None then l\<lparr>sl_revoked_at_unix_ms := Some t\<rparr> else l)"
    using into_stored_revoke [OF r(2), of t] into_stored_revoked [OF r(2)] r(2)
    by (cases "rl_revoked_at_unix_ms r") (simp_all add: coalesce_revoked_same, simp add: coalesce_revoked_def)
  from put_row_ok [OF ok this] show ?thesis
    by (simp add: refines_spec_def revoke_within_def update_lease_no_fault [OF tape r(1)] tx_bind_def tx_return_def
        map_answer_def Some)
qed

text \<open>The two renewals share the update of the row.\<close>

lemma renew_refines:
  assumes ok: "lease_table_ok db"
  shows "refines_spec (RenewExisting i e a) db"
proof (cases "lease_in (ld_leases db) i")
  case None
  have tape: "db_tape db = []" using ok by (simp add: lease_table_ok_def)
  from None have "renew_body i e a db = (Ok (Err LeaseNotFound), db)"
    by (simp add: renew_body_def fetch_lease_no_fault [OF ok] tx_bind_def tx_return_def)
  from in_transaction_result_no_fault [of db "renew_body i e a", OF tape this tape] ok
  show ?thesis by (simp add: refines_spec_def renew_existing_def map_answer_def None)
next
  case (Some l)
  have tape: "db_tape db = []" using ok by (simp add: lease_table_ok_def)
  obtain r where r: "hm_get (ld_leases db) i = Some r" "into_stored r = Inr l" using row_in(2) [OF ok] Some by blast
  let ?r = "r\<lparr>rl_expires_at_unix_ms := encode_u64 e, rl_renew_after_unix_ms := encode_u64 a\<rparr>"
  note put = put_row_ok [OF ok into_stored_renew [OF r(2), where e = e and a = a]]
  have "renew_body i e a db = (case sl_revoked_at_unix_ms l of
      Some t \<Rightarrow> (Ok (Err (LeaseRevoked t)), db)
    | None \<Rightarrow> (Ok (Ok (l\<lparr>sl_expires_at_unix_ms := e, sl_renew_after_unix_ms := a\<rparr>)), put_row i ?r db))"
    by (simp add: renew_body_def fetch_lease_no_fault [OF ok] Some tx_bind_def tx_return_def set_expiry_def
        update_lease_no_fault [OF tape r(1)] split: option.splits)
  then show ?thesis
    using in_transaction_result_no_fault [of db "renew_body i e a", OF tape] ok tape put
    by (cases "sl_revoked_at_unix_ms l")
      (auto simp: refines_spec_def renew_existing_def map_answer_def Some Let_def)
qed

lemma renew_within_refines:
  assumes ok: "lease_table_ok db"
  shows "refines_spec (RenewWithinDuration i now e a) db"
proof (cases "lease_in (ld_leases db) i")
  case None
  have tape: "db_tape db = []" using ok by (simp add: lease_table_ok_def)
  from None have "renew_within_body i now e a db = (Ok (Err LeaseNotFound), db)"
    by (simp add: renew_within_body_def fetch_lease_no_fault [OF ok] tx_bind_def tx_return_def)
  from in_transaction_result_no_fault [of db "renew_within_body i now e a", OF tape this tape] ok
  show ?thesis by (simp add: refines_spec_def renew_existing_within_duration_def map_answer_def None)
next
  case (Some l)
  have tape: "db_tape db = []" using ok by (simp add: lease_table_ok_def)
  obtain r where r: "hm_get (ld_leases db) i = Some r" "into_stored r = Inr l" using row_in(2) [OF ok] Some by blast
  let ?r = "r\<lparr>rl_expires_at_unix_ms := encode_u64 e, rl_renew_after_unix_ms := encode_u64 a\<rparr>"
  note put = put_row_ok [OF ok into_stored_renew [OF r(2), where e = e and a = a]]
  have "renew_within_body i now e a db = (case sl_revoked_at_unix_ms l of
      Some t \<Rightarrow> (Ok (Err (LeaseRevoked t)), db)
    | None \<Rightarrow>
        if sl_expires_at_unix_ms l \<le> now then (Ok (Err (LeaseExpired (sl_expires_at_unix_ms l))), db)
        else if is_max_duration_exceeded l now then (Ok (Ok (MaxDurationExceeded l)), db)
        else (Ok (Ok (Renewed (l\<lparr>sl_expires_at_unix_ms := e, sl_renew_after_unix_ms := a\<rparr>))), put_row i ?r db))"
    by (simp add: renew_within_body_def fetch_lease_no_fault [OF ok] Some tx_bind_def tx_return_def set_expiry_def
        update_lease_no_fault [OF tape r(1)] split: option.splits)
  then show ?thesis
    using in_transaction_result_no_fault [of db "renew_within_body i now e a", OF tape] ok tape put
    by (cases "sl_revoked_at_unix_ms l")
      (auto simp: refines_spec_def renew_existing_within_duration_def map_answer_def Some Let_def)
qed

lemma raise_refines:
  assumes ok: "lease_table_ok db"
  shows "refines_spec (RaiseGrace i g) db"
proof (cases "lease_in (ld_leases db) i")
  case None
  with ok row_in(1) [OF ok, of i] show ?thesis
    by (simp add: refines_spec_def raise_reassignment_grace_def raise_reassignment_grace_within_def update_lease_def
        tx_bind_def lease_table_ok_def statement_no_fault fetch_lease_no_fault [OF ok] lift_result_def map_answer_def)
next
  case (Some l)
  have tape: "db_tape db = []" using ok by (simp add: lease_table_ok_def)
  obtain r where r: "hm_get (ld_leases db) i = Some r" "into_stored r = Inr l" using row_in(2) [OF ok] Some by blast
  note put = put_row_ok [OF ok into_stored_raise [OF r(2), of g], of i]
  have below: "grace_below g r \<longleftrightarrow> sl_revoked_at_unix_ms l = None \<and>
      (rl_reassignment_grace_ms r = None \<or> sl_reassignment_grace_ms l < g)"
    by (rule grace_below_iff [OF r(2)])
  have zero: "rl_reassignment_grace_ms r = None \<Longrightarrow> sl_reassignment_grace_ms l = 0"
    using r(2) by (auto simp: into_stored_def result_ok)
  have "raise_reassignment_grace i g db = (case sl_revoked_at_unix_ms l of
      Some t \<Rightarrow> (Err (LeaseRevoked t), db)
    | None \<Rightarrow> if grace_below g r
        then (Ok (l\<lparr>sl_reassignment_grace_ms := g\<rparr>), put_row i (r\<lparr>rl_reassignment_grace_ms := Some (encode_u64 g)\<rparr>) db)
        else (Ok l, db))"
    using put below
    by (auto simp: raise_reassignment_grace_def raise_reassignment_grace_within_def tx_bind_def
        update_lease_no_fault [OF tape r(1)] fetch_lease_no_fault ok Some lift_result_def tx_return_def tx_fail_def
        split: option.splits)
  moreover have "max (sl_reassignment_grace_ms l) g = (if grace_below g r then g else sl_reassignment_grace_ms l)"
    if "sl_revoked_at_unix_ms l = None" using below zero that by (auto simp: max_def)
  ultimately show ?thesis
    using put ok by (auto simp: refines_spec_def map_answer_def Some Let_def split: option.splits if_splits)
qed

lemma lease_call_refines: "lease_table_ok db \<Longrightarrow> refines_spec a db"
  by (cases a) (simp_all add: get_or_issue_refines mark_revoked_refines revoke_within_refines raise_refines
      renew_refines renew_within_refines)

text \<open>The answers of a whole history, from the table and from the map.\<close>

fun lease_answers :: "lease_call list \<Rightarrow> lease_db \<Rightarrow> (lease_store_error + lease_answer) list" where
  "lease_answers [] db = []"
| "lease_answers (a # as) db = lease_call_answer a db # lease_answers as (lease_call_step a db)"

fun spec_answers :: "lease_call list \<Rightarrow> (str \<rightharpoonup> stored_lease) \<Rightarrow> (lease_store_error + lease_answer) list" where
  "spec_answers [] m = []"
| "spec_answers (a # as) m = fst (spec_lease a m) # spec_answers as (snd (spec_lease a m))"

lemma lease_answers_refine:
  "lease_table_ok db \<Longrightarrow> lease_answers as db = spec_answers as (lease_in (ld_leases db)) \<and>
     lease_in (ld_leases (fold lease_call_step as db)) = fold (\<lambda>a m. snd (spec_lease a m)) as (lease_in (ld_leases db))"
proof (induction as arbitrary: db)
  case (Cons a as)
  from lease_call_refines [OF Cons.prems, of a] have
    "lease_call_answer a db = fst (spec_lease a (lease_in (ld_leases db)))"
    "lease_in (ld_leases (lease_call_step a db)) = snd (spec_lease a (lease_in (ld_leases db)))"
    "lease_table_ok (lease_call_step a db)"
    by (metis refines_spec_def fst_conv, metis refines_spec_def snd_conv, simp add: refines_spec_def)
  with Cons.IH show ?case by simp
qed simp

section \<open>Properties\<close>

lemma unat_saturating_mul: "unat (saturating_mul a b) = min (unat a * unat b) (2 ^ 64 - 1)"
proof (cases "unat a * unat b < 2 ^ 64")
  case True
  then show ?thesis by (simp add: saturating_mul_def unat_word_ariths)
next
  case False
  then show ?thesis by (simp add: saturating_mul_def unat_minus_one_max)
qed

lemma not_exceeded:
  assumes "\<not> is_max_duration_exceeded l now"
  shows "sl_issued_at_unix_ms l \<le> now \<and>
    unat now - unat (sl_issued_at_unix_ms l) < unat (sl_max_total_duration_seconds l) * 1000"
proof -
  have le: "sl_issued_at_unix_ms l \<le> now" and
    less: "now - sl_issued_at_unix_ms l < saturating_mul (sl_max_total_duration_seconds l) 1000"
    using assms by (auto simp: is_max_duration_exceeded_def checked_sub_def Let_def not_less split: option.splits if_splits)
  then show ?thesis by (simp add: word_less_nat_alt unat_saturating_mul unat_sub)
qed


definition empty_lease_db :: lease_db where
  "empty_lease_db = \<lparr>db_tape = [], ld_columns = None, ld_leases = []\<rparr>"

text \<open>
  C38: a lease keeps its facts. Whatever calls are made on the lease table and whatever SQL
  statements fail in between, a lease that is stored stays stored, with the same job, attempt,
  holder, issuer, fence epoch, term, issue time and total duration; its reassignment grace never
  falls; and once it is revoked nothing about it changes any more, its expiry and its revocation
  time included.
\<close>
theorem lease_facts_survive:
  assumes "hm_invar (ld_leases db)" and "lease_in (ld_leases db) i = Some l"
  shows "\<exists>l'. lease_in (ld_leases (fold lease_call_step calls db)) i = Some l' \<and>
    lease_identity l' = lease_identity l \<and> sl_reassignment_grace_ms l \<le> sl_reassignment_grace_ms l' \<and>
    (sl_revoked_at_unix_ms l \<noteq> None \<longrightarrow> l' = l)"
  using lh.history_known [OF assms] unfolding lease_evolves_def .

definition example_lease :: stored_lease where
  "example_lease = \<lparr>sl_lease_id = lit ''l'', sl_job_id = lit ''j'', sl_attempt_id = lit ''a'',
     sl_holder_node_id = lit ''n'', sl_fence_epoch = 5, sl_expires_at_unix_ms = 1000,
     sl_issuing_coordinator_id = lit ''c'', sl_coordinator_term = 1, sl_issued_at_unix_ms = 500,
     sl_renew_after_unix_ms = 800, sl_max_total_duration_seconds = 3600, sl_revoked_at_unix_ms = None,
     sl_reassignment_grace_ms = 0\<rparr>"

definition example_lease_db :: lease_db where
  "example_lease_db = \<lparr>db_tape = [None, Some SqliteBusyOrLocked], ld_columns = Some base_columns,
     ld_leases = [(lit ''l'', inserted_row example_lease)]\<rparr>"

lemma lease_facts_survive_witness:
  "hm_invar (ld_leases example_lease_db) \<and> lease_in (ld_leases example_lease_db) (lit ''l'') = Some example_lease \<and>
   (\<exists>l'. lease_in (ld_leases (fold lease_call_step [MarkRevoked (lit ''l'') 700, RenewExisting (lit ''l'') 9000 8000]
        example_lease_db)) (lit ''l'') = Some l' \<and>
    lease_identity l' = lease_identity example_lease \<and>
    sl_reassignment_grace_ms example_lease \<le> sl_reassignment_grace_ms l' \<and>
    (sl_revoked_at_unix_ms example_lease \<noteq> None \<longrightarrow> l' = example_lease))"
proof -
  have "hm_invar (ld_leases example_lease_db)" by (simp add: example_lease_db_def hm_invar_def)
  moreover have "lease_in (ld_leases example_lease_db) (lit ''l'') = Some example_lease"
    by (simp add: example_lease_db_def lease_in_def hm_get_def into_stored_inserted example_lease_def)
  ultimately show ?thesis using lease_facts_survive by blast
qed

text \<open>
  C37: the lease table is a map from ids to leases. On a new database, as long as no statement
  fails, every history of calls gets the answers the plain map gives and leaves the leases of the
  map behind: the bytes of the columns, their comparison in SQL, the \<open>NULL\<close>s and the
  transactions are not observable.
\<close>
theorem lease_table_refines_map:
  "lease_answers calls empty_lease_db = spec_answers calls Map.empty \<and>
   lease_in (ld_leases (fold lease_call_step calls empty_lease_db)) =
     fold (\<lambda>a m. snd (spec_lease a m)) calls Map.empty"
proof -
  have "lease_table_ok empty_lease_db"
    by (simp add: lease_table_ok_def empty_lease_db_def hm_invar_def hm_get_def)
  moreover have "lease_in (ld_leases empty_lease_db) = Map.empty"
    by (simp add: lease_in_def empty_lease_db_def hm_get_def fun_eq_iff)
  ultimately show ?thesis using lease_answers_refine [of empty_lease_db calls] by simp
qed

text \<open>
  C39: a lease is renewed only while it may be. If the duration-checked renewal reports
  \<open>Renewed\<close>, whatever statements failed before, then the stored lease was not revoked, had
  not expired, was not issued in the future, and its total age was below the maximum duration in
  exact arithmetic; the table then holds the same lease with the new times.
\<close>
theorem renewal_only_within_duration:
  assumes "renew_existing_within_duration i now e a db = (Ok (Renewed l'), db')" and "hm_invar (ld_leases db)"
  shows "\<exists>l. lease_in (ld_leases db) i = Some l \<and> sl_revoked_at_unix_ms l = None \<and>
    now < sl_expires_at_unix_ms l \<and> sl_issued_at_unix_ms l \<le> now \<and>
    unat now - unat (sl_issued_at_unix_ms l) < unat (sl_max_total_duration_seconds l) * 1000 \<and>
    l' = l\<lparr>sl_expires_at_unix_ms := e, sl_renew_after_unix_ms := a\<rparr> \<and> lease_in (ld_leases db') i = Some l'"
proof -
  from assms(1) obtain db1 where "in_transaction lease_map_sql_error (renew_within_body i now e a) db = (Inr (Ok (Renewed l')), db1)" "db' = db1"
    by (auto simp: renew_existing_within_duration_def in_transaction_result_def tx_ok)
  from in_transaction_Ok [OF this(1)] this(2) obtain t db2 t' where
    body: "renew_within_body i now e a (db\<lparr>db_tape := t\<rparr>) = (Inr (Ok (Renewed l')), db2)" and "db' = db2\<lparr>db_tape := t'\<rparr>"
    by metis
  then have after: "ld_leases db' = ld_leases db2" by simp
  from body show ?thesis unfolding renew_within_body_def
  proof (cases rule: fetched)
    case (some db3 r l)
    from some(4) have l: "sl_revoked_at_unix_ms l = None" "\<not> sl_expires_at_unix_ms l \<le> now"
      "\<not> is_max_duration_exceeded l now" "l' = l\<lparr>sl_expires_at_unix_ms := e, sl_renew_after_unix_ms := a\<rparr>"
      by (auto simp: tx_ok split: option.splits if_splits)
    from some l obtain n where "set_expiry i e a db3 = (Inr n, db2)"
      by (auto simp: tx_ok split: option.splits if_splits)
    then have "ld_leases db2 = hm_insert i (r\<lparr>rl_expires_at_unix_ms := encode_u64 e, rl_renew_after_unix_ms := encode_u64 a\<rparr>)
        (ld_leases db)"
      using some(1,2) by (auto simp: set_expiry_def update_lease_def tx_ok)
    then have "lease_in (ld_leases db') i = Some l'"
      using assms(2) l(4) by (simp add: after lease_in_def hm.get_insert into_stored_renew [OF some(3)])
    moreover have "lease_in (ld_leases db) i = Some l" using some(2,3) by (simp add: lease_in_def)
    ultimately show ?thesis using l not_exceeded [OF l(3)] by (auto simp: not_le)
  qed (simp add: tx_ok)
qed

lemma example_lease_in: "lease_in (ld_leases example_lease_db) (lit ''l'') = Some example_lease"
  by (simp add: example_lease_db_def lease_in_def hm_get_def into_stored_inserted example_lease_def)

definition quiet_lease_db :: lease_db where "quiet_lease_db = example_lease_db\<lparr>db_tape := []\<rparr>"

lemma quiet_lease_ok: "lease_table_ok quiet_lease_db"
  by (simp add: lease_table_ok_def quiet_lease_db_def example_lease_db_def hm_invar_def hm_get_def into_stored_inserted)

lemma quiet_renewal:
  "\<exists>db'. renew_existing_within_duration (lit ''l'') 900 2000 1500 quiet_lease_db =
     (Ok (Renewed (example_lease\<lparr>sl_expires_at_unix_ms := 2000, sl_renew_after_unix_ms := 1500\<rparr>)), db')"
proof -
  have now: "\<not> is_max_duration_exceeded example_lease 900"
    by (simp add: is_max_duration_exceeded_def checked_sub_def saturating_mul_def example_lease_def)
  have "refines_spec (RenewWithinDuration (lit ''l'') 900 2000 1500) quiet_lease_db"
    by (rule lease_call_refines [OF quiet_lease_ok])
  then have "lease_call_answer (RenewWithinDuration (lit ''l'') 900 2000 1500) quiet_lease_db =
      Ok (Renewal (Renewed (example_lease\<lparr>sl_expires_at_unix_ms := 2000, sl_renew_after_unix_ms := 1500\<rparr>)))"
    using now example_lease_in
    by (auto simp: refines_spec_def quiet_lease_db_def) (simp_all add: example_lease_def Let_def)
  then show ?thesis by (cases "renew_existing_within_duration (lit ''l'') 900 2000 1500 quiet_lease_db")
      (auto simp: map_answer_def and_then_Ok)
qed

lemma renewal_only_within_duration_witness:
  "\<exists>db' l. renew_existing_within_duration (lit ''l'') 900 2000 1500 quiet_lease_db =
     (Ok (Renewed (example_lease\<lparr>sl_expires_at_unix_ms := 2000, sl_renew_after_unix_ms := 1500\<rparr>)), db') \<and>
   lease_in (ld_leases quiet_lease_db) (lit ''l'') = Some l \<and> 900 < sl_expires_at_unix_ms l"
proof -
  obtain db' where r: "renew_existing_within_duration (lit ''l'') 900 2000 1500 quiet_lease_db =
     (Ok (Renewed (example_lease\<lparr>sl_expires_at_unix_ms := 2000, sl_renew_after_unix_ms := 1500\<rparr>)), db')"
    using quiet_renewal by blast
  have "hm_invar (ld_leases quiet_lease_db)" using quiet_lease_ok by (simp add: lease_table_ok_def)
  from renewal_only_within_duration [OF r this] r show ?thesis by blast
qed

text \<open>
  A node resumes exactly its own live lease. A resume request is answered with \<open>Resumed\<close>
  if and only if the lease is stored, names the same node, job and attempt, is not revoked, has
  not expired and carries the same fence epoch; classifying changes nothing.
\<close>
theorem classify_resume_iff:
  assumes "classify_resume req now db = (Ok d, db')"
  shows "ld_leases db' = ld_leases db \<and>
    (d = Resumed l \<longleftrightarrow> lease_in (ld_leases db) (ri_lease_id req) = Some l \<and>
       sl_holder_node_id l = ri_node_id req \<and> sl_job_id l = ri_job_id req \<and> sl_attempt_id l = ri_attempt_id req \<and>
       sl_revoked_at_unix_ms l = None \<and> now < sl_expires_at_unix_ms l \<and> sl_fence_epoch l = ri_fence_epoch req)"
  using assms unfolding classify_resume_def
proof (cases rule: fetched)
  case (none db2)
  then show ?thesis by (auto simp: tx_ok lease_in_def)
next
  case (some db2 r s)
  then show ?thesis by (auto simp: tx_ok lease_in_def not_le not_less split: if_splits)
qed

definition example_resume :: resume_request_identity where
  "example_resume = \<lparr>ri_lease_id = lit ''l'', ri_node_id = lit ''n'', ri_job_id = lit ''j'',
     ri_attempt_id = lit ''a'', ri_fence_epoch = 5\<rparr>"

lemma classify_resume_iff_witness:
  "\<exists>d db'. classify_resume example_resume 900 quiet_lease_db = (Ok d, db') \<and> d = Resumed example_lease"
proof -
  have lease: "lease_in (ld_leases quiet_lease_db) (lit ''l'') = Some example_lease"
    using example_lease_in by (simp add: quiet_lease_db_def)
  obtain d where r: "classify_resume example_resume 900 quiet_lease_db = (Ok d, quiet_lease_db)"
    by (simp add: classify_resume_def tx_bind_def fetch_lease_no_fault [OF quiet_lease_ok] tx_return_def)
  from classify_resume_iff [OF r, of example_lease] lease have "d = Resumed example_lease"
    by (simp add: example_resume_def del: lit_simps) (simp add: example_lease_def)
  with r show ?thesis by blast
qed

end
