(* ===== verification/Fence_Watermark.thy ===== *)
theory Fence_Watermark
  imports Sql_Tx Rust_Collections Rust_Bytes
begin

text \<open>
  Fence watermarks, \<open>crates/runtime-policy/src/lease_scope.rs\<close> (in memory) and
  \<open>durable_lease_scope.rs\<close> (SQLite): an epoch below the watermark of its resource is stale,
  any other epoch becomes the watermark. The locale \<open>fence_guard\<close> is their common contract;
  the lemma proved there is that the accepted epochs of a resource never decrease.
\<close>

section \<open>In memory\<close>

datatype lease_scope_violation = StaleEpoch str u64 u64

type_synonym fence_watermark = "(str, u64) hash_map"

definition new_watermark :: fence_watermark where "new_watermark = []"

definition check_and_advance :: "str \<Rightarrow> u64 \<Rightarrow> fence_watermark \<Rightarrow> (lease_scope_violation + unit) \<times> fence_watermark" where
  "check_and_advance resource epoch seen =
     (let watermark = (case hm_get seen resource of Some w \<Rightarrow> w | None \<Rightarrow> 0) in
      if epoch < watermark then (Err (StaleEpoch resource epoch watermark), seen)
      else (Ok (), hm_insert resource epoch seen))"

datatype external_fencing_class = SuppressedNotEnforced

definition classify_external :: "fence_watermark \<Rightarrow> str \<Rightarrow> external_fencing_class" where
  "classify_external seen url = SuppressedNotEnforced"

section \<open>On disk\<close>

datatype durable_fence_error = FenceStale lease_scope_violation | FenceIo | FenceLockTimeout

definition fence_map_sql_error :: "sql_error \<Rightarrow> durable_fence_error" where
  "fence_map_sql_error e = (case e of SqliteBusyOrLocked \<Rightarrow> FenceLockTimeout | SqliteOther \<Rightarrow> FenceIo)"

record fence_db = sql_conn +
  fd_watermarks :: "(str, bytes) hash_map option"

type_synonym 'a fence_tx = "fence_db \<Rightarrow> (durable_fence_error + 'a) \<times> fence_db"

definition encode_watermark :: "u64 \<Rightarrow> bytes" where
  "encode_watermark epoch = to_be_bytes_u64 epoch"

definition decode_watermark :: "bytes \<Rightarrow> durable_fence_error + u64" where
  "decode_watermark bs = (if length bs = 8 then Ok (from_be_bytes_u64 bs) else Err FenceIo)"

text \<open>\<open>CREATE TABLE IF NOT EXISTS\<close>; a query on a missing table is an error.\<close>

definition open_fence_store :: "unit fence_tx" where
  "open_fence_store =
     tx_bind (statement fence_map_sql_error (\<lambda>db. ((), db))) (\<lambda>_.
     tx_bind (statement fence_map_sql_error (\<lambda>db. ((), db))) (\<lambda>_.
       statement fence_map_sql_error (\<lambda>db. ((), db\<lparr>fd_watermarks :=
         (case fd_watermarks db of Some m \<Rightarrow> Some m | None \<Rightarrow> Some [])\<rparr>))))"

definition select_watermark :: "str \<Rightarrow> bytes option fence_tx" where
  "select_watermark resource = statement_result fence_map_sql_error (\<lambda>db.
     case fd_watermarks db of None \<Rightarrow> (Err FenceIo, db) | Some m \<Rightarrow> (Ok (hm_get m resource), db))"

definition upsert_watermark :: "str \<Rightarrow> u64 \<Rightarrow> unit fence_tx" where
  "upsert_watermark resource epoch = statement_result fence_map_sql_error (\<lambda>db.
     case fd_watermarks db of
       None \<Rightarrow> (Err FenceIo, db)
     | Some m \<Rightarrow> (Ok (), db\<lparr>fd_watermarks := Some (hm_insert resource (encode_watermark epoch) m)\<rparr>))"

definition advance_body :: "str \<Rightarrow> u64 \<Rightarrow> (durable_fence_error + unit) fence_tx" where
  "advance_body resource epoch =
     tx_bind (select_watermark resource) (\<lambda>current.
     tx_bind (lift_result (case current of Some bs \<Rightarrow> decode_watermark bs | None \<Rightarrow> Ok 0)) (\<lambda>watermark.
     if epoch < watermark then tx_return (Err (FenceStale (StaleEpoch resource epoch watermark)))
     else tx_bind (upsert_watermark resource epoch) (\<lambda>_. tx_return (Ok ()))))"

definition check_and_advance_durable :: "str \<Rightarrow> u64 \<Rightarrow> unit fence_tx" where
  "check_and_advance_durable resource epoch = in_transaction_result fence_map_sql_error (advance_body resource epoch)"

section \<open>The contract\<close>

text \<open>A history: requests, and restarts of the process on the same store.\<close>

datatype fence_event = Advance str u64 | Restart

fun accepted_epochs ::
    "(str \<Rightarrow> u64 \<Rightarrow> 's \<Rightarrow> ('e + unit) \<times> 's) \<Rightarrow> ('s \<Rightarrow> 's) \<Rightarrow> fence_event list \<Rightarrow> 's \<Rightarrow> (str \<times> u64) list" where
  "accepted_epochs adv restart [] s = []"
| "accepted_epochs adv restart (Advance r e # es) s =
     (case adv r e s of
        (Inr _, s') \<Rightarrow> (r, e) # accepted_epochs adv restart es s'
      | (Inl _, s') \<Rightarrow> accepted_epochs adv restart es s')"
| "accepted_epochs adv restart (Restart # es) s = accepted_epochs adv restart es (restart s)"

locale fence_guard =
  fixes adv :: "str \<Rightarrow> u64 \<Rightarrow> 's \<Rightarrow> ('e + unit) \<times> 's"
    and restart :: "'s \<Rightarrow> 's"
    and mark :: "'s \<Rightarrow> str \<Rightarrow> u64"
  assumes adv_Ok: "adv r e s = (Inr u, s') \<Longrightarrow> mark s r \<le> e \<and> mark s' = (mark s)(r := e)"
    and adv_Err: "adv r e s = (Inl x, s') \<Longrightarrow> mark s' = mark s"
    and restart_mark: "mark (restart s) = mark s"
begin

lemma accepted_at_least: "(r, e) \<in> set (accepted_epochs adv restart es s) \<Longrightarrow> mark s r \<le> e"
proof (induction es arbitrary: s)
  case (Cons ev es)
  show ?case
  proof (cases ev)
    case (Advance r' e')
    obtain res s' where step: "adv r' e' s = (res, s')" by fastforce
    show ?thesis
    proof (cases res)
      case (Inl x)
      then have "mark s' = mark s" using adv_Err [of r' e' s x s'] step by simp
      moreover have "mark s' r \<le> e" using Cons.IH [of s'] Cons.prems Advance step Inl by simp
      ultimately show ?thesis by simp
    next
      case (Inr u)
      note ok = adv_Ok [OF step [unfolded Inr]]
      from Cons.prems Advance step Inr have "(r, e) = (r', e') \<or> mark s' r \<le> e"
        using Cons.IH [of s'] by auto
      with ok show ?thesis by (auto split: if_splits intro: order_trans)
    qed
  qed (use Cons.IH [of "restart s"] Cons.prems restart_mark [of s] in simp)
qed simp

theorem accepted_never_decrease:
  "sorted (map snd (filter (\<lambda>(r', _). r' = r) (accepted_epochs adv restart es s)))"
proof (induction es arbitrary: s)
  case (Cons ev es)
  show ?case
  proof (cases ev)
    case (Advance r' e')
    obtain res s' where step: "adv r' e' s = (res, s')" by fastforce
    show ?thesis
    proof (cases res)
      case (Inl x)
      with Cons Advance step show ?thesis by simp
    next
      case (Inr u)
      note ok = adv_Ok [OF step [unfolded Inr]]
      have "\<forall>(a, e) \<in> set (accepted_epochs adv restart es s'). a = r' \<longrightarrow> e' \<le> e"
        using accepted_at_least [of _ _ es s'] ok by fastforce
      with Cons.IH [of s'] Advance step Inr show ?thesis by auto
    qed
  qed (use Cons in simp)
qed simp

end
section \<open>Both stores fulfil it\<close>

text \<open>Restarting the process loses the memory of the first store; within one process:\<close>

definition mark_in_memory :: "fence_watermark \<Rightarrow> str \<Rightarrow> u64" where
  "mark_in_memory seen r = (case hm_get seen r of Some w \<Rightarrow> w | None \<Rightarrow> 0)"

lemma hm_get_insert: "hm_get (hm_insert k v m) = (hm_get m)(k \<mapsto> v)"
  by (simp add: hm_get_def hm_insert_def update_conv')

interpretation mem_fence: fence_guard check_and_advance id mark_in_memory
  by unfold_locales
    (auto simp: check_and_advance_def mark_in_memory_def Let_def hm_get_insert fun_eq_iff split: if_splits)

definition mark_durable :: "fence_db \<Rightarrow> str \<Rightarrow> u64" where
  "mark_durable db r = (case fd_watermarks db of
     None \<Rightarrow> 0
   | Some m \<Rightarrow> (case hm_get m r of
       None \<Rightarrow> 0
     | Some bs \<Rightarrow> (case decode_watermark bs of Inr w \<Rightarrow> w | Inl _ \<Rightarrow> 0)))"

lemma decode_encode_watermark [simp]: "decode_watermark (encode_watermark e) = Ok e"
  by (simp add: decode_watermark_def encode_watermark_def)

lemma select_watermark_Ok:
  assumes "select_watermark r db = (Inr current, db')"
  obtains m where "fd_watermarks db = Some m" "current = hm_get m r" "fd_watermarks db' = Some m"
  using assms by (auto simp: select_watermark_def statement_result_Ok split: option.splits)

lemma upsert_watermark_Ok:
  assumes "upsert_watermark r e db = (Inr u, db')"
  obtains m where "fd_watermarks db = Some m"
    "fd_watermarks db' = Some (hm_insert r (encode_watermark e) m)"
  using assms by (auto simp: upsert_watermark_def statement_result_Ok split: option.splits)

lemma advance_body_Ok:
  assumes "advance_body r e db = (Inr res, db')"
  shows "(case res of
      Inr _ \<Rightarrow> mark_durable db r \<le> e \<and> mark_durable db' = (mark_durable db)(r := e)
    | Inl _ \<Rightarrow> fd_watermarks db' = fd_watermarks db)"
proof -
  from assms obtain current db1 w where sel: "select_watermark r db = (Inr current, db1)"
    and w: "(case current of Some bs \<Rightarrow> decode_watermark bs | None \<Rightarrow> Ok 0) = Ok w"
    and rest: "(if e < w then tx_return (Err (FenceStale (StaleEpoch r e w)))
       else tx_bind (upsert_watermark r e) (\<lambda>_. tx_return (Ok ()))) db1 = (Inr res, db')"
    by (auto simp: advance_body_def tx_ok)
  from select_watermark_Ok [OF sel] obtain m where
    m: "fd_watermarks db = Some m" "current = hm_get m r" "fd_watermarks db1 = Some m" by metis
  then have mark: "mark_durable db r = w" using w by (cases "hm_get m r") (simp_all add: mark_durable_def)
  show ?thesis
  proof (cases "e < w")
    case True
    with rest m show ?thesis by (auto simp: tx_ok)
  next
    case False
    with rest obtain u where up: "upsert_watermark r e db1 = (Inr u, db')" and "res = Ok ()"
      by (auto simp: tx_ok)
    from upsert_watermark_Ok [OF up] m(3)
    have "fd_watermarks db' = Some (hm_insert r (encode_watermark e) m)" by (metis option.inject)
    with False \<open>res = Ok ()\<close> mark m(1) show ?thesis
      by (auto simp: mark_durable_def hm_get_insert fun_eq_iff)
  qed
qed

lemma mark_durable_tape [simp]: "mark_durable (db\<lparr>db_tape := t\<rparr>) = mark_durable db"
  by (simp add: mark_durable_def fun_eq_iff)

definition restart_durable :: "fence_db \<Rightarrow> fence_db" where
  "restart_durable db = snd (open_fence_store db)"

lemma restart_durable_mark: "mark_durable (restart_durable db) = mark_durable db"
  by (auto simp: restart_durable_def open_fence_store_def tx_bind_def statement_def statement_result_def mark_durable_def
      hm_get_def fun_eq_iff split: list.splits option.splits sum.splits prod.splits)

lemma durable_advance:
  assumes "check_and_advance_durable r e db = (res, db')"
  shows "(case res of
      Inr _ \<Rightarrow> mark_durable db r \<le> e \<and> mark_durable db' = (mark_durable db)(r := e)
    | Inl _ \<Rightarrow> mark_durable db' = mark_durable db)"
proof (cases "in_transaction fence_map_sql_error (advance_body r e) db")
  case (Pair x db1)
  show ?thesis
  proof (cases x)
    case (Inl err)
    with in_transaction_Err [of fence_map_sql_error "advance_body r e" db err db1] Pair assms show ?thesis
      by (auto simp: check_and_advance_durable_def in_transaction_result_def tx_bind_def)
  next
    case (Inr y)
    then have eq: "res = y" "db' = db1"
      using Pair assms by (simp_all add: check_and_advance_durable_def in_transaction_result_def tx_bind_def lift_result_def)
    from in_transaction_Ok [OF Pair [unfolded Inr]] obtain t db2 t' where
      b: "advance_body r e (db\<lparr>db_tape := t\<rparr>) = (Inr y, db2)" "db1 = db2\<lparr>db_tape := t'\<rparr>" by metis
    from advance_body_Ok [OF b(1)] b(2) eq show ?thesis
      by (auto simp: mark_durable_def fun_eq_iff split: sum.splits)
  qed
qed

interpretation disk_fence: fence_guard check_and_advance_durable restart_durable mark_durable
proof unfold_locales
  show "mark_durable db r \<le> e \<and> mark_durable db' = (mark_durable db)(r := e)"
    if "check_and_advance_durable r e db = (Inr u, db')" for r e db u db'
    using durable_advance [OF that] by simp
  show "mark_durable db' = mark_durable db" if "check_and_advance_durable r e db = (Inl x, db')" for r e db x db'
    using durable_advance [OF that] by simp
qed (rule restart_durable_mark)

section \<open>Properties\<close>

text \<open>
  C40: fencing. On the SQLite watermark store the epochs accepted for a resource never decrease:
  once an epoch has been accepted, no request with a lower one is, whatever statements fail and
  however often the process restarts in between. Equal epochs are accepted, as the renewals of one
  attempt need.
\<close>
theorem fenced_epochs_never_decrease:
  "sorted (map snd (filter (\<lambda>(r', _). r' = r)
     (accepted_epochs check_and_advance_durable restart_durable events db)))"
  by (rule disk_fence.accepted_never_decrease)

text \<open>
  Both watermark stores decide alike. While no statement fails and the table is readable, a
  request is accepted on disk exactly when it is accepted in memory, and afterwards they agree
  again.
\<close>
theorem durable_fence_like_memory:
  assumes "db_tape db = []" and "fd_watermarks db = Some (map (\<lambda>(r, w). (r, encode_watermark w)) seen)"
  shows "(case check_and_advance r e seen of
      (res, seen') \<Rightarrow> fst (check_and_advance_durable r e db) = (case res of Inr _ \<Rightarrow> Ok () | Inl v \<Rightarrow> Err (FenceStale v)) \<and>
        fd_watermarks (snd (check_and_advance_durable r e db)) = Some (map (\<lambda>(r, w). (r, encode_watermark w)) seen'))"
proof -
  let ?m = "map (\<lambda>(r, w). (r, encode_watermark w)) seen"
  have get: "hm_get ?m r = map_option encode_watermark (hm_get seen r)"
    by (simp add: hm_get_def map_of_map)
  have ins: "hm_insert r (encode_watermark e) ?m = map (\<lambda>(r, w). (r, encode_watermark w)) (hm_insert r e seen)"
    by (induction seen) (auto simp: hm_insert_def)
  let ?w = "case hm_get seen r of Some w \<Rightarrow> w | None \<Rightarrow> 0"
  have "advance_body r e db = (if e < ?w then (Ok (Err (FenceStale (StaleEpoch r e ?w))), db)
      else (Ok (Ok ()), db\<lparr>fd_watermarks := Some (hm_insert r (encode_watermark e) ?m)\<rparr>))"
    using assms get
    by (cases "hm_get seen r")
      (simp_all add: advance_body_def tx_bind_def select_watermark_def upsert_watermark_def statement_result_no_fault
        lift_result_def tx_return_def)
  then show ?thesis
    using in_transaction_no_fault [of db "advance_body r e", OF assms(1)] assms ins
    by (auto simp: check_and_advance_durable_def in_transaction_result_def tx_bind_def lift_result_def
        check_and_advance_def Let_def split: if_splits)
qed


theorem durable_fence_like_memory_witness:
  "fst (check_and_advance_durable (lit ''cas'') 3
     \<lparr>db_tape = [], fd_watermarks = Some [(lit ''cas'', encode_watermark 5)]\<rparr>) =
   Err (FenceStale (StaleEpoch (lit ''cas'') 3 5))"
  using durable_fence_like_memory
    [of "\<lparr>db_tape = [], fd_watermarks = Some [(lit ''cas'', encode_watermark 5)]\<rparr>" "[(lit ''cas'', 5)]" "lit ''cas''" 3]
  by (simp add: check_and_advance_def hm_get_def)

end
