(* ===== verification/Job_Store.thy ===== *)
theory Job_Store
  imports Lease_Store Protocol_States
begin

text \<open>
  The job table of the coordinator, \<open>crates/coordinator/src/job_store.rs\<close>.

  The control database is one SQLite file: \<open>job_db\<close> extends the lease tables by the job,
  submission and manifest tables and by the attempt table, which the job store reads to find the
  latest attempt of a job. A row is the record \<open>raw_job_row\<close> of its columns, numbers as
  8-byte blobs and the state as its name. \<open>job_into_stored\<close> reads a row back and refuses
  one whose columns do not fit its state.

  The generated type \<open>pb::JobManifest\<close> with its codec and its signing hash is a parameter,
  the record \<open>manifest_api\<close>. Texts inside errors are left out.
\<close>

section \<open>Data\<close>

definition parse_job_state_names :: "(string \<times> job_state) list" where
  "parse_job_state_names =
     [(''SUBMITTED'', JobSubmitted), (''PLANNING'', JobPlanning), (''QUEUED'', JobQueued),
      (''STAGING'', JobStaging), (''RUNNING'', JobRunning), (''PAUSED'', JobPaused),
      (''COMPLETED'', JobCompleted), (''FAILED'', JobFailed)]"

datatype run_terminal =
    RunAttemptCompleted | RunStagingFailed | RunUnrecoverableError | RunNoCommittedCheckpoint

fun run_terminal_trigger :: "run_terminal \<Rightarrow> string" where
  "run_terminal_trigger RunAttemptCompleted = ''ATTEMPT_COMPLETED''"
| "run_terminal_trigger RunStagingFailed = ''STAGING_FAILED''"
| "run_terminal_trigger RunUnrecoverableError = ''UNRECOVERABLE_ERROR''"
| "run_terminal_trigger RunNoCommittedCheckpoint = ''NO_COMMITTED_CHECKPOINT''"

datatype queue_failure = DeadlinePassed | QueueTimeout | PermanentlyInfeasible str

record accepted_job_submission =
  as_idempotency_key :: bytes
  as_job_id :: str
  as_submitter_device_id :: str
  as_manifest_hash :: bytes
  as_deadline_unix_ms :: "u64 option"
  as_max_queue_duration_ms :: "u64 option"

record stored_job =
  sj_job_id :: str
  sj_submitter_device_id :: str
  sj_manifest_hash :: bytes
  sj_state :: job_state
  sj_submitted_at_unix_ms :: u64
  sj_planning_at_unix_ms :: "u64 option"
  sj_queued_at_unix_ms :: "u64 option"
  sj_staging_at_unix_ms :: "u64 option"
  sj_deadline_unix_ms :: "u64 option"
  sj_max_queue_duration_ms :: "u64 option"
  sj_plan_id :: "str option"
  sj_queue_failure :: "queue_failure option"
  sj_failed_at_unix_ms :: "u64 option"
  sj_running_at_unix_ms :: "u64 option"
  sj_run_terminal :: "run_terminal option"
  sj_worker_reported_finished_at_unix_ms :: "u64 option"
  sj_requeue_count :: u64
  sj_resume_checkpoint :: "bytes option"
  sj_revision :: u64

definition matches_submission :: "stored_job \<Rightarrow> accepted_job_submission \<Rightarrow> bool" where
  "matches_submission j s \<longleftrightarrow>
     sj_job_id j = as_job_id s \<and>
     sj_submitter_device_id j = as_submitter_device_id s \<and>
     sj_manifest_hash j = as_manifest_hash s \<and>
     sj_deadline_unix_ms j = as_deadline_unix_ms s \<and>
     sj_max_queue_duration_ms j = as_max_queue_duration_ms s"

record submit_result =
  sr_job :: stored_job
  sr_created :: bool

record 'man stored_manifest_binding =
  mb_manifest :: 'man
  mb_manifest_hash :: bytes
  mb_signer_id_at_submission :: str

record 'man manifest_bound_submit_result =
  mr_job :: stored_job
  mr_binding :: "'man stored_manifest_binding"
  mr_created :: bool

datatype manifest_corruption =
    EmptyBody | UndecodableBody | ManifestHashDiffers | JobIdDiffers | SubmitterDeviceIdDiffers | SignerIdDiffers

datatype job_store_error =
    JobInvalidInput string
  | JobNotFound
  | JobIdempotencyConflict str str
  | JobIdConflict str
  | JobInvalidTransition job_state job_state
  | JobPlanConflict str str
  | JobGuardNotMet string
  | ManifestIdentityMismatch string
  | ManifestHashMismatch
  | LegacyManifestMissing str
  | ManifestCorrupt str manifest_corruption
  | JobClockRollback u64 u64
  | JobCorruptData
  | JobIo
  | JobLockTimeout

definition job_map_sql_error :: "sql_error \<Rightarrow> job_store_error" where
  "job_map_sql_error e = (case e of SqliteBusyOrLocked \<Rightarrow> JobLockTimeout | SqliteOther \<Rightarrow> JobIo)"

definition parse_job_state :: "string \<Rightarrow> job_store_error + job_state" where
  "parse_job_state value = ok_or (map_of parse_job_state_names value) JobCorruptData"

definition run_terminal_parse :: "string \<Rightarrow> job_store_error + run_terminal" where
  "run_terminal_parse value =
     (if value = ''ATTEMPT_COMPLETED'' then Ok RunAttemptCompleted
      else if value = ''STAGING_FAILED'' then Ok RunStagingFailed
      else if value = ''UNRECOVERABLE_ERROR'' then Ok RunUnrecoverableError
      else if value = ''NO_COMMITTED_CHECKPOINT'' then Ok RunNoCommittedCheckpoint
      else Err JobCorruptData)"

fun queue_failure_code :: "queue_failure \<Rightarrow> string" where
  "queue_failure_code DeadlinePassed = ''DEADLINE_PASSED''"
| "queue_failure_code QueueTimeout = ''QUEUE_TIMEOUT''"
| "queue_failure_code (PermanentlyInfeasible _) = ''PERMANENTLY_INFEASIBLE''"

fun queue_failure_detail :: "queue_failure \<Rightarrow> str option" where
  "queue_failure_detail (PermanentlyInfeasible reason) = Some reason"
| "queue_failure_detail _ = None"

definition queue_failure_parse :: "string \<Rightarrow> str option \<Rightarrow> job_store_error + queue_failure" where
  "queue_failure_parse code detail =
     (if code = ''DEADLINE_PASSED'' \<and> detail = None then Ok DeadlinePassed
      else if code = ''QUEUE_TIMEOUT'' \<and> detail = None then Ok QueueTimeout
      else if code = ''PERMANENTLY_INFEASIBLE'' then
        (case detail of
           Some reason \<Rightarrow> if \<not> is_blank reason then Ok (PermanentlyInfeasible reason) else Err JobCorruptData
         | None \<Rightarrow> Err JobCorruptData)
      else Err JobCorruptData)"

definition job_decode_u64 :: "bytes \<Rightarrow> job_store_error + u64" where
  "job_decode_u64 bs = (if length bs = 8 then Ok (from_be_bytes_u64 bs) else Err JobCorruptData)"

definition decode_hash :: "bytes \<Rightarrow> job_store_error + bytes" where
  "decode_hash bs = (if length bs = 32 then Ok bs else Err JobCorruptData)"

section \<open>Rows\<close>

record raw_job_row =
  rj_job_id :: str
  rj_submitter_device_id :: str
  rj_manifest_hash :: bytes
  rj_state :: string
  rj_submitted_at_unix_ms :: bytes
  rj_planning_at_unix_ms :: "bytes option"
  rj_queued_at_unix_ms :: "bytes option"
  rj_staging_at_unix_ms :: "bytes option"
  rj_deadline_unix_ms :: "bytes option"
  rj_max_queue_duration_ms :: "bytes option"
  rj_plan_id :: "str option"
  rj_queue_failure_kind :: "string option"
  rj_queue_failure_detail :: "str option"
  rj_failed_at_unix_ms :: "bytes option"
  rj_revision :: bytes
  rj_running_at_unix_ms :: "bytes option"
  rj_run_terminal :: "string option"
  rj_worker_reported_finished_at_unix_ms :: "bytes option"
  rj_requeue_count :: "bytes option"
  rj_resume_checkpoint :: "bytes option"

definition valid_shape :: "job_state \<Rightarrow> run_terminal option \<Rightarrow> queue_failure option \<Rightarrow> raw_job_row \<Rightarrow> bool" where
  "valid_shape state run_terminal queue_failure r =
     (let not_run_yet = rj_running_at_unix_ms r = None \<and> run_terminal = None \<and>
            rj_worker_reported_finished_at_unix_ms r = None;
          has_plan = (case rj_plan_id r of Some p \<Rightarrow> \<not> is_blank p | None \<Rightarrow> False)
      in case state of
        JobSubmitted \<Rightarrow> not_run_yet \<and> rj_planning_at_unix_ms r = None \<and> rj_queued_at_unix_ms r = None \<and>
          rj_staging_at_unix_ms r = None \<and> rj_plan_id r = None \<and> queue_failure = None \<and> rj_failed_at_unix_ms r = None
      | JobPlanning \<Rightarrow> not_run_yet \<and> rj_planning_at_unix_ms r \<noteq> None \<and> rj_queued_at_unix_ms r = None \<and>
          rj_staging_at_unix_ms r = None \<and> rj_plan_id r = None \<and> queue_failure = None \<and> rj_failed_at_unix_ms r = None
      | JobQueued \<Rightarrow> not_run_yet \<and> rj_planning_at_unix_ms r \<noteq> None \<and> rj_queued_at_unix_ms r \<noteq> None \<and>
          rj_staging_at_unix_ms r = None \<and> has_plan \<and> queue_failure = None \<and> rj_failed_at_unix_ms r = None
      | JobStaging \<Rightarrow> not_run_yet \<and> rj_planning_at_unix_ms r \<noteq> None \<and> rj_queued_at_unix_ms r \<noteq> None \<and>
          rj_staging_at_unix_ms r \<noteq> None \<and> has_plan \<and> queue_failure = None \<and> rj_failed_at_unix_ms r = None
      | JobCompleted \<Rightarrow> rj_planning_at_unix_ms r \<noteq> None \<and> rj_queued_at_unix_ms r \<noteq> None \<and>
          rj_staging_at_unix_ms r \<noteq> None \<and> run_terminal = Some RunAttemptCompleted \<and> has_plan \<and>
          queue_failure = None \<and> rj_failed_at_unix_ms r = None
      | JobFailed \<Rightarrow>
          (let queue_stage_failure = not_run_yet \<and> rj_staging_at_unix_ms r = None \<and> queue_failure \<noteq> None \<and>
                 rj_failed_at_unix_ms r \<noteq> None;
               run_stage_failure = rj_staging_at_unix_ms r \<noteq> None \<and>
                 run_terminal \<in> {Some RunStagingFailed, Some RunUnrecoverableError, Some RunNoCommittedCheckpoint} \<and>
                 queue_failure = None \<and> rj_failed_at_unix_ms r = None
           in rj_planning_at_unix_ms r \<noteq> None \<and> rj_queued_at_unix_ms r \<noteq> None \<and> has_plan \<and>
              (queue_stage_failure \<or> run_stage_failure))
      | s \<Rightarrow> if s = JobRunning \<or> s = JobPaused then
          rj_planning_at_unix_ms r \<noteq> None \<and> rj_queued_at_unix_ms r \<noteq> None \<and> rj_staging_at_unix_ms r \<noteq> None \<and>
          rj_running_at_unix_ms r \<noteq> None \<and> run_terminal = None \<and> rj_worker_reported_finished_at_unix_ms r = None \<and>
          has_plan \<and> queue_failure = None \<and> rj_failed_at_unix_ms r = None
        else False)"

definition job_queue_failure :: "raw_job_row \<Rightarrow> job_store_error + queue_failure option" where
  "job_queue_failure r =
     (case rj_queue_failure_kind r of
        Some kind \<Rightarrow> and_then (queue_failure_parse kind (rj_queue_failure_detail r)) (\<lambda>f. Ok (Some f))
      | None \<Rightarrow> if rj_queue_failure_detail r = None then Ok None else Err JobCorruptData)"

definition job_into_stored :: "raw_job_row \<Rightarrow> job_store_error + stored_job" where
  "job_into_stored r =
     and_then (parse_job_state (rj_state r)) (\<lambda>state.
     and_then (map_transpose run_terminal_parse (rj_run_terminal r)) (\<lambda>run_terminal.
     and_then (job_queue_failure r) (\<lambda>queue_failure.
     and_then (map_transpose job_decode_u64 (rj_requeue_count r)) (\<lambda>count.
     let requeue_count = (case count of Some n \<Rightarrow> n | None \<Rightarrow> 0) in
     and_then (reject_if (rj_resume_checkpoint r \<noteq> None \<and> requeue_count = 0) JobCorruptData) (\<lambda>_.
     and_then (reject_if (rj_resume_checkpoint r = Some []) JobCorruptData) (\<lambda>_.
     and_then (reject_if (\<not> valid_shape state run_terminal queue_failure r) JobCorruptData) (\<lambda>_.
     and_then (decode_hash (rj_manifest_hash r)) (\<lambda>manifest_hash.
     and_then (job_decode_u64 (rj_submitted_at_unix_ms r)) (\<lambda>submitted_at.
     and_then (map_transpose job_decode_u64 (rj_planning_at_unix_ms r)) (\<lambda>planning_at.
     and_then (map_transpose job_decode_u64 (rj_queued_at_unix_ms r)) (\<lambda>queued_at.
     and_then (map_transpose job_decode_u64 (rj_staging_at_unix_ms r)) (\<lambda>staging_at.
     and_then (map_transpose job_decode_u64 (rj_deadline_unix_ms r)) (\<lambda>deadline.
     and_then (map_transpose job_decode_u64 (rj_max_queue_duration_ms r)) (\<lambda>max_queue_duration.
     and_then (map_transpose job_decode_u64 (rj_failed_at_unix_ms r)) (\<lambda>failed_at.
     and_then (map_transpose job_decode_u64 (rj_running_at_unix_ms r)) (\<lambda>running_at.
     and_then (map_transpose job_decode_u64 (rj_worker_reported_finished_at_unix_ms r)) (\<lambda>finished_at.
     and_then (job_decode_u64 (rj_revision r)) (\<lambda>revision.
       Ok \<lparr>sj_job_id = rj_job_id r, sj_submitter_device_id = rj_submitter_device_id r,
           sj_manifest_hash = manifest_hash, sj_state = state, sj_submitted_at_unix_ms = submitted_at,
           sj_planning_at_unix_ms = planning_at, sj_queued_at_unix_ms = queued_at,
           sj_staging_at_unix_ms = staging_at, sj_deadline_unix_ms = deadline,
           sj_max_queue_duration_ms = max_queue_duration, sj_plan_id = rj_plan_id r,
           sj_queue_failure = queue_failure, sj_failed_at_unix_ms = failed_at,
           sj_running_at_unix_ms = running_at, sj_run_terminal = run_terminal,
           sj_worker_reported_finished_at_unix_ms = finished_at, sj_requeue_count = requeue_count,
           sj_resume_checkpoint = rj_resume_checkpoint r, sj_revision = revision\<rparr>))))))))))))))))))"

text \<open>The columns that \<open>update_job\<close> sets, and the row \<open>insert_job\<close> writes.\<close>

definition updated_row :: "stored_job \<Rightarrow> raw_job_row \<Rightarrow> raw_job_row" where
  "updated_row j r = r\<lparr>
     rj_state := job_table_name (sj_state j),
     rj_planning_at_unix_ms := map_option encode_u64 (sj_planning_at_unix_ms j),
     rj_queued_at_unix_ms := map_option encode_u64 (sj_queued_at_unix_ms j),
     rj_staging_at_unix_ms := map_option encode_u64 (sj_staging_at_unix_ms j),
     rj_plan_id := sj_plan_id j,
     rj_queue_failure_kind := map_option queue_failure_code (sj_queue_failure j),
     rj_queue_failure_detail := (case sj_queue_failure j of Some f \<Rightarrow> queue_failure_detail f | None \<Rightarrow> None),
     rj_failed_at_unix_ms := map_option encode_u64 (sj_failed_at_unix_ms j),
     rj_revision := encode_u64 (sj_revision j),
     rj_running_at_unix_ms := map_option encode_u64 (sj_running_at_unix_ms j),
     rj_run_terminal := map_option run_terminal_trigger (sj_run_terminal j),
     rj_worker_reported_finished_at_unix_ms := map_option encode_u64 (sj_worker_reported_finished_at_unix_ms j),
     rj_requeue_count := (if sj_requeue_count j > 0 then Some (encode_u64 (sj_requeue_count j)) else None),
     rj_resume_checkpoint := sj_resume_checkpoint j\<rparr>"

definition submitted_row :: "stored_job \<Rightarrow> raw_job_row" where
  "submitted_row j =
     \<lparr>rj_job_id = sj_job_id j, rj_submitter_device_id = sj_submitter_device_id j,
      rj_manifest_hash = sj_manifest_hash j, rj_state = job_table_name (sj_state j),
      rj_submitted_at_unix_ms = encode_u64 (sj_submitted_at_unix_ms j),
      rj_planning_at_unix_ms = None, rj_queued_at_unix_ms = None, rj_staging_at_unix_ms = None,
      rj_deadline_unix_ms = map_option encode_u64 (sj_deadline_unix_ms j),
      rj_max_queue_duration_ms = map_option encode_u64 (sj_max_queue_duration_ms j),
      rj_plan_id = None, rj_queue_failure_kind = None, rj_queue_failure_detail = None,
      rj_failed_at_unix_ms = None, rj_revision = encode_u64 (sj_revision j),
      rj_running_at_unix_ms = None, rj_run_terminal = None,
      rj_worker_reported_finished_at_unix_ms = None, rj_requeue_count = None,
      rj_resume_checkpoint = None\<rparr>"

section \<open>Tables\<close>

record raw_attempt_row =
  ra_job_id :: str
  ra_state :: string
  ra_fence_epoch :: bytes
  ra_lease_id :: str
  ra_created_at_unix_ms :: bytes
  ra_revision :: bytes

record job_db = lease_db +
  jd_columns :: "string list option"
  jd_jobs :: "(str, raw_job_row) hash_map"
  jd_submissions :: "(bytes, str) hash_map"
  jd_manifests :: "(str, str \<times> bytes) hash_map"
  jd_pool_mode :: "bytes option option"
  jd_attempts :: "(str, raw_attempt_row) hash_map"

type_synonym ('m, 'a) job_tx = "'m job_db_scheme \<Rightarrow> (job_store_error + 'a) \<times> 'm job_db_scheme"

definition fetch_job :: "str \<Rightarrow> ('m, stored_job option) job_tx" where
  "fetch_job job_id =
     tx_bind (statement job_map_sql_error (\<lambda>db. (hm_get (jd_jobs db) job_id, db))) (\<lambda>row.
       lift_result (map_transpose job_into_stored row))"

definition update_job :: "stored_job \<Rightarrow> ('m, unit) job_tx" where
  "update_job job =
     tx_bind (statement job_map_sql_error (\<lambda>db.
       case hm_get (jd_jobs db) (sj_job_id job) of
         Some r \<Rightarrow> (1 :: nat, db\<lparr>jd_jobs := hm_insert (sj_job_id job) (updated_row job r) (jd_jobs db)\<rparr>)
       | None \<Rightarrow> (0, db))) (\<lambda>changed.
       if changed \<noteq> 1 then tx_fail JobCorruptData else tx_return ())"

text \<open>A second row with the same primary key is a constraint violation.\<close>

definition insert_job :: "stored_job \<Rightarrow> ('m, unit) job_tx" where
  "insert_job job = statement_result job_map_sql_error (\<lambda>db.
     if hm_contains_key (jd_jobs db) (sj_job_id job) then (Err JobIo, db)
     else (Ok (), db\<lparr>jd_jobs := hm_insert (sj_job_id job) (submitted_row job) (jd_jobs db)\<rparr>))"

definition select_submission :: "bytes \<Rightarrow> ('m, str option) job_tx" where
  "select_submission key = statement job_map_sql_error (\<lambda>db. (hm_get (jd_submissions db) key, db))"

definition insert_submission :: "bytes \<Rightarrow> str \<Rightarrow> ('m, unit) job_tx" where
  "insert_submission key job_id = statement_result job_map_sql_error (\<lambda>db.
     if hm_contains_key (jd_submissions db) key \<or> \<not> hm_contains_key (jd_jobs db) job_id then (Err JobIo, db)
     else (Ok (), db\<lparr>jd_submissions := hm_insert key job_id (jd_submissions db)\<rparr>))"

definition insert_manifest :: "str \<Rightarrow> str \<Rightarrow> bytes \<Rightarrow> ('m, unit) job_tx" where
  "insert_manifest job_id signer body = statement_result job_map_sql_error (\<lambda>db.
     if hm_contains_key (jd_manifests db) job_id \<or> \<not> hm_contains_key (jd_jobs db) job_id then (Err JobIo, db)
     else (Ok (), db\<lparr>jd_manifests := hm_insert job_id (signer, body) (jd_manifests db)\<rparr>))"

text \<open>\<open>ORDER BY fence_epoch DESC, attempt_id DESC LIMIT 1\<close>: blobs and texts compare by bytes.\<close>

definition later_attempt :: "str \<times> raw_attempt_row \<Rightarrow> str \<times> raw_attempt_row \<Rightarrow> bool" where
  "later_attempt a b \<longleftrightarrow>
     blob_less (ra_fence_epoch (snd b)) (ra_fence_epoch (snd a)) \<or>
     ra_fence_epoch (snd b) = ra_fence_epoch (snd a) \<and> fst b < fst a"

definition latest_attempt_row :: "(str, raw_attempt_row) hash_map \<Rightarrow> str \<Rightarrow> str option" where
  "latest_attempt_row attempts job_id =
     (case filter (\<lambda>a. ra_job_id (snd a) = job_id) attempts of
        [] \<Rightarrow> None
      | a # as \<Rightarrow> Some (fst (fold (\<lambda>b best. if later_attempt b best then b else best) as a)))"

definition select_latest_attempt :: "str \<Rightarrow> ('m, str option) job_tx" where
  "select_latest_attempt job_id = statement job_map_sql_error (\<lambda>db. (latest_attempt_row (jd_attempts db) job_id, db))"

section \<open>Opening\<close>

definition job_base_columns :: "string list" where
  "job_base_columns = [''job_id'', ''submitter_device_id'', ''manifest_hash'', ''state'',
     ''submitted_at_unix_ms'', ''planning_at_unix_ms'', ''queued_at_unix_ms'', ''staging_at_unix_ms'',
     ''deadline_unix_ms'', ''max_queue_duration_ms'', ''plan_id'', ''queue_failure_kind'',
     ''queue_failure_detail'', ''failed_at_unix_ms'', ''revision'']"

definition add_job_column :: "string \<Rightarrow> ('m, unit) job_tx" where
  "add_job_column column =
     tx_bind (statement job_map_sql_error (\<lambda>db. (case jd_columns db of Some cs \<Rightarrow> column \<in> set cs | None \<Rightarrow> False, db))) (\<lambda>exists.
     if \<not> exists then
       statement job_map_sql_error (\<lambda>db. ((), db\<lparr>jd_columns := map_option (\<lambda>cs. cs @ [column]) (jd_columns db)\<rparr>))
     else tx_return ())"

fun add_job_columns :: "string list \<Rightarrow> ('m, unit) job_tx" where
  "add_job_columns [] = tx_return ()"
| "add_job_columns (c # cs) = tx_bind (add_job_column c) (\<lambda>_. add_job_columns cs)"

definition job_initialize_schema :: "('m, unit) job_tx" where
  "job_initialize_schema =
     tx_bind (statement job_map_sql_error (\<lambda>db. ((), db\<lparr>jd_columns :=
         (case jd_columns db of None \<Rightarrow> Some job_base_columns | Some cs \<Rightarrow> Some cs)\<rparr>))) (\<lambda>_.
     in_transaction job_map_sql_error
       (add_job_columns [''staging_at_unix_ms'', ''running_at_unix_ms'', ''run_terminal'',
          ''worker_reported_finished_at_unix_ms'', ''requeue_count'', ''resume_checkpoint'']))"

definition open_job_store :: "('m, unit) job_tx" where
  "open_job_store =
     tx_bind (statement job_map_sql_error (\<lambda>db. ((), db))) (\<lambda>_.
     tx_bind (statement job_map_sql_error (\<lambda>db. ((), db))) (\<lambda>_.
       job_initialize_schema))"


section \<open>Submission\<close>

definition validate_submission :: "accepted_job_submission \<Rightarrow> job_store_error + unit" where
  "validate_submission s =
     and_then (reject_if (is_blank (as_job_id s)) (JobInvalidInput ''job_id'')) (\<lambda>_.
     and_then (reject_if (is_blank (as_submitter_device_id s)) (JobInvalidInput ''submitter_device_id'')) (\<lambda>_.
       reject_if (as_max_queue_duration_ms s = Some 0) (JobInvalidInput ''max_queue_duration_ms'')))"

definition submitted_job :: "accepted_job_submission \<Rightarrow> bytes \<Rightarrow> u64 \<Rightarrow> stored_job" where
  "submitted_job s manifest_hash submitted_at =
     \<lparr>sj_job_id = as_job_id s, sj_submitter_device_id = as_submitter_device_id s,
      sj_manifest_hash = manifest_hash, sj_state = JobSubmitted, sj_submitted_at_unix_ms = submitted_at,
      sj_planning_at_unix_ms = None, sj_queued_at_unix_ms = None, sj_staging_at_unix_ms = None,
      sj_deadline_unix_ms = as_deadline_unix_ms s, sj_max_queue_duration_ms = as_max_queue_duration_ms s,
      sj_plan_id = None, sj_queue_failure = None, sj_failed_at_unix_ms = None,
      sj_running_at_unix_ms = None, sj_run_terminal = None,
      sj_worker_reported_finished_at_unix_ms = None, sj_requeue_count = 0,
      sj_resume_checkpoint = None, sj_revision = 0\<rparr>"

definition submit_body :: "accepted_job_submission \<Rightarrow> u64 \<Rightarrow> ('m, submit_result) job_tx" where
  "submit_body s submitted_at =
     tx_bind (select_submission (as_idempotency_key s)) (\<lambda>mapped.
     case mapped of
       Some stored_job_id \<Rightarrow>
         tx_bind (fetch_job stored_job_id) (\<lambda>found.
         tx_bind (lift_result (ok_or found JobCorruptData)) (\<lambda>stored.
         if \<not> matches_submission stored s then tx_fail (JobIdempotencyConflict stored_job_id (as_job_id s))
         else tx_return \<lparr>sr_job = stored, sr_created = False\<rparr>))
     | None \<Rightarrow>
         tx_bind (fetch_job (as_job_id s)) (\<lambda>found.
         if found \<noteq> None then tx_fail (JobIdConflict (as_job_id s))
         else
           let stored = submitted_job s (as_manifest_hash s) submitted_at in
           tx_bind (insert_job stored) (\<lambda>_.
           tx_bind (insert_submission (as_idempotency_key s) (sj_job_id stored)) (\<lambda>_.
             tx_return \<lparr>sr_job = stored, sr_created = True\<rparr>))))"

definition submit_accepted :: "accepted_job_submission \<Rightarrow> u64 \<Rightarrow> ('m, submit_result) job_tx" where
  "submit_accepted s submitted_at =
     tx_bind (lift_result (validate_submission s)) (\<lambda>_.
       in_transaction job_map_sql_error (submit_body s submitted_at))"

text \<open>The generated manifest type: two of its fields, its codec, and the BLAKE3 hash of its
  signing input.\<close>

record 'man manifest_api =
  ma_job_id :: "'man \<Rightarrow> str"
  ma_submitter_device_id :: "'man \<Rightarrow> str"
  ma_encode :: "'man \<Rightarrow> bytes"
  ma_decode :: "bytes \<Rightarrow> 'man option"
  ma_hash :: "'man \<Rightarrow> bytes"

definition validate_manifest_identity ::
    "'man manifest_api \<Rightarrow> accepted_job_submission \<Rightarrow> 'man \<Rightarrow> str \<Rightarrow> job_store_error + unit" where
  "validate_manifest_identity api s manifest verified_signer_id =
     and_then (reject_if (ma_job_id api manifest \<noteq> as_job_id s) (ManifestIdentityMismatch ''job_id'')) (\<lambda>_.
     and_then (reject_if (ma_submitter_device_id api manifest \<noteq> as_submitter_device_id s)
       (ManifestIdentityMismatch ''submitter_device_id'')) (\<lambda>_.
       reject_if (verified_signer_id \<noteq> as_submitter_device_id s) (ManifestIdentityMismatch ''verified signer_id'')))"

definition select_manifest :: "str \<Rightarrow> ('m, (str \<times> bytes) option) job_tx" where
  "select_manifest job_id = statement job_map_sql_error (\<lambda>db. (hm_get (jd_manifests db) job_id, db))"

definition check_manifest_body ::
    "'man manifest_api \<Rightarrow> stored_job \<Rightarrow> str \<times> bytes \<Rightarrow> job_store_error + 'man stored_manifest_binding" where
  "check_manifest_body api job row =
     (let corrupt = ManifestCorrupt (sj_job_id job); signer = fst row; body = snd row in
      and_then (reject_if (body = []) (corrupt EmptyBody)) (\<lambda>_.
      and_then (ok_or (ma_decode api body) (corrupt UndecodableBody)) (\<lambda>manifest.
      and_then (reject_if (ma_job_id api manifest \<noteq> sj_job_id job) (corrupt JobIdDiffers)) (\<lambda>_.
      and_then (reject_if (ma_submitter_device_id api manifest \<noteq> sj_submitter_device_id job)
        (corrupt SubmitterDeviceIdDiffers)) (\<lambda>_.
      and_then (reject_if (signer \<noteq> sj_submitter_device_id job) (corrupt SignerIdDiffers)) (\<lambda>_.
      let derived_hash = ma_hash api manifest in
      and_then (reject_if (derived_hash \<noteq> sj_manifest_hash job) (corrupt ManifestHashDiffers)) (\<lambda>_.
        Ok \<lparr>mb_manifest = manifest, mb_manifest_hash = derived_hash, mb_signer_id_at_submission = signer\<rparr>)))))))"

definition fetch_manifest_binding ::
    "'man manifest_api \<Rightarrow> stored_job \<Rightarrow> ('m, 'man stored_manifest_binding) job_tx" where
  "fetch_manifest_binding api job =
     tx_bind (select_manifest (sj_job_id job)) (\<lambda>row.
     tx_bind (lift_result (ok_or row (LegacyManifestMissing (sj_job_id job)))) (\<lambda>row.
       lift_result (check_manifest_body api job row)))"

definition get_manifest_binding ::
    "'man manifest_api \<Rightarrow> str \<Rightarrow> ('m, 'man stored_manifest_binding option) job_tx" where
  "get_manifest_binding api job_id =
     tx_bind (fetch_job job_id) (\<lambda>found.
     case found of
       None \<Rightarrow> tx_return None
     | Some job \<Rightarrow> tx_bind (fetch_manifest_binding api job) (\<lambda>b. tx_return (Some b)))"

definition submit_manifest_body ::
    "'man manifest_api \<Rightarrow> accepted_job_submission \<Rightarrow> 'man \<Rightarrow> str \<Rightarrow> u64 \<Rightarrow>
     ('m, 'man manifest_bound_submit_result) job_tx" where
  "submit_manifest_body api s manifest signer submitted_at =
     tx_bind (select_submission (as_idempotency_key s)) (\<lambda>mapped.
     case mapped of
       Some stored_job_id \<Rightarrow>
         tx_bind (fetch_job stored_job_id) (\<lambda>found.
         tx_bind (lift_result (ok_or found JobCorruptData)) (\<lambda>stored.
         if \<not> matches_submission stored s then tx_fail (JobIdempotencyConflict stored_job_id (as_job_id s))
         else
           tx_bind (fetch_manifest_binding api stored) (\<lambda>binding.
           if mb_manifest binding \<noteq> manifest \<or> mb_signer_id_at_submission binding \<noteq> signer then
             tx_fail (JobIdempotencyConflict (sj_job_id stored) (as_job_id s))
           else tx_return \<lparr>mr_job = stored, mr_binding = binding, mr_created = False\<rparr>)))
     | None \<Rightarrow>
         tx_bind (fetch_job (as_job_id s)) (\<lambda>found.
         if found \<noteq> None then tx_fail (JobIdConflict (as_job_id s))
         else
           let stored = submitted_job s (ma_hash api manifest) submitted_at in
           tx_bind (insert_job stored) (\<lambda>_.
           tx_bind (insert_manifest (sj_job_id stored) signer (ma_encode api manifest)) (\<lambda>_.
           tx_bind (insert_submission (as_idempotency_key s) (sj_job_id stored)) (\<lambda>_.
             tx_return \<lparr>mr_job = stored,
               mr_binding = \<lparr>mb_manifest = manifest, mb_manifest_hash = ma_hash api manifest,
                 mb_signer_id_at_submission = signer\<rparr>, mr_created = True\<rparr>)))))"

definition submit_verified_manifest ::
    "'man manifest_api \<Rightarrow> accepted_job_submission \<Rightarrow> 'man \<Rightarrow> str \<Rightarrow> u64 \<Rightarrow>
     ('m, 'man manifest_bound_submit_result) job_tx" where
  "submit_verified_manifest api s manifest signer submitted_at =
     tx_bind (lift_result (validate_submission s)) (\<lambda>_.
     tx_bind (lift_result (validate_manifest_identity api s manifest signer)) (\<lambda>_.
     tx_bind (lift_result (reject_if (as_manifest_hash s \<noteq> ma_hash api manifest) ManifestHashMismatch)) (\<lambda>_.
       in_transaction job_map_sql_error (submit_manifest_body api s manifest signer submitted_at))))"

section \<open>Transitions\<close>

definition ensure_not_before :: "u64 \<Rightarrow> u64 \<Rightarrow> job_store_error + unit" where
  "ensure_not_before event prior = (if event < prior then Err (JobClockRollback event prior) else Ok ())"

text \<open>\<open>checked_add(1)\<close> on the revision, then \<open>update_job\<close>.\<close>

definition write_next_revision :: "stored_job \<Rightarrow> ('m, stored_job) job_tx" where
  "write_next_revision job =
     tx_bind (lift_result (ok_or (checked_add (sj_revision job) 1) JobCorruptData)) (\<lambda>revision.
     let job = job\<lparr>sj_revision := revision\<rparr> in
     tx_bind (update_job job) (\<lambda>_. tx_return job))"

definition job_transaction :: "str \<Rightarrow> (stored_job \<Rightarrow> ('m, stored_job) job_tx) \<Rightarrow> ('m, stored_job) job_tx" where
  "job_transaction job_id apply_step = in_transaction job_map_sql_error (
     tx_bind (fetch_job job_id) (\<lambda>found.
     tx_bind (lift_result (ok_or found JobNotFound)) apply_step))"

definition start_planning :: "str \<Rightarrow> u64 \<Rightarrow> ('m, stored_job) job_tx" where
  "start_planning job_id at = job_transaction job_id (\<lambda>job.
     if sj_state job = JobPlanning then tx_return job
     else if sj_state job \<noteq> JobSubmitted then tx_fail (JobInvalidTransition (sj_state job) JobPlanning)
     else
       tx_bind (lift_result (ensure_not_before at (sj_submitted_at_unix_ms job))) (\<lambda>_.
         write_next_revision (job\<lparr>sj_state := JobPlanning, sj_planning_at_unix_ms := Some at\<rparr>)))"

text \<open>\<open>PLANNING -> QUEUED\<close>, the end of \<open>enqueue\<close> and of \<open>plan_and_enqueue\<close>.\<close>

definition enqueue_planned :: "str \<Rightarrow> u64 \<Rightarrow> stored_job \<Rightarrow> ('m, stored_job) job_tx" where
  "enqueue_planned plan_id at job =
     (if sj_state job \<noteq> JobPlanning then tx_fail (JobInvalidTransition (sj_state job) JobQueued)
      else
        tx_bind (lift_result (ok_or (sj_planning_at_unix_ms job) JobCorruptData)) (\<lambda>planning_at.
        tx_bind (lift_result (ensure_not_before at planning_at)) (\<lambda>_.
          write_next_revision (job\<lparr>sj_state := JobQueued, sj_queued_at_unix_ms := Some at,
            sj_plan_id := Some plan_id\<rparr>))))"

text \<open>A job that is queued already: the same plan is a retry, another one a conflict.\<close>

definition same_plan :: "str \<Rightarrow> stored_job \<Rightarrow> job_store_error + stored_job" where
  "same_plan plan_id job =
     (if sj_plan_id job = Some plan_id then Ok job
      else Err (JobPlanConflict (case sj_plan_id job of Some p \<Rightarrow> p | None \<Rightarrow> []) plan_id))"

definition enqueue :: "str \<Rightarrow> str \<Rightarrow> u64 \<Rightarrow> ('m, stored_job) job_tx" where
  "enqueue job_id plan_id at =
     tx_bind (lift_result (reject_if (is_blank plan_id) (JobInvalidInput ''plan_id''))) (\<lambda>_.
     job_transaction job_id (\<lambda>job.
       if sj_state job = JobQueued then lift_result (same_plan plan_id job)
       else enqueue_planned plan_id at job))"

text \<open>\<open>now\<close> is the reading of the clock inside the transaction, used when no time is given.\<close>

definition plan_and_enqueue_inner :: "str \<Rightarrow> str \<Rightarrow> u64 option \<Rightarrow> u64 \<Rightarrow> bool \<Rightarrow> ('m, stored_job) job_tx" where
  "plan_and_enqueue_inner job_id plan_id at_unix_ms now fail_after_planning =
     tx_bind (lift_result (reject_if (is_blank plan_id) (JobInvalidInput ''plan_id''))) (\<lambda>_.
     job_transaction job_id (\<lambda>job.
       let at = (case at_unix_ms of Some t \<Rightarrow> t | None \<Rightarrow> now) in
       if sj_state job = JobQueued then lift_result (same_plan plan_id job)
       else
         tx_bind (if sj_state job = JobSubmitted then
             tx_bind (lift_result (ensure_not_before at (sj_submitted_at_unix_ms job))) (\<lambda>_.
             tx_bind (write_next_revision (job\<lparr>sj_state := JobPlanning, sj_planning_at_unix_ms := Some at\<rparr>)) (\<lambda>job.
             if fail_after_planning then tx_fail JobCorruptData else tx_return job))
           else tx_return job) (\<lambda>job.
         enqueue_planned plan_id at job)))"

definition plan_and_enqueue :: "str \<Rightarrow> str \<Rightarrow> u64 \<Rightarrow> ('m, stored_job) job_tx" where
  "plan_and_enqueue job_id plan_id at = plan_and_enqueue_inner job_id plan_id (Some at) at False"

definition plan_and_enqueue_now :: "str \<Rightarrow> str \<Rightarrow> u64 \<Rightarrow> ('m, stored_job) job_tx" where
  "plan_and_enqueue_now job_id plan_id now = plan_and_enqueue_inner job_id plan_id None now False"


definition queue_failure_guard :: "queue_failure \<Rightarrow> u64 \<Rightarrow> u64 \<Rightarrow> stored_job \<Rightarrow> job_store_error + unit" where
  "queue_failure_guard failure at queued_at job =
     (case failure of
        DeadlinePassed \<Rightarrow>
          and_then (ok_or (sj_deadline_unix_ms job) (JobGuardNotMet ''Job has no deadline'')) (\<lambda>deadline.
            reject_if (at \<le> deadline) (JobGuardNotMet ''now must be greater than deadline''))
      | QueueTimeout \<Rightarrow>
          and_then (ok_or (sj_max_queue_duration_ms job) (JobGuardNotMet ''Job has no independent queue timeout'')) (\<lambda>limit.
          and_then (ok_or (checked_sub at queued_at) (JobClockRollback at queued_at)) (\<lambda>elapsed.
            reject_if (elapsed \<le> limit) (JobGuardNotMet ''queue wait must be greater than max queue duration'')))
      | PermanentlyInfeasible _ \<Rightarrow> Ok ())"

definition blank_reason :: "queue_failure \<Rightarrow> bool" where
  "blank_reason failure = (case failure of PermanentlyInfeasible reason \<Rightarrow> is_blank reason | _ \<Rightarrow> False)"

definition fail_queued :: "str \<Rightarrow> queue_failure \<Rightarrow> u64 \<Rightarrow> ('m, stored_job) job_tx" where
  "fail_queued job_id failure at =
     tx_bind (lift_result (reject_if (blank_reason failure) (JobInvalidInput ''permanent infeasibility reason''))) (\<lambda>_.
     job_transaction job_id (\<lambda>job.
       if sj_state job = JobFailed \<and> sj_queue_failure job = Some failure then tx_return job
       else if sj_state job \<noteq> JobQueued then tx_fail (JobInvalidTransition (sj_state job) JobFailed)
       else
         tx_bind (lift_result (ok_or (sj_queued_at_unix_ms job) JobCorruptData)) (\<lambda>queued_at.
         tx_bind (lift_result (ensure_not_before at queued_at)) (\<lambda>_.
         tx_bind (lift_result (queue_failure_guard failure at queued_at job)) (\<lambda>_.
           write_next_revision (job\<lparr>sj_state := JobFailed, sj_queue_failure := Some failure,
             sj_failed_at_unix_ms := Some at\<rparr>))))))"

definition rejected_transition :: "job_transition_rejected + 'a \<Rightarrow> job_store_error + 'a" where
  "rejected_transition r =
     (case r of Inl (JobTransitionRejected from to) \<Rightarrow> Err (JobInvalidTransition from to) | Inr x \<Rightarrow> Ok x)"

text \<open>The functions below run inside a transaction of their caller.\<close>

definition node_lost_path :: "job_state \<Rightarrow> bool \<Rightarrow> job_store_error + job_state list" where
  "node_lost_path from resumable =
     (if from = JobStaging then Ok [JobQueued]
      else if from = JobRunning \<and> resumable then Ok [JobInterrupted, JobReplanning, JobQueued]
      else if from = JobRunning then Ok [JobInterrupted, JobFailed]
      else Err (JobInvalidTransition from JobQueued))"

definition requeue_after_node_lost :: "stored_job \<Rightarrow> bytes option \<Rightarrow> u64 \<Rightarrow> ('m, stored_job) job_tx" where
  "requeue_after_node_lost job resume worker_clock_hint =
     tx_bind (lift_result (node_lost_path (sj_state job) (resume \<noteq> None))) (\<lambda>path.
     tx_bind (lift_result (rejected_transition (job_walk (sj_state job) path))) (\<lambda>state.
     tx_bind (if state = JobQueued then
         tx_bind (lift_result (ok_or (checked_add (sj_requeue_count job) 1) JobCorruptData)) (\<lambda>count.
           tx_return (job\<lparr>sj_state := state, sj_staging_at_unix_ms := None, sj_running_at_unix_ms := None,
             sj_requeue_count := count,
             sj_resume_checkpoint := (if resume \<noteq> None then resume else sj_resume_checkpoint job)\<rparr>))
       else tx_return (job\<lparr>sj_state := state, sj_run_terminal := Some RunNoCommittedCheckpoint,
         sj_worker_reported_finished_at_unix_ms := Some worker_clock_hint\<rparr>))
     write_next_revision))"

definition pause_for_owner_preempt :: "stored_job \<Rightarrow> bytes option \<Rightarrow> ('m, stored_job) job_tx" where
  "pause_for_owner_preempt job resume =
     tx_bind (lift_result (rejected_transition (job_transition (sj_state job) JobPaused))) (\<lambda>state.
     tx_bind (lift_result (ok_or (checked_add (sj_requeue_count job) 1) JobCorruptData)) (\<lambda>count.
       write_next_revision (job\<lparr>sj_state := state, sj_requeue_count := count,
         sj_resume_checkpoint := (if resume \<noteq> None then resume else sj_resume_checkpoint job)\<rparr>)))"

definition ack_is_for_current_attempt :: "str \<Rightarrow> str \<Rightarrow> u64 \<Rightarrow> ('m, bool) job_tx" where
  "ack_is_for_current_attempt job_id attempt_id now =
     tx_bind (fetch_job job_id) (\<lambda>found.
     tx_bind (lift_result (ok_or found JobNotFound)) (\<lambda>job.
     if sj_state job \<notin> {JobStaging, JobRunning} then tx_return False
     else
       tx_bind (select_latest_attempt job_id) (\<lambda>latest.
       if latest \<noteq> Some attempt_id then tx_return False
       else
         tx_bind (lift_result (if sj_state job = JobStaging then
             (case sj_staging_at_unix_ms job of Some staging_at \<Rightarrow> ensure_not_before now staging_at | None \<Rightarrow> Ok ())
           else Ok ())) (\<lambda>_. tx_return True))))"

definition record_staging_complete :: "str \<Rightarrow> str \<Rightarrow> u64 \<Rightarrow> ('m, bool) job_tx" where
  "record_staging_complete job_id attempt_id now =
     tx_bind (fetch_job job_id) (\<lambda>found.
     tx_bind (lift_result (ok_or found JobNotFound)) (\<lambda>job.
     if sj_state job \<notin> {JobStaging, JobRunning} then tx_return False
     else
       tx_bind (select_latest_attempt job_id) (\<lambda>latest.
       if latest \<noteq> Some attempt_id then tx_return False
       else if sj_state job = JobRunning then tx_return True
       else
         tx_bind (lift_result (case sj_staging_at_unix_ms job of
             Some staging_at \<Rightarrow> ensure_not_before now staging_at | None \<Rightarrow> Ok ())) (\<lambda>_.
         tx_bind (lift_result (rejected_transition (job_transition (sj_state job) JobRunning))) (\<lambda>state.
         tx_bind (write_next_revision (job\<lparr>sj_state := state, sj_running_at_unix_ms := Some now\<rparr>)) (\<lambda>_.
           tx_return True))))))"

text \<open>The path of the job for the end of its latest attempt, and the trigger of its last edge.\<close>

definition terminal_path :: "attempt_state \<Rightarrow> bool \<Rightarrow> job_state list option" where
  "terminal_path attempt_final attempt_ran =
     (if attempt_final = AttemptCompleted then Some [JobRunning, JobCompleted]
      else if attempt_final = AttemptFailed \<and> attempt_ran then Some [JobRunning, JobFailed]
      else if attempt_final = AttemptFailed \<or> attempt_final = AttemptCancelled then Some [JobFailed]
      else None)"

definition terminal_of_edge :: "job_state \<Rightarrow> job_state \<Rightarrow> job_store_error + run_terminal" where
  "terminal_of_edge from to =
     (if from = JobRunning \<and> to = JobCompleted then Ok RunAttemptCompleted
      else if from = JobRunning \<and> to = JobFailed then Ok RunUnrecoverableError
      else if from = JobStaging \<and> to = JobFailed then Ok RunStagingFailed
      else Err (JobInvalidTransition from to))"

definition finish_along :: "job_state list \<Rightarrow> u64 \<Rightarrow> stored_job \<Rightarrow> ('m, stored_job) job_tx" where
  "finish_along path finished_at job =
     (let path = (if sj_state job = JobRunning \<and> hd path = JobRunning then tl path else path);
          prefix = butlast path;
          last_from = (if prefix = [] then sj_state job else last prefix);
          final_to = last path
      in
      tx_bind (lift_result (terminal_of_edge last_from final_to)) (\<lambda>terminal.
      tx_bind (lift_result (rejected_transition (job_walk (sj_state job) prefix))) (\<lambda>_.
      tx_bind (lift_result (rejected_transition
        (job_transition_via last_from final_to (run_terminal_trigger terminal)))) (\<lambda>final_state.
        write_next_revision (job\<lparr>sj_state := final_state, sj_run_terminal := Some terminal,
          sj_worker_reported_finished_at_unix_ms := Some finished_at\<rparr>)))))"

definition follow_attempt_terminal ::
    "str \<Rightarrow> str \<Rightarrow> attempt_state \<Rightarrow> bool \<Rightarrow> u64 \<Rightarrow> ('m, stored_job option) job_tx" where
  "follow_attempt_terminal job_id attempt_id attempt_final attempt_ran finished_at =
     tx_bind (fetch_job job_id) (\<lambda>found.
     tx_bind (lift_result (ok_or found JobNotFound)) (\<lambda>job.
     if sj_state job \<notin> {JobStaging, JobRunning} then tx_return None
     else
       tx_bind (select_latest_attempt job_id) (\<lambda>latest.
       if latest \<noteq> Some attempt_id then tx_return None
       else
         case terminal_path attempt_final attempt_ran of
           None \<Rightarrow> tx_return None
         | Some path \<Rightarrow> tx_bind (finish_along path finished_at job) (\<lambda>job. tx_return (Some job)))))"

section \<open>Queries\<close>

definition select_in_states :: "string list \<Rightarrow> ('m, raw_job_row list) job_tx" where
  "select_in_states names = statement job_map_sql_error (\<lambda>db.
     (filter (\<lambda>r. rj_state r \<in> set names) (map snd (jd_jobs db)), db))"

definition queue_key :: "stored_job \<Rightarrow> u64 option \<times> str" where
  "queue_key j = (sj_queued_at_unix_ms j, sj_job_id j)"

definition list_schedulable :: "('m, stored_job list) job_tx" where
  "list_schedulable =
     tx_bind (select_in_states [''QUEUED'', ''PAUSED'']) (\<lambda>rows.
     tx_bind (lift_result (collect_results job_into_stored rows)) (\<lambda>jobs.
       tx_return (sort_by (\<lambda>a b. ord_cmp (queue_key a) (queue_key b)) jobs)))"

definition list_queued :: "('m, stored_job list) job_tx" where
  "list_queued =
     tx_bind (select_in_states [''QUEUED'']) (\<lambda>rows.
     tx_bind (lift_result (collect_results job_into_stored rows)) (\<lambda>jobs.
       tx_return (sort_key queue_key jobs)))"

definition list_in_run_states :: "('m, stored_job list) job_tx" where
  "list_in_run_states =
     tx_bind (select_in_states [''STAGING'', ''RUNNING'']) (\<lambda>rows.
       lift_result (collect_results job_into_stored (sort_key rj_job_id rows)))"

section \<open>The pool marker\<close>

definition declare_pool_mode :: "u64 \<Rightarrow> 'm job_db_scheme \<Rightarrow> (sql_error + unit) \<times> 'm job_db_scheme" where
  "declare_pool_mode now =
     tx_bind (statement id (\<lambda>db. ((), db))) (\<lambda>_.
     tx_bind (statement id (\<lambda>db. ((), db))) (\<lambda>_.
     tx_bind (statement id (\<lambda>db. ((), db\<lparr>jd_pool_mode :=
         (case jd_pool_mode db of None \<Rightarrow> Some None | Some m \<Rightarrow> Some m)\<rparr>))) (\<lambda>_.
       statement id (\<lambda>db. ((), db\<lparr>jd_pool_mode :=
         (case jd_pool_mode db of Some None \<Rightarrow> Some (Some (to_be_bytes_u64 now)) | m \<Rightarrow> m)\<rparr>)))))"

definition pool_mode_declared :: "('m, bool) job_tx" where
  "pool_mode_declared =
     tx_bind (statement job_map_sql_error (\<lambda>db. (jd_pool_mode db \<noteq> None, db))) (\<lambda>table.
     if \<not> table then tx_return False
     else statement job_map_sql_error (\<lambda>db. (case jd_pool_mode db of Some (Some m) \<Rightarrow> True | _ \<Rightarrow> False, db)))"

end
