(* ===== verification/Job_Rows.thy ===== *)
theory Job_Rows
  imports Job_Store
begin

text \<open>
  Reading and writing job rows, and what each function of the job store does to the job table.

  \<open>row_of j\<close> is the row a job is stored as and \<open>job_ok j\<close> says that it reads back as
  \<open>j\<close>. The table changes in two ways only (\<open>job_change\<close>): a job is submitted, or one
  job makes a \<open>job_step\<close>: its facts stay, its state moves along the normative table, its
  revision goes up by one and the new row reads back.
\<close>

section \<open>Rows read back\<close>

definition row_of :: "stored_job \<Rightarrow> raw_job_row" where
  "row_of j = updated_row j (submitted_row j)"

definition storable :: "job_state \<Rightarrow> bool" where
  "storable s \<longleftrightarrow> s \<in> {JobSubmitted, JobPlanning, JobQueued, JobStaging, JobRunning, JobPaused, JobCompleted, JobFailed}"

definition job_ok :: "stored_job \<Rightarrow> bool" where
  "job_ok j \<longleftrightarrow> storable (sj_state j) \<and>
     valid_shape (sj_state j) (sj_run_terminal j) (sj_queue_failure j) (row_of j) \<and>
     (sj_resume_checkpoint j \<noteq> None \<longrightarrow> sj_requeue_count j \<noteq> 0) \<and> sj_resume_checkpoint j \<noteq> Some [] \<and>
     (\<forall>f. sj_queue_failure j = Some f \<longrightarrow> \<not> blank_reason f) \<and> length (sj_manifest_hash j) = 32"

text \<open>What no update touches.\<close>

definition job_facts :: "stored_job \<Rightarrow> (str \<times> str \<times> bytes) \<times> (u64 \<times> u64 option \<times> u64 option)" where
  "job_facts j = ((sj_job_id j, sj_submitter_device_id j, sj_manifest_hash j),
     (sj_submitted_at_unix_ms j, sj_deadline_unix_ms j, sj_max_queue_duration_ms j))"

lemma job_decode_encode [simp]: "job_decode_u64 (encode_u64 v) = Ok v"
  by (simp add: job_decode_u64_def encode_u64_def)

lemma job_decode_eq_encode: "job_decode_u64 b = Inr v \<longleftrightarrow> b = encode_u64 v"
  using decode_eq_encode [of b v] by (auto simp: job_decode_u64_def decode_u64_def encode_u64_def split: if_splits)

lemma map_transpose_decode:
  "map_transpose job_decode_u64 (map_option encode_u64 x) = Ok x"
  "map_transpose job_decode_u64 c = Inr x \<longleftrightarrow> c = map_option encode_u64 x"
  by (cases x; simp) (cases c; cases x; simp add: result_ok job_decode_eq_encode)

lemma parse_job_state_Ok: "parse_job_state name = Inr s \<longleftrightarrow> storable s \<and> name = job_table_name s"
  by (cases s) (auto simp: parse_job_state_def parse_job_state_names_def storable_def ok_or_Ok split: if_splits)

lemma run_terminal_parse_Ok: "run_terminal_parse name = Inr t \<longleftrightarrow> name = run_terminal_trigger t"
  by (cases t) (auto simp: run_terminal_parse_def)

lemma map_transpose_terminal: "map_transpose run_terminal_parse c = Inr t \<longleftrightarrow> c = map_option run_terminal_trigger t"
  by (cases c; cases t) (auto simp: result_ok run_terminal_parse_Ok)

lemma queue_failure_parse_Ok:
  "queue_failure_parse code detail = Inr f \<longleftrightarrow>
     code = queue_failure_code f \<and> detail = queue_failure_detail f \<and> \<not> blank_reason f"
  by (cases f) (auto simp: queue_failure_parse_def blank_reason_def split: option.splits if_splits)

lemma job_queue_failure_Ok:
  "job_queue_failure r = Inr q \<longleftrightarrow>
     rj_queue_failure_kind r = map_option queue_failure_code q \<and>
     rj_queue_failure_detail r = (case q of Some f \<Rightarrow> queue_failure_detail f | None \<Rightarrow> None) \<and>
     (\<forall>f. q = Some f \<longrightarrow> \<not> blank_reason f)"
  by (cases q) (auto simp: job_queue_failure_def result_ok queue_failure_parse_Ok split: option.splits)

lemma decode_hash_Ok: "decode_hash b = Inr h \<longleftrightarrow> h = b \<and> length b = 32"
  by (auto simp: decode_hash_def)

lemma valid_shape_cong:
  assumes "(rj_planning_at_unix_ms r = None) = (rj_planning_at_unix_ms q = None)"
    "(rj_queued_at_unix_ms r = None) = (rj_queued_at_unix_ms q = None)"
    "(rj_staging_at_unix_ms r = None) = (rj_staging_at_unix_ms q = None)"
    "(rj_running_at_unix_ms r = None) = (rj_running_at_unix_ms q = None)"
    "(rj_worker_reported_finished_at_unix_ms r = None) = (rj_worker_reported_finished_at_unix_ms q = None)"
    "(rj_failed_at_unix_ms r = None) = (rj_failed_at_unix_ms q = None)" "rj_plan_id r = rj_plan_id q"
  shows "valid_shape s t f r = valid_shape s t f q"
  using assms by (cases s) (simp_all add: valid_shape_def)

lemmas row_simps = row_of_def updated_row_def submitted_row_def

lemmas read_row = job_into_stored_def Let_def and_then_Ok reject_if_Ok map_transpose_decode(2) map_transpose_terminal
  parse_job_state_Ok job_queue_failure_Ok job_decode_eq_encode decode_hash_Ok

text \<open>Each column of a readable row is the encoding of its field; only a zero requeue count has
  two encodings.\<close>

lemma job_into_stored_columns:
  assumes "job_into_stored r = Inr j"
  shows "valid_shape (sj_state j) (sj_run_terminal j) (sj_queue_failure j) r \<and> storable (sj_state j) \<and>
      (sj_resume_checkpoint j \<noteq> None \<longrightarrow> sj_requeue_count j \<noteq> 0) \<and> sj_resume_checkpoint j \<noteq> Some [] \<and>
      (\<forall>f. sj_queue_failure j = Some f \<longrightarrow> \<not> blank_reason f) \<and> length (sj_manifest_hash j) = 32"
    and "\<exists>c. r = (row_of j)\<lparr>rj_requeue_count := c\<rparr>"
proof -
  show "valid_shape (sj_state j) (sj_run_terminal j) (sj_queue_failure j) r \<and> storable (sj_state j) \<and>
      (sj_resume_checkpoint j \<noteq> None \<longrightarrow> sj_requeue_count j \<noteq> 0) \<and> sj_resume_checkpoint j \<noteq> Some [] \<and>
      (\<forall>f. sj_queue_failure j = Some f \<longrightarrow> \<not> blank_reason f) \<and> length (sj_manifest_hash j) = 32"
    using assms by (clarsimp simp: read_row)
  show "\<exists>c. r = (row_of j)\<lparr>rj_requeue_count := c\<rparr>"
    by (rule exI [of _ "rj_requeue_count r"]) (use assms in \<open>clarsimp simp: read_row row_simps\<close>)
qed


lemma row_shape: "valid_shape s t f ((row_of j)\<lparr>rj_requeue_count := c\<rparr>) = valid_shape s t f (row_of j)"
  by (rule valid_shape_cong) simp_all

lemma job_into_stored_ok: "job_into_stored r = Inr j \<Longrightarrow> job_ok j"
  using job_into_stored_columns [of r j] row_shape by (auto simp: job_ok_def)

lemma job_into_stored_id: "job_into_stored r = Inr j \<Longrightarrow> rj_job_id r = sj_job_id j"
  using job_into_stored_columns(2) [of r j] by (auto simp: row_simps)

lemma job_into_stored_state: "job_into_stored r = Inr j \<Longrightarrow> rj_state r = job_table_name (sj_state j)"
  using job_into_stored_columns(2) [of r j] by (auto simp: row_simps)

lemma updated_row_of:
  assumes "job_into_stored r = Inr j" and "job_facts k = job_facts j"
  shows "updated_row k r = row_of k"
  using job_into_stored_columns(2) [OF assms(1)] assms(2) by (auto simp: row_simps job_facts_def)

lemma read_columns:
  assumes "job_ok j"
  shows "parse_job_state (rj_state (row_of j)) = Ok (sj_state j)"
    "map_transpose run_terminal_parse (rj_run_terminal (row_of j)) = Ok (sj_run_terminal j)"
    "job_queue_failure (row_of j) = Ok (sj_queue_failure j)"
    "map_transpose job_decode_u64 (rj_requeue_count (row_of j)) =
      Ok (if sj_requeue_count j > 0 then Some (sj_requeue_count j) else None)"
    "decode_hash (rj_manifest_hash (row_of j)) = Ok (sj_manifest_hash j)"
    "job_decode_u64 (rj_submitted_at_unix_ms (row_of j)) = Ok (sj_submitted_at_unix_ms j)"
    "job_decode_u64 (rj_revision (row_of j)) = Ok (sj_revision j)"
proof -
  show "parse_job_state (rj_state (row_of j)) = Ok (sj_state j)"
    using assms unfolding parse_job_state_Ok by (simp add: job_ok_def row_simps)
  show "map_transpose run_terminal_parse (rj_run_terminal (row_of j)) = Ok (sj_run_terminal j)"
    unfolding map_transpose_terminal by (simp add: row_simps)
  show "job_queue_failure (row_of j) = Ok (sj_queue_failure j)"
    using assms unfolding job_queue_failure_Ok by (simp add: job_ok_def row_simps)
  show "decode_hash (rj_manifest_hash (row_of j)) = Ok (sj_manifest_hash j)"
    using assms by (simp add: decode_hash_def job_ok_def row_simps)
qed (simp_all add: row_simps)

lemma read_times:
  "map_transpose job_decode_u64 (rj_planning_at_unix_ms (row_of j)) = Ok (sj_planning_at_unix_ms j)"
  "map_transpose job_decode_u64 (rj_queued_at_unix_ms (row_of j)) = Ok (sj_queued_at_unix_ms j)"
  "map_transpose job_decode_u64 (rj_staging_at_unix_ms (row_of j)) = Ok (sj_staging_at_unix_ms j)"
  "map_transpose job_decode_u64 (rj_deadline_unix_ms (row_of j)) = Ok (sj_deadline_unix_ms j)"
  "map_transpose job_decode_u64 (rj_max_queue_duration_ms (row_of j)) = Ok (sj_max_queue_duration_ms j)"
  "map_transpose job_decode_u64 (rj_failed_at_unix_ms (row_of j)) = Ok (sj_failed_at_unix_ms j)"
  "map_transpose job_decode_u64 (rj_running_at_unix_ms (row_of j)) = Ok (sj_running_at_unix_ms j)"
  "map_transpose job_decode_u64 (rj_worker_reported_finished_at_unix_ms (row_of j)) =
     Ok (sj_worker_reported_finished_at_unix_ms j)"
  by (simp_all add: row_simps map_transpose_decode(1))

lemma read_texts:
  "rj_job_id (row_of j) = sj_job_id j" "rj_submitter_device_id (row_of j) = sj_submitter_device_id j"
  "rj_plan_id (row_of j) = sj_plan_id j" "rj_resume_checkpoint (row_of j) = sj_resume_checkpoint j"
  by (simp_all add: row_simps)

lemma job_into_stored_row_of:
  assumes "job_ok j"
  shows "job_into_stored (row_of j) = Ok j"
proof -
  have "(case if sj_requeue_count j > 0 then Some (sj_requeue_count j) else None of Some n \<Rightarrow> n | None \<Rightarrow> 0) =
      sj_requeue_count j"
    by (simp add: word_gt_0)
  moreover have "\<not> (sj_resume_checkpoint j \<noteq> None \<and> sj_requeue_count j = 0)" "sj_resume_checkpoint j \<noteq> Some []"
    "valid_shape (sj_state j) (sj_run_terminal j) (sj_queue_failure j) (row_of j)"
    using assms by (auto simp: job_ok_def)
  ultimately show ?thesis
    unfolding job_into_stored_def Let_def read_columns [OF assms] and_then_simps read_times read_texts by (auto simp: reject_if_def)
qed

lemma job_table_name_inject [simp]: "job_table_name s = job_table_name t \<longleftrightarrow> s = t"
  by (cases s; cases t) simp_all

section \<open>Statements of the job tables\<close>

lemma fetch_job_Ok:
  "fetch_job i db = (Inr found, db') \<longleftrightarrow>
     (\<exists>t. db' = db\<lparr>db_tape := t\<rparr> \<and> (db_tape db = [] \<and> t = [] \<or> db_tape db = None # t) \<and>
       map_transpose job_into_stored (hm_get (jd_jobs db) i) = Inr found)"
  by (auto simp: fetch_job_def tx_ok)

lemma update_job_Ok:
  assumes "update_job j db = (Inr u, db')"
  obtains t r where "hm_get (jd_jobs db) (sj_job_id j) = Some r"
    "db' = db\<lparr>db_tape := t, jd_jobs := hm_insert (sj_job_id j) (updated_row j r) (jd_jobs db)\<rparr>"
  using assms by (auto simp: update_job_def tx_ok split: option.splits if_splits)

lemma facts_keep: "sj_job_id (j\<lparr>sj_revision := v\<rparr>) = sj_job_id j"
  by simp

lemma write_next_revision_Ok:
  assumes "write_next_revision j db = (Inr j', db')"
  obtains t r where "hm_get (jd_jobs db) (sj_job_id j) = Some r" "j' = j\<lparr>sj_revision := sj_revision j + 1\<rparr>"
    "unat (sj_revision j) + 1 < 2 ^ 64"
    "db' = db\<lparr>db_tape := t, jd_jobs := hm_insert (sj_job_id j) (updated_row j' r) (jd_jobs db)\<rparr>"
proof -
  from assms obtain v u db1 where "checked_add (sj_revision j) 1 = Some v" and j': "j' = j\<lparr>sj_revision := v\<rparr>"
    and u: "update_job (j\<lparr>sj_revision := v\<rparr>) db = (Inr u, db')"
    by (auto simp: write_next_revision_def tx_ok Let_def ok_or_Ok)
  then have "v = sj_revision j + 1" "unat (sj_revision j) + 1 < 2 ^ 64" by (simp_all add: checked_add_Some)
  with update_job_Ok [OF u] j' that show ?thesis by (metis facts_keep)
qed


section \<open>Steps of a job\<close>

definition job_step :: "stored_job \<Rightarrow> stored_job \<Rightarrow> bool" where
  "job_step j j' \<longleftrightarrow> job_facts j' = job_facts j \<and> job_ok j' \<and> unat (sj_revision j') = unat (sj_revision j) + 1 \<and>
     (\<exists>path. path \<noteq> [] \<and> job_walk (sj_state j) path = Ok (sj_state j'))"

inductive job_change :: "(str, raw_job_row) hash_map \<Rightarrow> (str, raw_job_row) hash_map \<Rightarrow> bool" where
  submit: "hm_get m (sj_job_id j) = None \<Longrightarrow> j = submitted_job s h t \<Longrightarrow> length h = 32 \<Longrightarrow>
    job_change m (hm_insert (sj_job_id j) (row_of j) m)"
| move: "hm_get m (sj_job_id j) = Some r \<Longrightarrow> job_into_stored r = Inr j \<Longrightarrow> job_step j j' \<Longrightarrow>
    job_change m (hm_insert (sj_job_id j) (row_of j') m)"

definition jobs_ok :: "(str, raw_job_row) hash_map \<Rightarrow> bool" where
  "jobs_ok m \<longleftrightarrow> hm_invar m \<and> (\<forall>i r. hm_get m i = Some r \<longrightarrow> rj_job_id r = i)"

text \<open>The job table may have moved, the other tables are as before.\<close>

definition jobs_move :: "'m job_db_scheme \<Rightarrow> 'm job_db_scheme \<Rightarrow> bool" where
  "jobs_move db db' \<longleftrightarrow> (\<exists>t m. db' = db\<lparr>db_tape := t, jd_jobs := m\<rparr> \<and> job_change\<^sup>*\<^sup>* (jd_jobs db) m)"

lemma jobs_move_tape [intro]: "jobs_move db (db\<lparr>db_tape := t\<rparr>)"
  unfolding jobs_move_def by (intro exI [of _ t] exI [of _ "jd_jobs db"]) simp

lemma jobs_move_refl [intro, simp]: "jobs_move db db"
  unfolding jobs_move_def by (intro exI [of _ "db_tape db"] exI [of _ "jd_jobs db"]) simp

lemma jobs_move_trans [trans]:
  assumes "jobs_move db db1" and "jobs_move db1 db2"
  shows "jobs_move db db2"
proof -
  from assms(1) obtain t m where 1: "db1 = db\<lparr>db_tape := t, jd_jobs := m\<rparr>" "job_change\<^sup>*\<^sup>* (jd_jobs db) m"
    by (auto simp: jobs_move_def)
  from assms(2) obtain t' m' where 2: "db2 = db1\<lparr>db_tape := t', jd_jobs := m'\<rparr>" "job_change\<^sup>*\<^sup>* (jd_jobs db1) m'"
    by (auto simp: jobs_move_def)
  then have "job_change\<^sup>*\<^sup>* (jd_jobs db) m'" using 1 by simp
  moreover have "db2 = db\<lparr>db_tape := t', jd_jobs := m'\<rparr>" using 1(1) 2(1) by simp
  ultimately show ?thesis by (auto simp: jobs_move_def)
qed

lemma jobs_move_tape_iff [simp]:
  "jobs_move (db\<lparr>db_tape := t\<rparr>) db' \<longleftrightarrow> jobs_move db db'"
  "jobs_move db (db'\<lparr>db_tape := t\<rparr>) \<longleftrightarrow> jobs_move db db'"
proof -
  show "jobs_move (db\<lparr>db_tape := t\<rparr>) db' \<longleftrightarrow> jobs_move db db'"
    by (simp add: jobs_move_def)
  show "jobs_move db (db'\<lparr>db_tape := t\<rparr>) \<longleftrightarrow> jobs_move db db'"
  proof
    assume "jobs_move db (db'\<lparr>db_tape := t\<rparr>)"
    moreover have "jobs_move (db'\<lparr>db_tape := t\<rparr>) db'"
      using jobs_move_tape [of "db'\<lparr>db_tape := t\<rparr>" "db_tape db'"] by simp
    ultimately show "jobs_move db db'" by (rule jobs_move_trans)
  qed (use jobs_move_trans jobs_move_tape in blast)
qed

lemma job_change_ok:
  assumes "job_change m m'" and "jobs_ok m"
  shows "jobs_ok m'"
  using assms
proof cases
  case (submit j s h t)
  then show ?thesis using assms(2) by (auto simp: jobs_ok_def hm.invar_insert hm.get_insert read_texts)
next
  case (move j r j')
  then have "sj_job_id j' = sj_job_id j" by (simp add: job_step_def job_facts_def)
  with move assms(2) show ?thesis by (auto simp: jobs_ok_def hm.invar_insert hm.get_insert read_texts)
qed

lemma job_changes_ok: "job_change\<^sup>*\<^sup>* m m' \<Longrightarrow> jobs_ok m \<Longrightarrow> jobs_ok m'"
  by (induction rule: rtranclp_induct) (auto intro: job_change_ok)

lemma jobs_move_ok: "jobs_move db db' \<Longrightarrow> jobs_ok (jd_jobs db) \<Longrightarrow> jobs_ok (jd_jobs db')"
  by (auto simp: jobs_move_def intro: job_changes_ok)

lemma job_ok_revision [simp]: "job_ok (j\<lparr>sj_revision := v\<rparr>) = job_ok j"
proof -
  have "valid_shape s t f (row_of (j\<lparr>sj_revision := v\<rparr>)) = valid_shape s t f (row_of j)" for s t f
    by (rule valid_shape_cong) (simp_all add: row_simps)
  then show ?thesis by (simp add: job_ok_def)
qed

text \<open>Writing a job whose state has moved.\<close>

lemma write_job_step:
  assumes "write_next_revision k db = (Inr j', db')"
    and "hm_get (jd_jobs db) (sj_job_id j) = Some r" and "job_into_stored r = Inr j"
    and "job_facts k = job_facts j" and "sj_revision k = sj_revision j" and "job_ok k"
    and "path \<noteq> []" and "job_walk (sj_state j) path = Ok (sj_state k)"
  shows "jobs_move db db'" and "job_step j j'" and "j' = k\<lparr>sj_revision := sj_revision j'\<rparr>"
    and "jd_jobs db' = hm_insert (sj_job_id j) (row_of j') (jd_jobs db)"
proof -
  from write_next_revision_Ok [OF assms(1)] obtain t q where
    q: "hm_get (jd_jobs db) (sj_job_id k) = Some q" and j': "j' = k\<lparr>sj_revision := sj_revision k + 1\<rparr>"
    and rev: "unat (sj_revision k) + 1 < 2 ^ 64"
    and db': "db' = db\<lparr>db_tape := t, jd_jobs := hm_insert (sj_job_id k) (updated_row j' q) (jd_jobs db)\<rparr>" by metis
  have id: "sj_job_id k = sj_job_id j" using assms(4) by (simp add: job_facts_def)
  with q assms(2) have "q = r" by simp
  have facts: "job_facts j' = job_facts j" using assms(4) j' by (simp add: job_facts_def)
  then have row: "updated_row j' q = row_of j'" using updated_row_of [OF assms(3)] \<open>q = r\<close> by simp
  have "unat (sj_revision k + 1) = unat (sj_revision k) + 1" using rev by (simp add: unat_word_ariths)
  then show step: "job_step j j'" using facts j' assms(5-8) by (auto simp: job_step_def)
  show tab: "jd_jobs db' = hm_insert (sj_job_id j) (row_of j') (jd_jobs db)" using db' row id by simp
  show "j' = k\<lparr>sj_revision := sj_revision j'\<rparr>" using j' by simp
  have "job_change (jd_jobs db) (hm_insert (sj_job_id j) (row_of j') (jd_jobs db))"
    using assms(2,3) step by (rule job_change.move)
  then have "job_change\<^sup>*\<^sup>* (jd_jobs db) (hm_insert (sj_job_id j) (row_of j') (jd_jobs db))" by simp
  then show "jobs_move db db'" unfolding jobs_move_def using db' unfolding row id by blast
qed


section \<open>Every write keeps the shape\<close>

named_theorems job_shape \<open>the row of a moved job has the shape of its new state\<close>

lemmas shape_simps = job_ok_def storable_def valid_shape_def Let_def row_simps blank_reason_def

lemma job_ok_submitted [job_shape]: "length h = 32 \<Longrightarrow> job_ok (submitted_job s h t)"
  by (simp add: shape_simps submitted_job_def)

lemma job_ok_planning [job_shape]:
  "job_ok j \<Longrightarrow> sj_state j = JobSubmitted \<Longrightarrow> job_ok (j\<lparr>sj_state := JobPlanning, sj_planning_at_unix_ms := Some at\<rparr>)"
  by (simp add: shape_simps)

lemma job_ok_queued [job_shape]:
  "job_ok j \<Longrightarrow> sj_state j = JobPlanning \<Longrightarrow> \<not> is_blank p \<Longrightarrow>
   job_ok (j\<lparr>sj_state := JobQueued, sj_queued_at_unix_ms := Some at, sj_plan_id := Some p\<rparr>)"
  by (simp add: shape_simps)

lemma job_ok_queue_failed [job_shape]:
  "job_ok j \<Longrightarrow> sj_state j = JobQueued \<Longrightarrow> \<not> blank_reason f \<Longrightarrow>
   job_ok (j\<lparr>sj_state := JobFailed, sj_queue_failure := Some f, sj_failed_at_unix_ms := Some at\<rparr>)"
  by (auto simp: shape_simps)

lemma job_ok_staging [job_shape]:
  "job_ok j \<Longrightarrow> sj_state j = JobQueued \<Longrightarrow> job_ok (j\<lparr>sj_state := JobStaging, sj_staging_at_unix_ms := Some at\<rparr>)"
  by (auto simp: shape_simps)

lemma job_ok_running [job_shape]:
  "job_ok j \<Longrightarrow> sj_state j = JobStaging \<Longrightarrow> job_ok (j\<lparr>sj_state := JobRunning, sj_running_at_unix_ms := Some at\<rparr>)"
  by (auto simp: shape_simps)

lemma job_ok_resumed [job_shape]:
  "job_ok j \<Longrightarrow> sj_state j = JobPaused \<Longrightarrow>
   job_ok (j\<lparr>sj_state := JobRunning, sj_staging_at_unix_ms := Some at, sj_running_at_unix_ms := Some at\<rparr>)"
  by (auto simp: shape_simps)

lemma job_ok_paused [job_shape]:
  "job_ok j \<Longrightarrow> sj_state j = JobRunning \<Longrightarrow> n \<noteq> 0 \<Longrightarrow> c \<noteq> Some [] \<Longrightarrow>
   job_ok (j\<lparr>sj_state := JobPaused, sj_requeue_count := n, sj_resume_checkpoint := c\<rparr>)"
  by (auto simp: shape_simps)

lemma job_ok_requeued [job_shape]:
  "job_ok j \<Longrightarrow> sj_state j = JobStaging \<or> sj_state j = JobRunning \<Longrightarrow> n \<noteq> 0 \<Longrightarrow> c \<noteq> Some [] \<Longrightarrow>
   job_ok (j\<lparr>sj_state := JobQueued, sj_staging_at_unix_ms := None, sj_running_at_unix_ms := None,
     sj_requeue_count := n, sj_resume_checkpoint := c\<rparr>)"
  by (auto simp: shape_simps)

lemma job_ok_finished [job_shape]:
  "job_ok j \<Longrightarrow> sj_state j = JobStaging \<or> sj_state j = JobRunning \<Longrightarrow>
   s = JobCompleted \<and> tm = RunAttemptCompleted \<or> s = JobFailed \<and> tm \<noteq> RunAttemptCompleted \<Longrightarrow>
   job_ok (j\<lparr>sj_state := s, sj_run_terminal := Some tm, sj_worker_reported_finished_at_unix_ms := Some at\<rparr>)"
  by (elim disjE conjE; cases tm; simp add: shape_simps)

lemma job_ok_resume: "job_ok j \<Longrightarrow> sj_resume_checkpoint j \<noteq> Some []"
  by (simp add: job_ok_def)


section \<open>Every function moves jobs\<close>

interpretation jm: tx_relation "jobs_move :: 'm job_db_scheme \<Rightarrow> 'm job_db_scheme \<Rightarrow> bool"
  by unfold_locales (auto intro: jobs_move_trans)

lemma in_transaction_move:
  assumes "\<And>t x db1. body (db\<lparr>db_tape := t\<rparr>) = (Inr x, db1) \<Longrightarrow> jobs_move db db1"
  shows "jobs_move db (snd (in_transaction f body db))"
  by (rule jm.R_in_transaction) (use assms in simp)

lemma checked_bind_move:
  "(\<And>x. r = Inr x \<Longrightarrow> jobs_move db (snd (f x db))) \<Longrightarrow> jobs_move db (snd (tx_bind (lift_result r) f db))"
  by (cases r) (simp_all add: tx_bind_def lift_result_def)

text \<open>The job a function works on is the stored one.\<close>

lemma fetched_job:
  assumes "tx_bind (fetch_job i) (\<lambda>found. tx_bind (lift_result (ok_or found e)) f) db = (Inr x, db')"
    and "jobs_ok (jd_jobs db)"
  obtains t r j where "hm_get (jd_jobs db) i = Some r" "job_into_stored r = Inr j" "sj_job_id j = i" "job_ok j"
    "f j (db\<lparr>db_tape := t\<rparr>) = (Inr x, db')"
proof -
  from assms(1) obtain t j where "map_transpose job_into_stored (hm_get (jd_jobs db) i) = Inr (Some j)"
    and f: "f j (db\<lparr>db_tape := t\<rparr>) = (Inr x, db')"
    by (auto simp: tx_ok fetch_job_Ok ok_or_Ok)
  then obtain r where "hm_get (jd_jobs db) i = Some r" "job_into_stored r = Inr j"
    by (auto simp: map_transpose_Ok split: option.splits)
  moreover from this have "sj_job_id j = i"
    using assms(2) job_into_stored_id [of r j] by (auto simp: jobs_ok_def)
  ultimately show ?thesis using that f job_into_stored_ok by blast
qed

lemma job_transaction_move:
  assumes "jobs_ok (jd_jobs db)"
    and "\<And>t r j x db1. hm_get (jd_jobs db) (sj_job_id j) = Some r \<Longrightarrow> job_into_stored r = Inr j \<Longrightarrow> job_ok j \<Longrightarrow>
      f j (db\<lparr>db_tape := t\<rparr>) = (Inr x, db1) \<Longrightarrow> jobs_move db db1"
  shows "jobs_move db (snd (job_transaction i f db))"
  unfolding job_transaction_def
proof (rule in_transaction_move)
  fix t x db1
  assume run: "tx_bind (fetch_job i) (\<lambda>found. tx_bind (lift_result (ok_or found JobNotFound)) f) (db\<lparr>db_tape := t\<rparr>) = (Inr x, db1)"
  have ok: "jobs_ok (jd_jobs (db\<lparr>db_tape := t\<rparr>))" using assms(1) by simp
  obtain t' r j where "hm_get (jd_jobs (db\<lparr>db_tape := t\<rparr>)) i = Some r" "job_into_stored r = Inr j"
    "sj_job_id j = i" "job_ok j" "f j (db\<lparr>db_tape := t, db_tape := t'\<rparr>) = (Inr x, db1)"
    by (rule fetched_job [OF run ok])
  with assms(2) [of j r t' x db1] show "jobs_move db db1" by simp
qed

lemma write_move:
  assumes "write_next_revision k (db\<lparr>db_tape := t\<rparr>) = (Inr j', db')"
    and "hm_get (jd_jobs db) (sj_job_id j) = Some r" and "job_into_stored r = Inr j"
    and "job_facts k = job_facts j" and "sj_revision k = sj_revision j" and "job_ok k"
    and "path \<noteq> []" and "job_walk (sj_state j) path = Ok (sj_state k)"
  shows "jobs_move db db'"
  using write_job_step(1) [OF assms(1) _ assms(3-8)] assms(2) by simp

lemma walk_one: "job_transition_triggers s t \<noteq> [] \<Longrightarrow> job_walk s [t] = Ok t"
  by (simp add: job_walk_def job_transition_def)

lemma start_planning_move:
  assumes "jobs_ok (jd_jobs db)"
  shows "jobs_move db (snd (start_planning i at db))"
  unfolding start_planning_def
proof (rule job_transaction_move [OF assms])
  fix t r j x db1
  assume j: "hm_get (jd_jobs db) (sj_job_id j) = Some r" "job_into_stored r = Inr j" "job_ok j"
  show "jobs_move db db1" if "(if sj_state j = JobPlanning then tx_return j
     else if sj_state j \<noteq> JobSubmitted then tx_fail (JobInvalidTransition (sj_state j) JobPlanning)
     else tx_bind (lift_result (ensure_not_before at (sj_submitted_at_unix_ms j))) (\<lambda>_.
       write_next_revision (j\<lparr>sj_state := JobPlanning, sj_planning_at_unix_ms := Some at\<rparr>)))
     (db\<lparr>db_tape := t\<rparr>) = (Inr x, db1)"
    using that j by (auto simp: tx_ok job_facts_def job_shape walk_one job_transition_triggers_def split: if_splits
        intro!: write_move [where db = db and j = j and r = r and path = "[JobPlanning]"])
qed

lemma enqueue_planned_move:
  assumes "enqueue_planned p at j (db\<lparr>db_tape := t\<rparr>) = (Inr x, db1)" and "\<not> is_blank p"
    and "hm_get (jd_jobs db) (sj_job_id j) = Some r" "job_into_stored r = Inr j" "job_ok j"
  shows "jobs_move db db1"
  using assms by (auto simp: enqueue_planned_def tx_ok job_facts_def job_shape walk_one job_transition_triggers_def
      split: if_splits intro!: write_move [where db = db and j = j and r = r and path = "[JobQueued]"])


lemma same_plan_Ok: "same_plan p j = Inr x \<Longrightarrow> x = j"
  by (auto simp: same_plan_def split: if_splits)

lemma enqueue_move:
  assumes "jobs_ok (jd_jobs db)"
  shows "jobs_move db (snd (enqueue i p at db))"
  unfolding enqueue_def
proof (rule checked_bind_move, rule job_transaction_move [OF assms])
  fix u t r j x db1
  assume "reject_if (is_blank p) (JobInvalidInput ''plan_id'') = Inr u"
    and "hm_get (jd_jobs db) (sj_job_id j) = Some r" "job_into_stored r = Inr j" "job_ok j"
    and "(if sj_state j = JobQueued then lift_result (same_plan p j) else enqueue_planned p at j)
      (db\<lparr>db_tape := t\<rparr>) = (Inr x, db1)"
  then show "jobs_move db db1"
    by (auto simp: tx_ok reject_if_Ok split: if_splits intro: enqueue_planned_move)
qed

text \<open>Two writes in one transaction: the second sees the row of the first.\<close>

lemma plan_and_enqueue_move:
  assumes "jobs_ok (jd_jobs db)"
  shows "jobs_move db (snd (plan_and_enqueue_inner i p at now failing db))"
  unfolding plan_and_enqueue_inner_def
proof (rule checked_bind_move, rule job_transaction_move [OF assms])
  let ?at = "case at of Some t \<Rightarrow> t | None \<Rightarrow> now"
  fix u t r j x db1
  assume p: "reject_if (is_blank p) (JobInvalidInput ''plan_id'') = Inr u"
    and j: "hm_get (jd_jobs db) (sj_job_id j) = Some r" "job_into_stored r = Inr j" "job_ok j"
  let ?k = "j\<lparr>sj_state := JobPlanning, sj_planning_at_unix_ms := Some ?at\<rparr>"
  assume run: "(let at = ?at in
      if sj_state j = JobQueued then lift_result (same_plan p j)
      else tx_bind (if sj_state j = JobSubmitted then
          tx_bind (lift_result (ensure_not_before at (sj_submitted_at_unix_ms j))) (\<lambda>_.
          tx_bind (write_next_revision (j\<lparr>sj_state := JobPlanning, sj_planning_at_unix_ms := Some at\<rparr>)) (\<lambda>j.
          if failing then tx_fail JobCorruptData else tx_return j))
        else tx_return j) (\<lambda>j. enqueue_planned p at j)) (db\<lparr>db_tape := t\<rparr>) = (Inr x, db1)"
  consider "sj_state j = JobQueued" | "sj_state j = JobSubmitted" | "sj_state j \<notin> {JobQueued, JobSubmitted}" by blast
  then show "jobs_move db db1"
  proof cases
    case 2
    with run obtain k db2 where w: "write_next_revision ?k (db\<lparr>db_tape := t\<rparr>) = (Inr k, db2)"
      and e: "enqueue_planned p ?at k db2 = (Inr x, db1)"
      by (auto simp: tx_ok Let_def split: if_splits)
    have pre: "job_facts ?k = job_facts j" "sj_revision ?k = sj_revision j" "job_ok ?k"
      "job_walk (sj_state j) [JobPlanning] = Ok (sj_state ?k)"
      using j 2 by (simp_all add: job_facts_def job_shape walk_one job_transition_triggers_def)
    have j1: "hm_get (jd_jobs (db\<lparr>db_tape := t\<rparr>)) (sj_job_id j) = Some r" using j(1) by simp
    note s = write_job_step [OF w j1 j(2) pre(1-3) _ pre(4), simplified]
    then have k: "sj_job_id k = sj_job_id j" "job_ok k" by (simp_all add: job_step_def job_facts_def)
    have "jobs_move db2 db1"
    proof (rule enqueue_planned_move)
      show "enqueue_planned p ?at k (db2\<lparr>db_tape := db_tape db2\<rparr>) = (Inr x, db1)" using e by simp
      show "hm_get (jd_jobs db2) (sj_job_id k) = Some (row_of k)"
        using s k assms by (simp add: hm.get_insert jobs_ok_def)
      show "job_into_stored (row_of k) = Inr k" using k(2) by (rule job_into_stored_row_of)
    qed (use p k in \<open>simp_all add: reject_if_Ok\<close>)
    with s(1) show ?thesis by (rule jobs_move_trans)
  next
    case 3
    with run have "enqueue_planned p ?at j (db\<lparr>db_tape := t\<rparr>) = (Inr x, db1)" by (simp add: tx_ok Let_def)
    with p j show ?thesis by (auto simp: reject_if_Ok intro: enqueue_planned_move)
  qed (use run in \<open>auto simp: tx_ok Let_def\<close>)
qed

lemma fail_queued_move:
  assumes "jobs_ok (jd_jobs db)"
  shows "jobs_move db (snd (fail_queued i f at db))"
  unfolding fail_queued_def
proof (rule checked_bind_move, rule job_transaction_move [OF assms])
  fix u t r j x db1
  assume f: "reject_if (blank_reason f) (JobInvalidInput ''permanent infeasibility reason'') = Inr u"
    and j: "hm_get (jd_jobs db) (sj_job_id j) = Some r" "job_into_stored r = Inr j" "job_ok j"
    and run: "(if sj_state j = JobFailed \<and> sj_queue_failure j = Some f then tx_return j
       else if sj_state j \<noteq> JobQueued then tx_fail (JobInvalidTransition (sj_state j) JobFailed)
       else
         tx_bind (lift_result (ok_or (sj_queued_at_unix_ms j) JobCorruptData)) (\<lambda>queued_at.
         tx_bind (lift_result (ensure_not_before at queued_at)) (\<lambda>_.
         tx_bind (lift_result (queue_failure_guard f at queued_at j)) (\<lambda>_.
           write_next_revision (j\<lparr>sj_state := JobFailed, sj_queue_failure := Some f,
             sj_failed_at_unix_ms := Some at\<rparr>))))) (db\<lparr>db_tape := t\<rparr>) = (Inr x, db1)"
  consider "x = j" "db1 = db\<lparr>db_tape := t\<rparr>"
    | "sj_state j = JobQueued" "write_next_revision (j\<lparr>sj_state := JobFailed, sj_queue_failure := Some f,
             sj_failed_at_unix_ms := Some at\<rparr>) (db\<lparr>db_tape := t\<rparr>) = (Inr x, db1)"
    using run by (auto simp: tx_ok split: if_splits)
  then show "jobs_move db db1"
  proof cases
    case 2
    show ?thesis
      by (rule write_move [OF 2(2) j(1,2), where path = "[JobFailed]"])
        (use 2(1) j(3) f in \<open>simp_all add: reject_if_Ok job_facts_def job_shape walk_one job_transition_triggers_def\<close>)
  qed auto
qed


section \<open>Functions of a caller's transaction\<close>

lemma rejected_transition_Ok: "rejected_transition r = Inr x \<longleftrightarrow> r = Inr x"
  by (cases r) (auto simp: rejected_transition_def split: job_transition_rejected.splits)

lemma checked_add_nonzero: "checked_add n 1 = Some m \<Longrightarrow> m \<noteq> 0" for n m :: u64
  using checked_add_unat [of n 1 m] by auto

lemma job_transition_Ok: "job_transition s t = Inr u \<longleftrightarrow> job_transition_triggers s t \<noteq> [] \<and> u = t"
  by (auto simp: job_transition_def)

lemma node_lost_path_Ok:
  "node_lost_path s b = Inr path \<Longrightarrow> path \<noteq> [] \<and> (s = JobStaging \<or> s = JobRunning) \<and>
     job_walk s path = Ok (if s = JobStaging \<or> b then JobQueued else JobFailed)"
  by (auto simp: node_lost_path_def job_walk_def job_transition_def job_transition_triggers_def split: if_splits)

lemma requeue_after_node_lost_step:
  assumes "requeue_after_node_lost j resume hint db = (Inr x, db')"
    and "hm_get (jd_jobs db) (sj_job_id j) = Some r" and "job_into_stored r = Inr j" and "resume \<noteq> Some []"
  shows "jobs_move db db'" and "job_step j x" and "sj_state x = JobQueued \<or> sj_state x = JobFailed"
    and "jd_jobs db' = hm_insert (sj_job_id j) (row_of x) (jd_jobs db)"
proof -
  note ok = job_into_stored_ok [OF assms(3)]
  from assms(1) obtain path k where path: "node_lost_path (sj_state j) (resume \<noteq> None) = Inr path"
    and w: "write_next_revision k db = (Inr x, db')"
    and k: "(\<exists>n. sj_state k = JobQueued \<and> checked_add (sj_requeue_count j) 1 = Some n \<and>
          k = j\<lparr>sj_state := JobQueued, sj_staging_at_unix_ms := None, sj_running_at_unix_ms := None,
             sj_requeue_count := n,
             sj_resume_checkpoint := (if resume \<noteq> None then resume else sj_resume_checkpoint j)\<rparr>) \<or>
       sj_state k = JobFailed \<and> k = j\<lparr>sj_state := JobFailed, sj_run_terminal := Some RunNoCommittedCheckpoint,
         sj_worker_reported_finished_at_unix_ms := Some hint\<rparr>"
    and walk: "job_walk (sj_state j) path = Ok (sj_state k)"
    by (auto simp: requeue_after_node_lost_def tx_ok ok_or_Ok rejected_transition_Ok
        dest: node_lost_path_Ok split: if_splits)
  note p = node_lost_path_Ok [OF path]
  have "job_facts k = job_facts j" "sj_revision k = sj_revision j" using k by (auto simp: job_facts_def)
  moreover have "job_ok k"
    using k p ok assms(4) by (auto simp: job_shape job_ok_resume dest: checked_add_nonzero)
  ultimately have s: "jobs_move db db'" "job_step j x" "x = k\<lparr>sj_revision := sj_revision x\<rparr>"
    "jd_jobs db' = hm_insert (sj_job_id j) (row_of x) (jd_jobs db)"
    using write_job_step [OF w assms(2,3), where path = path] p walk by simp_all
  from s(1,2,4) show "jobs_move db db'" "job_step j x" "jd_jobs db' = hm_insert (sj_job_id j) (row_of x) (jd_jobs db)" .
  from s(3) have "sj_state x = sj_state k" by (metis stored_job.select_convs(4) stored_job.surjective stored_job.update_convs(19))
  with k show "sj_state x = JobQueued \<or> sj_state x = JobFailed" by auto
qed

lemma pause_for_owner_preempt_step:
  assumes "pause_for_owner_preempt j resume db = (Inr x, db')"
    and "hm_get (jd_jobs db) (sj_job_id j) = Some r" and "job_into_stored r = Inr j" and "resume \<noteq> Some []"
  shows "jobs_move db db'" and "job_step j x"
proof -
  note ok = job_into_stored_ok [OF assms(3)]
  let ?k = "\<lambda>n. j\<lparr>sj_state := JobPaused, sj_requeue_count := n,
    sj_resume_checkpoint := (if resume \<noteq> None then resume else sj_resume_checkpoint j)\<rparr>"
  from assms(1) obtain n where trig: "job_transition_triggers (sj_state j) JobPaused \<noteq> []"
    and n: "checked_add (sj_requeue_count j) 1 = Some n" and w: "write_next_revision (?k n) db = (Inr x, db')"
    by (auto simp: pause_for_owner_preempt_def tx_ok ok_or_Ok rejected_transition_Ok job_transition_Ok)
  from trig have "sj_state j = JobRunning"
    by (cases "sj_state j") (simp_all add: job_transition_triggers_def)
  then have "job_ok (?k n)" using ok assms(4) checked_add_nonzero [OF n] by (auto simp: job_shape job_ok_resume)
  then show "jobs_move db db'" "job_step j x"
    using write_job_step(1,2) [OF w assms(2,3), where path = "[JobPaused]"] walk_one [OF trig]
    by (simp_all add: job_facts_def)
qed

lemma select_latest_attempt_Ok:
  "select_latest_attempt i db = (Inr a, db') \<longleftrightarrow>
     a = latest_attempt_row (jd_attempts db) i \<and>
     (\<exists>t. db' = db\<lparr>db_tape := t\<rparr> \<and> (db_tape db = [] \<and> t = [] \<or> db_tape db = None # t))"
  by (auto simp: select_latest_attempt_def tx_ok)

lemma record_staging_complete_move:
  assumes "record_staging_complete i a now db = (Inr moved, db')" and "jobs_ok (jd_jobs db)"
  shows "jobs_move db db'"
proof -
  obtain t r j where
    j: "hm_get (jd_jobs db) i = Some r" "job_into_stored r = Inr j" "sj_job_id j = i" "job_ok j"
    and run: "(if sj_state j \<notin> {JobStaging, JobRunning} then tx_return False
     else
       tx_bind (select_latest_attempt i) (\<lambda>latest.
       if latest \<noteq> Some a then tx_return False
       else if sj_state j = JobRunning then tx_return True
       else
         tx_bind (lift_result (case sj_staging_at_unix_ms j of
             Some staging_at \<Rightarrow> ensure_not_before now staging_at | None \<Rightarrow> Ok ())) (\<lambda>_.
         tx_bind (lift_result (rejected_transition (job_transition (sj_state j) JobRunning))) (\<lambda>state.
         tx_bind (write_next_revision (j\<lparr>sj_state := state, sj_running_at_unix_ms := Some now\<rparr>)) (\<lambda>_.
           tx_return True)))))
      (db\<lparr>db_tape := t\<rparr>) = (Inr moved, db')"
    by (rule fetched_job [OF assms(1) [unfolded record_staging_complete_def] assms(2)])
  consider (same) t' where "db' = db\<lparr>db_tape := t'\<rparr>"
    | (step) t' x where "sj_state j = JobStaging"
      "write_next_revision (j\<lparr>sj_state := JobRunning, sj_running_at_unix_ms := Some now\<rparr>) (db\<lparr>db_tape := t'\<rparr>) = (Inr x, db')"
    using run by (auto simp: tx_ok select_latest_attempt_Ok rejected_transition_Ok job_transition_Ok split: if_splits)
  then show ?thesis
  proof cases
    case step
    show ?thesis
      by (rule write_move [OF step(2) _ j(2), where path = "[JobRunning]"])
        (use step(1) j(1,3,4) in \<open>simp_all add: job_facts_def job_shape walk_one job_transition_triggers_def\<close>)
  qed auto
qed


lemma terminal_of_edge_Ok:
  "terminal_of_edge from to = Inr term' \<Longrightarrow>
     to = JobCompleted \<and> term' = RunAttemptCompleted \<or> to = JobFailed \<and> term' \<noteq> RunAttemptCompleted"
  by (auto simp: terminal_of_edge_def split: if_splits)

lemma job_walk_snoc: "job_walk s (p @ [t]) = and_then (job_walk s p) (\<lambda>u. job_transition u t)"
  by (simp add: job_walk_def for_each_append) (cases "for_each (\<lambda>s current. job_transition current s) p s"; simp add: and_then_def split: sum.splits)

lemma job_walk_last: "job_walk s p = Inr u \<Longrightarrow> u = (if p = [] then s else last p)"
proof (induction p arbitrary: s)
  case (Cons t p)
  then have "job_walk t p = Inr u" by (auto simp: job_walk_def result_ok job_transition_Ok)
  with Cons.IH show ?case by auto
qed (simp add: job_walk_def)

lemma job_transition_via_Ok: "job_transition_via s t g = Inr u \<Longrightarrow> u = t \<and> job_transition s t = Inr t"
  by (auto simp: job_transition_via_def job_transition_def split: if_splits)

lemma finish_along_step:
  assumes "finish_along path at j db = (Inr x, db')" and "sj_state j = JobStaging \<or> sj_state j = JobRunning"
    and j: "hm_get (jd_jobs db) (sj_job_id j) = Some r" "job_into_stored r = Inr j"
  shows "jobs_move db db'" and "job_step j x"
proof -
  define prefix where "prefix = butlast (if sj_state j = JobRunning \<and> hd path = JobRunning then tl path else path)"
  define to where "to = last (if sj_state j = JobRunning \<and> hd path = JobRunning then tl path else path)"
  from assms(1) obtain tm u where
    tm: "terminal_of_edge (if prefix = [] then sj_state j else last prefix) to = Inr tm"
    and walk: "job_walk (sj_state j) prefix = Inr u"
    and via: "job_transition_via (if prefix = [] then sj_state j else last prefix) to (run_terminal_trigger tm) = Inr to"
    and w: "write_next_revision (j\<lparr>sj_state := to, sj_run_terminal := Some tm,
      sj_worker_reported_finished_at_unix_ms := Some at\<rparr>) db = (Inr x, db')"
    unfolding finish_along_def Let_def prefix_def [symmetric] to_def [symmetric]
    by (auto simp: tx_bind_Ok lift_result_Ok rejected_transition_Ok dest: job_transition_via_Ok)
  have "job_walk (sj_state j) (prefix @ [to]) = Ok to"
    using walk job_transition_via_Ok [OF via] job_walk_last [OF walk] by (simp add: job_walk_snoc)
  moreover have "job_ok (j\<lparr>sj_state := to, sj_run_terminal := Some tm, sj_worker_reported_finished_at_unix_ms := Some at\<rparr>)"
    using job_into_stored_ok [OF j(2)] assms(2) terminal_of_edge_Ok [OF tm] by (rule job_ok_finished)
  ultimately show "jobs_move db db'" "job_step j x"
    using write_job_step(1,2) [OF w j, where path = "prefix @ [to]"] by (simp_all add: job_facts_def)
qed

lemma follow_attempt_terminal_move:
  assumes "follow_attempt_terminal i a fin has_run at db = (Inr res, db')" and "jobs_ok (jd_jobs db)"
  shows "jobs_move db db'"
proof -
  obtain t r j where
    j: "hm_get (jd_jobs db) i = Some r" "job_into_stored r = Inr j" "sj_job_id j = i" "job_ok j"
    and run: "(if sj_state j \<notin> {JobStaging, JobRunning} then tx_return None
     else
       tx_bind (select_latest_attempt i) (\<lambda>latest.
       if latest \<noteq> Some a then tx_return None
       else
         case terminal_path fin has_run of
           None \<Rightarrow> tx_return None
         | Some path \<Rightarrow> tx_bind (finish_along path at j) (\<lambda>job. tx_return (Some job))))
      (db\<lparr>db_tape := t\<rparr>) = (Inr res, db')"
    by (rule fetched_job [OF assms(1) [unfolded follow_attempt_terminal_def] assms(2)])
  consider (same) t' where "db' = db\<lparr>db_tape := t'\<rparr>"
    | (step) t' x path where "sj_state j = JobStaging \<or> sj_state j = JobRunning"
      "finish_along path at j (db\<lparr>db_tape := t'\<rparr>) = (Inr x, db')"
    using run by (auto simp: tx_ok select_latest_attempt_Ok split: if_splits option.splits)
  then show ?thesis
  proof cases
    case step
    from finish_along_step(1) [OF step(2,1) _ j(2)] j(1,3) show ?thesis by simp
  qed auto
qed

end
