(* ===== verification/Job_Queue.thy ===== *)
theory Job_Queue
  imports Job_Rows
begin

text \<open>
  The queue and the submissions of the job store: what the listings return, and that an
  idempotency key stands for one job.
\<close>

section \<open>Listings\<close>

definition job_in :: "(str, raw_job_row) hash_map \<Rightarrow> str \<Rightarrow> stored_job option" where
  "job_in m i = (case hm_get m i of
     None \<Rightarrow> None
   | Some r \<Rightarrow> (case job_into_stored r of Inr j \<Rightarrow> Some j | Inl _ \<Rightarrow> None))"

lemma job_in_Some: "job_in m i = Some j \<longleftrightarrow> (\<exists>r. hm_get m i = Some r \<and> job_into_stored r = Inr j)"
  by (auto simp: job_in_def split: option.splits sum.splits)

lemma list_all2_image:
  "list_all2 (\<lambda>x y. f x = Inr y) xs ys \<Longrightarrow> y \<in> set ys \<longleftrightarrow> (\<exists>x \<in> set xs. f x = Inr y)"
  by (induction rule: list_all2_induct) auto

lemma list_all2_ids:
  "list_all2 (\<lambda>r j. job_into_stored r = Inr j) rows jobs \<Longrightarrow> map sj_job_id jobs = map rj_job_id rows"
  by (induction rule: list_all2_induct) (simp_all add: job_into_stored_id)

lemma keyed_rows: "jobs_ok m \<Longrightarrow> map (\<lambda>e. rj_job_id (snd e)) m = map fst m"
  by (auto simp: jobs_ok_def hm_invar_def hm_get_def)

lemma selected_jobs:
  assumes "collect_results job_into_stored (filter (\<lambda>r. rj_state r \<in> set names) (map snd m)) = Inr jobs" and "jobs_ok m"
  shows "distinct (map sj_job_id jobs)"
    and "j \<in> set jobs \<longleftrightarrow> (\<exists>i. job_in m i = Some j \<and> job_table_name (sj_state j) \<in> set names)"
proof -
  let ?rows = "filter (\<lambda>r. rj_state r \<in> set names) (map snd m)"
  have all: "list_all2 (\<lambda>r j. job_into_stored r = Inr j) ?rows jobs" using assms(1) by (simp add: collect_results_Ok)
  have "distinct (map rj_job_id (map snd m))"
    unfolding map_map comp_def keyed_rows [OF assms(2)] using assms(2) by (simp add: jobs_ok_def hm_invar_def)
  then have "distinct (map rj_job_id ?rows)" by (rule distinct_map_filter)
  then show "distinct (map sj_job_id jobs)" unfolding list_all2_ids [OF all] .
  have "r \<in> snd ` set m \<longleftrightarrow> (\<exists>i. hm_get m i = Some r)" for r
    using assms(2) by (force simp: jobs_ok_def hm_invar_def hm_get_def image_iff)
  then show "j \<in> set jobs \<longleftrightarrow> (\<exists>i. job_in m i = Some j \<and> job_table_name (sj_state j) \<in> set names)"
    unfolding list_all2_image [OF all] job_in_Some
    by (auto simp: job_into_stored_state)
qed

lemma strictly_queued:
  assumes "distinct (map sj_job_id jobs)"
  shows "sorted_wrt (\<lambda>a b. queue_key a < queue_key b) (sort_key queue_key jobs)"
proof -
  have "distinct (map queue_key jobs)"
    using assms by (simp add: distinct_map inj_on_def queue_key_def)
  then have "distinct (map queue_key (sort_key queue_key jobs))" by (simp add: distinct_map)
  moreover have "sorted (map queue_key (sort_key queue_key jobs))" by simp
  ultimately have "sorted_wrt (<) (map queue_key (sort_key queue_key jobs))" by (simp only: strict_sorted_iff)
  then show ?thesis by (simp add: sorted_wrt_map)
qed

lemma queue_listing:
  assumes "jobs_ok (jd_jobs db)"
    and "tx_bind (select_in_states names) (\<lambda>rows.
      tx_bind (lift_result (collect_results job_into_stored rows)) (\<lambda>jobs. tx_return (sort_key queue_key jobs))) db =
      (Inr jobs, db')"
  shows "sorted_wrt (\<lambda>a b. queue_key a < queue_key b) jobs \<and>
    set jobs = {j. \<exists>i. job_in (jd_jobs db) i = Some j \<and> job_table_name (sj_state j) \<in> set names} \<and>
    jd_jobs db' = jd_jobs db"
proof -
  from assms(2) obtain js where js: "collect_results job_into_stored
      (filter (\<lambda>r. rj_state r \<in> set names) (map snd (jd_jobs db))) = Inr js"
    "jobs = sort_key queue_key js" "jd_jobs db' = jd_jobs db"
    by (auto simp: select_in_states_def tx_ok)
  show ?thesis using selected_jobs [OF js(1) assms(1)] strictly_queued [of js] js(2,3) by auto
qed

lemma queue_names [simp]:
  "job_table_name s = ''QUEUED'' \<longleftrightarrow> s = JobQueued" "job_table_name s = ''PAUSED'' \<longleftrightarrow> s = JobPaused"
  by (cases s; simp)+

text \<open>
  the queue is first in, first out. A listing of the queue contains exactly the stored jobs in
  state \<open>QUEUED\<close>, each once, strictly ordered by the time they entered the queue and then by
  their id; the listing of what can be placed contains the \<open>PAUSED\<close> jobs as well, in the same
  order. Listing changes no job.
\<close>
theorem queue_is_fifo:
  assumes "jobs_ok (jd_jobs db)"
  shows "(list_queued db = (Ok jobs, db') \<longrightarrow>
      sorted_wrt (\<lambda>a b. queue_key a < queue_key b) jobs \<and>
      set jobs = {j. \<exists>i. job_in (jd_jobs db) i = Some j \<and> sj_state j = JobQueued} \<and> jd_jobs db' = jd_jobs db) \<and>
    (list_schedulable db = (Ok jobs, db') \<longrightarrow>
      sorted_wrt (\<lambda>a b. queue_key a < queue_key b) jobs \<and>
      set jobs = {j. \<exists>i. job_in (jd_jobs db) i = Some j \<and> sj_state j \<in> {JobQueued, JobPaused}} \<and> jd_jobs db' = jd_jobs db)"
proof -
  have sort: "sort_by (\<lambda>a b. ord_cmp (queue_key a) (queue_key b)) = sort_key queue_key"
    by (rule ext) (rule sort_by_sort_key, simp)
  show ?thesis
    using queue_listing [OF assms, of "[''QUEUED'']" jobs db'] queue_listing [OF assms, of "[''QUEUED'', ''PAUSED'']" jobs db']
    unfolding list_queued_def list_schedulable_def sort by auto
qed

definition example_submission :: accepted_job_submission where
  "example_submission = \<lparr>as_idempotency_key = replicate 16 7, as_job_id = lit ''j'', as_submitter_device_id = lit ''d'',
     as_manifest_hash = replicate 32 1, as_deadline_unix_ms = None, as_max_queue_duration_ms = None\<rparr>"

definition example_queued :: "string \<Rightarrow> u64 \<Rightarrow> stored_job" where
  "example_queued i at = (submitted_job (example_submission\<lparr>as_job_id := lit i\<rparr>) (replicate 32 1) 5)
     \<lparr>sj_state := JobQueued, sj_planning_at_unix_ms := Some 6, sj_queued_at_unix_ms := Some at, sj_plan_id := Some (lit ''p'')\<rparr>"

definition empty_job_db :: job_db where
  "empty_job_db = \<lparr>db_tape = [], ld_columns = None, ld_leases = [], jd_columns = None, jd_jobs = [],
     jd_submissions = [], jd_manifests = [], jd_pool_mode = None, jd_attempts = []\<rparr>"

definition example_queue :: job_db where
  "example_queue = empty_job_db\<lparr>jd_jobs :=
     [(lit ''a'', row_of (example_queued ''a'' 9)), (lit ''b'', row_of (example_queued ''b'' 7))]\<rparr>"

lemma example_queued_ok: "job_ok (example_queued i at)"
  by (simp add: example_queued_def submitted_job_def example_submission_def shape_simps is_blank_def trim_def is_whitespace_def)

theorem queue_is_fifo_witness:
  "\<exists>db'. list_queued example_queue = (Ok [example_queued ''b'' 7, example_queued ''a'' 9], db') \<and>
     sorted_wrt (\<lambda>a b. queue_key a < queue_key b) [example_queued ''b'' 7, example_queued ''a'' 9]"
proof -
  have state: "rj_state (row_of (example_queued i at)) = ''QUEUED''" for i at
    by (simp add: row_simps example_queued_def submitted_job_def)
  have key: "queue_key (example_queued i at) = (Some at, lit i)" for i at
    by (simp add: queue_key_def example_queued_def submitted_job_def)
  have "jobs_ok (jd_jobs example_queue)"
    by (auto simp: jobs_ok_def example_queue_def hm_invar_def hm_get_def read_texts example_queued_def submitted_job_def
        split: if_splits)
  moreover have "list_queued example_queue = (Ok [example_queued ''b'' 7, example_queued ''a'' 9], example_queue)"
    by (simp add: list_queued_def select_in_states_def tx_bind_def statement_no_fault example_queue_def empty_job_db_def
        state lift_result_def tx_return_def job_into_stored_row_of example_queued_ok key)
  ultimately show ?thesis using queue_is_fifo [of example_queue "[example_queued ''b'' 7, example_queued ''a'' 9]" example_queue]
    by blast
qed

end
