(* ===== verification/Staging_Store.thy ===== *)
theory Staging_Store
  imports Job_Queue
begin

text \<open>
  Staging, \<open>crates/coordinator/src/staging_store.rs\<close>: one transaction moves a queued (or
  paused) job to a node. It allocates the next fence epoch, creates the attempt and its lease,
  updates the job, records the operation under its key and, on the reserving path, compares the
  inventory revision and binds the node and its GPUs to the attempt.

  \<open>staging_db\<close> extends the control database by the tables of this store and by the two
  columns of the inventory tables it reads. Primary keys, unique and foreign keys and checks that
  an insert can violate are written into the insert; the foreign key of a reservation on its
  attempt is deferred to the commit, where the attempt exists.
\<close>

section \<open>Data\<close>

record stage_queued_request =
  sq_operation_key :: bytes
  sq_job_id :: str
  sq_attempt_id :: str
  sq_lease_id :: str
  sq_node_id :: str
  sq_selected_gpu_ids :: "str list"
  sq_issuing_coordinator_id :: str
  sq_coordinator_term :: u64
  sq_issued_at_unix_ms :: u64
  sq_renew_after_unix_ms :: u64
  sq_expires_at_unix_ms :: u64
  sq_max_total_duration_seconds :: u64

fun state_to_db :: "attempt_state \<Rightarrow> string" where
  "state_to_db AttemptCreated = ''CREATED''"
| "state_to_db AttemptStarting = ''STARTING''"
| "state_to_db AttemptRunning = ''RUNNING''"
| "state_to_db AttemptPaused = ''PAUSED''"
| "state_to_db AttemptStale = ''STALE''"
| "state_to_db AttemptCompleted = ''COMPLETED''"
| "state_to_db AttemptFailed = ''FAILED''"
| "state_to_db AttemptCancelled = ''CANCELLED''"
| "state_to_db AttemptReconciling = ''RECONCILING''"
| "state_to_db AttemptCanonical = ''CANONICAL''"
| "state_to_db AttemptSuperseded = ''SUPERSEDED''"
| "state_to_db AttemptRunUnknown = ''RUN_UNKNOWN''"

record stored_attempt =
  sa_attempt_id :: str
  sa_job_id :: str
  sa_state :: attempt_state
  sa_node_ids :: "str list"
  sa_fence_epoch :: u64
  sa_lease_id :: str
  sa_created_at_unix_ms :: u64
  sa_revision :: u64

record stage_queued_result =
  qr_job :: stored_job
  qr_attempt :: stored_attempt
  qr_lease :: stored_lease
  qr_created :: bool

record stored_node_reservation =
  nr_node_id :: str
  nr_job_id :: str
  nr_attempt_id :: str
  nr_inventory_revision :: u64
  nr_reserved_at_unix_ms :: u64
  nr_selected_gpu_ids :: "str list"
  nr_expired_at_unix_ms :: "u64 option"

record reserved_stage_result =
  rr_reservation :: stored_node_reservation
  rr_stage :: stage_queued_result

datatype staging_store_error =
    StagingInvalidInput string
  | StagingJobNotFound
  | JobNotQueued job_state
  | OperationConflict
  | AttemptIdConflict str
  | LeaseIdConflict str
  | StagingClockRollback u64 u64
  | InvalidLeaseLifetime
  | FenceEpochOverflow
  | AttemptTransitionRejectedErr attempt_state attempt_state
  | AttemptStateRaced attempt_state
  | StagingManifestMissing str
  | StagingCorruptData
  | StagingIo
  | StagingLockTimeout

datatype reserved_stage_error =
    InventoryMissing str
  | InventoryRevisionMismatch str u64 u64
  | SelectedGpuMissing str str
  | NodeAlreadyReserved str str str
  | Staging staging_store_error

datatype process_started_record =
    ProcessStarted str bool | ProcessAlreadyRecorded str | UnknownLeaseOfAttempt

datatype grant_accepted_record =
    GrantRecorded | GrantAlreadyRecorded | StartingStillCurrent | NotCurrentAttempt | ClockBehindStaging

definition staging_map_sql_error :: "sql_error \<Rightarrow> staging_store_error" where
  "staging_map_sql_error e = (case e of SqliteBusyOrLocked \<Rightarrow> StagingLockTimeout | SqliteOther \<Rightarrow> StagingIo)"

definition map_job_error :: "job_store_error \<Rightarrow> staging_store_error" where
  "map_job_error e =
     (case e of JobLockTimeout \<Rightarrow> StagingLockTimeout | JobCorruptData \<Rightarrow> StagingCorruptData | _ \<Rightarrow> StagingIo)"

definition map_lease_error :: "lease_store_error \<Rightarrow> staging_store_error" where
  "map_lease_error e =
     (case e of LeaseLockTimeout \<Rightarrow> StagingLockTimeout | LeaseIo \<Rightarrow> StagingCorruptData | _ \<Rightarrow> StagingIo)"

definition state_from_db :: "string \<Rightarrow> staging_store_error + attempt_state" where
  "state_from_db raw = ok_or (find (\<lambda>s. state_to_db s = raw) ALL_ATTEMPT_STATES) StagingCorruptData"

definition staging_decode_u64 :: "bytes \<Rightarrow> staging_store_error + u64" where
  "staging_decode_u64 bs = (if length bs = 8 then Ok (from_be_bytes_u64 bs) else Err StagingCorruptData)"

section \<open>Tables\<close>

record raw_operation_row =
  ro_job_id :: str
  ro_attempt_id :: str
  ro_lease_id :: str
  ro_request_payload :: bytes
  ro_fence_epoch :: bytes

record raw_reservation_row =
  rv_job_id :: str
  rv_attempt_id :: str
  rv_inventory_revision :: bytes
  rv_reserved_at_unix_ms :: bytes
  rv_expired_at_unix_ms :: "bytes option"

record staging_db = job_db +
  sd_attempt_nodes :: "(str \<times> int \<times> str) list"
  sd_fence_state :: "bytes option"
  sd_operations :: "(bytes, raw_operation_row) hash_map"
  sd_reservations :: "(str, raw_reservation_row) hash_map"
  sd_reservation_gpus :: "(str \<times> int \<times> str) list"
  sd_inventory_revisions :: "(str, bytes) hash_map"
  sd_inventory_gpus :: "(str \<times> str) list"

type_synonym ('m, 'a) staging_tx = "'m staging_db_scheme \<Rightarrow> (staging_store_error + 'a) \<times> 'm staging_db_scheme"

section \<open>Checks and encodings\<close>

definition checked_mul :: "u64 \<Rightarrow> u64 \<Rightarrow> u64 option" where
  "checked_mul a b = (if unat a * unat b < 2 ^ 64 then Some (a * b) else None)"

definition validate_request :: "stage_queued_request \<Rightarrow> staging_store_error + unit" where
  "validate_request q =
     and_then (for_each (\<lambda>(name, value) _. reject_if (is_blank value) (StagingInvalidInput name))
       [(''job_id'', sq_job_id q), (''attempt_id'', sq_attempt_id q), (''lease_id'', sq_lease_id q),
        (''node_id'', sq_node_id q), (''issuing_coordinator_id'', sq_issuing_coordinator_id q)] ()) (\<lambda>_.
     and_then (ok_or (checked_mul (sq_max_total_duration_seconds q) 1000) InvalidLeaseLifetime) (\<lambda>max_duration_ms.
     and_then (ok_or (checked_sub (sq_expires_at_unix_ms q) (sq_issued_at_unix_ms q)) InvalidLeaseLifetime) (\<lambda>lifetime_ms.
       reject_if (sq_max_total_duration_seconds q = 0 \<or>
         sq_renew_after_unix_ms q \<le> sq_issued_at_unix_ms q \<or>
         sq_renew_after_unix_ms q \<ge> sq_expires_at_unix_ms q \<or>
         lifetime_ms > max_duration_ms) InvalidLeaseLifetime)))"

fun check_gpu_order :: "str list \<Rightarrow> staging_store_error + unit" where
  "check_gpu_order (a # b # rest) =
     (if a = b then Err (StagingInvalidInput ''selected_gpu_ids duplicate gpu_id'')
      else if a > b then Err (StagingInvalidInput ''selected_gpu_ids canonical order'')
      else check_gpu_order (b # rest))"
| "check_gpu_order _ = Ok ()"

definition validate_selected_gpu_ids :: "str list \<Rightarrow> staging_store_error + unit" where
  "validate_selected_gpu_ids gpus =
     and_then (reject_if (gpus = []) (StagingInvalidInput ''selected_gpu_ids'')) (\<lambda>_.
     and_then (for_each (\<lambda>g _. reject_if (is_blank g) (StagingInvalidInput ''selected_gpu_ids blank gpu_id'')) gpus ()) (\<lambda>_.
       check_gpu_order gpus))"

definition to_lease :: "stage_queued_request \<Rightarrow> u64 \<Rightarrow> stored_lease" where
  "to_lease q fence_epoch =
     \<lparr>sl_lease_id = sq_lease_id q, sl_job_id = sq_job_id q, sl_attempt_id = sq_attempt_id q,
      sl_holder_node_id = sq_node_id q, sl_fence_epoch = fence_epoch,
      sl_expires_at_unix_ms = sq_expires_at_unix_ms q,
      sl_issuing_coordinator_id = sq_issuing_coordinator_id q,
      sl_coordinator_term = sq_coordinator_term q, sl_issued_at_unix_ms = sq_issued_at_unix_ms q,
      sl_renew_after_unix_ms = sq_renew_after_unix_ms q,
      sl_max_total_duration_seconds = sq_max_total_duration_seconds q,
      sl_revoked_at_unix_ms = None, sl_reassignment_grace_ms = 0\<rparr>"

definition encode_request :: "stage_queued_request \<Rightarrow> bytes" where
  "encode_request q =
     concat (map (len_prefixed \<circ> as_bytes)
       [sq_job_id q, sq_attempt_id q, sq_lease_id q, sq_node_id q, sq_issuing_coordinator_id q]) @
     concat (map to_be_bytes_u64
       [sq_coordinator_term q, sq_issued_at_unix_ms q, sq_renew_after_unix_ms q, sq_expires_at_unix_ms q,
        sq_max_total_duration_seconds q])"

definition encode_reserved_request :: "stage_queued_request \<Rightarrow> u64 \<Rightarrow> bytes" where
  "encode_reserved_request q expected_inventory_revision =
     encode_request q @ to_be_bytes_u64 expected_inventory_revision @
     to_be_bytes_u64 (of_nat (length (sq_selected_gpu_ids q))) @
     concat (map (len_prefixed \<circ> as_bytes) (sq_selected_gpu_ids q))"


section \<open>Statements\<close>

definition read_counter :: "('m, u64 option) staging_tx" where
  "read_counter =
     tx_bind (statement staging_map_sql_error (\<lambda>db. (sd_fence_state db, db))) (\<lambda>row.
       lift_result (map_transpose staging_decode_u64 row))"

definition allocate_epoch :: "('m, u64) staging_tx" where
  "allocate_epoch =
     tx_bind read_counter (\<lambda>counter.
     tx_bind (statement staging_map_sql_error (\<lambda>db. (map (\<lambda>e. rl_fence_epoch (snd e)) (ld_leases db), db))) (\<lambda>rows.
     tx_bind (lift_result (for_each (\<lambda>row base. and_then (staging_decode_u64 row) (\<lambda>e. Ok (max base e))) rows
       (case counter of Some c \<Rightarrow> c | None \<Rightarrow> 0))) (\<lambda>base.
     tx_bind (lift_result (ok_or (checked_add base 1) FenceEpochOverflow)) (\<lambda>epoch.
     tx_bind (statement staging_map_sql_error (\<lambda>db. ((), db\<lparr>sd_fence_state := Some (encode_u64 epoch)\<rparr>))) (\<lambda>_.
       tx_return epoch)))))"

definition attempt_row :: "stored_attempt \<Rightarrow> raw_attempt_row" where
  "attempt_row a =
     \<lparr>ra_job_id = sa_job_id a, ra_state = state_to_db (sa_state a),
      ra_fence_epoch = encode_u64 (sa_fence_epoch a), ra_lease_id = sa_lease_id a,
      ra_created_at_unix_ms = encode_u64 (sa_created_at_unix_ms a), ra_revision = encode_u64 (sa_revision a)\<rparr>"

definition insert_attempt :: "stored_attempt \<Rightarrow> ('m, unit) staging_tx" where
  "insert_attempt a =
     tx_bind (statement_result staging_map_sql_error (\<lambda>db.
       if hm_contains_key (jd_attempts db) (sa_attempt_id a) \<or> \<not> hm_contains_key (jd_jobs db) (sa_job_id a)
       then (Err StagingIo, db)
       else (Ok (), db\<lparr>jd_attempts := hm_insert (sa_attempt_id a) (attempt_row a) (jd_attempts db)\<rparr>))) (\<lambda>_.
     statement_result staging_map_sql_error (\<lambda>db.
       if \<exists>e \<in> set (sd_attempt_nodes db). fst e = sa_attempt_id a \<and> (fst (snd e) = 0 \<or> snd (snd e) = hd (sa_node_ids a))
       then (Err StagingIo, db)
       else (Ok (), db\<lparr>sd_attempt_nodes := sd_attempt_nodes db @ [(sa_attempt_id a, 0, hd (sa_node_ids a))]\<rparr>)))"

text \<open>A path is checked against the table in memory; only its end is written, and only over the
  state that was read.\<close>

definition transition_attempt_state_along ::
    "str \<Rightarrow> attempt_state \<Rightarrow> attempt_state list \<Rightarrow> ('m, unit) staging_tx" where
  "transition_attempt_state_along attempt_id from path =
     tx_bind (lift_result (for_each (\<lambda>step current.
       (case attempt_transition current step of
          Inr s \<Rightarrow> Ok s
        | Inl _ \<Rightarrow> Err (AttemptTransitionRejectedErr current step))) path from)) (\<lambda>to.
     tx_bind (statement staging_map_sql_error (\<lambda>db.
       case hm_get (jd_attempts db) attempt_id of
         Some r \<Rightarrow>
           if ra_state r = state_to_db from
           then (1 :: nat, db\<lparr>jd_attempts := hm_insert attempt_id (r\<lparr>ra_state := state_to_db to\<rparr>) (jd_attempts db)\<rparr>)
           else (0, db)
       | None \<Rightarrow> (0, db))) (\<lambda>changed.
     if changed \<noteq> 1 then tx_fail (AttemptStateRaced from) else tx_return ()))"

definition transition_attempt_state :: "str \<Rightarrow> attempt_state \<Rightarrow> attempt_state \<Rightarrow> ('m, unit) staging_tx" where
  "transition_attempt_state attempt_id from to = transition_attempt_state_along attempt_id from [to]"

definition fetch_attempt :: "str \<Rightarrow> ('m, stored_attempt option) staging_tx" where
  "fetch_attempt attempt_id =
     tx_bind (statement staging_map_sql_error (\<lambda>db. (hm_get (jd_attempts db) attempt_id, db))) (\<lambda>raw.
     case raw of
       None \<Rightarrow> tx_return None
     | Some r \<Rightarrow>
         tx_bind (lift_result (state_from_db (ra_state r))) (\<lambda>state.
         tx_bind (statement staging_map_sql_error (\<lambda>db.
           (map snd (sort_key (\<lambda>e. fst (snd e)) (filter (\<lambda>e. fst e = attempt_id) (sd_attempt_nodes db))), db))) (\<lambda>nodes.
         tx_bind (lift_result (case nodes of
             [(ordinal, node)] \<Rightarrow> reject_if (ordinal \<noteq> 0 \<or> is_blank node) StagingCorruptData
           | _ \<Rightarrow> Err StagingCorruptData)) (\<lambda>_.
         tx_bind (lift_result (staging_decode_u64 (ra_fence_epoch r))) (\<lambda>epoch.
         tx_bind (lift_result (staging_decode_u64 (ra_created_at_unix_ms r))) (\<lambda>created_at.
         tx_bind (lift_result (staging_decode_u64 (ra_revision r))) (\<lambda>revision.
           tx_return (Some \<lparr>sa_attempt_id = attempt_id, sa_job_id = ra_job_id r, sa_state = state,
             sa_node_ids = [snd (hd nodes)], sa_fence_epoch = epoch, sa_lease_id = ra_lease_id r,
             sa_created_at_unix_ms = created_at, sa_revision = revision\<rparr>))))))))"

definition fetch_operation :: "bytes \<Rightarrow> ('m, (raw_operation_row \<times> u64) option) staging_tx" where
  "fetch_operation key =
     tx_bind (statement staging_map_sql_error (\<lambda>db. (hm_get (sd_operations db) key, db))) (\<lambda>row.
       lift_result (map_transpose (\<lambda>r. and_then (staging_decode_u64 (ro_fence_epoch r)) (\<lambda>e. Ok (r, e))) row))"

definition insert_operation :: "stage_queued_request \<Rightarrow> bytes \<Rightarrow> u64 \<Rightarrow> ('m, unit) staging_tx" where
  "insert_operation q request_payload epoch = statement_result staging_map_sql_error (\<lambda>db.
     if hm_contains_key (sd_operations db) (sq_operation_key q) \<or> length (sq_operation_key q) \<noteq> 16 \<or>
        \<not> hm_contains_key (jd_jobs db) (sq_job_id q) \<or> \<not> hm_contains_key (jd_attempts db) (sq_attempt_id q) \<or>
        \<not> hm_contains_key (ld_leases db) (sq_lease_id q)
     then (Err StagingIo, db)
     else (Ok (), db\<lparr>sd_operations := hm_insert (sq_operation_key q)
       \<lparr>ro_job_id = sq_job_id q, ro_attempt_id = sq_attempt_id q, ro_lease_id = sq_lease_id q,
        ro_request_payload = request_payload, ro_fence_epoch = encode_u64 epoch\<rparr> (sd_operations db)\<rparr>))"

definition fetch_inventory_revision :: "str \<Rightarrow> ('m, u64 option) staging_tx" where
  "fetch_inventory_revision node_id =
     tx_bind (statement staging_map_sql_error (\<lambda>db. (hm_get (sd_inventory_revisions db) node_id, db))) (\<lambda>row.
       lift_result (map_transpose staging_decode_u64 row))"

fun validate_selected_gpus_exist ::
    "str \<Rightarrow> str list \<Rightarrow> 'm staging_db_scheme \<Rightarrow> (reserved_stage_error + unit) \<times> 'm staging_db_scheme" where
  "validate_selected_gpus_exist node_id [] = tx_return ()"
| "validate_selected_gpus_exist node_id (gpu_id # gpus) =
     tx_bind (statement (Staging \<circ> staging_map_sql_error) (\<lambda>db. ((node_id, gpu_id) \<in> set (sd_inventory_gpus db), db))) (\<lambda>exists.
     if \<not> exists then tx_fail (SelectedGpuMissing node_id gpu_id)
     else validate_selected_gpus_exist node_id gpus)"

definition mark_reservation_expired :: "str \<Rightarrow> u64 \<Rightarrow> ('m, bool) staging_tx" where
  "mark_reservation_expired node_id expired_at =
     tx_bind (statement staging_map_sql_error (\<lambda>db.
       case hm_get (sd_reservations db) node_id of
         Some r \<Rightarrow>
           if rv_expired_at_unix_ms r = None
           then (1 :: nat, db\<lparr>sd_reservations :=
             hm_insert node_id (r\<lparr>rv_expired_at_unix_ms := Some (encode_u64 expired_at)\<rparr>) (sd_reservations db)\<rparr>)
           else (0, db)
       | None \<Rightarrow> (0, db))) (\<lambda>changed. tx_return (changed = 1))"

fun check_ordinals :: "int \<Rightarrow> (int \<times> str) list \<Rightarrow> staging_store_error + str list" where
  "check_ordinals n [] = Ok []"
| "check_ordinals n ((ordinal, gpu_id) # rows) =
     (if ordinal \<noteq> n then Err StagingCorruptData
      else and_then (check_ordinals (n + 1) rows) (\<lambda>gpus. Ok (gpu_id # gpus)))"

definition fetch_gpu_binding :: "str \<Rightarrow> ('m, str list) staging_tx" where
  "fetch_gpu_binding node_id =
     tx_bind (statement staging_map_sql_error (\<lambda>db.
       (map snd (sort_key (\<lambda>e. fst (snd e)) (filter (\<lambda>e. fst e = node_id) (sd_reservation_gpus db))), db))) (\<lambda>rows.
     tx_bind (lift_result (reject_if (rows = []) StagingCorruptData)) (\<lambda>_.
     tx_bind (lift_result (check_ordinals 0 rows)) (\<lambda>gpus.
     tx_bind (lift_result (case validate_selected_gpu_ids gpus of Inr u \<Rightarrow> Ok u | Inl _ \<Rightarrow> Err StagingCorruptData)) (\<lambda>_.
       tx_return gpus))))"

definition fetch_node_reservation :: "str \<Rightarrow> ('m, stored_node_reservation option) staging_tx" where
  "fetch_node_reservation node_id =
     tx_bind (statement staging_map_sql_error (\<lambda>db. (hm_get (sd_reservations db) node_id, db))) (\<lambda>raw.
     case raw of
       None \<Rightarrow> tx_return None
     | Some r \<Rightarrow>
         tx_bind (lift_result (map_transpose staging_decode_u64 (rv_expired_at_unix_ms r))) (\<lambda>expired_at.
         tx_bind (lift_result (reject_if (is_blank node_id \<or> is_blank (rv_job_id r) \<or> is_blank (rv_attempt_id r))
           StagingCorruptData)) (\<lambda>_.
         tx_bind (fetch_gpu_binding node_id) (\<lambda>gpus.
         tx_bind (lift_result (staging_decode_u64 (rv_inventory_revision r))) (\<lambda>revision.
         tx_bind (lift_result (staging_decode_u64 (rv_reserved_at_unix_ms r))) (\<lambda>reserved_at.
           tx_return (Some \<lparr>nr_node_id = node_id, nr_job_id = rv_job_id r, nr_attempt_id = rv_attempt_id r,
             nr_inventory_revision = revision, nr_reserved_at_unix_ms = reserved_at,
             nr_selected_gpu_ids = gpus, nr_expired_at_unix_ms = expired_at\<rparr>)))))))"

definition insert_node_reservation :: "stored_node_reservation \<Rightarrow> ('m, unit) staging_tx" where
  "insert_node_reservation n = statement_result staging_map_sql_error (\<lambda>db.
     if hm_contains_key (sd_reservations db) (nr_node_id n) \<or>
        \<not> hm_contains_key (sd_inventory_revisions db) (nr_node_id n) \<or>
        \<not> hm_contains_key (jd_jobs db) (nr_job_id n) \<or>
        (\<exists>e \<in> set (sd_reservations db). rv_attempt_id (snd e) = nr_attempt_id n)
     then (Err StagingIo, db)
     else (Ok (), db\<lparr>sd_reservations := hm_insert (nr_node_id n)
       \<lparr>rv_job_id = nr_job_id n, rv_attempt_id = nr_attempt_id n,
        rv_inventory_revision = encode_u64 (nr_inventory_revision n),
        rv_reserved_at_unix_ms = encode_u64 (nr_reserved_at_unix_ms n),
        rv_expired_at_unix_ms = None\<rparr> (sd_reservations db)\<rparr>))"

fun insert_gpu_rows :: "str \<Rightarrow> int \<Rightarrow> str list \<Rightarrow> ('m, unit) staging_tx" where
  "insert_gpu_rows node_id ordinal [] = tx_return ()"
| "insert_gpu_rows node_id ordinal (gpu_id # gpus) =
     tx_bind (statement_result staging_map_sql_error (\<lambda>db.
       if ordinal < 0 \<or> \<not> hm_contains_key (sd_reservations db) node_id \<or>
          (\<exists>e \<in> set (sd_reservation_gpus db). fst e = node_id \<and> (fst (snd e) = ordinal \<or> snd (snd e) = gpu_id))
       then (Err StagingIo, db)
       else (Ok (), db\<lparr>sd_reservation_gpus := sd_reservation_gpus db @ [(node_id, ordinal, gpu_id)]\<rparr>))) (\<lambda>_.
     insert_gpu_rows node_id (ordinal + 1) gpus)"

definition insert_gpu_binding :: "stored_node_reservation \<Rightarrow> ('m, unit) staging_tx" where
  "insert_gpu_binding n = insert_gpu_rows (nr_node_id n) 0 (nr_selected_gpu_ids n)"

text \<open>The manifest table is created in the batch that creates the job table.\<close>

definition manifest_row_exists :: "str \<Rightarrow> ('m, bool) staging_tx" where
  "manifest_row_exists job_id =
     tx_bind (statement staging_map_sql_error (\<lambda>db. (jd_columns db \<noteq> None, db))) (\<lambda>table.
     if \<not> table then tx_return False
     else statement staging_map_sql_error (\<lambda>db. (hm_contains_key (jd_manifests db) job_id, db)))"

section \<open>Staging a job\<close>

definition new_attempt :: "stage_queued_request \<Rightarrow> u64 \<Rightarrow> stored_attempt" where
  "new_attempt q epoch =
     \<lparr>sa_attempt_id = sq_attempt_id q, sa_job_id = sq_job_id q, sa_state = AttemptCreated,
      sa_node_ids = [sq_node_id q], sa_fence_epoch = epoch, sa_lease_id = sq_lease_id q,
      sa_created_at_unix_ms = sq_issued_at_unix_ms q, sa_revision = 0\<rparr>"

definition staged_job :: "stage_queued_request \<Rightarrow> stored_job \<Rightarrow> staging_store_error + stored_job" where
  "staged_job q job =
     (if sj_state job = JobPaused then
        (case job_transition JobPaused JobRunning of
           Inl _ \<Rightarrow> Err (JobNotQueued JobPaused)
         | Inr state \<Rightarrow> Ok (job\<lparr>sj_state := state, sj_staging_at_unix_ms := Some (sq_issued_at_unix_ms q),
             sj_running_at_unix_ms := Some (sq_issued_at_unix_ms q)\<rparr>))
      else Ok (job\<lparr>sj_state := JobStaging, sj_staging_at_unix_ms := Some (sq_issued_at_unix_ms q)\<rparr>))"

definition check_stageable :: "stage_queued_request \<Rightarrow> ('m, stored_job) staging_tx" where
  "check_stageable q =
     tx_bind (tx_map_err map_job_error (fetch_job (sq_job_id q))) (\<lambda>found.
     tx_bind (lift_result (ok_or found StagingJobNotFound)) (\<lambda>job.
     tx_bind (lift_result (reject_if (sj_state job \<notin> {JobQueued, JobPaused}) (JobNotQueued (sj_state job)))) (\<lambda>_.
     tx_bind (lift_result (ok_or (sj_queued_at_unix_ms job) StagingCorruptData)) (\<lambda>queued_at.
     tx_bind (lift_result (reject_if (sq_issued_at_unix_ms q < queued_at)
       (StagingClockRollback (sq_issued_at_unix_ms q) queued_at))) (\<lambda>_.
     tx_bind (fetch_attempt (sq_attempt_id q)) (\<lambda>attempt.
     tx_bind (lift_result (reject_if (attempt \<noteq> None) (AttemptIdConflict (sq_attempt_id q)))) (\<lambda>_.
     tx_bind (tx_map_err map_lease_error (fetch_lease (sq_lease_id q))) (\<lambda>lease.
     tx_bind (lift_result (reject_if (lease \<noteq> None) (LeaseIdConflict (sq_lease_id q)))) (\<lambda>_.
       tx_return job)))))))))"

definition write_staged :: "stage_queued_request \<Rightarrow> bytes \<Rightarrow> stored_job \<Rightarrow> ('m, stage_queued_result) staging_tx" where
  "write_staged q request_payload job =
     tx_bind allocate_epoch (\<lambda>epoch.
     tx_bind (insert_attempt (new_attempt q epoch)) (\<lambda>_.
     tx_bind (tx_map_err map_lease_error (insert_lease (to_lease q epoch))) (\<lambda>_.
     tx_bind (lift_result (staged_job q job)) (\<lambda>job.
     tx_bind (lift_result (ok_or (checked_add (sj_revision job) 1) StagingCorruptData)) (\<lambda>revision.
     let job = job\<lparr>sj_revision := revision\<rparr> in
     tx_bind (tx_map_err map_job_error (update_job job)) (\<lambda>_.
     tx_bind (insert_operation q request_payload epoch) (\<lambda>_.
       tx_return \<lparr>qr_job = job, qr_attempt = new_attempt q epoch, qr_lease = to_lease q epoch,
         qr_created = True\<rparr>)))))))"

definition stage_new_in_transaction :: "stage_queued_request \<Rightarrow> bytes \<Rightarrow> ('m, stage_queued_result) staging_tx" where
  "stage_new_in_transaction q request_payload = tx_bind (check_stageable q) (write_staged q request_payload)"

definition load_result :: "stage_queued_request \<Rightarrow> u64 \<Rightarrow> ('m, stage_queued_result) staging_tx" where
  "load_result q epoch =
     tx_bind (tx_map_err map_job_error (fetch_job (sq_job_id q))) (\<lambda>found.
     tx_bind (lift_result (ok_or found StagingCorruptData)) (\<lambda>job.
     tx_bind (fetch_attempt (sq_attempt_id q)) (\<lambda>found.
     tx_bind (lift_result (ok_or found StagingCorruptData)) (\<lambda>attempt.
     tx_bind (tx_map_err map_lease_error (fetch_lease (sq_lease_id q))) (\<lambda>found.
     tx_bind (lift_result (ok_or found StagingCorruptData)) (\<lambda>current.
     let original = to_lease q epoch in
     if sj_state job \<notin> {JobStaging, JobRunning} \<or>
        sj_staging_at_unix_ms job \<noteq> Some (sq_issued_at_unix_ms q) \<or>
        sa_job_id attempt \<noteq> sq_job_id q \<or> sa_lease_id attempt \<noteq> sq_lease_id q \<or>
        sa_node_ids attempt \<noteq> [sq_node_id q] \<or> sa_fence_epoch attempt \<noteq> epoch \<or>
        sa_created_at_unix_ms attempt \<noteq> sq_issued_at_unix_ms q \<or>
        sl_lease_id current \<noteq> sl_lease_id original \<or> sl_job_id current \<noteq> sl_job_id original \<or>
        sl_attempt_id current \<noteq> sl_attempt_id original \<or>
        sl_holder_node_id current \<noteq> sl_holder_node_id original \<or>
        sl_fence_epoch current \<noteq> sl_fence_epoch original \<or>
        sl_issuing_coordinator_id current \<noteq> sl_issuing_coordinator_id original \<or>
        sl_coordinator_term current \<noteq> sl_coordinator_term original \<or>
        sl_issued_at_unix_ms current \<noteq> sl_issued_at_unix_ms original \<or>
        sl_max_total_duration_seconds current \<noteq> sl_max_total_duration_seconds original
     then tx_fail StagingCorruptData
     else
       tx_bind read_counter (\<lambda>counter.
       if (case counter of None \<Rightarrow> True | Some c \<Rightarrow> c < epoch) then tx_fail StagingCorruptData
       else tx_return \<lparr>qr_job = job, qr_attempt = attempt, qr_lease = original, qr_created = False\<rparr>)))))))"

definition same_operation :: "stage_queued_request \<Rightarrow> bytes \<Rightarrow> raw_operation_row \<Rightarrow> bool" where
  "same_operation q request_payload op \<longleftrightarrow>
     ro_job_id op = sq_job_id q \<and> ro_attempt_id op = sq_attempt_id q \<and> ro_lease_id op = sq_lease_id q \<and>
     ro_request_payload op = request_payload"

definition stage_body :: "stage_queued_request \<Rightarrow> ('m, stage_queued_result) staging_tx" where
  "stage_body q =
     (let request_payload = encode_request q in
      tx_bind (fetch_operation (sq_operation_key q)) (\<lambda>operation.
      case operation of
        Some (op, epoch) \<Rightarrow>
          if \<not> same_operation q request_payload op then tx_fail OperationConflict
          else load_result q epoch
      | None \<Rightarrow> stage_new_in_transaction q request_payload))"

definition stage :: "stage_queued_request \<Rightarrow> ('m, stage_queued_result) staging_tx" where
  "stage q =
     tx_bind (lift_result (validate_request q)) (\<lambda>_.
       in_transaction staging_map_sql_error (stage_body q))"

type_synonym ('m, 'a) reserved_tx = "'m staging_db_scheme \<Rightarrow> (reserved_stage_error + 'a) \<times> 'm staging_db_scheme"

definition validate_replayed_reservation ::
    "stored_node_reservation \<Rightarrow> stage_queued_request \<Rightarrow> u64 \<Rightarrow> staging_store_error + unit" where
  "validate_replayed_reservation n q expected_inventory_revision =
     reject_if (nr_node_id n \<noteq> sq_node_id q \<or> nr_job_id n \<noteq> sq_job_id q \<or> nr_attempt_id n \<noteq> sq_attempt_id q \<or>
       nr_inventory_revision n \<noteq> expected_inventory_revision \<or>
       nr_reserved_at_unix_ms n \<noteq> sq_issued_at_unix_ms q \<or>
       nr_selected_gpu_ids n \<noteq> sq_selected_gpu_ids q) StagingCorruptData"

definition new_reservation :: "stage_queued_request \<Rightarrow> u64 \<Rightarrow> stored_node_reservation" where
  "new_reservation q expected_inventory_revision =
     \<lparr>nr_node_id = sq_node_id q, nr_job_id = sq_job_id q, nr_attempt_id = sq_attempt_id q,
      nr_inventory_revision = expected_inventory_revision, nr_reserved_at_unix_ms = sq_issued_at_unix_ms q,
      nr_selected_gpu_ids = sq_selected_gpu_ids q, nr_expired_at_unix_ms = None\<rparr>"

definition reserve_new :: "stage_queued_request \<Rightarrow> bytes \<Rightarrow> u64 \<Rightarrow> ('m, reserved_stage_result) reserved_tx" where
  "reserve_new q request_payload expected =
     tx_bind (tx_map_err Staging (fetch_inventory_revision (sq_node_id q))) (\<lambda>found.
     tx_bind (lift_result (ok_or found (InventoryMissing (sq_node_id q)))) (\<lambda>actual.
     tx_bind (lift_result (reject_if (actual \<noteq> expected) (InventoryRevisionMismatch (sq_node_id q) expected actual))) (\<lambda>_.
     tx_bind (validate_selected_gpus_exist (sq_node_id q) (sq_selected_gpu_ids q)) (\<lambda>_.
     tx_bind (tx_map_err Staging (fetch_node_reservation (sq_node_id q))) (\<lambda>existing.
     case existing of
       Some n \<Rightarrow> tx_fail (NodeAlreadyReserved (nr_node_id n) (nr_job_id n) (nr_attempt_id n))
     | None \<Rightarrow>
         let reservation = new_reservation q expected in
         tx_bind (tx_map_err Staging (insert_node_reservation reservation)) (\<lambda>_.
         tx_bind (tx_map_err Staging (insert_gpu_binding reservation)) (\<lambda>_.
         tx_bind (tx_map_err Staging (stage_new_in_transaction q request_payload)) (\<lambda>staged.
           tx_return \<lparr>rr_reservation = reservation, rr_stage = staged\<rparr>))))))))"

definition reserve_body :: "stage_queued_request \<Rightarrow> u64 \<Rightarrow> bool \<Rightarrow> ('m, reserved_stage_result) reserved_tx" where
  "reserve_body q expected require_manifest =
     (let request_payload = encode_reserved_request q expected in
      tx_bind (if require_manifest then tx_map_err Staging (manifest_row_exists (sq_job_id q)) else tx_return True) (\<lambda>manifest.
      tx_bind (lift_result (reject_if (\<not> manifest) (Staging (StagingManifestMissing (sq_job_id q))))) (\<lambda>_.
      tx_bind (tx_map_err Staging (fetch_operation (sq_operation_key q))) (\<lambda>operation.
      case operation of
        Some (op, epoch) \<Rightarrow>
          if \<not> same_operation q request_payload op then tx_fail (Staging OperationConflict)
          else
            tx_bind (tx_map_err Staging (load_result q epoch)) (\<lambda>staged.
            tx_bind (tx_map_err Staging (fetch_node_reservation (sq_node_id q))) (\<lambda>found.
            tx_bind (lift_result (ok_or found (Staging StagingCorruptData))) (\<lambda>reservation.
            tx_bind (tx_map_err Staging (lift_result (validate_replayed_reservation reservation q expected))) (\<lambda>_.
              tx_return \<lparr>rr_reservation = reservation, rr_stage = staged\<lparr>qr_created := False\<rparr>\<rparr>))))
      | None \<Rightarrow> reserve_new q request_payload expected))))"

definition reserve_and_stage :: "stage_queued_request \<Rightarrow> u64 \<Rightarrow> bool \<Rightarrow> ('m, reserved_stage_result) reserved_tx" where
  "reserve_and_stage q expected require_manifest =
     tx_bind (tx_map_err Staging (lift_result (validate_request q))) (\<lambda>_.
     tx_bind (tx_map_err Staging (lift_result (validate_selected_gpu_ids (sq_selected_gpu_ids q)))) (\<lambda>_.
       in_transaction (Staging \<circ> staging_map_sql_error) (reserve_body q expected require_manifest)))"

section \<open>Acknowledgement and first progress\<close>

text \<open>How the two recording functions pass on an error of the job store; a clock that is behind is
  not an error.\<close>

definition pass_job_error :: "job_store_error \<Rightarrow> staging_store_error" where
  "pass_job_error e =
     (case e of JobLockTimeout \<Rightarrow> StagingLockTimeout | JobIo \<Rightarrow> StagingIo | _ \<Rightarrow> StagingCorruptData)"

definition behind_as :: "'a \<Rightarrow> ('m, 'a) job_tx \<Rightarrow> 'm job_db_scheme \<Rightarrow> (staging_store_error + 'a) \<times> 'm job_db_scheme" where
  "behind_as x m db =
     (case m db of
        (Inr y, db') \<Rightarrow> (Ok y, db')
      | (Inl (JobClockRollback _ _), db') \<Rightarrow> (Ok x, db')
      | (Inl e, db') \<Rightarrow> (Err (pass_job_error e), db'))"

definition still_current :: "stored_attempt \<Rightarrow> ('m, bool) staging_tx" where
  "still_current attempt =
     (if sa_state attempt \<noteq> AttemptStarting then tx_return False
      else
        tx_bind (tx_map_err (\<lambda>_. StagingCorruptData) (fetch_job (sa_job_id attempt))) (\<lambda>job.
        if (case job of Some j \<Rightarrow> sj_state j \<noteq> JobRunning | None \<Rightarrow> True) then tx_return False
        else
          statement staging_map_sql_error (\<lambda>db.
            (latest_attempt_row (jd_attempts db) (sa_job_id attempt) = Some (sa_attempt_id attempt), db))))"

definition ack_error :: "job_store_error \<Rightarrow> grant_accepted_record + staging_store_error" where
  "ack_error e = (case e of JobClockRollback _ _ \<Rightarrow> Inl ClockBehindStaging | _ \<Rightarrow> Inr (pass_job_error e))"

definition grant_accepted_body ::
    "str \<Rightarrow> u64 \<Rightarrow> bool \<Rightarrow> 'm staging_db_scheme \<Rightarrow>
     ((grant_accepted_record + staging_store_error) + grant_accepted_record) \<times> 'm staging_db_scheme" where
  "grant_accepted_body attempt_id now job_moves_on_ack =
     tx_bind (tx_map_err Inr (fetch_attempt attempt_id)) (\<lambda>found.
     tx_bind (lift_result (ok_or found (Inr StagingJobNotFound))) (\<lambda>attempt.
     if sa_state attempt \<noteq> AttemptCreated then
       tx_bind (tx_map_err Inr (still_current attempt)) (\<lambda>current.
         tx_return (if current then StartingStillCurrent else GrantAlreadyRecorded))
     else
       tx_bind (tx_map_err ack_error
         (if job_moves_on_ack then record_staging_complete (sa_job_id attempt) attempt_id now
          else ack_is_for_current_attempt (sa_job_id attempt) attempt_id now)) (\<lambda>job_moved.
       if \<not> job_moved then tx_fail (Inl NotCurrentAttempt)
       else
         tx_bind (tx_map_err Inr (transition_attempt_state attempt_id AttemptCreated AttemptStarting)) (\<lambda>_.
           tx_return GrantRecorded))))"

definition record_grant_accepted :: "str \<Rightarrow> u64 \<Rightarrow> bool \<Rightarrow> ('m, grant_accepted_record) staging_tx" where
  "record_grant_accepted attempt_id now job_moves_on_ack =
     in_transaction_or_drop staging_map_sql_error (grant_accepted_body attempt_id now job_moves_on_ack)"

definition process_started_body :: "str \<Rightarrow> u64 \<Rightarrow> ('m, process_started_record) staging_tx" where
  "process_started_body lease_id now =
     tx_bind (statement staging_map_sql_error (\<lambda>db.
       (map_option fst (find (\<lambda>e. ra_lease_id (snd e) = lease_id) (jd_attempts db)), db))) (\<lambda>found.
     case found of
       None \<Rightarrow> tx_return UnknownLeaseOfAttempt
     | Some attempt_id \<Rightarrow>
         tx_bind (fetch_attempt attempt_id) (\<lambda>found.
         tx_bind (lift_result (ok_or found StagingJobNotFound)) (\<lambda>attempt.
         let attempt_moved = (sa_state attempt = AttemptStarting) in
         tx_bind (if attempt_moved then transition_attempt_state attempt_id AttemptStarting AttemptRunning
                  else tx_return ()) (\<lambda>_.
         tx_bind (if sa_state attempt \<in> {AttemptStarting, AttemptRunning}
                  then behind_as False (record_staging_complete (sa_job_id attempt) attempt_id now)
                  else tx_return False) (\<lambda>job_moved.
           tx_return (if attempt_moved then ProcessStarted attempt_id job_moved
                      else ProcessAlreadyRecorded attempt_id))))))"

definition record_process_started :: "str \<Rightarrow> u64 \<Rightarrow> ('m, process_started_record) staging_tx" where
  "record_process_started lease_id now = in_transaction staging_map_sql_error (process_started_body lease_id now)"

section \<open>Opening and queries\<close>

definition staging_initialize_schema :: "('m, unit) staging_tx" where
  "staging_initialize_schema =
     tx_bind (tx_map_err map_job_error job_initialize_schema) (\<lambda>_.
     tx_bind (tx_map_err map_lease_error initialize_schema) (\<lambda>_.
       statement staging_map_sql_error (\<lambda>db. ((), db))))"

definition open_staging_store :: "('m, unit) staging_tx" where
  "open_staging_store =
     tx_bind (statement staging_map_sql_error (\<lambda>db. ((), db))) (\<lambda>_.
     tx_bind (statement staging_map_sql_error (\<lambda>db. ((), db))) (\<lambda>_.
       staging_initialize_schema))"

definition latest_attempt_for_job :: "str \<Rightarrow> ('m, str option) staging_tx" where
  "latest_attempt_for_job job_id =
     statement staging_map_sql_error (\<lambda>db. (latest_attempt_row (jd_attempts db) job_id, db))"

definition work_assigned_to_node :: "str \<Rightarrow> ('m, (str \<times> str \<times> str) option) staging_tx" where
  "work_assigned_to_node node_id =
     tx_bind (fetch_node_reservation node_id) (\<lambda>found.
     case found of
       None \<Rightarrow> tx_return None
     | Some reservation \<Rightarrow>
         tx_bind (fetch_attempt (nr_attempt_id reservation)) (\<lambda>found.
         case found of
           None \<Rightarrow> tx_fail StagingCorruptData
         | Some attempt \<Rightarrow>
             tx_return (Some (nr_job_id reservation, nr_attempt_id reservation, sa_lease_id attempt))))"

end
