(* ===== verification/Staging_Effect.thy ===== *)
theory Staging_Effect
  imports Staging_Store
begin

text \<open>
  What staging does to the control database: the read-only parts change nothing, a successful
  staging changes exactly the rows below, and the epoch it allocates is above every epoch of the
  lease table and of the counter.
\<close>

section \<open>Reading\<close>

definition same_tables :: "'m staging_db_scheme \<Rightarrow> 'm staging_db_scheme \<Rightarrow> bool" where
  "same_tables db db' \<longleftrightarrow> (\<exists>t. db' = db\<lparr>db_tape := t\<rparr>)"

lemma same_tables_refl [simp, intro]: "same_tables db db" "same_tables db (db\<lparr>db_tape := t\<rparr>)"
proof -
  show "same_tables db db" unfolding same_tables_def by (rule exI [of _ "db_tape db"]) simp
qed (auto simp: same_tables_def)

lemma same_tables_trans [trans]: "same_tables a b \<Longrightarrow> same_tables b c \<Longrightarrow> same_tables a c"
  by (auto simp: same_tables_def)

lemma fetch_attempt_Ok:
  assumes "fetch_attempt i db = (Inr found, db')"
  shows "same_tables db db'" and "found = None \<longleftrightarrow> hm_get (jd_attempts db) i = None"
    and "found = Some a \<Longrightarrow> \<exists>r. hm_get (jd_attempts db) i = Some r \<and> sa_attempt_id a = i \<and> sa_job_id a = ra_job_id r \<and>
      ra_state r = state_to_db (sa_state a) \<and> staging_decode_u64 (ra_fence_epoch r) = Ok (sa_fence_epoch a) \<and>
      sa_lease_id a = ra_lease_id r"
  using assms by (auto simp: fetch_attempt_def tx_ok state_from_db_def ok_or_Ok find_Some_iff split: option.splits)


lemma fetch_lease_same:
  assumes "fetch_lease i db = (Inr found, db')"
  shows "\<exists>t. db' = db\<lparr>db_tape := t\<rparr>" and "found = None \<longleftrightarrow> hm_get (ld_leases db) i = None"
  using assms by (auto simp: fetch_lease_def tx_ok result_ok split: option.splits)

lemma check_stageable_Ok:
  assumes "check_stageable q db = (Inr j, db')"
  obtains r t where "hm_get (jd_jobs db) (sq_job_id q) = Some r" "job_into_stored r = Inr j"
    "sj_state j \<in> {JobQueued, JobPaused}" "hm_get (jd_attempts db) (sq_attempt_id q) = None"
    "hm_get (ld_leases db) (sq_lease_id q) = None" "db' = db\<lparr>db_tape := t\<rparr>"
proof -
  from assms obtain found t1 db2 db3 where
    f: "map_transpose job_into_stored (hm_get (jd_jobs db) (sq_job_id q)) = Inr (Some j)"
    and st: "sj_state j \<in> {JobQueued, JobPaused}"
    and a: "fetch_attempt (sq_attempt_id q) (db\<lparr>db_tape := t1\<rparr>) = (Inr None, db2)"
    and l: "fetch_lease (sq_lease_id q) db2 = (Inr None, db3)" and "db' = db3"
    unfolding check_stageable_def
    by (auto simp: tx_bind_Ok lift_result_Ok tx_map_err_Ok fetch_job_Ok ok_or_Ok reject_if_Ok tx_return_Ok)
  moreover from fetch_attempt_Ok [OF a] obtain t2 where "db2 = db\<lparr>db_tape := t2\<rparr>"
    and "hm_get (jd_attempts db) (sq_attempt_id q) = None"
    by (auto simp: same_tables_def)
  moreover from fetch_lease_same [OF l] this(1) obtain t3 where "db3 = db\<lparr>db_tape := t3\<rparr>"
    and "hm_get (ld_leases db) (sq_lease_id q) = None" by auto
  moreover from f obtain r where "hm_get (jd_jobs db) (sq_job_id q) = Some r" "job_into_stored r = Inr j"
    by (auto simp: map_transpose_Ok split: option.splits)
  ultimately show ?thesis using that by blast
qed

section \<open>Epochs\<close>

lemma staging_decode_Ok: "staging_decode_u64 b = Inr v \<longleftrightarrow> b = encode_u64 v"
  using job_decode_eq_encode [of b v] by (auto simp: staging_decode_u64_def job_decode_u64_def split: if_splits)

lemma max_epoch_Ok:
  "for_each (\<lambda>row base. and_then (staging_decode_u64 row) (\<lambda>e. Ok (max base e))) rows base = Inr hi \<Longrightarrow>
     base \<le> hi \<and> (\<forall>row \<in> set rows. \<exists>e. row = encode_u64 e \<and> e \<le> hi)"
proof (induction rows arbitrary: base)
  case (Cons row rows)
  then obtain e where "row = encode_u64 e"
    "for_each (\<lambda>row base. and_then (staging_decode_u64 row) (\<lambda>e. Ok (max base e))) rows (max base e) = Inr hi"
    by (auto simp: result_ok staging_decode_Ok)
  with Cons.IH [of "max base e"] show ?case by auto
qed simp

definition counter_at_most :: "u64 \<Rightarrow> bytes option \<Rightarrow> bool" where
  "counter_at_most e c \<longleftrightarrow> (\<forall>b. c = Some b \<longrightarrow> (\<exists>v. b = encode_u64 v \<and> v < e))"

lemma less_plus_one: "unat base + 1 < 2 ^ 64 \<Longrightarrow> v \<le> base \<Longrightarrow> v < base + 1" for v base :: u64
  by (simp add: word_less_nat_alt word_le_nat_alt unat_word_ariths)

lemma allocate_epoch_Ok:
  assumes "allocate_epoch db = (Inr epoch, db')"
  obtains t where "db' = db\<lparr>db_tape := t, sd_fence_state := Some (encode_u64 epoch)\<rparr>"
    "counter_at_most epoch (sd_fence_state db)" "0 < epoch"
    "\<forall>e \<in> set (ld_leases db). \<exists>v. rl_fence_epoch (snd e) = encode_u64 v \<and> v < epoch"
proof -
  from assms obtain c hi t where c: "map_transpose staging_decode_u64 (sd_fence_state db) = Inr c"
    and hi: "for_each (\<lambda>row base. and_then (staging_decode_u64 row) (\<lambda>e. Ok (max base e)))
      (map (\<lambda>e. rl_fence_epoch (snd e)) (ld_leases db)) (case c of Some c \<Rightarrow> c | None \<Rightarrow> 0) = Inr hi"
    and e: "checked_add hi 1 = Some epoch"
    and db': "db' = db\<lparr>db_tape := t, sd_fence_state := Some (encode_u64 epoch)\<rparr>"
    by (auto simp: allocate_epoch_def read_counter_def tx_ok ok_or_Ok)
  note m = max_epoch_Ok [OF hi]
  have epoch: "epoch = hi + 1" "unat hi + 1 < 2 ^ 64" using e by (simp_all add: checked_add_Some)
  have "counter_at_most epoch (sd_fence_state db)"
    using c m epoch by (auto simp: counter_at_most_def map_transpose_Ok staging_decode_Ok less_plus_one split: option.splits)
  moreover have "0 < epoch" using less_plus_one [OF epoch(2), of 0] epoch(1) by simp
  moreover have "\<forall>e \<in> set (ld_leases db). \<exists>v. rl_fence_epoch (snd e) = encode_u64 v \<and> v < epoch"
    using m epoch less_plus_one by fastforce
  ultimately show ?thesis using db' that by blast
qed


section \<open>The effect of staging\<close>

lemma insert_attempt_Ok:
  assumes "insert_attempt a db = (Inr u, db')"
  obtains t where "hm_get (jd_attempts db) (sa_attempt_id a) = None"
    "db' = db\<lparr>db_tape := t, jd_attempts := hm_insert (sa_attempt_id a) (attempt_row a) (jd_attempts db),
       sd_attempt_nodes := sd_attempt_nodes db @ [(sa_attempt_id a, 0, hd (sa_node_ids a))]\<rparr>"
proof -
  let ?m = "hm_insert (sa_attempt_id a) (attempt_row a) (jd_attempts db)"
  let ?n = "sd_attempt_nodes db @ [(sa_attempt_id a, 0, hd (sa_node_ids a))]"
  from assms obtain t t' where "hm_get (jd_attempts db) (sa_attempt_id a) = None"
    and "db' = db\<lparr>db_tape := t, jd_attempts := ?m, db_tape := t', sd_attempt_nodes := ?n\<rparr>"
    by (auto simp: insert_attempt_def tx_ok hm_contains_key_def split: if_splits)
  moreover have "db\<lparr>db_tape := t, jd_attempts := ?m, db_tape := t', sd_attempt_nodes := ?n\<rparr> =
      db\<lparr>db_tape := t', jd_attempts := ?m, sd_attempt_nodes := ?n\<rparr>"
    by (cases db) simp
  ultimately show ?thesis using that by metis
qed

lemma insert_lease_Ok:
  assumes "insert_lease c db = (Inr u, db')"
  obtains t where "hm_get (ld_leases db) (sl_lease_id c) = None"
    "db' = db\<lparr>db_tape := t, ld_leases := hm_insert (sl_lease_id c) (inserted_row c) (ld_leases db)\<rparr>"
  using assms by (auto simp: insert_lease_def tx_ok hm_contains_key_def split: if_splits)

lemma insert_operation_Ok:
  assumes "insert_operation q payload epoch db = (Inr u, db')"
  obtains t where "hm_get (sd_operations db) (sq_operation_key q) = None"
    "db' = db\<lparr>db_tape := t, sd_operations := hm_insert (sq_operation_key q)
       \<lparr>ro_job_id = sq_job_id q, ro_attempt_id = sq_attempt_id q, ro_lease_id = sq_lease_id q,
        ro_request_payload = payload, ro_fence_epoch = encode_u64 epoch\<rparr> (sd_operations db)\<rparr>"
  using assms by (auto simp: insert_operation_def tx_ok hm_contains_key_def split: if_splits)

definition staged_state :: "job_state \<Rightarrow> job_state" where
  "staged_state s = (if s = JobPaused then JobRunning else JobStaging)"

lemma staged_job_step:
  assumes "staged_job q j = Inr k" and "job_ok j" and "sj_state j \<in> {JobQueued, JobPaused}"
  shows "job_facts k = job_facts j" and "sj_revision k = sj_revision j" and "job_ok k"
    and "sj_state k = staged_state (sj_state j)" and "job_walk (sj_state j) [sj_state k] = Ok (sj_state k)"
    and "sj_staging_at_unix_ms k = Some (sq_issued_at_unix_ms q)"
  using assms
  by (auto simp: staged_job_def job_transition_def job_transition_triggers_def job_facts_def job_shape staged_state_def
      walk_one split: if_splits)

text \<open>The rows a staging adds, with the job it moves.\<close>

definition staged_db :: "stage_queued_request \<Rightarrow> bytes \<Rightarrow> u64 \<Rightarrow> stored_job \<Rightarrow> 'm staging_db_scheme \<Rightarrow> 'm staging_db_scheme" where
  "staged_db q payload epoch k db = db\<lparr>
     ld_leases := hm_insert (sq_lease_id q) (inserted_row (to_lease q epoch)) (ld_leases db),
     jd_jobs := hm_insert (sq_job_id q) (row_of k) (jd_jobs db),
     jd_attempts := hm_insert (sq_attempt_id q) (attempt_row (new_attempt q epoch)) (jd_attempts db),
     sd_attempt_nodes := sd_attempt_nodes db @ [(sq_attempt_id q, 0, sq_node_id q)],
     sd_fence_state := Some (encode_u64 epoch),
     sd_operations := hm_insert (sq_operation_key q)
       \<lparr>ro_job_id = sq_job_id q, ro_attempt_id = sq_attempt_id q, ro_lease_id = sq_lease_id q,
        ro_request_payload = payload, ro_fence_epoch = encode_u64 epoch\<rparr> (sd_operations db)\<rparr>"

lemma write_staged_Ok:
  assumes "write_staged q payload j db = (Inr res, db')"
    and "hm_get (jd_jobs db) (sq_job_id q) = Some r" and "job_into_stored r = Inr j" and "sj_job_id j = sq_job_id q"
    and "sj_state j \<in> {JobQueued, JobPaused}"
  obtains t epoch k where "db' = (staged_db q payload epoch k db)\<lparr>db_tape := t\<rparr>"
    "res = \<lparr>qr_job = k, qr_attempt = new_attempt q epoch, qr_lease = to_lease q epoch, qr_created = True\<rparr>"
    "job_step j k" "sj_state k = staged_state (sj_state j)" "counter_at_most epoch (sd_fence_state db)"
    "sj_staging_at_unix_ms k = Some (sq_issued_at_unix_ms q)"
    "\<forall>e \<in> set (ld_leases db). \<exists>v. rl_fence_epoch (snd e) = encode_u64 v \<and> v < epoch"
    "hm_get (sd_operations db) (sq_operation_key q) = None"
proof -
  from assms(1) obtain epoch db1 db2 db3 k0 v db4 where
    al: "allocate_epoch db = (Inr epoch, db1)" and at: "insert_attempt (new_attempt q epoch) db1 = (Inr (), db2)"
    and le: "insert_lease (to_lease q epoch) db2 = (Inr (), db3)" and k0: "staged_job q j = Inr k0"
    and v: "checked_add (sj_revision k0) 1 = Some v"
    and up: "update_job (k0\<lparr>sj_revision := v\<rparr>) db3 = (Inr (), db4)"
    and op: "insert_operation q payload epoch db4 = (Inr (), db')"
    and res: "res = \<lparr>qr_job = k0\<lparr>sj_revision := v\<rparr>, qr_attempt = new_attempt q epoch, qr_lease = to_lease q epoch, qr_created = True\<rparr>"
    by (auto simp: write_staged_def Let_def tx_bind_Ok lift_result_Ok tx_map_err_Ok tx_return_Ok ok_or_Ok)
  let ?k = "k0\<lparr>sj_revision := v\<rparr>"
  note s = staged_job_step [OF k0 job_into_stored_ok [OF assms(3)] assms(5)]
  have facts: "job_facts ?k = job_facts j" using s(1) by (simp add: job_facts_def)
  then have id: "sj_job_id ?k = sq_job_id q" using assms(4) by (simp add: job_facts_def)
  have step: "job_step j ?k"
    using facts s(2,3,5) checked_add_unat [OF v] by (auto simp: job_step_def intro: exI [of _ "[sj_state k0]"])
  obtain t1 where 1: "db1 = db\<lparr>db_tape := t1, sd_fence_state := Some (encode_u64 epoch)\<rparr>"
      "counter_at_most epoch (sd_fence_state db)" "0 < epoch"
      "\<forall>e \<in> set (ld_leases db). \<exists>v. rl_fence_epoch (snd e) = encode_u64 v \<and> v < epoch"
    by (rule allocate_epoch_Ok [OF al])
  obtain t2 where 2: "db2 = db1\<lparr>db_tape := t2,
      jd_attempts := hm_insert (sq_attempt_id q) (attempt_row (new_attempt q epoch)) (jd_attempts db1),
      sd_attempt_nodes := sd_attempt_nodes db1 @ [(sq_attempt_id q, 0, sq_node_id q)]\<rparr>"
    by (rule insert_attempt_Ok [OF at]) (simp add: new_attempt_def)
  obtain t3 where 3: "db3 = db2\<lparr>db_tape := t3, ld_leases := hm_insert (sq_lease_id q) (inserted_row (to_lease q epoch)) (ld_leases db2)\<rparr>"
    by (rule insert_lease_Ok [OF le]) (simp add: to_lease_def)
  have "jd_jobs db3 = jd_jobs db" using 1 2 3 by simp
  then obtain t4 where 4: "db4 = db3\<lparr>db_tape := t4, jd_jobs := hm_insert (sq_job_id q) (row_of ?k) (jd_jobs db3)\<rparr>"
    using update_job_Ok [OF up] assms(2) updated_row_of [OF assms(3) facts] id by (metis option.inject)
  obtain t5 where 5: "hm_get (sd_operations db4) (sq_operation_key q) = None" "db' = db4\<lparr>db_tape := t5, sd_operations := hm_insert (sq_operation_key q)
       \<lparr>ro_job_id = sq_job_id q, ro_attempt_id = sq_attempt_id q, ro_lease_id = sq_lease_id q,
        ro_request_payload = payload, ro_fence_epoch = encode_u64 epoch\<rparr> (sd_operations db4)\<rparr>"
    by (rule insert_operation_Ok [OF op])
  have "db' = (staged_db q payload epoch ?k db)\<lparr>db_tape := t5\<rparr>"
    unfolding 5(2) 4 3 2 1(1) staged_db_def by (cases db) simp
  moreover have "hm_get (sd_operations db) (sq_operation_key q) = None" using 5(1) 1 2 3 4 by simp
  ultimately show ?thesis using that [of _ epoch ?k] res step s(4,6) 1(2,4) by simp
qed

end
