(* ===== verification/Failover.thy ===== *)
theory Failover
  imports Staging_Effect
begin

text \<open>
  Failover, \<open>crates/coordinator/src/failover.rs\<close>: jobs of lost nodes go back to the queue (or
  fail), a preempted job pauses, and an operator releases the reservation of a lost node. Each is
  one transaction over the job, attempt, lease and reservation tables.

  The shared checkpoint storage and the generated type \<open>pb::CheckpointManifest\<close> with its
  decoder and signature check are parameters, the record \<open>resume_api\<close>. The notes for the log
  are left out, and an error text is the error it was made from.
\<close>

section \<open>Data\<close>

record failover_policy =
  fp_grace_ms :: u64
  fp_shared_checkpoint_root :: "str option"

datatype failover_outcome =
    Requeued str str str bool "(str \<times> u64) option"
  | FailedNoCheckpoint str str str

datatype failover_error =
    FailoverSql sql_error
  | FailoverJob job_store_error
  | FailoverStaging staging_store_error
  | FailoverLease lease_store_error
  | AttemptGone str
  | LeaseGone str
  | ListFailed
  | ReleaseRefused string

record resume_point =
  rp_checkpoint_id :: str
  rp_step :: u64
  rp_body :: bytes

record 'ckpt resume_api =
  rs_list :: "str \<Rightarrow> str \<Rightarrow> (str \<times> bytes) list option"
  rs_decode :: "bytes \<Rightarrow> 'ckpt option"
  rs_verify :: "'ckpt \<Rightarrow> u64 \<Rightarrow> bool"
  rs_verify_on_disk :: "str \<Rightarrow> 'ckpt \<Rightarrow> bool"
  rs_checkpoint_id :: "'ckpt \<Rightarrow> str"
  rs_job_id :: "'ckpt \<Rightarrow> str"
  rs_attempt_id :: "'ckpt \<Rightarrow> str"
  rs_fence_epoch :: "'ckpt \<Rightarrow> u64"
  rs_step :: "'ckpt \<Rightarrow> u64"
  rs_producer_node_id :: "'ckpt \<Rightarrow> str"

record operator_release =
  or_node_id :: str
  or_attempt_id :: str
  or_job_id :: str
  or_released_gpu_ids :: "str list"

text \<open>Rows of the tables of terminal reports (\<open>attempt_report_store.rs\<close>) and of released
  reservations (\<open>reservation_release.rs\<close>).\<close>

record raw_report_row =
  rw_job_id :: str
  rw_fence_epoch :: bytes
  rw_signer_id :: str
  rw_report_hash :: bytes
  rw_report_body :: bytes
  rw_bound_via :: string

record raw_release_row =
  rx_node_id :: str
  rx_job_id :: str
  rx_fence_epoch :: bytes
  rx_report_hash :: bytes
  rx_released_at_unix_ms :: bytes

text \<open>The tables that failover, the report store and the release store add; \<open>None\<close> stands for a
  table that was not created yet.\<close>

record control_db = staging_db +
  cd_reports :: "(str \<times> str, raw_report_row) hash_map"
  cd_releases :: "(str, raw_release_row) hash_map"
  cd_release_gpus :: "(str \<times> int \<times> str) list"
  cd_operator_releases :: "(str \<times> str, str \<times> str \<times> bytes) hash_map"
  cd_reclaims :: "(str, bytes) hash_map"
  cd_session_seen :: "(str, bytes) hash_map option"

type_synonym ('m, 'a) failover_tx = "'m control_db_scheme \<Rightarrow> (failover_error + 'a) \<times> 'm control_db_scheme"

section \<open>The checkpoint to resume from\<close>

definition matching_attempt :: "'ckpt resume_api \<Rightarrow> 'ckpt \<Rightarrow> str \<Rightarrow> stored_attempt \<Rightarrow> bool" where
  "matching_attempt api man job_id a \<longleftrightarrow>
     sa_job_id a = job_id \<and> sa_fence_epoch a = rs_fence_epoch api man \<and> rs_producer_node_id api man \<in> set (sa_node_ids a)"

fun best_resume_point ::
    "'ckpt resume_api \<Rightarrow> str \<Rightarrow> str \<Rightarrow> u64 \<Rightarrow> (str \<times> bytes) list \<Rightarrow> ((u64 \<times> u64) \<times> resume_point) option \<Rightarrow>
     ('m, ((u64 \<times> u64) \<times> resume_point) option) failover_tx" where
  "best_resume_point api root job_id now [] best = tx_return best"
| "best_resume_point api root job_id now ((checkpoint_id, body) # rest) best =
     (case rs_decode api body of
        None \<Rightarrow> best_resume_point api root job_id now rest best
      | Some man \<Rightarrow>
          if rs_checkpoint_id api man \<noteq> checkpoint_id \<or> \<not> rs_verify api man now \<or> rs_job_id api man \<noteq> job_id
          then best_resume_point api root job_id now rest best
          else
            tx_bind (tx_map_err FailoverStaging (fetch_attempt (rs_attempt_id api man))) (\<lambda>found.
            case found of
              None \<Rightarrow> best_resume_point api root job_id now rest best
            | Some attempt \<Rightarrow>
                if \<not> matching_attempt api man job_id attempt \<or> \<not> rs_verify_on_disk api root man
                then best_resume_point api root job_id now rest best
                else
                  let key = (rs_fence_epoch api man, rs_step api man) in
                  best_resume_point api root job_id now rest
                    (if (case best of None \<Rightarrow> True | Some (k, _) \<Rightarrow> key > k)
                     then Some (key, \<lparr>rp_checkpoint_id = checkpoint_id, rp_step = rs_step api man, rp_body = body\<rparr>)
                     else best)))"

definition find_resume_point ::
    "'ckpt resume_api \<Rightarrow> failover_policy \<Rightarrow> str \<Rightarrow> u64 \<Rightarrow> bool \<Rightarrow> ('m, resume_point option) failover_tx" where
  "find_resume_point api policy job_id now list_error_as_none =
     (case fp_shared_checkpoint_root policy of
        None \<Rightarrow> tx_return None
      | Some root \<Rightarrow>
          (case rs_list api root job_id of
             None \<Rightarrow> if list_error_as_none then tx_return None else tx_fail ListFailed
           | Some listed \<Rightarrow>
               tx_bind (best_resume_point api root job_id now listed None) (\<lambda>best.
                 tx_return (map_option snd best))))"

section \<open>Lost attempts\<close>

definition select_latest :: "str \<Rightarrow> ('m, str option) failover_tx" where
  "select_latest job_id = statement FailoverSql (\<lambda>db. (latest_attempt_row (jd_attempts db) job_id, db))"

definition attempt_is_over :: "attempt_state \<Rightarrow> bool" where
  "attempt_is_over s \<longleftrightarrow>
     s \<in> {AttemptCompleted, AttemptFailed, AttemptCancelled, AttemptCanonical, AttemptSuperseded}"

definition lost_at :: "failover_policy \<Rightarrow> stored_lease \<Rightarrow> u64" where
  "lost_at policy lease =
     saturating_add (sl_expires_at_unix_ms lease) (max (fp_grace_ms policy) (sl_reassignment_grace_ms lease))"

text \<open>One job. \<open>Inl None\<close> drops the transaction and goes on with the next job.\<close>

definition check_lost ::
    "failover_policy \<Rightarrow> u64 \<Rightarrow> str \<Rightarrow> 'm control_db_scheme \<Rightarrow>
     ((failover_outcome option + failover_error) + (stored_job \<times> stored_attempt)) \<times> 'm control_db_scheme" where
  "check_lost policy now job_id =
     tx_bind (tx_map_err (Inr \<circ> FailoverJob) (fetch_job job_id)) (\<lambda>found.
     tx_bind (lift_result (ok_or found (Inl None))) (\<lambda>job.
     tx_bind (lift_result (reject_if (sj_state job \<notin> {JobStaging, JobRunning}) (Inl None))) (\<lambda>_.
     tx_bind (tx_map_err Inr (select_latest (sj_job_id job))) (\<lambda>latest.
     tx_bind (lift_result (ok_or latest (Inl None))) (\<lambda>attempt_id.
     tx_bind (tx_map_err (Inr \<circ> FailoverStaging) (fetch_attempt attempt_id)) (\<lambda>found.
     tx_bind (lift_result (ok_or found (Inr (AttemptGone attempt_id)))) (\<lambda>attempt.
     tx_bind (lift_result (reject_if (attempt_is_over (sa_state attempt)) (Inl None))) (\<lambda>_.
     tx_bind (tx_map_err (Inr \<circ> FailoverLease) (fetch_lease (sa_lease_id attempt))) (\<lambda>found.
     tx_bind (lift_result (ok_or found (Inr (LeaseGone (sa_lease_id attempt))))) (\<lambda>lease.
     tx_bind (lift_result (reject_if (now \<le> lost_at policy lease) (Inl None))) (\<lambda>_.
       tx_return (job, attempt))))))))))))"

definition first_node :: "stored_attempt \<Rightarrow> str" where
  "first_node a = (case sa_node_ids a of [] \<Rightarrow> [] | n # _ \<Rightarrow> n)"

definition take_over :: "'ckpt resume_api \<Rightarrow> failover_policy \<Rightarrow> u64 \<Rightarrow> stored_job \<Rightarrow> stored_attempt \<Rightarrow> ('m, failover_outcome) failover_tx" where
  "take_over api policy now job attempt =
     (let lost_node_id = first_node attempt in
      tx_bind (if sj_state job = JobRunning then find_resume_point api policy (sj_job_id job) now False
               else tx_return None) (\<lambda>resume.
      tx_bind (tx_map_err FailoverJob (requeue_after_node_lost job (map_option rp_body resume) now)) (\<lambda>updated.
      tx_bind (tx_map_err FailoverLease (revoke_within (sa_lease_id attempt) now)) (\<lambda>_.
      tx_bind (if lost_node_id \<noteq> [] then
          tx_map_err FailoverStaging (mark_reservation_expired lost_node_id now) else tx_return False) (\<lambda>_.
        tx_return (if sj_state updated = JobQueued then
            Requeued (sj_job_id job) (sa_attempt_id attempt) lost_node_id (sj_state job = JobRunning)
              (map_option (\<lambda>p. (rp_checkpoint_id p, rp_step p)) resume)
          else FailedNoCheckpoint (sj_job_id job) (sa_attempt_id attempt) lost_node_id))))))"

definition failover_one :: "'ckpt resume_api \<Rightarrow> failover_policy \<Rightarrow> u64 \<Rightarrow> str \<Rightarrow> ('m, failover_outcome option) failover_tx" where
  "failover_one api policy now job_id = in_transaction_or_drop FailoverSql (
     tx_bind (check_lost policy now job_id) (\<lambda>(job, attempt).
     tx_bind (tx_map_err Inr (take_over api policy now job attempt)) (\<lambda>outcome. tx_return (Some outcome))))"

fun failover_jobs :: "'ckpt resume_api \<Rightarrow> failover_policy \<Rightarrow> u64 \<Rightarrow> stored_job list \<Rightarrow> ('m, failover_outcome list) failover_tx" where
  "failover_jobs api policy now [] = tx_return []"
| "failover_jobs api policy now (listed # rest) =
     tx_bind (failover_one api policy now (sj_job_id listed)) (\<lambda>outcome.
     tx_bind (failover_jobs api policy now rest) (\<lambda>outcomes.
       tx_return (case outcome of Some out \<Rightarrow> out # outcomes | None \<Rightarrow> outcomes)))"

definition failover_lost_attempts ::
    "'ckpt resume_api \<Rightarrow> failover_policy \<Rightarrow> u64 \<Rightarrow> ('m, failover_outcome list) failover_tx" where
  "failover_lost_attempts api policy now =
     tx_bind (tx_map_err FailoverJob open_job_store) (\<lambda>_.
     tx_bind (tx_map_err FailoverStaging open_staging_store) (\<lambda>_.
     tx_bind (statement FailoverSql (\<lambda>db. ((), db))) (\<lambda>_.
     tx_bind (statement FailoverSql (\<lambda>db. ((), db))) (\<lambda>_.
     tx_bind (tx_map_err FailoverJob list_in_run_states) (\<lambda>candidates.
       failover_jobs api policy now candidates)))))"

section \<open>Operator release\<close>

definition job_moved_on :: "job_state \<Rightarrow> bool" where
  "job_moved_on s \<longleftrightarrow> s \<in> {JobQueued, JobCompleted, JobFailed}"

definition release_rows :: "str \<Rightarrow> str \<Rightarrow> u64 \<Rightarrow> stored_node_reservation \<Rightarrow> ('m, unit) failover_tx" where
  "release_rows node_id operator_statement now reservation =
     tx_bind (statement FailoverSql (\<lambda>db. ((), db\<lparr>sd_reservation_gpus :=
       filter (\<lambda>e. fst e \<noteq> node_id) (sd_reservation_gpus db)\<rparr>))) (\<lambda>_.
     tx_bind (statement FailoverSql (\<lambda>db.
       case hm_get (sd_reservations db) node_id of
         Some r \<Rightarrow>
           if rv_attempt_id r = nr_attempt_id reservation
           then (1 :: nat, db\<lparr>sd_reservations := hm_remove node_id (sd_reservations db)\<rparr>) else (0, db)
       | None \<Rightarrow> (0, db))) (\<lambda>removed.
     tx_bind (lift_result (reject_if (removed \<noteq> 1) (ReleaseRefused ''deleted rows''))) (\<lambda>_.
     statement_result FailoverSql (\<lambda>db.
       if hm_contains_key (cd_operator_releases db) (node_id, nr_attempt_id reservation)
       then (Err (FailoverSql SqliteOther), db)
       else (Ok (), db\<lparr>cd_operator_releases := hm_insert (node_id, nr_attempt_id reservation)
         (nr_job_id reservation, operator_statement, to_be_bytes_u64 now) (cd_operator_releases db)\<rparr>)))))"

definition release_body :: "str \<Rightarrow> str \<Rightarrow> u64 \<Rightarrow> ('m, operator_release) failover_tx" where
  "release_body node_id operator_statement now =
     tx_bind (tx_map_err FailoverStaging (fetch_node_reservation node_id)) (\<lambda>found.
     tx_bind (lift_result (ok_or found (ReleaseRefused ''no reservation''))) (\<lambda>reservation.
     tx_bind (tx_map_err FailoverJob (fetch_job (nr_job_id reservation))) (\<lambda>found.
     tx_bind (lift_result (ok_or found (ReleaseRefused ''no job''))) (\<lambda>job.
     tx_bind (select_latest (nr_job_id reservation)) (\<lambda>latest.
     tx_bind (lift_result (reject_if (latest = Some (nr_attempt_id reservation) \<and> \<not> job_moved_on (sj_state job))
       (ReleaseRefused ''live attempt''))) (\<lambda>_.
     tx_bind (release_rows node_id operator_statement now reservation) (\<lambda>_.
       tx_return \<lparr>or_node_id = node_id, or_attempt_id = nr_attempt_id reservation,
         or_job_id = nr_job_id reservation, or_released_gpu_ids = nr_selected_gpu_ids reservation\<rparr>)))))))"

definition release_lost_node_by_operator :: "str \<Rightarrow> str \<Rightarrow> u64 \<Rightarrow> ('m, operator_release) failover_tx" where
  "release_lost_node_by_operator node_id operator_statement now =
     tx_bind (lift_result (reject_if (is_blank operator_statement) (ReleaseRefused ''no statement''))) (\<lambda>_.
     tx_bind (tx_map_err FailoverStaging open_staging_store) (\<lambda>_.
     tx_bind (statement FailoverSql (\<lambda>db. ((), db))) (\<lambda>_.
     tx_bind (statement FailoverSql (\<lambda>db. ((), db))) (\<lambda>_.
     tx_bind (statement FailoverSql (\<lambda>db. ((), db))) (\<lambda>_.
       in_transaction FailoverSql (release_body node_id operator_statement now))))))"

section \<open>Preemption by the owner\<close>

definition preempt_running ::
    "'ckpt resume_api \<Rightarrow> failover_policy \<Rightarrow> str \<Rightarrow> str \<Rightarrow> str \<Rightarrow> u64 \<Rightarrow> stored_job \<Rightarrow> ('m, u64 option) failover_tx" where
  "preempt_running api policy job_id attempt_id node_id now job =
     tx_bind (find_resume_point api policy job_id now True) (\<lambda>resume.
     tx_bind (tx_map_err FailoverJob (pause_for_owner_preempt job (map_option rp_body resume))) (\<lambda>_.
     tx_bind (tx_map_err FailoverStaging (fetch_attempt attempt_id)) (\<lambda>found.
     tx_bind (lift_result (ok_or found (AttemptGone attempt_id))) (\<lambda>attempt.
     tx_bind (tx_map_err FailoverLease (revoke_within (sa_lease_id attempt) now)) (\<lambda>_.
     tx_bind (statement FailoverSql (\<lambda>db. (cd_session_seen db \<noteq> None, db))) (\<lambda>seen_table.
     tx_bind (if seen_table then statement FailoverSql (\<lambda>db. ((), db\<lparr>cd_session_seen :=
         map_option (hm_remove node_id) (cd_session_seen db)\<rparr>)) else tx_return ()) (\<lambda>_.
     tx_bind (statement FailoverSql (\<lambda>db. ((), db\<lparr>cd_reclaims :=
         hm_insert node_id (to_be_bytes_u64 now) (cd_reclaims db)\<rparr>))) (\<lambda>_.
       tx_return (map_option rp_step resume)))))))))"

definition pause_for_owner_preempt_within ::
    "'ckpt resume_api \<Rightarrow> failover_policy \<Rightarrow> str \<Rightarrow> str \<Rightarrow> str \<Rightarrow> u64 \<Rightarrow> ('m, (u64 option) option) failover_tx" where
  "pause_for_owner_preempt_within api policy job_id attempt_id node_id now =
     tx_bind (statement FailoverSql (\<lambda>db. ((), db))) (\<lambda>_.
     tx_bind (tx_map_err FailoverJob (fetch_job job_id)) (\<lambda>found.
     case found of
       None \<Rightarrow> tx_return None
     | Some job \<Rightarrow>
         if sj_state job \<noteq> JobRunning then tx_return None
         else
           tx_bind (select_latest job_id) (\<lambda>latest.
           if latest \<noteq> Some attempt_id then tx_return None
           else
             tx_bind (preempt_running api policy job_id attempt_id node_id now job) (\<lambda>step.
               tx_return (Some step)))))"

definition owner_preempt ::
    "'ckpt resume_api \<Rightarrow> failover_policy \<Rightarrow> str \<Rightarrow> str \<Rightarrow> str \<Rightarrow> u64 \<Rightarrow> ('m, (u64 option) option) failover_tx" where
  "owner_preempt api policy job_id attempt_id node_id now =
     tx_bind (statement FailoverSql (\<lambda>db. ((), db))) (\<lambda>_.
     tx_bind (statement FailoverSql (\<lambda>db. ((), db))) (\<lambda>_.
     tx_bind (statement FailoverSql (\<lambda>db. ((), db))) (\<lambda>_.
       in_transaction FailoverSql (pause_for_owner_preempt_within api policy job_id attempt_id node_id now))))"

end
