(* ===== verification/Protocol_Rules.thy ===== *)
theory Protocol_Rules
  imports Prelude
begin

text \<open>
  Two rules a receiver applies to verified messages: the continuity of a watch stream
  (\<open>src/crates/protocol/src/watch_continuity.rs\<close>) and the field combinations of an
  attempt report (\<open>src/crates/protocol/src/attempt_report_rules.rs\<close>). The generated
  messages are records of the fields the rules read; the payload of a control event is a type
  variable, and an enum field is the raw integer of the wire.
\<close>

section \<open>Watch streams\<close>

record cursor =
  cu_index :: u64
  cu_term :: u64

datatype 'e watch_kind = KindEvent 'e | KindReset str "cursor option"

record 'e watch_event =
  we_kind :: "'e watch_kind option"
  we_cursor :: "cursor option"

datatype cursor_regression = DuplicateIndex | IndexRegression | TermRegression

datatype indeterminate_reason = MissingEventKind | MissingCursor | TermAdvanced

datatype watch_discontinuity =
    Gap cursor cursor
  | DuplicateOrRegression cursor cursor cursor_regression
  | WatchReset
  | Indeterminate "cursor option" "cursor option" indeterminate_reason

datatype watch_continuity_outcome = Continuous "cursor option" | Resynchronize watch_discontinuity

definition compare_cursors :: "cursor \<Rightarrow> cursor \<Rightarrow> watch_discontinuity option" where
  "compare_cursors previous received =
     (case ord_cmp (cu_term received) (cu_term previous) of
        Less \<Rightarrow> Some (DuplicateOrRegression previous received TermRegression)
      | Greater \<Rightarrow> Some (Indeterminate (Some previous) (Some received) TermAdvanced)
      | Equal \<Rightarrow>
          (case ord_cmp (cu_index received) (cu_index previous) of
             Less \<Rightarrow> Some (DuplicateOrRegression previous received IndexRegression)
           | Equal \<Rightarrow> Some (DuplicateOrRegression previous received DuplicateIndex)
           | Greater \<Rightarrow> if checked_add (cu_index previous) 1 = Some (cu_index received) then None
                        else Some (Gap previous received)))"

fun watch_loop :: "cursor option \<Rightarrow> 'e watch_event list \<Rightarrow> watch_continuity_outcome" where
  "watch_loop accepted [] = Continuous accepted"
| "watch_loop accepted (event # events) =
     (case (we_kind event, we_cursor event) of
        (None, c) \<Rightarrow> Resynchronize (Indeterminate accepted c MissingEventKind)
      | (Some (KindEvent _), None) \<Rightarrow> Resynchronize (Indeterminate accepted None MissingCursor)
      | (Some (KindReset _ _), _) \<Rightarrow> Resynchronize WatchReset
      | (Some (KindEvent _), Some received) \<Rightarrow>
          (case accepted of
             None \<Rightarrow> watch_loop (Some received) events
           | Some previous \<Rightarrow>
               (case compare_cursors previous received of
                  Some cause \<Rightarrow> Resynchronize cause
                | None \<Rightarrow> watch_loop (Some received) events)))"

definition is_reset :: "'e watch_event \<Rightarrow> bool" where
  "is_reset event = (case we_kind event of Some (KindReset _ _) \<Rightarrow> True | _ \<Rightarrow> False)"

definition evaluate_watch_continuity :: "cursor option \<Rightarrow> 'e watch_event list \<Rightarrow> watch_continuity_outcome" where
  "evaluate_watch_continuity previous events =
     (if \<exists>event \<in> set events. is_reset event then Resynchronize WatchReset
      else watch_loop previous events)"

section \<open>Attempt reports\<close>

datatype attempt_outcome =
    OutcomeUnspecified | Completed | Failed | Interrupted | Cancelled | StaleCompleted
  | OutputFinalizationFailed

datatype exit_observation_kind =
    ExitUnspecified | NotObserved | ObservedWithCode | ObservedNoCode

datatype finalization_failure_stage_kind =
    StageUnspecified | ReadOutputs | EncodeResult | CommitCheckpoint

definition attempt_outcome_try_from :: "int \<Rightarrow> attempt_outcome option" where
  "attempt_outcome_try_from v =
     map_of [(0, OutcomeUnspecified), (1, Completed), (2, Failed), (3, Interrupted), (4, Cancelled),
             (5, StaleCompleted), (6, OutputFinalizationFailed)] v"

definition exit_observation_try_from :: "int \<Rightarrow> exit_observation_kind option" where
  "exit_observation_try_from v =
     map_of [(0, ExitUnspecified), (1, NotObserved), (2, ObservedWithCode), (3, ObservedNoCode)] v"

definition finalization_stage_try_from :: "int \<Rightarrow> finalization_failure_stage_kind option" where
  "finalization_stage_try_from v =
     map_of [(0, StageUnspecified), (1, ReadOutputs), (2, EncodeResult), (3, CommitCheckpoint)] v"

record attempt_report =
  ar_schema_version :: u32
  ar_job_id :: str
  ar_attempt_id :: str
  ar_node_id :: str
  ar_fence_epoch :: u64
  ar_outcome :: int
  ar_final_step :: u64
  ar_started_at_unix_ms :: u64
  ar_finished_at_unix_ms :: u64
  ar_exit_observation :: int
  ar_exit_code :: u32
  ar_finalization_failure_stage :: int
  ar_issued_at_unix_ms :: u64

definition ATTEMPT_REPORT_MAX_SCHEMA_VERSION :: u32 where "ATTEMPT_REPORT_MAX_SCHEMA_VERSION = 2"

text \<open>The fields the rules do not read (artifacts, final checkpoint, metrics, signature) are the
  extension of the record.\<close>

datatype report_rule_error =
    UnknownOutcome int
  | UnspecifiedOutcome
  | UnknownExitObservation int
  | UnknownFinalizationStage int
  | UnsupportedSchemaVersion u32
  | V1UsesNewFields
  | V1UsesNewOutcome
  | V2MissingExitObservation
  | ExitCodeWithoutObservedCode
  | CombinationRejected int int u32 int

definition check_v1 :: "'r attempt_report_scheme \<Rightarrow> attempt_outcome \<Rightarrow> exit_observation_kind \<Rightarrow>
    finalization_failure_stage_kind \<Rightarrow> report_rule_error + unit" where
  "check_v1 r outcome obs stage =
     (if obs \<noteq> ExitUnspecified \<or> ar_exit_code r \<noteq> 0 \<or> stage \<noteq> StageUnspecified then Err V1UsesNewFields
      else case outcome of
          OutputFinalizationFailed \<Rightarrow> Err V1UsesNewOutcome
        | OutcomeUnspecified \<Rightarrow> Err UnspecifiedOutcome
        | _ \<Rightarrow> Ok ())"

definition check_v2 :: "'r attempt_report_scheme \<Rightarrow> attempt_outcome \<Rightarrow> exit_observation_kind \<Rightarrow>
    finalization_failure_stage_kind \<Rightarrow> report_rule_error + unit" where
  "check_v2 r outcome obs stage =
     (if obs = ExitUnspecified then Err V2MissingExitObservation
      else if ar_exit_code r \<noteq> 0 \<and> obs \<noteq> ObservedWithCode then Err ExitCodeWithoutObservedCode
      else let allowed = (case outcome of
            Completed \<Rightarrow> obs = ObservedWithCode \<and> ar_exit_code r = 0 \<and> stage = StageUnspecified
          | StaleCompleted \<Rightarrow> obs = ObservedWithCode \<and> ar_exit_code r = 0 \<and> stage = StageUnspecified
          | OutputFinalizationFailed \<Rightarrow> obs = ObservedWithCode \<and> ar_exit_code r = 0 \<and> stage \<noteq> StageUnspecified
          | Failed \<Rightarrow> True
          | Interrupted \<Rightarrow> True
          | Cancelled \<Rightarrow> True
          | OutcomeUnspecified \<Rightarrow> False)
        in if allowed then Ok ()
           else Err (CombinationRejected (ar_outcome r) (ar_exit_observation r) (ar_exit_code r)
             (ar_finalization_failure_stage r)))"

definition validate_attempt_report_semantics :: "'r attempt_report_scheme \<Rightarrow> report_rule_error + unit" where
  "validate_attempt_report_semantics r =
     and_then (ok_or (attempt_outcome_try_from (ar_outcome r)) (UnknownOutcome (ar_outcome r))) (\<lambda>outcome.
     and_then (ok_or (exit_observation_try_from (ar_exit_observation r))
         (UnknownExitObservation (ar_exit_observation r))) (\<lambda>obs.
     and_then (ok_or (finalization_stage_try_from (ar_finalization_failure_stage r))
         (UnknownFinalizationStage (ar_finalization_failure_stage r))) (\<lambda>stage.
     if outcome = OutcomeUnspecified then Err UnspecifiedOutcome
     else if ar_schema_version r = 1 then check_v1 r outcome obs stage
     else if ar_schema_version r = ATTEMPT_REPORT_MAX_SCHEMA_VERSION then check_v2 r outcome obs stage
     else Err (UnsupportedSchemaVersion (ar_schema_version r)))))"

section \<open>Continuity\<close>

lemma checked_add_one: "checked_add (a :: u64) 1 = Some b \<longleftrightarrow> unat b = unat a + 1"
  using unsigned_less [of b, where 'a = nat]
  by (auto simp: checked_add_def word_unat_eq_iff unat_word_ariths)

lemma compare_cursors_None:
  "compare_cursors p c = None \<longleftrightarrow> cu_term c = cu_term p \<and> unat (cu_index c) = unat (cu_index p) + 1"
  by (auto simp: compare_cursors_def ord_cmp_def checked_add_one word_less_nat_alt split: ordering.splits if_splits)

text \<open>What an unbroken stream looks like, by position: every message is an event, its term is the
  term of the accepted cursor, and its index is the next one, as a natural number.\<close>

definition continues :: "cursor \<Rightarrow> 'e watch_event list \<Rightarrow> bool" where
  "continues p events \<longleftrightarrow>
     (\<forall>i < length events. (\<exists>k. we_kind (events ! i) = Some (KindEvent k)) \<and>
        (\<exists>c. we_cursor (events ! i) = Some c \<and> cu_term c = cu_term p \<and>
           unat (cu_index c) = unat (cu_index p) + i + 1))"

lemma continues_Nil [simp]: "continues p []"
  by (simp add: continues_def)

lemma continues_Cons:
  "continues p (e # es) \<longleftrightarrow>
     (\<exists>k c. we_kind e = Some (KindEvent k) \<and> we_cursor e = Some c \<and> compare_cursors p c = None \<and> continues c es)"
  by (fastforce simp: continues_def compare_cursors_None All_less_Suc2)

lemma watch_loop_continuous:
  "watch_loop (Some p) events = Continuous acc \<longleftrightarrow>
     continues p events \<and> acc = (if events = [] then Some p else we_cursor (last events))"
proof (induction events arbitrary: p)
  case (Cons e es)
  then show ?case
    by (cases "we_kind e"; cases "we_cursor e")
       (auto simp: continues_Cons split: watch_kind.splits option.splits)
qed auto

lemma continues_no_reset: "continues p events \<Longrightarrow> e \<in> set events \<Longrightarrow> \<not> is_reset e"
  by (auto simp: continues_def is_reset_def in_set_conv_nth split: option.splits watch_kind.splits)

text \<open>C32: A subscriber keeps a stream exactly when it misses nothing: starting from an accepted
  cursor, a batch is continuous if and only if its messages are events with the same term and the
  indices that follow one by one, counted without wrap-around (so no batch is continuous past the
  largest 64-bit index); the accepted cursor is then the last one received. In every other case
  the outcome is a resynchronisation.\<close>

theorem watch_continuity_exact:
  "evaluate_watch_continuity (Some p) events = Continuous acc \<longleftrightarrow>
     continues p events \<and> acc = (if events = [] then Some p else we_cursor (last events))"
  unfolding evaluate_watch_continuity_def
  by (auto simp: watch_loop_continuous dest: continues_no_reset)

text \<open>Evaluating two batches one after the other is evaluating their concatenation.\<close>

lemma watch_loop_append:
  "watch_loop acc (xs @ ys) =
     (case watch_loop acc xs of Continuous acc' \<Rightarrow> watch_loop acc' ys | Resynchronize r \<Rightarrow> Resynchronize r)"
  by (induction acc xs rule: watch_loop.induct) (auto split: option.splits watch_kind.splits)

section \<open>The table of attempt reports\<close>

text \<open>The field rules of an attempt report accept exactly the combinations of the documented
  table. Version 1 carries one of the five old outcomes and none of the new fields. Version 2
  carries an exit observation, an exit code other than zero only where the code was observed, no
  failed stage with a completed outcome and a failed stage with a finalization failure, both of
  them with an observed exit code of zero. No other version and no unknown value passes.\<close>

theorem attempt_report_table:
  "validate_attempt_report_semantics r = Ok () \<longleftrightarrow>
     (ar_schema_version r = 1 \<and> ar_outcome r \<in> {1..5} \<and> ar_exit_observation r = 0 \<and> ar_exit_code r = 0 \<and>
        ar_finalization_failure_stage r = 0) \<or>
     (ar_schema_version r = 2 \<and> ar_exit_observation r \<in> {1..3} \<and> ar_finalization_failure_stage r \<in> {0..3} \<and>
        (ar_exit_code r = 0 \<or> ar_exit_observation r = 2) \<and>
        (ar_outcome r \<in> {1, 5} \<and> ar_exit_observation r = 2 \<and> ar_exit_code r = 0 \<and> ar_finalization_failure_stage r = 0 \<or>
         ar_outcome r = 6 \<and> ar_exit_observation r = 2 \<and> ar_exit_code r = 0 \<and> ar_finalization_failure_stage r \<noteq> 0 \<or>
         ar_outcome r \<in> {2, 3, 4}))"
  by (auto simp: validate_attempt_report_semantics_def result_ok attempt_outcome_try_from_def
      exit_observation_try_from_def finalization_stage_try_from_def check_v1_def check_v2_def
      ATTEMPT_REPORT_MAX_SCHEMA_VERSION_def Let_def split: if_splits)

end
