(* ===== verification/Attempt_Reports.thy ===== *)
theory Attempt_Reports
  imports Failover Protocol_Rules
begin

text \<open>
  The end of an attempt: \<open>src/crates/coordinator/src/attempt_report_store.rs\<close> stores the first
  verified terminal report of an attempt, moves the attempt and its job to their final states and,
  on request, releases the reservation of the node
  (\<open>src/crates/coordinator/src/reservation_release.rs\<close>) and records a preemption, all in one
  transaction.

  A \<open>Verified\<close> report is a report and the signer it was verified for. The protobuf codec and
  BLAKE3 are the parameter \<open>report_api\<close>. The error texts of the source are replaced by the errors
  they were formatted from; the lines for the log keep what they name.
\<close>

section \<open>Data\<close>

record 'r report_api =
  ri_encode :: "'r attempt_report_scheme \<Rightarrow> bytes"
  ri_decode :: "bytes \<Rightarrow> 'r attempt_report_scheme option"
  ri_hash :: "bytes \<Rightarrow> bytes"

datatype report_binding_source = CurrentReservation | AssignmentRecord

fun binding_source_as_str :: "report_binding_source \<Rightarrow> string" where
  "binding_source_as_str CurrentReservation = ''current_reservation''"
| "binding_source_as_str AssignmentRecord = ''assignment_record''"

definition binding_source_parse :: "string \<Rightarrow> report_binding_source option" where
  "binding_source_parse t =
     (if t = ''current_reservation'' then Some CurrentReservation
      else if t = ''assignment_record'' then Some AssignmentRecord else None)"

record 'r report_binding =
  rb_report :: "'r attempt_report_scheme"
  rb_report_hash :: bytes
  rb_signer_id :: str
  rb_job_id :: str
  rb_attempt_id :: str
  rb_node_id :: str
  rb_fence_epoch :: u64
  rb_via :: report_binding_source

datatype binding_field =
    FieldJobId | FieldAttemptId | FieldNodeId | FieldSignerId | FieldFenceEpoch
  | FieldReservationJobId | FieldReservationAttemptId | FieldReservationNodeId

datatype report_corruption =
    RcEmptyBody | RcUndecodableBody | RcHashEncoding | RcHashMismatch | RcJobIdMismatch
  | RcAttemptIdMismatch | RcNodeIdMismatch | RcSignerIdMismatch | RcFenceEpochEncoding
  | RcFenceEpochMismatch | RcInvalidOutcome | RcReportRule | RcMissingAttempt | RcBindingSource

datatype release_corruption =
    RlFenceEpochEncoding | RlReleasedAtEncoding | RlHashEncoding | RlGpuOrdinalGap | RlBlankGpuId | RlUnsortedGpuIds

datatype runtime_stop_proof = ProvenByCaller | ObservedExitInSignedReport | NotProvenYet

datatype key_directory_provenance = AuthoritativeDirectoryVerifiedByCaller | KeyDirectoryUnverified

datatype artifact_durability_guard = SatisfiedByCaller | NotSatisfiedYet | NotApplicableNonCompleted

record release_authorization =
  au_runtime_stop :: runtime_stop_proof
  au_key_directory :: key_directory_provenance
  au_artifact_durability :: artifact_durability_guard

record stored_reservation_release =
  rs_attempt :: str
  rs_node :: str
  rs_job :: str
  rs_epoch :: u64
  rs_report_hash :: bytes
  rs_released_at_unix_ms :: u64
  rs_released_gpu_ids :: "str list"

datatype release_outcome = Released stored_reservation_release | AlreadyReleased stored_reservation_release

datatype report_store_error =
    ReportInvalidInput string
  | ReportInvalidOutcome int
  | ReportRule report_rule_error
  | ReportAttemptNotFound str
  | ReportReservationNotFound str
  | BindingMismatch binding_field
  | AttemptStateUnreachable attempt_state attempt_state
  | ReportConflict str str
  | ReportCorrupt str str report_corruption
  | ReportStaging report_cause
  | ReportIo
  | ReportLockTimeout
and report_cause =
    CauseStaging staging_store_error
  | CauseJob job_store_error
  | CauseRelease reservation_release_error
  | CauseFailover failover_error
and reservation_release_error =
    ReleaseInvalidInput string
  | NotTerminalOutcome int
  | ReleaseReportRule report_rule_error
  | RuntimeStopNotProven
  | KeyDirectoryNotVerified
  | ArtifactDurabilityNotSatisfied
  | ArtifactGuardMarkedNotApplicableForCompleted
  | NoTerminalEvidence str str
  | EvidenceMismatch str str
  | ReleaseReservationNotFound str
  | ReservationBelongsToAnotherAttempt str str
  | ReservationJobMismatch str str str
  | ReleaseConflict str
  | ReleaseCorrupt str release_corruption
  | Evidence report_store_error
  | ReleaseStorage

datatype report_note =
    ReservationReleasedNote str str
  | OwnerPreemptedNote str "u64 option"

record 'r store_report_result =
  sr_binding :: "'r report_binding"
  sr_created :: bool
  sr_notes :: "report_note list"

record owner_preempt_request =
  op_policy :: failover_policy
  op_now_unix_ms :: u64

type_synonym ('m, 'a) report_tx = "'m control_db_scheme \<Rightarrow> (report_store_error + 'a) \<times> 'm control_db_scheme"
type_synonym ('m, 'a) release_tx = "'m control_db_scheme \<Rightarrow> (reservation_release_error + 'a) \<times> 'm control_db_scheme"

definition report_map_sql_error :: "sql_error \<Rightarrow> report_store_error" where
  "report_map_sql_error e = (case e of SqliteBusyOrLocked \<Rightarrow> ReportLockTimeout | SqliteOther \<Rightarrow> ReportIo)"

definition release_map_sql_error :: "sql_error \<Rightarrow> reservation_release_error" where
  "release_map_sql_error e = ReleaseStorage"

abbreviation report_map_staging_error :: "staging_store_error \<Rightarrow> report_store_error" where
  "report_map_staging_error e \<equiv> ReportStaging (CauseStaging e)"

definition release_map_staging_error :: "staging_store_error \<Rightarrow> reservation_release_error" where
  "release_map_staging_error e = ReleaseStorage"

definition report_decode_u64 :: "bytes \<Rightarrow> u64 option" where
  "report_decode_u64 bs = (if length bs = 8 then Some (from_be_bytes_u64 bs) else None)"

section \<open>What a report says\<close>

definition validate_terminal_outcome :: "int \<Rightarrow> report_store_error + unit" where
  "validate_terminal_outcome outcome =
     (case attempt_outcome_try_from outcome of
        Some o' \<Rightarrow> if o' = OutcomeUnspecified then Err (ReportInvalidOutcome outcome) else Ok ()
      | None \<Rightarrow> Err (ReportInvalidOutcome outcome))"

definition is_terminal_outcome :: "int \<Rightarrow> bool" where
  "is_terminal_outcome outcome = (case validate_terminal_outcome outcome of Inr _ \<Rightarrow> True | Inl _ \<Rightarrow> False)"

definition validate_report_input :: "'r attempt_report_scheme \<Rightarrow> report_store_error + unit" where
  "validate_report_input report =
     and_then (reject_if (is_blank (ar_job_id report)) (ReportInvalidInput ''job_id'')) (\<lambda>_.
     and_then (reject_if (is_blank (ar_attempt_id report)) (ReportInvalidInput ''attempt_id'')) (\<lambda>_.
     and_then (reject_if (is_blank (ar_node_id report)) (ReportInvalidInput ''node_id'')) (\<lambda>_.
     and_then (validate_terminal_outcome (ar_outcome report)) (\<lambda>_.
       (case validate_attempt_report_semantics report of Inr u \<Rightarrow> Ok u | Inl e \<Rightarrow> Err (ReportRule e))))))"

definition observed_exit :: "'r attempt_report_scheme \<Rightarrow> bool" where
  "observed_exit report \<longleftrightarrow>
     exit_observation_try_from (ar_exit_observation report) \<in> {Some ObservedWithCode, Some ObservedNoCode}"

definition terminal_state_for :: "'r attempt_report_scheme \<Rightarrow> attempt_state option" where
  "terminal_state_for report =
     (case attempt_outcome_try_from (ar_outcome report) of
        Some Completed \<Rightarrow> Some AttemptCompleted
      | Some StaleCompleted \<Rightarrow> Some AttemptCompleted
      | Some Failed \<Rightarrow> Some AttemptFailed
      | Some OutputFinalizationFailed \<Rightarrow> Some AttemptFailed
      | Some Cancelled \<Rightarrow> Some AttemptCancelled
      | _ \<Rightarrow> None)"

text \<open>The first of four candidate paths that the table of attempt states allows. A failure whose
  exit nobody observed must not be given a running state, and one whose exit was observed must not be
  recorded as a failed start.\<close>

definition path_candidates :: "attempt_state \<Rightarrow> attempt_state list list" where
  "path_candidates to =
     [[to], [AttemptStarting, to], [AttemptStarting, AttemptRunning, to], [AttemptRunning, to]]"

definition path_admitted :: "attempt_state \<Rightarrow> attempt_state \<Rightarrow> bool \<Rightarrow> attempt_state list \<Rightarrow> bool" where
  "path_admitted from to observed path \<longleftrightarrow>
     \<not> (\<not> observed \<and> to = AttemptFailed \<and> AttemptRunning \<in> set path) \<and>
     \<not> (observed \<and> to = AttemptFailed \<and> from \<noteq> AttemptRunning \<and> AttemptRunning \<notin> set path)"

definition path_reaches :: "attempt_state \<Rightarrow> attempt_state \<Rightarrow> attempt_state list \<Rightarrow> bool" where
  "path_reaches from to path \<longleftrightarrow> for_each (\<lambda>step current. attempt_transition current step) path from = Ok to"

definition normative_path :: "attempt_state \<Rightarrow> attempt_state \<Rightarrow> bool \<Rightarrow> attempt_state list option" where
  "normative_path from to observed =
     find (\<lambda>path. path_admitted from to observed path \<and> path_reaches from to path) (path_candidates to)"

section \<open>Binding a report\<close>

definition bind_attempt :: "'r attempt_report_scheme \<Rightarrow> str \<Rightarrow> stored_attempt \<Rightarrow> report_store_error + unit" where
  "bind_attempt report signer_id attempt =
     and_then (reject_if (ar_job_id report \<noteq> sa_job_id attempt) (BindingMismatch FieldJobId)) (\<lambda>_.
     and_then (reject_if (ar_attempt_id report \<noteq> sa_attempt_id attempt) (BindingMismatch FieldAttemptId)) (\<lambda>_.
     and_then (reject_if (sa_node_ids attempt \<noteq> [ar_node_id report]) (BindingMismatch FieldNodeId)) (\<lambda>_.
     and_then (reject_if (signer_id \<noteq> ar_node_id report \<or> signer_id \<noteq> hd (sa_node_ids attempt))
         (BindingMismatch FieldSignerId)) (\<lambda>_.
       reject_if (ar_fence_epoch report \<noteq> sa_fence_epoch attempt) (BindingMismatch FieldFenceEpoch)))))"

definition bind_reservation :: "'r attempt_report_scheme \<Rightarrow> stored_node_reservation \<Rightarrow> report_store_error + unit" where
  "bind_reservation report reservation =
     and_then (reject_if (ar_job_id report \<noteq> nr_job_id reservation) (BindingMismatch FieldReservationJobId)) (\<lambda>_.
     and_then (reject_if (ar_attempt_id report \<noteq> nr_attempt_id reservation) (BindingMismatch FieldReservationAttemptId)) (\<lambda>_.
       reject_if (ar_node_id report \<noteq> nr_node_id reservation) (BindingMismatch FieldReservationNodeId)))"

text \<open>Reading a stored report checks everything again: the hash of the body, the field rules, the
  columns and the attempt.\<close>

definition check_report_row ::
    "'r report_api \<Rightarrow> str \<Rightarrow> str \<Rightarrow> raw_report_row \<Rightarrow> report_store_error + 'r attempt_report_scheme \<times> u64" where
  "check_report_row api attempt_id node_id row =
     (let corrupt = ReportCorrupt attempt_id node_id; body = rw_report_body row in
      and_then (reject_if (body = []) (corrupt RcEmptyBody)) (\<lambda>_.
      and_then (reject_if (length (rw_report_hash row) \<noteq> 32) (corrupt RcHashEncoding)) (\<lambda>_.
      and_then (reject_if (ri_hash api body \<noteq> rw_report_hash row) (corrupt RcHashMismatch)) (\<lambda>_.
      and_then (ok_or (ri_decode api body) (corrupt RcUndecodableBody)) (\<lambda>report.
      and_then (reject_if (\<not> is_terminal_outcome (ar_outcome report)) (corrupt RcInvalidOutcome)) (\<lambda>_.
      and_then (case validate_attempt_report_semantics report of Inr u \<Rightarrow> Ok u | Inl _ \<Rightarrow> Err (corrupt RcReportRule)) (\<lambda>_.
      and_then (reject_if (ar_job_id report \<noteq> rw_job_id row) (corrupt RcJobIdMismatch)) (\<lambda>_.
      and_then (reject_if (ar_attempt_id report \<noteq> attempt_id) (corrupt RcAttemptIdMismatch)) (\<lambda>_.
      and_then (reject_if (ar_node_id report \<noteq> node_id) (corrupt RcNodeIdMismatch)) (\<lambda>_.
      and_then (reject_if (rw_signer_id row \<noteq> node_id \<or> rw_signer_id row \<noteq> ar_node_id report)
          (corrupt RcSignerIdMismatch)) (\<lambda>_.
      and_then (ok_or (report_decode_u64 (rw_fence_epoch row)) (corrupt RcFenceEpochEncoding)) (\<lambda>epoch.
      and_then (reject_if (ar_fence_epoch report \<noteq> epoch) (corrupt RcFenceEpochMismatch)) (\<lambda>_.
        Ok (report, epoch))))))))))))))"

definition fetch_report_binding :: "'r report_api \<Rightarrow> str \<Rightarrow> str \<Rightarrow> ('m, 'r report_binding option) report_tx" where
  "fetch_report_binding api attempt_id node_id =
     tx_bind (statement report_map_sql_error (\<lambda>db. (hm_get (cd_reports db) (attempt_id, node_id), db))) (\<lambda>raw.
     case raw of
       None \<Rightarrow> tx_return None
     | Some row \<Rightarrow>
         (let corrupt = ReportCorrupt attempt_id node_id in
          tx_bind (lift_result (check_report_row api attempt_id node_id row)) (\<lambda>(report, epoch).
          tx_bind (tx_map_err report_map_staging_error (fetch_attempt attempt_id)) (\<lambda>found.
          tx_bind (lift_result (ok_or found (corrupt RcMissingAttempt))) (\<lambda>attempt.
          tx_bind (lift_result (reject_if (sa_job_id attempt \<noteq> rw_job_id row) (corrupt RcJobIdMismatch))) (\<lambda>_.
          tx_bind (lift_result (reject_if (sa_node_ids attempt \<noteq> [node_id]) (corrupt RcNodeIdMismatch))) (\<lambda>_.
          tx_bind (lift_result (reject_if (sa_fence_epoch attempt \<noteq> epoch) (corrupt RcFenceEpochMismatch))) (\<lambda>_.
          tx_bind (lift_result (ok_or (binding_source_parse (rw_bound_via row)) (corrupt RcBindingSource))) (\<lambda>via.
            tx_return (Some \<lparr>rb_report = report, rb_report_hash = rw_report_hash row, rb_signer_id = rw_signer_id row,
              rb_job_id = rw_job_id row, rb_attempt_id = attempt_id, rb_node_id = node_id,
              rb_fence_epoch = epoch, rb_via = via\<rparr>))))))))))"

section \<open>Releasing a reservation (\<open>reservation_release.rs\<close>)\<close>

definition check_authorization :: "release_authorization \<Rightarrow> reservation_release_error + unit" where
  "check_authorization au =
     and_then (reject_if (au_runtime_stop au = NotProvenYet) RuntimeStopNotProven) (\<lambda>_.
       reject_if (au_key_directory au = KeyDirectoryUnverified) KeyDirectoryNotVerified)"

definition check_observed_exit :: "'r attempt_report_scheme \<Rightarrow> runtime_stop_proof \<Rightarrow> reservation_release_error + unit" where
  "check_observed_exit report proof_of_stop =
     (if proof_of_stop \<noteq> ObservedExitInSignedReport then Ok ()
      else reject_if (\<not> observed_exit report) RuntimeStopNotProven)"

definition check_artifact_guard :: "int \<Rightarrow> artifact_durability_guard \<Rightarrow> reservation_release_error + unit" where
  "check_artifact_guard outcome guard =
     (if outcome = 1 \<or> outcome = 5 then
        (case guard of
           SatisfiedByCaller \<Rightarrow> Ok ()
         | NotSatisfiedYet \<Rightarrow> Err ArtifactDurabilityNotSatisfied
         | NotApplicableNonCompleted \<Rightarrow> Err ArtifactGuardMarkedNotApplicableForCompleted)
      else Ok ())"

definition release_validate_input :: "'r attempt_report_scheme \<Rightarrow> reservation_release_error + unit" where
  "release_validate_input report =
     and_then (reject_if (is_blank (ar_job_id report)) (ReleaseInvalidInput ''job_id'')) (\<lambda>_.
     and_then (reject_if (is_blank (ar_attempt_id report)) (ReleaseInvalidInput ''attempt_id'')) (\<lambda>_.
     and_then (reject_if (is_blank (ar_node_id report)) (ReleaseInvalidInput ''node_id'')) (\<lambda>_.
     and_then (reject_if (\<not> is_terminal_outcome (ar_outcome report)) (NotTerminalOutcome (ar_outcome report))) (\<lambda>_.
       (case validate_attempt_report_semantics report of Inr u \<Rightarrow> Ok u | Inl e \<Rightarrow> Err (ReleaseReportRule e))))))"

definition check_reservation_owner ::
    "'r attempt_report_scheme \<Rightarrow> stored_node_reservation \<Rightarrow> reservation_release_error + unit" where
  "check_reservation_owner report reservation =
     and_then (reject_if (nr_attempt_id reservation \<noteq> ar_attempt_id report)
       (ReservationBelongsToAnotherAttempt (ar_node_id report) (nr_attempt_id reservation))) (\<lambda>_.
       reject_if (nr_job_id reservation \<noteq> ar_job_id report)
         (ReservationJobMismatch (ar_node_id report) (nr_job_id reservation) (ar_job_id report)))"

text \<open>The rows are read in the order of their ordinals; \<open>previous\<close> is the last one taken.\<close>

fun check_released_gpus :: "str \<Rightarrow> int \<Rightarrow> str option \<Rightarrow> (int \<times> str) list \<Rightarrow> reservation_release_error + str list" where
  "check_released_gpus attempt_id index previous [] = Ok []"
| "check_released_gpus attempt_id index previous ((ordinal, gpu_id) # rows) =
     (let corrupt = ReleaseCorrupt attempt_id in
      and_then (reject_if (ordinal \<noteq> index) (corrupt RlGpuOrdinalGap)) (\<lambda>_.
      and_then (reject_if (is_blank gpu_id) (corrupt RlBlankGpuId)) (\<lambda>_.
      and_then (reject_if (case previous of Some p \<Rightarrow> gpu_id \<le> p | None \<Rightarrow> False) (corrupt RlUnsortedGpuIds)) (\<lambda>_.
      and_then (check_released_gpus attempt_id (index + 1) (Some gpu_id) rows) (\<lambda>gpus. Ok (gpu_id # gpus))))))"

definition fetch_released_gpu_ids :: "str \<Rightarrow> ('m, str list) release_tx" where
  "fetch_released_gpu_ids attempt_id =
     tx_bind (statement release_map_sql_error (\<lambda>db.
       (map snd (sort_key (\<lambda>e. fst (snd e)) (filter (\<lambda>e. fst e = attempt_id) (cd_release_gpus db))), db))) (\<lambda>rows.
       lift_result (check_released_gpus attempt_id 0 None rows))"

definition fetch_release :: "str \<Rightarrow> ('m, stored_reservation_release option) release_tx" where
  "fetch_release attempt_id =
     tx_bind (statement release_map_sql_error (\<lambda>db. (hm_get (cd_releases db) attempt_id, db))) (\<lambda>raw.
     case raw of
       None \<Rightarrow> tx_return None
     | Some row \<Rightarrow>
         (let corrupt = ReleaseCorrupt attempt_id in
          tx_bind (lift_result (ok_or (report_decode_u64 (rx_fence_epoch row)) (corrupt RlFenceEpochEncoding))) (\<lambda>epoch.
          tx_bind (lift_result (ok_or (report_decode_u64 (rx_released_at_unix_ms row)) (corrupt RlReleasedAtEncoding))) (\<lambda>released_at.
          tx_bind (lift_result (reject_if (length (rx_report_hash row) \<noteq> 32) (corrupt RlHashEncoding))) (\<lambda>_.
          tx_bind (fetch_released_gpu_ids attempt_id) (\<lambda>gpus.
            tx_return (Some \<lparr>rs_attempt = attempt_id, rs_node = rx_node_id row, rs_job = rx_job_id row, rs_epoch = epoch,
              rs_report_hash = rx_report_hash row, rs_released_at_unix_ms = released_at,
              rs_released_gpu_ids = gpus\<rparr>)))))))"

fun insert_release_gpus :: "str \<Rightarrow> int \<Rightarrow> str list \<Rightarrow> ('m, unit) release_tx" where
  "insert_release_gpus attempt_id ordinal [] = tx_return ()"
| "insert_release_gpus attempt_id ordinal (gpu_id # gpus) =
     tx_bind (statement_result release_map_sql_error (\<lambda>db.
       if ordinal < 0 \<or> \<not> hm_contains_key (cd_releases db) attempt_id \<or>
          (\<exists>e \<in> set (cd_release_gpus db). fst e = attempt_id \<and> (fst (snd e) = ordinal \<or> snd (snd e) = gpu_id))
       then (Err ReleaseStorage, db)
       else (Ok (), db\<lparr>cd_release_gpus := cd_release_gpus db @ [(attempt_id, ordinal, gpu_id)]\<rparr>))) (\<lambda>_.
     insert_release_gpus attempt_id (ordinal + 1) gpus)"

definition release_writes ::
    "'r attempt_report_scheme \<Rightarrow> bytes \<Rightarrow> u64 \<Rightarrow> stored_node_reservation \<Rightarrow> ('m, stored_reservation_release) release_tx" where
  "release_writes report report_hash released_at reservation =
     (let node_id = ar_node_id report; attempt_id = ar_attempt_id report; gpus = nr_selected_gpu_ids reservation in
      tx_bind (statement release_map_sql_error (\<lambda>db. ((), db\<lparr>sd_reservation_gpus :=
        filter (\<lambda>e. fst e \<noteq> node_id) (sd_reservation_gpus db)\<rparr>))) (\<lambda>_.
      tx_bind (statement release_map_sql_error (\<lambda>db.
        case hm_get (sd_reservations db) node_id of
          Some r \<Rightarrow>
            if rv_attempt_id r = attempt_id
            then (1 :: nat, db\<lparr>sd_reservations := hm_remove node_id (sd_reservations db)\<rparr>) else (0, db)
        | None \<Rightarrow> (0, db))) (\<lambda>removed.
      tx_bind (lift_result (reject_if (removed \<noteq> 1) ReleaseStorage)) (\<lambda>_.
      tx_bind (statement_result release_map_sql_error (\<lambda>db.
        if hm_contains_key (cd_releases db) attempt_id \<or> \<not> hm_contains_key (jd_attempts db) attempt_id \<or>
           length report_hash \<noteq> 32
        then (Err ReleaseStorage, db)
        else (Ok (), db\<lparr>cd_releases := hm_insert attempt_id
          \<lparr>rx_node_id = node_id, rx_job_id = ar_job_id report, rx_fence_epoch = encode_u64 (ar_fence_epoch report),
           rx_report_hash = report_hash, rx_released_at_unix_ms = encode_u64 released_at\<rparr> (cd_releases db)\<rparr>))) (\<lambda>_.
      tx_bind (insert_release_gpus attempt_id 0 gpus) (\<lambda>_.
        tx_return \<lparr>rs_attempt = attempt_id, rs_node = node_id, rs_job = ar_job_id report,
          rs_epoch = ar_fence_epoch report, rs_report_hash = report_hash,
          rs_released_at_unix_ms = released_at, rs_released_gpu_ids = gpus\<rparr>))))))"

definition same_release :: "stored_reservation_release \<Rightarrow> 'r attempt_report_scheme \<Rightarrow> bytes \<Rightarrow> bool" where
  "same_release existing report report_hash \<longleftrightarrow>
     rs_node existing = ar_node_id report \<and> rs_job existing = ar_job_id report \<and>
     rs_epoch existing = ar_fence_epoch report \<and> rs_report_hash existing = report_hash"

definition release_checks ::
    "release_authorization \<Rightarrow> 'r attempt_report_scheme \<Rightarrow> reservation_release_error + unit" where
  "release_checks au report =
     and_then (check_authorization au) (\<lambda>_.
     and_then (release_validate_input report) (\<lambda>_.
     and_then (check_artifact_guard (ar_outcome report) (au_artifact_durability au)) (\<lambda>_.
       check_observed_exit report (au_runtime_stop au))))"

definition release_with_evidence ::
    "'r report_api \<Rightarrow> 'r attempt_report_scheme \<Rightarrow> str \<Rightarrow> u64 \<Rightarrow> ('m, release_outcome) release_tx" where
  "release_with_evidence api report signer_id released_at =
     (let report_hash = ri_hash api (ri_encode api report) in
      tx_bind (fetch_release (ar_attempt_id report)) (\<lambda>found.
      case found of
        Some existing \<Rightarrow>
          if \<not> same_release existing report report_hash then tx_fail (ReleaseConflict (ar_attempt_id report))
          else tx_return (AlreadyReleased existing)
      | None \<Rightarrow>
          tx_bind (tx_map_err Evidence (fetch_report_binding api (ar_attempt_id report) (ar_node_id report))) (\<lambda>found.
          tx_bind (lift_result (ok_or found (NoTerminalEvidence (ar_attempt_id report) (ar_node_id report)))) (\<lambda>binding.
          tx_bind (lift_result (reject_if (rb_report_hash binding \<noteq> report_hash \<or> rb_report binding \<noteq> report \<or>
              rb_signer_id binding \<noteq> signer_id)
            (EvidenceMismatch (ar_attempt_id report) (ar_node_id report)))) (\<lambda>_.
          tx_bind (tx_map_err release_map_staging_error (fetch_node_reservation (ar_node_id report))) (\<lambda>found.
          tx_bind (lift_result (ok_or found (ReleaseReservationNotFound (ar_node_id report)))) (\<lambda>reservation.
          tx_bind (lift_result (check_reservation_owner report reservation)) (\<lambda>_.
          tx_bind (release_writes report report_hash released_at reservation) (\<lambda>released.
            tx_return (Released released))))))))))"

definition release_within_transaction ::
    "'r report_api \<Rightarrow> 'r attempt_report_scheme \<Rightarrow> str \<Rightarrow> release_authorization \<Rightarrow> u64 \<Rightarrow> ('m, release_outcome) release_tx" where
  "release_within_transaction api report signer_id au released_at =
     tx_bind (lift_result (release_checks au report)) (\<lambda>_. release_with_evidence api report signer_id released_at)"

definition release_for_verified_terminal_report ::
    "'r report_api \<Rightarrow> 'r attempt_report_scheme \<Rightarrow> str \<Rightarrow> release_authorization \<Rightarrow> u64 \<Rightarrow> ('m, release_outcome) release_tx" where
  "release_for_verified_terminal_report api report signer_id au released_at =
     tx_bind (lift_result (release_checks au report)) (\<lambda>_.
       in_transaction release_map_sql_error (release_with_evidence api report signer_id released_at))"

section \<open>Storing a report (\<open>attempt_report_store.rs\<close>)\<close>

definition after_report ::
    "'r report_api \<Rightarrow> 'ckpt resume_api \<Rightarrow> 'r attempt_report_scheme \<Rightarrow> str \<Rightarrow> (release_authorization \<times> u64) option \<Rightarrow>
     owner_preempt_request option \<Rightarrow> ('m, report_note list) report_tx" where
  "after_report api resume report signer_id release preempt =
     tx_bind (case release of
         None \<Rightarrow> tx_return []
       | Some (au, released_at) \<Rightarrow>
           tx_bind (tx_map_err (ReportStaging \<circ> CauseRelease)
             (release_within_transaction api report signer_id au released_at)) (\<lambda>_.
             tx_return [ReservationReleasedNote (ar_node_id report) (ar_attempt_id report)])) (\<lambda>notes.
     case preempt of
       None \<Rightarrow> tx_return notes
     | Some request \<Rightarrow>
         if ar_outcome report \<noteq> 3 then tx_return notes
         else
           tx_bind (tx_map_err (ReportStaging \<circ> CauseFailover)
             (pause_for_owner_preempt_within resume (op_policy request) (ar_job_id report) (ar_attempt_id report)
               (ar_node_id report) (op_now_unix_ms request))) (\<lambda>line.
             tx_return (notes @ (case line of Some step \<Rightarrow> [OwnerPreemptedNote (ar_job_id report) step] | None \<Rightarrow> []))))"

definition insert_report ::
    "'r report_api \<Rightarrow> 'r attempt_report_scheme \<Rightarrow> str \<Rightarrow> report_binding_source \<Rightarrow> ('m, unit) report_tx" where
  "insert_report api report signer_id via = statement_result report_map_sql_error (\<lambda>db.
     if hm_contains_key (cd_reports db) (ar_attempt_id report, ar_node_id report) \<or>
        \<not> hm_contains_key (jd_attempts db) (ar_attempt_id report) \<or> length (ri_hash api (ri_encode api report)) \<noteq> 32
     then (Err ReportIo, db)
     else (Ok (), db\<lparr>cd_reports := hm_insert (ar_attempt_id report, ar_node_id report)
       \<lparr>rw_job_id = ar_job_id report, rw_fence_epoch = encode_u64 (ar_fence_epoch report), rw_signer_id = signer_id,
        rw_report_hash = ri_hash api (ri_encode api report), rw_report_body = ri_encode api report,
        rw_bound_via = binding_source_as_str via\<rparr> (cd_reports db)\<rparr>))"

text \<open>The attempt goes to its final state along a normative path, and the job follows it.\<close>

definition finish_attempt :: "'r attempt_report_scheme \<Rightarrow> stored_attempt \<Rightarrow> ('m, unit) report_tx" where
  "finish_attempt report attempt =
     (case terminal_state_for report of
        None \<Rightarrow> tx_return ()
      | Some target \<Rightarrow>
          tx_bind (if sa_state attempt = target then tx_return ()
             else (case normative_path (sa_state attempt) target (observed_exit report) of
                 None \<Rightarrow> tx_fail (AttemptStateUnreachable (sa_state attempt) target)
               | Some path \<Rightarrow> tx_map_err report_map_staging_error
                   (transition_attempt_state_along (ar_attempt_id report) (sa_state attempt) path))) (\<lambda>_.
          let attempt_ran = (sa_state attempt = AttemptRunning \<or>
             (case normative_path AttemptCreated target (observed_exit report) of
                Some path \<Rightarrow> AttemptRunning \<in> set path | None \<Rightarrow> False)) in
          tx_bind (tx_map_err (ReportStaging \<circ> CauseJob)
            (follow_attempt_terminal (ar_job_id report) (ar_attempt_id report) target attempt_ran
              (ar_finished_at_unix_ms report))) (\<lambda>_. tx_return ())))"

definition bind_report :: "'r attempt_report_scheme \<Rightarrow> str \<Rightarrow> ('m, stored_attempt \<times> report_binding_source) report_tx" where
  "bind_report report signer_id =
     tx_bind (tx_map_err report_map_staging_error (fetch_attempt (ar_attempt_id report))) (\<lambda>found.
     tx_bind (lift_result (ok_or found (ReportAttemptNotFound (ar_attempt_id report)))) (\<lambda>attempt.
     tx_bind (lift_result (bind_attempt report signer_id attempt)) (\<lambda>_.
     tx_bind (tx_map_err report_map_staging_error (fetch_node_reservation (ar_node_id report))) (\<lambda>reservation.
     case reservation of
       Some res \<Rightarrow>
         if nr_attempt_id res = ar_attempt_id report
         then tx_bind (lift_result (bind_reservation report res)) (\<lambda>_. tx_return (attempt, CurrentReservation))
         else tx_return (attempt, AssignmentRecord)
     | None \<Rightarrow> tx_return (attempt, AssignmentRecord)))))"

definition new_binding ::
    "'r report_api \<Rightarrow> 'r attempt_report_scheme \<Rightarrow> str \<Rightarrow> report_binding_source \<Rightarrow> 'r report_binding" where
  "new_binding api report signer_id via =
     \<lparr>rb_report = report, rb_report_hash = ri_hash api (ri_encode api report), rb_signer_id = signer_id,
      rb_job_id = ar_job_id report, rb_attempt_id = ar_attempt_id report, rb_node_id = ar_node_id report,
      rb_fence_epoch = ar_fence_epoch report, rb_via = via\<rparr>"

definition store_report_body ::
    "'r report_api \<Rightarrow> 'ckpt resume_api \<Rightarrow> 'r attempt_report_scheme \<Rightarrow> str \<Rightarrow> (release_authorization \<times> u64) option \<Rightarrow>
     owner_preempt_request option \<Rightarrow> ('m, 'r store_report_result) report_tx" where
  "store_report_body api resume report signer_id release preempt =
     tx_bind (fetch_report_binding api (ar_attempt_id report) (ar_node_id report)) (\<lambda>found.
     case found of
       Some binding \<Rightarrow>
         if rb_report binding \<noteq> report \<or> rb_signer_id binding \<noteq> signer_id
         then tx_fail (ReportConflict (ar_attempt_id report) (ar_node_id report))
         else
           tx_bind (after_report api resume report signer_id release preempt) (\<lambda>notes.
             tx_return \<lparr>sr_binding = binding, sr_created = False, sr_notes = notes\<rparr>)
     | None \<Rightarrow>
         tx_bind (bind_report report signer_id) (\<lambda>(attempt, via).
         tx_bind (insert_report api report signer_id via) (\<lambda>_.
         tx_bind (finish_attempt report attempt) (\<lambda>_.
         tx_bind (after_report api resume report signer_id release preempt) (\<lambda>notes.
           tx_return \<lparr>sr_binding = new_binding api report signer_id via, sr_created = True, sr_notes = notes\<rparr>)))))"

definition store_verified_terminal_report ::
    "'r report_api \<Rightarrow> 'ckpt resume_api \<Rightarrow> 'r attempt_report_scheme \<Rightarrow> str \<Rightarrow> (release_authorization \<times> u64) option \<Rightarrow>
     owner_preempt_request option \<Rightarrow> ('m, 'r store_report_result) report_tx" where
  "store_verified_terminal_report api resume report signer_id release preempt =
     tx_bind (lift_result (validate_report_input report)) (\<lambda>_.
       in_transaction report_map_sql_error (store_report_body api resume report signer_id release preempt))"

section \<open>Opening the store\<close>

text \<open>Reports that were stored before the attempt followed them are caught up with when the store is
  opened. Rows that do not decode are left to the checks of a read.\<close>

fun backfill_rows :: "'r report_api \<Rightarrow> (str \<times> bytes) list \<Rightarrow> ('m, unit) report_tx" where
  "backfill_rows api [] = tx_return ()"
| "backfill_rows api ((attempt_id, body) # rows) =
     (case ri_decode api body of
        None \<Rightarrow> backfill_rows api rows
      | Some report \<Rightarrow>
          (case terminal_state_for report of
             None \<Rightarrow> backfill_rows api rows
           | Some target \<Rightarrow>
               (case normative_path AttemptCreated target (observed_exit report) of
                  None \<Rightarrow> backfill_rows api rows
                | Some path \<Rightarrow>
                    tx_bind (tx_map_err report_map_staging_error
                      (transition_attempt_state_along attempt_id AttemptCreated path)) (\<lambda>_.
                    backfill_rows api rows))))"

definition backfill_terminal_states :: "'r report_api \<Rightarrow> ('m, unit) report_tx" where
  "backfill_terminal_states api = in_transaction report_map_sql_error (
     tx_bind (statement report_map_sql_error (\<lambda>db.
       (map (\<lambda>e. (fst (fst e), rw_report_body (snd e)))
         (filter (\<lambda>e. case hm_get (jd_attempts db) (fst (fst e)) of
             Some a \<Rightarrow> ra_state a = state_to_db AttemptCreated | None \<Rightarrow> False) (cd_reports db)), db)))
       (backfill_rows api))"

text \<open>The report table is created with all its columns; the look-up of the columns is one statement.\<close>

definition open_report_store :: "'r report_api \<Rightarrow> ('m, unit) report_tx" where
  "open_report_store api =
     tx_bind (statement report_map_sql_error (\<lambda>db. ((), db))) (\<lambda>_.
     tx_bind (statement report_map_sql_error (\<lambda>db. ((), db))) (\<lambda>_.
     tx_bind (tx_map_err report_map_staging_error staging_initialize_schema) (\<lambda>_.
     tx_bind (statement report_map_sql_error (\<lambda>db. ((), db))) (\<lambda>_.
     tx_bind (statement report_map_sql_error (\<lambda>db. ((), db))) (\<lambda>_.
     tx_bind (tx_map_err (ReportStaging \<circ> CauseRelease) (statement release_map_sql_error (\<lambda>db. ((), db)))) (\<lambda>_.
       backfill_terminal_states api))))))"

definition open_release_store :: "('m, unit) release_tx" where
  "open_release_store =
     tx_bind (statement release_map_sql_error (\<lambda>db. ((), db))) (\<lambda>_.
     tx_bind (statement release_map_sql_error (\<lambda>db. ((), db))) (\<lambda>_.
     tx_bind (tx_map_err release_map_staging_error staging_initialize_schema) (\<lambda>_.
     tx_bind (tx_map_err Evidence (statement report_map_sql_error (\<lambda>db. ((), db)))) (\<lambda>_.
     tx_bind (tx_map_err Evidence (statement report_map_sql_error (\<lambda>db. ((), db)))) (\<lambda>_.
       statement release_map_sql_error (\<lambda>db. ((), db)))))))"

end
