(* ===== verification/Control_Machine.thy ===== *)
theory Control_Machine
  imports Attempt_Reports
begin

text \<open>
  The control database as a state machine. \<open>control_change\<close> lists the ways its tables change;
  every call of the job, lease and staging stores and of failover is a sequence of such changes
  (theory \<open>Control_Calls\<close>), so an invariant of the changes is an invariant of every history of
  calls.
\<close>

section \<open>The changes\<close>

definition attempt_path :: "attempt_state \<Rightarrow> attempt_state list \<Rightarrow> attempt_state \<Rightarrow> bool" where
  "attempt_path s path s' \<longleftrightarrow> for_each (\<lambda>step current. attempt_transition current step) path s = Ok s'"

inductive control_change :: "'m control_db_scheme \<Rightarrow> 'm control_db_scheme \<Rightarrow> bool" where
  tape: "control_change db (db\<lparr>db_tape := t\<rparr>)"
| jobs: "job_change (jd_jobs db) m \<Longrightarrow> control_change db (db\<lparr>jd_jobs := m\<rparr>)"
| leases: "lease_change (ld_leases db) m \<Longrightarrow> control_change db (db\<lparr>ld_leases := m\<rparr>)"
| submission: "hm_get (jd_submissions db) k = None \<Longrightarrow> hm_get (jd_jobs db) i \<noteq> None \<Longrightarrow>
    control_change db (db\<lparr>jd_submissions := hm_insert k i (jd_submissions db)\<rparr>)"
| attempt: "hm_get (jd_attempts db) i = Some r \<Longrightarrow> ra_state r = state_to_db s \<Longrightarrow> attempt_path s path s' \<Longrightarrow>
    control_change db (db\<lparr>jd_attempts := hm_insert i (r\<lparr>ra_state := state_to_db s'\<rparr>) (jd_attempts db)\<rparr>)"
| staged: "hm_get (jd_jobs db) (sq_job_id q) = Some r \<Longrightarrow> job_into_stored r = Inr j \<Longrightarrow> sj_job_id j = sq_job_id q \<Longrightarrow>
    job_step j k \<Longrightarrow> hm_get (jd_attempts db) (sq_attempt_id q) = None \<Longrightarrow>
    hm_get (ld_leases db) (sq_lease_id q) = None \<Longrightarrow> hm_get (sd_operations db) (sq_operation_key q) = None \<Longrightarrow>
    counter_at_most epoch (sd_fence_state db) \<Longrightarrow>
    \<forall>e \<in> set (ld_leases db). \<exists>v. rl_fence_epoch (snd e) = encode_u64 v \<and> v < epoch \<Longrightarrow>
    control_change db (staged_db q payload epoch k db)"
| manifest: "control_change db (db\<lparr>jd_manifests := m\<rparr>)"
| columns: "control_change db (db\<lparr>ld_columns := c, jd_columns := c'\<rparr>)"
| reservations: "control_change db (db\<lparr>sd_reservations := v, sd_reservation_gpus := g\<rparr>)"
| report: "hm_get (cd_reports db) k = None \<Longrightarrow>
    control_change db (db\<lparr>cd_reports := hm_insert k row (cd_reports db)\<rparr>)"
| released: "hm_get (cd_releases db) k = None \<Longrightarrow>
    control_change db (db\<lparr>cd_releases := hm_insert k rel (cd_releases db)\<rparr>)"
| release_gpus: "control_change db (db\<lparr>cd_release_gpus := g\<rparr>)"
| bookkeeping: "control_change db (db\<lparr>cd_operator_releases := x, cd_reclaims := y, cd_session_seen := z\<rparr>)"

abbreviation control_reach :: "'m control_db_scheme \<Rightarrow> 'm control_db_scheme \<Rightarrow> bool" where
  "control_reach \<equiv> control_change\<^sup>*\<^sup>*"

interpretation ctl: tx_relation "control_reach :: 'm control_db_scheme \<Rightarrow> 'm control_db_scheme \<Rightarrow> bool"
  by unfold_locales (auto intro: control_change.tape)

section \<open>The invariant\<close>

definition attempts_below :: "(str, raw_attempt_row) hash_map \<Rightarrow> bytes option \<Rightarrow> bool" where
  "attempts_below attempts counter \<longleftrightarrow> (\<forall>e \<in> set attempts. \<exists>v c.
     ra_fence_epoch (snd e) = encode_u64 v \<and> counter = Some (encode_u64 c) \<and> v \<le> c)"

definition control_ok :: "'m control_db_scheme \<Rightarrow> bool" where
  "control_ok db \<longleftrightarrow>
     jobs_ok (jd_jobs db) \<and> (\<forall>i r. hm_get (jd_jobs db) i = Some r \<longrightarrow> (\<exists>j. job_into_stored r = Inr j)) \<and>
     hm_invar (ld_leases db) \<and> hm_invar (jd_attempts db) \<and> hm_invar (sd_operations db) \<and>
     hm_invar (jd_submissions db) \<and> hm_invar (cd_reports db) \<and> hm_invar (cd_releases db) \<and>
     (\<forall>k i. hm_get (jd_submissions db) k = Some i \<longrightarrow> hm_get (jd_jobs db) i \<noteq> None) \<and>
     attempts_below (jd_attempts db) (sd_fence_state db)"

lemma set_hm_insert: "hm_invar m \<Longrightarrow> e \<in> set (hm_insert k v m) \<Longrightarrow> e = (k, v) \<or> e \<in> set m"
  by (induction m) (auto simp: hm_insert_def hm_invar_def split: if_splits)

text \<open>Every change of the job table inserts one row that reads back.\<close>

lemma job_change_inserts:
  assumes "job_change m m'"
  obtains j where "m' = hm_insert (sj_job_id j) (row_of j) m" "job_into_stored (row_of j) = Inr j"
  using assms
proof cases
  case (submit j s h t)
  then have "job_into_stored (row_of j) = Inr j" by (simp add: job_into_stored_row_of job_shape)
  with submit that show thesis by blast
next
  case (move j r j')
  then have "sj_job_id j' = sj_job_id j" "job_into_stored (row_of j') = Inr j'"
    by (simp_all add: job_into_stored_row_of job_step_def job_facts_def)
  with move that show thesis by metis
qed

lemma job_change_readable:
  assumes "job_change m m'" and "jobs_ok m" and "\<forall>i r. hm_get m i = Some r \<longrightarrow> (\<exists>j. job_into_stored r = Inr j)"
  shows "\<forall>i r. hm_get m' i = Some r \<longrightarrow> (\<exists>j. job_into_stored r = Inr j)"
proof -
  obtain j where "m' = hm_insert (sj_job_id j) (row_of j) m" "job_into_stored (row_of j) = Inr j"
    using assms(1) by (rule job_change_inserts)
  with assms(2,3) show ?thesis by (auto simp: jobs_ok_def hm.get_insert)
qed

lemma job_change_keeps:
  assumes "job_change m m'" and "jobs_ok m" and "hm_get m i \<noteq> None"
  shows "hm_get m' i \<noteq> None"
proof -
  obtain j where "m' = hm_insert (sj_job_id j) (row_of j) m" using assms(1) by (rule job_change_inserts)
  with assms(2,3) show ?thesis by (auto simp: jobs_ok_def hm.get_insert)
qed

lemma lease_change_invar: "lease_change m m' \<Longrightarrow> hm_invar m \<Longrightarrow> hm_invar m'"
  by (auto elim!: lease_change.cases simp: hm_invar_insert)

text \<open>The job part of a staging is a change of the job table.\<close>

lemma staged_job_change:
  assumes "hm_get (jd_jobs db) (sq_job_id q) = Some r" "job_into_stored r = Inr j" "sj_job_id j = sq_job_id q" "job_step j k"
  shows "job_change (jd_jobs db) (jd_jobs (staged_db q payload epoch k db))"
  using job_change.move [of "jd_jobs db" j r k] assms by (simp add: staged_db_def)

lemma attempts_below_insert:
  assumes "attempts_below m c" and "hm_invar m" and "counter_at_most epoch c"
    and "ra_fence_epoch r = encode_u64 epoch"
  shows "attempts_below (hm_insert i r m) (Some (encode_u64 epoch))"
  unfolding attempts_below_def
proof
  fix e assume "e \<in> set (hm_insert i r m)"
  then consider "e = (i, r)" | "e \<in> set m" using set_hm_insert [OF assms(2)] by blast
  then show "\<exists>v c. ra_fence_epoch (snd e) = encode_u64 v \<and> Some (encode_u64 epoch) = Some (encode_u64 c) \<and> v \<le> c"
  proof cases
    case 2
    then obtain v b where v: "ra_fence_epoch (snd e) = encode_u64 v" "c = Some (encode_u64 b)" "v \<le> b"
      using assms(1) by (auto simp: attempts_below_def)
    with assms(3) have "b < epoch" by (auto simp: counter_at_most_def encode_u64_def)
    with v show ?thesis by (intro exI [of _ v] exI [of _ epoch]) simp
  qed (use assms(4) in auto)
qed

lemma attempts_below_state:
  assumes "attempts_below m c" and "hm_invar m" and "hm_get m i = Some r"
  shows "attempts_below (hm_insert i (r\<lparr>ra_state := s\<rparr>) m) c"
  unfolding attempts_below_def
proof
  fix e assume e: "e \<in> set (hm_insert i (r\<lparr>ra_state := s\<rparr>) m)"
  define e' where "e' = (if e \<in> set m then e else (i, r))"
  have "(i, r) \<in> set m" using assms(3) by (simp add: hm_get_def map_of_SomeD)
  then have "e' \<in> set m" by (simp add: e'_def)
  moreover have "ra_fence_epoch (snd e) = ra_fence_epoch (snd e')"
    using set_hm_insert [OF assms(2) e] by (auto simp: e'_def)
  ultimately show "\<exists>v ca. ra_fence_epoch (snd e) = encode_u64 v \<and> c = Some (encode_u64 ca) \<and> v \<le> ca"
    using assms(1) by (auto simp: attempts_below_def)
qed

lemma control_change_ok:
  assumes "control_change db db'" and "control_ok db"
  shows "control_ok db'"
  using assms
proof (cases rule: control_change.cases)
  case (jobs m)
  note c = job_change_readable [OF jobs(2)] job_change_ok [OF jobs(2)] job_change_keeps [OF jobs(2)]
  with jobs(1) assms(2) show ?thesis by (simp add: control_ok_def)
next
  case (leases m)
  with assms(2) lease_change_invar [OF leases(2)] show ?thesis by (simp add: control_ok_def)
next
  case (submission k i)
  with assms(2) show ?thesis by (auto simp: control_ok_def hm.get_insert hm_invar_insert)
next
  case (attempt i r s path s')
  with assms(2) attempts_below_state [OF _ _ attempt(2)] show ?thesis by (simp add: control_ok_def hm_invar_insert)
next
  case (staged q r j k epoch payload)
  note c = staged_job_change [OF staged(2-5), of payload epoch]
  have "attempts_below (jd_attempts db') (sd_fence_state db')"
    using staged(1) assms(2) attempts_below_insert [OF _ _ staged(9)]
    by (simp add: staged_db_def control_ok_def attempt_row_def new_attempt_def)
  moreover have "jobs_ok (jd_jobs db')" "\<forall>i r. hm_get (jd_jobs db') i = Some r \<longrightarrow> (\<exists>j. job_into_stored r = Inr j)"
    "\<And>i. hm_get (jd_jobs db) i \<noteq> None \<Longrightarrow> hm_get (jd_jobs db') i \<noteq> None"
    using job_change_readable [OF c] job_change_ok [OF c] job_change_keeps [OF c] staged(1) assms(2) by (simp_all add: control_ok_def)
  moreover have "hm_invar (ld_leases db')" "hm_invar (jd_attempts db')" "hm_invar (sd_operations db')"
    "jd_submissions db' = jd_submissions db" "hm_invar (cd_reports db')" "hm_invar (cd_releases db')"
    using staged(1) assms(2) by (simp_all add: staged_db_def control_ok_def hm_invar_insert)
  ultimately show ?thesis using assms(2) by (auto simp: control_ok_def)
qed (simp_all add: control_ok_def hm_invar_insert)

lemma control_reach_ok: "control_reach db db' \<Longrightarrow> control_ok db \<Longrightarrow> control_ok db'"
  by (induction rule: rtranclp_induct) (auto intro: control_change_ok)

end
