(* ===== verification/Control_Calls.thy ===== *)
theory Control_Calls
  imports Control_Machine
begin

text \<open>
  Every call of the job store, the lease store, the staging store and of failover is a sequence of
  the changes of \<open>Control_Machine\<close>, whatever statements fail on the way. A history of calls
  therefore keeps the invariant of the control database.
\<close>

section \<open>Calls of the job store\<close>

lemma reach_tape [simp, intro]: "control_reach db (db\<lparr>db_tape := t\<rparr>)"
  by (rule ctl.R_tape)

lemma reach_tape_cong: "control_reach db db1 \<Longrightarrow> control_reach db (db1\<lparr>db_tape := t\<rparr>)"
  by (rule ctl.R_trans [OF _ ctl.R_tape])

lemma reach_tape_iff [simp]: "control_reach (db\<lparr>db_tape := t\<rparr>) db' \<longleftrightarrow> control_reach db db'"
proof
  assume "control_reach db db'"
  moreover have "control_reach (db\<lparr>db_tape := t\<rparr>) db"
    using ctl.R_tape [of "db\<lparr>db_tape := t\<rparr>" "db_tape db"] by simp
  ultimately show "control_reach (db\<lparr>db_tape := t\<rparr>) db'" by (rule ctl.R_trans [rotated])
qed (rule ctl.R_trans [OF ctl.R_tape])

lemma control_ok_tape [simp]: "control_ok (db\<lparr>db_tape := t\<rparr>) = control_ok db"
  by (simp add: control_ok_def)

lemma jobs_reach: "job_change\<^sup>*\<^sup>* (jd_jobs db) m \<Longrightarrow> control_reach db (db\<lparr>jd_jobs := m\<rparr>)"
proof (induction rule: rtranclp_induct)
  case base
  then show ?case by simp
next
  case (step m1 m2)
  have "control_change (db\<lparr>jd_jobs := m1\<rparr>) (db\<lparr>jd_jobs := m1, jd_jobs := m2\<rparr>)"
    by (rule control_change.jobs) (use step in simp)
  with step.IH show ?case by (simp add: rtranclp.rtrancl_into_rtrancl)
qed

lemma jobs_move_reach:
  assumes "jobs_move db db'"
  shows "control_reach db db'"
proof -
  from assms obtain t m where "db' = db\<lparr>db_tape := t, jd_jobs := m\<rparr>" and m: "job_change\<^sup>*\<^sup>* (jd_jobs db) m"
    by (auto simp: jobs_move_def)
  then have "db' = db\<lparr>jd_jobs := m, db_tape := t\<rparr>" by (cases db) simp
  with reach_tape_cong [OF jobs_reach [OF m]] show ?thesis by simp
qed

text \<open>A submission either finds its key and changes nothing, or adds its rows.\<close>

lemma submitted_row_of: "submitted_row (submitted_job s h t) = row_of (submitted_job s h t)"
  by (simp add: row_simps submitted_job_def)

lemma submitted_id [simp]: "sj_job_id (submitted_job s h t) = as_job_id s"
  by (simp add: submitted_job_def)

definition with_submission ::
    "accepted_job_submission \<Rightarrow> bytes \<Rightarrow> u64 \<Rightarrow> 'm job_db_scheme \<Rightarrow> 'm job_db_scheme" where
  "with_submission s h at db = db\<lparr>jd_jobs := hm_insert (as_job_id s) (row_of (submitted_job s h at)) (jd_jobs db),
     jd_submissions := hm_insert (as_idempotency_key s) (as_job_id s) (jd_submissions db)\<rparr>"

lemma insert_job_Ok:
  assumes "insert_job (submitted_job s h at) db = (Inr u, db')"
  obtains t where "hm_get (jd_jobs db) (as_job_id s) = None"
    "db' = db\<lparr>db_tape := t, jd_jobs := hm_insert (as_job_id s) (row_of (submitted_job s h at)) (jd_jobs db)\<rparr>"
  using assms by (auto simp: insert_job_def tx_ok hm_contains_key_def submitted_row_of split: if_splits)

lemma insert_submission_Ok:
  assumes "insert_submission k i db = (Inr u, db')"
  obtains t where "db' = db\<lparr>db_tape := t, jd_submissions := hm_insert k i (jd_submissions db)\<rparr>"
  using assms by (auto simp: insert_submission_def tx_ok split: if_splits)

lemma insert_manifest_Ok:
  assumes "insert_manifest i sg b db = (Inr u, db')"
  obtains t where "db' = db\<lparr>db_tape := t, jd_manifests := hm_insert i (sg, b) (jd_manifests db)\<rparr>"
  using assms by (auto simp: insert_manifest_def tx_ok split: if_splits)

lemma submit_body_Ok:
  assumes "submit_body s at db = (Inr res, db')"
  obtains (replay) t i r j where "hm_get (jd_submissions db) (as_idempotency_key s) = Some i"
      "hm_get (jd_jobs db) i = Some r" "job_into_stored r = Inr j" "matches_submission j s"
      "res = \<lparr>sr_job = j, sr_created = False\<rparr>" "db' = db\<lparr>db_tape := t\<rparr>"
  | (created) t where "hm_get (jd_submissions db) (as_idempotency_key s) = None"
      "hm_get (jd_jobs db) (as_job_id s) = None"
      "res = \<lparr>sr_job = submitted_job s (as_manifest_hash s) at, sr_created = True\<rparr>"
      "db' = (with_submission s (as_manifest_hash s) at db)\<lparr>db_tape := t\<rparr>"
proof (cases "hm_get (jd_submissions db) (as_idempotency_key s)")
  case (Some i)
  with assms obtain t j where "map_transpose job_into_stored (hm_get (jd_jobs db) i) = Inr (Some j)"
    "matches_submission j s" "res = \<lparr>sr_job = j, sr_created = False\<rparr>" "db' = db\<lparr>db_tape := t\<rparr>"
    by (auto simp: submit_body_def select_submission_def tx_ok fetch_job_Ok ok_or_Ok split: if_splits)
  moreover from this(1) obtain r where "hm_get (jd_jobs db) i = Some r" "job_into_stored r = Inr j"
    by (auto simp: map_transpose_Ok split: option.splits)
  ultimately show ?thesis using Some by (intro replay) auto
next
  case None
  with assms obtain t db1 where
    j: "insert_job (submitted_job s (as_manifest_hash s) at) (db\<lparr>db_tape := t\<rparr>) = (Inr (), db1)"
    and i: "insert_submission (as_idempotency_key s) (as_job_id s) db1 = (Inr (), db')"
    and res: "res = \<lparr>sr_job = submitted_job s (as_manifest_hash s) at, sr_created = True\<rparr>"
    by (auto simp: submit_body_def select_submission_def tx_ok fetch_job_Ok Let_def split: if_splits)
  obtain t1 where 1: "hm_get (jd_jobs (db\<lparr>db_tape := t\<rparr>)) (as_job_id s) = None"
    "db1 = db\<lparr>db_tape := t, db_tape := t1, jd_jobs := hm_insert (as_job_id s)
      (row_of (submitted_job s (as_manifest_hash s) at)) (jd_jobs (db\<lparr>db_tape := t\<rparr>))\<rparr>"
    by (rule insert_job_Ok [OF j])
  obtain t2 where 2: "db' = db1\<lparr>db_tape := t2, jd_submissions := hm_insert (as_idempotency_key s) (as_job_id s) (jd_submissions db1)\<rparr>"
    by (rule insert_submission_Ok [OF i])
  have "db' = (with_submission s (as_manifest_hash s) at db)\<lparr>db_tape := t2\<rparr>"
    unfolding 2 1(2) with_submission_def by (cases db) simp
  with None 1 res show ?thesis by (intro created) simp_all
qed

lemma with_submission_reach:
  assumes "control_ok db" and "hm_get (jd_submissions db) (as_idempotency_key s) = None"
    and "hm_get (jd_jobs db) (as_job_id s) = None" and "length h = 32"
  shows "control_reach db (with_submission s h at db)"
proof -
  let ?m = "hm_insert (as_job_id s) (row_of (submitted_job s h at)) (jd_jobs db)"
  have "job_change (jd_jobs db) ?m"
    using job_change.submit [of "jd_jobs db" "submitted_job s h at"] assms(3,4) by simp
  then have "control_change db (db\<lparr>jd_jobs := ?m\<rparr>)" by (rule control_change.jobs)
  moreover have "control_change (db\<lparr>jd_jobs := ?m\<rparr>) (with_submission s h at db)"
    using control_change.submission [of "db\<lparr>jd_jobs := ?m\<rparr>" "as_idempotency_key s" "as_job_id s"] assms(1,2)
    by (simp add: hm.get_insert control_ok_def jobs_ok_def with_submission_def)
  ultimately show ?thesis by (meson rtranclp.rtrancl_into_rtrancl rtranclp.rtrancl_refl)
qed

lemma checked_bind_reach:
  "(\<And>x. r = Inr x \<Longrightarrow> control_reach db (snd (f x db))) \<Longrightarrow> control_reach db (snd (tx_bind (lift_result r) f db))"
  by (cases r) (simp_all add: tx_bind_def lift_result_def)

lemma transaction_reach:
  assumes "\<And>t x db1. body (db\<lparr>db_tape := t\<rparr>) = (Inr x, db1) \<Longrightarrow> control_reach db db1"
  shows "control_reach db (snd (in_transaction f body db))"
  by (rule ctl.R_in_transaction) (simp add: assms)

lemma submit_accepted_reach:
  assumes "control_ok db" and "length (as_manifest_hash s) = 32"
  shows "control_reach db (snd (submit_accepted s at db))"
  unfolding submit_accepted_def
proof (rule checked_bind_reach, rule transaction_reach)
  fix t res db1
  assume "submit_body s at (db\<lparr>db_tape := t\<rparr>) = (Inr res, db1)"
  then show "control_reach db db1"
  proof (cases rule: submit_body_Ok)
    case (created t')
    have "control_reach (db\<lparr>db_tape := t\<rparr>) (with_submission s (as_manifest_hash s) at (db\<lparr>db_tape := t\<rparr>))"
      by (rule with_submission_reach) (use created assms in simp_all)
    with created(4) show ?thesis by (simp add: reach_tape_cong)
  qed auto
qed

lemma manifest_body_Ok:
  assumes "submit_manifest_body api s man sg at db = (Inr res, db')"
  obtains (replay) t where "db' = db\<lparr>db_tape := t\<rparr>"
  | (created) t where "hm_get (jd_submissions db) (as_idempotency_key s) = None"
      "hm_get (jd_jobs db) (as_job_id s) = None"
      "db' = (with_submission s (ma_hash api man) at (db\<lparr>jd_manifests := hm_insert (as_job_id s) (sg, ma_encode api man) (jd_manifests db)\<rparr>))\<lparr>db_tape := t\<rparr>"
proof (cases "hm_get (jd_submissions db) (as_idempotency_key s)")
  case (Some i)
  with assms have "\<exists>t. db' = db\<lparr>db_tape := t\<rparr>"
    by (auto simp: submit_manifest_body_def select_submission_def fetch_manifest_binding_def select_manifest_def
        tx_ok fetch_job_Ok ok_or_Ok split: if_splits)
  with replay show ?thesis by blast
next
  case None
  with assms obtain t db1 db2 where
    j: "insert_job (submitted_job s (ma_hash api man) at) (db\<lparr>db_tape := t\<rparr>) = (Inr (), db1)"
    and m: "insert_manifest (as_job_id s) sg (ma_encode api man) db1 = (Inr (), db2)"
    and i: "insert_submission (as_idempotency_key s) (as_job_id s) db2 = (Inr (), db')"
    by (auto simp: submit_manifest_body_def select_submission_def tx_ok fetch_job_Ok Let_def split: if_splits)
  obtain t1 where 1: "hm_get (jd_jobs (db\<lparr>db_tape := t\<rparr>)) (as_job_id s) = None"
    "db1 = db\<lparr>db_tape := t, db_tape := t1, jd_jobs := hm_insert (as_job_id s)
      (row_of (submitted_job s (ma_hash api man) at)) (jd_jobs (db\<lparr>db_tape := t\<rparr>))\<rparr>"
    by (rule insert_job_Ok [OF j])
  obtain t2 where 2: "db2 = db1\<lparr>db_tape := t2, jd_manifests := hm_insert (as_job_id s) (sg, ma_encode api man) (jd_manifests db1)\<rparr>"
    by (rule insert_manifest_Ok [OF m])
  obtain t3 where 3: "db' = db2\<lparr>db_tape := t3, jd_submissions := hm_insert (as_idempotency_key s) (as_job_id s) (jd_submissions db2)\<rparr>"
    by (rule insert_submission_Ok [OF i])
  have "db' = (with_submission s (ma_hash api man) at (db\<lparr>jd_manifests := hm_insert (as_job_id s) (sg, ma_encode api man) (jd_manifests db)\<rparr>))\<lparr>db_tape := t3\<rparr>"
    unfolding 3 2 1(2) with_submission_def by (cases db) simp
  with None 1 show ?thesis by (intro created) simp_all
qed

lemma submit_verified_manifest_reach:
  assumes "control_ok db" and "length (as_manifest_hash s) = 32"
  shows "control_reach db (snd (submit_verified_manifest api s man sg at db))"
  unfolding submit_verified_manifest_def
proof (rule checked_bind_reach, rule checked_bind_reach, rule checked_bind_reach, rule transaction_reach)
  fix u t res db1
  assume "reject_if (as_manifest_hash s \<noteq> ma_hash api man) ManifestHashMismatch = Inr u"
  then have len: "length (ma_hash api man) = 32" using assms(2) by (simp add: reject_if_Ok)
  assume "submit_manifest_body api s man sg at (db\<lparr>db_tape := t\<rparr>) = (Inr res, db1)"
  then show "control_reach db db1"
  proof (cases rule: manifest_body_Ok)
    case (created t')
    let ?db = "db\<lparr>jd_manifests := hm_insert (as_job_id s) (sg, ma_encode api man) (jd_manifests db)\<rparr>"
    have "control_ok ?db" using assms(1) by (simp add: control_ok_def)
    then have "control_reach ?db (with_submission s (ma_hash api man) at ?db)"
      by (rule with_submission_reach) (use created len in simp_all)
    moreover have "control_change db ?db" by (rule control_change.manifest)
    ultimately have "control_reach db (with_submission s (ma_hash api man) at ?db)"
      by (rule converse_rtranclp_into_rtranclp [rotated])
    moreover have "db1 = (with_submission s (ma_hash api man) at ?db)\<lparr>db_tape := t'\<rparr>"
      unfolding created(3) with_submission_def by (cases db) simp
    ultimately show ?thesis by (simp add: reach_tape_cong)
  qed auto
qed

section \<open>Calls of the lease store\<close>

definition lease_frame :: "'m lease_db_scheme \<Rightarrow> 'm lease_db_scheme \<Rightarrow> bool" where
  "lease_frame db db' \<longleftrightarrow> (\<exists>t m. db' = db\<lparr>db_tape := t, ld_leases := m\<rparr>)"

lemma lease_frame_intro [intro]: "lease_frame db (db\<lparr>ld_leases := m\<rparr>)" "lease_frame db db" "lease_frame db (db\<lparr>db_tape := t\<rparr>)"
proof -
  have "db\<lparr>ld_leases := m\<rparr> = db\<lparr>db_tape := db_tape db, ld_leases := m\<rparr>"
    "db = db\<lparr>db_tape := db_tape db, ld_leases := ld_leases db\<rparr>"
    "db\<lparr>db_tape := t\<rparr> = db\<lparr>db_tape := t, ld_leases := ld_leases db\<rparr>"
    by simp_all
  then show "lease_frame db (db\<lparr>ld_leases := m\<rparr>)" "lease_frame db db" "lease_frame db (db\<lparr>db_tape := t\<rparr>)"
    unfolding lease_frame_def by blast+
qed

interpretation lf: tx_relation "lease_frame :: 'm lease_db_scheme \<Rightarrow> 'm lease_db_scheme \<Rightarrow> bool"
proof unfold_locales
  fix a b c :: "'m lease_db_scheme"
  assume "lease_frame a b" "lease_frame b c"
  then obtain t m t' m' where "b = a\<lparr>db_tape := t, ld_leases := m\<rparr>" "c = b\<lparr>db_tape := t', ld_leases := m'\<rparr>"
    by (auto simp: lease_frame_def)
  then have "c = a\<lparr>db_tape := t', ld_leases := m'\<rparr>" by (cases a) simp
  then show "lease_frame a c" by (auto simp: lease_frame_def)
qed auto

lemma fetch_lease_frame: "lease_frame db (snd (fetch_lease i db))"
  unfolding fetch_lease_def by (intro lf.R_bind lf.R_statement lf.R_simple) auto

lemma update_lease_frame: "lease_frame db (snd (update_lease i c f db))"
  unfolding update_lease_def by (rule lf.R_statement) (auto split: option.splits)

lemma insert_lease_frame: "lease_frame db (snd (insert_lease c db))"
  unfolding insert_lease_def by (rule lf.R_statement_result) auto

lemma transaction_frame:
  assumes "\<And>t. lease_frame (db\<lparr>db_tape := t\<rparr>) (snd (body (db\<lparr>db_tape := t\<rparr>)))"
  shows "lease_frame db (snd (in_transaction_result f body db))"
  by (rule lf.R_in_transaction_result) (metis assms snd_conv)

lemmas lease_frames = fetch_lease_frame update_lease_frame insert_lease_frame lf.R_simple

lemma lease_call_frame: "lease_frame db (lease_call_step a db)"
proof (cases a)
  case (GetOrIssue c now)
  have "lease_frame db (snd (get_or_issue c now db))" unfolding get_or_issue_def issue_body_def
    by (rule transaction_frame, rule lf.R_bind) (auto intro!: lf.R_bind lease_frames split: option.splits)
  with GetOrIssue show ?thesis by simp
next
  case (MarkRevoked i t)
  have "lease_frame db (snd (mark_revoked i t db))" unfolding mark_revoked_def revoke_body_def Let_def
    by (rule transaction_frame, rule lf.R_bind) (auto intro!: lf.R_bind lease_frames split: option.splits)
  with MarkRevoked show ?thesis by simp
next
  case (RevokeWithin i t)
  have "lease_frame db (snd (revoke_within i t db))" unfolding revoke_within_def
    by (rule lf.R_bind) (auto intro!: lease_frames)
  with RevokeWithin show ?thesis by simp
next
  case (RaiseGrace i g)
  have "lease_frame db (snd (raise_reassignment_grace i g db))"
    unfolding raise_reassignment_grace_def raise_reassignment_grace_within_def
    by (intro lf.R_bind) (auto intro!: lease_frames split: option.splits)
  with RaiseGrace show ?thesis by simp
next
  case (RenewExisting i e a)
  have "lease_frame db (snd (renew_existing i e a db))" unfolding renew_existing_def renew_body_def set_expiry_def
    by (rule transaction_frame, rule lf.R_bind) (auto intro!: lf.R_bind lease_frames split: option.splits)
  with RenewExisting show ?thesis by simp
next
  case (RenewWithinDuration i now e a)
  have "lease_frame db (snd (renew_existing_within_duration i now e a db))"
    unfolding renew_existing_within_duration_def renew_within_body_def set_expiry_def
    by (rule transaction_frame, rule lf.R_bind) (auto intro!: lf.R_bind lease_frames split: option.splits)
  with RenewWithinDuration show ?thesis by simp
qed

lemma lease_call_reach: "control_reach db (lease_call_step a db)"
proof -
  from lease_call_frame [of db a] obtain t m where db': "lease_call_step a db = db\<lparr>db_tape := t, ld_leases := m\<rparr>"
    by (auto simp: lease_frame_def)
  then have "m = ld_leases db \<or> lease_change (ld_leases db) m" using lease_call_change [of a db] by simp
  then have "control_reach db (db\<lparr>ld_leases := m\<rparr>)" by (auto intro: control_change.leases)
  moreover have "lease_call_step a db = db\<lparr>ld_leases := m, db_tape := t\<rparr>" unfolding db' by (cases db) simp
  ultimately show ?thesis by (simp add: reach_tape_cong)
qed

end
