(* ===== verification/Control_Staging.thy ===== *)
theory Control_Staging
  imports Control_Calls
begin

text \<open>
  The calls of the staging store and of failover as sequences of changes. What a staging has done
  when it succeeds is \<open>stage_new_Ok\<close>; what a call of failover has done is \<open>take_over_Ok\<close>
  with \<open>check_lost_Ok\<close>.
\<close>

section \<open>Reading\<close>

interpretation st: tx_relation "same_tables :: 'm staging_db_scheme \<Rightarrow> 'm staging_db_scheme \<Rightarrow> bool"
  by unfold_locales (auto intro: same_tables_trans)

lemma same_tables_reach: "same_tables db db' \<Longrightarrow> control_reach db db'"
  by (auto simp: same_tables_def)

lemma read_same: "same_tables db (snd (statement f (\<lambda>db. (g db, db)) db))"
  by (rule st.R_statement) simp

lemma fetch_job_same: "same_tables db (snd (fetch_job i db))"
  unfolding fetch_job_def by (intro st.R_bind read_same st.R_simple)

lemma fetch_lease_same_tables: "same_tables db (snd (fetch_lease i db))"
  unfolding fetch_lease_def by (intro st.R_bind read_same st.R_simple)

lemma fetch_attempt_same: "same_tables db (snd (fetch_attempt i db))"
  unfolding fetch_attempt_def by (auto intro!: st.R_bind read_same st.R_simple split: option.splits)

lemma fetch_operation_same: "same_tables db (snd (fetch_operation k db))"
  unfolding fetch_operation_def by (auto intro!: st.R_bind read_same st.R_simple)

lemma fetch_gpu_binding_same: "same_tables db (snd (fetch_gpu_binding n db))"
  unfolding fetch_gpu_binding_def by (auto intro!: st.R_bind read_same st.R_simple)

lemma fetch_node_reservation_same: "same_tables db (snd (fetch_node_reservation n db))"
  unfolding fetch_node_reservation_def
  by (auto intro!: st.R_bind read_same st.R_simple fetch_gpu_binding_same split: option.splits)

lemma read_counter_same: "same_tables db (snd (read_counter db))"
  unfolding read_counter_def by (intro st.R_bind read_same st.R_simple)

lemma fetch_inventory_revision_same: "same_tables db (snd (fetch_inventory_revision n db))"
  unfolding fetch_inventory_revision_def by (intro st.R_bind read_same st.R_simple)

lemma validate_selected_gpus_exist_same: "same_tables db (snd (validate_selected_gpus_exist n gs db))"
  by (induction gs arbitrary: db) (auto intro!: st.R_bind read_same st.R_simple)

lemma manifest_row_exists_same: "same_tables db (snd (manifest_row_exists i db))"
  unfolding manifest_row_exists_def by (auto intro!: st.R_bind read_same st.R_simple)

lemmas same_reads = read_same fetch_job_same fetch_lease_same_tables fetch_attempt_same fetch_operation_same
  fetch_node_reservation_same read_counter_same fetch_inventory_revision_same validate_selected_gpus_exist_same
  manifest_row_exists_same st.R_simple

lemma load_result_same: "same_tables db (snd (load_result q e db))"
  unfolding load_result_def Let_def
  by (auto intro!: st.R_bind st.R_map_err same_reads)

section \<open>Staging\<close>

lemma stage_new_Ok:
  assumes "stage_new_in_transaction q payload db = (Inr res, db')" and "jobs_ok (jd_jobs db)"
  obtains t epoch r j k where "db' = (staged_db q payload epoch k db)\<lparr>db_tape := t\<rparr>"
    "res = \<lparr>qr_job = k, qr_attempt = new_attempt q epoch, qr_lease = to_lease q epoch, qr_created = True\<rparr>"
    "hm_get (jd_jobs db) (sq_job_id q) = Some r" "job_into_stored r = Inr j" "sj_job_id j = sq_job_id q"
    "sj_state j \<in> {JobQueued, JobPaused}" "job_step j k" "sj_state k = staged_state (sj_state j)"
    "sj_staging_at_unix_ms k = Some (sq_issued_at_unix_ms q)"
    "hm_get (jd_attempts db) (sq_attempt_id q) = None" "hm_get (ld_leases db) (sq_lease_id q) = None"
    "hm_get (sd_operations db) (sq_operation_key q) = None" "counter_at_most epoch (sd_fence_state db)"
    "\<forall>e \<in> set (ld_leases db). \<exists>v. rl_fence_epoch (snd e) = encode_u64 v \<and> v < epoch"
proof -
  from assms(1) obtain j db1 where c: "check_stageable q db = (Inr j, db1)" and w: "write_staged q payload j db1 = (Inr res, db')"
    by (auto simp: stage_new_in_transaction_def tx_bind_Ok)
  obtain r t1 where r: "hm_get (jd_jobs db) (sq_job_id q) = Some r" "job_into_stored r = Inr j"
    "sj_state j \<in> {JobQueued, JobPaused}" "hm_get (jd_attempts db) (sq_attempt_id q) = None"
    "hm_get (ld_leases db) (sq_lease_id q) = None" "db1 = db\<lparr>db_tape := t1\<rparr>"
    by (rule check_stageable_Ok [OF c])
  have id: "sj_job_id j = sq_job_id q" using assms(2) r(1) job_into_stored_id [OF r(2)] by (auto simp: jobs_ok_def)
  have r1: "hm_get (jd_jobs db1) (sq_job_id q) = Some r" using r by simp
  obtain t epoch k where *: "db' = (staged_db q payload epoch k db1)\<lparr>db_tape := t\<rparr>"
    "res = \<lparr>qr_job = k, qr_attempt = new_attempt q epoch, qr_lease = to_lease q epoch, qr_created = True\<rparr>"
    "job_step j k" "sj_state k = staged_state (sj_state j)" "counter_at_most epoch (sd_fence_state db1)"
    "sj_staging_at_unix_ms k = Some (sq_issued_at_unix_ms q)"
    "\<forall>e \<in> set (ld_leases db1). \<exists>v. rl_fence_epoch (snd e) = encode_u64 v \<and> v < epoch"
    "hm_get (sd_operations db1) (sq_operation_key q) = None"
    by (rule write_staged_Ok [OF w r1 r(2) id r(3)])
  have "db' = (staged_db q payload epoch k db)\<lparr>db_tape := t\<rparr>"
    unfolding * r(6) staged_db_def by (cases db) simp
  moreover have "counter_at_most epoch (sd_fence_state db)"
    "\<forall>e \<in> set (ld_leases db). \<exists>v. rl_fence_epoch (snd e) = encode_u64 v \<and> v < epoch"
    "hm_get (sd_operations db) (sq_operation_key q) = None"
    using *(5,7,8) r(6) by simp_all
  ultimately show ?thesis using that r(1-5) id *(2-4,6) by blast
qed

lemma stage_new_reach:
  assumes "stage_new_in_transaction q payload db = (Inr res, db')" and "control_ok db"
  shows "control_reach db db'"
proof -
  have jobs: "jobs_ok (jd_jobs db)" using assms(2) by (simp add: control_ok_def)
  obtain t epoch r j k where *: "db' = (staged_db q payload epoch k db)\<lparr>db_tape := t\<rparr>"
    "res = \<lparr>qr_job = k, qr_attempt = new_attempt q epoch, qr_lease = to_lease q epoch, qr_created = True\<rparr>"
    "hm_get (jd_jobs db) (sq_job_id q) = Some r" "job_into_stored r = Inr j" "sj_job_id j = sq_job_id q"
    "sj_state j \<in> {JobQueued, JobPaused}" "job_step j k" "sj_state k = staged_state (sj_state j)"
    "sj_staging_at_unix_ms k = Some (sq_issued_at_unix_ms q)"
    "hm_get (jd_attempts db) (sq_attempt_id q) = None" "hm_get (ld_leases db) (sq_lease_id q) = None"
    "hm_get (sd_operations db) (sq_operation_key q) = None" "counter_at_most epoch (sd_fence_state db)"
    "\<forall>e \<in> set (ld_leases db). \<exists>v. rl_fence_epoch (snd e) = encode_u64 v \<and> v < epoch"
    by (rule stage_new_Ok [OF assms(1) jobs])
  have "control_change db (staged_db q payload epoch k db)"
    using *(3-5,7,10-14) by (rule control_change.staged)
  then show ?thesis unfolding *(1) by (intro reach_tape_cong) auto
qed

lemma stage_reach:
  assumes "control_ok db"
  shows "control_reach db (snd (stage q db))"
  unfolding stage_def
proof (rule checked_bind_reach, rule transaction_reach)
  fix t res db1
  assume "stage_body q (db\<lparr>db_tape := t\<rparr>) = (Inr res, db1)"
  then obtain op db2 where op: "fetch_operation (sq_operation_key q) (db\<lparr>db_tape := t\<rparr>) = (Inr op, db2)"
    and rest: "(case op of
        Some (op, epoch) \<Rightarrow> if \<not> same_operation q (encode_request q) op then tx_fail OperationConflict else load_result q epoch
      | None \<Rightarrow> stage_new_in_transaction q (encode_request q)) db2 = (Inr res, db1)"
    by (auto simp: stage_body_def Let_def tx_bind_Ok)
  have same: "same_tables db db2"
    using fetch_operation_same [of "db\<lparr>db_tape := t\<rparr>" "sq_operation_key q"] op by (auto simp: same_tables_def)
  then have ok: "control_ok db2" using assms by (auto simp: same_tables_def)
  have "control_reach db2 db1"
  proof (cases op)
    case None
    with rest stage_new_reach [OF _ ok] show ?thesis by simp
  next
    case (Some e)
    with rest have "load_result q (snd e) db2 = (Inr res, db1)"
      by (auto simp: tx_fail_Ok split: prod.splits if_splits)
    with load_result_same [of db2 q "snd e"] show ?thesis by (simp add: same_tables_reach)
  qed
  with same_tables_reach [OF same] show "control_reach db db1" by (rule ctl.R_trans)
qed

text \<open>The reservation and its GPU rows.\<close>

fun gpu_rows :: "str \<Rightarrow> int \<Rightarrow> str list \<Rightarrow> (str \<times> int \<times> str) list" where
  "gpu_rows n i [] = []"
| "gpu_rows n i (g # gs) = (n, i, g) # gpu_rows n (i + 1) gs"

lemma insert_gpu_rows_Ok:
  "insert_gpu_rows n i gs db = (Inr u, db') \<Longrightarrow>
     \<exists>t. db' = db\<lparr>db_tape := t, sd_reservation_gpus := sd_reservation_gpus db @ gpu_rows n i gs\<rparr>"
proof (induction gs arbitrary: i db)
  case Nil
  then have "db' = db" by (simp add: tx_ok)
  then show ?case by (intro exI [of _ "db_tape db"]) simp
next
  case (Cons g gs)
  then obtain t where "insert_gpu_rows n (i + 1) gs
      (db\<lparr>db_tape := t, sd_reservation_gpus := sd_reservation_gpus db @ [(n, i, g)]\<rparr>) = (Inr u, db')"
    by (auto simp: tx_ok split: if_splits)
  from Cons.IH [OF this] obtain t' where "db' = db\<lparr>db_tape := t, sd_reservation_gpus := sd_reservation_gpus db @ [(n, i, g)],
      db_tape := t', sd_reservation_gpus := (sd_reservation_gpus db @ [(n, i, g)]) @ gpu_rows n (i + 1) gs\<rparr>" by auto
  then have "db' = db\<lparr>db_tape := t', sd_reservation_gpus := sd_reservation_gpus db @ gpu_rows n i (g # gs)\<rparr>"
    by (cases db) simp
  then show ?case by blast
qed

definition reservation_row :: "stage_queued_request \<Rightarrow> u64 \<Rightarrow> raw_reservation_row" where
  "reservation_row q expected =
     \<lparr>rv_job_id = sq_job_id q, rv_attempt_id = sq_attempt_id q, rv_inventory_revision = encode_u64 expected,
      rv_reserved_at_unix_ms = encode_u64 (sq_issued_at_unix_ms q), rv_expired_at_unix_ms = None\<rparr>"

definition reserved_db :: "stage_queued_request \<Rightarrow> u64 \<Rightarrow> 'm staging_db_scheme \<Rightarrow> 'm staging_db_scheme" where
  "reserved_db q expected db = db\<lparr>
     sd_reservations := hm_insert (sq_node_id q) (reservation_row q expected) (sd_reservations db),
     sd_reservation_gpus := sd_reservation_gpus db @ gpu_rows (sq_node_id q) 0 (sq_selected_gpu_ids q)\<rparr>"

lemma fetch_inventory_revision_Ok:
  assumes "fetch_inventory_revision n db = (Inr (Some v), db')"
  shows "hm_get (sd_inventory_revisions db) n = Some (encode_u64 v)"
  using assms by (auto simp: fetch_inventory_revision_def tx_bind_Ok statement_Ok lift_result_Ok map_transpose_Ok staging_decode_Ok
      split: option.splits)

lemma validate_selected_gpus_exist_Ok:
  "validate_selected_gpus_exist n gs db = (Inr u, db') \<Longrightarrow> \<forall>g \<in> set gs. (n, g) \<in> set (sd_inventory_gpus db)"
proof (induction gs arbitrary: db)
  case (Cons g gs)
  then obtain t where "(n, g) \<in> set (sd_inventory_gpus db)"
    "validate_selected_gpus_exist n gs (db\<lparr>db_tape := t\<rparr>) = (Inr u, db')"
    by (auto simp: tx_ok split: if_splits)
  with Cons.IH [of "db\<lparr>db_tape := t\<rparr>"] show ?case by auto
qed simp

lemma fetch_node_reservation_None:
  assumes "fetch_node_reservation n db = (Inr None, db')"
  shows "hm_get (sd_reservations db) n = None"
  using assms by (auto simp: fetch_node_reservation_def tx_bind_Ok statement_Ok tx_return_Ok split: option.splits)

lemma insert_node_reservation_Ok:
  assumes "insert_node_reservation n db = (Inr u, db')"
  obtains t where "db' = db\<lparr>db_tape := t, sd_reservations := hm_insert (nr_node_id n)
       \<lparr>rv_job_id = nr_job_id n, rv_attempt_id = nr_attempt_id n,
        rv_inventory_revision = encode_u64 (nr_inventory_revision n),
        rv_reserved_at_unix_ms = encode_u64 (nr_reserved_at_unix_ms n),
        rv_expired_at_unix_ms = None\<rparr> (sd_reservations db)\<rparr>"
    "\<forall>e \<in> set (sd_reservations db). rv_attempt_id (snd e) \<noteq> nr_attempt_id n"
  using assms by (auto simp: insert_node_reservation_def tx_ok split: if_splits)

lemma reserve_new_Ok:
  assumes "reserve_new q payload expected db = (Inr res, db')"
  obtains t where "hm_get (sd_inventory_revisions db) (sq_node_id q) = Some (encode_u64 expected)"
    "\<forall>g \<in> set (sq_selected_gpu_ids q). (sq_node_id q, g) \<in> set (sd_inventory_gpus db)"
    "hm_get (sd_reservations db) (sq_node_id q) = None"
    "\<forall>e \<in> set (sd_reservations db). rv_attempt_id (snd e) \<noteq> sq_attempt_id q"
    "rr_reservation res = new_reservation q expected"
    "stage_new_in_transaction q payload ((reserved_db q expected db)\<lparr>db_tape := t\<rparr>) = (Inr (rr_stage res), db')"
proof -
  let ?n = "new_reservation q expected"
  from assms obtain db1 u db2 db3 db4 db5 where
    rev: "fetch_inventory_revision (sq_node_id q) db = (Inr (Some expected), db1)"
    and gpus: "validate_selected_gpus_exist (sq_node_id q) (sq_selected_gpu_ids q) db1 = (Inr u, db2)"
    and free: "fetch_node_reservation (sq_node_id q) db2 = (Inr None, db3)"
    and ins: "insert_node_reservation ?n db3 = (Inr (), db4)"
    and bind: "insert_gpu_binding ?n db4 = (Inr (), db5)"
    and stage: "stage_new_in_transaction q payload db5 = (Inr (rr_stage res), db')"
    and res: "rr_reservation res = ?n"
    by (auto simp: reserve_new_def Let_def tx_bind_Ok tx_map_err_Ok lift_result_Ok ok_or_Ok reject_if_Ok tx_fail_Ok tx_return_Ok
        split: option.splits)
  obtain t1 where 1: "db1 = db\<lparr>db_tape := t1\<rparr>"
    using fetch_inventory_revision_same [of db "sq_node_id q"] rev by (auto simp: same_tables_def)
  obtain t2 where 2: "db2 = db\<lparr>db_tape := t2\<rparr>"
    using validate_selected_gpus_exist_same [of db1 "sq_node_id q" "sq_selected_gpu_ids q"] gpus 1 by (auto simp: same_tables_def)
  obtain t3 where 3: "db3 = db\<lparr>db_tape := t3\<rparr>"
    using fetch_node_reservation_same [of db2 "sq_node_id q"] free 2 by (auto simp: same_tables_def)
  obtain t4 where 4: "db4 = db3\<lparr>db_tape := t4, sd_reservations := hm_insert (sq_node_id q) (reservation_row q expected) (sd_reservations db3)\<rparr>"
    "\<forall>e \<in> set (sd_reservations db3). rv_attempt_id (snd e) \<noteq> sq_attempt_id q"
    by (rule insert_node_reservation_Ok [OF ins]) (simp add: new_reservation_def reservation_row_def)
  from insert_gpu_rows_Ok [OF bind [unfolded insert_gpu_binding_def]] obtain t5 where
    5: "db5 = db4\<lparr>db_tape := t5, sd_reservation_gpus := sd_reservation_gpus db4 @ gpu_rows (sq_node_id q) 0 (sq_selected_gpu_ids q)\<rparr>"
    by (auto simp: new_reservation_def)
  have "db5 = (reserved_db q expected db)\<lparr>db_tape := t5\<rparr>"
    unfolding 5 4(1) 3 reserved_db_def by (cases db) simp
  moreover have "hm_get (sd_reservations db) (sq_node_id q) = None" using fetch_node_reservation_None [OF free] 2 by simp
  moreover have "\<forall>g \<in> set (sq_selected_gpu_ids q). (sq_node_id q, g) \<in> set (sd_inventory_gpus db)"
    using validate_selected_gpus_exist_Ok [OF gpus] 1 by simp
  ultimately show ?thesis using that stage res fetch_inventory_revision_Ok [OF rev] 4(2) 3 by simp
qed

lemma reserve_body_Ok:
  assumes "reserve_body q expected m db = (Inr res, db')"
  obtains (replay) t e where "db' = db\<lparr>db_tape := t\<rparr>" "hm_get (sd_operations db) (sq_operation_key q) = Some e"
      "\<not> qr_created (rr_stage res)"
  | (created) t where "hm_get (sd_operations db) (sq_operation_key q) = None"
      "reserve_new q (encode_reserved_request q expected) expected (db\<lparr>db_tape := t\<rparr>) = (Inr res, db')"
proof -
  let ?p = "encode_reserved_request q expected"
  from assms obtain mf db1 op db2 where mf: "(if m then tx_map_err Staging (manifest_row_exists (sq_job_id q)) else tx_return True) db = (Inr mf, db1)"
    and op: "fetch_operation (sq_operation_key q) db1 = (Inr op, db2)"
    and run: "(case op of
        Some (op, epoch) \<Rightarrow>
          if \<not> same_operation q ?p op then tx_fail (Staging OperationConflict)
          else
            tx_bind (tx_map_err Staging (load_result q epoch)) (\<lambda>staged.
            tx_bind (tx_map_err Staging (fetch_node_reservation (sq_node_id q))) (\<lambda>found.
            tx_bind (lift_result (ok_or found (Staging StagingCorruptData))) (\<lambda>reservation.
            tx_bind (tx_map_err Staging (lift_result (validate_replayed_reservation reservation q expected))) (\<lambda>_.
              tx_return \<lparr>rr_reservation = reservation, rr_stage = staged\<lparr>qr_created := False\<rparr>\<rparr>))))
      | None \<Rightarrow> reserve_new q ?p expected) db2 = (Inr res, db')"
    by (auto simp: reserve_body_def Let_def tx_bind_Ok tx_map_err_Ok lift_result_Ok)
  have "same_tables db db1"
    using mf manifest_row_exists_same [of db "sq_job_id q"] by (auto simp: tx_return_Ok tx_map_err_Ok split: if_splits)
  moreover have "same_tables db1 db2" using op fetch_operation_same [of db1 "sq_operation_key q"] by simp
  ultimately obtain t where t: "db2 = db\<lparr>db_tape := t\<rparr>" "\<exists>t. db1 = db\<lparr>db_tape := t\<rparr>" by (auto simp: same_tables_def)
  show ?thesis
  proof (cases op)
    case None
    with op t(2) have "hm_get (sd_operations db) (sq_operation_key q) = None"
      by (auto simp: fetch_operation_def tx_bind_Ok statement_Ok lift_result_Ok map_transpose_Ok split: option.splits)
    with run None t(1) show ?thesis by (intro created) simp_all
  next
    case (Some e)
    with op t(2) obtain x where "hm_get (sd_operations db) (sq_operation_key q) = Some x"
      by (auto simp: fetch_operation_def tx_bind_Ok statement_Ok lift_result_Ok map_transpose_Ok split: option.splits)
    moreover from run Some obtain st db3 fr where l: "load_result q (snd e) db2 = (Inr st, db3)"
      and f: "fetch_node_reservation (sq_node_id q) db3 = (Inr fr, db')" and "\<not> qr_created (rr_stage res)"
      by (auto simp: tx_bind_Ok tx_map_err_Ok tx_fail_Ok tx_return_Ok lift_result_Ok split: prod.splits if_splits)
    moreover have "\<exists>t. db' = db\<lparr>db_tape := t\<rparr>"
      using load_result_same [of db2 q "snd e"] l fetch_node_reservation_same [of db3 "sq_node_id q"] f t(1)
      by (auto simp: same_tables_def)
    ultimately show ?thesis using replay by blast
  qed
qed

lemma reserved_reach: "control_reach db (reserved_db q expected db)"
  unfolding reserved_db_def by (rule r_into_rtranclp, rule control_change.reservations)

lemma reserved_ok [simp]: "control_ok (reserved_db q expected db) = control_ok db"
  by (simp add: control_ok_def reserved_db_def)

lemma reserve_and_stage_reach:
  assumes "control_ok db"
  shows "control_reach db (snd (reserve_and_stage q expected m db))"
  unfolding reserve_and_stage_def
proof (intro ctl.R_bind ctl.R_map_err ctl.R_simple)
  fix u v db1 db2
  assume "tx_map_err Staging (lift_result (validate_request q)) db = (Inr u, db1)"
    "tx_map_err Staging (lift_result (validate_selected_gpu_ids (sq_selected_gpu_ids q))) db1 = (Inr v, db2)"
  then have "db2 = db" by (simp add: tx_map_err_Ok lift_result_Ok)
  have "control_reach db (snd (in_transaction (Staging \<circ> staging_map_sql_error) (reserve_body q expected m) db))"
  proof (rule transaction_reach)
    fix t res db1
    assume "reserve_body q expected m (db\<lparr>db_tape := t\<rparr>) = (Inr res, db1)"
    then show "control_reach db db1"
    proof (cases rule: reserve_body_Ok)
      case (created t')
      obtain t2 where s: "stage_new_in_transaction q (encode_reserved_request q expected)
          ((reserved_db q expected (db\<lparr>db_tape := t, db_tape := t'\<rparr>))\<lparr>db_tape := t2\<rparr>) = (Inr (rr_stage res), db1)"
        by (rule reserve_new_Ok [OF created(2)])
      have "control_reach ((reserved_db q expected (db\<lparr>db_tape := t, db_tape := t'\<rparr>))\<lparr>db_tape := t2\<rparr>) db1"
        by (rule stage_new_reach [OF s]) (use assms in simp)
      with reserved_reach [of "db\<lparr>db_tape := t, db_tape := t'\<rparr>" q expected] show ?thesis by simp
    qed auto
  qed
  with \<open>db2 = db\<close> show "control_reach db2 (snd (in_transaction (Staging \<circ> staging_map_sql_error) (reserve_body q expected m) db2))"
    by simp
qed

section \<open>Progress of an attempt\<close>

lemma transition_along_effect:
  assumes "transition_attempt_state_along i from path db = (Inr u, db')"
  obtains to t r where "attempt_path from path to" "hm_get (jd_attempts db) i = Some r" "ra_state r = state_to_db from"
    "db' = db\<lparr>db_tape := t, jd_attempts := hm_insert i (r\<lparr>ra_state := state_to_db to\<rparr>) (jd_attempts db)\<rparr>"
proof -
  from assms obtain to t r where walk: "for_each (\<lambda>step current.
       (case attempt_transition current step of
          Inr s \<Rightarrow> Ok s
        | Inl _ \<Rightarrow> Err (AttemptTransitionRejectedErr current step))) path from = Inr to"
    and r: "hm_get (jd_attempts db) i = Some r" "ra_state r = state_to_db from"
    and db': "db' = db\<lparr>db_tape := t, jd_attempts := hm_insert i (r\<lparr>ra_state := state_to_db to\<rparr>) (jd_attempts db)\<rparr>"
    by (auto simp: transition_attempt_state_along_def tx_ok split: option.splits if_splits)
  have "attempt_path from path to" using walk unfolding attempt_path_def
  proof (induction path arbitrary: "from")
    case (Cons s path)
    then show ?case by (auto simp: result_ok split: sum.splits)
  qed simp
  with r db' that show thesis by blast
qed

lemma transition_along_Ok:
  assumes "transition_attempt_state_along i from path db = (Inr u, db')"
  shows "control_reach db db'"
proof -
  obtain to t r where p: "attempt_path from path to" and r: "hm_get (jd_attempts db) i = Some r" "ra_state r = state_to_db from"
    and db': "db' = db\<lparr>db_tape := t, jd_attempts := hm_insert i (r\<lparr>ra_state := state_to_db to\<rparr>) (jd_attempts db)\<rparr>"
    by (rule transition_along_effect [OF assms])
  from control_change.attempt [OF r p]
  have "control_reach db (db\<lparr>jd_attempts := hm_insert i (r\<lparr>ra_state := state_to_db to\<rparr>) (jd_attempts db)\<rparr>)" by auto
  moreover have "db' = db\<lparr>jd_attempts := hm_insert i (r\<lparr>ra_state := state_to_db to\<rparr>) (jd_attempts db), db_tape := t\<rparr>"
    unfolding db' by (cases db) simp
  ultimately show ?thesis by (simp add: reach_tape_cong)
qed

lemma staging_complete_reach:
  "record_staging_complete i a now db = (Inr moved, db') \<Longrightarrow> control_ok db \<Longrightarrow> control_reach db db'"
  by (rule jobs_move_reach, rule record_staging_complete_move) (auto simp: control_ok_def)

lemma ack_same: "ack_is_for_current_attempt i a now db = (Inr moved, db') \<Longrightarrow> same_tables db db'"
  by (auto simp: ack_is_for_current_attempt_def tx_ok fetch_job_Ok select_latest_attempt_Ok split: if_splits option.splits)

lemma still_current_same: "same_tables db (snd (still_current a db))"
  unfolding still_current_def by (auto intro!: st.R_bind st.R_map_err same_reads)

lemma or_drop_reach:
  assumes "\<And>t x db1. body (db\<lparr>db_tape := t\<rparr>) = (Inr x, db1) \<Longrightarrow> control_reach db db1"
  shows "control_reach db (snd (in_transaction_or_drop f body db))"
  by (rule ctl.R_in_transaction_or_drop) (simp add: assms)

lemma reach_ok: "control_reach db db' \<Longrightarrow> control_ok db \<Longrightarrow> control_ok db'"
  by (rule control_reach_ok)

lemma record_grant_accepted_reach:
  assumes "control_ok db"
  shows "control_reach db (snd (record_grant_accepted i now m db))"
  unfolding record_grant_accepted_def
proof (rule or_drop_reach)
  fix t x db1
  assume run: "grant_accepted_body i now m (db\<lparr>db_tape := t\<rparr>) = (Inr x, db1)"
  then obtain a db2 where f: "fetch_attempt i (db\<lparr>db_tape := t\<rparr>) = (Inr (Some a), db2)"
    and rest: "(\<exists>c. still_current a db2 = (Inr c, db1)) \<or>
      (\<exists>moved db3. (if m then record_staging_complete (sa_job_id a) i now else ack_is_for_current_attempt (sa_job_id a) i now) db2 = (Inr moved, db3) \<and>
         transition_attempt_state i AttemptCreated AttemptStarting db3 = (Inr (), db1))"
    unfolding grant_accepted_body_def
    by (auto simp: tx_bind_Ok tx_map_err_Ok tx_return_Ok tx_fail_Ok lift_result_Ok ok_or_Ok split: if_splits)
  have 2: "control_reach db db2"
    using fetch_attempt_same [of "db\<lparr>db_tape := t\<rparr>" i] f by (auto simp: same_tables_def)
  note ok = reach_ok [OF 2 assms]
  from rest have "control_reach db2 db1"
  proof (elim disjE exE conjE)
    fix c assume "still_current a db2 = (Inr c, db1)"
    then show ?thesis using still_current_same [of db2 a] by (simp add: same_tables_reach)
  next
    fix moved db3
    assume *: "(if m then record_staging_complete (sa_job_id a) i now else ack_is_for_current_attempt (sa_job_id a) i now) db2 = (Inr moved, db3)"
      and tr: "transition_attempt_state i AttemptCreated AttemptStarting db3 = (Inr (), db1)"
    have "control_reach db2 db3"
      using * staging_complete_reach [OF _ ok] same_tables_reach [OF ack_same] by (auto split: if_splits)
    also have "control_reach db3 db1"
      using tr unfolding transition_attempt_state_def by (rule transition_along_Ok)
    finally show ?thesis .
  qed
  with 2 show "control_reach db db1" by (rule ctl.R_trans)
qed

text \<open>A run of reads followed by one write leaves the tables alone when it fails.\<close>

lemma err_bind:
  assumes "tx_bind m f db = (Inl e, db')" and "same_tables db (snd (m db))"
    and "\<And>x db1. m db = (Inr x, db1) \<Longrightarrow> f x db1 = (Inl e, db') \<Longrightarrow> same_tables db1 db'"
  shows "same_tables db db'"
  using assms by (auto simp: tx_bind_def split: prod.splits sum.splits intro: same_tables_trans)

lemma update_job_Err: "update_job j db = (Inl e, db') \<Longrightarrow> same_tables db db'"
  by (cases "db_tape db")
    (auto simp: update_job_def tx_bind_def tx_return_def tx_fail_def statement_def statement_result_def
      split: option.splits if_splits)

lemma write_next_revision_Err: "write_next_revision j db = (Inl e, db') \<Longrightarrow> same_tables db db'"
  by (auto simp: write_next_revision_def Let_def tx_bind_def tx_return_def lift_result_def
      split: prod.splits sum.splits dest: update_job_Err)

lemma write_then_return_Err:
  "tx_bind (write_next_revision j) (\<lambda>_. tx_return x) db = (Inl e, db') \<Longrightarrow> same_tables db db'"
  by (auto simp: tx_bind_def tx_return_def split: prod.splits sum.splits dest: write_next_revision_Err)

lemma staging_complete_Err:
  assumes "record_staging_complete i a now db = (Inl e, db')"
  shows "same_tables db db'"
proof -
  define w where "(w :: stored_job \<Rightarrow> 'a staging_db_scheme \<Rightarrow> _) k = tx_bind (write_next_revision k) (\<lambda>_. tx_return True)" for k
  have w: "w k db = (Inl e, db') \<Longrightarrow> same_tables db db'" for k db unfolding w_def by (rule write_then_return_Err)
  show ?thesis
    using assms unfolding record_staging_complete_def select_latest_attempt_def w_def [symmetric]
    by (elim err_bind; auto simp: tx_return_def split: if_splits intro!: same_reads elim!: err_bind dest: w)
qed

lemma behind_as_reach:
  assumes "behind_as x (record_staging_complete i a now) db = (Inr y, db')" and "control_ok db"
  shows "control_reach db db'"
  using assms staging_complete_reach [OF _ assms(2)] same_tables_reach [OF staging_complete_Err]
  by (auto simp: behind_as_def split: prod.splits sum.splits job_store_error.splits)

lemma read_bind:
  assumes "tx_bind (statement e (\<lambda>db. (g db, db))) f db = (Inr y, db')"
  obtains t found where "f found (db\<lparr>db_tape := t\<rparr>) = (Inr y, db')" "found = g (db\<lparr>db_tape := t\<rparr>)"
  using assms by (auto simp: tx_bind_Ok statement_Ok)

lemma record_process_started_reach:
  assumes "control_ok db"
  shows "control_reach db (snd (record_process_started l now db))"
  unfolding record_process_started_def
proof (rule transaction_reach)
  fix t x db1
  assume "process_started_body l now (db\<lparr>db_tape := t\<rparr>) = (Inr x, db1)"
  note body = this [unfolded process_started_body_def Let_def]
  obtain t1 found where run: "(case found of
       None \<Rightarrow> tx_return UnknownLeaseOfAttempt
     | Some attempt_id \<Rightarrow>
         tx_bind (fetch_attempt attempt_id) (\<lambda>found.
         tx_bind (lift_result (ok_or found StagingJobNotFound)) (\<lambda>attempt.
         tx_bind (if sa_state attempt = AttemptStarting then transition_attempt_state attempt_id AttemptStarting AttemptRunning
                  else tx_return ()) (\<lambda>_.
         tx_bind (if sa_state attempt \<in> {AttemptStarting, AttemptRunning}
                  then behind_as False (record_staging_complete (sa_job_id attempt) attempt_id now)
                  else tx_return False) (\<lambda>job_moved.
           tx_return (if sa_state attempt = AttemptStarting then ProcessStarted attempt_id job_moved
                      else ProcessAlreadyRecorded attempt_id)))))) (db\<lparr>db_tape := t, db_tape := t1\<rparr>) = (Inr x, db1)"
      "found = map_option fst (find (\<lambda>e. ra_lease_id (snd e) = l) (jd_attempts (db\<lparr>db_tape := t, db_tape := t1\<rparr>)))"
    by (rule read_bind [OF body])
  show "control_reach db db1"
  proof (cases found)
    case None
    with run(1) show ?thesis by (simp add: tx_return_Ok)
  next
    case (Some i)
    with run(1) obtain a db2 db3 u where f: "fetch_attempt i (db\<lparr>db_tape := t1\<rparr>) = (Inr (Some a), db2)"
      and tr: "(if sa_state a = AttemptStarting then transition_attempt_state i AttemptStarting AttemptRunning else tx_return ()) db2 = (Inr (), db3)"
      and c: "(if sa_state a \<in> {AttemptStarting, AttemptRunning} then behind_as False (record_staging_complete (sa_job_id a) i now)
       else tx_return False) db3 = (Inr u, db1)"
      by (auto simp: tx_bind_Ok tx_return_Ok lift_result_Ok ok_or_Ok)
    have "control_reach db db2"
      using fetch_attempt_same [of "db\<lparr>db_tape := t1\<rparr>" i] f by (auto simp: same_tables_def)
    moreover have "control_reach db2 db3"
      using tr transition_along_Ok by (auto simp: transition_attempt_state_def tx_return_Ok split: if_splits)
    ultimately have r: "control_reach db db3" by (rule ctl.R_trans)
    have "control_reach db3 db1"
      using c behind_as_reach [OF _ reach_ok [OF r assms]] by (auto simp: tx_return_Ok split: if_splits)
    with r show ?thesis by (rule ctl.R_trans)
  qed
qed

end
