(* ===== verification/Control_Failover.thy ===== *)
theory Control_Failover
  imports Control_Staging
begin

text \<open>
  What a call of \<open>failover.rs\<close> does: the resume point it chooses, the guards that hold when a
  job is taken over, and its changes of the control database.
\<close>

section \<open>The resume point\<close>

text \<open>The attempt a row stands for, read without a failing statement.\<close>

definition attempt_in :: "'m staging_db_scheme \<Rightarrow> str \<Rightarrow> staging_store_error + stored_attempt option" where
  "attempt_in db i = fst (fetch_attempt i (db\<lparr>db_tape := []\<rparr>))"

lemma attempt_in_tape [simp]: "attempt_in (db\<lparr>db_tape := t\<rparr>) i = attempt_in db i"
  by (simp add: attempt_in_def)

lemma fetch_attempt_in: "fetch_attempt i db = (Inr x, db') \<Longrightarrow> attempt_in db i = Inr x"
proof -
  assume "fetch_attempt i db = (Inr x, db')"
  then have "\<exists>db1. fetch_attempt i (db\<lparr>db_tape := []\<rparr>) = (Inr x, db1)"
    by (auto simp: fetch_attempt_def tx_bind_Ok statement_Ok tx_return_Ok lift_result_Ok split: option.splits)
  then show ?thesis by (auto simp: attempt_in_def)
qed

definition acceptable :: "'ckpt resume_api \<Rightarrow> str \<Rightarrow> str \<Rightarrow> u64 \<Rightarrow> 'm staging_db_scheme \<Rightarrow> str \<times> bytes \<Rightarrow> 'ckpt \<Rightarrow> bool" where
  "acceptable api root job_id now db e man \<longleftrightarrow>
     rs_decode api (snd e) = Some man \<and> rs_checkpoint_id api man = fst e \<and> rs_verify api man now \<and>
     rs_job_id api man = job_id \<and> rs_verify_on_disk api root man \<and>
     (case attempt_in db (rs_attempt_id api man) of
        Inr (Some a) \<Rightarrow> matching_attempt api man job_id a | _ \<Rightarrow> False)"

definition resume_key :: "'ckpt resume_api \<Rightarrow> 'ckpt \<Rightarrow> u64 \<times> u64" where
  "resume_key api man = (rs_fence_epoch api man, rs_step api man)"

definition resume_of :: "'ckpt resume_api \<Rightarrow> str \<times> bytes \<Rightarrow> 'ckpt \<Rightarrow> resume_point" where
  "resume_of api e man = \<lparr>rp_checkpoint_id = fst e, rp_step = rs_step api man, rp_body = snd e\<rparr>"

text \<open>The choice as a fold over the listed files.\<close>

definition better :: "'ckpt resume_api \<Rightarrow> str \<Rightarrow> str \<Rightarrow> u64 \<Rightarrow> 'm staging_db_scheme \<Rightarrow> str \<times> bytes \<Rightarrow>
    ((u64 \<times> u64) \<times> resume_point) option \<Rightarrow> ((u64 \<times> u64) \<times> resume_point) option" where
  "better api root job_id now db e best =
     (case rs_decode api (snd e) of
        None \<Rightarrow> best
      | Some man \<Rightarrow>
          if acceptable api root job_id now db e man \<and> (case best of None \<Rightarrow> True | Some (k, _) \<Rightarrow> resume_key api man > k)
          then Some (resume_key api man, resume_of api e man) else best)"

lemma better_tape [simp]: "better api root job_id now (db\<lparr>db_tape := t\<rparr>) = better api root job_id now db"
  by (intro ext) (simp add: better_def acceptable_def cong del: option.case_cong_weak)

lemma best_resume_point_Ok:
  "best_resume_point api root job_id now listed best db = (Inr res, db') \<Longrightarrow>
     res = fold (better api root job_id now db) listed best \<and> (\<exists>t. db' = db\<lparr>db_tape := t\<rparr>)"
proof (induction listed arbitrary: best db)
  case Nil
  then have "res = best" "db' = db" by (simp_all add: tx_return_Ok)
  moreover have "db = db\<lparr>db_tape := db_tape db\<rparr>" by simp
  ultimately show ?case by (metis fold_simps(1))
next
  case (Cons e listed)
  obtain cid body where e: "e = (cid, body)" by (cases e)
  show ?case
  proof (cases "rs_decode api body")
    case None
    with Cons e show ?thesis by (simp add: better_def)
  next
    case (Some man)
    show ?thesis
    proof (cases "rs_checkpoint_id api man \<noteq> cid \<or> \<not> rs_verify api man now \<or> rs_job_id api man \<noteq> job_id")
      case True
      with Some Cons e show ?thesis by (auto simp: better_def acceptable_def)
    next
      case False
      with Some Cons.prems e obtain found db1 where f: "fetch_attempt (rs_attempt_id api man) db = (Inr found, db1)"
        by (auto simp: tx_bind_Ok tx_map_err_Ok)
      from fetch_attempt_same [of db "rs_attempt_id api man"] f obtain t where t: "db1 = db\<lparr>db_tape := t\<rparr>"
        by (auto simp: same_tables_def)
      have "best_resume_point api root job_id now listed (better api root job_id now db e best) db1 = (Inr res, db')"
        using Cons.prems False Some fetch_attempt_in [OF f] e f
        by (cases found) (auto simp: tx_bind_def tx_map_err_def Let_def better_def acceptable_def resume_key_def resume_of_def
            split: if_splits cong del: option.case_cong_weak)
      from Cons.IH [OF this] t show ?thesis by auto
    qed
  qed
qed

text \<open>The fold keeps the largest key of the acceptable files; of equal keys the first.\<close>

lemma better_cases:
  obtains (keep) "better api root job_id now db e best = best"
      "\<And>man. acceptable api root job_id now db e man \<Longrightarrow> \<exists>k p. best = Some (k, p) \<and> resume_key api man \<le> k"
  | (take) man where "acceptable api root job_id now db e man"
      "better api root job_id now db e best = Some (resume_key api man, resume_of api e man)"
      "\<And>k p. best = Some (k, p) \<Longrightarrow> k < resume_key api man"
      "\<And>man'. acceptable api root job_id now db e man' \<Longrightarrow> man' = man"
proof (cases "\<exists>man. acceptable api root job_id now db e man \<and> (case best of None \<Rightarrow> True | Some (k, _) \<Rightarrow> resume_key api man > k)")
  case True
  then obtain man where man: "acceptable api root job_id now db e man"
    "case best of None \<Rightarrow> True | Some (k, _) \<Rightarrow> resume_key api man > k" by blast
  then have "rs_decode api (snd e) = Some man" by (simp add: acceptable_def)
  with man show ?thesis by (intro take [of man]) (auto simp: better_def acceptable_def)
next
  case False
  then show ?thesis
    by (intro keep) (auto simp: better_def not_less split: option.splits)
qed

lemma fold_better:
  "fold (better api root job_id now db) listed best = res \<Longrightarrow>
     (\<forall>k p. best = Some (k, p) \<longrightarrow> (\<exists>k' p'. res = Some (k', p') \<and> k \<le> k')) \<and>
     (\<forall>e man. e \<in> set listed \<longrightarrow> acceptable api root job_id now db e man \<longrightarrow>
        (\<exists>k p. res = Some (k, p) \<and> resume_key api man \<le> k)) \<and>
     (res = best \<or> (\<exists>e man. e \<in> set listed \<and> acceptable api root job_id now db e man \<and>
        res = Some (resume_key api man, resume_of api e man)))"
proof (induction listed arbitrary: best)
  case (Cons e listed)
  from Cons.prems have "fold (better api root job_id now db) listed (better api root job_id now db e best) = res" by simp
  note IH = Cons.IH [OF this]
  show ?case
  proof (cases rule: better_cases [of api root job_id now db e best])
    case keep
    have "\<exists>k p. res = Some (k, p) \<and> resume_key api man \<le> k" if "acceptable api root job_id now db e man" for man
      using keep(2) [OF that] IH keep(1) order_trans by fastforce
    with IH show ?thesis unfolding keep(1) by (simp only: list.set insert_iff) blast
  next
    case (take man)
    obtain k p where k: "res = Some (k, p)" "resume_key api man \<le> k"
      using IH [THEN conjunct1, rule_format, OF take(2)] by blast
    have "\<exists>k p. res = Some (k, p) \<and> resume_key api man' \<le> k"
      if "e' \<in> set (e # listed)" "acceptable api root job_id now db e' man'" for e' man'
      using that k take(4) IH [THEN conjunct2, THEN conjunct1] by (simp only: list.set insert_iff) blast
    moreover have "\<exists>k' p'. res = Some (k', p') \<and> k0 \<le> k'" if "best = Some (k0, p0)" for k0 p0
      using k less_le_trans [OF take(3) [OF that] k(2)] less_imp_le by blast
    moreover have "res = best \<or> (\<exists>e' man. e' \<in> set (e # listed) \<and> acceptable api root job_id now db e' man \<and>
        res = Some (resume_key api man, resume_of api e' man))"
      using IH [THEN conjunct2, THEN conjunct2] take(1,2) by (simp only: list.set insert_iff) blast
    ultimately show ?thesis by blast
  qed
qed auto

definition best_of :: "'ckpt resume_api \<Rightarrow> failover_policy \<Rightarrow> str \<Rightarrow> u64 \<Rightarrow> 'm staging_db_scheme \<Rightarrow> resume_point option \<Rightarrow> bool" where
  "best_of api policy job_id now db found \<longleftrightarrow>
     (case fp_shared_checkpoint_root policy of
        None \<Rightarrow> found = None
      | Some root \<Rightarrow>
          (case rs_list api root job_id of
             None \<Rightarrow> found = None
           | Some listed \<Rightarrow>
               (case found of
                  None \<Rightarrow> \<forall>e \<in> set listed. \<forall>man. \<not> acceptable api root job_id now db e man
                | Some p \<Rightarrow>
                    \<exists>e man. e \<in> set listed \<and> acceptable api root job_id now db e man \<and> p = resume_of api e man \<and>
                      (\<forall>e' \<in> set listed. \<forall>man'. acceptable api root job_id now db e' man' \<longrightarrow>
                         resume_key api man' \<le> resume_key api man))))"

lemma find_resume_point_Ok:
  assumes "find_resume_point api policy job_id now err db = (Inr found, db')"
  shows "best_of api policy job_id now db found" and "\<exists>t. db' = db\<lparr>db_tape := t\<rparr>"
proof -
  have "best_of api policy job_id now db found \<and> (\<exists>t. db' = db\<lparr>db_tape := t\<rparr>)"
  proof (cases "case fp_shared_checkpoint_root policy of None \<Rightarrow> None | Some root \<Rightarrow> rs_list api root job_id")
    case None
    with assms have "found = None" "db' = db"
      by (auto simp: find_resume_point_def tx_ok split: option.splits if_splits)
    moreover have "db = db\<lparr>db_tape := db_tape db\<rparr>" by simp
    moreover have "best_of api policy job_id now db None" using None by (simp add: best_of_def split: option.splits)
    ultimately show ?thesis by metis
  next
    case (Some listed)
    then obtain root where root: "fp_shared_checkpoint_root policy = Some root" "rs_list api root job_id = Some listed"
      by (auto split: option.splits)
    with assms obtain best where b: "best_resume_point api root job_id now listed None db = (Inr best, db')"
      and f: "found = map_option snd best"
      by (auto simp: find_resume_point_def tx_ok)
    note r = best_resume_point_Ok [OF b]
    note m = fold_better [OF r [THEN conjunct1, symmetric]]
    show ?thesis
    proof (cases best)
      case None
      with f root r m show ?thesis by (auto simp: best_of_def)
    next
      case (Some x)
      then have "best \<noteq> None" by simp
      with m obtain e man where e: "e \<in> set listed" "acceptable api root job_id now db e man"
        "best = Some (resume_key api man, resume_of api e man)" by blast
      with m have "\<forall>e' \<in> set listed. \<forall>man'. acceptable api root job_id now db e' man' \<longrightarrow>
          resume_key api man' \<le> resume_key api man" by (metis option.inject prod.inject)
      moreover have "found = Some (resume_of api e man)" using f e(3) by simp
      ultimately have "best_of api policy job_id now db found"
        using e(1,2) by (simp only: best_of_def root option.case) blast
      with r show ?thesis by blast
    qed
  qed
  then show "best_of api policy job_id now db found" "\<exists>t. db' = db\<lparr>db_tape := t\<rparr>" by blast+
qed

text \<open>An empty file decodes to the default message, which carries no signature.\<close>

definition no_empty_body :: "'ckpt resume_api \<Rightarrow> bool" where
  "no_empty_body api \<longleftrightarrow> (\<forall>man now. rs_decode api [] = Some man \<longrightarrow> \<not> rs_verify api man now)"

lemma best_of_body:
  assumes "best_of api policy job_id now db found" and "no_empty_body api"
  shows "map_option rp_body found \<noteq> Some []"
  using assms
  by (auto simp: best_of_def acceptable_def no_empty_body_def resume_of_def split: option.splits)

section \<open>A lost attempt\<close>

lemma check_lost_Ok:
  assumes "check_lost policy now i db = (Inr (j, a), db')" and "jobs_ok (jd_jobs db)"
  obtains t r ra l rl where "db' = db\<lparr>db_tape := t\<rparr>"
    "hm_get (jd_jobs db) i = Some r" "job_into_stored r = Inr j" "sj_job_id j = i"
    "sj_state j \<in> {JobStaging, JobRunning}"
    "latest_attempt_row (jd_attempts db) i = Some (sa_attempt_id a)"
    "hm_get (jd_attempts db) (sa_attempt_id a) = Some ra" "sa_lease_id a = ra_lease_id ra"
    "attempt_in db (sa_attempt_id a) = Ok (Some a)" "\<not> attempt_is_over (sa_state a)"
    "hm_get (ld_leases db) (sa_lease_id a) = Some rl" "into_stored rl = Inr l" "lost_at policy l < now"
proof -
  from assms(1) obtain t1 t2 db3 db4 i' l where
    f: "map_transpose job_into_stored (hm_get (jd_jobs db) i) = Inr (Some j)"
    and st: "sj_state j \<in> {JobStaging, JobRunning}"
    and la: "latest_attempt_row (jd_attempts db) (sj_job_id j) = Some i'"
    and fa: "fetch_attempt i' (db\<lparr>db_tape := t2\<rparr>) = (Inr (Some a), db3)"
    and over: "\<not> attempt_is_over (sa_state a)"
    and fl: "fetch_lease (sa_lease_id a) db3 = (Inr (Some l), db')" and lost: "lost_at policy l < now"
    unfolding check_lost_def select_latest_def
    by (auto simp: tx_bind_Ok lift_result_Ok tx_map_err_Ok fetch_job_Ok ok_or_Ok reject_if_Ok tx_return_Ok statement_Ok)
  from f obtain r where r: "hm_get (jd_jobs db) i = Some r" "job_into_stored r = Inr j"
    by (auto simp: map_transpose_Ok split: option.splits)
  have id: "sj_job_id j = i" using assms(2) r(1) job_into_stored_id [OF r(2)] by (auto simp: jobs_ok_def)
  from fetch_attempt_Ok(1,3) [OF fa] obtain t3 ra where 3: "db3 = db\<lparr>db_tape := t3\<rparr>"
    and ra: "hm_get (jd_attempts db) i' = Some ra" "sa_attempt_id a = i'" "sa_lease_id a = ra_lease_id ra"
    by (auto simp: same_tables_def)
  from fetch_lease_same(1) [OF fl] fetch_lease_Ok [OF fl] 3 obtain t4 rl where "db' = db\<lparr>db_tape := t4\<rparr>"
    "hm_get (ld_leases db) (sa_lease_id a) = Some rl" "into_stored rl = Inr l" by auto
  with that r id st la over lost ra fetch_attempt_in [OF fa] show ?thesis by simp
qed

definition reservations_frame :: "'m staging_db_scheme \<Rightarrow> 'm staging_db_scheme \<Rightarrow> bool" where
  "reservations_frame db db' \<longleftrightarrow> (\<exists>t v g. db' = db\<lparr>db_tape := t, sd_reservations := v, sd_reservation_gpus := g\<rparr>)"

lemma reservations_frame_intro [intro]:
  "reservations_frame db (db\<lparr>sd_reservations := v\<rparr>)" "reservations_frame db (db\<lparr>sd_reservation_gpus := g\<rparr>)"
  "reservations_frame db db" "reservations_frame db (db\<lparr>db_tape := t\<rparr>)"
proof -
  have "db\<lparr>sd_reservations := v\<rparr> = db\<lparr>db_tape := db_tape db, sd_reservations := v, sd_reservation_gpus := sd_reservation_gpus db\<rparr>"
    "db\<lparr>sd_reservation_gpus := g\<rparr> = db\<lparr>db_tape := db_tape db, sd_reservations := sd_reservations db, sd_reservation_gpus := g\<rparr>"
    "db = db\<lparr>db_tape := db_tape db, sd_reservations := sd_reservations db, sd_reservation_gpus := sd_reservation_gpus db\<rparr>"
    "db\<lparr>db_tape := t\<rparr> = db\<lparr>db_tape := t, sd_reservations := sd_reservations db, sd_reservation_gpus := sd_reservation_gpus db\<rparr>"
    by simp_all
  then show "reservations_frame db (db\<lparr>sd_reservations := v\<rparr>)" "reservations_frame db (db\<lparr>sd_reservation_gpus := g\<rparr>)"
    "reservations_frame db db" "reservations_frame db (db\<lparr>db_tape := t\<rparr>)"
    unfolding reservations_frame_def by blast+
qed

interpretation rf: tx_relation "reservations_frame :: 'm staging_db_scheme \<Rightarrow> 'm staging_db_scheme \<Rightarrow> bool"
proof unfold_locales
  fix a b c :: "'m staging_db_scheme"
  assume "reservations_frame a b" "reservations_frame b c"
  then obtain t v g t' v' g' where "b = a\<lparr>db_tape := t, sd_reservations := v, sd_reservation_gpus := g\<rparr>"
    "c = b\<lparr>db_tape := t', sd_reservations := v', sd_reservation_gpus := g'\<rparr>"
    by (auto simp: reservations_frame_def)
  then have "c = a\<lparr>db_tape := t', sd_reservations := v', sd_reservation_gpus := g'\<rparr>" by (cases a) simp
  then show "reservations_frame a c" by (auto simp: reservations_frame_def)
qed auto

lemma mark_reservation_expired_frame: "reservations_frame db (snd (mark_reservation_expired n at db))"
  unfolding mark_reservation_expired_def by (rule rf.R_bind, rule rf.R_statement) (auto intro: rf.R_simple split: option.splits)

lemma reservations_frame_reach: "reservations_frame db db' \<Longrightarrow> control_reach db db'"
proof -
  assume "reservations_frame db db'"
  then obtain t v g where "db' = db\<lparr>db_tape := t, sd_reservations := v, sd_reservation_gpus := g\<rparr>"
    by (auto simp: reservations_frame_def)
  then have "db' = db\<lparr>sd_reservations := v, sd_reservation_gpus := g, db_tape := t\<rparr>" by (cases db) simp
  moreover have "control_reach db (db\<lparr>sd_reservations := v, sd_reservation_gpus := g\<rparr>)"
    by (rule r_into_rtranclp, rule control_change.reservations)
  ultimately show ?thesis by (simp add: reach_tape_cong)
qed

lemma jobs_move_leases: "jobs_move db db' \<Longrightarrow> ld_leases db' = ld_leases db \<and> jd_attempts db' = jd_attempts db"
  by (auto simp: jobs_move_def)

lemma revoke_within_Ok:
  assumes "revoke_within i at db = (Inr u, db')"
  obtains r where "hm_get (ld_leases db) i = Some r" "ld_leases db' = hm_insert i (coalesce_revoked at r) (ld_leases db)"
  using assms by (auto simp: revoke_within_def update_lease_def tx_ok split: option.splits if_splits)

text \<open>What taking a job over has done.\<close>

lemma take_over_Ok:
  assumes "take_over api policy now j a db = (Inr outcome, db')" and "no_empty_body api"
    and j: "hm_get (jd_jobs db) (sj_job_id j) = Some r" "job_into_stored r = Inr j"
  obtains found k rl where "control_reach db db'" "job_step j k" "sj_state k \<in> {JobQueued, JobFailed}"
    "jd_jobs db' = hm_insert (sj_job_id j) (row_of k) (jd_jobs db)"
    "hm_get (ld_leases db) (sa_lease_id a) = Some rl"
    "ld_leases db' = hm_insert (sa_lease_id a) (coalesce_revoked now rl) (ld_leases db)"
    "jd_attempts db' = jd_attempts db"
    "sj_state j = JobRunning \<longrightarrow> best_of api policy (sj_job_id j) now db found"
    "sj_state j \<noteq> JobRunning \<longrightarrow> found = None"
    "outcome = (if sj_state k = JobQueued then
        Requeued (sj_job_id j) (sa_attempt_id a) (first_node a) (sj_state j = JobRunning)
          (map_option (\<lambda>p. (rp_checkpoint_id p, rp_step p)) found)
      else FailedNoCheckpoint (sj_job_id j) (sa_attempt_id a) (first_node a))"
proof -
  from assms(1) obtain found db1 k db2 db3 b where
    f: "(if sj_state j = JobRunning then find_resume_point api policy (sj_job_id j) now False else tx_return None) db = (Inr found, db1)"
    and q: "requeue_after_node_lost j (map_option rp_body found) now db1 = (Inr k, db2)"
    and v: "revoke_within (sa_lease_id a) now db2 = (Inr (), db3)"
    and m: "(if first_node a \<noteq> [] then tx_map_err FailoverStaging (mark_reservation_expired (first_node a) now) else tx_return False) db3 = (Inr b, db')"
    and out: "outcome = (if sj_state k = JobQueued then
        Requeued (sj_job_id j) (sa_attempt_id a) (first_node a) (sj_state j = JobRunning)
          (map_option (\<lambda>p. (rp_checkpoint_id p, rp_step p)) found)
      else FailedNoCheckpoint (sj_job_id j) (sa_attempt_id a) (first_node a))"
    unfolding take_over_def Let_def by (auto simp: tx_bind_Ok tx_map_err_Ok tx_return_Ok)
  have best: "sj_state j = JobRunning \<longrightarrow> best_of api policy (sj_job_id j) now db found" "sj_state j \<noteq> JobRunning \<longrightarrow> found = None"
    and 1: "\<exists>t. db1 = db\<lparr>db_tape := t\<rparr>"
    using f find_resume_point_Ok [of api policy "sj_job_id j" now False db found db1]
    by (auto simp: tx_return_Ok intro: exI [of _ "db_tape db"] split: if_splits)
  then have ne: "map_option rp_body found \<noteq> Some []" using best_of_body [OF _ assms(2)] by fastforce
  have j1: "hm_get (jd_jobs db1) (sj_job_id j) = Some r" using 1 j(1) by auto
  note s = requeue_after_node_lost_step [OF q j1 j(2) ne]
  obtain rl where rl: "hm_get (ld_leases db2) (sa_lease_id a) = Some rl"
      "ld_leases db3 = hm_insert (sa_lease_id a) (coalesce_revoked now rl) (ld_leases db2)"
    by (rule revoke_within_Ok [OF v])
  have fr: "reservations_frame db3 db'"
    using m mark_reservation_expired_frame [of db3 "first_node a" now] by (auto simp: tx_map_err_Ok tx_return_Ok split: if_splits)
  have lf: "lease_frame db2 db3" using lease_call_frame [of db2 "RevokeWithin (sa_lease_id a) now"] v by simp
  have "control_reach db2 db3" using lease_call_reach [of db2 "RevokeWithin (sa_lease_id a) now"] v by simp
  with jobs_move_reach [OF s(1)] reservations_frame_reach [OF fr] have "control_reach db1 db'" by simp
  then have "control_reach db db'" using 1 by auto
  moreover have "ld_leases db' = ld_leases db3" "jd_attempts db' = jd_attempts db" "jd_jobs db' = jd_jobs db2"
    "ld_leases db2 = ld_leases db"
    using fr lf jobs_move_leases [OF s(1)] 1 by (auto simp: reservations_frame_def lease_frame_def)
  moreover have "jd_jobs db2 = hm_insert (sj_job_id j) (row_of k) (jd_jobs db)"
    using s(4) 1 by auto
  ultimately show ?thesis using that [of k rl found] s(2,3) best out rl by auto
qed

section \<open>Calls of failover\<close>

lemma failover_one_reach:
  assumes "control_ok db" and "no_empty_body api"
  shows "control_reach db (snd (failover_one api policy now i db))"
  unfolding failover_one_def
proof (rule or_drop_reach)
  fix t x db1
  have jobs: "jobs_ok (jd_jobs (db\<lparr>db_tape := t\<rparr>))" using assms(1) by (simp add: control_ok_def)
  assume "tx_bind (check_lost policy now i) (\<lambda>(job, attempt).
     tx_bind (tx_map_err Inr (take_over api policy now job attempt)) (\<lambda>outcome. tx_return (Some outcome)))
     (db\<lparr>db_tape := t\<rparr>) = (Inr x, db1)"
  then obtain j a db2 out where c: "check_lost policy now i (db\<lparr>db_tape := t\<rparr>) = (Inr (j, a), db2)"
    and k: "take_over api policy now j a db2 = (Inr out, db1)"
    by (auto simp: tx_bind_Ok tx_map_err_Ok tx_return_Ok)
  obtain t2 r where 2: "db2 = db\<lparr>db_tape := t, db_tape := t2\<rparr>" "hm_get (jd_jobs db) i = Some r"
    "job_into_stored r = Inr j" "sj_job_id j = i"
    by (rule check_lost_Ok [OF c jobs]) simp
  have j: "hm_get (jd_jobs db2) (sj_job_id j) = Some r" using 2 by simp
  have "control_reach db2 db1" by (rule take_over_Ok [OF k assms(2) j 2(3)])
  with 2(1) show "control_reach db db1" by simp
qed

lemma failover_jobs_reach:
  assumes "control_ok db" and "no_empty_body api"
  shows "control_reach db (snd (failover_jobs api policy now js db))"
  using assms(1)
proof (induction js arbitrary: db)
  case (Cons j js)
  note one = failover_one_reach [OF Cons.prems assms(2), of policy now "sj_job_id j"]
  show ?case unfolding failover_jobs.simps
  proof (rule ctl.R_bind, rule one, intro ctl.R_bind ctl.R_simple)
    fix x db1 assume "failover_one api policy now (sj_job_id j) db = (Inr x, db1)"
    with one have "control_ok db1" using reach_ok [OF _ Cons.prems] by simp
    then show "control_reach db1 (snd (failover_jobs api policy now js db1))" by (rule Cons.IH)
  qed
qed (simp add: ctl.R_simple)

lemma columns_reach: "control_reach db (db\<lparr>jd_columns := c\<rparr>)" "control_reach db (db\<lparr>ld_columns := c'\<rparr>)"
proof -
  have "control_change db (db\<lparr>ld_columns := ld_columns db, jd_columns := c\<rparr>)"
    "control_change db (db\<lparr>ld_columns := c', jd_columns := jd_columns db\<rparr>)"
    by (rule control_change.columns)+
  then show "control_reach db (db\<lparr>jd_columns := c\<rparr>)" "control_reach db (db\<lparr>ld_columns := c'\<rparr>)" by auto
qed

lemma read_reach: "control_reach db (snd (statement f (\<lambda>db. (g db, db)) db))"
  by (rule ctl.R_statement) simp

lemma write_reach:
  assumes "\<And>db. control_reach db (h db)"
  shows "control_reach db (snd (statement f (\<lambda>db. (x, h db)) db))"
  by (rule ctl.R_statement) (simp only: snd_conv assms)

lemma add_job_column_reach: "control_reach db (snd (add_job_column c db))"
  unfolding add_job_column_def
  by (rule ctl.R_bind [OF read_reach]) (simp add: write_reach columns_reach ctl.R_simple)

lemma add_job_columns_reach: "control_reach db (snd (add_job_columns cs db))"
  by (induction cs arbitrary: db) (simp_all add: ctl.R_simple ctl.R_bind add_job_column_reach)

lemma transaction_reach_all:
  assumes "\<And>db. control_reach db (snd (body db))"
  shows "control_reach db (snd (in_transaction f body db))"
  by (rule ctl.R_in_transaction) (metis assms snd_conv)

lemma job_initialize_schema_reach: "control_reach db (snd (job_initialize_schema db))"
  unfolding job_initialize_schema_def
  by (intro ctl.R_bind write_reach columns_reach transaction_reach_all add_job_columns_reach)

lemma migrate_column_reach: "control_reach db (snd (migrate_column c db))"
  unfolding migrate_column_def
  by (rule transaction_reach_all, rule ctl.R_bind [OF read_reach]) (simp add: write_reach columns_reach ctl.R_simple)

lemma initialize_schema_reach: "control_reach db (snd (initialize_schema db))"
  unfolding initialize_schema_def by (intro ctl.R_bind write_reach columns_reach migrate_column_reach)

lemma open_stores_reach:
  "control_reach db (snd (open_job_store db))" "control_reach db (snd (open_staging_store db))"
  unfolding open_job_store_def open_staging_store_def staging_initialize_schema_def
  by (intro ctl.R_bind read_reach ctl.R_map_err job_initialize_schema_reach initialize_schema_reach)+

lemma list_in_run_states_same: "same_tables db (snd (list_in_run_states db))"
  unfolding list_in_run_states_def select_in_states_def by (auto intro!: st.R_bind same_reads)

lemma failover_lost_attempts_reach:
  assumes "control_ok db" and "no_empty_body api"
  shows "control_reach db (snd (failover_lost_attempts api policy now db))"
proof -
  have *: "control_reach db (snd (tx_bind m f db))"
    if "control_reach db (snd (m db))" "control_ok db"
      "\<And>x db1. control_ok db1 \<Longrightarrow> control_reach db1 (snd (f x db1))"
    for db :: "'a control_db_scheme" and m :: "('a, 'x) failover_tx" and f :: "'x \<Rightarrow> ('a, 'y) failover_tx"
    using that by (intro ctl.R_bind) (auto dest: reach_ok)
  show ?thesis unfolding failover_lost_attempts_def
    by (intro * open_stores_reach ctl.R_map_err read_reach same_tables_reach [OF list_in_run_states_same]
        failover_jobs_reach assms)
qed

text \<open>The tables of an operator's release and of a preemption.\<close>

lemma bookkeeping_reach:
  "control_reach db (db\<lparr>cd_operator_releases := x\<rparr>)" "control_reach db (db\<lparr>cd_reclaims := y\<rparr>)"
  "control_reach db (db\<lparr>cd_session_seen := z\<rparr>)"
proof -
  have "control_change db (db\<lparr>cd_operator_releases := x, cd_reclaims := cd_reclaims db, cd_session_seen := cd_session_seen db\<rparr>)"
    "control_change db (db\<lparr>cd_operator_releases := cd_operator_releases db, cd_reclaims := y, cd_session_seen := cd_session_seen db\<rparr>)"
    "control_change db (db\<lparr>cd_operator_releases := cd_operator_releases db, cd_reclaims := cd_reclaims db, cd_session_seen := z\<rparr>)"
    by (rule control_change.bookkeeping)+
  then show "control_reach db (db\<lparr>cd_operator_releases := x\<rparr>)" "control_reach db (db\<lparr>cd_reclaims := y\<rparr>)"
    "control_reach db (db\<lparr>cd_session_seen := z\<rparr>)" by auto
qed

lemma reservations_reach:
  "control_reach db (db\<lparr>sd_reservations := v\<rparr>)" "control_reach db (db\<lparr>sd_reservation_gpus := g\<rparr>)"
  by (rule reservations_frame_reach, blast)+

lemma select_latest_reach: "control_reach db (snd (select_latest i db))"
  unfolding select_latest_def by (rule read_reach)

lemma conditional_write_reach:
  "(\<And>db. control_reach db (snd (act db))) \<Longrightarrow> control_reach db (snd (statement f act db))"
  by (rule ctl.R_statement) blast

lemma constrained_write_reach:
  "(\<And>db. control_reach db (snd (act db))) \<Longrightarrow> control_reach db (snd (statement_result f act db))"
  by (rule ctl.R_statement_result) blast

lemmas read_reaches = same_tables_reach [OF fetch_node_reservation_same] same_tables_reach [OF fetch_job_same]
  same_tables_reach [OF fetch_attempt_same] select_latest_reach read_reach ctl.R_simple ctl.R_map_err

lemma delete_reservation_reach: "control_reach db (snd (statement FailoverSql (\<lambda>db.
     case hm_get (sd_reservations db) n of
       Some r \<Rightarrow> if rv_attempt_id r = a then (1 :: nat, db\<lparr>sd_reservations := hm_remove n (sd_reservations db)\<rparr>) else (0, db)
     | None \<Rightarrow> (0, db)) db))"
  by (rule conditional_write_reach) (simp add: reservations_reach split: option.split)

lemma insert_release_reach: "control_reach db (snd (statement_result FailoverSql (\<lambda>db.
     if hm_contains_key (cd_operator_releases db) k then (Err (FailoverSql SqliteOther), db)
     else (Ok (), db\<lparr>cd_operator_releases := hm_insert k v (cd_operator_releases db)\<rparr>)) db))"
  by (rule constrained_write_reach) (simp add: bookkeeping_reach)

lemma release_body_reach: "control_reach db (snd (release_body n s now db))"
  unfolding release_body_def release_rows_def
  by (intro ctl.R_bind read_reaches write_reach reservations_reach delete_reservation_reach insert_release_reach)

lemma release_reach: "control_reach db (snd (release_lost_node_by_operator n s now db))"
  unfolding release_lost_node_by_operator_def
  by (intro ctl.R_bind read_reaches open_stores_reach transaction_reach_all release_body_reach)

lemma preempt_running_reach:
  fixes db db' :: "'m control_db_scheme"
  assumes "no_empty_body api" and "hm_get (jd_jobs db) i = Some r" and "job_into_stored r = Inr j" and "sj_job_id j = i"
  shows "preempt_running api policy i a n now j db = (Inr x, db') \<Longrightarrow> control_reach db db'"
proof -
  define tail where "(tail :: resume_point option \<Rightarrow> ('m, u64 option) failover_tx) found =
      tx_bind (statement FailoverSql (\<lambda>db. (cd_session_seen db \<noteq> None, db))) (\<lambda>seen_table.
      tx_bind (if seen_table then statement FailoverSql (\<lambda>db. ((), db\<lparr>cd_session_seen :=
         map_option (hm_remove n) (cd_session_seen db)\<rparr>)) else tx_return ()) (\<lambda>_.
      tx_bind (statement FailoverSql (\<lambda>db. ((), db\<lparr>cd_reclaims :=
         hm_insert n (to_be_bytes_u64 now) (cd_reclaims db)\<rparr>))) (\<lambda>_.
       tx_return (map_option rp_step found))))" for found
  have tail: "control_reach db (snd (tail found db))" for db found unfolding tail_def
    by (intro ctl.R_bind read_reach ctl.R_simple write_reach bookkeeping_reach)
      (simp add: write_reach bookkeeping_reach ctl.R_simple)
  assume "preempt_running api policy i a n now j db = (Inr x, db')"
  then obtain found db1 k db2 fa db3 db4 where
    f: "find_resume_point api policy i now True db = (Inr found, db1)"
    and p: "pause_for_owner_preempt j (map_option rp_body found) db1 = (Inr k, db2)"
    and at: "fetch_attempt a db2 = (Inr (Some fa), db3)" and v: "revoke_within (sa_lease_id fa) now db3 = (Inr (), db4)"
    and rest: "tail found db4 = (Inr x, db')"
    unfolding preempt_running_def tail_def [symmetric]
    by (auto simp: tx_bind_Ok tx_map_err_Ok lift_result_Ok ok_or_Ok)
  obtain t where 1: "db1 = db\<lparr>db_tape := t\<rparr>" using find_resume_point_Ok(2) [OF f] by blast
  have ne: "map_option rp_body found \<noteq> Some []" using best_of_body [OF find_resume_point_Ok(1) [OF f] assms(1)] .
  have j1: "hm_get (jd_jobs db1) (sj_job_id j) = Some r" using 1 assms(2,4) by simp
  have "control_reach db1 db2" by (rule jobs_move_reach [OF pause_for_owner_preempt_step(1) [OF p j1 assms(3) ne]])
  moreover have "control_reach db2 db3" using fetch_attempt_same [of db2 a] at by (simp add: same_tables_reach)
  moreover have "control_reach db3 db4" using lease_call_reach [of db3 "RevokeWithin (sa_lease_id fa) now"] v by simp
  moreover have "control_reach db4 db'" using tail [of db4 found] rest by simp
  ultimately show ?thesis using rest 1 by simp
qed

lemma pause_within_reach:
  fixes db db' :: "'m control_db_scheme"
  assumes "pause_for_owner_preempt_within api policy i a n now db = (Inr x, db')" and "control_ok db" and "no_empty_body api"
  shows "control_reach db db'"
proof -
  define body where "(body :: stored_job option \<Rightarrow> ('m, (u64 option) option) failover_tx) found =
    (case found of
       None \<Rightarrow> tx_return None
     | Some job \<Rightarrow>
         if sj_state job \<noteq> JobRunning then tx_return None
         else
           tx_bind (select_latest i) (\<lambda>latest.
           if latest \<noteq> Some a then tx_return None
           else tx_bind (preempt_running api policy i a n now job) (\<lambda>step. tx_return (Some step))))" for found
  from assms(1) obtain t found where f: "map_transpose job_into_stored (hm_get (jd_jobs db) i) = Inr found"
    and run: "body found (db\<lparr>db_tape := t\<rparr>) = (Inr x, db')"
    unfolding pause_for_owner_preempt_within_def body_def [symmetric]
    by (auto simp: tx_bind_Ok statement_Ok tx_map_err_Ok fetch_job_Ok)
  show ?thesis
  proof (cases found)
    case None
    with run show ?thesis by (simp add: body_def tx_return_Ok)
  next
    case (Some j)
    with f obtain r where r: "hm_get (jd_jobs db) i = Some r" "job_into_stored r = Inr j"
      by (auto simp: map_transpose_Ok split: option.splits)
    have id: "sj_job_id j = i" using assms(2) r(1) job_into_stored_id [OF r(2)] by (auto simp: control_ok_def jobs_ok_def)
    from run Some consider t' where "db' = db\<lparr>db_tape := t'\<rparr>"
      | t' y where "preempt_running api policy i a n now j (db\<lparr>db_tape := t'\<rparr>) = (Inr y, db')"
      by (auto simp: body_def tx_bind_Ok tx_return_Ok select_latest_def statement_Ok split: if_splits)
    then show ?thesis
    proof cases
      case (2 t' y)
      from preempt_running_reach [OF assms(3) _ r(2) id 2] r(1) show ?thesis by simp
    qed auto
  qed
qed

lemma owner_preempt_reach:
  assumes "control_ok db" and "no_empty_body api"
  shows "control_reach db (snd (owner_preempt api policy i a n now db))"
  unfolding owner_preempt_def
proof (intro ctl.R_bind read_reach transaction_reach)
  fix x db1 y db2 z db3 t v db4
  assume "statement FailoverSql (\<lambda>db. ((), db)) db = (Inr x, db1)" "statement FailoverSql (\<lambda>db. ((), db)) db1 = (Inr y, db2)"
    "statement FailoverSql (\<lambda>db. ((), db)) db2 = (Inr z, db3)"
    and run: "pause_for_owner_preempt_within api policy i a n now (db3\<lparr>db_tape := t\<rparr>) = (Inr v, db4)"
  then have "control_ok (db3\<lparr>db_tape := t\<rparr>)" using assms(1) by (auto simp: statement_Ok)
  from pause_within_reach [OF run this assms(2)] show "control_reach db3 db4" by simp
qed

end
