(* ===== verification/Control_Reports.thy ===== *)
theory Control_Reports
  imports Control_Failover
begin

text \<open>
  The calls of the report and release stores are sequences of changes of the control database. A
  transaction whose successful runs are such sequences \<open>keeps\<close> the database sound, and so does
  every composition of such transactions.
\<close>

definition keeps :: "('m control_db_scheme \<Rightarrow> ('e + 'a) \<times> 'm control_db_scheme) \<Rightarrow> bool" where
  "keeps m \<longleftrightarrow> (\<forall>db x db'. control_ok db \<longrightarrow> m db = (Inr x, db') \<longrightarrow> control_reach db db')"

lemma keeps_reach: "(\<And>db. control_reach db (snd (m db))) \<Longrightarrow> keeps m"
  unfolding keeps_def by (metis snd_conv)

lemma keeps_bind: "keeps m \<Longrightarrow> (\<And>x. keeps (f x)) \<Longrightarrow> keeps (tx_bind m f)"
  unfolding keeps_def by (auto simp: tx_bind_Ok) (metis reach_ok rtranclp_trans)

lemma keeps_map_err: "keeps m \<Longrightarrow> keeps (tx_map_err f m)"
  unfolding keeps_def by (simp add: tx_map_err_Ok)

lemma keeps_same: "(\<And>db. same_tables db (snd (m db))) \<Longrightarrow> keeps m"
  by (rule keeps_reach) (rule same_tables_reach)

lemma keeps_simple: "keeps (tx_return x)" "keeps (tx_fail e)" "keeps (lift_result r)"
  by (rule keeps_reach, rule ctl.R_simple)+

lemma keeps_statement: "(\<And>db. control_reach db (snd (act db))) \<Longrightarrow> keeps (statement f act)"
  by (rule keeps_reach) (rule conditional_write_reach)

lemma keeps_statement_result: "(\<And>db. control_reach db (snd (act db))) \<Longrightarrow> keeps (statement_result f act)"
  by (rule keeps_reach) (rule constrained_write_reach)

lemma keeps_case_option: "keeps a \<Longrightarrow> (\<And>x. keeps (f x)) \<Longrightarrow> keeps (case o' of None \<Rightarrow> a | Some x \<Rightarrow> f x)"
  by (cases o') simp_all

lemma keeps_if: "keeps a \<Longrightarrow> keeps b \<Longrightarrow> keeps (if c then a else b)"
  by simp

lemma keeps_in_transaction:
  assumes "keeps body" and "control_ok db"
  shows "control_reach db (snd (in_transaction f body db))"
proof (rule transaction_reach)
  fix t x db1 assume "body (db\<lparr>db_tape := t\<rparr>) = (Inr x, db1)"
  moreover have "control_ok (db\<lparr>db_tape := t\<rparr>)" using assms(2) by simp
  ultimately have "control_reach (db\<lparr>db_tape := t\<rparr>) db1" using assms(1) unfolding keeps_def by blast
  then show "control_reach db db1" by simp
qed

lemmas keeps_intros = keeps_bind keeps_map_err keeps_simple keeps_case_option keeps_if

section \<open>Reads\<close>

lemma same_cases:
  "(\<And>db. same_tables db (snd (a db))) \<Longrightarrow> (\<And>x db. same_tables db (snd (f x db))) \<Longrightarrow>
     same_tables db (snd ((case o' of None \<Rightarrow> a | Some x \<Rightarrow> f x) db))"
  "(\<And>x y db. same_tables db (snd (g x y db))) \<Longrightarrow> same_tables db (snd ((case p of (x, y) \<Rightarrow> g x y) db))"
  by (cases o'; simp) (cases p; simp)

lemma fetch_report_binding_same: "same_tables db (snd (fetch_report_binding api a n db))"
  unfolding fetch_report_binding_def Let_def
  by (intro st.R_bind read_same same_cases st.R_simple st.R_map_err fetch_attempt_same)

lemma fetch_release_same: "same_tables db (snd (fetch_release a db))"
  unfolding fetch_release_def fetch_released_gpu_ids_def Let_def
  by (intro st.R_bind read_same same_cases st.R_simple)

lemmas keeps_reads = keeps_same [OF fetch_report_binding_same] keeps_same [OF fetch_release_same]
  keeps_same [OF fetch_attempt_same] keeps_same [OF fetch_node_reservation_same]

section \<open>Writes\<close>

lemma release_tables_reach:
  "control_reach db (db\<lparr>cd_release_gpus := g\<rparr>)"
  "\<not> hm_contains_key (cd_releases db) k \<Longrightarrow> control_reach db (db\<lparr>cd_releases := hm_insert k rel (cd_releases db)\<rparr>)"
  "\<not> hm_contains_key (cd_reports db) p \<Longrightarrow> control_reach db (db\<lparr>cd_reports := hm_insert p row (cd_reports db)\<rparr>)"
  by (auto simp: hm_contains_key_def intro!: r_into_rtranclp control_change.intros)

lemma insert_release_gpus_keeps: "keeps (insert_release_gpus a n gs)"
  by (induction gs arbitrary: n)
    (auto intro!: keeps_intros keeps_statement_result simp: release_tables_reach)

lemma release_writes_keeps: "keeps (release_writes report h at res)"
  unfolding release_writes_def Let_def
  by (intro keeps_intros keeps_statement keeps_statement_result insert_release_gpus_keeps)
    (auto simp: reservations_reach release_tables_reach split: option.splits)

lemma release_with_evidence_keeps: "keeps (release_with_evidence api report signer at)"
  unfolding release_with_evidence_def Let_def
  by (intro keeps_bind keeps_reads keeps_case_option) (intro keeps_intros keeps_reads release_writes_keeps)+

lemma transition_along_keeps: "keeps (transition_attempt_state_along i from path)"
  unfolding keeps_def by (auto dest: transition_along_Ok)

lemma follow_attempt_terminal_keeps: "keeps (follow_attempt_terminal i a fin has_run at)"
  unfolding keeps_def
  by (auto simp: control_ok_def intro: jobs_move_reach follow_attempt_terminal_move)

lemma finish_attempt_keeps: "keeps (finish_attempt report attempt)"
  unfolding finish_attempt_def Let_def
  by (intro keeps_intros transition_along_keeps follow_attempt_terminal_keeps)

lemma insert_report_keeps: "keeps (insert_report api report signer via)"
  unfolding insert_report_def by (rule keeps_statement_result) (auto simp: release_tables_reach)

lemma after_report_keeps:
  assumes "no_empty_body resume"
  shows "keeps (after_report api resume report signer release preempt)"
proof -
  have "keeps (pause_for_owner_preempt_within resume p i a n now)" for p i a n now
    unfolding keeps_def using pause_within_reach assms by blast
  then show ?thesis unfolding after_report_def release_within_transaction_def
    by (intro keeps_bind keeps_case_option) (auto intro!: keeps_intros release_with_evidence_keeps split: prod.splits)
qed

lemma store_report_body_keeps:
  assumes "no_empty_body resume"
  shows "keeps (store_report_body api resume report signer release preempt)"
proof -
  have bind: "keeps (bind_report report signer)"
    unfolding bind_report_def by (intro keeps_bind keeps_map_err keeps_reads keeps_case_option) (intro keeps_intros)+
  show ?thesis unfolding store_report_body_def
    by (intro keeps_bind keeps_reads keeps_case_option)
      (auto intro!: keeps_intros bind insert_report_keeps finish_attempt_keeps after_report_keeps [OF assms] split: prod.splits)
qed

section \<open>The calls\<close>

lemma store_report_reach:
  assumes "control_ok db" and "no_empty_body resume"
  shows "control_reach db (snd (store_verified_terminal_report api resume report signer release preempt db))"
  unfolding store_verified_terminal_report_def
  by (rule ctl.R_bind [OF ctl.R_simple(3)])
    (auto simp: lift_result_Ok intro!: keeps_in_transaction store_report_body_keeps assms)

lemma release_for_report_reach:
  assumes "control_ok db"
  shows "control_reach db (snd (release_for_verified_terminal_report api report signer au at db))"
  unfolding release_for_verified_terminal_report_def
  by (rule ctl.R_bind [OF ctl.R_simple(3)])
    (auto simp: lift_result_Ok intro!: keeps_in_transaction release_with_evidence_keeps assms)

lemma backfill_rows_keeps: "keeps (backfill_rows api rows)"
  by (induction api rows rule: backfill_rows.induct)
    (auto intro!: keeps_intros transition_along_keeps split: option.splits)

lemma staging_initialize_schema_reach: "control_reach db (snd (staging_initialize_schema db))"
  unfolding staging_initialize_schema_def
  by (intro ctl.R_bind read_reach ctl.R_map_err job_initialize_schema_reach initialize_schema_reach)

lemma open_report_store_reach:
  assumes "control_ok db"
  shows "control_reach db (snd (open_report_store api db))"
proof -
  have catch_up: "control_reach db (snd (backfill_terminal_states api db))" if "control_ok db" for db :: "'a control_db_scheme"
    unfolding backfill_terminal_states_def
    by (intro keeps_in_transaction keeps_bind keeps_reach [OF read_reach] backfill_rows_keeps that)
  have step: "control_reach db (snd (tx_bind m f db))"
    if "control_reach db (snd (m db))" "control_ok db" "\<And>x db1. control_ok db1 \<Longrightarrow> control_reach db1 (snd (f x db1))"
    for db :: "'a control_db_scheme" and m :: "('a, 'x) report_tx" and f :: "'x \<Rightarrow> ('a, 'y) report_tx"
    using that by (intro ctl.R_bind) (auto dest: reach_ok)
  show ?thesis unfolding open_report_store_def
    by (intro step read_reach ctl.R_map_err staging_initialize_schema_reach catch_up assms)
qed

lemma open_release_store_reach: "control_reach db (snd (open_release_store db))"
  unfolding open_release_store_def by (intro ctl.R_bind read_reach ctl.R_map_err staging_initialize_schema_reach)

end
