(* ===== verification/Control_History.thy ===== *)
theory Control_History
  imports Control_Reports
begin

text \<open>
  Histories of calls on the control database, with arbitrary failing statements, and what holds
  after them: rows stay readable, a job keeps its facts and moves along the normative table only, a
  submission key stays bound to its job, a revoked lease stays revoked, and the attempt staged last
  is the latest one of its job.
\<close>

section \<open>Histories\<close>

datatype ('man, 'r) control_call =
    SubmitAccepted accepted_job_submission u64
  | SubmitVerifiedManifest accepted_job_submission 'man str u64
  | StartPlanning str u64
  | Enqueue str str u64
  | PlanAndEnqueue str str u64
  | PlanAndEnqueueNow str str u64
  | FailQueued str queue_failure u64
  | LeaseCall lease_call
  | Stage stage_queued_request
  | ReserveAndStage stage_queued_request u64 bool
  | RecordGrantAccepted str u64 bool
  | RecordProcessStarted str u64
  | FailoverLostAttempts u64
  | OwnerPreempt str str str u64
  | ReleaseLostNode str str u64
  | StoreReport "'r attempt_report_scheme" str "(release_authorization \<times> u64) option" "owner_preempt_request option"
  | ReleaseForReport "'r attempt_report_scheme" str release_authorization u64
  | OpenReportStore
  | OpenReleaseStore

record ('man, 'ckpt, 'r) control_env =
  ce_manifest :: "'man manifest_api"
  ce_resume :: "'ckpt resume_api"
  ce_policy :: failover_policy
  ce_report :: "'r report_api"

fun control_step :: "('man, 'ckpt, 'r) control_env \<Rightarrow> ('man, 'r) control_call \<Rightarrow> 'm control_db_scheme \<Rightarrow> 'm control_db_scheme" where
  "control_step env (SubmitAccepted s at) db = snd (submit_accepted s at db)"
| "control_step env (SubmitVerifiedManifest s man signer at) db =
     snd (submit_verified_manifest (ce_manifest env) s man signer at db)"
| "control_step env (StartPlanning i at) db = snd (start_planning i at db)"
| "control_step env (Enqueue i plan at) db = snd (enqueue i plan at db)"
| "control_step env (PlanAndEnqueue i plan at) db = snd (plan_and_enqueue i plan at db)"
| "control_step env (PlanAndEnqueueNow i plan now) db = snd (plan_and_enqueue_now i plan now db)"
| "control_step env (FailQueued i f at) db = snd (fail_queued i f at db)"
| "control_step env (LeaseCall c) db = lease_call_step c db"
| "control_step env (Stage q) db = snd (stage q db)"
| "control_step env (ReserveAndStage q expected m) db = snd (reserve_and_stage q expected m db)"
| "control_step env (RecordGrantAccepted i now m) db = snd (record_grant_accepted i now m db)"
| "control_step env (RecordProcessStarted l now) db = snd (record_process_started l now db)"
| "control_step env (FailoverLostAttempts now) db =
     snd (failover_lost_attempts (ce_resume env) (ce_policy env) now db)"
| "control_step env (OwnerPreempt i a n now) db = snd (owner_preempt (ce_resume env) (ce_policy env) i a n now db)"
| "control_step env (ReleaseLostNode n s now) db = snd (release_lost_node_by_operator n s now db)"
| "control_step env (StoreReport r signer release preempt) db =
     snd (store_verified_terminal_report (ce_report env) (ce_resume env) r signer release preempt db)"
| "control_step env (ReleaseForReport r signer au at) db =
     snd (release_for_verified_terminal_report (ce_report env) r signer au at db)"
| "control_step env OpenReportStore db = snd (open_report_store (ce_report env) db)"
| "control_step env OpenReleaseStore db = snd (open_release_store db)"

text \<open>A manifest hash is a \<open>[u8; 32]\<close>.\<close>

fun call_typed :: "('man, 'r) control_call \<Rightarrow> bool" where
  "call_typed (SubmitAccepted s at) \<longleftrightarrow> length (as_manifest_hash s) = 32"
| "call_typed (SubmitVerifiedManifest s man signer at) \<longleftrightarrow> length (as_manifest_hash s) = 32"
| "call_typed _ \<longleftrightarrow> True"

abbreviation control_history ::
    "('man, 'ckpt, 'r) control_env \<Rightarrow> ('man, 'r) control_call list \<Rightarrow> 'm control_db_scheme \<Rightarrow> 'm control_db_scheme" where
  "control_history env calls db \<equiv> fold (control_step env) calls db"

lemma control_step_reach:
  assumes "control_ok db" and "no_empty_body (ce_resume env)" and "call_typed c"
  shows "control_reach db (control_step env c db)"
proof -
  have jobs: "jobs_ok (jd_jobs db)" using assms(1) by (simp add: control_ok_def)
  note moves = start_planning_move [OF jobs] enqueue_move [OF jobs] plan_and_enqueue_move [OF jobs] fail_queued_move [OF jobs]
  show ?thesis
    using assms moves [THEN jobs_move_reach]
    by (cases c) (simp_all add: submit_accepted_reach submit_verified_manifest_reach plan_and_enqueue_def
        plan_and_enqueue_now_def lease_call_reach stage_reach reserve_and_stage_reach record_grant_accepted_reach
        record_process_started_reach failover_lost_attempts_reach owner_preempt_reach release_reach
        store_report_reach release_for_report_reach open_report_store_reach open_release_store_reach)
qed

lemma control_history_reach:
  assumes "control_ok db" and "no_empty_body (ce_resume env)" and "list_all call_typed calls"
  shows "control_reach db (control_history env calls db)"
  using assms(1,3)
proof (induction calls arbitrary: db)
  case (Cons c calls)
  have step: "control_reach db (control_step env c db)"
    by (rule control_step_reach [OF Cons.prems(1) assms(2)]) (use Cons.prems(2) in simp)
  moreover have "control_reach (control_step env c db) (control_history env calls (control_step env c db))"
    using Cons reach_ok [OF step] by simp
  ultimately show ?case by simp
qed simp

section \<open>What survives every change\<close>

text \<open>A relation between databases that every change respects holds along every history.\<close>

locale control_survives =
  fixes S :: "'m control_db_scheme \<Rightarrow> 'm control_db_scheme \<Rightarrow> bool"
  assumes S_refl: "S db db"
    and S_trans: "S a b \<Longrightarrow> S b c \<Longrightarrow> S a c"
    and S_change: "control_ok db \<Longrightarrow> control_change db db' \<Longrightarrow> S db db'"
begin

lemma S_reach: "control_reach db db' \<Longrightarrow> control_ok db \<Longrightarrow> S db db'"
proof (induction rule: rtranclp_induct)
  case (step b c)
  from step.hyps(2) have "S b c" using S_change control_reach_ok [OF step.hyps(1) step.prems] by blast
  with step.IH [OF step.prems] show ?case by (rule S_trans)
qed (rule S_refl)

lemma S_history:
  "control_ok db \<Longrightarrow> no_empty_body (ce_resume env) \<Longrightarrow> list_all call_typed calls \<Longrightarrow> S db (control_history env calls db)"
  by (rule S_reach [OF control_history_reach])

end

text \<open>Jobs: the facts stay, the state moves along the table, the revision counts the moves.\<close>

definition job_at :: "'m job_db_scheme \<Rightarrow> str \<Rightarrow> stored_job option" where
  "job_at db i = (case hm_get (jd_jobs db) i of
     Some r \<Rightarrow> (case job_into_stored r of Inr j \<Rightarrow> Some j | Inl _ \<Rightarrow> None) | None \<Rightarrow> None)"

definition job_later :: "stored_job \<Rightarrow> stored_job \<Rightarrow> bool" where
  "job_later j j' \<longleftrightarrow> job_facts j' = job_facts j \<and>
     (\<exists>path. job_walk (sj_state j) path = Ok (sj_state j')) \<and>
     (j' = j \<or> unat (sj_revision j) < unat (sj_revision j'))"

lemma job_later_refl: "job_later j j"
  by (auto simp: job_later_def job_walk_def intro: exI [of _ "[]"])

lemma job_walk_append: "job_walk s (p @ q) = and_then (job_walk s p) (\<lambda>u. job_walk u q)"
  unfolding job_walk_def by (simp add: for_each_append)

lemma job_later_trans: "job_later a b \<Longrightarrow> job_later b c \<Longrightarrow> job_later a c"
proof -
  assume "job_later a b" and "job_later b c"
  moreover then obtain p q where "job_walk (sj_state a) p = Ok (sj_state b)" "job_walk (sj_state b) q = Ok (sj_state c)"
    by (auto simp: job_later_def)
  then have "job_walk (sj_state a) (p @ q) = Ok (sj_state c)" by (simp add: job_walk_append)
  ultimately show ?thesis by (auto simp: job_later_def)
qed

lemma job_step_later: "job_step j k \<Longrightarrow> job_later j k"
  by (auto simp: job_step_def job_later_def)

definition jobs_survive :: "'m job_db_scheme \<Rightarrow> 'm job_db_scheme \<Rightarrow> bool" where
  "jobs_survive db db' \<longleftrightarrow> (\<forall>i j. job_at db i = Some j \<longrightarrow> (\<exists>j'. job_at db' i = Some j' \<and> job_later j j'))"

lemma job_change_survives:
  assumes "job_change (jd_jobs db) (jd_jobs db')" and "jobs_ok (jd_jobs db)"
  shows "jobs_survive db db'"
  using assms(1)
proof cases
  case (submit j s h t)
  with assms(2) show ?thesis
    by (auto simp: jobs_survive_def job_at_def jobs_ok_def hm.get_insert job_later_refl split: option.splits)
next
  case (move j r k)
  then have k: "job_into_stored (row_of k) = Inr k" by (simp add: job_into_stored_row_of job_step_def)
  show ?thesis unfolding jobs_survive_def
  proof (intro allI impI)
    fix i j0 assume j0: "job_at db i = Some j0"
    show "\<exists>j'. job_at db' i = Some j' \<and> job_later j0 j'"
    proof (cases "i = sj_job_id j")
      case True
      with move j0 have "j0 = j" by (simp add: job_at_def)
      with True move k assms(2) show ?thesis by (simp add: job_at_def jobs_ok_def hm.get_insert job_step_later)
    next
      case False
      with move j0 assms(2) show ?thesis by (simp add: job_at_def jobs_ok_def hm.get_insert job_later_refl)
    qed
  qed
qed

lemma jobs_survive_same: "jd_jobs db' = jd_jobs db \<Longrightarrow> jobs_survive db db'"
  by (auto simp: jobs_survive_def job_at_def intro: job_later_refl)

interpretation js: control_survives jobs_survive
proof unfold_locales
  fix db db' :: "'a control_db_scheme"
  assume ok: "control_ok db" and ch: "control_change db db'"
  have jobs: "jobs_ok (jd_jobs db)" using ok by (simp add: control_ok_def)
  show "jobs_survive db db'"
    using ch
  proof cases
    case (jobs m)
    then show ?thesis using \<open>jobs_ok (jd_jobs db)\<close> by (intro job_change_survives) simp_all
  next
    case (staged q r j k epoch payload)
    then show ?thesis using staged_job_change [OF staged(2-5)] jobs by (intro job_change_survives) simp_all
  qed (auto intro: jobs_survive_same)
next
  fix a b c :: "'a control_db_scheme"
  assume "jobs_survive a b" "jobs_survive b c"
  then show "jobs_survive a c" unfolding jobs_survive_def by (metis job_later_trans)
qed (simp add: jobs_survive_same)

text \<open>Submission keys stay bound; leases evolve as in the lease table alone.\<close>

definition submissions_survive :: "'m job_db_scheme \<Rightarrow> 'm job_db_scheme \<Rightarrow> bool" where
  "submissions_survive db db' \<longleftrightarrow>
     (\<forall>k i. hm_get (jd_submissions db) k = Some i \<longrightarrow> hm_get (jd_submissions db') k = Some i)"

interpretation ss: control_survives submissions_survive
proof unfold_locales
  fix db db' :: "'a control_db_scheme"
  assume ok: "control_ok db" and ch: "control_change db db'"
  show "submissions_survive db db'"
    using ch
  proof cases
    case (submission k i)
    with ok show ?thesis by (auto simp: submissions_survive_def control_ok_def hm.get_insert)
  qed (simp_all add: submissions_survive_def staged_db_def)
qed (simp_all add: submissions_survive_def)

definition leases_survive :: "'m lease_db_scheme \<Rightarrow> 'm lease_db_scheme \<Rightarrow> bool" where
  "leases_survive db db' \<longleftrightarrow> (\<forall>i l. lease_in (ld_leases db) i = Some l \<longrightarrow>
     (\<exists>l'. lease_in (ld_leases db') i = Some l' \<and> lease_evolves l l'))"

lemma leases_survive_same: "ld_leases db' = ld_leases db \<Longrightarrow> leases_survive db db'"
  by (auto simp: leases_survive_def lease_evolves_def)

interpretation ls: control_survives leases_survive
proof unfold_locales
  fix db db' :: "'a control_db_scheme"
  assume ok: "control_ok db" and ch: "control_change db db'"
  then have inv: "hm_invar (ld_leases db)" by (simp add: control_ok_def)
  have step: "leases_survive db db'" if "lease_change (ld_leases db) (ld_leases db')"
    unfolding leases_survive_def using lease_change_evolves [OF that inv] by blast
  show "leases_survive db db'"
    using ch
  proof cases
    case (leases m)
    then show ?thesis by (intro step) simp
  next
    case (staged q r j k epoch payload)
    then show ?thesis
      using lease_change.issue [of "ld_leases db" "to_lease q epoch"] by (intro step) (simp add: staged_db_def to_lease_def)
  qed (simp_all add: leases_survive_same)
next
  fix a b c :: "'a control_db_scheme"
  assume "leases_survive a b" "leases_survive b c"
  then show "leases_survive a c" unfolding leases_survive_def by (metis lh.evolves_trans)
qed (simp add: leases_survive_same)

section \<open>The latest attempt\<close>

lemma fold_latest:
  assumes "x \<in> set (a # as)" and "\<And>y. y \<in> set (a # as) \<Longrightarrow> y \<noteq> x \<Longrightarrow> later x y \<and> \<not> later y x"
  shows "fold (\<lambda>b best. if later b best then b else best) as a = x"
proof -
  have "fold (\<lambda>b best. if later b best then b else best) as x = x"
    if "\<And>y. y \<in> set as \<Longrightarrow> y \<noteq> x \<Longrightarrow> \<not> later y x" for as
    using that by (induction as) auto
  note keep = this
  show ?thesis using assms
  proof (induction as arbitrary: a)
    case (Cons b as)
    show ?case
    proof (cases "b = x")
      case True
      with Cons.prems keep [of as] show ?thesis by (cases "a = x") (auto split: if_splits)
    next
      case False
      then have "x \<in> set ((if later b a then b else a) # as)" using Cons.prems by auto
      with Cons show ?thesis by (auto split: if_splits)
    qed
  qed auto
qed

lemma latest_attempt_row_newest:
  assumes "(i, r) \<in> set m" and "ra_job_id r = job_id"
    and "\<And>e. e \<in> set m \<Longrightarrow> e \<noteq> (i, r) \<Longrightarrow> blob_less (ra_fence_epoch (snd e)) (ra_fence_epoch r)"
    and "\<And>e. e \<in> set m \<Longrightarrow> length (ra_fence_epoch (snd e)) = 8"
  shows "latest_attempt_row m job_id = Some i"
proof -
  let ?l = "filter (\<lambda>a. ra_job_id (snd a) = job_id) m"
  have "(i, r) \<in> set ?l" using assms(1,2) by simp
  then obtain a as where l: "?l = a # as" by (cases ?l) auto
  have "fold (\<lambda>b best. if later_attempt b best then b else best) as a = (i, r)"
  proof (rule fold_latest)
    show "(i, r) \<in> set (a # as)" using \<open>(i, r) \<in> set ?l\<close> l by simp
    fix y assume y: "y \<in> set (a # as)" "y \<noteq> (i, r)"
    then have "y \<in> set m" using l by (metis filter_is_subset subsetD)
    with y(2) assms(3) [of y] have less: "blob_less (ra_fence_epoch (snd y)) (ra_fence_epoch r)" by blast
    moreover have "\<not> blob_less (ra_fence_epoch r) (ra_fence_epoch (snd y))" "ra_fence_epoch r \<noteq> ra_fence_epoch (snd y)"
      using less blob_less_be_value assms(4) [OF \<open>y \<in> set m\<close>] assms(4) [OF assms(1)] by auto
    ultimately show "later_attempt (i, r) y \<and> \<not> later_attempt y (i, r)" by (auto simp: later_attempt_def)
  qed
  then show ?thesis by (simp add: latest_attempt_row_def l)
qed

lemma set_hm_insert_fresh: "hm_get m k = None \<Longrightarrow> set (hm_insert k v m) = insert (k, v) (set m)"
  by (induction m) (auto simp: hm_insert_def hm_get_def split: if_splits)

lemma staged_attempt_newest:
  assumes "control_ok db" and "hm_get (jd_attempts db) (sq_attempt_id q) = None" and "counter_at_most epoch (sd_fence_state db)"
  shows "latest_attempt_row (jd_attempts (staged_db q payload epoch k db)) (sq_job_id q) = Some (sq_attempt_id q)"
    and "\<forall>e \<in> set (jd_attempts db). \<exists>v. ra_fence_epoch (snd e) = encode_u64 v \<and> v < epoch"
proof -
  have below: "attempts_below (jd_attempts db) (sd_fence_state db)" using assms(1) by (simp add: control_ok_def)
  show old: "\<forall>e \<in> set (jd_attempts db). \<exists>v. ra_fence_epoch (snd e) = encode_u64 v \<and> v < epoch"
  proof
    fix e assume "e \<in> set (jd_attempts db)"
    with below obtain v c where "ra_fence_epoch (snd e) = encode_u64 v" "sd_fence_state db = Some (encode_u64 c)" "v \<le> c"
      by (auto simp: attempts_below_def)
    moreover from this(2) assms(3) have "c < epoch" by (auto simp: counter_at_most_def encode_u64_def)
    ultimately show "\<exists>v. ra_fence_epoch (snd e) = encode_u64 v \<and> v < epoch" by auto
  qed
  let ?r = "attempt_row (new_attempt q epoch)"
  have new: "ra_fence_epoch ?r = encode_u64 epoch" "ra_job_id ?r = sq_job_id q" by (simp_all add: attempt_row_def new_attempt_def)
  have set: "set (hm_insert (sq_attempt_id q) ?r (jd_attempts db)) = insert (sq_attempt_id q, ?r) (set (jd_attempts db))"
    using assms(2) by (rule set_hm_insert_fresh)
  have "latest_attempt_row (hm_insert (sq_attempt_id q) ?r (jd_attempts db)) (sq_job_id q) = Some (sq_attempt_id q)"
    by (rule latest_attempt_row_newest [where r = ?r]) (use set new old in \<open>fastforce simp: encode_u64_def\<close>)+
  then show "latest_attempt_row (jd_attempts (staged_db q payload epoch k db)) (sq_job_id q) = Some (sq_attempt_id q)"
    by (simp add: staged_db_def)
qed

end
