(* ===== verification/Control_Safety.thy ===== *)
theory Control_Safety
  imports Control_History
begin

text \<open>
  What the control plane guarantees over histories of calls with arbitrary failing statements, and
  the effect of the calls that move a job to a node and away from it.
\<close>

section \<open>An example\<close>

definition empty_control_db :: control_db where
  "empty_control_db = \<lparr>db_tape = [], ld_columns = None, ld_leases = [], jd_columns = None, jd_jobs = [],
     jd_submissions = [], jd_manifests = [], jd_pool_mode = None, jd_attempts = [],
     sd_attempt_nodes = [], sd_fence_state = None, sd_operations = [], sd_reservations = [],
     sd_reservation_gpus = [], sd_inventory_revisions = [], sd_inventory_gpus = [],
     cd_reports = [], cd_releases = [], cd_release_gpus = [], cd_operator_releases = [], cd_reclaims = [], cd_session_seen = None\<rparr>"

text \<open>A storage with two readable checkpoint files and one that is not; a manifest is its byte.\<close>

definition example_api :: "u8 resume_api" where
  "example_api = \<lparr>rs_list = (\<lambda>root job_id. Some [(lit ''c'', [1]), (lit ''d'', [2]), (lit ''x'', [])]),
     rs_decode = (\<lambda>body. case body of [b] \<Rightarrow> Some b | _ \<Rightarrow> None), rs_verify = (\<lambda>m now. True),
     rs_verify_on_disk = (\<lambda>root m. True), rs_checkpoint_id = (\<lambda>m. if m = 1 then lit ''c'' else lit ''d''),
     rs_job_id = (\<lambda>m. lit ''j''), rs_attempt_id = (\<lambda>m. lit ''a''), rs_fence_epoch = (\<lambda>m. 1), rs_step = (\<lambda>m. ucast m),
     rs_producer_node_id = (\<lambda>m. lit ''n'')\<rparr>"

definition example_failover_policy :: failover_policy where
  "example_failover_policy = \<lparr>fp_grace_ms = 100, fp_shared_checkpoint_root = Some (lit ''/ckpt'')\<rparr>"

definition example_env :: "(unit, u8, unit) control_env" where
  "example_env = \<lparr>ce_manifest = \<lparr>ma_job_id = (\<lambda>_. lit ''j''), ma_submitter_device_id = (\<lambda>_. lit ''d''),
       ma_encode = (\<lambda>_. [1]), ma_decode = (\<lambda>_. Some ()), ma_hash = (\<lambda>_. replicate 32 1)\<rparr>,
     ce_resume = example_api, ce_policy = example_failover_policy,
     ce_report = \<lparr>ri_encode = (\<lambda>_. [1]), ri_decode = (\<lambda>_. None), ri_hash = (\<lambda>_. replicate 32 2)\<rparr>\<rparr>"

definition example_inventory :: control_db where
  "example_inventory = empty_control_db\<lparr>sd_inventory_revisions := [(lit ''n'', encode_u64 4)],
     sd_inventory_gpus := [(lit ''n'', lit ''g'')]\<rparr>"

definition example_request :: stage_queued_request where
  "example_request = \<lparr>sq_operation_key = replicate 16 9, sq_job_id = lit ''j'', sq_attempt_id = lit ''a'',
     sq_lease_id = lit ''l'', sq_node_id = lit ''n'', sq_selected_gpu_ids = [lit ''g''],
     sq_issuing_coordinator_id = lit ''co'', sq_coordinator_term = 1, sq_issued_at_unix_ms = 20,
     sq_renew_after_unix_ms = 500, sq_expires_at_unix_ms = 900, sq_max_total_duration_seconds = 3600\<rparr>"

text \<open>One queued job and one free node.\<close>

definition example_ready :: control_db where
  "example_ready = example_inventory\<lparr>jd_jobs := [(lit ''j'', row_of (example_queued ''j'' 6))],
     jd_submissions := [(replicate 16 7, lit ''j'')]\<rparr>"

named_theorems example_run \<open>evaluation of the calls on the example\<close>

lemmas [example_run] = tx_bind_def tx_return_def tx_fail_def lift_result_def tx_map_err_def statement_def statement_result_def
  in_transaction_def

lemma example_steps:
  "validate_request example_request = Ok ()"
  "validate_selected_gpu_ids (sq_selected_gpu_ids example_request) = Ok ()"
  by (simp_all add: validate_request_def validate_selected_gpu_ids_def example_request_def checked_mul_def checked_sub_def
      is_blank_def trim_def is_whitespace_def)

lemma staging_decode_encode [simp]: "staging_decode_u64 (encode_u64 v) = Ok v"
  by (simp add: staging_decode_Ok)

lemmas staging_run = reserve_body_def fetch_operation_def reserve_new_def fetch_inventory_revision_def
  fetch_node_reservation_def insert_node_reservation_def insert_gpu_binding_def stage_new_in_transaction_def
  check_stageable_def fetch_job_def fetch_attempt_def fetch_lease_def write_staged_def allocate_epoch_def read_counter_def
  insert_attempt_def insert_lease_def staged_job_def update_job_def insert_operation_def

lemmas example_defs = example_ready_def example_inventory_def empty_control_db_def example_request_def

definition example_staging :: stored_job where
  "example_staging = (example_queued ''j'' 6)\<lparr>sj_state := JobStaging, sj_staging_at_unix_ms := Some 20, sj_revision := 1\<rparr>"

definition example_staged_db :: control_db where
  "example_staged_db = staged_db example_request (encode_reserved_request example_request 4) 1 example_staging
     (reserved_db example_request 4 example_ready)"

lemma example_state: "sj_state (example_queued i at) = JobQueued" "sj_queued_at_unix_ms (example_queued i at) = Some at"
  "sj_job_id (example_queued i at) = lit i" "sj_revision (example_queued i at) = 0"
  by (simp_all add: example_queued_def submitted_job_def example_submission_def)

lemma example_update:
  "updated_row (example_queued ''j'' 6\<lparr>sj_state := JobStaging, sj_staging_at_unix_ms := Some 20, sj_revision := 1\<rparr>) (row_of (example_queued ''j'' 6)) = row_of example_staging"
  unfolding example_staging_def by (rule updated_row_of [OF job_into_stored_row_of [OF example_queued_ok]]) (simp add: job_facts_def)

lemma example_reserve:
  "reserve_body example_request 4 False example_ready =
     (Ok \<lparr>rr_reservation = new_reservation example_request 4,
          rr_stage = \<lparr>qr_job = example_staging, qr_attempt = new_attempt example_request 1,
            qr_lease = to_lease example_request 1, qr_created = True\<rparr>\<rparr>, example_staged_db)"
  by (simp add: staging_run Let_def example_run example_staged_db_def staged_db_def reserved_db_def reservation_row_def
    example_defs hm_get_def hm_contains_key_def hm_insert_def example_state example_update checked_add_def
    new_reservation_def new_attempt_def to_lease_def job_into_stored_row_of example_queued_ok) (simp add: example_staging_def)

lemma example_ready_ok: "control_ok example_ready"
  by (auto simp: control_ok_def example_ready_def example_inventory_def empty_control_db_def jobs_ok_def hm_invar_def hm_get_def
      attempts_below_def job_into_stored_row_of example_queued_ok read_texts example_state split: if_splits)

lemma example_api_bodies: "no_empty_body example_api"
  by (simp add: no_empty_body_def example_api_def)

section \<open>Histories keep the tables sound\<close>

text \<open>
  C4: whatever calls are made on the control database and whatever statements of them fail, the
  tables stay well formed: no key occurs twice, every job row is stored under its own id and reads
  back, every submission key names a job, and every attempt has an epoch the counter has reached.
\<close>

theorem control_tables_stay_sound:
  assumes "control_ok db" and "no_empty_body (ce_resume env)" and "list_all call_typed calls"
  shows "control_ok (control_history env calls db)"
  using control_reach_ok [OF control_history_reach [OF assms] assms(1)] .

theorem control_tables_stay_sound_witness:
  "control_ok (control_history example_env [SubmitAccepted (example_submission\<lparr>as_idempotency_key := replicate 16 8, as_job_id := lit ''k''\<rparr>) 9,
     ReserveAndStage example_request 4 False, FailoverLostAttempts 2000] example_ready)"
  by (rule control_tables_stay_sound [OF example_ready_ok]) (simp_all add: example_env_def example_api_bodies example_submission_def)

text \<open>
  C5: over every history of calls, with arbitrary failing statements, a stored job is never lost,
  its submission facts never change, its state only moves along the transition table, and every
  change of it raises its revision.
\<close>

theorem jobs_only_walk_the_table:
  assumes "control_ok db" and "no_empty_body (ce_resume env)" and "list_all call_typed calls"
    and "job_at db i = Some j"
  shows "\<exists>j'. job_at (control_history env calls db) i = Some j' \<and> job_facts j' = job_facts j \<and>
    (\<exists>path. job_walk (sj_state j) path = Ok (sj_state j')) \<and> (j' = j \<or> unat (sj_revision j) < unat (sj_revision j'))"
  using js.S_history [OF assms(1-3)] assms(4) by (auto simp: jobs_survive_def job_later_def)

lemma example_job_at: "job_at example_ready (lit ''j'') = Some (example_queued ''j'' 6)"
  by (simp add: job_at_def example_ready_def hm_get_def job_into_stored_row_of example_queued_ok)

theorem jobs_only_walk_the_table_witness:
  "\<exists>j'. job_at (control_history example_env [ReserveAndStage example_request 4 False, FailoverLostAttempts 2000] example_ready)
      (lit ''j'') = Some j' \<and> job_facts j' = job_facts (example_queued ''j'' 6) \<and>
    (\<exists>path. job_walk JobQueued path = Ok (sj_state j')) \<and>
    (j' = example_queued ''j'' 6 \<or> 0 < unat (sj_revision j'))"
  using jobs_only_walk_the_table [OF example_ready_ok _ _ example_job_at, of example_env
      "[ReserveAndStage example_request 4 False, FailoverLostAttempts 2000]"] example_api_bodies
  by (simp add: example_env_def example_state)

section \<open>Submission is idempotent\<close>

lemma facts_match: "job_facts j' = job_facts j \<Longrightarrow> matches_submission j' s = matches_submission j s"
  by (auto simp: job_facts_def matches_submission_def)

text \<open>
  C13: a key that was accepted stays bound to its job over every history. A later submission under
  that key changes nothing: the same submission gets the current state of the job, another one is
  an idempotency conflict.
\<close>

theorem submissions_are_idempotent:
  assumes "control_ok db" and "no_empty_body (ce_resume env)" and "list_all call_typed calls"
    and "hm_get (jd_submissions db) (as_idempotency_key s) = Some i" and "job_at db i = Some j"
    and "validate_submission s = Ok ()"
  shows "\<exists>j'. job_at (control_history env calls db) i = Some j' \<and> job_facts j' = job_facts j \<and>
    submit_accepted s now ((control_history env calls db)\<lparr>db_tape := []\<rparr>) =
      (if matches_submission j s then Ok \<lparr>sr_job = j', sr_created = False\<rparr>
       else Err (JobIdempotencyConflict i (as_job_id s)), (control_history env calls db)\<lparr>db_tape := []\<rparr>)"
proof -
  let ?db = "(control_history env calls db)\<lparr>db_tape := []\<rparr>"
  have key: "hm_get (jd_submissions ?db) (as_idempotency_key s) = Some i"
    using ss.S_history [OF assms(1-3)] assms(4) by (simp add: submissions_survive_def)
  obtain j' where j': "job_at (control_history env calls db) i = Some j'" "job_facts j' = job_facts j"
    using js.S_history [OF assms(1-3)] assms(5) by (auto simp: jobs_survive_def job_later_def)
  then obtain r where "hm_get (jd_jobs ?db) i = Some r" "job_into_stored r = Inr j'"
    by (auto simp: job_at_def split: option.splits sum.splits)
  then have "submit_body s now ?db = (if matches_submission j s then Ok \<lparr>sr_job = j', sr_created = False\<rparr>
       else Err (JobIdempotencyConflict i (as_job_id s)), ?db)"
    using key facts_match [OF j'(2), of s]
    by (simp add: submit_body_def select_submission_def fetch_job_def tx_bind_def statement_no_fault lift_result_def
        tx_return_def tx_fail_def)
  from in_transaction_no_fault [where body = "submit_body s now" and db = ?db and f = job_map_sql_error, OF _ this] assms(6) j'
  show ?thesis by (simp add: submit_accepted_def tx_bind_def lift_result_def)
qed

theorem submissions_are_idempotent_witness:
  "\<exists>j'. job_at (control_history example_env [ReserveAndStage example_request 4 False] example_ready) (lit ''j'') = Some j' \<and>
    job_facts j' = job_facts (example_queued ''j'' 6) \<and>
    submit_accepted example_submission 99 ((control_history example_env [ReserveAndStage example_request 4 False] example_ready)\<lparr>db_tape := []\<rparr>) =
      (Ok \<lparr>sr_job = j', sr_created = False\<rparr>,
       (control_history example_env [ReserveAndStage example_request 4 False] example_ready)\<lparr>db_tape := []\<rparr>)"
proof -
  have "matches_submission (example_queued ''j'' 6) example_submission" "validate_submission example_submission = Ok ()"
    "hm_get (jd_submissions example_ready) (as_idempotency_key example_submission) = Some (lit ''j'')"
    by (simp_all add: matches_submission_def example_queued_def submitted_job_def example_submission_def validate_submission_def
        is_blank_def trim_def is_whitespace_def example_ready_def hm_get_def)
  then show ?thesis
    using submissions_are_idempotent [OF example_ready_ok _ _ _ example_job_at, of example_env
        "[ReserveAndStage example_request 4 False]" example_submission 99] example_api_bodies
    by (simp add: example_env_def)
qed

section \<open>Staging\<close>

text \<open>What must hold of the node before it is reserved.\<close>

definition node_free :: "stage_queued_request \<Rightarrow> u64 \<Rightarrow> 'm staging_db_scheme \<Rightarrow> bool" where
  "node_free q expected db \<longleftrightarrow>
     hm_get (sd_inventory_revisions db) (sq_node_id q) = Some (encode_u64 expected) \<and>
     (\<forall>g \<in> set (sq_selected_gpu_ids q). (sq_node_id q, g) \<in> set (sd_inventory_gpus db)) \<and>
     hm_get (sd_reservations db) (sq_node_id q) = None \<and>
     (\<forall>e \<in> set (sd_reservations db). rv_attempt_id (snd e) \<noteq> sq_attempt_id q)"

lemma stage_error_same:
  assumes "tx_bind (tx_map_err Staging (lift_result r)) (\<lambda>_.
    tx_bind (tx_map_err Staging (lift_result r')) (\<lambda>_. in_transaction f body)) db = (Inl e, db')"
  shows "same_tables db db'"
  using assms in_transaction_Err [of f body db e db']
  by (auto simp: tx_bind_def tx_map_err_def lift_result_def same_tables_def split: sum.splits)
    (metis sql_conn.surjective sql_conn.update_convs(1))+

text \<open>The rows a reserving staging has written when it succeeds.\<close>

definition reserved_exactly ::
    "stage_queued_request \<Rightarrow> u64 \<Rightarrow> 'm staging_db_scheme \<Rightarrow> reserved_stage_result \<Rightarrow> 'm staging_db_scheme \<Rightarrow> bool" where
  "reserved_exactly q expected db out db' \<longleftrightarrow>
     (\<exists>t epoch j k. db' = (staged_db q (encode_reserved_request q expected) epoch k (reserved_db q expected db))\<lparr>db_tape := t\<rparr> \<and>
        job_at db (sq_job_id q) = Some j \<and> sj_state j \<in> {JobQueued, JobPaused} \<and>
        job_step j k \<and> sj_state k = staged_state (sj_state j) \<and>
        (\<forall>e \<in> set (ld_leases db). \<exists>v. rl_fence_epoch (snd e) = encode_u64 v \<and> v < epoch) \<and>
        (\<forall>e \<in> set (jd_attempts db). \<exists>v. ra_fence_epoch (snd e) = encode_u64 v \<and> v < epoch) \<and>
        out = \<lparr>rr_reservation = new_reservation q expected, rr_stage = \<lparr>qr_job = k, qr_attempt = new_attempt q epoch,
          qr_lease = to_lease q epoch, qr_created = True\<rparr>\<rparr>)"

lemma reserve_new_exactly:
  assumes "control_ok db"
    and "reserve_new q (encode_reserved_request q expected) expected (db\<lparr>db_tape := t2\<rparr>) = (Inr out, db1)"
  shows "node_free q expected db" and "reserved_exactly q expected db out (db1\<lparr>db_tape := t'\<rparr>)"
    and "qr_created (rr_stage out)"
proof -
  obtain t3 where free: "node_free q expected db" and out: "rr_reservation out = new_reservation q expected"
    and st: "stage_new_in_transaction q (encode_reserved_request q expected)
      ((reserved_db q expected (db\<lparr>db_tape := t2\<rparr>))\<lparr>db_tape := t3\<rparr>) = (Inr (rr_stage out), db1)"
    by (rule reserve_new_Ok [OF assms(2)]) (simp add: node_free_def)
  define db2 where "db2 = (reserved_db q expected (db\<lparr>db_tape := t2\<rparr>))\<lparr>db_tape := t3\<rparr>"
  have same: "jd_jobs db2 = jd_jobs db" "jd_attempts db2 = jd_attempts db" "ld_leases db2 = ld_leases db"
    "sd_fence_state db2 = sd_fence_state db" by (simp_all add: db2_def reserved_db_def)
  have jobs: "jobs_ok (jd_jobs db2)" using assms(1) by (simp add: same control_ok_def)
  obtain t4 epoch r j k where *: "db1 = (staged_db q (encode_reserved_request q expected) epoch k db2)\<lparr>db_tape := t4\<rparr>"
    "rr_stage out = \<lparr>qr_job = k, qr_attempt = new_attempt q epoch, qr_lease = to_lease q epoch, qr_created = True\<rparr>"
    "hm_get (jd_jobs db2) (sq_job_id q) = Some r" "job_into_stored r = Inr j" "sj_job_id j = sq_job_id q"
    "sj_state j \<in> {JobQueued, JobPaused}" "job_step j k" "sj_state k = staged_state (sj_state j)"
    "sj_staging_at_unix_ms k = Some (sq_issued_at_unix_ms q)"
    "hm_get (jd_attempts db2) (sq_attempt_id q) = None" "hm_get (ld_leases db2) (sq_lease_id q) = None"
    "hm_get (sd_operations db2) (sq_operation_key q) = None" "counter_at_most epoch (sd_fence_state db2)"
    "\<forall>e \<in> set (ld_leases db2). \<exists>v. rl_fence_epoch (snd e) = encode_u64 v \<and> v < epoch"
    by (rule stage_new_Ok [OF st [folded db2_def] jobs])
  have "db1\<lparr>db_tape := t'\<rparr> = (staged_db q (encode_reserved_request q expected) epoch k (reserved_db q expected db))\<lparr>db_tape := t'\<rparr>"
    unfolding *(1) db2_def staged_db_def reserved_db_def by (cases db) simp
  moreover have "out = \<lparr>rr_reservation = new_reservation q expected, rr_stage = \<lparr>qr_job = k, qr_attempt = new_attempt q epoch,
      qr_lease = to_lease q epoch, qr_created = True\<rparr>\<rparr>" using out *(2) by (cases out) simp
  moreover have "job_at db (sq_job_id q) = Some j" using *(3,4) by (simp add: job_at_def same)
  moreover have "\<forall>e \<in> set (jd_attempts db). \<exists>v. ra_fence_epoch (snd e) = encode_u64 v \<and> v < epoch"
    using staged_attempt_newest(2) [OF assms(1), of q epoch] *(10,13) by (simp add: same)
  ultimately show "reserved_exactly q expected db out (db1\<lparr>db_tape := t'\<rparr>)"
    unfolding reserved_exactly_def using *(6-8,14) same(3) by (intro exI [of _ t'] exI [of _ epoch] exI [of _ j] exI [of _ k]) simp
  show "node_free q expected db" "qr_created (rr_stage out)" using free *(2) by simp_all
qed

text \<open>
  C12: reserving a node for a job is all or nothing. An error, of a check or of a statement at any
  point, and the replay of an earlier request leave every table as it was. Otherwise the node was
  free, its inventory was the one the caller planned with and held the selected GPUs, the job was
  queued or paused, and exactly the reservation, its GPU rows, the attempt, its lease, the moved
  job, the operation and the counter are written, under an epoch above every earlier one.
\<close>

theorem reserve_and_stage_all_or_nothing:
  assumes "control_ok db" and "reserve_and_stage q expected m db = (res, db')"
  shows "(case res of
     Inl e \<Rightarrow> same_tables db db'
   | Inr out \<Rightarrow>
       if qr_created (rr_stage out) then
         node_free q expected db \<and>
         (\<exists>t epoch j k. db' = (staged_db q (encode_reserved_request q expected) epoch k (reserved_db q expected db))\<lparr>db_tape := t\<rparr> \<and>
            job_at db (sq_job_id q) = Some j \<and> sj_state j \<in> {JobQueued, JobPaused} \<and>
            job_step j k \<and> sj_state k = staged_state (sj_state j) \<and>
            (\<forall>e \<in> set (ld_leases db). \<exists>v. rl_fence_epoch (snd e) = encode_u64 v \<and> v < epoch) \<and>
            (\<forall>e \<in> set (jd_attempts db). \<exists>v. ra_fence_epoch (snd e) = encode_u64 v \<and> v < epoch) \<and>
            out = \<lparr>rr_reservation = new_reservation q expected, rr_stage = \<lparr>qr_job = k, qr_attempt = new_attempt q epoch,
              qr_lease = to_lease q epoch, qr_created = True\<rparr>\<rparr>)
       else same_tables db db')"
proof (cases res)
  case (Inl e)
  with assms(2) stage_error_same [of "validate_request q"] show ?thesis by (auto simp: reserve_and_stage_def)
next
  case (Inr out)
  with assms(2) have "in_transaction (Staging \<circ> staging_map_sql_error) (reserve_body q expected m) db = (Inr out, db')"
    by (auto simp: reserve_and_stage_def tx_bind_Ok tx_map_err_Ok lift_result_Ok)
  then obtain t db1 t' where body: "reserve_body q expected m (db\<lparr>db_tape := t\<rparr>) = (Inr out, db1)" and db': "db' = db1\<lparr>db_tape := t'\<rparr>"
    by (rule in_transaction_Ok)
  from body show ?thesis
  proof (cases rule: reserve_body_Ok)
    case (replay t2 e)
    then have "db' = db\<lparr>db_tape := t'\<rparr>" using db' by simp
    with replay Inr show ?thesis by simp
  next
    case (created t2)
    then have "reserve_new q (encode_reserved_request q expected) expected (db\<lparr>db_tape := t2\<rparr>) = (Inr out, db1)" by simp
    note ex = reserve_new_exactly [OF assms(1) this]
    show ?thesis using Inr ex(1,3) ex(2) [of t', unfolded reserved_exactly_def, folded db'] by simp
  qed
qed

lemma example_reserved: "\<exists>out. reserve_and_stage example_request 4 False example_ready = (Ok out, example_staged_db) \<and> qr_created (rr_stage out)"
proof -
  have "db_tape example_ready = []" "db_tape example_staged_db = []"
    by (simp_all add: example_staged_db_def staged_db_def reserved_db_def example_defs)
  note run = in_transaction_no_fault [where f = "Staging \<circ> staging_map_sql_error" and body = "reserve_body example_request 4 False",
      OF this(1) example_reserve this(2)]
  show ?thesis
    by (simp add: reserve_and_stage_def tx_bind_def tx_map_err_def lift_result_def example_steps run)
qed

theorem reserve_and_stage_all_or_nothing_witness:
  "\<exists>out. reserve_and_stage example_request 4 False example_ready = (Ok out, example_staged_db) \<and>
     node_free example_request 4 example_ready \<and> qr_created (rr_stage out)"
proof -
  obtain out where out: "reserve_and_stage example_request 4 False example_ready = (Ok out, example_staged_db)"
    "qr_created (rr_stage out)" using example_reserved by blast
  from reserve_and_stage_all_or_nothing [OF example_ready_ok out(1)] out show ?thesis by simp
qed

lemma stage_body_created:
  assumes "stage_body q db = (Inr res, db')" and "qr_created res"
  shows "\<exists>t. stage_new_in_transaction q (encode_request q) (db\<lparr>db_tape := t\<rparr>) = (Inr res, db')"
proof -
  from assms(1) obtain op db2 where op: "fetch_operation (sq_operation_key q) db = (Inr op, db2)"
    and rest: "(case op of
        Some (op, epoch) \<Rightarrow> if \<not> same_operation q (encode_request q) op then tx_fail OperationConflict else load_result q epoch
      | None \<Rightarrow> stage_new_in_transaction q (encode_request q)) db2 = (Inr res, db')"
    by (auto simp: stage_body_def Let_def tx_bind_Ok)
  from op fetch_operation_same [of db "sq_operation_key q"] obtain t where "db2 = db\<lparr>db_tape := t\<rparr>"
    by (auto simp: same_tables_def)
  with rest assms(2) show ?thesis
    by (cases op) (auto simp: load_result_def Let_def tx_ok split: prod.splits if_splits)
qed

text \<open>
  The attempt of a new staging is the latest attempt of its job at once, so that the
  acknowledgements and reports of every earlier attempt are refused from then on.
\<close>

theorem staged_attempt_is_latest:
  assumes "control_ok db" and "stage q db = (Ok res, db')" and "qr_created res"
  shows "latest_attempt_row (jd_attempts db') (sq_job_id q) = Some (sq_attempt_id q) \<and>
    (\<forall>e \<in> set (jd_attempts db). \<exists>v. ra_fence_epoch (snd e) = encode_u64 v \<and> v < sa_fence_epoch (qr_attempt res))"
proof -
  obtain t db1 t' where body: "stage_body q (db\<lparr>db_tape := t\<rparr>) = (Inr res, db1)" and db': "db' = db1\<lparr>db_tape := t'\<rparr>"
    using assms(2) by (auto simp: stage_def tx_bind_Ok lift_result_Ok elim!: in_transaction_Ok)
  obtain t2 where st: "stage_new_in_transaction q (encode_request q) (db\<lparr>db_tape := t2\<rparr>) = (Inr res, db1)"
    using stage_body_created [OF body assms(3)] by auto
  have jobs: "jobs_ok (jd_jobs (db\<lparr>db_tape := t2\<rparr>))" using assms(1) by (simp add: control_ok_def)
  obtain t3 epoch k where *: "db1 = (staged_db q (encode_request q) epoch k (db\<lparr>db_tape := t2\<rparr>))\<lparr>db_tape := t3\<rparr>"
    "sa_fence_epoch (qr_attempt res) = epoch" "hm_get (jd_attempts db) (sq_attempt_id q) = None"
    "counter_at_most epoch (sd_fence_state db)"
    by (rule stage_new_Ok [OF st jobs]) (simp add: new_attempt_def)
  have "latest_attempt_row (jd_attempts db1) (sq_job_id q) = Some (sq_attempt_id q)"
    unfolding *(1) using staged_attempt_newest(1) [of "db\<lparr>db_tape := t2\<rparr>" q epoch "encode_request q" k] assms(1) *(3,4) by simp
  with staged_attempt_newest(2) [OF assms(1) *(3,4)] *(2) db' show ?thesis by simp
qed

lemma example_stage:
  "\<exists>res. stage example_request example_ready =
     (Ok res, staged_db example_request (encode_request example_request) 1 example_staging example_ready) \<and> qr_created res"
proof -
  let ?db = "staged_db example_request (encode_request example_request) 1 example_staging example_ready"
  let ?res = "\<lparr>qr_job = example_staging, qr_attempt = new_attempt example_request 1, qr_lease = to_lease example_request 1,
    qr_created = True\<rparr>"
  have tape: "db_tape example_ready = []" "db_tape ?db = []" by (simp_all add: staged_db_def example_defs)
  have body: "stage_body example_request example_ready = (Ok ?res, ?db)"
    by (simp add: staging_run stage_body_def Let_def example_run staged_db_def example_defs hm_get_def hm_contains_key_def
        hm_insert_def example_state example_update checked_add_def new_attempt_def to_lease_def job_into_stored_row_of
        example_queued_ok) (simp add: example_staging_def)
  note run = in_transaction_no_fault [where f = staging_map_sql_error and body = "stage_body example_request", OF tape(1) body tape(2)]
  show ?thesis by (simp add: stage_def tx_bind_def lift_result_def example_steps run)
qed

theorem staged_attempt_is_latest_witness:
  "\<exists>res db'. stage example_request example_ready = (Ok res, db') \<and> latest_attempt_row (jd_attempts db') (lit ''j'') = Some (lit ''a'')"
proof -
  obtain res db' where run: "stage example_request example_ready = (Ok res, db')" "qr_created res" using example_stage by blast
  from staged_attempt_is_latest [OF example_ready_ok run] run(1) show ?thesis by (auto simp: example_request_def)
qed

end
