(* ===== verification/Failover_Safety.thy ===== *)
theory Failover_Safety
  imports Control_Safety
begin

text \<open>
  Failover is safe: a job is taken from its node only after the expiry of the lease and the
  longest grace that was announced, the old lease is dead from then on, the chosen resume point is
  the newest acceptable one, and an operator can only release a node whose job has moved on.
\<close>

section \<open>Taking over a job\<close>

lemma check_lost_drop: "check_lost policy now i db = (Inl (Inl x), db') \<Longrightarrow> x = None"
  unfolding check_lost_def by (auto simp: tx_err reject_if_Err ok_or_Err)

lemma failover_one_Ok:
  assumes "failover_one api policy now i db = (Inr (Some out), db')" and "control_ok db"
  obtains t t' j a db1 where "check_lost policy now i (db\<lparr>db_tape := t\<rparr>) = (Inr (j, a), db\<lparr>db_tape := t'\<rparr>)"
    "take_over api policy now j a (db\<lparr>db_tape := t'\<rparr>) = (Inr out, db1)" "\<exists>t. db' = db1\<lparr>db_tape := t\<rparr>"
proof -
  have jobs: "jobs_ok (jd_jobs (db\<lparr>db_tape := t\<rparr>))" for t using assms(2) by (simp add: control_ok_def)
  from assms(1) [unfolded failover_one_def] show ?thesis
  proof (cases rule: in_transaction_or_drop_Ok)
    case (commit t db1 t')
    then obtain j a db2 where c: "check_lost policy now i (db\<lparr>db_tape := t\<rparr>) = (Inr (j, a), db2)"
      and k: "take_over api policy now j a db2 = (Inr out, db1)"
      by (auto simp: tx_bind_Ok tx_map_err_Ok tx_return_Ok)
    obtain t2 where "db2 = db\<lparr>db_tape := t2\<rparr>" by (rule check_lost_Ok [OF c jobs]) simp
    with c k have "check_lost policy now i (db\<lparr>db_tape := t\<rparr>) = (Inr (j, a), db\<lparr>db_tape := t2\<rparr>)"
      "take_over api policy now j a (db\<lparr>db_tape := t2\<rparr>) = (Inr out, db1)" by simp_all
    then show ?thesis by (rule that) (use commit(2) in blast)
  next
    case (drop t db1 t')
    then show ?thesis by (auto simp: tx_err dest: check_lost_drop)
  qed
qed

lemma unat_max: "unat (max a b) = max (unat a) (unat b)" for a b :: u64
  by (simp add: max_def word_le_nat_alt)

lemma lost_at_less:
  assumes "lost_at policy l < now"
  shows "unat (sl_expires_at_unix_ms l) + max (unat (fp_grace_ms policy)) (unat (sl_reassignment_grace_ms l)) < unat now"
proof -
  let ?e = "unat (sl_expires_at_unix_ms l) + max (unat (fp_grace_ms policy)) (unat (sl_reassignment_grace_ms l))"
  have "min ?e (2 ^ 64 - 1) < unat now"
    using assms by (simp add: lost_at_def word_less_nat_alt unat_saturating_add unat_max)
  moreover have "unat now < 2 ^ 64" using unsigned_less [where w = now and 'b = 64] by simp
  ultimately show ?thesis by linarith
qed

lemma coalesce_in:
  assumes "into_stored r = Inr l"
  shows "into_stored (coalesce_revoked t r) = Inr (l\<lparr>sl_revoked_at_unix_ms :=
    Some (case sl_revoked_at_unix_ms l of Some s \<Rightarrow> s | None \<Rightarrow> t)\<rparr>)"
proof (cases "rl_revoked_at_unix_ms r")
  case None
  with assms show ?thesis
    using into_stored_revoke [OF assms, of t] into_stored_revoked [OF assms] by (simp add: coalesce_revoked_def)
next
  case (Some b)
  then obtain s where "sl_revoked_at_unix_ms l = Some s" using into_stored_revoked [OF assms] by auto
  moreover have "coalesce_revoked t r = r" using Some by (simp add: coalesce_revoked_def)
  moreover have "l\<lparr>sl_revoked_at_unix_ms := sl_revoked_at_unix_ms l\<rparr> = l" by simp
  ultimately show ?thesis using assms by simp
qed

lemma failover_one_effect:
  assumes "control_ok db" and "no_empty_body api" and "failover_one api policy now i db = (Ok (Some out), db')"
  shows "\<exists>j a l k. job_at db i = Some j \<and> sj_state j \<in> {JobStaging, JobRunning} \<and>
    latest_attempt_row (jd_attempts db) i = Some (sa_attempt_id a) \<and> attempt_in db (sa_attempt_id a) = Ok (Some a) \<and>
    \<not> attempt_is_over (sa_state a) \<and> lease_in (ld_leases db) (sa_lease_id a) = Some l \<and>
    unat (sl_expires_at_unix_ms l) + max (unat (fp_grace_ms policy)) (unat (sl_reassignment_grace_ms l)) < unat now \<and>
    job_at db' i = Some k \<and> job_step j k \<and> sj_state k \<in> {JobQueued, JobFailed} \<and>
    lease_in (ld_leases db') (sa_lease_id a) = Some (l\<lparr>sl_revoked_at_unix_ms :=
      Some (case sl_revoked_at_unix_ms l of Some t \<Rightarrow> t | None \<Rightarrow> now)\<rparr>)"
proof -
  obtain t t' j a db1 where c: "check_lost policy now i (db\<lparr>db_tape := t\<rparr>) = (Inr (j, a), db\<lparr>db_tape := t'\<rparr>)"
    and k: "take_over api policy now j a (db\<lparr>db_tape := t'\<rparr>) = (Inr out, db1)" and db': "\<exists>t. db' = db1\<lparr>db_tape := t\<rparr>"
    by (rule failover_one_Ok [OF assms(3,1)])
  have jobs: "jobs_ok (jd_jobs (db\<lparr>db_tape := t\<rparr>))" using assms(1) by (simp add: control_ok_def)
  obtain r l rl where *: "hm_get (jd_jobs db) i = Some r" "job_into_stored r = Inr j" "sj_job_id j = i"
    "sj_state j \<in> {JobStaging, JobRunning}" "latest_attempt_row (jd_attempts db) i = Some (sa_attempt_id a)"
    "attempt_in db (sa_attempt_id a) = Ok (Some a)" "\<not> attempt_is_over (sa_state a)"
    "hm_get (ld_leases db) (sa_lease_id a) = Some rl" "into_stored rl = Inr l" "lost_at policy l < now"
    by (rule check_lost_Ok [OF c jobs]) simp
  have j1: "hm_get (jd_jobs (db\<lparr>db_tape := t'\<rparr>)) (sj_job_id j) = Some r" using * by simp
  obtain k rl' where k: "job_step j k" "sj_state k \<in> {JobQueued, JobFailed}" "jd_jobs db1 = hm_insert i (row_of k) (jd_jobs db)"
    "hm_get (ld_leases db) (sa_lease_id a) = Some rl'"
    "ld_leases db1 = hm_insert (sa_lease_id a) (coalesce_revoked now rl') (ld_leases db)"
    by (rule take_over_Ok [OF k assms(2) j1 *(2)]) (simp add: *(3))
  have "job_into_stored (row_of k) = Inr k" using k(1) by (simp add: job_step_def job_into_stored_row_of)
  then have "job_at db' i = Some k" using k(3) db' assms(1) by (auto simp: job_at_def control_ok_def jobs_ok_def hm.get_insert)
  moreover have "lease_in (ld_leases db') (sa_lease_id a) = Some (l\<lparr>sl_revoked_at_unix_ms :=
      Some (case sl_revoked_at_unix_ms l of Some t \<Rightarrow> t | None \<Rightarrow> now)\<rparr>)"
    using k(4,5) *(8,9) db' assms(1) coalesce_in [OF *(9), of now] by (auto simp: lease_in_def control_ok_def hm.get_insert)
  moreover have "lease_in (ld_leases db) (sa_lease_id a) = Some l" "job_at db i = Some j"
    using * by (simp_all add: lease_in_def job_at_def)
  ultimately show ?thesis using *(4-7) lost_at_less [OF *(10)] k(1,2) by blast
qed

text \<open>
  C6: when failover takes a job over, its latest attempt was not over, its lease had expired and
  the longer of the policy's grace and the grace announced to the node had passed after that, in
  exact arithmetic. In the same commit the lease is revoked and the job is queued again or failed.
\<close>

theorem failover_waits_for_grace:
  assumes "control_ok db" and "no_empty_body api" and "failover_one api policy now i db = (Ok (Some out), db')"
  shows "\<exists>j a l k. job_at db i = Some j \<and> sj_state j \<in> {JobStaging, JobRunning} \<and>
    latest_attempt_row (jd_attempts db) i = Some (sa_attempt_id a) \<and> attempt_in db (sa_attempt_id a) = Ok (Some a) \<and>
    \<not> attempt_is_over (sa_state a) \<and> lease_in (ld_leases db) (sa_lease_id a) = Some l \<and>
    unat (sl_expires_at_unix_ms l) + max (unat (fp_grace_ms policy)) (unat (sl_reassignment_grace_ms l)) < unat now \<and>
    job_at db' i = Some k \<and> job_step j k \<and> sj_state k \<in> {JobQueued, JobFailed} \<and>
    lease_in (ld_leases db') (sa_lease_id a) = Some (l\<lparr>sl_revoked_at_unix_ms :=
      Some (case sl_revoked_at_unix_ms l of Some t \<Rightarrow> t | None \<Rightarrow> now)\<rparr>)"
  using failover_one_effect [OF assms] .

lemma example_staging_ok: "job_ok example_staging"
  by (simp add: example_staging_def example_queued_def submitted_job_def example_submission_def shape_simps is_blank_def trim_def
      is_whitespace_def)

lemma example_staging_state: "sj_state example_staging = JobStaging" "sj_job_id example_staging = lit ''j''"
  "sj_revision example_staging = 1" "sj_requeue_count example_staging = 0" "sj_resume_checkpoint example_staging = None"
  by (simp_all add: example_staging_def example_queued_def submitted_job_def example_submission_def)

lemmas example_tables = example_staged_db_def staged_db_def reserved_db_def reservation_row_def attempt_row_def new_attempt_def
  to_lease_def inserted_row_def example_defs hm_get_def hm_contains_key_def hm_insert_def

lemma example_check_lost:
  "check_lost example_failover_policy 1001 (lit ''j'') example_staged_db = (Ok (example_staging, new_attempt example_request 1), example_staged_db)"
  by (simp add: check_lost_def example_run fetch_job_def select_latest_def fetch_attempt_def fetch_lease_def example_tables
      job_into_stored_row_of example_staging_ok example_staging_state latest_attempt_row_def attempt_is_over_def lost_at_def
      example_failover_policy_def into_stored_def saturating_add_def checked_add_def is_blank_def trim_def is_whitespace_def state_from_db_def ALL_ATTEMPT_STATES_def)

text \<open>The example job goes back to the queue.\<close>

lemma example_take_over:
  "\<exists>out db'. take_over example_api example_failover_policy 1001 example_staging (new_attempt example_request 1) example_staged_db =
     (Ok out, db') \<and> db_tape db' = []"
  by (simp add: take_over_def Let_def example_run requeue_after_node_lost_def node_lost_path_def first_node_def
      write_next_revision_def update_job_def revoke_within_def update_lease_def mark_reservation_expired_def
      rejected_transition_def job_walk_def job_transition_def job_transition_triggers_def checked_add_def
      example_tables example_staging_state)

lemma example_failover: "\<exists>out db'. failover_one example_api example_failover_policy 1001 (lit ''j'') example_staged_db = (Ok (Some out), db')"
proof -
  obtain out db' where k: "take_over example_api example_failover_policy 1001 example_staging (new_attempt example_request 1) example_staged_db =
     (Ok out, db')" "db_tape db' = []" using example_take_over by blast
  let ?body = "tx_bind (check_lost example_failover_policy 1001 (lit ''j'')) (\<lambda>(job, attempt).
     tx_bind (tx_map_err Inr (take_over example_api example_failover_policy 1001 job attempt)) (\<lambda>outcome. tx_return (Some outcome)))"
  have tape: "db_tape example_staged_db = []" by (simp add: example_tables)
  have body: "?body example_staged_db = (Ok (Some out), db')"
    unfolding tx_bind_def tx_map_err_def tx_return_def example_check_lost by (simp add: k)
  note run = in_transaction_no_fault [where f = "Inr \<circ> FailoverSql" and body = ?body, OF tape body k(2)]
  show ?thesis unfolding failover_one_def in_transaction_or_drop_def run by simp
qed

lemma example_staged_ok: "control_ok example_staged_db"
proof -
  obtain out where "reserve_and_stage example_request 4 False example_ready = (Ok out, example_staged_db)"
    using example_reserved by blast
  with reach_ok [OF reserve_and_stage_reach [OF example_ready_ok, of example_request 4 False] example_ready_ok] show ?thesis by simp
qed

theorem failover_waits_for_grace_witness:
  "\<exists>out db'. failover_one example_api example_failover_policy 1001 (lit ''j'') example_staged_db = (Ok (Some out), db') \<and>
     (\<exists>k. job_at db' (lit ''j'') = Some k \<and> sj_state k \<in> {JobQueued, JobFailed})"
proof -
  obtain out db' where "failover_one example_api example_failover_policy 1001 (lit ''j'') example_staged_db = (Ok (Some out), db')"
    using example_failover by blast
  with failover_waits_for_grace [OF example_staged_ok example_api_bodies this] show ?thesis by blast
qed

section \<open>The old lease\<close>

lemma renewal_of_revoked:
  assumes "lease_in (ld_leases db) i = Some l" and "sl_revoked_at_unix_ms l = Some t"
  shows "renew_existing_within_duration i now e a (db\<lparr>db_tape := []\<rparr>) = (Err (LeaseRevoked t), db\<lparr>db_tape := []\<rparr>)"
proof -
  obtain r where "hm_get (ld_leases db) i = Some r" "into_stored r = Inr l"
    using assms(1) by (auto simp: lease_in_def split: option.splits sum.splits)
  then have "renew_within_body i now e a (db\<lparr>db_tape := []\<rparr>) = (Ok (Err (LeaseRevoked t)), db\<lparr>db_tape := []\<rparr>)"
    using assms(2) by (simp add: renew_within_body_def tx_bind_def fetch_lease_def statement_no_fault lift_result_def tx_return_def)
  from in_transaction_result_no_fault [where body = "renew_within_body i now e a" and db = "db\<lparr>db_tape := []\<rparr>"
      and f = lease_map_sql_error, OF _ this]
  show ?thesis by (simp add: renew_existing_within_duration_def)
qed

text \<open>
  C7: after a job was taken over, the lease of its old attempt is dead: whatever is called
  afterwards and whatever statements fail, the lease stays revoked and a renewal is refused, so
  that the old node cannot extend it and run beside the new one.
\<close>

theorem old_lease_is_dead_after_failover:
  assumes "control_ok db" and "no_empty_body (ce_resume env)" and "list_all call_typed calls"
    and "failover_one (ce_resume env) (ce_policy env) now i db = (Ok (Some out), db1)"
  shows "\<exists>a t. latest_attempt_row (jd_attempts db) i = Some (sa_attempt_id a) \<and> attempt_in db (sa_attempt_id a) = Ok (Some a) \<and>
    (\<forall>at e r. fst (renew_existing_within_duration (sa_lease_id a) at e r ((control_history env calls db1)\<lparr>db_tape := []\<rparr>)) =
       Err (LeaseRevoked t))"
proof -
  have ok: "control_ok db1"
    using reach_ok [OF failover_one_reach [OF assms(1,2), of "ce_policy env" now i] assms(1)] assms(4) by simp
  obtain a l t where a: "latest_attempt_row (jd_attempts db) i = Some (sa_attempt_id a)"
    "attempt_in db (sa_attempt_id a) = Ok (Some a)"
    "lease_in (ld_leases db1) (sa_lease_id a) = Some (l\<lparr>sl_revoked_at_unix_ms := Some t\<rparr>)"
    using failover_one_effect [OF assms(1,2,4)] by blast
  from ls.S_history [OF ok assms(2,3)] a(3) obtain l' where
    "lease_in (ld_leases (control_history env calls db1)) (sa_lease_id a) = Some l'" "sl_revoked_at_unix_ms l' = Some t"
    by (fastforce simp: leases_survive_def lease_evolves_def)
  with renewal_of_revoked a(1,2) show ?thesis by fastforce
qed

theorem old_lease_is_dead_after_failover_witness:
  "\<exists>out db1 (a :: stored_attempt) t. failover_one example_api example_failover_policy 1001 (lit ''j'') example_staged_db = (Ok (Some out), db1) \<and>
    (\<forall>at e r. fst (renew_existing_within_duration (sa_lease_id a) at e r
        ((control_history example_env [LeaseCall (RenewExisting (lit ''l'') 9000 8000), FailoverLostAttempts 3000] db1)\<lparr>db_tape := []\<rparr>)) =
       Err (LeaseRevoked t))"
proof -
  obtain out db1 where run: "failover_one example_api example_failover_policy 1001 (lit ''j'') example_staged_db = (Ok (Some out), db1)"
    using example_failover by blast
  have env: "ce_resume example_env = example_api" "ce_policy example_env = example_failover_policy" by (simp_all add: example_env_def)
  have "list_all call_typed ([LeaseCall (RenewExisting (lit ''l'') 9000 8000), FailoverLostAttempts 3000] :: (unit, unit) control_call list)" by simp
  from old_lease_is_dead_after_failover [OF example_staged_ok _ this, of example_env, unfolded env, OF example_api_bodies run] run
  show ?thesis by blast
qed

section \<open>The resume point\<close>

text \<open>
  C14: the checkpoint a job resumes from is one of the listed files, it decodes to a manifest of
  that name and of this job, its signature verifies, it was produced by a node of the attempt it
  names under that attempt's fence epoch, its content is on disk, and no acceptable file is newer
  in epoch and step. If there is none, no listed file is acceptable. Searching changes no table.
\<close>

theorem resume_point_is_newest:
  assumes "find_resume_point api policy job_id now list_error_as_none db = (Ok found, db')"
    and "fp_shared_checkpoint_root policy = Some root" and "rs_list api root job_id = Some listed"
  shows "same_tables db db' \<and> (case found of
     None \<Rightarrow> \<forall>e \<in> set listed. \<forall>man. \<not> acceptable api root job_id now db e man
   | Some p \<Rightarrow> \<exists>e man. e \<in> set listed \<and> acceptable api root job_id now db e man \<and>
       p = \<lparr>rp_checkpoint_id = fst e, rp_step = rs_step api man, rp_body = snd e\<rparr> \<and>
       (\<forall>e' \<in> set listed. \<forall>man'. acceptable api root job_id now db e' man' \<longrightarrow>
          (rs_fence_epoch api man', rs_step api man') \<le> (rs_fence_epoch api man, rs_step api man)))"
  using find_resume_point_Ok [OF assms(1)] assms(2,3)
  by (simp only: best_of_def option.case same_tables_def resume_of_def resume_key_def)

lemma example_resume:
  "find_resume_point example_api example_failover_policy (lit ''j'') 5 False example_staged_db =
     (Ok (Some \<lparr>rp_checkpoint_id = lit ''d'', rp_step = 2, rp_body = [2]\<rparr>), example_staged_db)"
  by (simp add: find_resume_point_def example_failover_policy_def example_api_def example_run fetch_attempt_def example_tables
      state_from_db_def ALL_ATTEMPT_STATES_def is_blank_def trim_def is_whitespace_def matching_attempt_def Let_def)

theorem resume_point_is_newest_witness:
  "\<exists>e man. e \<in> set [(lit ''c'', [1]), (lit ''d'', [2]), (lit ''x'', [])] \<and>
     acceptable example_api (lit ''/ckpt'') (lit ''j'') 5 example_staged_db e man \<and>
     \<lparr>rp_checkpoint_id = lit ''d'', rp_step = 2, rp_body = [2]\<rparr> =
       \<lparr>rp_checkpoint_id = fst e, rp_step = rs_step example_api man, rp_body = snd e\<rparr>"
proof -
  have "fp_shared_checkpoint_root example_failover_policy = Some (lit ''/ckpt'')"
    "rs_list example_api (lit ''/ckpt'') (lit ''j'') = Some [(lit ''c'', [1]), (lit ''d'', [2]), (lit ''x'', [])]"
    by (simp_all add: example_failover_policy_def example_api_def)
  from resume_point_is_newest [OF example_resume this] show ?thesis by auto
qed

section \<open>Release by an operator\<close>

text \<open>Opening the stores touches the column lists only.\<close>

definition columns_frame :: "'m staging_db_scheme \<Rightarrow> 'm staging_db_scheme \<Rightarrow> bool" where
  "columns_frame db db' \<longleftrightarrow> (\<exists>t c c'. db' = db\<lparr>db_tape := t, ld_columns := c, jd_columns := c'\<rparr>)"

lemma columns_frame_intro:
  "columns_frame db (db\<lparr>ld_columns := c\<rparr>)" "columns_frame db (db\<lparr>jd_columns := c'\<rparr>)" "columns_frame db db"
  "columns_frame db (db\<lparr>db_tape := t\<rparr>)"
proof -
  have "db\<lparr>ld_columns := c\<rparr> = db\<lparr>db_tape := db_tape db, ld_columns := c, jd_columns := jd_columns db\<rparr>"
    "db\<lparr>jd_columns := c'\<rparr> = db\<lparr>db_tape := db_tape db, ld_columns := ld_columns db, jd_columns := c'\<rparr>"
    "db = db\<lparr>db_tape := db_tape db, ld_columns := ld_columns db, jd_columns := jd_columns db\<rparr>"
    "db\<lparr>db_tape := t\<rparr> = db\<lparr>db_tape := t, ld_columns := ld_columns db, jd_columns := jd_columns db\<rparr>" by simp_all
  then show "columns_frame db (db\<lparr>ld_columns := c\<rparr>)" "columns_frame db (db\<lparr>jd_columns := c'\<rparr>)" "columns_frame db db"
    "columns_frame db (db\<lparr>db_tape := t\<rparr>)" unfolding columns_frame_def by blast+
qed

interpretation cf: tx_relation "columns_frame :: 'm staging_db_scheme \<Rightarrow> 'm staging_db_scheme \<Rightarrow> bool"
proof unfold_locales
  fix a b c :: "'m staging_db_scheme"
  assume "columns_frame a b" "columns_frame b c"
  then obtain t x y t' x' y' where "b = a\<lparr>db_tape := t, ld_columns := x, jd_columns := y\<rparr>"
    "c = b\<lparr>db_tape := t', ld_columns := x', jd_columns := y'\<rparr>" by (auto simp: columns_frame_def)
  then have "c = a\<lparr>db_tape := t', ld_columns := x', jd_columns := y'\<rparr>" by (cases a) simp
  then show "columns_frame a c" by (auto simp: columns_frame_def)
qed (simp add: columns_frame_intro)

lemma write_columns:
  "(\<And>db. columns_frame db (h db)) \<Longrightarrow> columns_frame db (snd (statement f (\<lambda>db. (x, h db)) db))"
  by (rule cf.R_statement) simp

lemma read_columns_only: "columns_frame db (snd (statement f (\<lambda>db. (g db, db)) db))"
  by (rule cf.R_statement) (simp add: columns_frame_intro)

lemma transaction_columns:
  "(\<And>db. columns_frame db (snd (body db))) \<Longrightarrow> columns_frame db (snd (in_transaction f body db))"
  by (rule cf.R_in_transaction) (metis snd_conv)

lemma add_job_columns_frame: "columns_frame db (snd (add_job_columns cs db))"
  by (induction cs arbitrary: db)
    (simp_all add: add_job_column_def cf.R_simple cf.R_bind read_columns_only write_columns columns_frame_intro)

lemma migrate_column_frame: "columns_frame db (snd (migrate_column c db))"
  unfolding migrate_column_def
  by (rule transaction_columns, rule cf.R_bind [OF read_columns_only]) (simp add: write_columns columns_frame_intro cf.R_simple)

lemma open_staging_store_frame: "columns_frame db (snd (open_staging_store db))"
  unfolding open_staging_store_def staging_initialize_schema_def job_initialize_schema_def initialize_schema_def
  by (intro cf.R_bind cf.R_map_err read_columns_only write_columns columns_frame_intro transaction_columns add_job_columns_frame
      migrate_column_frame)

lemma fetch_node_reservation_Some:
  assumes "fetch_node_reservation n db = (Inr (Some v), db')"
  obtains r where "hm_get (sd_reservations db) n = Some r" "nr_job_id v = rv_job_id r" "nr_attempt_id v = rv_attempt_id r"
    "\<exists>t. db' = db\<lparr>db_tape := t\<rparr>"
proof -
  have "\<exists>t. db' = db\<lparr>db_tape := t\<rparr>"
    using fetch_node_reservation_same [of db n] assms by (simp add: same_tables_def)
  with assms that show ?thesis
    by (auto simp: fetch_node_reservation_def tx_ok split: option.splits)
qed

lemma release_rows_Ok:
  assumes "release_rows n stmt now v db = (Inr u, db')"
  obtains t where "db' = db\<lparr>db_tape := t, sd_reservation_gpus := filter (\<lambda>e. fst e \<noteq> n) (sd_reservation_gpus db),
    sd_reservations := hm_remove n (sd_reservations db),
    cd_operator_releases := hm_insert (n, nr_attempt_id v) (nr_job_id v, stmt, to_be_bytes_u64 now) (cd_operator_releases db)\<rparr>"
proof -
  from assms obtain t1 t2 t3 where "db' = db\<lparr>db_tape := t1, sd_reservation_gpus := filter (\<lambda>e. fst e \<noteq> n) (sd_reservation_gpus db),
      db_tape := t2, sd_reservations := hm_remove n (sd_reservations db), db_tape := t3,
      cd_operator_releases := hm_insert (n, nr_attempt_id v) (nr_job_id v, stmt, to_be_bytes_u64 now) (cd_operator_releases db)\<rparr>"
    unfolding release_rows_def
    by (auto simp: tx_bind_Ok lift_result_Ok reject_if_Ok statement_Ok statement_result_Ok split: if_splits option.splits)
  then have "db' = db\<lparr>db_tape := t3, sd_reservation_gpus := filter (\<lambda>e. fst e \<noteq> n) (sd_reservation_gpus db),
    sd_reservations := hm_remove n (sd_reservations db),
    cd_operator_releases := hm_insert (n, nr_attempt_id v) (nr_job_id v, stmt, to_be_bytes_u64 now) (cd_operator_releases db)\<rparr>"
    by (cases db) simp
  then show ?thesis by (rule that)
qed

lemma release_body_Ok:
  assumes "release_body n stmt now db = (Inr rel, db')"
  obtains r t j where "hm_get (sd_reservations db) n = Some r" "job_at db (rv_job_id r) = Some j"
    "latest_attempt_row (jd_attempts db) (rv_job_id r) \<noteq> Some (rv_attempt_id r) \<or> job_moved_on (sj_state j)"
    "or_attempt_id rel = rv_attempt_id r" "or_job_id rel = rv_job_id r"
    "db' = db\<lparr>db_tape := t, sd_reservation_gpus := filter (\<lambda>e. fst e \<noteq> n) (sd_reservation_gpus db),
       sd_reservations := hm_remove n (sd_reservations db),
       cd_operator_releases := hm_insert (n, rv_attempt_id r) (rv_job_id r, stmt, to_be_bytes_u64 now) (cd_operator_releases db)\<rparr>"
proof -
  from assms obtain v db1 j t where
    f: "fetch_node_reservation n db = (Inr (Some v), db1)"
    and j: "map_transpose job_into_stored (hm_get (jd_jobs db1) (nr_job_id v)) = Inr (Some j)"
    and gate: "\<not> (latest_attempt_row (jd_attempts db1) (nr_job_id v) = Some (nr_attempt_id v) \<and> \<not> job_moved_on (sj_state j))"
    and rel: "or_attempt_id rel = nr_attempt_id v" "or_job_id rel = nr_job_id v"
    and rows: "release_rows n stmt now v (db1\<lparr>db_tape := t\<rparr>) = (Inr (), db')"
    unfolding release_body_def select_latest_def
    by (auto simp: tx_bind_Ok tx_map_err_Ok lift_result_Ok ok_or_Ok reject_if_Ok tx_return_Ok fetch_job_Ok statement_Ok)
  obtain r where r: "hm_get (sd_reservations db) n = Some r" "nr_job_id v = rv_job_id r" "nr_attempt_id v = rv_attempt_id r"
    "\<exists>t. db1 = db\<lparr>db_tape := t\<rparr>" by (rule fetch_node_reservation_Some [OF f])
  have "job_at db (rv_job_id r) = Some j"
    using j r(2,4) by (auto simp: job_at_def map_transpose_Ok split: option.splits)
  moreover obtain t3 where "db' = db\<lparr>db_tape := t3, sd_reservation_gpus := filter (\<lambda>e. fst e \<noteq> n) (sd_reservation_gpus db),
       sd_reservations := hm_remove n (sd_reservations db),
       cd_operator_releases := hm_insert (n, rv_attempt_id r) (rv_job_id r, stmt, to_be_bytes_u64 now) (cd_operator_releases db)\<rparr>"
    by (rule release_rows_Ok [OF rows]) (use r(2-4) in auto)
  ultimately show ?thesis using that r gate rel by auto
qed

lemma hm_get_removed: "hm_get (hm_remove n m) n = None"
  by (simp add: hm_get_def hm_remove_def delete_conv')

text \<open>
  C24: an operator's release needs a statement and a reservation whose attempt is no longer the
  latest of its job or whose job is queued, completed or failed. It removes the reservation of that
  node and its GPU rows and records the statement. Nothing else changes in any table: jobs, attempts,
  leases, reports, releases and the other records are as they were. (Opening the store may add
  missing columns to the schema.)
\<close>

theorem operator_release_gate:
  assumes "release_lost_node_by_operator n stmt now db = (Ok rel, db')"
  shows "\<not> is_blank stmt \<and> (\<exists>r j. hm_get (sd_reservations db) n = Some r \<and> job_at db (rv_job_id r) = Some j \<and>
    (latest_attempt_row (jd_attempts db) (rv_job_id r) \<noteq> Some (rv_attempt_id r) \<or>
       sj_state j \<in> {JobQueued, JobCompleted, JobFailed}) \<and>
    or_attempt_id rel = rv_attempt_id r \<and> or_job_id rel = rv_job_id r \<and> hm_get (sd_reservations db') n = None \<and>
    (\<exists>t c c'. db' = db\<lparr>db_tape := t, ld_columns := c, jd_columns := c',
       sd_reservations := hm_remove n (sd_reservations db),
       sd_reservation_gpus := filter (\<lambda>e. fst e \<noteq> n) (sd_reservation_gpus db),
       cd_operator_releases := hm_insert (n, rv_attempt_id r) (rv_job_id r, stmt, to_be_bytes_u64 now) (cd_operator_releases db)\<rparr>))"
proof -
  from assms obtain db1 t0 where blank: "\<not> is_blank stmt" and op: "open_staging_store db = (Inr (), db1)"
    and run: "in_transaction FailoverSql (release_body n stmt now) (db1\<lparr>db_tape := t0\<rparr>) = (Inr rel, db')"
    by (auto simp: release_lost_node_by_operator_def tx_bind_Ok tx_map_err_Ok lift_result_Ok reject_if_Ok statement_Ok)
  define db2 where "db2 = db1\<lparr>db_tape := t0\<rparr>"
  obtain t1 c c' where frame: "db1 = db\<lparr>db_tape := t1, ld_columns := c, jd_columns := c'\<rparr>"
    using open_staging_store_frame [of db] op by (auto simp: columns_frame_def)
  obtain t db3 t' where body: "release_body n stmt now (db2\<lparr>db_tape := t\<rparr>) = (Inr rel, db3)" and db': "db' = db3\<lparr>db_tape := t'\<rparr>"
    by (rule in_transaction_Ok [OF run [folded db2_def]])
  have same: "sd_reservations (db2\<lparr>db_tape := t\<rparr>) = sd_reservations db" "jd_attempts (db2\<lparr>db_tape := t\<rparr>) = jd_attempts db"
    "job_at (db2\<lparr>db_tape := t\<rparr>) = job_at db"
    by (simp_all add: db2_def frame job_at_def fun_eq_iff)
  obtain r t2 j where r: "hm_get (sd_reservations (db2\<lparr>db_tape := t\<rparr>)) n = Some r" "job_at (db2\<lparr>db_tape := t\<rparr>) (rv_job_id r) = Some j"
    "latest_attempt_row (jd_attempts (db2\<lparr>db_tape := t\<rparr>)) (rv_job_id r) \<noteq> Some (rv_attempt_id r) \<or> job_moved_on (sj_state j)"
    "or_attempt_id rel = rv_attempt_id r" "or_job_id rel = rv_job_id r"
    "db3 = db2\<lparr>db_tape := t, db_tape := t2, sd_reservation_gpus := filter (\<lambda>e. fst e \<noteq> n) (sd_reservation_gpus (db2\<lparr>db_tape := t\<rparr>)),
       sd_reservations := hm_remove n (sd_reservations (db2\<lparr>db_tape := t\<rparr>)),
       cd_operator_releases := hm_insert (n, rv_attempt_id r) (rv_job_id r, stmt, to_be_bytes_u64 now)
         (cd_operator_releases (db2\<lparr>db_tape := t\<rparr>))\<rparr>"
    by (rule release_body_Ok [OF body])
  have "db' = db\<lparr>db_tape := t', ld_columns := c, jd_columns := c', sd_reservations := hm_remove n (sd_reservations db),
       sd_reservation_gpus := filter (\<lambda>e. fst e \<noteq> n) (sd_reservation_gpus db),
       cd_operator_releases := hm_insert (n, rv_attempt_id r) (rv_job_id r, stmt, to_be_bytes_u64 now) (cd_operator_releases db)\<rparr>"
    unfolding db' r(6) db2_def frame by (cases db) simp
  moreover from this have "hm_get (sd_reservations db') n = None" by (simp add: hm_get_removed)
  moreover have "sj_state j \<in> {JobQueued, JobCompleted, JobFailed} \<longleftrightarrow> job_moved_on (sj_state j)" by (simp add: job_moved_on_def)
  ultimately show ?thesis using blank r(1-5) [unfolded same] by blast
qed

text \<open>The example after its job went back to the queue.\<close>

definition example_back :: control_db where
  "example_back = example_staged_db\<lparr>ld_columns := Some (base_columns @ [''reassignment_grace_ms'']),
     jd_columns := Some (job_base_columns @ [''running_at_unix_ms'', ''run_terminal'', ''worker_reported_finished_at_unix_ms'',
       ''requeue_count'', ''resume_checkpoint'']),
     jd_jobs := [(lit ''j'', row_of (example_queued ''j'' 6))]\<rparr>"

lemma example_open: "open_staging_store example_back = (Ok (), example_back)"
  by (simp add: open_staging_store_def staging_initialize_schema_def job_initialize_schema_def initialize_schema_def
      migrate_column_def add_job_column_def example_run example_back_def example_tables base_columns_def job_base_columns_def)

lemma example_release_body:
  "\<exists>rel db'. release_body (lit ''n'') (lit ''ok'') 2000 example_back = (Ok rel, db') \<and> db_tape db' = []"
  by (simp add: release_body_def release_rows_def example_run fetch_node_reservation_def fetch_gpu_binding_def select_latest_def
      fetch_job_def example_back_def example_tables job_into_stored_row_of example_queued_ok example_state job_moved_on_def
      is_blank_def trim_def is_whitespace_def validate_selected_gpu_ids_def hm_remove_def)

theorem operator_release_gate_witness:
  "\<exists>rel db'. release_lost_node_by_operator (lit ''n'') (lit ''ok'') 2000 example_back = (Ok rel, db') \<and>
     hm_get (sd_reservations db') (lit ''n'') = None"
proof -
  obtain rel db' where b: "release_body (lit ''n'') (lit ''ok'') 2000 example_back = (Ok rel, db')" "db_tape db' = []"
    using example_release_body by blast
  have tape: "db_tape example_back = []" by (simp add: example_back_def example_tables)
  note run = in_transaction_no_fault [where f = FailoverSql and body = "release_body (lit ''n'') (lit ''ok'') 2000", OF tape b]
  have "\<not> is_blank (lit ''ok'')" by (simp add: is_blank_def trim_def is_whitespace_def)
  then have "release_lost_node_by_operator (lit ''n'') (lit ''ok'') 2000 example_back = (Ok rel, db')"
    using run unfolding release_lost_node_by_operator_def tx_bind_def tx_map_err_def example_open
    by (simp add: statement_no_fault tape lift_result_def example_open)
  with operator_release_gate [OF this] show ?thesis by auto
qed

end
