(* ===== verification/Report_Safety.thy ===== *)
theory Report_Safety
  imports Failover_Safety
begin

text \<open>
  What the end of an attempt guarantees: the first report of an attempt is final, it ends the attempt
  and its job in the same commit, and the reservation of a node is released once, by the attempt that
  holds it, with stored evidence.
\<close>

section \<open>Reading rows\<close>

lemma check_report_row_Ok:
  assumes "check_report_row api a n row = Inr (report, epoch)"
  shows "ri_decode api (rw_report_body row) = Some report" and "ri_hash api (rw_report_body row) = rw_report_hash row"
    and "rw_signer_id row = n" and "ar_attempt_id report = a" and "ar_node_id report = n" and "ar_job_id report = rw_job_id row"
  using assms unfolding check_report_row_def Let_def and_then_Ok ok_or_Ok reject_if_Ok sum.inject prod.inject
  by (elim exE conjE, simp)+

lemma fetch_report_binding_Ok:
  assumes "fetch_report_binding api a n db = (Inr found, db')"
  shows "\<exists>t. db' = db\<lparr>db_tape := t\<rparr>" and "found = None \<longleftrightarrow> hm_get (cd_reports db) (a, n) = None"
    and "found = Some b \<Longrightarrow> \<exists>row. hm_get (cd_reports db) (a, n) = Some row \<and> ri_decode api (rw_report_body row) = Some (rb_report b) \<and>
      rb_report_hash b = rw_report_hash row \<and> ri_hash api (rw_report_body row) = rw_report_hash row \<and>
      rb_signer_id b = rw_signer_id row \<and> rw_signer_id row = n"
proof -
  show "\<exists>t. db' = db\<lparr>db_tape := t\<rparr>" using fetch_report_binding_same [of db api a n] assms by (simp add: same_tables_def)
  show "found = None \<longleftrightarrow> hm_get (cd_reports db) (a, n) = None"
    using assms by (cases "hm_get (cd_reports db) (a, n)")
      (auto simp: fetch_report_binding_def tx_bind_Ok statement_Ok tx_return_Ok lift_result_Ok Let_def)
  assume "found = Some b"
  with assms show "\<exists>row. hm_get (cd_reports db) (a, n) = Some row \<and> ri_decode api (rw_report_body row) = Some (rb_report b) \<and>
      rb_report_hash b = rw_report_hash row \<and> ri_hash api (rw_report_body row) = rw_report_hash row \<and>
      rb_signer_id b = rw_signer_id row \<and> rw_signer_id row = n"
    by (cases "hm_get (cd_reports db) (a, n)")
      (auto simp: fetch_report_binding_def tx_bind_Ok statement_Ok tx_return_Ok lift_result_Ok Let_def check_report_row_Ok
        split: prod.splits)
qed

lemma fetch_node_reservation_Ok:
  assumes "fetch_node_reservation n db = (Inr (Some res), db')"
  shows "\<exists>r. hm_get (sd_reservations db) n = Some r \<and> nr_attempt_id res = rv_attempt_id r \<and> nr_job_id res = rv_job_id r"
  using assms by (cases "hm_get (sd_reservations db) n")
    (auto simp: fetch_node_reservation_def tx_bind_Ok statement_Ok tx_return_Ok lift_result_Ok)

lemma fetch_release_Ok:
  assumes "fetch_release a db = (Inr found, db')"
  shows "\<exists>t. db' = db\<lparr>db_tape := t\<rparr>" and "found = None \<longleftrightarrow> hm_get (cd_releases db) a = None"
    and "found = Some x \<Longrightarrow> \<exists>row. hm_get (cd_releases db) a = Some row \<and> rs_report_hash x = rx_report_hash row"
proof -
  show "\<exists>t. db' = db\<lparr>db_tape := t\<rparr>" using fetch_release_same [of db a] assms by (simp add: same_tables_def)
  show "found = None \<longleftrightarrow> hm_get (cd_releases db) a = None"
    using assms by (cases "hm_get (cd_releases db) a")
      (auto simp: fetch_release_def tx_bind_Ok statement_Ok tx_return_Ok lift_result_Ok Let_def)
  assume "found = Some x"
  with assms show "\<exists>row. hm_get (cd_releases db) a = Some row \<and> rs_report_hash x = rx_report_hash row"
    by (cases "hm_get (cd_releases db) a")
      (auto simp: fetch_release_def tx_bind_Ok statement_Ok tx_return_Ok lift_result_Ok Let_def)
qed

section \<open>Releasing a reservation\<close>

fun release_gpu_rows :: "str \<Rightarrow> int \<Rightarrow> str list \<Rightarrow> (str \<times> int \<times> str) list" where
  "release_gpu_rows a n [] = []"
| "release_gpu_rows a n (g # gs) = (a, n, g) # release_gpu_rows a (n + 1) gs"

definition release_row :: "'r attempt_report_scheme \<Rightarrow> bytes \<Rightarrow> u64 \<Rightarrow> raw_release_row" where
  "release_row r h at = \<lparr>rx_node_id = ar_node_id r, rx_job_id = ar_job_id r, rx_fence_epoch = encode_u64 (ar_fence_epoch r),
     rx_report_hash = h, rx_released_at_unix_ms = encode_u64 at\<rparr>"

text \<open>The tables after a release, but for the rows of the released GPUs.\<close>

definition released_db ::
    "'r attempt_report_scheme \<Rightarrow> bytes \<Rightarrow> u64 \<Rightarrow> str list \<Rightarrow> 'm control_db_scheme \<Rightarrow> 'm control_db_scheme" where
  "released_db r h at gpus db = db\<lparr>
     sd_reservation_gpus := filter (\<lambda>e. fst e \<noteq> ar_node_id r) (sd_reservation_gpus db),
     sd_reservations := hm_remove (ar_node_id r) (sd_reservations db),
     cd_releases := hm_insert (ar_attempt_id r) (release_row r h at) (cd_releases db),
     cd_release_gpus := cd_release_gpus db @ release_gpu_rows (ar_attempt_id r) 0 gpus\<rparr>"

lemma insert_release_gpus_Ok:
  "insert_release_gpus a n gs db = (Inr u, db') \<Longrightarrow>
     \<exists>t. db' = db\<lparr>db_tape := t, cd_release_gpus := cd_release_gpus db @ release_gpu_rows a n gs\<rparr>"
proof (induction gs arbitrary: n db)
  case Nil
  then show ?case by (intro exI [of _ "db_tape db"]) (simp add: tx_return_Ok)
next
  case (Cons g gs)
  from Cons.prems obtain t where "insert_release_gpus a (n + 1) gs
      (db\<lparr>db_tape := t, cd_release_gpus := cd_release_gpus db @ [(a, n, g)]\<rparr>) = (Inr u, db')"
    by (auto simp: tx_bind_Ok statement_result_Ok split: if_splits)
  from Cons.IH [OF this] show ?case by auto
qed

lemma release_writes_Ok:
  assumes "release_writes r h at res db = (Inr rel, db')"
  shows "\<exists>t. db' = (released_db r h at (nr_selected_gpu_ids res) db)\<lparr>db_tape := t\<rparr>"
    and "hm_get (cd_releases db) (ar_attempt_id r) = None" and "rs_report_hash rel = h"
    and "rs_released_gpu_ids rel = nr_selected_gpu_ids res"
proof -
  let ?db = "\<lambda>t. db\<lparr>sd_reservation_gpus := filter (\<lambda>e. fst e \<noteq> ar_node_id r) (sd_reservation_gpus db),
     sd_reservations := hm_remove (ar_node_id r) (sd_reservations db), db_tape := t,
     cd_releases := hm_insert (ar_attempt_id r) (release_row r h at) (cd_releases db)\<rparr>"
  from assms obtain t u where g: "insert_release_gpus (ar_attempt_id r) 0 (nr_selected_gpu_ids res) (?db t) = (Inr u, db')"
    and none: "\<not> hm_contains_key (cd_releases db) (ar_attempt_id r)"
    and rel: "rs_report_hash rel = h" "rs_released_gpu_ids rel = nr_selected_gpu_ids res"
    unfolding release_writes_def Let_def
    by (cases "hm_get (sd_reservations db) (ar_node_id r)")
      (auto simp: tx_bind_Ok statement_Ok statement_result_Ok lift_result_Ok tx_return_Ok reject_if_Ok release_row_def
        split: if_splits)
  from insert_release_gpus_Ok [OF g] obtain t' where
    "db' = (?db t)\<lparr>db_tape := t', cd_release_gpus := cd_release_gpus (?db t) @ release_gpu_rows (ar_attempt_id r) 0 (nr_selected_gpu_ids res)\<rparr>" ..
  then have "db' = (released_db r h at (nr_selected_gpu_ids res) db)\<lparr>db_tape := t'\<rparr>"
    unfolding released_db_def by (cases db) simp
  then show "\<exists>t. db' = (released_db r h at (nr_selected_gpu_ids res) db)\<lparr>db_tape := t\<rparr>" ..
  show "hm_get (cd_releases db) (ar_attempt_id r) = None" using none by (simp add: hm_contains_key_def)
qed (use assms in \<open>auto simp: release_writes_def Let_def tx_bind_Ok tx_return_Ok\<close>)

text \<open>The evidence a release rests on: the node's reservation is held by the attempt and the job of the
  report, and the report is stored, signed by the node.\<close>

definition release_evidence ::
    "'r report_api \<Rightarrow> 'r attempt_report_scheme \<Rightarrow> str \<Rightarrow> 'm control_db_scheme \<Rightarrow> bool" where
  "release_evidence api r signer db \<longleftrightarrow>
     (\<exists>res. hm_get (sd_reservations db) (ar_node_id r) = Some res \<and>
        rv_attempt_id res = ar_attempt_id r \<and> rv_job_id res = ar_job_id r) \<and>
     (\<exists>row. hm_get (cd_reports db) (ar_attempt_id r, ar_node_id r) = Some row \<and>
        ri_decode api (rw_report_body row) = Some r \<and> rw_report_hash row = ri_hash api (ri_encode api r) \<and>
        rw_signer_id row = signer \<and> signer = ar_node_id r)"

lemma release_with_evidence_Ok:
  fixes db db' :: "'m control_db_scheme"
  assumes "release_with_evidence api r signer at db = (Inr out, db')"
  obtains (released) rel t where "out = Released rel" "hm_get (cd_releases db) (ar_attempt_id r) = None"
      "release_evidence api r signer db"
      "db' = (released_db r (ri_hash api (ri_encode api r)) at (rs_released_gpu_ids rel) db)\<lparr>db_tape := t\<rparr>"
    | (already) x row t where "out = AlreadyReleased x" "hm_get (cd_releases db) (ar_attempt_id r) = Some row"
      "rs_report_hash x = rx_report_hash row" "rx_report_hash row = ri_hash api (ri_encode api r)"
      "db' = db\<lparr>db_tape := t\<rparr>"
proof -
  define h where "h = ri_hash api (ri_encode api r)"
  define new where "(new :: ('m, release_outcome) release_tx) =
     tx_bind (tx_map_err Evidence (fetch_report_binding api (ar_attempt_id r) (ar_node_id r))) (\<lambda>found.
     tx_bind (lift_result (ok_or found (NoTerminalEvidence (ar_attempt_id r) (ar_node_id r)))) (\<lambda>binding.
     tx_bind (lift_result (reject_if (rb_report_hash binding \<noteq> h \<or> rb_report binding \<noteq> r \<or> rb_signer_id binding \<noteq> signer)
       (EvidenceMismatch (ar_attempt_id r) (ar_node_id r)))) (\<lambda>_.
     tx_bind (tx_map_err release_map_staging_error (fetch_node_reservation (ar_node_id r))) (\<lambda>found.
     tx_bind (lift_result (ok_or found (ReleaseReservationNotFound (ar_node_id r)))) (\<lambda>reservation.
     tx_bind (lift_result (check_reservation_owner r reservation)) (\<lambda>_.
     tx_bind (release_writes r h at reservation) (\<lambda>rel. tx_return (Released rel))))))))"
  from assms obtain found db1 where f: "fetch_release (ar_attempt_id r) db = (Inr found, db1)"
    and run: "(case found of
        Some existing \<Rightarrow> if \<not> same_release existing r h then tx_fail (ReleaseConflict (ar_attempt_id r))
          else tx_return (AlreadyReleased existing)
      | None \<Rightarrow> new) db1 = (Inr out, db')"
    unfolding release_with_evidence_def Let_def h_def [symmetric] new_def [symmetric] by (auto simp: tx_bind_Ok)
  obtain t1 where 1: "db1 = db\<lparr>db_tape := t1\<rparr>" using fetch_release_Ok(1) [OF f] ..
  show thesis
  proof (cases found)
    case (Some x)
    with run have "out = AlreadyReleased x" "same_release x r h" "db' = db1"
      by (auto simp: tx_return_Ok tx_fail_Ok split: if_splits)
    moreover obtain row where "hm_get (cd_releases db) (ar_attempt_id r) = Some row" "rs_report_hash x = rx_report_hash row"
      using fetch_release_Ok(3) [OF f Some] by auto
    ultimately show thesis using 1 by (auto intro!: already [of x row t1] simp: same_release_def h_def)
  next
    case None
    with run obtain b db2 res db3 rel where b: "fetch_report_binding api (ar_attempt_id r) (ar_node_id r) db1 = (Inr (Some b), db2)"
      and same: "rb_report_hash b = h" "rb_report b = r" "rb_signer_id b = signer"
      and res: "fetch_node_reservation (ar_node_id r) db2 = (Inr (Some res), db3)"
      and own: "nr_attempt_id res = ar_attempt_id r" "nr_job_id res = ar_job_id r"
      and w: "release_writes r h at res db3 = (Inr rel, db')" and out: "out = Released rel"
      by (auto simp: new_def tx_bind_Ok tx_map_err_Ok lift_result_Ok ok_or_Ok reject_if_Ok and_then_Ok tx_return_Ok
          check_reservation_owner_def)
    obtain t2 where 2: "db2 = db\<lparr>db_tape := t2\<rparr>" using fetch_report_binding_Ok(1) [OF b] 1 by auto
    then obtain t3 where 3: "db3 = db\<lparr>db_tape := t3\<rparr>"
      using fetch_node_reservation_same [of db2 "ar_node_id r"] res by (auto simp: same_tables_def)
    obtain t where db': "db' = (released_db r h at (nr_selected_gpu_ids res) db3)\<lparr>db_tape := t\<rparr>"
      using release_writes_Ok(1) [OF w] ..
    have "db' = (released_db r h at (nr_selected_gpu_ids res) db)\<lparr>db_tape := t\<rparr>"
      unfolding db' 3 released_db_def by (cases db) simp
    moreover have "release_evidence api r signer db"
      using fetch_report_binding_Ok(3) [OF b refl] fetch_node_reservation_Ok [OF res] own same 1 2
      by (auto simp: release_evidence_def h_def)
    moreover have "hm_get (cd_releases db) (ar_attempt_id r) = None" using release_writes_Ok(2) [OF w] 3 by simp
    ultimately show thesis using out release_writes_Ok(4) [OF w] by (intro released [of rel t]) (simp_all add: h_def)
  qed
qed

lemma release_for_report_Ok:
  assumes "release_for_verified_terminal_report api r signer au at db = (Inr out, db')"
  obtains t db1 t' where "release_checks au r = Ok ()" "release_with_evidence api r signer at (db\<lparr>db_tape := t\<rparr>) = (Inr out, db1)"
    "db' = db1\<lparr>db_tape := t'\<rparr>"
  using assms unfolding release_for_verified_terminal_report_def
  by (auto simp: tx_bind_Ok lift_result_Ok elim: in_transaction_Ok)

text \<open>C10: a reservation is released only when the caller states that the execution has stopped and that
  the signature was checked against the authoritative keys (and, where the proof is the report itself,
  the report says that an exit was observed; a completed attempt also needs its artifacts durable),
  when the very report is stored as the evidence of the attempt, signed by the node, and when the
  reservation is held by that attempt and job. The release removes this reservation alone and writes
  the record in the same commit: nothing else changes.\<close>

theorem release_needs_evidence:
  assumes "release_for_verified_terminal_report api r signer au at db = (Ok (Released rel), db')"
  shows "au_runtime_stop au \<noteq> NotProvenYet \<and> au_key_directory au = AuthoritativeDirectoryVerifiedByCaller \<and>
    (au_runtime_stop au = ObservedExitInSignedReport \<longrightarrow> observed_exit r) \<and>
    (attempt_outcome_try_from (ar_outcome r) \<in> {Some Completed, Some StaleCompleted} \<longrightarrow>
       au_artifact_durability au = SatisfiedByCaller) \<and>
    release_evidence api r signer db \<and> hm_get (cd_releases db) (ar_attempt_id r) = None \<and>
    (\<exists>t. db' = (released_db r (ri_hash api (ri_encode api r)) at (rs_released_gpu_ids rel) db)\<lparr>db_tape := t\<rparr>)"
proof -
  obtain t db1 t' where checks: "release_checks au r = Ok ()"
    and run: "release_with_evidence api r signer at (db\<lparr>db_tape := t\<rparr>) = (Inr (Released rel), db1)"
    and db': "db' = db1\<lparr>db_tape := t'\<rparr>" by (rule release_for_report_Ok [OF assms])
  from run show ?thesis
  proof (cases rule: release_with_evidence_Ok)
    case (released rel' t2)
    have "db' = (released_db r (ri_hash api (ri_encode api r)) at (rs_released_gpu_ids rel) db)\<lparr>db_tape := t'\<rparr>"
      using db' released(1,4) unfolding released_db_def by (cases db) simp
    moreover have "attempt_outcome_try_from (ar_outcome r) \<in> {Some Completed, Some StaleCompleted} \<Longrightarrow>
        ar_outcome r = 1 \<or> ar_outcome r = 5"
      by (auto simp: attempt_outcome_try_from_def split: if_splits)
    ultimately show ?thesis using checks released(2,3)
      by (auto simp: release_checks_def check_authorization_def check_observed_exit_def check_artifact_guard_def
          and_then_Ok reject_if_Ok release_evidence_def split: if_splits key_directory_provenance.splits
          artifact_durability_guard.splits) (cases "au_key_directory au"; simp)+
  qed simp
qed

section \<open>Reports and releases are for ever\<close>

definition evidence_survives :: "'m control_db_scheme \<Rightarrow> 'm control_db_scheme \<Rightarrow> bool" where
  "evidence_survives db db' \<longleftrightarrow>
     (\<forall>k row. hm_get (cd_reports db) k = Some row \<longrightarrow> hm_get (cd_reports db') k = Some row) \<and>
     (\<forall>k rel. hm_get (cd_releases db) k = Some rel \<longrightarrow> hm_get (cd_releases db') k = Some rel)"

interpretation es: control_survives evidence_survives
proof unfold_locales
  fix db db' :: "'a control_db_scheme"
  assume ok: "control_ok db" and ch: "control_change db db'"
  show "evidence_survives db db'"
    using ch
  proof cases
    case (report k row)
    with ok show ?thesis by (auto simp: evidence_survives_def control_ok_def hm.get_insert)
  next
    case (released k rel)
    with ok show ?thesis by (auto simp: evidence_survives_def control_ok_def hm.get_insert)
  qed (simp_all add: evidence_survives_def staged_db_def)
qed (simp_all add: evidence_survives_def)


lemma es_history:
  assumes "control_ok db" and "no_empty_body (ce_resume env)" and "list_all call_typed calls"
  shows "evidence_survives db (control_history env calls db)"
  using assms by (rule es.S_history)

lemma hm_get_inserted: "hm_get (hm_insert k v m) k = Some v"
  by (simp add: hm_get_def hm_insert_def update_conv')

text \<open>A release that succeeds leaves its record, whether it wrote it or found it.\<close>

lemma release_recorded:
  assumes "release_for_verified_terminal_report api r signer au at db = (Inr out, db')"
  shows "\<exists>row. hm_get (cd_releases db') (ar_attempt_id r) = Some row \<and> rx_report_hash row = ri_hash api (ri_encode api r)"
proof -
  obtain t db1 t' where run: "release_with_evidence api r signer at (db\<lparr>db_tape := t\<rparr>) = (Inr out, db1)"
    and db': "db' = db1\<lparr>db_tape := t'\<rparr>" by (rule release_for_report_Ok [OF assms])
  from run show ?thesis
  proof (cases rule: release_with_evidence_Ok)
    case (released rel t2)
    then show ?thesis using db' by (simp add: released_db_def hm_get_inserted release_row_def)
  qed (use db' in simp)
qed

text \<open>C11: the reservation of an attempt is released at most once. After a release has succeeded, no
  later history of calls, with arbitrary failing statements, lets another one release the node again:
  it reports the old release, and only to a caller whose report hashes to the same value.\<close>

theorem node_released_once:
  assumes "control_ok db" and "no_empty_body (ce_resume env)" and "list_all call_typed calls"
    and "release_for_verified_terminal_report api r signer au at db = (Ok out, db1)"
    and "release_for_verified_terminal_report api r2 signer2 au2 at2 (control_history env calls db1) = (Ok out2, db2)"
    and "ar_attempt_id r2 = ar_attempt_id r"
  shows "\<exists>x. out2 = AlreadyReleased x \<and> rs_report_hash x = ri_hash api (ri_encode api r) \<and>
    ri_hash api (ri_encode api r2) = ri_hash api (ri_encode api r)"
proof -
  have ok: "control_ok db1"
    using reach_ok [OF release_for_report_reach [OF assms(1)] assms(1), of api r signer au at] assms(4) by simp
  obtain row where "hm_get (cd_releases db1) (ar_attempt_id r) = Some row" and h: "rx_report_hash row = ri_hash api (ri_encode api r)"
    using release_recorded [OF assms(4)] by blast
  then have row: "hm_get (cd_releases (control_history env calls db1)) (ar_attempt_id r) = Some row"
    using es_history [OF ok assms(2,3)] by (simp add: evidence_survives_def)
  obtain t db3 t' where run: "release_with_evidence api r2 signer2 at2 ((control_history env calls db1)\<lparr>db_tape := t\<rparr>) = (Inr out2, db3)"
    by (rule release_for_report_Ok [OF assms(5)])
  from run show ?thesis
  proof (cases rule: release_with_evidence_Ok)
    case (released rel t2)
    then show ?thesis using row assms(6) by simp
  next
    case (already x row' t2)
    then show ?thesis using row assms(6) h by simp
  qed
qed

lemma store_report_body_Ok:
  assumes "store_report_body api resume r signer release preempt db = (Inr res, db')"
  obtains (again) b t lines where "fetch_report_binding api (ar_attempt_id r) (ar_node_id r) db = (Inr (Some b), db\<lparr>db_tape := t\<rparr>)"
      "rb_report b = r" "rb_signer_id b = signer" "res = \<lparr>sr_binding = b, sr_created = False, sr_notes = lines\<rparr>"
      "after_report api resume r signer release preempt (db\<lparr>db_tape := t\<rparr>) = (Inr lines, db')"
    | (created) t attempt via db1 db2 db3 lines where "hm_get (cd_reports db) (ar_attempt_id r, ar_node_id r) = None"
      "bind_report r signer (db\<lparr>db_tape := t\<rparr>) = (Inr (attempt, via), db1)" "insert_report api r signer via db1 = (Inr (), db2)"
      "finish_attempt r attempt db2 = (Inr (), db3)" "after_report api resume r signer release preempt db3 = (Inr lines, db')"
      "res = \<lparr>sr_binding = new_binding api r signer via, sr_created = True, sr_notes = lines\<rparr>"
proof -
  from assms obtain found db1 where f: "fetch_report_binding api (ar_attempt_id r) (ar_node_id r) db = (Inr found, db1)"
    unfolding store_report_body_def tx_bind_Ok by blast
  obtain t where t: "db1 = db\<lparr>db_tape := t\<rparr>" using fetch_report_binding_Ok(1) [OF f] ..
  show thesis
  proof (cases found)
    case None
    with assms f t fetch_report_binding_Ok(2) [OF f] show thesis
      by (auto simp: store_report_body_def tx_bind_Ok tx_return_Ok intro: created)
  next
    case (Some b)
    with assms f t show thesis
      by (auto simp: store_report_body_def tx_bind_Ok tx_return_Ok tx_fail_Ok split: if_splits intro: again)
  qed
qed

text \<open>C9: the first stored report of an attempt is final. Whatever calls follow, with arbitrary failing
  statements, the row stays as it is, and storing a report for that attempt and node succeeds only for
  the very report that was stored, from the signer it was stored for, and stores nothing new.\<close>

theorem first_report_is_final:
  assumes "control_ok db" and "no_empty_body (ce_resume env)" and "list_all call_typed calls"
    and "hm_get (cd_reports db) (ar_attempt_id r, ar_node_id r) = Some row"
  shows "hm_get (cd_reports (control_history env calls db)) (ar_attempt_id r, ar_node_id r) = Some row \<and>
    (\<forall>res db'. store_verified_terminal_report api resume r signer release preempt (control_history env calls db) = (Ok res, db') \<longrightarrow>
       \<not> sr_created res \<and> ri_decode api (rw_report_body row) = Some r \<and> rw_signer_id row = signer \<and>
       rb_report (sr_binding res) = r)"
proof -
  have row: "hm_get (cd_reports (control_history env calls db)) (ar_attempt_id r, ar_node_id r) = Some row"
    using es_history [OF assms(1-3)] assms(4) by (simp add: evidence_survives_def)
  moreover have "\<not> sr_created res \<and> ri_decode api (rw_report_body row) = Some r \<and> rw_signer_id row = signer \<and>
      rb_report (sr_binding res) = r"
    if run: "store_verified_terminal_report api resume r signer release preempt (control_history env calls db) = (Ok res, db')" for res db'
  proof -
    from run obtain t db1 where "store_report_body api resume r signer release preempt
        ((control_history env calls db)\<lparr>db_tape := t\<rparr>) = (Inr res, db1)"
      unfolding store_verified_terminal_report_def by (auto simp: tx_bind_Ok lift_result_Ok elim: in_transaction_Ok)
    then show ?thesis
    proof (cases rule: store_report_body_Ok)
      case (again b t' lines)
      with fetch_report_binding_Ok(3) [OF again(1) refl] row show ?thesis by auto
    qed (use row in simp)
  qed
  ultimately show ?thesis by blast
qed


section \<open>The end of an attempt and of its job\<close>


definition report_row :: "'r report_api \<Rightarrow> 'r attempt_report_scheme \<Rightarrow> str \<Rightarrow> report_binding_source \<Rightarrow> raw_report_row" where
  "report_row api r signer via =
     \<lparr>rw_job_id = ar_job_id r, rw_fence_epoch = encode_u64 (ar_fence_epoch r), rw_signer_id = signer,
      rw_report_hash = ri_hash api (ri_encode api r), rw_report_body = ri_encode api r,
      rw_bound_via = binding_source_as_str via\<rparr>"






















section \<open>Witnesses\<close>

definition example_final_report :: attempt_report where
  "example_final_report = \<lparr>ar_schema_version = 2, ar_job_id = lit ''j'', ar_attempt_id = lit ''a'', ar_node_id = lit ''n'',
     ar_fence_epoch = 1, ar_outcome = 1, ar_final_step = 7, ar_started_at_unix_ms = 30, ar_finished_at_unix_ms = 40,
     ar_exit_observation = 2, ar_exit_code = 0, ar_finalization_failure_stage = 0, ar_issued_at_unix_ms = 41\<rparr>"

definition example_report_api :: "unit report_api" where
  "example_report_api = \<lparr>ri_encode = (\<lambda>_. [1]), ri_decode = (\<lambda>_. Some example_final_report), ri_hash = (\<lambda>_. replicate 32 2)\<rparr>"

lemmas example_report_defs = example_final_report_def example_report_api_def
lemmas example_rules = validate_attempt_report_semantics_def check_v2_def attempt_outcome_try_from_def
  exit_observation_try_from_def finalization_stage_try_from_def ATTEMPT_REPORT_MAX_SCHEMA_VERSION_def
  is_terminal_outcome_def validate_terminal_outcome_def is_blank_def trim_def is_whitespace_def

lemma example_report_valid: "validate_report_input example_final_report = Ok ()" "observed_exit example_final_report"
  "terminal_state_for example_final_report = Some AttemptCompleted"
  by (simp_all add: validate_report_input_def example_final_report_def example_rules observed_exit_def terminal_state_for_def)




definition example_reported :: control_db where
  "example_reported = example_staged_db\<lparr>cd_reports :=
     [((lit ''a'', lit ''n''), report_row example_report_api example_final_report (lit ''n'') CurrentReservation)]\<rparr>"






lemma example_reported_ok: "control_ok example_reported"
  using example_staged_ok by (simp add: control_ok_def example_reported_def hm_invar_def)

theorem first_report_is_final_witness:
  "hm_get (cd_reports (control_history (example_env\<lparr>ce_report := example_report_api\<rparr>)
       [StoreReport (example_final_report\<lparr>ar_final_step := 8\<rparr>) (lit ''n'') None None, FailoverLostAttempts 3000] example_reported))
     (ar_attempt_id example_final_report, ar_node_id example_final_report) =
   Some (report_row example_report_api example_final_report (lit ''n'') CurrentReservation)"
proof -
  let ?calls = "[StoreReport (example_final_report\<lparr>ar_final_step := 8\<rparr>) (lit ''n'') None None, FailoverLostAttempts 3000] :: (unit, unit) control_call list"
  have row: "hm_get (cd_reports example_reported) (ar_attempt_id example_final_report, ar_node_id example_final_report) =
      Some (report_row example_report_api example_final_report (lit ''n'') CurrentReservation)"
    by (simp add: example_reported_def hm_get_def example_final_report_def)
  have "no_empty_body (ce_resume (example_env\<lparr>ce_report := example_report_api\<rparr>))" "list_all call_typed ?calls"
    by (simp_all add: example_env_def example_api_bodies)
  from first_report_is_final [OF example_reported_ok this row] show ?thesis by (rule conjunct1)
qed

definition example_authorization :: release_authorization where
  "example_authorization = \<lparr>au_runtime_stop = ObservedExitInSignedReport, au_key_directory = AuthoritativeDirectoryVerifiedByCaller,
     au_artifact_durability = SatisfiedByCaller\<rparr>"

lemma example_release_checks: "release_checks example_authorization example_final_report = Ok ()"
  using example_report_valid(2)
  by (simp add: release_checks_def check_authorization_def release_validate_input_def check_artifact_guard_def check_observed_exit_def
      example_authorization_def) (simp add: example_final_report_def example_rules)

definition example_released :: control_db where
  "example_released = released_db example_final_report (replicate 32 2) 50 [lit ''g''] example_reported"

lemma example_evidence:
  "\<exists>b. fetch_report_binding example_report_api (lit ''a'') (lit ''n'') example_reported = (Ok (Some b), example_reported) \<and>
     rb_report b = example_final_report \<and> rb_report_hash b = replicate 32 2 \<and> rb_signer_id b = lit ''n''"
  by (simp add: fetch_report_binding_def check_report_row_def example_run fetch_attempt_def example_reported_def example_tables
      state_from_db_def ALL_ATTEMPT_STATES_def report_row_def example_report_defs binding_source_parse_def example_rules
      report_decode_u64_def encode_u64_def staging_decode_u64_def Let_def)


lemma example_release_run:
  "\<exists>rel. release_for_verified_terminal_report example_report_api example_final_report (lit ''n'') example_authorization 50 example_reported =
     (Ok (Released rel), example_released)"
proof -
  obtain b where b: "fetch_report_binding example_report_api (lit ''a'') (lit ''n'') example_reported = (Ok (Some b), example_reported)"
    "rb_report b = example_final_report" "rb_report_hash b = replicate 32 2" "rb_signer_id b = lit ''n''" using example_evidence by blast
  have r: "ar_attempt_id example_final_report = lit ''a''" "ar_node_id example_final_report = lit ''n''" "ar_job_id example_final_report = lit ''j''"
    "ri_hash example_report_api (ri_encode example_report_api example_final_report) = replicate 32 2"
    by (simp_all add: example_report_defs)
  have res: "fetch_node_reservation (lit ''n'') example_reported = (Ok (Some (new_reservation example_request 4)), example_reported)"
    by (simp add: fetch_node_reservation_def fetch_gpu_binding_def example_run example_reported_def example_tables new_reservation_def
        validate_selected_gpu_ids_def is_blank_def trim_def is_whitespace_def)
  have none: "fetch_release (lit ''a'') example_reported = (Ok None, example_reported)"
    by (simp add: fetch_release_def example_run example_reported_def example_tables)
  have own: "check_reservation_owner example_final_report (new_reservation example_request 4) = Ok ()"
    by (simp add: check_reservation_owner_def r) (simp add: new_reservation_def example_request_def)
  have w: "\<exists>rel. release_writes example_final_report (replicate 32 2) 50 (new_reservation example_request 4) example_reported =
      (Ok rel, example_released)"
    unfolding release_writes_def Let_def r
    by (simp add: example_run example_released_def released_db_def release_row_def r example_reported_def example_tables
        new_reservation_def hm_remove_def)
  then obtain rel where w: "release_writes example_final_report (replicate 32 2) 50 (new_reservation example_request 4) example_reported =
      (Ok rel, example_released)" ..
  have body: "release_with_evidence example_report_api example_final_report (lit ''n'') 50 example_reported = (Ok (Released rel), example_released)"
    unfolding release_with_evidence_def Let_def tx_bind_def tx_map_err_def r none
    by (simp add: b res own w tx_return_def lift_result_def del: lit_simps)
  have "db_tape example_reported = []" "db_tape example_released = []"
    by (simp_all add: example_released_def released_db_def example_reported_def example_tables)
  note run = in_transaction_no_fault [where f = release_map_sql_error and
      body = "release_with_evidence example_report_api example_final_report (lit ''n'') 50", OF this(1) body this(2)]
  have "release_for_verified_terminal_report example_report_api example_final_report (lit ''n'') example_authorization 50 example_reported =
     (Ok (Released rel), example_released)"
    unfolding release_for_verified_terminal_report_def tx_bind_def lift_result_def example_release_checks using run by simp
  then show ?thesis ..
qed

theorem release_needs_evidence_witness:
  "\<exists>rel db'. release_for_verified_terminal_report example_report_api example_final_report (lit ''n'') example_authorization 50 example_reported =
     (Ok (Released rel), db') \<and> observed_exit example_final_report \<and> release_evidence example_report_api example_final_report (lit ''n'') example_reported"
  using example_release_run release_needs_evidence by (fastforce simp: example_authorization_def)

lemma example_release_again:
  "\<exists>x. release_for_verified_terminal_report example_report_api example_final_report (lit ''n'') example_authorization 60 example_released =
     (Ok (AlreadyReleased x), example_released)"
proof -
  have "\<exists>x. release_with_evidence example_report_api example_final_report (lit ''n'') 60 example_released =
      (Ok (AlreadyReleased x), example_released)"
    by (simp add: release_with_evidence_def fetch_release_def fetch_released_gpu_ids_def example_run example_released_def released_db_def
        example_reported_def example_tables release_row_def same_release_def example_report_defs report_decode_u64_def encode_u64_def
        is_blank_def trim_def is_whitespace_def Let_def)
  then obtain x where body: "release_with_evidence example_report_api example_final_report (lit ''n'') 60 example_released =
      (Ok (AlreadyReleased x), example_released)" ..
  have "db_tape example_released = []"
    by (simp add: example_released_def released_db_def example_reported_def example_tables)
  note run = in_transaction_no_fault [where f = release_map_sql_error and
      body = "release_with_evidence example_report_api example_final_report (lit ''n'') 60", OF this body this]
  then show ?thesis
    unfolding release_for_verified_terminal_report_def tx_bind_def lift_result_def example_release_checks by simp
qed

theorem node_released_once_witness:
  "\<exists>x. release_for_verified_terminal_report example_report_api example_final_report (lit ''n'') example_authorization 60 example_released =
     (Ok (AlreadyReleased x), example_released) \<and> rs_report_hash x = replicate 32 2"
proof -
  obtain rel where first: "release_for_verified_terminal_report example_report_api example_final_report (lit ''n'') example_authorization 50 example_reported =
     (Ok (Released rel), example_released)" using example_release_run ..
  obtain x where again: "release_for_verified_terminal_report example_report_api example_final_report (lit ''n'') example_authorization 60
      (control_history example_env [] example_released) = (Ok (AlreadyReleased x), example_released)"
    using example_release_again by auto
  have "no_empty_body (ce_resume example_env)" "list_all call_typed ([] :: (unit, unit) control_call list)"
    by (simp_all add: example_env_def example_api_bodies)
  from node_released_once [OF example_reported_ok this first again refl] again show ?thesis by (auto simp: example_report_api_def)
qed

end
