(* ===== verification/Membership.thy ===== *)
theory Membership
  imports Rust_Collections
begin

text \<open>
  Two kernels over facts an authority has already fixed: the current authorization of a device
  (\<open>src/crates/protocol/src/membership.rs\<close>) and the execution instruction derived from a
  verified job manifest (\<open>src/crates/protocol/src/execution_spec.rs\<close>). The environment
  of a manifest is a protobuf map, iterated in the unspecified order of a \<open>HashMap\<close>: the
  model takes the entries in the order the iteration yields them.
\<close>

section \<open>Membership\<close>

datatype member_state = MsPending | MsActive | MsSuspended | MsRevoked | MsRemoved

fun member_state_index :: "member_state \<Rightarrow> nat" where
  "member_state_index MsPending = 0"
| "member_state_index MsActive = 1"
| "member_state_index MsSuspended = 2"
| "member_state_index MsRevoked = 3"
| "member_state_index MsRemoved = 4"

lemma member_state_index_inject: "member_state_index a = member_state_index b \<longleftrightarrow> a = b"
  by (cases a; cases b) simp_all

instantiation member_state :: linorder
begin

definition less_eq_member_state :: "member_state \<Rightarrow> member_state \<Rightarrow> bool" where
  "less_eq_member_state a b \<longleftrightarrow> member_state_index a \<le> member_state_index b"

definition less_member_state :: "member_state \<Rightarrow> member_state \<Rightarrow> bool" where
  "less_member_state a b \<longleftrightarrow> member_state_index a < member_state_index b"

instance
  by standard (auto simp: less_eq_member_state_def less_member_state_def antisym
      simp flip: member_state_index_inject)

end

definition is_current_authority :: "member_state \<Rightarrow> bool" where
  "is_current_authority s \<longleftrightarrow> s = MsActive"

datatype view_freshness = Linearizable u64 | BoundedStale

record device_binding =
  db_device_id :: str
  db_member_id :: str
  db_generation :: u64

record member_fact =
  mf_member_id :: str
  mf_generation :: u64
  mf_state :: member_state

datatype member_authorization =
    Authorized str u64
  | NotAuthorized str u64 member_state
  | Unresolved
  | Ambiguous

datatype membership_resolution_error =
    StaleViewNotAllowedForAuthorization
  | BlankQueryDeviceId
  | BlankBindingId usize
  | BlankMemberFactId usize
  | DuplicateDeviceBinding str
  | DuplicateMemberFact str u64

definition validate_bindings :: "device_binding list \<Rightarrow> membership_resolution_error + unit" where
  "validate_bindings bindings =
     and_then (for_each (\<lambda>(index, b) seen.
         if is_blank (db_device_id b) \<or> is_blank (db_member_id b) then Err (BlankBindingId index)
         else let key = (db_device_id b, db_member_id b, db_generation b)
           in if bm_get seen key \<noteq> None then Err (DuplicateDeviceBinding (db_device_id b))
              else Ok (bm_insert key () seen))
       (List.enumerate 0 bindings) [])
     (\<lambda>_. Ok ())"

definition validate_members :: "member_fact list \<Rightarrow> membership_resolution_error + unit" where
  "validate_members members =
     and_then (for_each (\<lambda>(index, f) seen.
         if is_blank (mf_member_id f) then Err (BlankMemberFactId index)
         else let key = (mf_member_id f, mf_generation f, mf_state f)
           in if bm_get seen key \<noteq> None then Err (DuplicateMemberFact (mf_member_id f) (mf_generation f))
              else Ok (bm_insert key () seen))
       (List.enumerate 0 members) [])
     (\<lambda>_. Ok ())"

definition resolve_device_authorization ::
  "str \<Rightarrow> view_freshness \<Rightarrow> device_binding list \<Rightarrow> member_fact list \<Rightarrow>
   membership_resolution_error + member_authorization" where
  "resolve_device_authorization device_id freshness bindings members =
     (case freshness of BoundedStale \<Rightarrow> Err StaleViewNotAllowedForAuthorization
      | Linearizable _ \<Rightarrow>
         if is_blank device_id then Err BlankQueryDeviceId
         else and_then (validate_bindings bindings) (\<lambda>_.
           and_then (validate_members members) (\<lambda>_.
           let matched = filter (\<lambda>b. db_device_id b = device_id) bindings;
               subjects = bs_collect (map (\<lambda>b. (db_member_id b, db_generation b)) matched)
           in case subjects of
               [] \<Rightarrow> Ok Unresolved
             | [(member_id, generation)] \<Rightarrow>
                 (let states = bs_collect (map mf_state
                     (filter (\<lambda>f. mf_member_id f = member_id \<and> mf_generation f = generation) members))
                  in case states of
                      [] \<Rightarrow> Ok Unresolved
                    | [state] \<Rightarrow>
                        (if is_current_authority state then Ok (Authorized member_id generation)
                         else Ok (NotAuthorized member_id generation state))
                    | _ \<Rightarrow> Ok Ambiguous)
             | _ \<Rightarrow> Ok Ambiguous)))"

section \<open>The execution instruction\<close>

datatype spec_field = JobId | Entrypoint | Arg usize | EnvVarName str | EnvVarValue str

datatype execution_spec_error =
    BlankJobId
  | BlankEntrypoint
  | NulByte spec_field
  | BlankEnvVarName
  | EnvVarNameContainsEquals str

record job_manifest =
  jm_job_id :: str
  jm_entrypoint :: str
  jm_args :: "str list"
  jm_env_vars :: "(str \<times> str) list"

record execution_spec =
  es_job_id :: str
  es_entrypoint :: str
  es_args :: "str list"
  es_env_vars :: "(str, str) btree_map"

definition reject_nul :: "str \<Rightarrow> spec_field \<Rightarrow> execution_spec_error + unit" where
  "reject_nul value field = (if 0 \<in> set value then Err (NulByte field) else Ok ())"

definition collect_env_var :: "str \<times> str \<Rightarrow> (str, str) btree_map \<Rightarrow> execution_spec_error + (str, str) btree_map" where
  "collect_env_var = (\<lambda>(name, value) env_vars.
     if name = [] then Err BlankEnvVarName
     else if 61 \<in> set name then Err (EnvVarNameContainsEquals name)
     else and_then (reject_nul name (EnvVarName name)) (\<lambda>_.
       and_then (reject_nul value (EnvVarValue name)) (\<lambda>_.
       Ok (bm_insert name value env_vars))))"

definition derive_execution_spec :: "job_manifest \<Rightarrow> execution_spec_error + execution_spec" where
  "derive_execution_spec manifest =
     (if is_blank (jm_job_id manifest) then Err BlankJobId
      else and_then (reject_nul (jm_job_id manifest) JobId) (\<lambda>_.
        if is_blank (jm_entrypoint manifest) then Err BlankEntrypoint
        else and_then (reject_nul (jm_entrypoint manifest) Entrypoint) (\<lambda>_.
          and_then (for_each (\<lambda>(index, arg) _. reject_nul arg (Arg index)) (List.enumerate 0 (jm_args manifest)) ()) (\<lambda>_.
          and_then (for_each collect_env_var (jm_env_vars manifest) []) (\<lambda>env_vars.
          Ok \<lparr>es_job_id = jm_job_id manifest, es_entrypoint = jm_entrypoint manifest,
              es_args = jm_args manifest, es_env_vars = env_vars\<rparr>)))))"

section \<open>Validation\<close>

text \<open>Both validations are the same loop: no blank entry, no key twice.\<close>

lemma seen_loop_Ok:
  assumes "bm_invar seen"
  shows "(\<exists>t. for_each (\<lambda>(i, x) seen. if bad x then Err (blank i)
        else let k = key x in if bm_get seen k \<noteq> None then Err (dup x) else Ok (bm_insert k () seen))
      (List.enumerate n xs) seen = Ok t) \<longleftrightarrow>
    (\<forall>x \<in> set xs. \<not> bad x) \<and> distinct (map key xs) \<and> (\<forall>x \<in> set xs. bm_get seen (key x) = None)"
  using assms
proof (induction xs arbitrary: seen n)
  case (Cons x xs)
  have "bm_invar (bm_insert (key x) () seen)" by (rule bm_invar_insert [OF Cons.prems])
  moreover have "(y \<noteq> Some ()) = (y = None)" for y :: "unit option" by (cases y) auto
  ultimately show ?case
    using Cons.prems by (auto simp: Let_def Cons.IH bm_get_insert image_iff)
qed simp

lemma validate_bindings_Ok:
  "validate_bindings bs = Ok u \<longleftrightarrow>
     (\<forall>b \<in> set bs. \<not> is_blank (db_device_id b) \<and> \<not> is_blank (db_member_id b)) \<and> distinct bs"
proof -
  have key: "inj_on (\<lambda>b. (db_device_id b, db_member_id b, db_generation b)) (set bs)"
    by (auto simp: inj_on_def)
  show ?thesis
    using seen_loop_Ok [of "[]" "\<lambda>b. is_blank (db_device_id b) \<or> is_blank (db_member_id b)" BlankBindingId
        "\<lambda>b. (db_device_id b, db_member_id b, db_generation b)" "\<lambda>b. DuplicateDeviceBinding (db_device_id b)" 0 bs]
    by (auto simp: validate_bindings_def result_ok distinct_map key bm_invar_def bm_get_def)
qed

lemma validate_members_Ok:
  "validate_members ms = Ok u \<longleftrightarrow> (\<forall>f \<in> set ms. \<not> is_blank (mf_member_id f)) \<and> distinct ms"
proof -
  have key: "inj_on (\<lambda>f. (mf_member_id f, mf_generation f, mf_state f)) (set ms)"
    by (auto simp: inj_on_def)
  show ?thesis
    using seen_loop_Ok [of "[]" "\<lambda>f. is_blank (mf_member_id f)" BlankMemberFactId
        "\<lambda>f. (mf_member_id f, mf_generation f, mf_state f)"
        "\<lambda>f. DuplicateMemberFact (mf_member_id f) (mf_generation f)" 0 ms]
    by (auto simp: validate_members_def result_ok distinct_map key bm_invar_def bm_get_def)
qed

lemma bs_collect_Nil_iff: "bs_collect xs = [] \<longleftrightarrow> xs = []"
  by (simp add: bs_collect_sort_dedup)

lemma bs_collect_single_iff: "bs_collect xs = [x] \<longleftrightarrow> set xs = {x}"
proof
  assume "bs_collect xs = [x]"
  then show "set xs = {x}" by (metis bs_collect_sort_dedup empty_set list.simps(15) set_sort_dedup)
next
  assume "set xs = {x}"
  then have "sort_dedup xs = sort_dedup [x]" by (intro sort_dedup_set_eq) simp
  then show "bs_collect xs = [x]" by (simp add: bs_collect_sort_dedup sort_dedup_def)
qed

section \<open>Who is authorized\<close>

definition valid_inputs :: "str \<Rightarrow> view_freshness \<Rightarrow> device_binding list \<Rightarrow> member_fact list \<Rightarrow> bool" where
  "valid_inputs device_id freshness bindings members \<longleftrightarrow>
     freshness \<noteq> BoundedStale \<and> \<not> is_blank device_id \<and>
     (\<forall>b \<in> set bindings. \<not> is_blank (db_device_id b) \<and> \<not> is_blank (db_member_id b)) \<and> distinct bindings \<and>
     (\<forall>f \<in> set members. \<not> is_blank (mf_member_id f)) \<and> distinct members"

abbreviation subjects_of :: "str \<Rightarrow> device_binding list \<Rightarrow> (str \<times> u64) set" where
  "subjects_of device_id bindings \<equiv>
     {(db_member_id b, db_generation b) | b. b \<in> set bindings \<and> db_device_id b = device_id}"

abbreviation states_of :: "str \<Rightarrow> u64 \<Rightarrow> member_fact list \<Rightarrow> member_state set" where
  "states_of member_id generation members \<equiv>
     {mf_state f | f. f \<in> set members \<and> mf_member_id f = member_id \<and> mf_generation f = generation}"

lemma resolve_returns_iff:
  "(\<exists>a. resolve_device_authorization d fr bs ms = Ok a) \<longleftrightarrow> valid_inputs d fr bs ms"
proof (cases "fr = BoundedStale \<or> is_blank d")
  case True
  then show ?thesis by (auto simp: resolve_device_authorization_def valid_inputs_def split: view_freshness.splits)
next
  case False
  then show ?thesis
    by (auto simp: resolve_device_authorization_def valid_inputs_def result_ok validate_bindings_Ok validate_members_Ok
        Let_def split: view_freshness.splits list.splits)
qed

lemma resolve_valid:
  assumes "valid_inputs d fr bs ms"
  shows "resolve_device_authorization d fr bs ms =
    (case bs_collect (map (\<lambda>b. (db_member_id b, db_generation b)) (filter (\<lambda>b. db_device_id b = d) bs)) of
       [] \<Rightarrow> Ok Unresolved
     | [(m, g)] \<Rightarrow>
         (case bs_collect (map mf_state (filter (\<lambda>f. mf_member_id f = m \<and> mf_generation f = g) ms)) of
            [] \<Rightarrow> Ok Unresolved
          | [s] \<Rightarrow> if is_current_authority s then Ok (Authorized m g) else Ok (NotAuthorized m g s)
          | _ \<Rightarrow> Ok Ambiguous)
     | _ \<Rightarrow> Ok Ambiguous)"
proof -
  have "validate_bindings bs = Ok ()" "validate_members ms = Ok ()"
    using assms by (simp_all add: valid_inputs_def validate_bindings_Ok validate_members_Ok)
  then show ?thesis
    using assms unfolding resolve_device_authorization_def valid_inputs_def Let_def
    by (cases fr) simp_all
qed

text \<open>C31: A device is authorized exactly when it should be: the view is the linearizable one and the
  inputs are well formed, its bindings name one member in one generation, and the facts give that
  member in that generation one state, which is the active one. A fact or a binding of another
  generation of the same identifier counts for nothing, and any contradiction withdraws the
  authorization.\<close>

theorem authorized_iff:
  "resolve_device_authorization d fr bs ms = Ok (Authorized m g) \<longleftrightarrow>
     valid_inputs d fr bs ms \<and> subjects_of d bs = {(m, g)} \<and> states_of m g ms = {MsActive}"
proof (cases "valid_inputs d fr bs ms")
  case False
  then show ?thesis using resolve_returns_iff [of d fr bs ms] by auto
next
  case True
  let ?subjects = "map (\<lambda>b. (db_member_id b, db_generation b)) (filter (\<lambda>b. db_device_id b = d) bs)"
  let ?states = "\<lambda>m g. map mf_state (filter (\<lambda>f. mf_member_id f = m \<and> mf_generation f = g) ms)"
  have "resolve_device_authorization d fr bs ms = Ok (Authorized m g) \<longleftrightarrow>
      bs_collect ?subjects = [(m, g)] \<and> bs_collect (?states m g) = [MsActive]"
    by (auto simp: resolve_valid [OF True] is_current_authority_def split: list.splits if_splits)
  also have "\<dots> \<longleftrightarrow> subjects_of d bs = {(m, g)} \<and> states_of m g ms = {MsActive}"
  proof -
    have "set ?subjects = subjects_of d bs" "set (?states m g) = states_of m g ms" by auto
    then show ?thesis by (simp only: bs_collect_single_iff)
  qed
  finally show ?thesis using True by simp
qed

lemma resolve_order_independent:
  assumes "valid_inputs d fr bs ms" and "mset bs = mset bs'" and "mset ms = mset ms'"
  shows "resolve_device_authorization d fr bs ms = resolve_device_authorization d fr bs' ms'"
proof -
  have valid: "valid_inputs d fr bs' ms'"
    using assms by (auto simp: valid_inputs_def dest: mset_eq_setD mset_eq_imp_distinct_iff)
  have "bs_collect (map f (filter P xs)) = bs_collect (map f (filter P ys))"
    if "mset xs = mset ys" for f :: "'a \<Rightarrow> 'b::linorder" and P xs ys
    unfolding bs_collect_sort_dedup by (rule sort_dedup_set_eq) (use mset_eq_setD [OF that] in simp)
  note collect = this
  show ?thesis
    unfolding resolve_valid [OF assms(1)] resolve_valid [OF valid] collect [OF assms(2)] collect [OF assms(3)] ..
qed

text \<open>On malformed inputs the answer does depend on the order of the input, against what the
  module promises: the error names the position of the first offending binding.\<close>

theorem membership_error_depends_on_order:
  "\<exists>bs bs'. mset bs = mset bs' \<and>
     resolve_device_authorization (lit ''d'') (Linearizable 1) bs [] \<noteq>
     resolve_device_authorization (lit ''d'') (Linearizable 1) bs' []"
proof -
  let ?blank = "\<lparr>db_device_id = [], db_member_id = lit ''m'', db_generation = 1\<rparr>"
  let ?good = "\<lparr>db_device_id = lit ''d'', db_member_id = lit ''m'', db_generation = 1\<rparr>"
  have good: "\<not> is_blank (lit ''d'')" "\<not> is_blank (lit ''m'')" by (simp_all add: is_blank_iff is_whitespace_def)
  have "validate_bindings [?blank, ?good] = Err (BlankBindingId 0)"
    by (simp add: validate_bindings_def)
  moreover have "validate_bindings [?good, ?blank] = Err (BlankBindingId 1)"
    using good by (simp add: validate_bindings_def bm_get_def Let_def)
  ultimately have "resolve_device_authorization (lit ''d'') (Linearizable 1) [?blank, ?good] [] \<noteq>
      resolve_device_authorization (lit ''d'') (Linearizable 1) [?good, ?blank] []"
    using good by (simp add: resolve_device_authorization_def)
  moreover have "mset [?blank, ?good] = mset [?good, ?blank]" by simp
  ultimately show ?thesis by blast
qed

section \<open>The instruction does not depend on the iteration order\<close>

lemma reject_nul_Ok [simp]: "reject_nul v f = Ok u \<longleftrightarrow> 0 \<notin> set v"
  by (simp add: reject_nul_def)

definition env_entry_ok :: "str \<times> str \<Rightarrow> bool" where
  "env_entry_ok e \<longleftrightarrow> fst e \<noteq> [] \<and> 61 \<notin> set (fst e) \<and> 0 \<notin> set (fst e) \<and> 0 \<notin> set (snd e)"

lemma collect_env_var_Ok: "collect_env_var e env = Ok env' \<longleftrightarrow> env_entry_ok e \<and> env' = bm_insert (fst e) (snd e) env"
  by (cases e) (auto simp: collect_env_var_def env_entry_ok_def result_ok)

lemma collect_env_vars_Ok:
  "for_each collect_env_var es env = Ok env' \<longleftrightarrow>
     list_all env_entry_ok es \<and> env' = fold (\<lambda>e. bm_insert (fst e) (snd e)) es env"
  by (induction es arbitrary: env) (auto simp: result_ok collect_env_var_Ok)

lemma args_Ok: "for_each (\<lambda>(i, a) _. reject_nul a (Arg i)) (List.enumerate n args) () = Ok u \<longleftrightarrow> list_all (\<lambda>a. 0 \<notin> set a) args"
  by (induction args arbitrary: n) (auto simp: result_ok)

lemma derive_execution_spec_Ok:
  "derive_execution_spec m = Ok s \<longleftrightarrow>
     \<not> is_blank (jm_job_id m) \<and> 0 \<notin> set (jm_job_id m) \<and> \<not> is_blank (jm_entrypoint m) \<and> 0 \<notin> set (jm_entrypoint m) \<and>
     list_all (\<lambda>a. 0 \<notin> set a) (jm_args m) \<and> list_all env_entry_ok (jm_env_vars m) \<and>
     s = \<lparr>es_job_id = jm_job_id m, es_entrypoint = jm_entrypoint m, es_args = jm_args m,
          es_env_vars = fold (\<lambda>e. bm_insert (fst e) (snd e)) (jm_env_vars m) []\<rparr>"
  by (auto simp: derive_execution_spec_def result_ok args_Ok collect_env_vars_Ok split: if_splits)

lemma fold_bm_insert:
  assumes "bm_invar env"
  shows "bm_invar (fold (\<lambda>e. bm_insert (fst e) (snd e)) es env) \<and>
    bm_get (fold (\<lambda>e. bm_insert (fst e) (snd e)) es env) = bm_get env ++ map_of (rev es)"
  using assms
proof (induction es arbitrary: env)
  case (Cons e es)
  then show ?case
    using bm_invar_insert [OF Cons.prems, of "fst e" "snd e"]
    by (cases e) (auto simp: bm_get_insert fun_eq_iff map_add_def split: option.splits)
qed simp

text \<open>The same manifest always gives the same instruction: whatever order the iteration over the
  environment map yields, the result is the same, and when it is an instruction its environment is
  the map of the manifest, in the order of the names.\<close>

theorem execution_spec_deterministic:
  assumes "distinct (map fst env)" and "mset env = mset env'"
    and "derive_execution_spec (m\<lparr>jm_env_vars := env\<rparr>) = Ok s"
  shows "derive_execution_spec (m\<lparr>jm_env_vars := env'\<rparr>) = Ok s \<and>
    sorted_wrt (<) (map fst (es_env_vars s)) \<and> map_of (es_env_vars s) = map_of env"
proof -
  let ?fold = "\<lambda>es. fold (\<lambda>e. bm_insert (fst e) (snd e)) es ([] :: (str, str) btree_map)"
  have dist': "distinct (map fst env')"
    using assms(1,2) by (metis mset_map mset_eq_imp_distinct_iff)
  have get: "bm_invar (?fold es) \<and> bm_get (?fold es) = map_of es" if "distinct (map fst es)" for es
  proof -
    have "map_of (rev es) = map_of es" using that by (simp add: map_of_inject_set flip: rev_map)
    then show ?thesis using fold_bm_insert [of "[]" es] by (simp add: bm_invar_def bm_get_def)
  qed
  have "map_of env = map_of env'"
    using assms(1) dist' mset_eq_setD [OF assms(2)] by (simp add: map_of_inject_set)
  then have same: "?fold env = ?fold env'"
    using get [OF assms(1)] get [OF dist'] bm.entries_unique [of "?fold env" "?fold env'"] by (simp add: bm_entries_def)
  have "list_all env_entry_ok env' = list_all env_entry_ok env"
    using mset_eq_setD [OF assms(2)] by (simp add: list_all_iff)
  then show ?thesis
    using assms(3) same get [OF assms(1)] by (auto simp: derive_execution_spec_Ok bm_invar_def bm_get_def)
qed

theorem execution_spec_deterministic_witness:
  "\<exists>s. derive_execution_spec \<lparr>jm_job_id = lit ''j'', jm_entrypoint = lit ''run'', jm_args = [[]],
     jm_env_vars = [(lit ''B'', []), (lit ''A'', lit ''1'')]\<rparr> = Ok s \<and>
     sorted_wrt (<) (map fst (es_env_vars s))"
proof -
  let ?m = "\<lparr>jm_job_id = lit ''j'', jm_entrypoint = lit ''run'', jm_args = [[]], jm_env_vars = []\<rparr>"
  let ?env = "[(lit ''A'', lit ''1''), (lit ''B'', [])]" and ?env' = "[(lit ''B'', []), (lit ''A'', lit ''1'')]"
  obtain s where s: "derive_execution_spec (?m\<lparr>jm_env_vars := ?env\<rparr>) = Ok s"
    by (simp add: derive_execution_spec_Ok is_blank_iff is_whitespace_def env_entry_ok_def)
  have "distinct (map fst ?env)" "mset ?env = mset ?env'" by simp_all
  from execution_spec_deterministic [OF this s] show ?thesis by auto
qed

end
