(* ===== verification/Keyring.thy ===== *)
theory Keyring
  imports Signing Rust_Collections
begin

text \<open>
  The key ring (\<open>src/crates/crypto/src/keyring.rs\<close>): the keys of every signer with their
  state and validity, registration, revocation, quarantine and rotation, and the directory the
  verifier asks; the verifier itself and the in-memory key ring
  (\<open>src/crates/crypto/src/lib.rs\<close>). The file format is in \<open>Keyring_File\<close>.

  A public key is its 32 bytes and a private key its 32-byte seed; what Ed25519 computes from them
  (the public key of a seed, the check of a signature) is a parameter. The trait
  \<open>KeyDirectory\<close> is the locale \<open>key_directory\<close>, interpreted on the view of the
  persistent key ring and on the in-memory one.
\<close>

section \<open>Data\<close>

type_synonym public_key = bytes
type_synonym secret_key = bytes

datatype protection = K0Plaintext | K1OsProtected | K2HardwareBacked

datatype plaintext_policy = PlaintextReject | PlaintextAllow

datatype key_directory_status = Unregistered | StatusActive | StatusRevoked | StatusQuarantined

text \<open>The reasons \<open>CorruptFile\<close> and \<open>InvalidState\<close> carry, one constructor for each text.\<close>

datatype corrupt_reason =
    UnknownProtection | FileTooShort | NoChecksumLength | ChecksumLengthRange | NoChecksumPosition
  | NoProtectionByte | ChecksumMismatch | WrongMagic | UnsupportedVersion | BadQuarantineFlag
  | ReservedNotZero | TooManySigners | BadSignerIdLength | BadVersionCount | ReversedValidity
  | BadKeyState | BadPublicKey | BadPrivateKeyLength | KeyPairMismatch | DuplicateSignerId
  | TrailingData | LengthOverflow | UnexpectedEnd | BlobTooLarge | SignerIdNotUtf8 | PrivateBlobTooLarge
  | EmptyOsOutput

datatype invalid_state_reason = NoActiveKey | NewKeyAlreadyPresent | BlobToStoreTooLarge

datatype keyring_error =
    KrIo
  | CorruptFile corrupt_reason
  | InvalidSignerId
  | DuplicateSigner
  | MissingSigner
  | InvalidState invalid_state_reason
  | UnsupportedProtection protection
  | UnsupportedPlatform
  | OsProtectionFailed

datatype key_state = KeyActive | KeyRevoked

record key_version =
  kv_public :: public_key
  kv_private :: "secret_key option"
  kv_state :: key_state
  kv_valid_from_ms :: u64
  kv_valid_until_ms :: "u64 option"

record persistent_keyring =
  kr_path :: str
  kr_protection :: protection
  kr_quarantined :: bool
  kr_keys :: "(str, key_version list) btree_map"

definition ROTATION_GRACE_PERIOD_MS :: u64 where "ROTATION_GRACE_PERIOD_MS = 24 * 60 * 60 * 1000"

definition MAX_SIGNER_ID_BYTES :: usize where "MAX_SIGNER_ID_BYTES = 16 * 1024"

section \<open>Operations\<close>

text \<open>\<open>os_supported\<close> is the platform: Windows and Linux have an OS-protected store.\<close>

definition ensure_protection :: "bool \<Rightarrow> protection \<Rightarrow> plaintext_policy \<Rightarrow> keyring_error + unit" where
  "ensure_protection os_supported p policy =
     (case p of
        K0Plaintext \<Rightarrow> if policy = PlaintextReject then Err (UnsupportedProtection p) else Ok ()
      | K1OsProtected \<Rightarrow> if os_supported then Ok () else Err UnsupportedPlatform
      | K2HardwareBacked \<Rightarrow> Err (UnsupportedProtection p))"

definition keyring_new :: "bool \<Rightarrow> str \<Rightarrow> protection \<Rightarrow> plaintext_policy \<Rightarrow> keyring_error + persistent_keyring" where
  "keyring_new os_supported path p policy =
     and_then (ensure_protection os_supported p policy) (\<lambda>_.
       Ok \<lparr>kr_path = path, kr_protection = p, kr_quarantined = False, kr_keys = []\<rparr>)"

definition validate_signer_id :: "str \<Rightarrow> keyring_error + unit" where
  "validate_signer_id signer_id =
     reject_if (signer_id = [] \<or> length (as_bytes signer_id) > MAX_SIGNER_ID_BYTES) InvalidSignerId"

definition first_version :: "public_key \<Rightarrow> secret_key option \<Rightarrow> key_version" where
  "first_version public private =
     \<lparr>kv_public = public, kv_private = private, kv_state = KeyActive, kv_valid_from_ms = 0, kv_valid_until_ms = None\<rparr>"

definition register :: "str \<Rightarrow> key_version \<Rightarrow> persistent_keyring \<Rightarrow> keyring_error + persistent_keyring" where
  "register signer_id v k =
     and_then (validate_signer_id signer_id) (\<lambda>_.
       if bm_get (kr_keys k) signer_id \<noteq> None then Err DuplicateSigner
       else Ok (k\<lparr>kr_keys := bm_insert signer_id [v] (kr_keys k)\<rparr>))"

definition insert_private ::
  "(secret_key \<Rightarrow> public_key) \<Rightarrow> str \<Rightarrow> secret_key \<Rightarrow> persistent_keyring \<Rightarrow> keyring_error + persistent_keyring" where
  "insert_private verifying_key signer_id private =
     register signer_id (first_version (verifying_key private) (Some private))"

definition insert_public :: "str \<Rightarrow> public_key \<Rightarrow> persistent_keyring \<Rightarrow> keyring_error + persistent_keyring" where
  "insert_public signer_id public = register signer_id (first_version public None)"

definition keyring_revoke :: "str \<Rightarrow> persistent_keyring \<Rightarrow> keyring_error + bool \<times> persistent_keyring" where
  "keyring_revoke signer_id k =
     (case bm_get (kr_keys k) signer_id of None \<Rightarrow> Err MissingSigner
      | Some versions \<Rightarrow>
         Ok (\<exists>v \<in> set versions. kv_state v \<noteq> KeyRevoked,
             k\<lparr>kr_keys := bm_insert signer_id (map (\<lambda>v. v\<lparr>kv_state := KeyRevoked\<rparr>) versions) (kr_keys k)\<rparr>))"

definition keyring_quarantine :: "str \<Rightarrow> persistent_keyring \<Rightarrow> keyring_error + bool \<times> persistent_keyring" where
  "keyring_quarantine signer_id k =
     (if bm_get (kr_keys k) signer_id = None then Err MissingSigner
      else Ok (\<not> kr_quarantined k, k\<lparr>kr_quarantined := True\<rparr>))"

definition release_quarantine :: "str \<Rightarrow> persistent_keyring \<Rightarrow> keyring_error + bool \<times> persistent_keyring" where
  "release_quarantine signer_id k =
     (if bm_get (kr_keys k) signer_id = None then Err MissingSigner
      else Ok (kr_quarantined k, k\<lparr>kr_quarantined := False\<rparr>))"

definition version_is_valid :: "key_version \<Rightarrow> u64 \<Rightarrow> bool" where
  "version_is_valid v now \<longleftrightarrow>
     kv_state v = KeyActive \<and> kv_valid_from_ms v \<le> now \<and>
     (case kv_valid_until_ms v of None \<Rightarrow> True | Some until \<Rightarrow> now < until)"

definition status_at :: "persistent_keyring \<Rightarrow> str \<Rightarrow> u64 \<Rightarrow> key_directory_status" where
  "status_at k signer_id now =
     (case bm_get (kr_keys k) signer_id of None \<Rightarrow> Unregistered
      | Some versions \<Rightarrow>
         if kr_quarantined k then StatusQuarantined
         else if \<exists>v \<in> set versions. version_is_valid v now then StatusActive
         else StatusRevoked)"

definition retire_version :: "u64 \<Rightarrow> key_version \<Rightarrow> key_version" where
  "retire_version now v =
     (if version_is_valid v now
      then v\<lparr>kv_valid_until_ms := Some (saturating_add now ROTATION_GRACE_PERIOD_MS)\<rparr> else v)"

definition new_version :: "(secret_key \<Rightarrow> public_key) \<Rightarrow> secret_key \<Rightarrow> u64 \<Rightarrow> key_version" where
  "new_version verifying_key private now =
     \<lparr>kv_public = verifying_key private, kv_private = Some private, kv_state = KeyActive,
      kv_valid_from_ms = now, kv_valid_until_ms = None\<rparr>"

definition rotate ::
  "(secret_key \<Rightarrow> public_key) \<Rightarrow> str \<Rightarrow> secret_key \<Rightarrow> u64 \<Rightarrow> persistent_keyring \<Rightarrow> keyring_error + persistent_keyring" where
  "rotate verifying_key signer_id new_private now k =
     (if status_at k signer_id now \<noteq> StatusActive then Err (InvalidState NoActiveKey)
      else let new_public = verifying_key new_private in
      case bm_get (kr_keys k) signer_id of None \<Rightarrow> Err MissingSigner
      | Some versions \<Rightarrow>
         if \<exists>v \<in> set versions. kv_public v = new_public then Err (InvalidState NewKeyAlreadyPresent)
         else Ok (k\<lparr>kr_keys := bm_insert signer_id
             (map (retire_version now) versions @ [new_version verifying_key new_private now]) (kr_keys k)\<rparr>))"

section \<open>The directory\<close>

text \<open>\<open>KeyDirectoryView\<close>: the key ring at one time.\<close>

definition lookup_candidates :: "persistent_keyring \<Rightarrow> u64 \<Rightarrow> str \<Rightarrow> public_key list" where
  "lookup_candidates k now signer_id =
     (if kr_quarantined k then []
      else map kv_public (filter (\<lambda>v. version_is_valid v now)
        (case bm_get (kr_keys k) signer_id of None \<Rightarrow> [] | Some versions \<Rightarrow> versions)))"

definition lookup_retired :: "persistent_keyring \<Rightarrow> u64 \<Rightarrow> str \<Rightarrow> public_key list" where
  "lookup_retired k now signer_id =
     (if kr_quarantined k then []
      else map kv_public (filter (\<lambda>v. \<not> version_is_valid v now)
        (case bm_get (kr_keys k) signer_id of None \<Rightarrow> [] | Some versions \<Rightarrow> versions)))"

definition lookup_key :: "persistent_keyring \<Rightarrow> u64 \<Rightarrow> str \<Rightarrow> public_key option" where
  "lookup_key k now signer_id =
     (case lookup_candidates k now signer_id of [] \<Rightarrow> None | p # _ \<Rightarrow> Some p)"

text \<open>\<open>InMemoryKeyring\<close>; \<open>lookup_candidates\<close> and \<open>lookup_retired\<close> are the defaults of
  the trait.\<close>

type_synonym memory_keyring = "(str, public_key) hash_map"

definition mk_insert :: "str \<Rightarrow> public_key \<Rightarrow> memory_keyring \<Rightarrow> memory_keyring" where
  "mk_insert = hm_insert"

definition mk_revoke :: "str \<Rightarrow> memory_keyring \<Rightarrow> bool \<times> memory_keyring" where
  "mk_revoke signer_id m = (hm_get m signer_id \<noteq> None, hm_remove signer_id m)"

definition mk_lookup :: "memory_keyring \<Rightarrow> str \<Rightarrow> public_key option" where
  "mk_lookup m signer_id = hm_get m signer_id"

definition mk_candidates :: "memory_keyring \<Rightarrow> str \<Rightarrow> public_key list" where
  "mk_candidates m signer_id = (case mk_lookup m signer_id of None \<Rightarrow> [] | Some p \<Rightarrow> [p])"

definition mk_retired :: "memory_keyring \<Rightarrow> str \<Rightarrow> public_key list" where
  "mk_retired m signer_id = []"

section \<open>The verifier\<close>

text \<open>\<open>Ed25519Verifier::verify_signature\<close>, over the two lists of a directory; \<open>ed25519\<close> is
  the check of one signature with one key.\<close>

definition verify_signature ::
  "(public_key \<Rightarrow> bytes \<Rightarrow> bytes \<Rightarrow> bool) \<Rightarrow> (str \<Rightarrow> public_key list) \<Rightarrow> (str \<Rightarrow> public_key list) \<Rightarrow> signature_verifier" where
  "verify_signature ed25519 candidates retired signer_id message signature =
     (if length signature \<noteq> 64 then Err InvalidSignatureOutcome
      else if candidates signer_id = [] then Err UnknownSigner
      else if \<exists>p \<in> set (candidates signer_id). ed25519 p message signature then Ok ()
      else if \<exists>p \<in> set (retired signer_id). ed25519 p message signature then Err UnknownSigner
      else Err InvalidSignatureOutcome)"

section \<open>The directory interface\<close>

locale key_directory =
  fixes lookup :: "str \<Rightarrow> public_key option"
    and candidates :: "str \<Rightarrow> public_key list"
    and retired :: "str \<Rightarrow> public_key list"
  assumes lookup_first: "lookup s = (case candidates s of [] \<Rightarrow> None | p # _ \<Rightarrow> Some p)"
begin

lemma lookup_None_iff: "lookup s = None \<longleftrightarrow> candidates s = []"
  by (simp add: lookup_first split: list.splits)

lemma verify_signature_Ok:
  "verify_signature ed25519 candidates retired s message signature = Ok () \<longleftrightarrow>
     length signature = 64 \<and> (\<exists>p \<in> set (candidates s). ed25519 p message signature)"
  by (auto simp: verify_signature_def)

lemma unknown_signer_rejected:
  "lookup s = None \<Longrightarrow> verify_signature ed25519 candidates retired s message signature =
     Err (if length signature = 64 then UnknownSigner else InvalidSignatureOutcome)"
  by (simp add: verify_signature_def lookup_None_iff)

lemma retired_signature_is_not_forgery:
  assumes "length signature = 64" "p \<in> set (retired s)" "ed25519 p message signature"
    "\<not> (\<exists>p \<in> set (candidates s). ed25519 p message signature)"
  shows "verify_signature ed25519 candidates retired s message signature = Err UnknownSigner"
  using assms by (auto simp: verify_signature_def)

end

interpretation view: key_directory "lookup_key k now" "lookup_candidates k now" "lookup_retired k now" for k now
  by unfold_locales (simp add: lookup_key_def)

interpretation memory: key_directory "mk_lookup m" "mk_candidates m" "mk_retired m" for m
  by unfold_locales (simp add: mk_candidates_def split: option.splits)

section \<open>Histories of a key ring\<close>

datatype keyring_call =
    CallInsertPrivate str secret_key
  | CallInsertPublic str public_key
  | CallRevoke str
  | CallQuarantine str
  | CallReleaseQuarantine str
  | CallRotate str secret_key u64

definition updated :: "persistent_keyring \<Rightarrow> 'e + persistent_keyring \<Rightarrow> persistent_keyring" where
  "updated k r = (case r of Inl _ \<Rightarrow> k | Inr k' \<Rightarrow> k')"

fun run_keyring_call :: "(secret_key \<Rightarrow> public_key) \<Rightarrow> keyring_call \<Rightarrow> persistent_keyring \<Rightarrow> persistent_keyring" where
  "run_keyring_call vk (CallInsertPrivate s sk) k = updated k (insert_private vk s sk k)"
| "run_keyring_call vk (CallInsertPublic s p) k = updated k (insert_public s p k)"
| "run_keyring_call vk (CallRevoke s) k = updated k (map_sum id snd (keyring_revoke s k))"
| "run_keyring_call vk (CallQuarantine s) k = updated k (map_sum id snd (keyring_quarantine s k))"
| "run_keyring_call vk (CallReleaseQuarantine s) k = updated k (map_sum id snd (release_quarantine s k))"
| "run_keyring_call vk (CallRotate s sk now) k = updated k (rotate vk s sk now k)"

text \<open>What one call may do to the versions of a signer.\<close>

inductive versions_step :: "(secret_key \<Rightarrow> public_key) \<Rightarrow> str \<Rightarrow> key_version list option \<Rightarrow> key_version list option \<Rightarrow> bool"
  for vk :: "secret_key \<Rightarrow> public_key" and s :: str where
  same: "versions_step vk s vs vs"
| registered: "validate_signer_id s = Ok () \<Longrightarrow> p = kv_public v \<Longrightarrow> v = first_version p sk \<Longrightarrow>
    (\<forall>x. sk = Some x \<longrightarrow> p = vk x) \<Longrightarrow> versions_step vk s None (Some [v])"
| revoked: "versions_step vk s (Some vs) (Some (map (\<lambda>v. v\<lparr>kv_state := KeyRevoked\<rparr>) vs))"
| rotated: "\<exists>v \<in> set vs. version_is_valid v now \<Longrightarrow> \<forall>v \<in> set vs. kv_public v \<noteq> vk sk \<Longrightarrow>
    versions_step vk s (Some vs) (Some (map (retire_version now) vs @ [new_version vk sk now]))"

lemma rotate_Ok:
  "rotate vk s sk now k = Ok k' \<longleftrightarrow>
     \<not> kr_quarantined k \<and> (\<exists>vs. bm_get (kr_keys k) s = Some vs \<and> (\<exists>v \<in> set vs. version_is_valid v now) \<and>
       (\<forall>v \<in> set vs. kv_public v \<noteq> vk sk) \<and>
       k' = k\<lparr>kr_keys := bm_insert s (map (retire_version now) vs @ [new_version vk sk now]) (kr_keys k)\<rparr>)"
  by (auto simp: rotate_def status_at_def Let_def split: option.splits if_splits)

lemma register_Ok:
  "register s v k = Ok k' \<longleftrightarrow> validate_signer_id s = Ok () \<and> bm_get (kr_keys k) s = None \<and>
     k' = k\<lparr>kr_keys := bm_insert s [v] (kr_keys k)\<rparr>"
  by (auto simp: register_def result_ok)

lemma updated_cases: "updated k r = k \<or> (\<exists>k'. r = Ok k' \<and> updated k r = k')"
  by (cases r) (auto simp: updated_def)

lemma keyring_call_invar: "bm_invar (kr_keys k) \<Longrightarrow> bm_invar (kr_keys (run_keyring_call vk c k))"
  by (cases c) (auto simp: updated_def insert_private_def insert_public_def register_Ok keyring_revoke_def
      keyring_quarantine_def release_quarantine_def rotate_Ok bm_invar_insert split: sum.splits option.splits)

lemma keyring_call_versions:
  assumes "bm_invar (kr_keys k)"
  shows "versions_step vk s (bm_get (kr_keys k) s) (bm_get (kr_keys (run_keyring_call vk c k)) s)"
proof (cases c)
  case (CallRotate s' sk now)
  show ?thesis
  proof (cases "rotate vk s' sk now k")
    case Inl
    then show ?thesis by (simp add: CallRotate updated_def versions_step.same)
  next
    case (Inr k')
    then obtain vs where vs: "bm_get (kr_keys k) s' = Some vs" "\<exists>v \<in> set vs. version_is_valid v now"
        "\<forall>v \<in> set vs. kv_public v \<noteq> vk sk"
      and k': "k' = k\<lparr>kr_keys := bm_insert s' (map (retire_version now) vs @ [new_version vk sk now]) (kr_keys k)\<rparr>"
      unfolding rotate_Ok by blast
    have "run_keyring_call vk c k = k'" using Inr by (simp add: CallRotate updated_def)
    then show ?thesis
      using versions_step.rotated [where vk = vk and sk = sk, OF vs(2,3), of s] vs(1)
      by (cases "s = s'") (simp_all add: k' bm_get_insert [OF assms] versions_step.same)
  qed
qed (use assms in \<open>auto simp: updated_def insert_private_def insert_public_def register_Ok keyring_revoke_def
      keyring_quarantine_def release_quarantine_def bm_get_insert first_version_def
      split: sum.splits option.splits intro: versions_step.intros\<close>)

lemma keyring_calls_invar: "bm_invar (kr_keys k) \<Longrightarrow> bm_invar (kr_keys (fold (run_keyring_call vk) cs k))"
  by (induction cs arbitrary: k) (simp_all add: keyring_call_invar)

text \<open>A property of the versions of a signer that every such step keeps holds after every history.\<close>

lemma keyring_calls_keep:
  assumes step: "\<And>vs vs'. versions_step vk s vs vs' \<Longrightarrow> P vs \<Longrightarrow> P vs'"
  shows "bm_invar (kr_keys k) \<Longrightarrow> P (bm_get (kr_keys k) s) \<Longrightarrow> P (bm_get (kr_keys (fold (run_keyring_call vk) cs k)) s)"
proof (induction cs arbitrary: k)
  case (Cons c cs)
  then show ?case using step [OF keyring_call_versions [OF Cons.prems(1)]] by (simp add: keyring_call_invar)
qed simp

section \<open>Revocation\<close>

lemma lookup_candidates_Nil:
  "lookup_candidates k now s = [] \<longleftrightarrow>
     kr_quarantined k \<or> (\<forall>vs. bm_get (kr_keys k) s = Some vs \<longrightarrow> (\<forall>v \<in> set vs. \<not> version_is_valid v now))"
  by (cases "bm_get (kr_keys k) s") (auto simp: lookup_candidates_def filter_empty_conv)

lemma mem_lookup_candidates:
  "p \<in> set (lookup_candidates k now s) \<longleftrightarrow>
     \<not> kr_quarantined k \<and> (\<exists>vs v. bm_get (kr_keys k) s = Some vs \<and> v \<in> set vs \<and> version_is_valid v now \<and> kv_public v = p)"
  by (cases "bm_get (kr_keys k) s") (auto simp: lookup_candidates_def)

definition all_revoked :: "key_version list option \<Rightarrow> bool" where
  "all_revoked vs \<longleftrightarrow> (\<exists>ws. vs = Some ws \<and> (\<forall>v \<in> set ws. kv_state v = KeyRevoked))"

lemma all_revoked_step: "versions_step vk s vs vs' \<Longrightarrow> all_revoked vs \<Longrightarrow> all_revoked vs'"
  by (induction rule: versions_step.induct) (auto simp: all_revoked_def version_is_valid_def)

text \<open>Revocation is final: once a signer is revoked, no later history of registrations, rotations,
  quarantines and releases gives it a key again, at any time on the clock.\<close>

lemma revoked_no_key:
  assumes "bm_invar (kr_keys k)" and "keyring_revoke s k = Ok (changed, k1)"
  shows "bm_invar (kr_keys k1) \<and> lookup_key (fold (run_keyring_call vk) cs k1) now s = None"
proof -
  have invar: "bm_invar (kr_keys k1)" and "all_revoked (bm_get (kr_keys k1) s)"
    using assms by (auto simp: keyring_revoke_def bm_invar_insert bm_get_insert all_revoked_def split: option.splits)
  then have "all_revoked (bm_get (kr_keys (fold (run_keyring_call vk) cs k1)) s)"
    by (intro keyring_calls_keep [where P = all_revoked]) (rule all_revoked_step)
  then show ?thesis
    using invar by (auto simp: view.lookup_None_iff lookup_candidates_Nil version_is_valid_def all_revoked_def)
qed

definition example_ring :: persistent_keyring where
  "example_ring = \<lparr>kr_path = lit ''keys.bin'', kr_protection = K0Plaintext, kr_quarantined = False,
     kr_keys = [(lit ''alice'', [first_version (replicate 32 7) None])]\<rparr>"

lemma example_ring_simps [simp]:
  "bm_invar (kr_keys example_ring)" "kr_quarantined example_ring = False"
  "bm_get (kr_keys example_ring) (lit ''alice'') = Some [first_version (replicate 32 7) None]"
  by (simp_all add: example_ring_def bm_invar_def bm_get_def)

section \<open>Rotation\<close>

text \<open>Rotation hands over within the grace period: right after a rotation at time \<open>t\<close> of a
  signer whose keys have all come into force, the accepted keys at any later time are the new key
  and, before the end of the grace period, the keys accepted at \<open>t\<close>; afterwards the new key
  alone.\<close>

theorem rotation_hands_over:
  assumes "bm_invar (kr_keys k)" and "rotate vk s sk t k = Ok k'" and "t \<le> now"
    and started: "\<forall>vs. bm_get (kr_keys k) s = Some vs \<longrightarrow> (\<forall>v \<in> set vs. kv_valid_from_ms v \<le> t)"
  shows "set (lookup_candidates k' now s) =
    insert (vk sk) (if now < saturating_add t ROTATION_GRACE_PERIOD_MS then set (lookup_candidates k t s) else {})"
proof -
  obtain vs where q: "\<not> kr_quarantined k" and vs: "bm_get (kr_keys k) s = Some vs"
    and k': "k' = k\<lparr>kr_keys := bm_insert s (map (retire_version t) vs @ [new_version vk sk t]) (kr_keys k)\<rparr>"
    using assms(2) by (auto simp: rotate_Ok)
  have get: "bm_get (kr_keys k') s = Some (map (retire_version t) vs @ [new_version vk sk t])"
    using assms(1) by (simp add: k' bm_get_insert)
  have retire: "version_is_valid (retire_version t v) now \<longleftrightarrow>
      version_is_valid v t \<and> now < saturating_add t ROTATION_GRACE_PERIOD_MS" if "v \<in> set vs" for v
    using started vs that assms(3)
    by (auto simp: retire_version_def version_is_valid_def split: option.splits if_splits)
  have "version_is_valid (new_version vk sk t) now" using assms(3) by (simp add: version_is_valid_def new_version_def)
  moreover have "kv_public (retire_version t v) = kv_public v" for v by (simp add: retire_version_def)
  ultimately show ?thesis
    using retire q vs get by (auto simp: set_eq_iff mem_lookup_candidates k' new_version_def)
qed

text \<open>C28: A second rotation prolongs the grace period of the first: a key that was replaced at time
  \<open>t\<close> and is still in its grace period at the next rotation is accepted for another full
  period from then on, beyond the 24 hours the documentation gives it.\<close>

theorem second_rotation_prolongs_grace:
  assumes "bm_invar (kr_keys k)" and "p \<in> set (lookup_candidates k t s)"
    and "rotate vk s sk t k = Ok k1" and "rotate vk s sk' t2 k1 = Ok k2"
    and "t \<le> t2" and "t2 < saturating_add t ROTATION_GRACE_PERIOD_MS"
    and "t2 \<le> now" and "now < saturating_add t2 ROTATION_GRACE_PERIOD_MS"
  shows "p \<in> set (lookup_candidates k2 now s)"
proof -
  obtain vs v where vs: "bm_get (kr_keys k) s = Some vs" "v \<in> set vs" "version_is_valid v t" "kv_public v = p"
    using assms(2) by (auto simp: mem_lookup_candidates)
  let ?v1 = "retire_version t v" and ?v2 = "retire_version t2 (retire_version t v)"
  have inv1: "bm_invar (kr_keys k1)" and v1: "\<exists>vs1. bm_get (kr_keys k1) s = Some vs1 \<and> ?v1 \<in> set vs1"
    using assms(1,3) vs by (auto simp: rotate_Ok bm_get_insert bm_invar_insert)
  have v2: "\<exists>vs2. bm_get (kr_keys k2) s = Some vs2 \<and> ?v2 \<in> set vs2" and q: "\<not> kr_quarantined k2"
    using assms(4) inv1 v1 by (auto simp: rotate_Ok bm_get_insert)
  have "version_is_valid ?v1 t2" "kv_public ?v2 = p"
    using vs assms(5,6) by (auto simp: retire_version_def version_is_valid_def)
  then have "version_is_valid ?v2 now"
    using assms(7,8) by (auto simp: retire_version_def version_is_valid_def)
  then show ?thesis using v2 q \<open>kv_public ?v2 = p\<close> by (auto simp: mem_lookup_candidates)
qed

lemma example_rotations:
  obtains k1 k2 where "rotate id (lit ''alice'') (replicate 32 8) 0 example_ring = Ok k1"
    and "rotate id (lit ''alice'') (replicate 32 9) 82800000 k1 = Ok k2"
proof -
  let ?v = "first_version (replicate 32 7) None"
  have distinct: "replicate 32 (8 :: u8) \<noteq> replicate 32 7" "replicate 32 (9 :: u8) \<noteq> replicate 32 7"
    "replicate 32 (9 :: u8) \<noteq> replicate 32 8" by (simp_all add: replicate_eq_replicate)
  have valid: "version_is_valid ?v 0" by (simp add: version_is_valid_def first_version_def)
  let ?k1 = "example_ring\<lparr>kr_keys := bm_insert (lit ''alice'') (map (retire_version 0) [?v] @ [new_version id (replicate 32 8) 0])
      (kr_keys example_ring)\<rparr>"
  have r1: "rotate id (lit ''alice'') (replicate 32 8) 0 example_ring = Ok ?k1"
    using valid distinct unfolding rotate_Ok example_ring_simps by (simp add: first_version_def)
  have get: "bm_get (kr_keys ?k1) (lit ''alice'') = Some [retire_version 0 ?v, new_version id (replicate 32 8) 0]"
    using bm_get_insert [OF example_ring_simps(1)] by simp
  have "version_is_valid (new_version id (replicate 32 8) 0) 82800000"
    by (simp add: version_is_valid_def new_version_def)
  then have "\<exists>k2. rotate id (lit ''alice'') (replicate 32 9) 82800000 ?k1 = Ok k2"
    using distinct unfolding rotate_Ok get
    by (simp add: retire_version_def first_version_def new_version_def eq_commute [of "replicate 32 _"])
  then show thesis using r1 that by blast
qed

lemma example_candidates: "replicate 32 7 \<in> set (lookup_candidates example_ring 0 (lit ''alice''))"
  unfolding mem_lookup_candidates example_ring_simps by (simp add: version_is_valid_def first_version_def)

theorem rotation_hands_over_witness:
  "\<exists>k1. rotate id (lit ''alice'') (replicate 32 8) 0 example_ring = Ok k1 \<and>
     set (lookup_candidates k1 86400000 (lit ''alice'')) = {replicate 32 8}"
proof -
  obtain k1 k2 where r: "rotate id (lit ''alice'') (replicate 32 8) 0 example_ring = Ok k1" by (rule example_rotations)
  have "set (lookup_candidates k1 86400000 (lit ''alice'')) = {replicate 32 8}"
    using rotation_hands_over [OF example_ring_simps(1) r, of 86400000] unfolding example_ring_simps
    by (simp add: first_version_def ROTATION_GRACE_PERIOD_MS_def saturating_add_def checked_add_def)
  then show ?thesis using r by blast
qed

theorem second_rotation_prolongs_grace_witness:
  "\<exists>k1 k2. rotate id (lit ''alice'') (replicate 32 8) 0 example_ring = Ok k1 \<and>
     rotate id (lit ''alice'') (replicate 32 9) 82800000 k1 = Ok k2 \<and>
     replicate 32 7 \<in> set (lookup_candidates k2 165600000 (lit ''alice''))"
proof -
  obtain k1 k2 where r: "rotate id (lit ''alice'') (replicate 32 8) 0 example_ring = Ok k1"
    "rotate id (lit ''alice'') (replicate 32 9) 82800000 k1 = Ok k2" by (rule example_rotations)
  have "replicate 32 7 \<in> set (lookup_candidates k2 165600000 (lit ''alice''))"
    by (rule second_rotation_prolongs_grace [OF example_ring_simps(1) example_candidates r])
       (simp_all add: ROTATION_GRACE_PERIOD_MS_def saturating_add_def checked_add_def)
  then show ?thesis using r by blast
qed

end
