(* ===== verification/Keyring_File.thy ===== *)
theory Keyring_File
  imports Keyring
begin

text \<open>
  The file of the key ring (\<open>src/crates/crypto/src/keyring.rs\<close>): \<open>save\<close>,
  \<open>load\<close> and the byte reader they share.

  Parameters, in the record \<open>keyring_api\<close>: BLAKE3, the public key of a seed, which 32 bytes
  are a public key, whether the platform has an OS-protected store, and the two calls into that
  store (DPAPI or \<open>systemd-creds\<close>). The file system is a map from paths to contents; the call
  that writes a file is a parameter, because it may fail half way.
\<close>

record keyring_api =
  ka_blake3 :: "bytes \<Rightarrow> bytes"
  ka_verifying_key :: "secret_key \<Rightarrow> public_key"
  ka_public_from_bytes :: "bytes \<Rightarrow> public_key option"
  ka_os_supported :: bool
  ka_os_protect :: "str \<Rightarrow> bytes \<Rightarrow> keyring_error + bytes"
  ka_os_unprotect :: "str \<Rightarrow> bytes \<Rightarrow> keyring_error + bytes"

section \<open>Little-endian integers and UTF-8\<close>

definition to_le_bytes_u32 :: "u32 \<Rightarrow> bytes" where
  "to_le_bytes_u32 n = rev (to_be_bytes_u32 n)"

definition to_le_bytes_u64 :: "u64 \<Rightarrow> bytes" where
  "to_le_bytes_u64 n = rev (to_be_bytes_u64 n)"

definition from_le_bytes_u32 :: "bytes \<Rightarrow> u32" where
  "from_le_bytes_u32 bs = of_nat (be_value (rev bs))"

definition from_le_bytes_u64 :: "bytes \<Rightarrow> u64" where
  "from_le_bytes_u64 bs = of_nat (be_value (rev bs))"

section \<open>The reader\<close>

record reader =
  rd_bytes :: bytes
  rd_position :: usize

type_synonym 'a reading = "reader \<Rightarrow> keyring_error + 'a \<times> reader"

definition rd_return :: "'a \<Rightarrow> 'a reading" where
  "rd_return x r = Ok (x, r)"

definition rd_fail :: "corrupt_reason \<Rightarrow> 'a reading" where
  "rd_fail reason r = Err (CorruptFile reason)"

definition rd_bind :: "'a reading \<Rightarrow> ('a \<Rightarrow> 'b reading) \<Rightarrow> 'b reading" where
  "rd_bind p f r = (case p r of Inl e \<Rightarrow> Err e | Inr (x, r') \<Rightarrow> f x r')"

definition rd_lift :: "keyring_error + 'a \<Rightarrow> 'a reading" where
  "rd_lift res r = (case res of Inl e \<Rightarrow> Err e | Inr x \<Rightarrow> Ok (x, r))"

definition reader_take :: "usize \<Rightarrow> bytes reading" where
  "reader_take len r =
     (let end = rd_position r + len
      in if end \<ge> 2 ^ 64 then Err (CorruptFile LengthOverflow)
         else if end > length (rd_bytes r) then Err (CorruptFile UnexpectedEnd)
         else Ok (take len (drop (rd_position r) (rd_bytes r)), r\<lparr>rd_position := end\<rparr>))"

definition reader_u8 :: "u8 reading" where
  "reader_u8 = rd_bind (reader_take 1) (\<lambda>bs. rd_return (bs ! 0))"

definition reader_u32 :: "u32 reading" where
  "reader_u32 = rd_bind (reader_take 4) (\<lambda>bs. rd_return (from_le_bytes_u32 bs))"

definition reader_u64 :: "u64 reading" where
  "reader_u64 = rd_bind (reader_take 8) (\<lambda>bs. rd_return (from_le_bytes_u64 bs))"

definition MAX_BLOB_BYTES :: usize where "MAX_BLOB_BYTES = 1024 * 1024"

definition reader_blob :: "bytes reading" where
  "reader_blob = rd_bind reader_u32 (\<lambda>n.
     if unat n > MAX_BLOB_BYTES then rd_fail BlobTooLarge else reader_take (unat n))"

definition reader_string :: "str reading" where
  "reader_string = rd_bind reader_blob (\<lambda>bs.
     case from_utf8 bs of None \<Rightarrow> rd_fail SignerIdNotUtf8 | Some s \<Rightarrow> rd_return s)"

definition reader_remaining :: "reader \<Rightarrow> usize" where
  "reader_remaining r = length (rd_bytes r) - rd_position r"

text \<open>\<open>for _ in 0..n\<close> with a body that reads.\<close>

fun read_times :: "nat \<Rightarrow> ('s \<Rightarrow> 's reading) \<Rightarrow> 's \<Rightarrow> 's reading" where
  "read_times 0 body s = rd_return s"
| "read_times (Suc n) body s = rd_bind (body s) (read_times n body)"

section \<open>Protection\<close>

definition FILE_MAC_LABEL :: str where "FILE_MAC_LABEL = lit ''gputeer-keyring-file-mac''"

definition seal_checksum :: "keyring_api \<Rightarrow> protection \<Rightarrow> bytes \<Rightarrow> keyring_error + bytes" where
  "seal_checksum api p body =
     (case p of
        K0Plaintext \<Rightarrow> Ok (ka_blake3 api body)
      | K1OsProtected \<Rightarrow> ka_os_protect api FILE_MAC_LABEL (ka_blake3 api body)
      | K2HardwareBacked \<Rightarrow> Err (UnsupportedProtection p))"

definition verify_sealed_checksum :: "keyring_api \<Rightarrow> protection \<Rightarrow> bytes \<Rightarrow> bytes \<Rightarrow> keyring_error + unit" where
  "verify_sealed_checksum api p body sealed =
     and_then (case p of
         K0Plaintext \<Rightarrow> Ok sealed
       | K1OsProtected \<Rightarrow> ka_os_unprotect api FILE_MAC_LABEL sealed
       | K2HardwareBacked \<Rightarrow> Err (UnsupportedProtection p)) (\<lambda>actual.
       if actual \<noteq> ka_blake3 api body then Err (CorruptFile ChecksumMismatch) else Ok ())"

definition protect_private_key :: "keyring_api \<Rightarrow> protection \<Rightarrow> str \<Rightarrow> secret_key \<Rightarrow> keyring_error + bytes" where
  "protect_private_key api p signer_id private =
     (case p of
        K0Plaintext \<Rightarrow> Ok private
      | K1OsProtected \<Rightarrow> ka_os_protect api signer_id private
      | K2HardwareBacked \<Rightarrow> Err (UnsupportedProtection p))"

definition unprotect_private_key :: "keyring_api \<Rightarrow> protection \<Rightarrow> str \<Rightarrow> bytes \<Rightarrow> keyring_error + bytes" where
  "unprotect_private_key api p signer_id encrypted =
     (if length encrypted > MAX_BLOB_BYTES then Err (CorruptFile PrivateBlobTooLarge)
      else case p of
        K0Plaintext \<Rightarrow> Ok encrypted
      | K1OsProtected \<Rightarrow> ka_os_unprotect api signer_id encrypted
      | K2HardwareBacked \<Rightarrow> Err (UnsupportedProtection p))"

section \<open>Saving\<close>

definition FILE_MAGIC :: bytes where "FILE_MAGIC = as_bytes (lit ''GPUTEER-KEYRING'') @ [0]"

definition FILE_VERSION :: u8 where "FILE_VERSION = 2"

definition MAX_ENTRY_COUNT :: usize where "MAX_ENTRY_COUNT = 4096"

fun protection_byte :: "protection \<Rightarrow> u8" where
  "protection_byte K0Plaintext = 1"
| "protection_byte K1OsProtected = 2"
| "protection_byte K2HardwareBacked = 3"

definition protection_from_byte :: "u8 \<Rightarrow> keyring_error + protection" where
  "protection_from_byte b =
     (if b = 1 then Ok K0Plaintext else if b = 2 then Ok K1OsProtected
      else if b = 3 then Ok K2HardwareBacked else Err (CorruptFile UnknownProtection))"

definition put_u32 :: "u32 \<Rightarrow> bytes" where "put_u32 = to_le_bytes_u32"

definition put_u64 :: "u64 \<Rightarrow> bytes" where "put_u64 = to_le_bytes_u64"

definition put_blob :: "bytes \<Rightarrow> keyring_error + bytes" where
  "put_blob bs =
     (if length bs > MAX_BLOB_BYTES \<or> length bs > 2 ^ 32 - 1 then Err (InvalidState BlobToStoreTooLarge)
      else Ok (put_u32 (of_nat (length bs)) @ bs))"

definition put_string :: "str \<Rightarrow> keyring_error + bytes" where
  "put_string s =
     (if length (as_bytes s) > MAX_SIGNER_ID_BYTES then Err InvalidSignerId else put_blob (as_bytes s))"

definition put_version :: "keyring_api \<Rightarrow> protection \<Rightarrow> str \<Rightarrow> key_version \<Rightarrow> keyring_error + bytes" where
  "put_version api p signer_id v =
     and_then (case kv_private v of None \<Rightarrow> Ok [] | Some raw \<Rightarrow> protect_private_key api p signer_id raw) (\<lambda>private_blob.
     and_then (put_blob private_blob) (\<lambda>blob.
       Ok (put_u64 (kv_valid_from_ms v)
         @ put_u64 (case kv_valid_until_ms v of None \<Rightarrow> - 1 | Some until \<Rightarrow> until)
         @ [case kv_state v of KeyActive \<Rightarrow> 0 | KeyRevoked \<Rightarrow> 1]
         @ kv_public v @ blob)))"

definition put_signer :: "keyring_api \<Rightarrow> protection \<Rightarrow> str \<times> key_version list \<Rightarrow> keyring_error + bytes" where
  "put_signer api p = (\<lambda>(signer_id, versions).
     and_then (put_string signer_id) (\<lambda>name.
     and_then (collect_results (put_version api p signer_id) versions) (\<lambda>encoded.
       Ok (name @ put_u32 (of_nat (length versions)) @ concat encoded))))"

definition keyring_body :: "keyring_api \<Rightarrow> persistent_keyring \<Rightarrow> keyring_error + bytes" where
  "keyring_body api k =
     and_then (collect_results (put_signer api (kr_protection k)) (kr_keys k)) (\<lambda>encoded.
       Ok (FILE_MAGIC @ [FILE_VERSION, protection_byte (kr_protection k), if kr_quarantined k then 1 else 0, 0]
         @ put_u32 (of_nat (bm_len (kr_keys k))) @ concat encoded))"

definition keyring_bytes :: "keyring_api \<Rightarrow> persistent_keyring \<Rightarrow> keyring_error + bytes" where
  "keyring_bytes api k =
     and_then (keyring_body api k) (\<lambda>body.
     and_then (seal_checksum api (kr_protection k) body) (\<lambda>sealed.
       Ok (body @ sealed @ put_u32 (of_nat (length sealed)))))"

type_synonym files = "str \<Rightarrow> bytes option"

definition keyring_save ::
  "keyring_api \<Rightarrow> (str \<Rightarrow> bytes \<Rightarrow> files \<Rightarrow> (keyring_error + unit) \<times> files) \<Rightarrow> persistent_keyring \<Rightarrow> files
    \<Rightarrow> (keyring_error + unit) \<times> files" where
  "keyring_save api fs_write k files =
     (case keyring_bytes api k of Inl e \<Rightarrow> (Err e, files) | Inr body \<Rightarrow> fs_write (kr_path k) body files)"

section \<open>Loading\<close>

definition read_private :: "keyring_api \<Rightarrow> protection \<Rightarrow> str \<Rightarrow> public_key \<Rightarrow> bytes \<Rightarrow> keyring_error + secret_key option" where
  "read_private api p signer_id public encrypted =
     (if encrypted = [] then Ok None
      else and_then (unprotect_private_key api p signer_id encrypted) (\<lambda>raw.
        if length raw \<noteq> 32 then Err (CorruptFile BadPrivateKeyLength)
        else if ka_verifying_key api raw \<noteq> public then Err (CorruptFile KeyPairMismatch)
        else Ok (Some raw)))"

definition read_version :: "keyring_api \<Rightarrow> protection \<Rightarrow> str \<Rightarrow> key_version reading" where
  "read_version api p signer_id =
     rd_bind reader_u64 (\<lambda>valid_from.
     rd_bind reader_u64 (\<lambda>until_raw.
     rd_bind (if until_raw = - 1 then rd_return None
              else if until_raw \<le> valid_from then rd_fail ReversedValidity
              else rd_return (Some until_raw)) (\<lambda>valid_until.
     rd_bind reader_u8 (\<lambda>state_byte.
     rd_bind (if state_byte = 0 then rd_return KeyActive
              else if state_byte = 1 then rd_return KeyRevoked
              else rd_fail BadKeyState) (\<lambda>state.
     rd_bind (reader_take 32) (\<lambda>public_bytes.
     rd_bind (case ka_public_from_bytes api public_bytes of None \<Rightarrow> rd_fail BadPublicKey
              | Some public \<Rightarrow> rd_return public) (\<lambda>public.
     rd_bind reader_blob (\<lambda>encrypted.
     rd_bind (rd_lift (read_private api p signer_id public encrypted)) (\<lambda>private.
       rd_return \<lparr>kv_public = public, kv_private = private, kv_state = state,
         kv_valid_from_ms = valid_from, kv_valid_until_ms = valid_until\<rparr>)))))))))"

definition read_signer :: "keyring_api \<Rightarrow> protection \<Rightarrow> (str, key_version list) btree_map
    \<Rightarrow> (str, key_version list) btree_map reading" where
  "read_signer api p keys =
     rd_bind reader_string (\<lambda>signer_id.
     if signer_id = [] \<or> length (as_bytes signer_id) > MAX_SIGNER_ID_BYTES then rd_fail BadSignerIdLength
     else rd_bind reader_u32 (\<lambda>version_count.
       if version_count = 0 \<or> unat version_count > MAX_ENTRY_COUNT then rd_fail BadVersionCount
       else rd_bind (read_times (unat version_count)
           (\<lambda>vs. rd_bind (read_version api p signer_id) (\<lambda>v. rd_return (vs @ [v]))) []) (\<lambda>versions.
         if bm_get keys signer_id \<noteq> None then rd_fail DuplicateSignerId
         else rd_return (bm_insert signer_id versions keys))))"

definition read_body :: "keyring_api \<Rightarrow> plaintext_policy \<Rightarrow> str \<Rightarrow> persistent_keyring reading" where
  "read_body api policy path =
     rd_bind (reader_take (length FILE_MAGIC)) (\<lambda>magic.
     if magic \<noteq> FILE_MAGIC then rd_fail WrongMagic
     else rd_bind reader_u8 (\<lambda>version.
     if version \<noteq> FILE_VERSION then rd_fail UnsupportedVersion
     else rd_bind reader_u8 (\<lambda>protection_raw.
     rd_bind (rd_lift (protection_from_byte protection_raw)) (\<lambda>p.
     rd_bind (rd_lift (ensure_protection (ka_os_supported api) p policy)) (\<lambda>_.
     rd_bind reader_u8 (\<lambda>flag.
     rd_bind (if flag = 0 then rd_return False else if flag = 1 then rd_return True
              else rd_fail BadQuarantineFlag) (\<lambda>quarantined.
     rd_bind reader_u8 (\<lambda>reserved.
     if reserved \<noteq> 0 then rd_fail ReservedNotZero
     else rd_bind reader_u32 (\<lambda>signer_count.
     if unat signer_count > MAX_ENTRY_COUNT then rd_fail TooManySigners
     else rd_bind (read_times (unat signer_count) (read_signer api p) []) (\<lambda>keys.
     rd_bind (\<lambda>r. if reader_remaining r \<noteq> 0 then Err (CorruptFile TrailingData) else Ok ((), r)) (\<lambda>_.
       rd_return \<lparr>kr_path = path, kr_protection = p, kr_quarantined = quarantined, kr_keys = keys\<rparr>)))))))))))"

definition keyring_parse :: "keyring_api \<Rightarrow> plaintext_policy \<Rightarrow> str \<Rightarrow> bytes \<Rightarrow> keyring_error + persistent_keyring" where
  "keyring_parse api policy path bs =
     (if length bs < length FILE_MAGIC + 1 + 1 + 1 + 1 + 4 + 32 then Err (CorruptFile FileTooShort)
      else let tail_len_at = length bs - 4;
               sealed_len = unat (from_le_bytes_u32 (drop tail_len_at bs))
        in if sealed_len = 0 \<or> sealed_len > MAX_BLOB_BYTES then Err (CorruptFile ChecksumLengthRange)
           else if tail_len_at < sealed_len then Err (CorruptFile NoChecksumPosition)
           else let sealed_at = tail_len_at - sealed_len;
                    body = take sealed_at bs;
                    sealed = take sealed_len (drop sealed_at bs)
             in and_then (protection_from_byte (bs ! (length FILE_MAGIC + 1))) (\<lambda>claimed.
                and_then (ensure_protection (ka_os_supported api) claimed policy) (\<lambda>_.
                and_then (verify_sealed_checksum api claimed body sealed) (\<lambda>_.
                and_then (read_body api policy path \<lparr>rd_bytes = body, rd_position = 0\<rparr>) (\<lambda>(k, _). Ok k)))))"

definition keyring_load :: "keyring_api \<Rightarrow> plaintext_policy \<Rightarrow> str \<Rightarrow> files \<Rightarrow> keyring_error + persistent_keyring" where
  "keyring_load api policy path files =
     (case files path of None \<Rightarrow> Err KrIo | Some bs \<Rightarrow> keyring_parse api policy path bs)"

section \<open>What a reader reads\<close>

text \<open>\<open>reads p enc x\<close>: wherever the bytes \<open>enc\<close> stand, \<open>p\<close> consumes exactly them and
  returns \<open>x\<close>; \<open>reads_all\<close> is the same at the end of the input.\<close>

definition reads :: "'a reading \<Rightarrow> bytes \<Rightarrow> 'a \<Rightarrow> bool" where
  "reads p enc x \<longleftrightarrow> (\<forall>pre rest. length (pre @ enc @ rest) < 2 ^ 64 \<longrightarrow>
     p \<lparr>rd_bytes = pre @ enc @ rest, rd_position = length pre\<rparr> =
       Ok (x, \<lparr>rd_bytes = pre @ enc @ rest, rd_position = length (pre @ enc)\<rparr>))"

definition reads_all :: "'a reading \<Rightarrow> bytes \<Rightarrow> 'a \<Rightarrow> bool" where
  "reads_all p enc x \<longleftrightarrow> (\<forall>pre. length (pre @ enc) < 2 ^ 64 \<longrightarrow>
     p \<lparr>rd_bytes = pre @ enc, rd_position = length pre\<rparr> =
       Ok (x, \<lparr>rd_bytes = pre @ enc, rd_position = length (pre @ enc)\<rparr>))"

lemma rd_bind_simps [simp]:
  "rd_bind (rd_return x) f = f x" "rd_bind (rd_lift (Inr x)) f = f x"
  by (simp_all add: fun_eq_iff rd_bind_def rd_return_def rd_lift_def)

lemma reads_return: "reads (rd_return x) [] x"
  by (simp add: reads_def rd_return_def)

lemma reads_bind: "reads p e x \<Longrightarrow> reads (f x) e' y \<Longrightarrow> reads (rd_bind p f) (e @ e') y"
  unfolding reads_def rd_bind_def by (metis (no_types, lifting) append_assoc case_prod_conv old.sum.simps(6))

lemma reads_all_bind: "reads p e x \<Longrightarrow> reads_all (f x) e' y \<Longrightarrow> reads_all (rd_bind p f) (e @ e') y"
  unfolding reads_def reads_all_def rd_bind_def
  by (metis (no_types, lifting) append_assoc case_prod_conv old.sum.simps(6))

lemma reads_bind_end: "reads p e x \<Longrightarrow> reads (f x) [] y \<Longrightarrow> reads (rd_bind p f) e y"
  using reads_bind [of p e x f "[]" y] by simp

lemma reads_take: "length bs = n \<Longrightarrow> reads (reader_take n) bs bs"
  by (auto simp: reads_def reader_take_def Let_def)

lemma reads_map: "reads p e x \<Longrightarrow> reads (rd_bind p (\<lambda>x. rd_return (g x))) e (g x)"
  using reads_bind [of p e x "\<lambda>x. rd_return (g x)" "[]" "g x"] by (simp add: reads_return)

lemma reads_u8: "reads reader_u8 [b] b"
  using reads_map [OF reads_take [of "[b]" 1], of "\<lambda>bs. bs ! 0"] by (simp add: reader_u8_def)

lemma be_value_to_be_bytes_u32: "be_value (to_be_bytes_u32 n) = unat n"
proof -
  define N where "N = unat n"
  have byte: "unat (ucast (drop_bit k n) :: u8) = N div 2 ^ k mod 256" for k
  proof -
    have "unat (ucast (drop_bit k n) :: u8) = take_bit 8 (drop_bit k N)"
      by (simp add: N_def unsigned_ucast_eq unat_drop_bit_eq)
    then show ?thesis by (simp add: drop_bit_eq_div take_bit_eq_mod)
  qed
  have split: "N div (m * 256) * 256 + N div m mod 256 = N div m" for m by (simp add: div_mult2_eq)
  have "N div 2 ^ 24 < 256" using unsigned_less [of n, where 'a = nat] by (simp add: N_def less_mult_imp_div_less)
  then have "be_value (to_be_bytes_u32 n) =
      ((N div 2 ^ 24 * 256 + N div 2 ^ 16 mod 256) * 256 + N div 2 ^ 8 mod 256) * 256 + N mod 256"
    using byte [of 0] by (simp add: to_be_bytes_u32_def byte)
  also have "\<dots> = N" using split [of "2 ^ 16"] split [of "2 ^ 8"] split [of 1] by simp
  finally show ?thesis by (simp add: N_def)
qed

lemma from_to_le_bytes [simp]:
  "from_le_bytes_u32 (to_le_bytes_u32 n) = n" "from_le_bytes_u64 (to_le_bytes_u64 m) = m"
  by (simp_all add: from_le_bytes_u32_def from_le_bytes_u64_def to_le_bytes_u32_def to_le_bytes_u64_def
      be_value_to_be_bytes_u32 be_value_to_be_bytes)

lemma length_put [simp]: "length (put_u32 n) = 4" "length (put_u64 m) = 8"
  by (simp_all add: put_u32_def put_u64_def to_le_bytes_u32_def to_le_bytes_u64_def)

lemma reads_u32: "reads reader_u32 (put_u32 n) n"
  using reads_map [OF reads_take [OF length_put(1) [of n]], of from_le_bytes_u32]
  by (simp add: reader_u32_def put_u32_def)

lemma reads_u64: "reads reader_u64 (put_u64 n) n"
  using reads_map [OF reads_take [OF length_put(2) [of n]], of from_le_bytes_u64]
  by (simp add: reader_u64_def put_u64_def)

lemma reads_blob: "put_blob bs = Ok enc \<Longrightarrow> reads reader_blob enc bs"
proof -
  assume "put_blob bs = Ok enc"
  then have len: "length bs \<le> MAX_BLOB_BYTES" and enc: "enc = put_u32 (of_nat (length bs)) @ bs"
    by (auto simp: put_blob_def split: if_splits)
  then have "unat (of_nat (length bs) :: u32) = length bs"
    by (simp add: unat_of_nat take_bit_nat_eq_self MAX_BLOB_BYTES_def)
  then show ?thesis
    unfolding reader_blob_def enc using len by (intro reads_bind [OF reads_u32]) (simp add: reads_take)
qed

lemma reads_string: "valid_str s \<Longrightarrow> put_string s = Ok enc \<Longrightarrow> reads reader_string enc s"
proof -
  assume "valid_str s" and "put_string s = Ok enc"
  then have "reads reader_blob enc (as_bytes s)" and "from_utf8 (as_bytes s) = Some s"
    by (auto simp: put_string_def from_utf8_def as_bytes_decode intro: reads_blob split: if_splits)
  then show ?thesis
    using reads_bind [of reader_blob enc "as_bytes s" _ "[]" s] by (simp add: reader_string_def reads_return)
qed

lemma reads_times:
  assumes "\<And>i. i < length encs \<Longrightarrow> reads (body (s i)) (encs ! i) (s (Suc i))"
  shows "reads (read_times (length encs) body (s 0)) (concat encs) (s (length encs))"
  using assms
proof (induction encs arbitrary: s)
  case (Cons e es)
  have "reads (body (s 0)) e (s 1)" using Cons.prems [of 0] by simp
  moreover have "reads (read_times (length es) body (s 1)) (concat es) (s (Suc (length es)))"
    using Cons.IH [of "\<lambda>i. s (Suc i)"] Cons.prems [of "Suc _"] by simp
  ultimately show ?case by (simp add: reads_bind)
qed (simp add: reads_return)

section \<open>Round trip of one version and of one signer\<close>

text \<open>What the parameters promise: BLAKE3 gives 32 bytes, and the OS store returns under a label
  what was protected under it, in a form that is not empty, not shorter than the plain text and
  not larger than a blob.\<close>

definition api_ok :: "keyring_api \<Rightarrow> bool" where
  "api_ok api \<longleftrightarrow>
     (\<forall>b. length (ka_blake3 api b) = 32) \<and>
     (\<forall>label b c. ka_os_protect api label b = Ok c \<longrightarrow>
        ka_os_unprotect api label c = Ok b \<and> c \<noteq> [] \<and> length b \<le> length c \<and> length c \<le> MAX_BLOB_BYTES)"

definition version_ok :: "keyring_api \<Rightarrow> key_version \<Rightarrow> bool" where
  "version_ok api v \<longleftrightarrow>
     length (kv_public v) = 32 \<and> ka_public_from_bytes api (kv_public v) = Some (kv_public v) \<and>
     (\<forall>sk. kv_private v = Some sk \<longrightarrow> length sk = 32 \<and> ka_verifying_key api sk = kv_public v) \<and>
     (\<forall>until. kv_valid_until_ms v = Some until \<longrightarrow> until \<noteq> - 1 \<and> kv_valid_from_ms v < until)"

definition signer_ok :: "keyring_api \<Rightarrow> str \<times> key_version list \<Rightarrow> bool" where
  "signer_ok api = (\<lambda>(s, vs). valid_str s \<and> s \<noteq> [] \<and> length (as_bytes s) \<le> MAX_SIGNER_ID_BYTES \<and>
     vs \<noteq> [] \<and> length vs \<le> MAX_ENTRY_COUNT \<and> list_all (version_ok api) vs)"

definition keyring_ok :: "keyring_api \<Rightarrow> persistent_keyring \<Rightarrow> bool" where
  "keyring_ok api k \<longleftrightarrow>
     bm_invar (kr_keys k) \<and> length (kr_keys k) \<le> MAX_ENTRY_COUNT \<and> list_all (signer_ok api) (kr_keys k)"

lemma protect_unprotect:
  assumes "api_ok api" and "protect_private_key api p s sk = Ok c" and "length sk = 32"
  shows "unprotect_private_key api p s c = Ok sk \<and> c \<noteq> []"
  using assms
  by (cases p) (fastforce simp: protect_private_key_def unprotect_private_key_def api_ok_def MAX_BLOB_BYTES_def)+

lemma reads_version:
  assumes "api_ok api" and "version_ok api v" and "put_version api p s v = Ok enc"
  shows "reads (read_version api p s) enc v"
proof -
  obtain prv blob where prv: "(case kv_private v of None \<Rightarrow> Ok [] | Some raw \<Rightarrow> protect_private_key api p s raw) = Ok prv"
    and blob: "put_blob prv = Ok blob" and enc: "enc = put_u64 (kv_valid_from_ms v)
         @ put_u64 (case kv_valid_until_ms v of None \<Rightarrow> - 1 | Some until \<Rightarrow> until)
         @ [case kv_state v of KeyActive \<Rightarrow> 0 | KeyRevoked \<Rightarrow> 1] @ kv_public v @ blob"
    using assms(3) by (auto simp: put_version_def result_ok)
  have again: "read_private api p s (kv_public v) prv = Ok (kv_private v)"
    using prv assms(1,2) protect_unprotect
    by (fastforce simp: read_private_def version_ok_def split: option.splits)
  show ?thesis
    unfolding read_version_def enc
  proof (rule reads_bind [OF reads_u64], rule reads_bind [OF reads_u64], goal_cases)
    case 1
    have until: "(if u = - 1 then rd_return None else if u \<le> kv_valid_from_ms v then rd_fail ReversedValidity
        else rd_return (Some u)) = rd_return (kv_valid_until_ms v)"
      if "u = (case kv_valid_until_ms v of None \<Rightarrow> - 1 | Some until \<Rightarrow> until)" for u
      using that assms(2) by (auto simp: version_ok_def split: option.splits)
    have state: "(if b = 0 then rd_return KeyActive else if b = 1 then rd_return KeyRevoked else rd_fail BadKeyState)
        = rd_return (kv_state v)" if "b = (case kv_state v of KeyActive \<Rightarrow> 0 | KeyRevoked \<Rightarrow> 1)" for b :: u8
      using that by (cases "kv_state v") auto
    show ?case
      unfolding until [OF refl] rd_bind_simps
    proof (rule reads_bind [OF reads_u8], goal_cases)
      case 1
      show ?case
        unfolding state [OF refl] rd_bind_simps
      proof (rule reads_bind [OF reads_take], goal_cases)
        case 1
        then show ?case using assms(2) by (simp add: version_ok_def)
      next
        case 2
        have pub: "ka_public_from_bytes api (kv_public v) = Some (kv_public v)" using assms(2) by (simp add: version_ok_def)
        have rec: "\<lparr>kv_public = kv_public v, kv_private = kv_private v, kv_state = kv_state v,
            kv_valid_from_ms = kv_valid_from_ms v, kv_valid_until_ms = kv_valid_until_ms v\<rparr> = v" by simp
        show ?case
          unfolding pub option.case rd_bind_simps
          by (rule reads_bind_end [OF reads_blob [OF blob]]) (simp only: again rd_bind_simps rec reads_return)
      qed
    qed
  qed
qed

lemma bm_insert_last: "bm_invar (m @ [(k, v)]) \<Longrightarrow> bm_insert k v m = m @ [(k, v)]"
  by (induction m) (auto simp: bm_invar_def)

lemma bm_get_last: "bm_invar (m @ [(k, v)]) \<Longrightarrow> bm_get m k = None"
  by (induction m) (auto simp: bm_invar_def bm_get_def)

lemma unat_count: "n \<le> MAX_ENTRY_COUNT \<Longrightarrow> unat (of_nat n :: u32) = n"
  by (simp add: unat_of_nat take_bit_nat_eq_self MAX_ENTRY_COUNT_def)

lemma reads_signer:
  assumes api: "api_ok api" and ok: "signer_ok api (s, vs)" and put: "put_signer api p (s, vs) = Ok enc"
    and keys: "bm_invar (keys @ [(s, vs)])"
  shows "reads (read_signer api p keys) enc (keys @ [(s, vs)])"
proof -
  obtain name encs where name: "put_string s = Ok name"
    and encs: "list_all2 (\<lambda>v e. put_version api p s v = Ok e) vs encs"
    and enc: "enc = name @ put_u32 (of_nat (length vs)) @ concat encs"
    using put by (auto simp: put_signer_def result_ok collect_results_Ok)
  have valid: "valid_str s" "s \<noteq> []" "length (as_bytes s) \<le> MAX_SIGNER_ID_BYTES"
    and count: "vs \<noteq> []" "unat (of_nat (length vs) :: u32) = length vs" "length vs \<le> MAX_ENTRY_COUNT"
    using ok by (auto simp: signer_ok_def unat_count)
  then have nonzero: "(of_nat (length vs) :: u32) \<noteq> 0" by (metis length_0_conv unat_eq_zero)
  have len: "length encs = length vs" using encs by (simp add: list_all2_lengthD)
  let ?body = "\<lambda>vs. rd_bind (read_version api p s) (\<lambda>v. rd_return (vs @ [v]))"
  have "reads (?body (take i vs)) (encs ! i) (take (Suc i) vs)" if "i < length encs" for i
  proof -
    have "version_ok api (vs ! i)" "put_version api p s (vs ! i) = Ok (encs ! i)"
      using that len ok encs by (auto simp: signer_ok_def list_all_length list_all2_conv_all_nth)
    then show ?thesis
      using reads_map [OF reads_version [OF api], of "vs ! i" p s "encs ! i" "\<lambda>v. take i vs @ [v]"] that len
      by (simp add: take_Suc_conv_app_nth)
  qed
  then have versions: "reads (read_times (length vs) ?body []) (concat encs) vs"
    using reads_times [of encs ?body "\<lambda>i. take i vs"] len by simp
  show ?thesis
    unfolding read_signer_def enc
    using valid count nonzero keys
    by (intro reads_bind [OF reads_string [OF valid(1) name]])
       (simp add: not_less, intro reads_bind [OF reads_u32],
        simp add: not_less, rule reads_bind_end [OF versions], simp add: bm_get_last bm_insert_last reads_return)
qed

lemma reads_signers:
  assumes "api_ok api" and "list_all (signer_ok api) keys" and "bm_invar keys"
    and "list_all2 (\<lambda>x e. put_signer api p x = Ok e) keys encs"
  shows "reads (read_times (length keys) (read_signer api p) []) (concat encs) keys"
proof -
  have len: "length encs = length keys" using assms(4) by (simp add: list_all2_lengthD)
  have "reads (read_signer api p (take i keys)) (encs ! i) (take (Suc i) keys)" if "i < length encs" for i
  proof -
    obtain s vs where e: "keys ! i = (s, vs)" by (cases "keys ! i")
    have prefix: "take (Suc i) keys = take i keys @ [(s, vs)]" using that len e by (simp add: take_Suc_conv_app_nth)
    have "bm_invar (take (Suc i) keys)"
      using assms(3) by (simp add: bm_invar_def flip: take_map)
    then have "bm_invar (take i keys @ [(s, vs)])" by (simp add: prefix)
    moreover have "signer_ok api (s, vs)" "put_signer api p (s, vs) = Ok (encs ! i)"
      using that len e assms(2,4) by (auto simp: list_all_length list_all2_conv_all_nth)
    ultimately show ?thesis
      unfolding prefix by (intro reads_signer [OF assms(1)])
  qed
  then show ?thesis using reads_times [of encs "read_signer api p" "\<lambda>i. take i keys"] len by simp
qed

section \<open>Round trip of the file\<close>

definition file_header :: "persistent_keyring \<Rightarrow> bytes" where
  "file_header k = FILE_MAGIC @ [FILE_VERSION] @ [protection_byte (kr_protection k)] @
     [if kr_quarantined k then 1 else 0] @ [0] @ put_u32 (of_nat (length (kr_keys k)))"

lemma keyring_body_Ok:
  "keyring_body api k = Ok body \<longleftrightarrow>
     (\<exists>encs. list_all2 (\<lambda>x e. put_signer api (kr_protection k) x = Ok e) (kr_keys k) encs \<and> body = file_header k @ concat encs)"
  by (auto simp: keyring_body_def result_ok collect_results_Ok file_header_def bm_len_def)

lemma protection_from_byte_inverse [simp]: "protection_from_byte (protection_byte p) = Ok p"
  by (cases p) (simp_all add: protection_from_byte_def)

text \<open>The header, whatever follows it: the reader gets to the signers.\<close>

definition read_keys :: "keyring_api \<Rightarrow> str \<Rightarrow> persistent_keyring \<Rightarrow> u32 \<Rightarrow> persistent_keyring reading" where
  "read_keys api path k n =
     (if unat n > MAX_ENTRY_COUNT then rd_fail TooManySigners
      else rd_bind (read_times (unat n) (read_signer api (kr_protection k)) []) (\<lambda>keys.
        rd_bind (\<lambda>r. if reader_remaining r \<noteq> 0 then Err (CorruptFile TrailingData) else Ok ((), r)) (\<lambda>_.
          rd_return \<lparr>kr_path = path, kr_protection = kr_protection k, kr_quarantined = kr_quarantined k, kr_keys = keys\<rparr>)))"

lemma rd_bind_at:
  assumes "reads p e x" and "take (length e) (drop n B) = e" and "n \<le> length B" and "length B < 2 ^ 64"
  shows "rd_bind p f \<lparr>rd_bytes = B, rd_position = n\<rparr> = f x \<lparr>rd_bytes = B, rd_position = n + length e\<rparr>"
proof -
  have B: "take n B @ e @ drop (n + length e) B = B"
    by (metis append_take_drop_id assms(2) drop_drop add.commute)
  have "p \<lparr>rd_bytes = B, rd_position = n\<rparr> = Ok (x, \<lparr>rd_bytes = B, rd_position = n + length e\<rparr>)"
    using assms(1) [unfolded reads_def, rule_format, of "take n B" "drop (n + length e) B", unfolded B] assms(3,4) by simp
  then show ?thesis by (simp add: rd_bind_def)
qed

lemma length_magic [simp]: "length FILE_MAGIC = 16"
  by (simp add: FILE_MAGIC_def as_bytes_def utf8_char_def)

lemma read_body_header:
  assumes protection: "ensure_protection (ka_os_supported api) (kr_protection k) policy = Ok ()"
    and short: "length (file_header k @ rest) < 2 ^ 64"
  shows "read_body api policy path \<lparr>rd_bytes = file_header k @ rest, rd_position = 0\<rparr> =
    read_keys api path k (of_nat (length (kr_keys k))) \<lparr>rd_bytes = file_header k @ rest, rd_position = 24\<rparr>"
proof -
  define B where "B = file_header k @ rest"
  have len: "length B < 2 ^ 64" using short by (simp add: B_def)
  note at = rd_bind_at [OF _ _ _ len]
  have magic: "rd_bind (reader_take 16) f \<lparr>rd_bytes = B, rd_position = 0\<rparr> = f FILE_MAGIC \<lparr>rd_bytes = B, rd_position = 16\<rparr>"
    for f :: "bytes \<Rightarrow> persistent_keyring reading"
    using at [OF reads_take [OF length_magic], of 0 f] by (simp add: B_def file_header_def)
  have byte: "rd_bind reader_u8 f \<lparr>rd_bytes = B, rd_position = n\<rparr> = f (B ! n) \<lparr>rd_bytes = B, rd_position = Suc n\<rparr>"
    if "n < length B" for f :: "u8 \<Rightarrow> persistent_keyring reading" and n
    using at [OF reads_u8 [of "B ! n"], of n f] that by (simp add: take_Suc hd_drop_conv_nth)
  have count: "rd_bind reader_u32 f \<lparr>rd_bytes = B, rd_position = 20\<rparr> =
      f (of_nat (length (kr_keys k))) \<lparr>rd_bytes = B, rd_position = 24\<rparr>" for f :: "u32 \<Rightarrow> persistent_keyring reading"
    using at [OF reads_u32 [of "of_nat (length (kr_keys k))"], of 20 f] by (simp add: B_def file_header_def)
  have nth: "B ! 16 = FILE_VERSION" "B ! 17 = protection_byte (kr_protection k)"
    "B ! 18 = (if kr_quarantined k then 1 else 0)" "B ! 19 = 0" and long: "24 \<le> length B"
    by (simp_all add: B_def file_header_def nth_append)
  show ?thesis
    unfolding B_def [symmetric] read_body_def read_keys_def
    using long protection by (simp add: magic byte count nth)
qed

lemma seal_verify:
  assumes "api_ok api" and "seal_checksum api p body = Ok sealed"
  shows "verify_sealed_checksum api p body sealed = Ok () \<and> 32 \<le> length sealed \<and> length sealed \<le> MAX_BLOB_BYTES"
  using assms
  by (cases p) (fastforce simp: seal_checksum_def verify_sealed_checksum_def api_ok_def MAX_BLOB_BYTES_def)+

lemma keyring_parse_bytes:
  assumes "api_ok api" and "keyring_bytes api k = Ok bs"
    and protection: "ensure_protection (ka_os_supported api) (kr_protection k) policy = Ok ()"
  obtains body where "keyring_body api k = Ok body" and "length body \<le> length bs"
    and "keyring_parse api policy path bs =
      and_then (read_body api policy path \<lparr>rd_bytes = body, rd_position = 0\<rparr>) (\<lambda>(k, _). Ok k)"
proof -
  obtain body sealed where body: "keyring_body api k = Ok body" and seal: "seal_checksum api (kr_protection k) body = Ok sealed"
    and bs: "bs = body @ sealed @ put_u32 (of_nat (length sealed))"
    using assms(2) by (auto simp: keyring_bytes_def result_ok)
  obtain rest where hdr: "body = file_header k @ rest" using body by (auto simp: keyring_body_Ok)
  have sealed: "verify_sealed_checksum api (kr_protection k) body sealed = Ok ()" "32 \<le> length sealed"
      "length sealed \<le> MAX_BLOB_BYTES" using seal_verify [OF assms(1) seal] by simp_all
  have "24 \<le> length body" "bs ! 17 = protection_byte (kr_protection k)"
    by (simp_all add: bs hdr file_header_def nth_append)
  moreover have "unat (of_nat (length sealed) :: u32) = length sealed"
    using sealed(3) by (simp add: unat_of_nat take_bit_nat_eq_self MAX_BLOB_BYTES_def)
  moreover have "from_le_bytes_u32 (put_u32 n) = n" for n by (simp add: put_u32_def)
  moreover have "length bs = length body + length sealed + 4" by (simp add: bs)
  moreover have "drop (length body + length sealed) bs = put_u32 (of_nat (length sealed))"
      "take (length body) bs = body" "take (length sealed) (drop (length body) bs) = sealed" by (simp_all add: bs)
  ultimately have "keyring_parse api policy path bs =
      and_then (read_body api policy path \<lparr>rd_bytes = body, rd_position = 0\<rparr>) (\<lambda>(k, _). Ok k)"
    using sealed protection unfolding keyring_parse_def by (auto simp: Let_def)
  then show thesis using that body by (simp add: bs)
qed

text \<open>For a ring within the limits of the format, whatever \<open>save\<close> writes \<open>load\<close> reads back.\<close>

lemma file_round_trip:
  assumes api: "api_ok api" and ok: "keyring_ok api k" and save: "keyring_bytes api k = Ok bs"
    and protection: "ensure_protection (ka_os_supported api) (kr_protection k) policy = Ok ()"
    and memory: "length bs < 2 ^ 64"
  shows "keyring_parse api policy (kr_path k) bs = Ok k"
proof -
  obtain body where body: "keyring_body api k = Ok body" "length body \<le> length bs"
    and parse: "keyring_parse api policy (kr_path k) bs =
      and_then (read_body api policy (kr_path k) \<lparr>rd_bytes = body, rd_position = 0\<rparr>) (\<lambda>(k, _). Ok k)"
    by (rule keyring_parse_bytes [OF api save protection])
  obtain encs where encs: "list_all2 (\<lambda>x e. put_signer api (kr_protection k) x = Ok e) (kr_keys k) encs"
    and hdr: "body = file_header k @ concat encs" using body(1) by (auto simp: keyring_body_Ok)
  have short: "length (file_header k @ concat encs) < 2 ^ 64" using body(2) memory hdr by simp
  have count: "unat (of_nat (length (kr_keys k)) :: u32) = length (kr_keys k)" "\<not> length (kr_keys k) > MAX_ENTRY_COUNT"
    using ok by (auto simp: keyring_ok_def unat_count)
  have hlen: "length (file_header k) = 24" by (simp add: file_header_def)
  have keys: "reads (read_times (length (kr_keys k)) (read_signer api (kr_protection k)) []) (concat encs) (kr_keys k)"
    using ok by (intro reads_signers [OF api _ _ encs]) (simp_all add: keyring_ok_def)
  have "read_keys api (kr_path k) k (of_nat (length (kr_keys k))) \<lparr>rd_bytes = body, rd_position = 24\<rparr> =
      Ok (k, \<lparr>rd_bytes = body, rd_position = length body\<rparr>)"
  proof -
    have "\<lparr>kr_path = kr_path k, kr_protection = kr_protection k, kr_quarantined = kr_quarantined k, kr_keys = kr_keys k\<rparr> = k"
      by simp
    note rec = this
    have step: "rd_bind (read_times (length (kr_keys k)) (read_signer api (kr_protection k)) []) f \<lparr>rd_bytes = body, rd_position = 24\<rparr>
        = f (kr_keys k) \<lparr>rd_bytes = body, rd_position = length body\<rparr>"
      for f :: "(str, key_version list) btree_map \<Rightarrow> persistent_keyring reading"
      using rd_bind_at [OF keys, of 24 body f] short hlen by (simp add: hdr)
    show ?thesis
      unfolding read_keys_def using count
      by (simp add: step) (simp only: rec rd_bind_def reader_remaining_def, simp add: rd_return_def)
  qed
  then have "read_body api policy (kr_path k) \<lparr>rd_bytes = body, rd_position = 0\<rparr> =
      Ok (k, \<lparr>rd_bytes = body, rd_position = length body\<rparr>)"
    using read_body_header [OF protection short] by (simp add: hdr)
  then show ?thesis by (simp add: parse)
qed

text \<open>The reader refuses what \<open>save\<close> writes for a ring with more than 4096 signers.\<close>

lemma oversized_file_refused:
  assumes api: "api_ok api" and save: "keyring_bytes api k = Ok bs"
    and protection: "ensure_protection (ka_os_supported api) (kr_protection k) policy = Ok ()"
    and memory: "length bs < 2 ^ 64"
    and many: "MAX_ENTRY_COUNT < length (kr_keys k)" and fits: "length (kr_keys k) < 2 ^ 32"
  shows "keyring_parse api policy path bs = Err (CorruptFile TooManySigners)"
proof -
  obtain body where body: "keyring_body api k = Ok body" "length body \<le> length bs"
    and parse: "keyring_parse api policy path bs =
      and_then (read_body api policy path \<lparr>rd_bytes = body, rd_position = 0\<rparr>) (\<lambda>(k, _). Ok k)"
    by (rule keyring_parse_bytes [OF api save protection])
  obtain rest where hdr: "body = file_header k @ rest" using body(1) by (auto simp: keyring_body_Ok)
  have short: "length (file_header k @ rest) < 2 ^ 64" using body(2) memory hdr by simp
  have "unat (of_nat (length (kr_keys k)) :: u32) = length (kr_keys k)"
    using fits by (simp add: unat_of_nat take_bit_nat_eq_self)
  then show ?thesis
    using many read_body_header [OF protection short] by (simp add: parse hdr read_keys_def rd_fail_def)
qed

section \<open>Every history can be saved and loaded\<close>

definition key_ok :: "keyring_api \<Rightarrow> public_key \<Rightarrow> bool" where
  "key_ok api p \<longleftrightarrow> length p = 32 \<and> ka_public_from_bytes api p = Some p"

text \<open>Arguments a caller can pass: strings of characters, keys of the right form, and a clock that
  leaves room for the grace period.\<close>

fun call_ok :: "keyring_api \<Rightarrow> keyring_call \<Rightarrow> bool" where
  "call_ok api (CallInsertPrivate s sk) \<longleftrightarrow> valid_str s \<and> length sk = 32 \<and> key_ok api (ka_verifying_key api sk)"
| "call_ok api (CallInsertPublic s p) \<longleftrightarrow> valid_str s \<and> key_ok api p"
| "call_ok api (CallRotate s sk now) \<longleftrightarrow>
     length sk = 32 \<and> key_ok api (ka_verifying_key api sk) \<and> unat now + unat ROTATION_GRACE_PERIOD_MS < 2 ^ 64 - 1"
| "call_ok api _ \<longleftrightarrow> True"

definition entry_sound :: "keyring_api \<Rightarrow> str \<times> key_version list \<Rightarrow> bool" where
  "entry_sound api = (\<lambda>(s, vs). valid_str s \<and> s \<noteq> [] \<and> length (as_bytes s) \<le> MAX_SIGNER_ID_BYTES \<and>
     vs \<noteq> [] \<and> list_all (version_ok api) vs)"

definition keyring_sound :: "keyring_api \<Rightarrow> persistent_keyring \<Rightarrow> bool" where
  "keyring_sound api k \<longleftrightarrow> bm_invar (kr_keys k) \<and> list_all (entry_sound api) (kr_keys k)"

lemma keyring_ok_sound:
  "keyring_ok api k \<longleftrightarrow> keyring_sound api k \<and> length (kr_keys k) \<le> MAX_ENTRY_COUNT \<and>
     (\<forall>(s, vs) \<in> set (kr_keys k). length vs \<le> MAX_ENTRY_COUNT)"
  by (auto simp: keyring_ok_def keyring_sound_def signer_ok_def entry_sound_def list_all_iff)

lemma set_bm_insert_subset: "set (bm_insert k v m) \<subseteq> insert (k, v) (set m)"
  by (induction m) auto

lemma keyring_sound_insert:
  assumes "keyring_sound api k" and "entry_sound api (s, vs)"
  shows "keyring_sound api (k\<lparr>kr_keys := bm_insert s vs (kr_keys k)\<rparr>)"
  using assms set_bm_insert_subset [of s vs "kr_keys k"]
  by (auto simp: keyring_sound_def list_all_iff bm_invar_insert)

lemma keyring_sound_get: "keyring_sound api k \<Longrightarrow> bm_get (kr_keys k) s = Some vs \<Longrightarrow> entry_sound api (s, vs)"
  by (auto simp: keyring_sound_def list_all_iff bm_get_def dest: map_of_SomeD)

lemma first_version_ok:
  "key_ok api p \<Longrightarrow> (\<And>x. sk = Some x \<Longrightarrow> length x = 32 \<and> ka_verifying_key api x = p) \<Longrightarrow> version_ok api (first_version p sk)"
  by (auto simp: version_ok_def key_ok_def first_version_def)

lemma unat_all_ones: "unat (- 1 :: u64) = 18446744073709551615"
  by (simp add: unsigned_minus_1_eq_mask mask_eq_exp_minus_1)

lemma retire_version_ok:
  assumes "version_ok api v" and "unat now + unat ROTATION_GRACE_PERIOD_MS < 2 ^ 64 - 1"
  shows "version_ok api (retire_version now v)"
proof -
  have sat: "saturating_add now ROTATION_GRACE_PERIOD_MS = now + ROTATION_GRACE_PERIOD_MS"
    and unat: "unat (now + ROTATION_GRACE_PERIOD_MS) = unat now + unat ROTATION_GRACE_PERIOD_MS"
    using assms(2) by (simp_all add: saturating_add_def checked_add_def unat_add_lem [THEN iffD1])
  have "unat (now + ROTATION_GRACE_PERIOD_MS) \<noteq> unat (- 1 :: u64)" using assms(2) unat by (simp add: unat_all_ones)
  moreover have "now < now + ROTATION_GRACE_PERIOD_MS"
    unfolding word_less_nat_alt unat by (simp add: ROTATION_GRACE_PERIOD_MS_def)
  ultimately show ?thesis
    using assms(1) sat by (auto simp: retire_version_def version_ok_def version_is_valid_def)
qed

lemma register_sound:
  assumes "keyring_sound api k" and "valid_str s" and "version_ok api v" and "register s v k = Ok k'"
  shows "keyring_sound api k'"
  using assms by (auto simp: register_Ok validate_signer_id_def result_ok entry_sound_def intro!: keyring_sound_insert)

lemma keyring_call_sound:
  assumes sound: "keyring_sound api k" and call: "call_ok api c"
  shows "keyring_sound api (run_keyring_call (ka_verifying_key api) c k)"
proof (cases c)
  case (CallInsertPrivate s sk)
  then have "version_ok api (first_version (ka_verifying_key api sk) (Some sk))"
    using call by (intro first_version_ok) auto
  then show ?thesis
    using call sound register_sound [OF sound, of s "first_version (ka_verifying_key api sk) (Some sk)"] CallInsertPrivate
    by (auto simp: updated_def insert_private_def split: sum.splits)
next
  case (CallInsertPublic s p)
  then have "version_ok api (first_version p None)"
    using call by (intro first_version_ok) auto
  then show ?thesis
    using call sound register_sound [OF sound, of s "first_version p None"] CallInsertPublic
    by (auto simp: updated_def insert_public_def split: sum.splits)
next
  case (CallRevoke s)
  then show ?thesis
    using sound keyring_sound_get [OF sound, of s]
    by (auto simp: updated_def keyring_revoke_def entry_sound_def list_all_iff version_ok_def
        intro!: keyring_sound_insert split: option.splits)
next
  case (CallRotate s sk now)
  have new: "version_ok api (new_version (ka_verifying_key api) sk now)"
    using call CallRotate by (simp add: version_ok_def new_version_def key_ok_def)
  show ?thesis
  proof (cases "rotate (ka_verifying_key api) s sk now k")
    case (Inr k')
    then obtain vs where vs: "bm_get (kr_keys k) s = Some vs"
      and k': "k' = k\<lparr>kr_keys := bm_insert s (map (retire_version now) vs @ [new_version (ka_verifying_key api) sk now]) (kr_keys k)\<rparr>"
      unfolding rotate_Ok by blast
    have "entry_sound api (s, map (retire_version now) vs @ [new_version (ka_verifying_key api) sk now])"
      using keyring_sound_get [OF sound vs] new call CallRotate
      by (auto simp: entry_sound_def list_all_iff retire_version_ok)
    with Inr k' sound show ?thesis by (simp add: CallRotate updated_def keyring_sound_insert)
  qed (simp add: CallRotate updated_def sound)
qed (use sound in \<open>auto simp: updated_def keyring_quarantine_def release_quarantine_def keyring_sound_def split: sum.splits\<close>)

lemma keyring_calls_sound:
  "keyring_sound api k \<Longrightarrow> list_all (call_ok api) cs \<Longrightarrow> keyring_sound api (fold (run_keyring_call (ka_verifying_key api)) cs k)"
  by (induction cs arbitrary: k) (simp_all add: keyring_call_sound)

lemma keyring_calls_path:
  "kr_path (fold (run_keyring_call vk) cs r) = kr_path r \<and> kr_protection (fold (run_keyring_call vk) cs r) = kr_protection r"
proof -
  have "kr_path (run_keyring_call vk c r) = kr_path r \<and> kr_protection (run_keyring_call vk c r) = kr_protection r" for c r
    by (cases c) (auto simp: updated_def insert_private_def insert_public_def register_Ok keyring_revoke_def
        keyring_quarantine_def release_quarantine_def rotate_Ok split: sum.splits option.splits)
  then show ?thesis by (induction cs arbitrary: r) simp_all
qed

text \<open>What a history on a new ring leaves behind.\<close>

lemma keyring_history:
  assumes "keyring_new os path p policy = Ok k0" and "list_all (call_ok api) cs"
    and "k = fold (run_keyring_call (ka_verifying_key api)) cs k0"
  shows "kr_path k = path" "kr_protection k = p" "ensure_protection os p policy = Ok ()" "keyring_sound api k"
proof -
  have new: "ensure_protection os p policy = Ok ()" "k0 = \<lparr>kr_path = path, kr_protection = p, kr_quarantined = False, kr_keys = []\<rparr>"
    using assms(1) by (auto simp: keyring_new_def result_ok)
  then show "kr_path k = path" "kr_protection k = p" "ensure_protection os p policy = Ok ()"
    by (simp_all add: assms(3) keyring_calls_path)
  show "keyring_sound api k"
    unfolding assms(3) by (rule keyring_calls_sound [OF _ assms(2)]) (simp add: new keyring_sound_def bm_invar_def)
qed

text \<open>C27: A key ring survives a restart: after any history of registrations, revocations,
  quarantines and rotations of a new ring, what \<open>save\<close> writes \<open>load\<close> reads back to exactly the
  same ring, as long as neither the signers nor the versions of one signer exceed 4096, the OS
  store returns what it was given, and no rotation happened within a day of the end of the
  64-bit clock.\<close>

theorem keyring_survives_restart:
  assumes "api_ok api" and "keyring_new (ka_os_supported api) path p policy = Ok k0"
    and "list_all (call_ok api) cs" and "k = fold (run_keyring_call (ka_verifying_key api)) cs k0"
    and "length (kr_keys k) \<le> MAX_ENTRY_COUNT" and "\<forall>(s, vs) \<in> set (kr_keys k). length vs \<le> MAX_ENTRY_COUNT"
    and "keyring_bytes api k = Ok bs" and "length bs < 2 ^ 64"
  shows "keyring_parse api policy path bs = Ok k"
proof -
  note k = keyring_history [OF assms(2-4)]
  show ?thesis
    using file_round_trip [OF assms(1) _ assms(7) _ assms(8)] k assms(5,6) by (simp add: keyring_ok_sound)
qed

section \<open>Rings that lock themselves out\<close>

text \<open>When the OS store protects keys and checksums, a ring with sound entries is saved, however many there are.\<close>

lemma put_version_total:
  assumes "api_ok api" "version_ok api v" "p \<noteq> K2HardwareBacked" "\<And>label b. length b = 32 \<Longrightarrow> \<not> isl (ka_os_protect api label b)"
  shows "\<exists>e. put_version api p s v = Ok e"
proof -
  have "\<exists>b. (case kv_private v of None \<Rightarrow> Ok [] | Some raw \<Rightarrow> protect_private_key api p s raw) = Ok b \<and> length b \<le> MAX_BLOB_BYTES"
  proof (cases "kv_private v")
    case (Some raw)
    then have raw: "length raw = 32" using assms(2) by (simp add: version_ok_def)
    then obtain c where c: "ka_os_protect api s raw = Ok c" using assms(4) [OF raw, of s] by (cases "ka_os_protect api s raw") auto
    then have "length c \<le> MAX_BLOB_BYTES" using assms(1) by (auto simp: api_ok_def)
    with c raw Some assms(3) show ?thesis by (cases p) (auto simp: protect_private_key_def MAX_BLOB_BYTES_def)
  qed simp
  then show ?thesis by (auto simp: put_version_def put_blob_def MAX_BLOB_BYTES_def)
qed

lemma put_signer_total:
  assumes "api_ok api" "entry_sound api x" "p \<noteq> K2HardwareBacked" "\<And>label b. length b = 32 \<Longrightarrow> \<not> isl (ka_os_protect api label b)"
  shows "\<exists>e. put_signer api p x = Ok e"
proof -
  obtain s vs where x: "x = (s, vs)" by (cases x)
  have "\<forall>v \<in> set vs. \<exists>e. put_version api p s v = Ok e"
    using assms(2) put_version_total [OF assms(1) _ assms(3,4)] by (simp add: x entry_sound_def list_all_iff)
  then obtain es where "collect_results (put_version api p s) vs = Ok es" using collect_results_total by blast
  with assms(2) show ?thesis
    by (simp add: x entry_sound_def put_signer_def put_string_def put_blob_def MAX_SIGNER_ID_BYTES_def MAX_BLOB_BYTES_def)
qed

lemma keyring_bytes_total:
  assumes "api_ok api" "keyring_sound api k" "kr_protection k \<noteq> K2HardwareBacked"
    and "\<And>label b. length b = 32 \<Longrightarrow> \<not> isl (ka_os_protect api label b)"
  shows "\<exists>bs. keyring_bytes api k = Ok bs"
proof -
  have "\<forall>x \<in> set (kr_keys k). \<exists>e. put_signer api (kr_protection k) x = Ok e"
    using assms(2) put_signer_total [OF assms(1) _ assms(3,4)] by (simp add: keyring_sound_def list_all_iff)
  then obtain es where "collect_results (put_signer api (kr_protection k)) (kr_keys k) = Ok es" using collect_results_total by blast
  then obtain body where "keyring_body api k = Ok body" by (simp add: keyring_body_def)
  moreover have "\<exists>c. seal_checksum api (kr_protection k) body = Ok c"
    using assms(1,3) assms(4) [of "ka_blake3 api body" FILE_MAC_LABEL]
    by (cases "ka_os_protect api FILE_MAC_LABEL (ka_blake3 api body)"; cases "kr_protection k") (auto simp: seal_checksum_def api_ok_def)
  ultimately show ?thesis by (auto simp: keyring_bytes_def)
qed

text \<open>C29: A key ring with more than 4096 signers locks itself out. After any history of operations that
  leaves a new ring with that many signers (none of the operations limits their number), \<open>save\<close> succeeds
  in encoding it and hands the file to the system to write, provided the OS store protects keys
  and checksums of 32 bytes; and \<open>load\<close> refuses this very file.\<close>

theorem oversized_keyring_cannot_be_loaded:
  assumes "api_ok api" and "keyring_new (ka_os_supported api) path p policy = Ok k0"
    and "list_all (call_ok api) cs" and "k = fold (run_keyring_call (ka_verifying_key api)) cs k0"
    and "MAX_ENTRY_COUNT < length (kr_keys k)" and "length (kr_keys k) < 2 ^ 32"
    and "\<And>label b. length b = 32 \<Longrightarrow> \<not> isl (ka_os_protect api label b)"
  shows "\<exists>bs. keyring_bytes api k = Ok bs \<and>
    (\<forall>fs_write files. keyring_save api fs_write k files = fs_write path bs files) \<and>
    (length bs < 2 ^ 64 \<longrightarrow> keyring_parse api policy path bs = Err (CorruptFile TooManySigners))"
proof -
  note k = keyring_history [OF assms(2-4)]
  have "kr_protection k \<noteq> K2HardwareBacked" using k(2,3) by (auto simp: ensure_protection_def)
  from keyring_bytes_total [OF assms(1) k(4) this assms(7)] obtain bs where bs: "keyring_bytes api k = Ok bs" by blast
  have "keyring_parse api policy path bs = Err (CorruptFile TooManySigners)" if "length bs < 2 ^ 64"
    by (rule oversized_file_refused [OF assms(1) bs _ that assms(5,6)]) (simp add: k)
  with bs k(1) show ?thesis by (auto simp: keyring_save_def)
qed

section \<open>Instances\<close>

definition example_keyring_api :: keyring_api where
  "example_keyring_api =
     \<lparr>ka_blake3 = (\<lambda>_. replicate 32 0), ka_verifying_key = id,
      ka_public_from_bytes = (\<lambda>b. if length b = 32 then Some b else None), ka_os_supported = True,
      ka_os_protect = (\<lambda>_ b. if length b < MAX_BLOB_BYTES then Ok (b @ [1]) else Err OsProtectionFailed),
      ka_os_unprotect = (\<lambda>_ c. Ok (butlast c))\<rparr>"

lemma example_keyring_api_ok: "api_ok example_keyring_api"
  by (auto simp: api_ok_def example_keyring_api_def split: if_splits)

lemma as_bytes_one: "length (as_bytes [c]) \<le> 4"
  by (simp add: as_bytes_def utf8_char_def)

definition example_entry :: "codepoint \<Rightarrow> str \<times> key_version list" where
  "example_entry c = ([c], [first_version (replicate 32 7) None])"

definition example_entry_bytes :: "codepoint \<Rightarrow> bytes" where
  "example_entry_bytes c = put_u32 (of_nat (length (as_bytes [c]))) @ as_bytes [c] @ put_u32 1 @
     put_u64 0 @ put_u64 (- 1) @ [0] @ replicate 32 7 @ put_u32 0"

lemma put_example_entry: "put_signer api p (example_entry c) = Ok (example_entry_bytes c)"
  using as_bytes_one [of c]
  by (simp add: put_signer_def example_entry_def put_string_def put_blob_def put_version_def first_version_def
      example_entry_bytes_def MAX_SIGNER_ID_BYTES_def MAX_BLOB_BYTES_def)

lemma length_example_entry_bytes: "length (example_entry_bytes c) \<le> 100"
  using as_bytes_one [of c] by (simp add: example_entry_bytes_def)

definition example_many :: "nat \<Rightarrow> persistent_keyring" where
  "example_many n = \<lparr>kr_path = lit ''k'', kr_protection = K0Plaintext, kr_quarantined = False,
     kr_keys = map (\<lambda>i. example_entry (Suc i)) [0..<n]\<rparr>"

lemma example_many_bytes:
  "\<exists>bs. keyring_bytes example_keyring_api (example_many n) = Ok bs \<and> length bs \<le> 60 + n * 100"
proof -
  let ?encs = "map (\<lambda>i. example_entry_bytes (Suc i)) [0..<n]"
  have "list_all2 (\<lambda>x e. put_signer example_keyring_api K0Plaintext x = Ok e) (kr_keys (example_many n)) ?encs"
    by (simp add: example_many_def list_all2_conv_all_nth put_example_entry)
  then have body: "keyring_body example_keyring_api (example_many n) = Ok (file_header (example_many n) @ concat ?encs)"
    by (auto simp: keyring_body_Ok example_many_def)
  have "length (concat ?encs) \<le> n * 100"
  proof (induction n)
    case (Suc n)
    then show ?case using length_example_entry_bytes [of "Suc n"] by simp
  qed simp
  then show ?thesis
    using body by (simp add: keyring_bytes_def seal_checksum_def example_many_def example_keyring_api_def file_header_def)
qed

abbreviation example_inserts :: "nat \<Rightarrow> keyring_call list" where
  "example_inserts n \<equiv> map (\<lambda>i. CallInsertPublic [Suc i] (replicate 32 7)) [0..<n]"

abbreviation example_new :: persistent_keyring where
  "example_new \<equiv> \<lparr>kr_path = lit ''k'', kr_protection = K0Plaintext, kr_quarantined = False, kr_keys = []\<rparr>"

lemma example_history: "fold (run_keyring_call (ka_verifying_key example_keyring_api)) (example_inserts n) example_new = example_many n"
proof (induction n)
  case (Suc n)
  have inv: "bm_invar (kr_keys (example_many n) @ [([Suc n], vs)])" for vs
    by (auto simp: bm_invar_def sorted_wrt_append example_many_def example_entry_def sorted_wrt_map comp_def)
  note ins = bm_insert_last [OF inv]
  have "bm_get (kr_keys (example_many n)) [Suc n] = None" using bm_get_last [OF inv] .
  then have "insert_public [Suc n] (replicate 32 7) (example_many n) = Ok (example_many (Suc n))"
    using as_bytes_one [of "Suc n"] ins
    by (simp add: insert_public_def register_def validate_signer_id_def MAX_SIGNER_ID_BYTES_def)
      (simp add: example_many_def example_entry_def)
  with Suc show ?case by (simp add: updated_def)
qed (simp add: example_many_def)

theorem oversized_keyring_cannot_be_loaded_witness:
  "\<exists>bs. keyring_bytes example_keyring_api (example_many 4097) = Ok bs \<and>
     keyring_parse example_keyring_api PlaintextAllow (lit ''k'') bs = Err (CorruptFile TooManySigners)"
proof -
  have new: "keyring_new (ka_os_supported example_keyring_api) (lit ''k'') K0Plaintext PlaintextAllow = Ok example_new"
    by (simp add: keyring_new_def ensure_protection_def)
  have calls: "list_all (call_ok example_keyring_api) (example_inserts 4097)"
    by (auto simp: list_all_iff key_ok_def valid_str_def scalar_value_def example_keyring_api_def)
  have many: "MAX_ENTRY_COUNT < length (kr_keys (example_many 4097))" "length (kr_keys (example_many 4097)) < 2 ^ 32"
    by (simp_all add: example_many_def MAX_ENTRY_COUNT_def)
  have os: "\<not> isl (ka_os_protect example_keyring_api label b)" if "length b = 32" for label b
    using that by (simp add: example_keyring_api_def MAX_BLOB_BYTES_def)
  obtain bs where bs: "keyring_bytes example_keyring_api (example_many 4097) = Ok bs" "length bs \<le> 60 + 4097 * 100"
    using example_many_bytes by blast
  with oversized_keyring_cannot_be_loaded [OF example_keyring_api_ok new calls example_history [symmetric] many os]
  show ?thesis by simp
qed

theorem keyring_survives_restart_witness:
  "\<exists>k bs. k = fold (run_keyring_call (ka_verifying_key example_keyring_api))
       [CallInsertPublic [1] (replicate 32 7), CallQuarantine [1]]
       \<lparr>kr_path = lit ''k'', kr_protection = K0Plaintext, kr_quarantined = False, kr_keys = []\<rparr> \<and>
     keyring_bytes example_keyring_api k = Ok bs \<and>
     keyring_parse example_keyring_api PlaintextAllow (lit ''k'') bs = Ok k"
proof -
  let ?new = "\<lparr>kr_path = lit ''k'', kr_protection = K0Plaintext, kr_quarantined = False, kr_keys = []\<rparr>"
  let ?cs = "[CallInsertPublic [1] (replicate 32 7), CallQuarantine [1]]"
  let ?k = "fold (run_keyring_call (ka_verifying_key example_keyring_api)) ?cs ?new"
  have new: "keyring_new (ka_os_supported example_keyring_api) (lit ''k'') K0Plaintext PlaintextAllow = Ok ?new"
    by (simp add: keyring_new_def ensure_protection_def)
  have k: "?k = (example_many 1)\<lparr>kr_quarantined := True\<rparr>"
    by (simp add: insert_public_def register_def validate_signer_id_def as_bytes_def utf8_char_def MAX_SIGNER_ID_BYTES_def
        bm_get_def updated_def keyring_quarantine_def example_many_def example_entry_def)
  let ?ring = "(example_many 1)\<lparr>kr_quarantined := True\<rparr>"
  have body: "keyring_body example_keyring_api ?ring = Ok (file_header ?ring @ concat [example_entry_bytes 1])"
    unfolding keyring_body_Ok
    by (intro exI [of _ "[example_entry_bytes 1]"]) (simp add: example_many_def put_example_entry)
  have "\<exists>bs. keyring_bytes example_keyring_api ?ring = Ok bs \<and> length bs < 2 ^ 64"
    using length_example_entry_bytes [of 1] unfolding keyring_bytes_def body
    by (simp add: seal_checksum_def example_many_def example_keyring_api_def file_header_def)
  then obtain bs where bs: "keyring_bytes example_keyring_api ?ring = Ok bs" "length bs < 2 ^ 64" by blast
  have args: "list_all (call_ok example_keyring_api) ?cs"
    by (simp add: key_ok_def valid_str_def scalar_value_def example_keyring_api_def)
  have "keyring_parse example_keyring_api PlaintextAllow (lit ''k'') bs = Ok ?ring"
    by (rule keyring_survives_restart [OF example_keyring_api_ok new args k [symmetric] _ _ bs])
       (simp_all add: example_many_def example_entry_def MAX_ENTRY_COUNT_def)
  then show ?thesis unfolding k using bs(1) by blast
qed

end
