(* ===== verification/Ingress.thy ===== *)
theory Ingress
  imports Keyring_File
begin

text \<open>
  From bytes to verified messages: \<open>decode_and_verify\<close>
  (\<open>src/crates/crypto/src/ingress.rs\<close>) and the frames of a connection
  (\<open>src/crates/crypto/src/framed_ingress.rs\<close>).

  The protobuf decoder of each message type is the parameter \<open>decode\<close>: it gives the view of
  the message that verification reads (\<open>signable\<close>), whose domain and lifetime are fixed by the
  type. A connection is the bytes it still delivers and whether it then ends or fails; a read that
  finds too few bytes consumes them. The clock is read once per message.
\<close>

section \<open>One message\<close>

datatype key_directory_source =
    Persistent persistent_keyring
  | Provided "str \<Rightarrow> public_key list" "str \<Rightarrow> public_key list"

datatype ingress_error =
    DecodeError
  | Verification verify_error
  | ReplayStoreUnavailable replay_store_error

definition verify_decoded ::
  "(public_key \<Rightarrow> bytes \<Rightarrow> bytes \<Rightarrow> bool) \<Rightarrow> 'g replay_check \<Rightarrow> bool \<Rightarrow> u32 \<Rightarrow> (str \<Rightarrow> public_key list) \<Rightarrow>
   (str \<Rightarrow> public_key list) \<Rightarrow> u64 \<Rightarrow> signable \<Rightarrow> 'g \<Rightarrow> (ingress_error + verified) \<times> 'g" where
  "verify_decoded ed25519 check effective max_supported candidates retired now message g =
     (case verify check effective max_supported (verify_signature ed25519 candidates retired) now message g of
        (Inr v, g') \<Rightarrow> (Ok v, g')
      | (Inl (ReplayStore ReplayLockTimeout), g') \<Rightarrow> (Err (ReplayStoreUnavailable ReplayLockTimeout), g')
      | (Inl (ReplayStore error), g') \<Rightarrow> (Err (ReplayStoreUnavailable error), g')
      | (Inl error, g') \<Rightarrow> (Err (Verification error), g'))"

definition decode_and_verify ::
  "(public_key \<Rightarrow> bytes \<Rightarrow> bytes \<Rightarrow> bool) \<Rightarrow> 'g replay_check \<Rightarrow> bool \<Rightarrow> (bytes \<Rightarrow> signable option) \<Rightarrow> u32 \<Rightarrow>
   key_directory_source \<Rightarrow> u64 \<Rightarrow> bytes \<Rightarrow> 'g \<Rightarrow> (ingress_error + verified) \<times> 'g" where
  "decode_and_verify ed25519 check effective decode max_supported source now raw g =
     (case decode raw of None \<Rightarrow> (Err DecodeError, g)
      | Some message \<Rightarrow>
         (case source of
            Persistent k \<Rightarrow>
              verify_decoded ed25519 check effective max_supported (lookup_candidates k now) (lookup_retired k now) now message g
          | Provided candidates retired \<Rightarrow>
              verify_decoded ed25519 check effective max_supported candidates retired now message g))"

section \<open>Frames\<close>

datatype frame_type =
    FrManifest | FrGrant | FrLease | FrLeaseRenew | FrLeaseRevoke | FrAttemptReport | FrCheckpoint
  | FrArtifact | FrReplicaAck | FrGrantAck | FrLeaseRenewResult | FrSessionHello | FrLeaseResume
  | FrLeaseResumeResult | FrNodeHeartbeat | FrNeighborUnreachableReport | FrAttemptReportAck
  | FrGrantAckReceipt

fun frame_type_u8 :: "frame_type \<Rightarrow> u8" where
  "frame_type_u8 FrManifest = 1"
| "frame_type_u8 FrGrant = 2"
| "frame_type_u8 FrLease = 3"
| "frame_type_u8 FrLeaseRenew = 4"
| "frame_type_u8 FrLeaseRevoke = 5"
| "frame_type_u8 FrAttemptReport = 6"
| "frame_type_u8 FrCheckpoint = 7"
| "frame_type_u8 FrArtifact = 8"
| "frame_type_u8 FrReplicaAck = 9"
| "frame_type_u8 FrGrantAck = 10"
| "frame_type_u8 FrLeaseRenewResult = 11"
| "frame_type_u8 FrSessionHello = 12"
| "frame_type_u8 FrLeaseResume = 13"
| "frame_type_u8 FrLeaseResumeResult = 14"
| "frame_type_u8 FrNodeHeartbeat = 15"
| "frame_type_u8 FrNeighborUnreachableReport = 16"
| "frame_type_u8 FrAttemptReportAck = 17"
| "frame_type_u8 FrGrantAckReceipt = 18"

definition frame_type_from_u8 :: "u8 \<Rightarrow> frame_type option" where
  "frame_type_from_u8 v =
     map_of [(1, FrManifest), (2, FrGrant), (3, FrLease), (4, FrLeaseRenew), (5, FrLeaseRevoke),
       (6, FrAttemptReport), (7, FrCheckpoint), (8, FrArtifact), (9, FrReplicaAck), (10, FrGrantAck),
       (11, FrLeaseRenewResult), (12, FrSessionHello), (13, FrLeaseResume), (14, FrLeaseResumeResult),
       (15, FrNodeHeartbeat), (16, FrNeighborUnreachableReport), (17, FrAttemptReportAck),
       (18, FrGrantAckReceipt)] v"

text \<open>The domain of the message type each frame type is decoded as.\<close>

fun frame_domain :: "frame_type \<Rightarrow> domain" where
  "frame_domain FrManifest = DomManifest"
| "frame_domain FrGrant = DomGrant"
| "frame_domain FrLease = DomLease"
| "frame_domain FrLeaseRenew = DomLeaseRenew"
| "frame_domain FrLeaseRevoke = DomLeaseRevoke"
| "frame_domain FrAttemptReport = DomAttemptReport"
| "frame_domain FrCheckpoint = DomCheckpoint"
| "frame_domain FrArtifact = DomArtifact"
| "frame_domain FrReplicaAck = DomReplicaAck"
| "frame_domain FrGrantAck = DomGrantAck"
| "frame_domain FrLeaseRenewResult = DomLeaseRenewResult"
| "frame_domain FrSessionHello = DomSessionHello"
| "frame_domain FrLeaseResume = DomLeaseResume"
| "frame_domain FrLeaseResumeResult = DomLeaseResumeResult"
| "frame_domain FrNodeHeartbeat = DomNodeHeartbeat"
| "frame_domain FrNeighborUnreachableReport = DomNeighborUnreachableReport"
| "frame_domain FrAttemptReportAck = DomAttemptReportAck"
| "frame_domain FrGrantAckReceipt = DomGrantAckReceipt"

definition MAX_INGRESS_FRAME_BYTES :: u32 where "MAX_INGRESS_FRAME_BYTES = 8 * 1024 * 1024"

datatype framing_error =
    Truncated
  | FrameTooLarge u32 u32
  | UnknownFrameType u8
  | VerifyFailed ingress_error
  | FrameIo

record connection =
  cn_bytes :: bytes
  cn_fails :: bool

definition read_exact_or_truncated :: "usize \<Rightarrow> connection \<Rightarrow> (framing_error + bytes) \<times> connection" where
  "read_exact_or_truncated n c =
     (if n \<le> length (cn_bytes c) then (Ok (take n (cn_bytes c)), c\<lparr>cn_bytes := drop n (cn_bytes c)\<rparr>)
      else (Err (if cn_fails c then FrameIo else Truncated), c\<lparr>cn_bytes := []\<rparr>))"

definition from_be_bytes_u32 :: "bytes \<Rightarrow> u32" where
  "from_be_bytes_u32 bs = of_nat (be_value bs)"

type_synonym decoder = "frame_type \<Rightarrow> bytes \<Rightarrow> signable option"

definition read_frame ::
  "(public_key \<Rightarrow> bytes \<Rightarrow> bytes \<Rightarrow> bool) \<Rightarrow> 'g replay_check \<Rightarrow> bool \<Rightarrow> decoder \<Rightarrow> u32 \<Rightarrow> key_directory_source \<Rightarrow> u64 \<Rightarrow>
   connection \<Rightarrow> 'g \<Rightarrow> (framing_error + frame_type \<times> verified) \<times> connection \<times> 'g" where
  "read_frame ed25519 check effective decode max_supported source now c g =
     (case read_exact_or_truncated 5 c of
        (Inl e, c1) \<Rightarrow> (Err e, c1, g)
      | (Inr header, c1) \<Rightarrow>
          let claimed_len = from_be_bytes_u32 (tl header)
          in if claimed_len > MAX_INGRESS_FRAME_BYTES
             then (Err (FrameTooLarge claimed_len MAX_INGRESS_FRAME_BYTES), c1, g)
             else (case frame_type_from_u8 (hd header) of
                 None \<Rightarrow>
                   (case read_exact_or_truncated (unat claimed_len) c1 of
                      (Inl e, c2) \<Rightarrow> (Err e, c2, g)
                    | (Inr _, c2) \<Rightarrow> (Err (UnknownFrameType (hd header)), c2, g))
               | Some t \<Rightarrow>
                   (case read_exact_or_truncated (unat claimed_len) c1 of
                      (Inl e, c2) \<Rightarrow> (Err e, c2, g)
                    | (Inr body, c2) \<Rightarrow>
                        (case decode_and_verify ed25519 check effective (decode t) max_supported source now body g of
                           (Inl e, g') \<Rightarrow> (Err (VerifyFailed e), c2, g')
                         | (Inr v, g') \<Rightarrow> (Ok (t, v), c2, g')))))"

definition write_frame :: "frame_type \<Rightarrow> bytes \<Rightarrow> framing_error + bytes" where
  "write_frame t body =
     (if length body \<ge> 2 ^ 32 then Err (FrameTooLarge (- 1) MAX_INGRESS_FRAME_BYTES)
      else let len = of_nat (length body)
        in if len > MAX_INGRESS_FRAME_BYTES then Err (FrameTooLarge len MAX_INGRESS_FRAME_BYTES)
           else Ok (frame_type_u8 t # to_be_bytes_u32 len @ body))"

section \<open>The stream stays in step\<close>

lemma frame_type_round_trip [simp]: "frame_type_from_u8 (frame_type_u8 t) = Some t"
  by (cases t) (simp_all add: frame_type_from_u8_def)

definition raw_frame :: "u8 \<Rightarrow> bytes \<Rightarrow> bytes" where
  "raw_frame tag body = tag # to_be_bytes_u32 (of_nat (length body)) @ body"

abbreviation fits_frame :: "bytes \<Rightarrow> bool" where
  "fits_frame body \<equiv> length body \<le> unat MAX_INGRESS_FRAME_BYTES"

lemma unat_frame_length:
  "fits_frame body \<Longrightarrow> unat (of_nat (length body) :: u32) = length body"
  by (simp add: MAX_INGRESS_FRAME_BYTES_def unat_of_nat take_bit_nat_eq_self)

lemma write_frame_Ok: "write_frame t body = Ok enc \<longleftrightarrow> fits_frame body \<and> enc = raw_frame (frame_type_u8 t) body"
proof (cases "length body < 2 ^ 32")
  case True
  then have "unat (of_nat (length body) :: u32) = length body" by (simp add: unat_of_nat take_bit_nat_eq_self)
  then show ?thesis
    using True by (auto simp: write_frame_def raw_frame_def Let_def word_less_nat_alt not_less)
next
  case False
  then show ?thesis by (auto simp: write_frame_def MAX_INGRESS_FRAME_BYTES_def)
qed

text \<open>What one frame yields, apart from the connection.\<close>

definition frame_result ::
  "(public_key \<Rightarrow> bytes \<Rightarrow> bytes \<Rightarrow> bool) \<Rightarrow> 'g replay_check \<Rightarrow> bool \<Rightarrow> decoder \<Rightarrow> u32 \<Rightarrow> key_directory_source \<Rightarrow> u64 \<Rightarrow>
   u8 \<times> bytes \<Rightarrow> 'g \<Rightarrow> (framing_error + frame_type \<times> verified) \<times> 'g" where
  "frame_result ed25519 check effective decode max_supported source now frame g =
     (case frame_type_from_u8 (fst frame) of
        None \<Rightarrow> (Err (UnknownFrameType (fst frame)), g)
      | Some t \<Rightarrow>
          (case decode_and_verify ed25519 check effective (decode t) max_supported source now (snd frame) g of
             (Inl e, g') \<Rightarrow> (Err (VerifyFailed e), g')
           | (Inr v, g') \<Rightarrow> (Ok (t, v), g')))"

lemma from_be_bytes_u32_inverse [simp]: "from_be_bytes_u32 (to_be_bytes_u32 n) = n"
  by (simp add: from_be_bytes_u32_def be_value_to_be_bytes_u32)

lemma read_raw_frame:
  assumes "fits_frame body"
  shows "read_frame ed check eff decode m src now \<lparr>cn_bytes = raw_frame tag body @ rest, cn_fails = f\<rparr> g =
    (case frame_result ed check eff decode m src now (tag, body) g of
       (r, g') \<Rightarrow> (r, \<lparr>cn_bytes = rest, cn_fails = f\<rparr>, g'))"
proof -
  let ?len = "of_nat (length body) :: u32"
  have header: "read_exact_or_truncated 5 \<lparr>cn_bytes = raw_frame tag body @ rest, cn_fails = f\<rparr> =
      (Ok (tag # to_be_bytes_u32 ?len), \<lparr>cn_bytes = body @ rest, cn_fails = f\<rparr>)"
    by (simp add: read_exact_or_truncated_def raw_frame_def)
  have body: "read_exact_or_truncated (unat ?len) \<lparr>cn_bytes = body @ rest, cn_fails = f\<rparr> =
      (Ok body, \<lparr>cn_bytes = rest, cn_fails = f\<rparr>)"
    by (simp add: read_exact_or_truncated_def unat_frame_length [OF assms])
  have "\<not> ?len > MAX_INGRESS_FRAME_BYTES"
    using assms by (simp add: word_less_nat_alt unat_frame_length)
  then show ?thesis
    unfolding read_frame_def header frame_result_def
    by (simp add: body split: option.splits sum.splits prod.splits)
qed

text \<open>A reader that takes one frame per clock reading, and what the frames yield one after the
  other.\<close>

fun read_frames where
  "read_frames ed check eff decode m src [] c g = ([], c, g)"
| "read_frames ed check eff decode m src (now # nows) c g =
     (case read_frame ed check eff decode m src now c g of (r, c1, g1) \<Rightarrow>
        (case read_frames ed check eff decode m src nows c1 g1 of (rs, c2, g2) \<Rightarrow> (r # rs, c2, g2)))"

fun frame_results where
  "frame_results ed check eff decode m src [] g = ([], g)"
| "frame_results ed check eff decode m src ((now, frame) # rest) g =
     (case frame_result ed check eff decode m src now frame g of (r, g1) \<Rightarrow>
        (case frame_results ed check eff decode m src rest g1 of (rs, g2) \<Rightarrow> (r # rs, g2)))"

text \<open>A frame on the wire: what \<open>write_frame\<close> produces for a message, or a frame of an unknown
  type within the size limit.\<close>

definition wire_frame :: "u8 \<times> bytes \<Rightarrow> bytes \<Rightarrow> bool" where
  "wire_frame frame enc \<longleftrightarrow>
     (\<exists>t. fst frame = frame_type_u8 t \<and> write_frame t (snd frame) = Ok enc) \<or>
     (frame_type_from_u8 (fst frame) = None \<and> fits_frame (snd frame) \<and> enc = raw_frame (fst frame) (snd frame))"

lemma wire_frame_raw: "wire_frame (tag, body) enc \<Longrightarrow> fits_frame body \<and> enc = raw_frame tag body"
  by (auto simp: wire_frame_def write_frame_Ok)

text \<open>A connection stays in step: from a stream of frames as \<open>write_frame\<close> produces them, with
  any frames of unknown type between them, the reader obtains exactly one result per frame, in
  order, each being the outcome of decoding and verifying that frame's own body (or the report of
  its unknown type), and leaves what follows untouched. No frame that is rejected, for whatever
  reason, shifts the ones behind it.\<close>

theorem frames_arrive_in_order:
  assumes "list_all2 (\<lambda>(now, frame) enc. wire_frame frame enc) frames encs"
  shows "read_frames ed check eff decode m src (map fst frames) \<lparr>cn_bytes = concat encs @ rest, cn_fails = f\<rparr> g =
    (case frame_results ed check eff decode m src frames g of
       (rs, g') \<Rightarrow> (rs, \<lparr>cn_bytes = rest, cn_fails = f\<rparr>, g'))"
  using assms
proof (induction frames encs arbitrary: g rule: list_all2_induct)
  case (Cons x xs e es)
  obtain now tag body where x: "x = (now, tag, body)" by (cases x) auto
  then have "fits_frame body" "e = raw_frame tag body" using wire_frame_raw Cons.hyps(1) by auto
  then show ?case using Cons.IH by (simp add: x read_raw_frame split: prod.splits)
qed simp

section \<open>What an accepted frame proves\<close>

lemma verify_decoded_Ok:
  "verify_decoded ed check eff m cands ret now msg g = (Ok v, g') \<longleftrightarrow>
     verify check eff m (verify_signature ed cands ret) now msg g = (Ok v, g')"
  by (auto simp: verify_decoded_def split: prod.splits sum.splits verify_error.splits replay_store_error.splits)

lemma verify_Ok_signature:
  assumes "verify check eff m verifier now msg g = (Ok v, g')"
  shows "vf_inner v = msg \<and> vf_signer_id v = sg_signer_id msg \<and>
    verifier (sg_signer_id msg) (signing_input msg) (sg_signature_bytes msg) = Ok ()"
  using assms
  by (auto simp: verify_def check_message_def Let_def result_ok split: prod.splits sum.splits)

lemma read_frame_Ok:
  assumes "read_frame ed check eff decode m (Persistent k) now c g = (Ok (t, v), c', g')"
  obtains body where "decode t body = Some (vf_inner v)" and "vf_signer_id v = sg_signer_id (vf_inner v)"
    and "verify_signature ed (lookup_candidates k now) (lookup_retired k now) (sg_signer_id (vf_inner v))
      (signing_input (vf_inner v)) (sg_signature_bytes (vf_inner v)) = Ok ()"
proof -
  obtain body g1 where "decode_and_verify ed check eff (decode t) m (Persistent k) now body g1 = (Ok v, g')"
    using assms by (auto simp: read_frame_def Let_def split: prod.splits sum.splits option.splits if_splits)
  then obtain msg where "decode t body = Some msg"
    and "verify check eff m (verify_signature ed (lookup_candidates k now) (lookup_retired k now)) now msg g1 = (Ok v, g')"
    by (auto simp: decode_and_verify_def verify_decoded_Ok split: option.splits)
  with that verify_Ok_signature [OF this(2)] show thesis by auto
qed

lemma signing_input_domain: "signing_input msg = sig_input d ver body \<Longrightarrow> d = sg_domain msg"
  by (auto simp: signing_input_def sig_input_def domain_tag_bytes_inject)

text \<open>C26: The type tag of a frame is not trusted and need not be: a frame that is accepted as a
  message of some type carries the signature of a key that the key ring holds valid for its signer
  at that moment, over an input that was signed for the domain of exactly this type. With
  signatures that cannot be forged (\<open>signed_by p\<close> is what the holder of \<open>p\<close> signed), a message
  signed as one type is never accepted as another.\<close>

theorem no_type_confusion:
  assumes typed: "\<And>t b msg. decode t b = Some msg \<Longrightarrow> sg_domain msg = frame_domain t"
    and unforgeable: "\<And>p input sig. ed25519 p input sig \<Longrightarrow> input \<in> signed_by p"
    and run: "read_frame ed25519 check eff decode m (Persistent k) now c g = (Ok (t, v), c', g')"
  shows "\<exists>p input. p \<in> set (lookup_candidates k now (vf_signer_id v)) \<and> input \<in> signed_by p \<and>
    input = signing_input (vf_inner v) \<and> (\<forall>d ver body. input = sig_input d ver body \<longrightarrow> d = frame_domain t)"
proof -
  obtain body where dec: "decode t body = Some (vf_inner v)" and signer: "vf_signer_id v = sg_signer_id (vf_inner v)"
    and sig: "verify_signature ed25519 (lookup_candidates k now) (lookup_retired k now) (sg_signer_id (vf_inner v))
      (signing_input (vf_inner v)) (sg_signature_bytes (vf_inner v)) = Ok ()"
    by (rule read_frame_Ok [OF run])
  obtain p where "p \<in> set (lookup_candidates k now (vf_signer_id v))"
      "ed25519 p (signing_input (vf_inner v)) (sg_signature_bytes (vf_inner v))"
    using sig signer by (auto simp: view.verify_signature_Ok)
  then show ?thesis
    using unforgeable typed [OF dec] signing_input_domain by metis
qed

text \<open>C25: A revoked signer is silenced for good: after its revocation, whatever is registered,
  rotated, quarantined or released later, no frame of it is accepted over any connection, under any
  clock and any replay guard.\<close>

theorem revoked_signer_is_silenced:
  assumes "bm_invar (kr_keys k)" and "keyring_revoke s k = Ok (changed, k1)"
    and "k2 = fold (run_keyring_call vk) calls k1"
    and "read_frame ed25519 check eff decode m (Persistent k2) now c g = (Ok (t, v), c', g')"
  shows "vf_signer_id v \<noteq> s"
proof
  assume s: "vf_signer_id v = s"
  have "lookup_key k2 now s = None" using revoked_no_key [OF assms(1,2)] by (simp add: assms(3))
  then have "verify_signature ed25519 (lookup_candidates k2 now) (lookup_retired k2 now) s message signature \<noteq> Ok ()"
    for message signature by (simp add: view.unknown_signer_rejected)
  then show False using s read_frame_Ok [OF assms(4)] by metis
qed

section \<open>Instances\<close>

definition example_decoder :: decoder where
  "example_decoder t body =
     Some \<lparr>sg_domain = frame_domain t, sg_lifetime = Evidence, sg_schema_version = 1, sg_canonical_fields = [],
       sg_signature_bytes = replicate 64 0, sg_expires_at_unix_ms = 0, sg_issued_at_unix_ms = 0,
       sg_signer_id = map unat body, sg_derived_consistency = Ok (), sg_replay_nonce = None\<rparr>"

abbreviation example_read where
  "example_read k body \<equiv> read_frame (\<lambda>_ _ _. True) no_replay_check True example_decoder 4 (Persistent k) 5
     \<lparr>cn_bytes = raw_frame 8 body, cn_fails = False\<rparr> ()"

lemma example_read_accepts:
  assumes "lookup_candidates k 5 (map unat body) \<noteq> []" and "fits_frame body"
  obtains v where "example_read k body = (Ok (FrArtifact, v), \<lparr>cn_bytes = [], cn_fails = False\<rparr>, ())"
    and "vf_signer_id v = map unat body"
proof -
  have "\<exists>p. p \<in> set (lookup_candidates k 5 (map unat body))" using assms(1) by (cases "lookup_candidates k 5 (map unat body)") auto
  then have "\<exists>v. frame_result (\<lambda>_ _ _. True) no_replay_check True example_decoder 4 (Persistent k) 5 (8, body) () =
      (Ok (FrArtifact, v), ()) \<and> vf_signer_id v = map unat body"
    by (auto simp: frame_result_def frame_type_from_u8_def decode_and_verify_def example_decoder_def verify_decoded_Ok
        verify_decoded_def verify_def check_message_def verify_signature_def check_lifetime_def check_replay_def
        SCHEMA_VERSION_def min_def)
  then show thesis
    using read_raw_frame [OF assms(2), of "\<lambda>_ _ _. True" no_replay_check True example_decoder 4 "Persistent k" 5 8 "[]"] that
    by force
qed

definition example_pair_ring :: persistent_keyring where
  "example_pair_ring = \<lparr>kr_path = [], kr_protection = K0Plaintext, kr_quarantined = False,
     kr_keys = [([97], [first_version (replicate 32 7) None]), ([98], [first_version (replicate 32 8) None])]\<rparr>"

lemma example_pair_ring_invar: "bm_invar (kr_keys example_pair_ring)"
  by (simp add: example_pair_ring_def bm_invar_def)

theorem no_type_confusion_witness:
  "\<exists>v c' g'. example_read example_pair_ring [98] = (Ok (FrArtifact, v), c', g') \<and>
     (\<exists>p. p \<in> set (lookup_candidates example_pair_ring 5 (vf_signer_id v)))"
proof -
  have "lookup_candidates example_pair_ring 5 (map unat [98 :: u8]) \<noteq> []"
    by (simp add: lookup_candidates_def example_pair_ring_def bm_get_def version_is_valid_def first_version_def)
  then obtain v where run: "example_read example_pair_ring [98] = (Ok (FrArtifact, v), \<lparr>cn_bytes = [], cn_fails = False\<rparr>, ())"
    by (rule example_read_accepts) (simp_all add: MAX_INGRESS_FRAME_BYTES_def)
  have "\<exists>p input. p \<in> set (lookup_candidates example_pair_ring 5 (vf_signer_id v)) \<and> input \<in> UNIV \<and>
      input = signing_input (vf_inner v) \<and> (\<forall>d ver body. input = sig_input d ver body \<longrightarrow> d = frame_domain FrArtifact)"
    by (rule no_type_confusion [where signed_by = "\<lambda>_. UNIV", OF _ _ run]) (auto simp: example_decoder_def)
  then show ?thesis using run by blast
qed

theorem revoked_signer_is_silenced_witness:
  "\<exists>changed k1 v c' g'. keyring_revoke [97] example_pair_ring = Ok (changed, k1) \<and>
     example_read (fold (run_keyring_call id) [CallRotate [97] (replicate 32 9) 5] k1) [98] = (Ok (FrArtifact, v), c', g') \<and>
     vf_signer_id v \<noteq> [97]"
proof -
  obtain changed k1 where rev: "keyring_revoke [97] example_pair_ring = Ok (changed, k1)"
    by (simp add: keyring_revoke_def example_pair_ring_def bm_get_def)
  then have k1: "k1 = example_pair_ring\<lparr>kr_keys := [([97], [(first_version (replicate 32 7) None)\<lparr>kv_state := KeyRevoked\<rparr>]),
      ([98], [first_version (replicate 32 8) None])]\<rparr>"
    by (auto simp: keyring_revoke_def example_pair_ring_def bm_get_def)
  have "fold (run_keyring_call id) [CallRotate [97] (replicate 32 9) 5] k1 = k1"
    by (simp add: k1 rotate_def status_at_def bm_get_def version_is_valid_def updated_def example_pair_ring_def)
  note k2 = this
  have "lookup_candidates k1 5 (map unat [98 :: u8]) \<noteq> []"
    by (simp add: k1 lookup_candidates_def example_pair_ring_def bm_get_def version_is_valid_def first_version_def)
  then obtain v where run: "example_read k1 [98] = (Ok (FrArtifact, v), \<lparr>cn_bytes = [], cn_fails = False\<rparr>, ())"
    by (rule example_read_accepts) (simp_all add: MAX_INGRESS_FRAME_BYTES_def)
  then have run2: "example_read (fold (run_keyring_call id) [CallRotate [97] (replicate 32 9) 5] k1) [98] =
      (Ok (FrArtifact, v), \<lparr>cn_bytes = [], cn_fails = False\<rparr>, ())" unfolding k2 .
  have "vf_signer_id v \<noteq> [97]"
    by (rule revoked_signer_is_silenced [OF example_pair_ring_invar rev refl run2])
  with rev run2 show ?thesis by blast
qed

theorem frames_arrive_in_order_witness:
  "\<exists>enc. write_frame FrLease [1, 2] = Ok enc \<and>
     read_frames (\<lambda>_ _ _. True) no_replay_check True example_decoder 4 (Persistent example_pair_ring) [5, 6]
       \<lparr>cn_bytes = concat [raw_frame 99 [7], enc] @ [3], cn_fails = False\<rparr> () =
     (case frame_results (\<lambda>_ _ _. True) no_replay_check True example_decoder 4 (Persistent example_pair_ring)
        [(5, 99, [7]), (6, 3, [1, 2])] () of (rs, g') \<Rightarrow> (rs, \<lparr>cn_bytes = [3], cn_fails = False\<rparr>, g'))"
proof -
  obtain enc where enc: "write_frame FrLease [1, 2] = Ok enc" by (simp add: write_frame_Ok MAX_INGRESS_FRAME_BYTES_def)
  have unknown: "wire_frame (99, [7]) (raw_frame 99 [7])"
    by (simp add: wire_frame_def frame_type_from_u8_def MAX_INGRESS_FRAME_BYTES_def)
  have "wire_frame (3, [1, 2]) enc" unfolding wire_frame_def using enc by (auto intro!: exI [of _ FrLease])
  then have "list_all2 (\<lambda>(now, frame) enc. wire_frame frame enc) [(5 :: u64, 99, [7]), (6, 3, [1, 2])] [raw_frame 99 [7], enc]"
    using unknown by simp
  from frames_arrive_in_order [OF this, where rest = "[3]" and f = False and g = "()"] enc show ?thesis
    unfolding list.map fst_conv by blast
qed

end
