(* ===== verification/Run_Ledger.thy ===== *)
theory Run_Ledger
  imports Sql_Tx Rust_Collections
begin

text \<open>
  The run ledger of a node, \<open>src/crates/agent/src/run_ledger.rs\<close>: one row per attempt that the
  agent has started, in a SQLite file. This theory holds the rows, their codec with the check of
  every value, the operations on an open ledger, and the settling of what a crash has left open
  (\<open>resolve_active_ledger_rows\<close> of \<open>agent/src/lib.rs\<close>). How the file is found, created and
  adopted is not modelled. Errors are texts in the source, here a constructor per text with the
  attempt it names. The clock is an argument (\<open>now\<close>).
\<close>

section \<open>Rows\<close>

datatype row_state = RowActive | RowClosed | RowLocalBlocked

fun row_state_as_str :: "row_state \<Rightarrow> str" where
  "row_state_as_str RowActive = lit ''ACTIVE''"
| "row_state_as_str RowClosed = lit ''CLOSED''"
| "row_state_as_str RowLocalBlocked = lit ''LOCAL_BLOCKED''"

definition row_state_parse :: "str \<Rightarrow> row_state option" where
  "row_state_parse s =
     (if s = lit ''ACTIVE'' then Some RowActive
      else if s = lit ''CLOSED'' then Some RowClosed
      else if s = lit ''LOCAL_BLOCKED'' then Some RowLocalBlocked else None)"

datatype executor = ContainerExecutor | HostExecutor | LegacyExecutor

fun executor_as_str :: "executor \<Rightarrow> str" where
  "executor_as_str ContainerExecutor = lit ''container''"
| "executor_as_str HostExecutor = lit ''host''"
| "executor_as_str LegacyExecutor = lit ''legacy''"

definition executor_parse :: "str \<Rightarrow> executor option" where
  "executor_parse s =
     (if s = lit ''container'' then Some ContainerExecutor
      else if s = lit ''host'' then Some HostExecutor
      else if s = lit ''legacy'' then Some LegacyExecutor else None)"

datatype origin = AgentOrigin | LegacyAdopt | LegacyAdoptAttested

fun origin_as_str :: "origin \<Rightarrow> str" where
  "origin_as_str AgentOrigin = lit ''agent''"
| "origin_as_str LegacyAdopt = lit ''legacy_adopt''"
| "origin_as_str LegacyAdoptAttested = lit ''legacy_adopt_attested''"

definition origin_parse :: "str \<Rightarrow> origin option" where
  "origin_parse s =
     (if s = lit ''agent'' then Some AgentOrigin
      else if s = lit ''legacy_adopt'' then Some LegacyAdopt
      else if s = lit ''legacy_adopt_attested'' then Some LegacyAdoptAttested else None)"

record run_row =
  lr_attempt_id :: str
  lr_origin :: origin
  lr_job_id :: "str option"
  lr_node_id :: "str option"
  lr_fence_epoch :: "u64 option"
  lr_executor :: executor
  lr_runtime_program :: "str option"
  lr_runtime_kind :: "str option"
  lr_container_name :: "str option"
  lr_container_id :: "str option"
  lr_cgroup_path :: "str option"
  lr_state :: row_state
  lr_reason :: "str option"
  lr_stopped :: "bool option"
  lr_logs_complete :: "bool option"
  lr_container_left :: "bool option"
  lr_container_removed :: "bool option"

definition new_active :: "str \<Rightarrow> str \<Rightarrow> str \<Rightarrow> u64 \<Rightarrow> executor \<Rightarrow> run_row" where
  "new_active attempt_id job_id node_id fence_epoch exec =
     \<lparr>lr_attempt_id = attempt_id, lr_origin = AgentOrigin, lr_job_id = Some job_id, lr_node_id = Some node_id,
      lr_fence_epoch = Some fence_epoch, lr_executor = exec, lr_runtime_program = None, lr_runtime_kind = None,
      lr_container_name = None, lr_container_id = None, lr_cgroup_path = None, lr_state = RowActive, lr_reason = None,
      lr_stopped = None, lr_logs_complete = None, lr_container_left = None,
      lr_container_removed = (if exec = ContainerExecutor then Some False else None)\<rparr>"

definition legacy_row :: "str \<Rightarrow> origin \<Rightarrow> run_row" where
  "legacy_row attempt_id orig =
     \<lparr>lr_attempt_id = attempt_id, lr_origin = orig, lr_job_id = None, lr_node_id = None,
      lr_fence_epoch = None, lr_executor = LegacyExecutor, lr_runtime_program = None, lr_runtime_kind = None,
      lr_container_name = None, lr_container_id = None, lr_cgroup_path = None, lr_state = RowClosed,
      lr_reason = Some (lit ''legacy_adopt''), lr_stopped = None, lr_logs_complete = None, lr_container_left = None,
      lr_container_removed = None\<rparr>"

text \<open>A row of the table \<open>attempts\<close>: what \<open>row_from_sql\<close> reads, and the two columns it leaves out.\<close>

record raw_row =
  lx_attempt_id :: str
  lx_row_format_version :: int
  lx_origin :: str
  lx_job_id :: "str option"
  lx_node_id :: "str option"
  lx_fence_epoch :: "int option"
  lx_executor :: str
  lx_runtime_program :: "str option"
  lx_runtime_kind :: "str option"
  lx_container_name :: "str option"
  lx_container_id :: "str option"
  lx_cgroup_path :: "str option"
  lx_state :: str
  lx_reason :: "str option"
  lx_stopped :: "int option"
  lx_logs_complete :: "int option"
  lx_container_left :: "int option"
  lx_container_removed :: "int option"
  lx_created_at_unix_ms :: int
  lx_updated_at_unix_ms :: int

datatype ledger_error =
    LedgerSql
  | LedgerRowFormat str int
  | LedgerUnknownOrigin str str
  | LedgerUnknownExecutor str str
  | LedgerUnknownState str str
  | LedgerBadFlag str str int
  | LedgerRemovedMismatch str
  | LedgerOriginMismatch str
  | LedgerLegacyOpen str
  | LedgerNegativeEpoch str
  | LedgerNotAnActiveRow
  | LedgerEpochTooLarge u64
  | LedgerRowMissing str
  | LedgerNotChanged str nat
  | LedgerNotActive str row_state
  | LedgerNotActiveContainer str row_state
  | LedgerNotRemoved str
  | LedgerHostRule str
  | LedgerLegacyRow str
  | LedgerNotBlocked str row_state
  | LedgerReport str

definition ledger_sql_error :: "sql_error \<Rightarrow> ledger_error" where
  "ledger_sql_error _ = LedgerSql"

definition ROW_FORMAT_VERSION :: int where "ROW_FORMAT_VERSION = 1"

definition ledger_i64_max :: nat where "ledger_i64_max = 2 ^ 63 - 1"

definition opt_bool :: "bool option \<Rightarrow> int option" where
  "opt_bool = map_option (\<lambda>b. if b then 1 else 0)"

text \<open>\<open>i64::try_from(e).unwrap_or(-1)\<close>.\<close>

definition epoch_column :: "u64 \<Rightarrow> int" where
  "epoch_column e = (if unat e \<le> ledger_i64_max then uint e else -1)"

definition raw_of :: "int \<Rightarrow> run_row \<Rightarrow> raw_row" where
  "raw_of now row =
     \<lparr>lx_attempt_id = lr_attempt_id row, lx_row_format_version = ROW_FORMAT_VERSION,
      lx_origin = origin_as_str (lr_origin row), lx_job_id = lr_job_id row, lx_node_id = lr_node_id row,
      lx_fence_epoch = map_option epoch_column (lr_fence_epoch row), lx_executor = executor_as_str (lr_executor row),
      lx_runtime_program = lr_runtime_program row, lx_runtime_kind = lr_runtime_kind row,
      lx_container_name = lr_container_name row, lx_container_id = lr_container_id row,
      lx_cgroup_path = lr_cgroup_path row, lx_state = row_state_as_str (lr_state row), lx_reason = lr_reason row,
      lx_stopped = opt_bool (lr_stopped row), lx_logs_complete = opt_bool (lr_logs_complete row),
      lx_container_left = opt_bool (lr_container_left row), lx_container_removed = opt_bool (lr_container_removed row),
      lx_created_at_unix_ms = now, lx_updated_at_unix_ms = now\<rparr>"

section \<open>Reading a row\<close>

definition flag :: "string \<Rightarrow> str \<Rightarrow> int option \<Rightarrow> ledger_error + bool option" where
  "flag name i value = (case value of
     None \<Rightarrow> Ok None
   | Some v \<Rightarrow> if v = 0 then Ok (Some False) else if v = 1 then Ok (Some True) else Err (LedgerBadFlag (lit name) i v))"

definition validate_epoch :: "str \<Rightarrow> int option \<Rightarrow> ledger_error + u64 option" where
  "validate_epoch i value = (case value of
     None \<Rightarrow> Ok None
   | Some v \<Rightarrow> if 0 \<le> v then Ok (Some (of_int v)) else Err (LedgerNegativeEpoch i))"

definition check_row_kind :: "str \<Rightarrow> executor \<Rightarrow> origin \<Rightarrow> row_state \<Rightarrow> bool option \<Rightarrow> ledger_error + unit" where
  "check_row_kind i exec orig state removed =
     and_then (reject_if ((exec = ContainerExecutor) \<noteq> (removed \<noteq> None)) (LedgerRemovedMismatch i)) (\<lambda>_.
     and_then (reject_if ((exec = LegacyExecutor) \<noteq> (orig \<in> {LegacyAdopt, LegacyAdoptAttested})) (LedgerOriginMismatch i)) (\<lambda>_.
       reject_if (exec = LegacyExecutor \<and> state \<noteq> RowClosed) (LedgerLegacyOpen i)))"

definition validate_row :: "raw_row \<Rightarrow> ledger_error + run_row" where
  "validate_row r =
     (let i = lx_attempt_id r in
      and_then (reject_if (lx_row_format_version r \<noteq> ROW_FORMAT_VERSION) (LedgerRowFormat i (lx_row_format_version r))) (\<lambda>_.
      and_then (ok_or (origin_parse (lx_origin r)) (LedgerUnknownOrigin i (lx_origin r))) (\<lambda>orig.
      and_then (ok_or (executor_parse (lx_executor r)) (LedgerUnknownExecutor i (lx_executor r))) (\<lambda>exec.
      and_then (ok_or (row_state_parse (lx_state r)) (LedgerUnknownState i (lx_state r))) (\<lambda>state.
      and_then (flag ''container_removed'' i (lx_container_removed r)) (\<lambda>removed.
      and_then (check_row_kind i exec orig state removed) (\<lambda>_.
      and_then (validate_epoch i (lx_fence_epoch r)) (\<lambda>epoch.
      and_then (flag ''stopped'' i (lx_stopped r)) (\<lambda>stopped.
      and_then (flag ''logs_complete'' i (lx_logs_complete r)) (\<lambda>logs.
      and_then (flag ''container_left'' i (lx_container_left r)) (\<lambda>left.
      Ok \<lparr>lr_attempt_id = i, lr_origin = orig, lr_job_id = lx_job_id r, lr_node_id = lx_node_id r,
          lr_fence_epoch = epoch, lr_executor = exec, lr_runtime_program = lx_runtime_program r,
          lr_runtime_kind = lx_runtime_kind r, lr_container_name = lx_container_name r,
          lr_container_id = lx_container_id r, lr_cgroup_path = lx_cgroup_path r, lr_state = state,
          lr_reason = lx_reason r, lr_stopped = stopped, lr_logs_complete = logs, lr_container_left = left,
          lr_container_removed = removed\<rparr>)))))))))))"

section \<open>The open ledger\<close>

record ledger_db = sql_conn +
  lg_meta :: "(str, str) hash_map"
  lg_attempts :: "(str, raw_row) hash_map"

type_synonym 'a ledger_tx = "ledger_db \<Rightarrow> (ledger_error + 'a) \<times> ledger_db"

text \<open>\<open>INSERT\<close>: the primary key refuses a second row of an attempt.\<close>

definition insert_row :: "run_row \<Rightarrow> int \<Rightarrow> unit ledger_tx" where
  "insert_row row now = statement_result ledger_sql_error (\<lambda>db.
     if hm_get (lg_attempts db) (lr_attempt_id row) \<noteq> None then (Err LedgerSql, db)
     else (Ok (), db\<lparr>lg_attempts := hm_insert (lr_attempt_id row) (raw_of now row) (lg_attempts db)\<rparr>))"

text \<open>All rows in the order of their ids; the first one that does not pass its check is the result.\<close>

definition ledger_rows :: "run_row list ledger_tx" where
  "ledger_rows =
     tx_bind (statement ledger_sql_error (\<lambda>db. (sort_key lx_attempt_id (map snd (lg_attempts db)), db))) (\<lambda>rows.
       lift_result (collect_results validate_row rows))"

definition ledger_row :: "str \<Rightarrow> run_row option ledger_tx" where
  "ledger_row attempt_id =
     tx_bind (statement ledger_sql_error (\<lambda>db. (hm_get (lg_attempts db) attempt_id, db))) (\<lambda>raw.
       lift_result (map_transpose validate_row raw))"

definition blocks_new_work :: "bool ledger_tx" where
  "blocks_new_work =
     tx_bind ledger_rows (\<lambda>rows. tx_return (list_ex (\<lambda>row. lr_state row \<in> {RowActive, RowLocalBlocked}) rows))"

definition insert_active :: "run_row \<Rightarrow> int \<Rightarrow> unit ledger_tx" where
  "insert_active row now =
     (if lr_state row \<noteq> RowActive \<or> lr_origin row \<noteq> AgentOrigin \<or> lr_executor row = LegacyExecutor
      then tx_fail LedgerNotAnActiveRow
      else case lr_fence_epoch row of
        Some e \<Rightarrow> if unat e > ledger_i64_max then tx_fail (LedgerEpochTooLarge e)
                  else in_transaction ledger_sql_error (insert_row row now)
      | None \<Rightarrow> in_transaction ledger_sql_error (insert_row row now))"

text \<open>\<open>UPDATE attempts SET updated_at_unix_ms = ?1, ... WHERE attempt_id = ?n\<close>: the number of rows.\<close>

definition update_attempt :: "str \<Rightarrow> (raw_row \<Rightarrow> raw_row) \<Rightarrow> int \<Rightarrow> nat ledger_tx" where
  "update_attempt attempt_id set_columns now = statement ledger_sql_error (\<lambda>db. case hm_get (lg_attempts db) attempt_id of
     None \<Rightarrow> (0, db)
   | Some r \<Rightarrow> (1, db\<lparr>lg_attempts :=
       hm_insert attempt_id (set_columns (r\<lparr>lx_updated_at_unix_ms := now\<rparr>)) (lg_attempts db)\<rparr>))"

definition update_body ::
    "str \<Rightarrow> (run_row \<Rightarrow> ledger_error + unit) \<Rightarrow> (raw_row \<Rightarrow> raw_row) \<Rightarrow> int \<Rightarrow> unit ledger_tx" where
  "update_body attempt_id guard set_columns now =
     tx_bind (statement ledger_sql_error (\<lambda>db. (hm_get (lg_attempts db) attempt_id, db))) (\<lambda>raw.
     tx_bind (lift_result (and_then (ok_or raw (LedgerRowMissing attempt_id)) validate_row)) (\<lambda>current.
     tx_bind (lift_result (guard current)) (\<lambda>_.
     tx_bind (update_attempt attempt_id set_columns now) (\<lambda>changed.
       if changed \<noteq> 1 then tx_fail (LedgerNotChanged attempt_id changed) else tx_return ()))))"

definition update_state ::
    "str \<Rightarrow> (run_row \<Rightarrow> ledger_error + unit) \<Rightarrow> (raw_row \<Rightarrow> raw_row) \<Rightarrow> int \<Rightarrow> unit ledger_tx" where
  "update_state attempt_id guard set_columns now = in_transaction ledger_sql_error (update_body attempt_id guard set_columns now)"

definition record_facts :: "str \<Rightarrow> bool option \<Rightarrow> bool option \<Rightarrow> bool option \<Rightarrow> int \<Rightarrow> unit ledger_tx" where
  "record_facts attempt_id stopped logs_complete container_left = update_state attempt_id
     (\<lambda>row. reject_if (lr_state row \<noteq> RowActive) (LedgerNotActive attempt_id (lr_state row)))
     (\<lambda>r. r\<lparr>lx_stopped := opt_bool stopped, lx_logs_complete := opt_bool logs_complete, lx_container_left := opt_bool container_left\<rparr>)"

definition active_container :: "str \<Rightarrow> run_row \<Rightarrow> ledger_error + unit" where
  "active_container attempt_id row =
     reject_if (lr_executor row \<noteq> ContainerExecutor \<or> lr_state row \<noteq> RowActive) (LedgerNotActiveContainer attempt_id (lr_state row))"

definition mark_container_removed :: "str \<Rightarrow> str option \<Rightarrow> int \<Rightarrow> unit ledger_tx" where
  "mark_container_removed attempt_id container_id = update_state attempt_id (active_container attempt_id)
     (\<lambda>r. r\<lparr>lx_container_removed := Some 1,
        lx_container_id := (case container_id of Some c \<Rightarrow> Some c | None \<Rightarrow> lx_container_id r)\<rparr>)"

definition record_container_exit ::
    "str \<Rightarrow> bool option \<Rightarrow> bool option \<Rightarrow> bool option \<Rightarrow> bool \<Rightarrow> str \<Rightarrow> int \<Rightarrow> unit ledger_tx" where
  "record_container_exit attempt_id stopped logs_complete container_left removed_confirmed blocked_reason =
     update_state attempt_id (active_container attempt_id)
     (\<lambda>r. r\<lparr>lx_stopped := opt_bool stopped, lx_logs_complete := opt_bool logs_complete, lx_container_left := opt_bool container_left,
        lx_container_removed := (if removed_confirmed then Some 1 else lx_container_removed r),
        lx_state := (if removed_confirmed then lx_state r else lit ''LOCAL_BLOCKED''),
        lx_reason := (if removed_confirmed then lx_reason r else Some blocked_reason)\<rparr>)"

definition mark_local_blocked :: "str \<Rightarrow> str \<Rightarrow> int \<Rightarrow> unit ledger_tx" where
  "mark_local_blocked attempt_id reason = update_state attempt_id
     (\<lambda>row. reject_if (lr_state row \<noteq> RowActive) (LedgerNotActive attempt_id (lr_state row)))
     (\<lambda>r. r\<lparr>lx_state := lit ''LOCAL_BLOCKED'', lx_reason := Some reason\<rparr>)"

datatype close_reason = NotStarted | NoSentinel | ReportPersisted | HostRestart

fun close_reason_as_str :: "close_reason \<Rightarrow> str" where
  "close_reason_as_str NotStarted = lit ''not_started''"
| "close_reason_as_str NoSentinel = lit ''no_sentinel''"
| "close_reason_as_str ReportPersisted = lit ''report_persisted''"
| "close_reason_as_str HostRestart = lit ''host_restart''"

definition may_close :: "str \<Rightarrow> close_reason \<Rightarrow> run_row \<Rightarrow> ledger_error + unit" where
  "may_close attempt_id reason row =
     (if lr_state row \<noteq> RowActive then Err (LedgerNotActive attempt_id (lr_state row))
      else case lr_executor row of
        ContainerExecutor \<Rightarrow>
          if reason = ReportPersisted \<and> lr_container_removed row \<noteq> Some True then Err (LedgerNotRemoved attempt_id)
          else if reason = HostRestart then Err (LedgerHostRule attempt_id)
          else Ok ()
      | HostExecutor \<Rightarrow> Ok ()
      | LegacyExecutor \<Rightarrow> Err (LedgerLegacyRow attempt_id))"

definition close_active :: "str \<Rightarrow> close_reason \<Rightarrow> int \<Rightarrow> unit ledger_tx" where
  "close_active attempt_id reason = update_state attempt_id (may_close attempt_id reason)
     (\<lambda>r. r\<lparr>lx_state := lit ''CLOSED'', lx_reason := Some (close_reason_as_str reason)\<rparr>)"

definition clear_local_blocked :: "str \<Rightarrow> int \<Rightarrow> unit ledger_tx" where
  "clear_local_blocked attempt_id = update_state attempt_id
     (\<lambda>row. reject_if (lr_state row \<noteq> RowLocalBlocked) (LedgerNotBlocked attempt_id (lr_state row)))
     (\<lambda>r. r\<lparr>lx_state := lit ''CLOSED'', lx_reason := Some (lit ''cleared'')\<rparr>)"

section \<open>Attempts left over at the start of the agent\<close>

text \<open>
  \<open>resolve_active_ledger_rows\<close>: \<open>records\<close> are the start records on disk, \<open>report\<close> says whether an
  acceptable report of the attempt is kept in the outbox, or is an error. The incident file for the
  operator is left out: the ledger row is what blocks.
\<close>

definition resolve_row :: "(run_row \<Rightarrow> ledger_error + bool) \<Rightarrow> str list \<Rightarrow> int \<Rightarrow> run_row \<Rightarrow> unit ledger_tx" where
  "resolve_row report records now row =
     (let i = lr_attempt_id row; sentinel = i \<in> set records in
      if lr_state row \<noteq> RowActive then tx_return ()
      else case lr_executor row of
        HostExecutor \<Rightarrow> close_active i (if sentinel then HostRestart else NoSentinel) now
      | ContainerExecutor \<Rightarrow>
          if \<not> sentinel then close_active i NoSentinel now
          else tx_bind (lift_result (report row)) (\<lambda>kept.
            if kept \<and> lr_container_removed row = Some True then close_active i ReportPersisted now
            else mark_local_blocked i (if kept then lit ''report_without_removal'' else lit ''no_report'') now)
      | LegacyExecutor \<Rightarrow> tx_fail (LedgerLegacyRow i))"

fun resolve_rows :: "(run_row \<Rightarrow> ledger_error + bool) \<Rightarrow> str list \<Rightarrow> int \<Rightarrow> run_row list \<Rightarrow> unit ledger_tx" where
  "resolve_rows report records now [] = tx_return ()"
| "resolve_rows report records now (row # rows) =
     tx_bind (resolve_row report records now row) (\<lambda>_. resolve_rows report records now rows)"

definition resolve_active_ledger_rows :: "(run_row \<Rightarrow> ledger_error + bool) \<Rightarrow> str list \<Rightarrow> int \<Rightarrow> unit ledger_tx" where
  "resolve_active_ledger_rows report records now = tx_bind ledger_rows (resolve_rows report records now)"

section \<open>The codec\<close>

lemma row_state_round_trip [simp]: "row_state_parse (row_state_as_str s) = Some s"
  by (cases s) (simp_all add: row_state_parse_def)

lemma executor_round_trip [simp]: "executor_parse (executor_as_str x) = Some x"
  by (cases x) (simp_all add: executor_parse_def)

lemma origin_round_trip [simp]: "origin_parse (origin_as_str x) = Some x"
  by (cases x) (simp_all add: origin_parse_def)

lemma row_state_parse_Some: "row_state_parse s = Some x \<longleftrightarrow> s = row_state_as_str x"
  by (cases x) (auto simp: row_state_parse_def)

lemma executor_parse_Some: "executor_parse s = Some x \<longleftrightarrow> s = executor_as_str x"
  by (cases x) (auto simp: executor_parse_def)

lemma origin_parse_Some: "origin_parse s = Some x \<longleftrightarrow> s = origin_as_str x"
  by (cases x) (auto simp: origin_parse_def)

lemma row_state_as_str_inject [simp]: "row_state_as_str s = row_state_as_str t \<longleftrightarrow> s = t"
  by (metis row_state_round_trip option.inject)

lemma executor_as_str_inject [simp]: "executor_as_str s = executor_as_str t \<longleftrightarrow> s = t"
  by (metis executor_round_trip option.inject)

lemma flag_opt_bool [simp]: "flag n i (opt_bool b) = Inr b"
  by (cases b) (auto simp: flag_def opt_bool_def)

lemma flag_Inr: "flag n i v = Inr b \<longleftrightarrow> v = opt_bool b"
  by (cases b) (auto simp: flag_def opt_bool_def split: option.splits)

lemma opt_bool_simps [simp]: "opt_bool None = None" "opt_bool (Some b) = Some (if b then 1 else 0)"
  by (simp_all add: opt_bool_def)

text \<open>A row passes its check exactly when it prints a row of a consistent kind.\<close>

definition row_kind :: "run_row \<Rightarrow> bool" where
  "row_kind row \<longleftrightarrow>
     (lr_executor row = ContainerExecutor \<longleftrightarrow> lr_container_removed row \<noteq> None) \<and>
     (lr_executor row = LegacyExecutor \<longleftrightarrow> lr_origin row \<in> {LegacyAdopt, LegacyAdoptAttested}) \<and>
     (lr_executor row = LegacyExecutor \<longrightarrow> lr_state row = RowClosed)"

lemma check_row_kind_Inr:
  "check_row_kind i (lr_executor row) (lr_origin row) (lr_state row) (lr_container_removed row) = Inr u \<longleftrightarrow> row_kind row"
  by (simp add: check_row_kind_def result_ok row_kind_def)

lemma validate_row_Inr:
  "validate_row r = Inr row \<longleftrightarrow>
     lx_row_format_version r = ROW_FORMAT_VERSION \<and> lx_attempt_id r = lr_attempt_id row \<and>
     lx_origin r = origin_as_str (lr_origin row) \<and> lx_executor r = executor_as_str (lr_executor row) \<and>
     lx_state r = row_state_as_str (lr_state row) \<and> row_kind row \<and>
     validate_epoch (lr_attempt_id row) (lx_fence_epoch r) = Inr (lr_fence_epoch row) \<and>
     lx_job_id r = lr_job_id row \<and> lx_node_id r = lr_node_id row \<and> lx_runtime_program r = lr_runtime_program row \<and>
     lx_runtime_kind r = lr_runtime_kind row \<and> lx_container_name r = lr_container_name row \<and>
     lx_container_id r = lr_container_id row \<and> lx_cgroup_path r = lr_cgroup_path row \<and> lx_reason r = lr_reason row \<and>
     lx_stopped r = opt_bool (lr_stopped row) \<and> lx_logs_complete r = opt_bool (lr_logs_complete row) \<and>
     lx_container_left r = opt_bool (lr_container_left row) \<and> lx_container_removed r = opt_bool (lr_container_removed row)"
  by (cases row)
    (auto simp: validate_row_def Let_def result_ok origin_parse_Some executor_parse_Some row_state_parse_Some flag_Inr
      check_row_kind_Inr [of _ row, unfolded row_kind_def] row_kind_def check_row_kind_def)

lemma validate_epoch_column: "unat e \<le> ledger_i64_max \<Longrightarrow> validate_epoch i (Some (epoch_column e)) = Inr (Some e)"
  by (simp add: validate_epoch_def epoch_column_def)

text \<open>What is written is read back.\<close>

lemma validate_raw_of:
  assumes "row_kind row" and "\<And>e. lr_fence_epoch row = Some e \<Longrightarrow> unat e \<le> ledger_i64_max"
  shows "validate_row (raw_of now row) = Inr row"
  using assms by (cases "lr_fence_epoch row")
    (auto simp: validate_row_Inr raw_of_def validate_epoch_column validate_epoch_def [of _ None])

section \<open>What an operation changes\<close>

lemma update_state_effect:
  assumes "update_state i guard f now db = (res, db')"
  shows "lg_attempts db' = lg_attempts db \<and> res \<noteq> Ok () \<or>
    res = Ok () \<and> (\<exists>r row. hm_get (lg_attempts db) i = Some r \<and> validate_row r = Inr row \<and> guard row = Inr () \<and>
      lg_attempts db' = hm_insert i (f (r\<lparr>lx_updated_at_unix_ms := now\<rparr>)) (lg_attempts db))"
proof (cases res)
  case (Inl e)
  with in_transaction_Err [OF assms [unfolded update_state_def Inl]] show ?thesis by auto
next
  case (Inr u)
  from in_transaction_Ok [OF assms [unfolded update_state_def Inr]] obtain t db1 t' where
    "update_body i guard f now (db\<lparr>db_tape := t\<rparr>) = (Inr u, db1)" "db' = db1\<lparr>db_tape := t'\<rparr>" by metis
  then show ?thesis
    by (auto simp: Inr update_body_def tx_ok result_ok update_attempt_def split: if_splits option.splits)
qed

lemma insert_active_effect:
  assumes "insert_active row now db = (res, db')"
  shows "lg_attempts db' = lg_attempts db \<and> res \<noteq> Ok () \<or>
    res = Ok () \<and> hm_get (lg_attempts db) (lr_attempt_id row) = None \<and> lr_state row = RowActive \<and> lr_origin row = AgentOrigin \<and>
    lr_executor row \<noteq> LegacyExecutor \<and> (\<forall>e. lr_fence_epoch row = Some e \<longrightarrow> unat e \<le> ledger_i64_max) \<and>
    lg_attempts db' = hm_insert (lr_attempt_id row) (raw_of now row) (lg_attempts db)"
proof -
  have "lg_attempts db' = lg_attempts db \<and> res \<noteq> Ok () \<or>
    res = Ok () \<and> hm_get (lg_attempts db) (lr_attempt_id row) = None \<and>
    lg_attempts db' = hm_insert (lr_attempt_id row) (raw_of now row) (lg_attempts db)"
    if run: "in_transaction ledger_sql_error (insert_row row now) db = (res, db')"
  proof (cases res)
    case (Inl e)
    with in_transaction_Err [OF run [unfolded Inl]] show ?thesis by auto
  next
    case (Inr u)
    from in_transaction_Ok [OF run [unfolded Inr]] obtain t db1 t' where
      "insert_row row now (db\<lparr>db_tape := t\<rparr>) = (Inr u, db1)" "db' = db1\<lparr>db_tape := t'\<rparr>" by metis
    then show ?thesis by (auto simp: Inr insert_row_def tx_ok split: if_splits)
  qed
  with assms show ?thesis
    by (auto simp: insert_active_def tx_fail_def split: if_splits option.splits)
qed

section \<open>Histories\<close>

text \<open>
  The row that \<open>agent/src/lib.rs\<close> writes before it starts an attempt: a container has its name, derived from the
  attempt, and the program and kind of the runtime.
\<close>

definition start_row :: "str \<Rightarrow> str \<Rightarrow> str \<Rightarrow> u64 \<Rightarrow> str option \<Rightarrow> (str \<times> str) option \<Rightarrow> run_row" where
  "start_row attempt_id job_id node_id fence_epoch container_name runtime =
     (case container_name of
        None \<Rightarrow> new_active attempt_id job_id node_id fence_epoch HostExecutor
      | Some name \<Rightarrow> (new_active attempt_id job_id node_id fence_epoch ContainerExecutor)
          \<lparr>lr_container_name := Some name, lr_runtime_program := map_option fst runtime, lr_runtime_kind := map_option snd runtime\<rparr>)"

datatype ledger_call =
    StartAttempt str str str u64 "str option" "(str \<times> str) option" int
  | RecordFacts str "bool option" "bool option" "bool option" int
  | MarkRemoved str "str option" int
  | ContainerExit str "bool option" "bool option" "bool option" bool str int
  | MarkBlocked str str int
  | CloseActive str close_reason int
  | ClearBlocked str int
  | ResolveRows "run_row \<Rightarrow> ledger_error + bool" "str list" int

fun ledger_call_run :: "ledger_call \<Rightarrow> unit ledger_tx" where
  "ledger_call_run (StartAttempt i job node epoch name runtime now) = insert_active (start_row i job node epoch name runtime) now"
| "ledger_call_run (RecordFacts i stopped logs left now) = record_facts i stopped logs left now"
| "ledger_call_run (MarkRemoved i c now) = mark_container_removed i c now"
| "ledger_call_run (ContainerExit i stopped logs left removed reason now) = record_container_exit i stopped logs left removed reason now"
| "ledger_call_run (MarkBlocked i reason now) = mark_local_blocked i reason now"
| "ledger_call_run (CloseActive i reason now) = close_active i reason now"
| "ledger_call_run (ClearBlocked i now) = clear_local_blocked i now"
| "ledger_call_run (ResolveRows report records now) = resolve_active_ledger_rows report records now"

text \<open>A call of a history, with the statements that fail in it.\<close>

definition ledger_call_step :: "sql_error option list \<times> ledger_call \<Rightarrow> ledger_db \<Rightarrow> ledger_db" where
  "ledger_call_step c db = snd (ledger_call_run (snd c) (db\<lparr>db_tape := fst c\<rparr>))"

text \<open>How a row may change: it keeps its identity, a closed row stays as it is, a blocked one can only be
  closed, and a confirmed removal stays confirmed.\<close>

definition row_identity :: "raw_row \<Rightarrow> str \<times> str \<times> str option \<times> str option \<times> int option \<times> str \<times> int" where
  "row_identity r = (lx_attempt_id r, lx_origin r, lx_job_id r, lx_node_id r, lx_fence_epoch r, lx_executor r, lx_created_at_unix_ms r)"

definition row_evolves :: "raw_row \<Rightarrow> raw_row \<Rightarrow> bool" where
  "row_evolves r r' \<longleftrightarrow> row_identity r' = row_identity r \<and>
     (lx_state r = row_state_as_str RowClosed \<longrightarrow> r' = r) \<and>
     (lx_state r = row_state_as_str RowLocalBlocked \<longrightarrow> r' = r \<or> lx_state r' = row_state_as_str RowClosed) \<and>
     (lx_container_removed r = Some 1 \<longrightarrow> lx_container_removed r' = Some 1)"

text \<open>What every row satisfies: it passes its check, and a container that was closed for its report
  is known to be gone.\<close>

definition row_ok :: "raw_row \<Rightarrow> bool" where
  "row_ok r \<longleftrightarrow> (\<exists>row. validate_row r = Inr row) \<and>
     (lx_executor r = executor_as_str ContainerExecutor \<and> lx_state r = row_state_as_str RowClosed \<and>
      lx_reason r = Some (close_reason_as_str ReportPersisted) \<longrightarrow> lx_container_removed r = Some 1)"

definition rows_ok :: "(str, raw_row) hash_map \<Rightarrow> bool" where
  "rows_ok m \<longleftrightarrow> hm_invar m \<and> (\<forall>i r. hm_get m i = Some r \<longrightarrow> lx_attempt_id r = i \<and> row_ok r)"

definition ledger_ok :: "ledger_db \<Rightarrow> bool" where
  "ledger_ok db \<longleftrightarrow> rows_ok (lg_attempts db)"

text \<open>The steps of a history on the rows.\<close>

inductive ledger_change :: "(str, raw_row) hash_map \<Rightarrow> (str, raw_row) hash_map \<Rightarrow> bool" where
  same_rows: "ledger_change m m"
| new_row: "hm_get m (lx_attempt_id r) = None \<Longrightarrow> row_ok r \<Longrightarrow> lx_state r = row_state_as_str RowActive \<Longrightarrow>
    ledger_change m (hm_insert (lx_attempt_id r) r m)"
| changed_row: "hm_get m i = Some r \<Longrightarrow> (row_ok r \<Longrightarrow> row_ok r') \<Longrightarrow> row_evolves r r' \<Longrightarrow> ledger_change m (hm_insert i r' m)"
| both_changes: "ledger_change m m1 \<Longrightarrow> ledger_change m1 m2 \<Longrightarrow> ledger_change m m2"

inductive_cases ledger_changeE: "ledger_change m m'"

lemma update_change:
  assumes "\<And>r row. validate_row r = Inr row \<Longrightarrow> guard row = Inr () \<Longrightarrow>
      row_evolves r (f (r\<lparr>lx_updated_at_unix_ms := now\<rparr>)) \<and> (row_ok r \<longrightarrow> row_ok (f (r\<lparr>lx_updated_at_unix_ms := now\<rparr>)))"
  shows "ledger_change (lg_attempts db) (lg_attempts (snd (update_state i guard f now db)))"
proof (cases "update_state i guard f now db")
  case (Pair res db')
  from update_state_effect [OF this] assms show ?thesis
    by (auto simp: Pair intro!: same_rows changed_row)
qed

text \<open>
  An update \<open>f\<close> of the columns is an update \<open>g\<close> of the row it prints, on rows that have passed their
  check and the guard.
\<close>

declare row_state_as_str.simps [simp del] executor_as_str.simps [simp del]

lemma opt_bool_one: "opt_bool b = Some 1 \<longleftrightarrow> b = Some True"
  by (cases b) auto

lemma update_changeI:
  assumes "\<And>r row. validate_row r = Inr row \<Longrightarrow> guard row = Inr () \<Longrightarrow>
      lr_state row \<noteq> RowClosed \<and> validate_row (f (r\<lparr>lx_updated_at_unix_ms := now\<rparr>)) = Inr (g row) \<and>
      row_identity (f (r\<lparr>lx_updated_at_unix_ms := now\<rparr>)) = row_identity r \<and>
      (lr_state row = RowLocalBlocked \<longrightarrow> lr_state (g row) = RowClosed) \<and>
      (lr_container_removed row = Some True \<longrightarrow> lr_container_removed (g row) = Some True) \<and>
      (lr_executor (g row) = ContainerExecutor \<and> lr_state (g row) = RowClosed \<and>
       lr_reason (g row) = Some (close_reason_as_str ReportPersisted) \<longrightarrow> lr_container_removed (g row) = Some True)"
  shows "ledger_change (lg_attempts db) (lg_attempts (snd (update_state i guard f now db)))"
proof (rule update_change)
  fix r row assume v: "validate_row r = Inr row" and "guard row = Inr ()"
  note a = assms [OF this]
  let ?r = "f (r\<lparr>lx_updated_at_unix_ms := now\<rparr>)"
  from a have v': "validate_row ?r = Inr (g row)" by blast
  then have cols: "lx_state ?r = row_state_as_str (lr_state (g row))" "lx_reason ?r = lr_reason (g row)"
    "lx_executor ?r = executor_as_str (lr_executor (g row))" "lx_container_removed ?r = opt_bool (lr_container_removed (g row))"
    by (simp_all add: validate_row_Inr)
  from v have "lx_state r = row_state_as_str (lr_state row)" "lx_container_removed r = opt_bool (lr_container_removed row)"
    by (simp_all add: validate_row_Inr)
  with a cols have "row_evolves r ?r" by (simp add: row_evolves_def opt_bool_one)
  moreover have "row_ok ?r" unfolding row_ok_def cols using a v' by (simp add: opt_bool_one del: close_reason_as_str.simps)
  ultimately show "row_evolves r ?r \<and> (row_ok r \<longrightarrow> row_ok ?r)" by simp
qed

lemma state_text: "lit ''CLOSED'' = row_state_as_str RowClosed" "lit ''LOCAL_BLOCKED'' = row_state_as_str RowLocalBlocked"
  by (simp_all add: row_state_as_str.simps)

lemma facts_change: "ledger_change (lg_attempts db) (lg_attempts (snd (record_facts i a b c now db)))"
  unfolding record_facts_def
  by (rule update_changeI [where g = "\<lambda>row. row\<lparr>lr_stopped := a, lr_logs_complete := b, lr_container_left := c\<rparr>"])
    (auto simp: validate_row_Inr reject_if_Ok row_kind_def row_identity_def)

lemma removed_change: "ledger_change (lg_attempts db) (lg_attempts (snd (mark_container_removed i c now db)))"
  unfolding mark_container_removed_def
  by (rule update_changeI [where g = "\<lambda>row. row\<lparr>lr_container_removed := Some True,
      lr_container_id := (case c of Some x \<Rightarrow> Some x | None \<Rightarrow> lr_container_id row)\<rparr>"])
    (auto simp: validate_row_Inr active_container_def reject_if_Ok row_kind_def row_identity_def split: option.splits)

lemma exit_change: "ledger_change (lg_attempts db) (lg_attempts (snd (record_container_exit i a b c removed reason now db)))"
  unfolding record_container_exit_def state_text
  by (rule update_changeI [where g = "\<lambda>row. row\<lparr>lr_stopped := a, lr_logs_complete := b, lr_container_left := c,
      lr_container_removed := (if removed then Some True else lr_container_removed row),
      lr_state := (if removed then lr_state row else RowLocalBlocked), lr_reason := (if removed then lr_reason row else Some reason)\<rparr>"])
    (auto simp: validate_row_Inr active_container_def reject_if_Ok row_kind_def row_identity_def)

lemma blocked_change: "ledger_change (lg_attempts db) (lg_attempts (snd (mark_local_blocked i reason now db)))"
  unfolding mark_local_blocked_def state_text
  by (rule update_changeI [where g = "\<lambda>row. row\<lparr>lr_state := RowLocalBlocked, lr_reason := Some reason\<rparr>"])
    (auto simp: validate_row_Inr reject_if_Ok row_kind_def row_identity_def)

lemma may_close_Inr:
  "may_close i reason row = Inr () \<longleftrightarrow> lr_state row = RowActive \<and> lr_executor row \<noteq> LegacyExecutor \<and>
     (lr_executor row = ContainerExecutor \<longrightarrow>
        reason \<noteq> HostRestart \<and> (reason = ReportPersisted \<longrightarrow> lr_container_removed row = Some True))"
  by (auto simp: may_close_def split: if_splits executor.splits)

lemma close_reason_inject: "close_reason_as_str a = close_reason_as_str ReportPersisted \<longleftrightarrow> a = ReportPersisted"
  by (cases a) simp_all

lemma close_change: "ledger_change (lg_attempts db) (lg_attempts (snd (close_active i reason now db)))"
  unfolding close_active_def state_text
  by (rule update_changeI [where g = "\<lambda>row. row\<lparr>lr_state := RowClosed, lr_reason := Some (close_reason_as_str reason)\<rparr>"])
    (auto simp: validate_row_Inr may_close_Inr close_reason_inject row_kind_def row_identity_def simp del: close_reason_as_str.simps)

lemma cleared_text: "lit ''cleared'' \<noteq> close_reason_as_str ReportPersisted"
  by simp

lemma clear_change: "ledger_change (lg_attempts db) (lg_attempts (snd (clear_local_blocked i now db)))"
  unfolding clear_local_blocked_def state_text
  by (rule update_changeI [where g = "\<lambda>row. row\<lparr>lr_state := RowClosed, lr_reason := Some (lit ''cleared'')\<rparr>"])
    (auto simp: validate_row_Inr reject_if_Ok row_kind_def row_identity_def)

lemma start_row_kind: "row_kind (start_row i job node epoch name runtime)"
  by (auto simp: start_row_def new_active_def row_kind_def split: option.splits)

lemma start_row_state [simp]:
  "lr_state (start_row i job node epoch name runtime) = RowActive" "lr_attempt_id (start_row i job node epoch name runtime) = i"
  by (auto simp: start_row_def new_active_def split: option.splits)

lemma start_change:
  "ledger_change (lg_attempts db) (lg_attempts (snd (insert_active (start_row i job node epoch name runtime) now db)))"
proof (cases "insert_active (start_row i job node epoch name runtime) now db")
  case (Pair res db')
  let ?row = "start_row i job node epoch name runtime"
  have "ledger_change (lg_attempts db) (hm_insert i (raw_of now ?row) (lg_attempts db))"
    if "hm_get (lg_attempts db) i = None" "\<forall>e. lr_fence_epoch ?row = Some e \<longrightarrow> unat e \<le> ledger_i64_max"
  proof -
    have cols: "lx_state (raw_of now ?row) = row_state_as_str RowActive" "lx_attempt_id (raw_of now ?row) = i"
      by (simp_all add: raw_of_def)
    have "validate_row (raw_of now ?row) = Inr ?row" by (rule validate_raw_of [OF start_row_kind]) (use that(2) in blast)
    then have "row_ok (raw_of now ?row)" by (auto simp: row_ok_def cols simp del: close_reason_as_str.simps)
    with new_row [of "lg_attempts db" "raw_of now ?row"] that(1) cols show ?thesis by simp
  qed
  with insert_active_effect [OF Pair] same_rows show ?thesis by (auto simp: Pair)
qed

text \<open>Changes compose, so they are a relation in the sense of \<open>tx_relation\<close>.\<close>

interpretation lc: tx_relation "\<lambda>a b. ledger_change (lg_attempts a) (lg_attempts b)"
  by unfold_locales (auto intro: same_rows both_changes)

lemma rows_change: "ledger_change (lg_attempts db) (lg_attempts (snd (ledger_rows db)))"
  unfolding ledger_rows_def by (auto intro!: lc.R_bind lc.R_simple lc.R_statement same_rows)

lemma resolve_row_change: "ledger_change (lg_attempts db) (lg_attempts (snd (resolve_row report records now row db)))"
  unfolding resolve_row_def Let_def
  by (auto intro!: lc.R_bind lc.R_simple close_change blocked_change split: executor.splits)

lemma resolve_rows_change: "ledger_change (lg_attempts db) (lg_attempts (snd (resolve_rows report records now rows db)))"
  by (induction rows arbitrary: db) (auto intro!: lc.R_bind lc.R_simple resolve_row_change)

lemma call_change: "ledger_change (lg_attempts db) (lg_attempts (ledger_call_step c db))"
proof -
  have "ledger_change (lg_attempts db) (lg_attempts (snd (ledger_call_run call db)))" for call and db :: ledger_db
    by (cases call) (auto simp: resolve_active_ledger_rows_def
      intro!: start_change facts_change removed_change exit_change blocked_change close_change clear_change
        lc.R_bind rows_change resolve_rows_change)
  from this [of "db\<lparr>db_tape := fst c\<rparr>" "snd c"] show ?thesis by (simp add: ledger_call_step_def)
qed

lemma row_evolves_trans: "row_evolves a b \<Longrightarrow> row_evolves b c \<Longrightarrow> row_evolves a c"
  by (auto simp: row_evolves_def)

lemma ledger_change_ok:
  assumes "ledger_change m m'" and "rows_ok m"
  shows "rows_ok m' \<and> (\<forall>i r. hm_get m i = Some r \<longrightarrow> (\<exists>r'. hm_get m' i = Some r' \<and> row_evolves r r'))"
  using assms
proof (induction rule: ledger_change.induct)
  case (changed_row m i r r')
  then have "lx_attempt_id r' = i" by (auto simp: rows_ok_def row_evolves_def row_identity_def)
  with changed_row show ?case
    by (auto simp: rows_ok_def hm.get_insert hm_invar_insert) (auto simp: row_evolves_def)
next
  case (both_changes m m1 m2)
  then show ?case by (meson row_evolves_trans)
qed (auto simp: rows_ok_def hm.get_insert hm_invar_insert row_evolves_def)

interpretation rl: fact_history ledger_call_step "\<lambda>db. hm_get (lg_attempts db)" row_evolves ledger_ok
  using ledger_change_ok [OF call_change]
  by unfold_locales (auto simp: ledger_ok_def row_evolves_def)

section \<open>An attempt runs once\<close>

lemma insert_known_fails:
  assumes "hm_get (lg_attempts db) (lr_attempt_id row) = Some r"
  shows "isl (fst (insert_active row now db))"
proof (cases "insert_active row now db")
  case (Pair res db')
  from insert_active_effect [OF Pair] assms show ?thesis by (cases res) (auto simp: Pair)
qed

text \<open>
  An attempt is started once and its end is final. Over every history of ledger calls, with arbitrary
  failing statements, the row of an attempt is never lost and keeps its identity; no later call
  starts the attempt again; a closed row never changes; a blocked one can only be closed; a
  container closed for its report is known to be removed; and the row reads back.
\<close>
theorem ledger_row_lifecycle:
  assumes "ledger_ok db" and "hm_get (lg_attempts db) i = Some r"
  shows "\<exists>r' row. hm_get (lg_attempts (fold ledger_call_step calls db)) i = Some r' \<and> validate_row r' = Inr row \<and>
    row_identity r' = row_identity r \<and>
    (lx_state r = lit ''CLOSED'' \<longrightarrow> r' = r) \<and>
    (lx_state r = lit ''LOCAL_BLOCKED'' \<longrightarrow> r' = r \<or> lr_state row = RowClosed) \<and>
    (lr_executor row = ContainerExecutor \<and> lr_state row = RowClosed \<and> lr_reason row = Some (lit ''report_persisted'') \<longrightarrow>
       lr_container_removed row = Some True) \<and>
    (\<forall>again now tape. lr_attempt_id again = i \<longrightarrow>
       isl (fst (insert_active again now ((fold ledger_call_step calls db)\<lparr>db_tape := tape\<rparr>))))"
proof -
  let ?db = "fold ledger_call_step calls db"
  from rl.history_known [OF assms, of calls] obtain r' where r': "hm_get (lg_attempts ?db) i = Some r'" "row_evolves r r'" by blast
  from rl.history_sound [OF assms(1), of calls] r'(1) have ok: "row_ok r'" by (auto simp: ledger_ok_def rows_ok_def)
  then obtain row where row: "validate_row r' = Inr row" by (auto simp: row_ok_def)
  then have cols: "lx_state r' = row_state_as_str (lr_state row)" "lx_executor r' = executor_as_str (lr_executor row)"
    "lx_reason r' = lr_reason row" "lx_container_removed r' = opt_bool (lr_container_removed row)"
    by (simp_all add: validate_row_Inr)
  have "isl (fst (insert_active again now (?db\<lparr>db_tape := tape\<rparr>)))" if "lr_attempt_id again = i" for again now tape
    by (rule insert_known_fails [of _ _ r']) (use r' that in simp)
  moreover have "lr_container_removed row = Some True"
    if "lr_executor row = ContainerExecutor" "lr_state row = RowClosed" "lr_reason row = Some (lit ''report_persisted'')"
    using ok that by (simp add: row_ok_def cols opt_bool_one)
  ultimately show ?thesis using r' row unfolding state_text
    by (intro exI [of _ r'] exI [of _ row]) (auto simp: row_evolves_def cols)
qed

section \<open>Open attempts block\<close>

lemma validated_rows:
  assumes "rows_ok m" and "collect_results validate_row (sort_key lx_attempt_id (map snd m)) = Inr rows"
  shows "distinct (map lr_attempt_id rows)" and "row \<in> set rows \<longleftrightarrow> (\<exists>r. hm_get m (lr_attempt_id row) = Some r \<and> validate_row r = Inr row)"
proof -
  let ?raws = "sort_key lx_attempt_id (map snd m)"
  have all: "list_all2 (\<lambda>r row. validate_row r = Inr row) ?raws rows" using assms(2) by (simp add: collect_results_Ok)
  then have "map lr_attempt_id rows = map lx_attempt_id ?raws"
    by (induction rule: list_all2_induct) (simp_all add: validate_row_Inr)
  moreover have "map (lx_attempt_id \<circ> snd) m = map fst m"
    using assms(1) by (auto simp: rows_ok_def hm_invar_def hm_get_def)
  then have "distinct (map lx_attempt_id (map snd m))" using assms(1) unfolding map_map rows_ok_def hm_invar_def by metis
  then have "distinct (map lx_attempt_id ?raws)" by (metis distinct_map distinct_sort set_sort)
  ultimately show "distinct (map lr_attempt_id rows)" by simp
  have "row \<in> set rows \<longleftrightarrow> (\<exists>r \<in> set ?raws. validate_row r = Inr row)"
    using all by (induction rule: list_all2_induct) auto
  also have "\<dots> \<longleftrightarrow> (\<exists>r. hm_get m (lr_attempt_id row) = Some r \<and> validate_row r = Inr row)"
    using assms(1) by (force simp: rows_ok_def hm_invar_def hm_get_def image_iff validate_row_Inr)
  finally show "row \<in> set rows \<longleftrightarrow> (\<exists>r. hm_get m (lr_attempt_id row) = Some r \<and> validate_row r = Inr row)" .
qed

lemma ledger_rows_Ok:
  assumes "ledger_rows db = (Inr rows, db')"
  shows "collect_results validate_row (sort_key lx_attempt_id (map snd (lg_attempts db))) = Inr rows \<and> lg_attempts db' = lg_attempts db"
  using assms by (auto simp: ledger_rows_def tx_ok)

definition open_row :: "ledger_db \<Rightarrow> str \<Rightarrow> bool" where
  "open_row db i \<longleftrightarrow> (\<exists>r. hm_get (lg_attempts db) i = Some r \<and> lx_state r \<noteq> row_state_as_str RowClosed)"

text \<open>The calls that may end attempt \<open>i\<close>.\<close>

fun may_settle :: "str \<Rightarrow> ledger_call \<Rightarrow> bool" where
  "may_settle i (CloseActive j _ _) \<longleftrightarrow> j = i"
| "may_settle i (ClearBlocked j _) \<longleftrightarrow> j = i"
| "may_settle i (ResolveRows _ _ _) \<longleftrightarrow> True"
| "may_settle i _ \<longleftrightarrow> False"

lemma update_keeps_open:
  assumes "ledger_ok db" "open_row db i"
    and "i = j \<Longrightarrow> \<forall>r row. validate_row r = Inr row \<longrightarrow> lx_state r \<noteq> row_state_as_str RowClosed \<longrightarrow>
      lx_state (f (r\<lparr>lx_updated_at_unix_ms := now\<rparr>)) \<noteq> row_state_as_str RowClosed"
  shows "open_row (snd (update_state j guard f now db)) i"
proof (cases "update_state j guard f now db")
  case (Pair res db')
  from update_state_effect [OF Pair] assms show ?thesis
    by (auto simp: Pair open_row_def ledger_ok_def rows_ok_def hm.get_insert)
qed

lemma call_keeps_open:
  assumes "ledger_ok db" "open_row db i" "\<not> may_settle i call"
  shows "open_row (snd (ledger_call_run call db)) i"
proof (cases call)
  case (StartAttempt j job node epoch name runtime now)
  show ?thesis
  proof (cases "insert_active (start_row j job node epoch name runtime) now db")
    case (Pair res db')
    from insert_active_effect [OF Pair] assms(1,2) show ?thesis
      by (auto simp: StartAttempt Pair open_row_def ledger_ok_def rows_ok_def hm.get_insert)
  qed
qed (use assms in \<open>auto simp: record_facts_def mark_container_removed_def record_container_exit_def mark_local_blocked_def
    close_active_def clear_local_blocked_def row_state_as_str.simps split: if_splits intro!: update_keeps_open\<close>)

lemma history_keeps_open:
  assumes "ledger_ok db" "open_row db i" "\<forall>c \<in> set calls. \<not> may_settle i (snd c)"
  shows "open_row (fold ledger_call_step calls db) i"
  using assms
proof (induction calls arbitrary: db)
  case (Cons c calls)
  have "open_row (ledger_call_step c db) i"
    using call_keeps_open [of "db\<lparr>db_tape := fst c\<rparr>" i "snd c"] Cons.prems
    by (simp add: ledger_call_step_def ledger_ok_def open_row_def)
  with Cons rl.step_sound show ?case by simp
qed simp

lemma blocks_new_work_cases:
  assumes "ledger_ok db"
  shows "fst (blocks_new_work db) \<in> {Err LedgerSql, Ok (\<exists>i. open_row db i)}"
    and "db_tape db = [] \<Longrightarrow> fst (blocks_new_work db) = Ok (\<exists>i. open_row db i)"
proof -
  let ?m = "lg_attempts db"
  have ok: "rows_ok ?m" using assms by (simp add: ledger_ok_def)
  have "\<forall>r \<in> set (sort_key lx_attempt_id (map snd ?m)). \<exists>row. validate_row r = Inr row"
    using ok by (force simp: rows_ok_def hm_invar_def hm_get_def row_ok_def)
  then obtain rows where rows: "collect_results validate_row (sort_key lx_attempt_id (map snd ?m)) = Inr rows"
    using collect_results_total [of _ validate_row] by blast
  have "(\<exists>row \<in> set rows. lr_state row \<in> {RowActive, RowLocalBlocked}) \<longleftrightarrow> (\<exists>i. open_row db i)"
  proof -
    have st: "lr_state row \<in> {RowActive, RowLocalBlocked} \<longleftrightarrow> lx_state r \<noteq> row_state_as_str RowClosed" if "validate_row r = Inr row" for r row
      using that by (cases "lr_state row") (simp_all add: validate_row_Inr)
    have listed: "row \<in> set rows \<longleftrightarrow> (\<exists>i r. hm_get ?m i = Some r \<and> validate_row r = Inr row)" for row
      unfolding validated_rows(2) [OF ok rows] using ok by (auto simp: rows_ok_def validate_row_Inr)
    have "\<exists>row. validate_row r = Inr row" if "hm_get ?m i = Some r" for i r using ok that by (auto simp: rows_ok_def row_ok_def)
    with st show ?thesis unfolding open_row_def Bex_def listed by metis
  qed
  then have "list_ex (\<lambda>row. lr_state row \<in> {RowActive, RowLocalBlocked}) rows \<longleftrightarrow> (\<exists>i. open_row db i)"
    unfolding list_ex_iff .
  then show "fst (blocks_new_work db) \<in> {Err LedgerSql, Ok (\<exists>i. open_row db i)}"
    "db_tape db = [] \<Longrightarrow> fst (blocks_new_work db) = Ok (\<exists>i. open_row db i)"
    using rows by (auto simp: blocks_new_work_def ledger_rows_def statement_def statement_result_def ledger_sql_error_def tx_bind_def tx_return_def lift_result_def
      split: list.splits option.splits)
qed

text \<open>
  A started attempt keeps the node from new work. From the moment the row of an attempt is written, over every
  history without a call that closes or clears it, \<open>blocks_new_work\<close> answers yes; when a statement of it
  fails it is an error, never a no. A node all of whose attempts are closed is not blocked.
\<close>
theorem started_attempt_blocks:
  assumes "ledger_ok db0" and "insert_active (start_row i job node epoch name runtime) now db0 = (Ok (), db)"
    and "\<forall>c \<in> set calls. \<not> may_settle i (snd c)"
  shows "fst (blocks_new_work ((fold ledger_call_step calls db)\<lparr>db_tape := tape\<rparr>)) \<in> {Ok True, Err LedgerSql} \<and>
    fst (blocks_new_work ((fold ledger_call_step calls db)\<lparr>db_tape := []\<rparr>)) = Ok True \<and>
    (fst (blocks_new_work (db0\<lparr>db_tape := []\<rparr>)) = Ok False \<longleftrightarrow>
       (\<forall>j r. hm_get (lg_attempts db0) j = Some r \<longrightarrow> lx_state r = lit ''CLOSED''))"
proof -
  let ?row = "start_row i job node epoch name runtime"
  let ?db = "fold ledger_call_step calls db"
  have ok: "ledger_ok db"
    using ledger_change_ok [OF start_change, of db0 i job node epoch name runtime now] assms(1,2) by (simp add: ledger_ok_def)
  have "open_row db i"
    using insert_active_effect [OF assms(2)] assms(1)
    by (auto simp: open_row_def ledger_ok_def rows_ok_def hm.get_insert raw_of_def)
  from history_keeps_open [OF ok this assms(3)] have "open_row ?db i" .
  then have "\<exists>i. open_row (?db\<lparr>db_tape := t\<rparr>) i" for t by (auto simp: open_row_def)
  moreover have "ledger_ok (?db\<lparr>db_tape := t\<rparr>)" for t using rl.history_sound [OF ok] by (simp add: ledger_ok_def)
  moreover have "(\<exists>i. open_row (db0\<lparr>db_tape := []\<rparr>) i) \<longleftrightarrow> \<not> (\<forall>j r. hm_get (lg_attempts db0) j = Some r \<longrightarrow> lx_state r = lit ''CLOSED'')"
    unfolding state_text by (auto simp: open_row_def)
  moreover have "ledger_ok (db0\<lparr>db_tape := []\<rparr>)" using assms(1) by (simp add: ledger_ok_def)
  ultimately show ?thesis
    using blocks_new_work_cases(1) [of "?db\<lparr>db_tape := tape\<rparr>"] blocks_new_work_cases(2) [of "?db\<lparr>db_tape := []\<rparr>"]
      blocks_new_work_cases(2) [of "db0\<lparr>db_tape := []\<rparr>"] by (simp add: disj_commute)
qed

section \<open>Settling what a crash has left\<close>

text \<open>The state in which an active row is left: blocked for an operator when its container was started and
  nothing proves that it has ended and is gone, closed otherwise.\<close>

definition settled_state :: "(run_row \<Rightarrow> ledger_error + bool) \<Rightarrow> str list \<Rightarrow> run_row \<Rightarrow> row_state" where
  "settled_state report records row =
     (if lr_executor row = ContainerExecutor \<and> lr_attempt_id row \<in> set records \<and>
         \<not> (report row = Ok True \<and> lr_container_removed row = Some True)
      then RowLocalBlocked else RowClosed)"

definition row_settled :: "(run_row \<Rightarrow> ledger_error + bool) \<Rightarrow> str list \<Rightarrow> ledger_db \<Rightarrow> run_row \<Rightarrow> bool" where
  "row_settled report records db row \<longleftrightarrow> (\<exists>r. hm_get (lg_attempts db) (lr_attempt_id row) = Some r \<and>
     lx_state r = row_state_as_str (if lr_state row = RowActive then settled_state report records row else lr_state row))"

lemma update_sets_state:
  assumes "update_state i guard f now db = (Ok (), db')" and "hm_invar (lg_attempts db)"
    and "\<And>r. lx_state (f r) = row_state_as_str st"
  shows "(\<exists>r. hm_get (lg_attempts db') i = Some r \<and> lx_state r = row_state_as_str st) \<and> hm_invar (lg_attempts db') \<and>
    (\<forall>j. j \<noteq> i \<longrightarrow> hm_get (lg_attempts db') j = hm_get (lg_attempts db) j)"
  using update_state_effect [OF assms(1)] assms(2,3) by (auto simp: hm.get_insert hm_invar_insert)

lemma close_sets_state:
  assumes "close_active i reason now db = (Ok (), db')" "hm_invar (lg_attempts db)"
  shows "(\<exists>r. hm_get (lg_attempts db') i = Some r \<and> lx_state r = row_state_as_str RowClosed) \<and> hm_invar (lg_attempts db') \<and>
    (\<forall>j. j \<noteq> i \<longrightarrow> hm_get (lg_attempts db') j = hm_get (lg_attempts db) j)"
  by (rule update_sets_state [OF assms(1) [unfolded close_active_def state_text] assms(2)]) simp

lemma block_sets_state:
  assumes "mark_local_blocked i reason now db = (Ok (), db')" "hm_invar (lg_attempts db)"
  shows "(\<exists>r. hm_get (lg_attempts db') i = Some r \<and> lx_state r = row_state_as_str RowLocalBlocked) \<and> hm_invar (lg_attempts db') \<and>
    (\<forall>j. j \<noteq> i \<longrightarrow> hm_get (lg_attempts db') j = hm_get (lg_attempts db) j)"
  by (rule update_sets_state [OF assms(1) [unfolded mark_local_blocked_def state_text] assms(2)]) simp

lemma resolve_row_settles:
  assumes "resolve_row report records now row db = (Ok (), db')" and "hm_invar (lg_attempts db)"
    and "hm_get (lg_attempts db) (lr_attempt_id row) = Some r" "validate_row r = Inr row"
  shows "row_settled report records db' row \<and> hm_invar (lg_attempts db') \<and>
    (\<forall>j. j \<noteq> lr_attempt_id row \<longrightarrow> hm_get (lg_attempts db') j = hm_get (lg_attempts db) j)"
  using assms
  by (auto simp: resolve_row_def Let_def tx_ok tx_fail_def row_settled_def settled_state_def validate_row_Inr
      simp del: row_state_as_str_inject split: if_splits executor.splits dest!: close_sets_state block_sets_state)

lemma resolve_rows_settle:
  assumes "resolve_rows report records now rows db = (Ok (), db')" and "hm_invar (lg_attempts db)" and "distinct (map lr_attempt_id rows)"
    and "\<forall>row \<in> set rows. \<exists>r. hm_get (lg_attempts db) (lr_attempt_id row) = Some r \<and> validate_row r = Inr row"
  shows "(\<forall>row \<in> set rows. row_settled report records db' row) \<and>
    (\<forall>j. j \<notin> lr_attempt_id ` set rows \<longrightarrow> hm_get (lg_attempts db') j = hm_get (lg_attempts db) j)"
  using assms
proof (induction rows arbitrary: db)
  case (Cons row rows)
  from Cons.prems(1) obtain db1 where run: "resolve_row report records now row db = (Ok (), db1)"
    "resolve_rows report records now rows db1 = (Ok (), db')" by (auto simp: tx_ok)
  from Cons.prems(4) obtain r where "hm_get (lg_attempts db) (lr_attempt_id row) = Some r" "validate_row r = Inr row" by auto
  note first = resolve_row_settles [OF run(1) Cons.prems(2) this]
  have same: "hm_get (lg_attempts db1) (lr_attempt_id x) = hm_get (lg_attempts db) (lr_attempt_id x)" if "x \<in> set rows" for x
    using first Cons.prems(3) that by (metis distinct.simps(2) imageI list.set_map list.simps(9))
  with Cons.IH [OF run(2)] first Cons.prems(3,4)
  have rest: "(\<forall>row \<in> set rows. row_settled report records db' row) \<and>
    (\<forall>j. j \<notin> lr_attempt_id ` set rows \<longrightarrow> hm_get (lg_attempts db') j = hm_get (lg_attempts db1) j)" by simp
  moreover have "row_settled report records db' row" using first rest Cons.prems(3) by (simp add: row_settled_def)
  ultimately show ?case using first by auto
qed (simp add: tx_ok)

lemma resolve_settles:
  assumes "ledger_ok db" and "resolve_active_ledger_rows report records now db = (Ok (), db')"
    and "hm_get (lg_attempts db) i = Some r" "validate_row r = Inr row"
  shows "\<exists>r' row'. hm_get (lg_attempts db') i = Some r' \<and> validate_row r' = Inr row' \<and>
    lr_state row' = (if lr_state row = RowActive then settled_state report records row else lr_state row) \<and>
    (lr_state row' = RowLocalBlocked \<longrightarrow> fst (blocks_new_work (db'\<lparr>db_tape := []\<rparr>)) = Ok True)"
proof -
  from assms(2) obtain rows db1 where run: "ledger_rows db = (Inr rows, db1)" "resolve_rows report records now rows db1 = (Ok (), db')"
    by (auto simp: resolve_active_ledger_rows_def tx_ok)
  from ledger_rows_Ok [OF run(1)] have rows: "collect_results validate_row (sort_key lx_attempt_id (map snd (lg_attempts db))) = Inr rows"
    "lg_attempts db1 = lg_attempts db" by simp_all
  have ok: "rows_ok (lg_attempts db)" using assms(1) by (simp add: ledger_ok_def)
  have i: "lr_attempt_id row = i" using ok assms(3,4) by (auto simp: rows_ok_def validate_row_Inr)
  note listed = validated_rows(2) [OF ok rows(1)]
  from resolve_rows_settle [OF run(2)] validated_rows(1) [OF ok rows(1)] ok listed rows(2)
  have "\<forall>row \<in> set rows. row_settled report records db' row" by (simp add: rows_ok_def)
  moreover have "row \<in> set rows" using listed assms(3,4) i by blast
  ultimately obtain r' where r': "hm_get (lg_attempts db') i = Some r'"
    "lx_state r' = row_state_as_str (if lr_state row = RowActive then settled_state report records row else lr_state row)"
    using i by (auto simp: row_settled_def)
  have ok': "ledger_ok db'"
    using ledger_change_ok [OF resolve_rows_change, of db1 report records now rows] run(2) ok rows(2) by (simp add: ledger_ok_def)
  with r'(1) obtain row' where row': "validate_row r' = Inr row'" by (auto simp: ledger_ok_def rows_ok_def row_ok_def)
  then have "lr_state row' = (if lr_state row = RowActive then settled_state report records row else lr_state row)"
    using r'(2) by (simp add: validate_row_Inr)
  moreover have "fst (blocks_new_work (db'\<lparr>db_tape := []\<rparr>)) = Ok True" if "lr_state row' = RowLocalBlocked"
  proof -
    have "open_row (db'\<lparr>db_tape := []\<rparr>) i" using r'(1) row' that by (simp add: open_row_def validate_row_Inr)
    with blocks_new_work_cases(2) [of "db'\<lparr>db_tape := []\<rparr>"] ok' show ?thesis by (auto simp: ledger_ok_def)
  qed
  ultimately show ?thesis using r'(1) row' by blast
qed

lemma update_state_no_fault:
  assumes "db_tape db = []" "hm_get (lg_attempts db) i = Some r" "validate_row r = Inr row" "guard row = Inr ()"
  shows "\<exists>db'. update_state i guard f now db = (Ok (), db') \<and> db_tape db' = []"
proof -
  have "\<exists>db'. update_body i guard f now db = (Ok (), db') \<and> db_tape db' = []"
    using assms by (simp add: update_body_def tx_bind_def statement_no_fault lift_result_def update_attempt_def tx_return_def)
  then obtain db' where "update_body i guard f now db = (Ok (), db')" "db_tape db' = []" by blast
  with in_transaction_no_fault [of db "update_body i guard f now" "Ok ()" db' ledger_sql_error] assms(1)
  show ?thesis by (simp add: update_state_def)
qed

lemma resolve_row_no_fault:
  assumes "db_tape db = []" "hm_get (lg_attempts db) (lr_attempt_id row) = Some r" "validate_row r = Inr row" "\<not> isl (report row)"
  shows "\<exists>db'. resolve_row report records now row db = (Ok (), db') \<and> db_tape db' = []"
proof -
  have "lr_state row = RowActive \<Longrightarrow> lr_executor row \<noteq> LegacyExecutor" using assms(3) by (auto simp: validate_row_Inr row_kind_def)
  then show ?thesis
    using assms update_state_no_fault [OF assms(1-3)]
    by (cases "report row"; cases "lr_executor row") (auto simp: resolve_row_def Let_def tx_return_def tx_bind_def lift_result_def
        close_active_def mark_local_blocked_def may_close_Inr reject_if_Ok)
qed

lemma resolve_rows_no_fault:
  assumes "db_tape db = []" "hm_invar (lg_attempts db)" "distinct (map lr_attempt_id rows)" "\<forall>row. \<not> isl (report row)"
    and "\<forall>row \<in> set rows. \<exists>r. hm_get (lg_attempts db) (lr_attempt_id row) = Some r \<and> validate_row r = Inr row"
  shows "\<exists>db'. resolve_rows report records now rows db = (Ok (), db')"
  using assms
proof (induction rows arbitrary: db)
  case (Cons row rows)
  from Cons.prems(5) obtain r where r: "hm_get (lg_attempts db) (lr_attempt_id row) = Some r" "validate_row r = Inr row" by auto
  from resolve_row_no_fault [OF Cons.prems(1) r] Cons.prems(4) obtain db1 where
    run: "resolve_row report records now row db = (Ok (), db1)" "db_tape db1 = []" by blast
  note first = resolve_row_settles [OF run(1) Cons.prems(2) r]
  have "hm_get (lg_attempts db1) (lr_attempt_id x) = hm_get (lg_attempts db) (lr_attempt_id x)" if "x \<in> set rows" for x
    using first Cons.prems(3) that by (metis distinct.simps(2) imageI list.set_map list.simps(9))
  then have "\<exists>db'. resolve_rows report records now rows db1 = (Ok (), db')"
    using Cons.prems run(2) first by (intro Cons.IH) auto
  with run(1) show ?case by (auto simp: tx_bind_def)
qed (simp add: tx_return_def)

text \<open>
  What a crash has left open is settled at the next start. When \<open>resolve_active_ledger_rows\<close> returns, no row is active: an
  attempt whose container was started is blocked for an operator unless its report is kept and its
  container is known to be gone, every other active attempt is closed, and rows that were not active
  keep their state; with a blocked row the node takes no new work. It does return when no statement
  fails and the outbox can be read.
\<close>
theorem startup_settles_attempts:
  assumes "ledger_ok db" and "hm_get (lg_attempts db) i = Some r" "validate_row r = Inr row"
  shows "(\<forall>db'. resolve_active_ledger_rows report records now db = (Ok (), db') \<longrightarrow>
      (\<exists>r' row'. hm_get (lg_attempts db') i = Some r' \<and> validate_row r' = Inr row' \<and>
         lr_state row' = (if lr_state row = RowActive then settled_state report records row else lr_state row) \<and>
         (lr_state row' = RowLocalBlocked \<longrightarrow> fst (blocks_new_work (db'\<lparr>db_tape := []\<rparr>)) = Ok True))) \<and>
    (db_tape db = [] \<and> (\<forall>x. \<not> isl (report x)) \<longrightarrow> (\<exists>db'. resolve_active_ledger_rows report records now db = (Ok (), db')))"
proof (intro conjI allI impI)
  fix db' assume "resolve_active_ledger_rows report records now db = (Ok (), db')"
  from resolve_settles [OF assms(1) this assms(2,3)] show "\<exists>r' row'. hm_get (lg_attempts db') i = Some r' \<and> validate_row r' = Inr row' \<and>
    lr_state row' = (if lr_state row = RowActive then settled_state report records row else lr_state row) \<and>
    (lr_state row' = RowLocalBlocked \<longrightarrow> fst (blocks_new_work (db'\<lparr>db_tape := []\<rparr>)) = Ok True)" .
next
  assume healthy: "db_tape db = [] \<and> (\<forall>x. \<not> isl (report x))"
  have ok: "rows_ok (lg_attempts db)" using assms(1) by (simp add: ledger_ok_def)
  then have "\<forall>r \<in> set (sort_key lx_attempt_id (map snd (lg_attempts db))). \<exists>row. validate_row r = Inr row"
    by (force simp: rows_ok_def hm_invar_def hm_get_def row_ok_def)
  then obtain rows where rows: "collect_results validate_row (sort_key lx_attempt_id (map snd (lg_attempts db))) = Inr rows"
    using collect_results_total [of _ validate_row] by blast
  then have "ledger_rows db = (Ok rows, db)" using healthy by (simp add: ledger_rows_def tx_bind_def statement_no_fault lift_result_def)
  with resolve_rows_no_fault [of db rows report records now] validated_rows [OF ok rows] healthy ok
  show "\<exists>db'. resolve_active_ledger_rows report records now db = (Ok (), db')"
    by (simp add: resolve_active_ledger_rows_def tx_bind_def rows_ok_def)
qed

section \<open>Examples\<close>

definition empty_ledger :: ledger_db where
  "empty_ledger = \<lparr>db_tape = [], lg_meta = [], lg_attempts = []\<rparr>"

definition example_row :: run_row where
  "example_row = start_row (lit ''a'') (lit ''job'') (lit ''node'') 7 (Some (lit ''c'')) None"

definition example_ledger :: ledger_db where
  "example_ledger = empty_ledger\<lparr>lg_attempts := [(lit ''a'', raw_of 0 example_row)]\<rparr>"

lemma empty_ledger_ok: "ledger_ok empty_ledger"
  by (simp add: ledger_ok_def rows_ok_def empty_ledger_def hm_invar_def hm_get_def)

lemma example_run: "insert_active example_row 0 empty_ledger = (Ok (), example_ledger)"
proof -
  have "unat (7 :: u64) \<le> ledger_i64_max" by (simp add: ledger_i64_max_def)
  then show ?thesis
    by (simp add: insert_active_def in_transaction_def insert_row_def tx_bind_def tx_return_def statement_def statement_result_def
      example_ledger_def empty_ledger_def hm_get_def hm_insert_def example_row_def start_row_def new_active_def)
qed

lemma example_ledger_ok: "ledger_ok example_ledger"
  using ledger_change_ok [OF start_change, of empty_ledger "lit ''a''" "lit ''job''" "lit ''node''" 7 "Some (lit ''c'')" None 0]
    empty_ledger_ok example_run by (simp add: ledger_ok_def example_row_def)

lemma example_get: "hm_get (lg_attempts example_ledger) (lit ''a'') = Some (raw_of 0 example_row)"
  by (simp add: example_ledger_def hm_get_def)

lemma example_valid: "validate_row (raw_of 0 example_row) = Inr example_row"
  by (rule validate_raw_of) (auto simp: example_row_def row_kind_def start_row_def new_active_def ledger_i64_max_def)

theorem ledger_row_lifecycle_witness:
  "\<exists>r'. hm_get (lg_attempts (fold ledger_call_step [([], MarkBlocked (lit ''a'') [] 5)] example_ledger)) (lit ''a'') = Some r' \<and>
     isl (fst (insert_active example_row 9 ((fold ledger_call_step [([], MarkBlocked (lit ''a'') [] 5)] example_ledger)\<lparr>db_tape := []\<rparr>)))"
proof -
  have "lr_attempt_id example_row = lit ''a''" by (simp add: example_row_def)
  with ledger_row_lifecycle [OF example_ledger_ok example_get, of "[([], MarkBlocked (lit ''a'') [] 5)]"] show ?thesis by blast
qed

theorem started_attempt_blocks_witness:
  "fst (blocks_new_work ((fold ledger_call_step [([Some SqliteOther], MarkBlocked (lit ''a'') [] 5)] example_ledger)\<lparr>db_tape := []\<rparr>)) = Ok True"
  using started_attempt_blocks [OF empty_ledger_ok example_run [unfolded example_row_def],
    of "[([Some SqliteOther], MarkBlocked (lit ''a'') [] 5)]" "[]"] by simp

theorem startup_settles_attempts_witness:
  "\<exists>db' r' row'. resolve_active_ledger_rows (\<lambda>_. Ok False) [lit ''a''] 5 example_ledger = (Ok (), db') \<and>
     hm_get (lg_attempts db') (lit ''a'') = Some r' \<and> validate_row r' = Inr row' \<and> lr_state row' = RowLocalBlocked"
proof -
  have "db_tape example_ledger = [] \<and> (\<forall>x :: run_row. \<not> isl (Ok False :: ledger_error + bool))"
    by (simp add: example_ledger_def empty_ledger_def)
  moreover have "lr_state example_row = RowActive" "settled_state (\<lambda>_. Ok False) [lit ''a''] example_row = RowLocalBlocked"
    by (simp_all add: settled_state_def example_row_def start_row_def new_active_def)
  ultimately show ?thesis
    using startup_settles_attempts [OF example_ledger_ok example_get example_valid, of "\<lambda>_. Ok False" "[lit ''a'']" 5] by force
qed

end
