(* ===== verification/Spec2Isabelle.thy ===== *)
theory Spec2Isabelle
  imports Sched_Rank Sched_Scope Sched_Liveness Sched_Reassignment Ckpt_Replicas Ckpt_Writer Durable_Replay Lease_Refinement
    Fence_Watermark Report_Safety Protocol_Rules Membership Ingress Run_Ledger
begin

text \<open>
  gPUteer runs jobs on GPUs that other people own. A coordinator keeps jobs, leases and attempts in
  SQLite, chooses a node for every job and moves a job to another node when its node is lost; an
  agent on every node runs one attempt at a time, writes checkpoints and reports the end. This
  development models the Rust crates under \<open>src/crates/\<close> that decide: the scheduler
  kernels, the protocol rules, the cryptographic envelope, the stores of the coordinator, the
  files of the checkpoint crate, the run ledger of the agent and the runtime policy.

  \<^bold>\<open>How the parts interact.\<close> A message enters as a frame (\<open>Ingress\<close>), is decoded, verified against
  the keys of its signer (\<open>Keyring\<close>, \<open>Signing\<close>) and checked for replay (\<open>Replay_Guard\<close>,
  \<open>Durable_Replay\<close>). A verified submission becomes a job row (\<open>Job_Store\<close>); the scheduler filters
  and ranks nodes for it (\<open>Sched_Filter\<close>, \<open>Sched_Rank\<close>), and staging (\<open>Staging_Store\<close>) moves
  the job to the chosen node in one transaction: reservation, attempt, lease under a fresh fence epoch,
  job state and operation. The node renews its lease (\<open>Lease_Store\<close>) and fences its writes by
  the epoch (\<open>Fence_Watermark\<close>). Its last report ends attempt and job (\<open>Attempt_Reports\<close>) and
  releases the node; when it falls silent, failover (\<open>Failover\<close>) revokes the lease after the
  grace period and puts the job back into the queue with its newest resume point. The reassignment
  gate (\<open>Sched_Reassignment\<close>) decides whether a stranded job may move at all.

  \<^bold>\<open>Conventions.\<close> Machine integers are words (\<open>u8\<close>, \<open>u32\<close>, \<open>u64\<close>), a
  column of type \<open>INTEGER\<close> is an \<open>int\<close> where its sign matters; a string is the list of its
  code points; \<open>Result\<close> is a sum with the abbreviations \<open>Ok\<close> and \<open>Err\<close>, and every error
  of the source is a constructor. Record fields carry a short prefix of their type. Code that is
  not part of the sources is an argument: BLAKE3, Ed25519, the protobuf and JSON codecs, the firewall
  and the system clock. What a theorem needs of such an argument is a hypothesis of it, and its
  witness instantiates it.

  \<^bold>\<open>Failures.\<close> A store is a record that extends a connection with its tables (\<open>Sql_Tx\<close>). The
  connection carries a tape that says which of the next statements fail; a statement beyond the
  tape succeeds. So a lemma about all tapes is a lemma about every pattern of failing statements,
  and a lemma about the empty tape one about a healthy engine. A transaction changes the tables only
  if its body and its commit succeed. The same tape drives
  the system calls of the file system (\<open>File_System\<close>): files are written byte by byte, any
  call may fail, and a process that dies is one whose remaining calls all fail. So a lemma about all
  tapes holds for every crash point. Data that a power failure takes out of the page cache is outside the
  model, and so are writers outside the modelled programs; paths are those of Unix.

  \<^bold>\<open>Theories.\<close>
  \<^item> \<open>Prelude\<close>, \<open>Rust_Collections\<close>, \<open>Rust_Bytes\<close>: integers, results, strings, sorting;
    \<open>HashMap\<close> and \<open>BTreeMap\<close> with the locales \<open>std_map\<close> and \<open>std_btree\<close> as their
    interface; UTF-8 and big-endian bytes with their decoders.
  \<^item> \<open>Sched_Model\<close>, \<open>Sched_Filter\<close>, \<open>Sched_Rank\<close>, \<open>Sched_Scope\<close>, \<open>Sched_Liveness\<close>,
    \<open>Sched_Reassignment\<close> (\<open>scheduler/src/model.rs\<close>, \<open>filter.rs\<close>, \<open>rank.rs\<close>, \<open>scope.rs\<close>,
    \<open>liveness.rs\<close>, \<open>reassignment.rs\<close>): each kernel with all its input checks; the lemmas
    characterise its answer exactly and show that it does not depend on the order of its inputs.
  \<^item> \<open>Protocol_States\<close> (\<open>protocol/src/job_state.rs\<close>, \<open>attempt_state.rs\<close>,
    \<open>checkpoint/src/durability.rs\<close>): the transition tables, as instances of the locale
    \<open>transition_table\<close> (final states stay final, only listed states are reached).
  \<^item> \<open>Ckpt_Replicas\<close> (\<open>checkpoint/src/durability.rs\<close>): the count of effective replicas.
  \<^item> \<open>File_System\<close>, \<open>Ckpt_Atomic\<close> (\<open>checkpoint/src/atomic.rs\<close>, \<open>platform.rs\<close>), \<open>Ckpt_Commit\<close>
    (\<open>commit.rs\<close>, \<open>durability.rs\<close>), \<open>Ckpt_Writer\<close> (\<open>writer.rs\<close>): atomic writes, the staged commit, the
    publication, the search for a resume point and the collection of leftovers. A file is never
    torn, a manifest never precedes its data, a resumed checkpoint is intact, a collection keeps
    what a manifest lists; on a healthy system a session commits and the pointer moves. \<open>writes_only\<close> and
    \<open>returns\<close> are the two judgements: what a run may touch, and that it returns.
  \<^item> \<open>Canonical\<close> (\<open>protocol/src/canonical.rs\<close>): varints, fields, signature input, Merkle root;
    injectivity of the encodings and round trips.
  \<^item> \<open>Signing\<close> (\<open>protocol/src/signing.rs\<close>, \<open>constants.rs\<close>), \<open>Replay_Guard\<close>
    (\<open>crypto/src/replay.rs\<close>), \<open>Durable_Replay\<close> (\<open>crypto/src/durable_replay.rs\<close>): verification
    over the locale \<open>replay_guard\<close>, which both guards interpret: no message is accepted twice.
  \<^item> \<open>Keyring\<close>, \<open>Keyring_File\<close> (\<open>crypto/src/keyring.rs\<close>, \<open>lib.rs\<close>), \<open>Ingress\<close>
    (\<open>crypto/src/ingress.rs\<close>, \<open>framed_ingress.rs\<close>): keys, their rotation, revocation and
    file; from bytes to verified messages. \<open>key_directory\<close> is the interface of the verifier.
  \<^item> \<open>Protocol_Ids\<close> (\<open>crypto/src/hex.rs\<close>, \<open>protocol/src/nonce.rs\<close>, \<open>fenced_operation.rs\<close>),
    \<open>Protocol_Rules\<close> (\<open>watch_continuity.rs\<close>, \<open>attempt_report_rules.rs\<close>), \<open>Membership\<close>
    (\<open>membership.rs\<close>, \<open>execution_spec.rs\<close>, \<open>participation.rs\<close>): the rules a receiver applies.
  \<^item> \<open>Fence_Watermark\<close> (\<open>runtime-policy/src/lease_scope.rs\<close>, \<open>durable_lease_scope.rs\<close>),
    \<open>Runtime_Policy\<close> (\<open>artifact.rs\<close>, \<open>network.rs\<close>, \<open>vram.rs\<close>): what a node enforces.
  \<^item> \<open>Lease_Store\<close>, \<open>Lease_Refinement\<close> (\<open>coordinator/src/lease_store.rs\<close>): the lease table; its
    facts survive every history, and it refines a plain map.
  \<^item> \<open>Job_Store\<close>, \<open>Job_Rows\<close>, \<open>Job_Queue\<close> (\<open>coordinator/src/job_store.rs\<close>): submission,
    planning, queueing and the row codec; the queue is first in, first out.
  \<^item> \<open>Staging_Store\<close>, \<open>Staging_Effect\<close> (\<open>coordinator/src/staging_store.rs\<close>), \<open>Failover\<close>
    (\<open>failover.rs\<close>), \<open>Attempt_Reports\<close> (\<open>attempt_report_store.rs\<close>, \<open>reservation_release.rs\<close>).
  \<^item> \<open>Control_Machine\<close>, \<open>Control_Calls\<close>, \<open>Control_Staging\<close>, \<open>Control_Failover\<close>,
    \<open>Control_Reports\<close>, \<open>Control_History\<close>: the tables of the coordinator as a state machine.
    \<open>control_change\<close> lists the possible changes; every call of every store is a sequence of
    them whatever statements fail, so an invariant is proved once for the changes. The locale
    \<open>control_survives\<close> lifts a fact that changes preserve to histories of calls.
  \<^item> \<open>Control_Safety\<close>, \<open>Failover_Safety\<close>, \<open>Report_Safety\<close>: what histories guarantee: jobs walk the
    normative table, submissions are idempotent, an old lease is dead after failover, a report is
    final, a node is released once and with evidence.
  \<^item> \<open>Run_Ledger\<close> (\<open>agent/src/run_ledger.rs\<close>, \<open>lib.rs\<close>): the rows a node keeps of the attempts it has
    started. An attempt is started once, a closed row is final, a node with an open attempt takes no new
    work, and what a crash leaves open is settled at the next start.

  \<^bold>\<open>Termination and bounds.\<close> No definition takes fuel. Recursion that is not structural has a
  measure: the value that is still to be encoded (\<open>encode_varint\<close>), the bytes left
  (\<open>decode_varint_loop\<close>), the number of nodes of a level (\<open>merkle_reduce\<close>, \<open>mtree_reduce\<close>).
  Loops over collections are recursion over lists. Overflow is part of the model: \<open>checked_add\<close>,
  \<open>saturating_add\<close> and the signed columns of SQLite are written out, and limits such as the number of
  signers of a key ring or the quotas of the replay guards appear in the statements.

  \<^bold>\<open>Not modelled.\<close>
  \<^item> The protobuf adapters (\<open>protocol/src/signable.rs\<close>, \<open>to_fields.rs\<close>): they copy the fields of types
    that the build generates from \<open>src/proto/\<close>; where a rule reads such a message, the model has a
    record of the fields it reads.
  \<^item> The coordinator's tables of observations (\<open>inventory_store.rs\<close>, \<open>replica_ack_store.rs\<close>,
    \<open>checkpoint_manifest_store.rs\<close>, \<open>node_liveness_store.rs\<close>, \<open>neighbor_report_store.rs\<close>): they only
    feed the kernels, whose inputs are modelled; the inventory revision is a table of the model.
  \<^item> The copy of checkpoints to a shared directory (\<open>checkpoint/src/shared.rs\<close>).
  \<^item> The files around the run ledger: its creation, the generation pair and the adoption of old nodes.
  \<^item> The servers and the glue of the coordinator, the agent and the command line
    (\<open>coordinator/src/lib.rs\<close>, \<open>agent/src/lib.rs\<close>, \<open>cli/src/main.rs\<close>): sockets, threads, processes, containers
    and terminal output around the modelled calls.
  \<^item> The platform crates (\<open>runtime-linux\<close>, \<open>runtime-nvml\<close>, \<open>runtime-windows\<close>): calls of the operating
    system and the driver.
  \<^item> The wording of errors and log lines; the schema text of a database beyond its tables and columns.
\<close>

end
